(* ===== verification/Prelude.thy ===== *)
theory Prelude
  imports Main "HOL-Library.Word" "HOL-Library.List_Lexorder" "HOL-Library.Char_ord"
    "HOL-Library.Product_Lexorder"
begin

text \<open>
  Shared vocabulary of the development: the machine-integer operations of the Rust standard
  library that the sources call (\<open>checked_add\<close>, \<open>saturating_*\<close>), \<open>BTreeMap\<close> as a
  strictly sorted association list with its interface as a locale, stable sorting, decimal
  printing, and the reusable list lemmas of the components.
\<close>

named_theorems rust_int \<open>facts about checked and saturating machine arithmetic\<close>

named_theorems btree \<open>laws of the sorted-association-list model of BTreeMap\<close>

subsection \<open>Machine integers\<close>

type_synonym u8 = "8 word"
type_synonym u32 = "32 word"
type_synonym u64 = "64 word"

lemma unat_inj_iff [rust_int]: "unat a = unat b \<longleftrightarrow> a = b"
  by (simp add: word_unat_eq_iff)

lemma unat_of_nat_small: "n < 2 ^ LENGTH('a) \<Longrightarrow> unat (of_nat n :: 'a::len word) = n"
  by (simp add: unat_of_nat)

lemma of_nat_eq_small:
  "a < 2 ^ LENGTH('a) \<Longrightarrow> b < 2 ^ LENGTH('a) \<Longrightarrow> (of_nat a :: 'a::len word) = of_nat b \<longleftrightarrow> a = b"
  by (metis unat_of_nat_small)

text \<open>\<open>uN::checked_add\<close>: \<open>None\<close> exactly on overflow.\<close>

definition checked_add :: "'a::len word \<Rightarrow> 'a word \<Rightarrow> 'a word option" where
  "checked_add a b = (if unat a + unat b < 2 ^ LENGTH('a) then Some (a + b) else None)"

definition saturating_add :: "'a::len word \<Rightarrow> 'a word \<Rightarrow> 'a word" where
  "saturating_add a b = (if unat a + unat b < 2 ^ LENGTH('a) then a + b else - 1)"

definition saturating_mul :: "'a::len word \<Rightarrow> 'a word \<Rightarrow> 'a word" where
  "saturating_mul a b = (if unat a * unat b < 2 ^ LENGTH('a) then a * b else - 1)"

definition saturating_sub :: "'a::len word \<Rightarrow> 'a word \<Rightarrow> 'a word" where
  "saturating_sub a b = (if b \<le> a then a - b else 0)"

text \<open>\<open>uN::saturating_pow\<close>: the exact power where it fits, the maximum otherwise.\<close>

definition saturating_pow :: "'a::len word \<Rightarrow> nat \<Rightarrow> 'a word" where
  "saturating_pow a n = (if unat a ^ n < 2 ^ LENGTH('a) then a ^ n else - 1)"

lemma unat_word_max [rust_int]: "unat (- 1 :: 'a::len word) = 2 ^ LENGTH('a) - 1"
  by (simp add: unsigned_minus_1_eq_mask mask_eq_exp_minus_1)

lemma checked_add_Some [rust_int]:
  "checked_add a b = Some c \<longleftrightarrow> unat a + unat b < 2 ^ LENGTH('a) \<and> c = a + b"
  for a b c :: "'a::len word"
  by (auto simp: checked_add_def)

lemma checked_add_None [rust_int]:
  "checked_add a b = None \<longleftrightarrow> 2 ^ LENGTH('a) \<le> unat a + unat b"
  for a b :: "'a::len word"
  by (auto simp: checked_add_def)

lemma checked_add_ge: "checked_add a b = Some c \<Longrightarrow> a \<le> c"
  by (auto simp: checked_add_Some word_le_nat_alt unat_add_lem [THEN iffD1])

lemma unat_saturating_add [rust_int]:
  "unat (saturating_add a b) = min (unat a + unat b) (2 ^ LENGTH('a) - 1)"
  for a b :: "'a::len word"
  by (auto simp: saturating_add_def unat_word_max unat_add_lem [THEN iffD1])

lemma unat_saturating_mul [rust_int]:
  "unat (saturating_mul a b) = min (unat a * unat b) (2 ^ LENGTH('a) - 1)"
  for a b :: "'a::len word"
  by (auto simp: saturating_mul_def unat_word_max unat_mult_lem [THEN iffD1])

lemma unat_saturating_sub [rust_int]:
  "unat (saturating_sub a b) = unat a - unat b"
  for a b :: "'a::len word"
  by (auto simp: saturating_sub_def word_le_nat_alt unat_sub)

lemma unat_power_word: "unat (a ^ n) = unat a ^ n mod 2 ^ LENGTH('a)"
  for a :: "'a::len word"
  by (induction n) (simp_all add: unat_word_ariths mod_mult_right_eq)

lemma unat_saturating_pow [rust_int]:
  "unat (saturating_pow a n) = min (unat a ^ n) (2 ^ LENGTH('a) - 1)"
  for a :: "'a::len word"
  by (auto simp: saturating_pow_def unat_word_max unat_power_word)

subsection \<open>BTreeMap\<close>

text \<open>
  A \<open>BTreeMap\<close> is the list of its entries in ascending key order, which is the order its
  iterators yield. \<open>insert\<close> replaces the value of a present key.
\<close>

type_synonym ('k, 'v) btree = "('k \<times> 'v) list"

fun bt_insert :: "'k::linorder \<Rightarrow> 'v \<Rightarrow> ('k, 'v) btree \<Rightarrow> ('k, 'v) btree" where
  "bt_insert k v [] = [(k, v)]"
| "bt_insert k v ((k', v') # m) =
     (if k < k' then (k, v) # (k', v') # m
      else if k = k' then (k, v) # m
      else (k', v') # bt_insert k v m)"

fun bt_remove :: "'k \<Rightarrow> ('k, 'v) btree \<Rightarrow> ('k, 'v) btree" where
  "bt_remove k [] = []"
| "bt_remove k ((k', v') # m) = (if k = k' then m else (k', v') # bt_remove k m)"

abbreviation (input) bt_get :: "('k, 'v) btree \<Rightarrow> 'k \<Rightarrow> 'v option" where
  "bt_get \<equiv> map_of"

abbreviation (input) bt_keys :: "('k, 'v) btree \<Rightarrow> 'k list" where
  "bt_keys \<equiv> map fst"

abbreviation (input) bt_values :: "('k, 'v) btree \<Rightarrow> 'v list" where
  "bt_values \<equiv> map snd"

definition bt_ok :: "('k::linorder, 'v) btree \<Rightarrow> bool" where
  "bt_ok m \<longleftrightarrow> sorted_wrt (<) (bt_keys m)"

lemma bt_ok_Nil [simp]: "bt_ok []"
  by (simp add: bt_ok_def)

lemma bt_ok_Cons [simp]: "bt_ok ((k, v) # m) \<longleftrightarrow> (\<forall>k' \<in> fst ` set m. k < k') \<and> bt_ok m"
  by (auto simp: bt_ok_def)

lemma bt_ok_distinct: "bt_ok m \<Longrightarrow> distinct (bt_keys m)"
  by (simp add: bt_ok_def strict_sorted_iff)

lemma fst_set_bt_insert [btree]: "fst ` set (bt_insert k v m) = insert k (fst ` set m)"
  by (induction k v m rule: bt_insert.induct) auto

lemma set_bt_insert: "set (bt_insert k v m) \<subseteq> insert (k, v) (set m)"
  by (induction k v m rule: bt_insert.induct) auto

lemma set_bt_remove: "set (bt_remove k m) \<subseteq> set m"
  by (induction k m rule: bt_remove.induct) auto

lemma bt_ok_insert [btree]: "bt_ok m \<Longrightarrow> bt_ok (bt_insert k v m)"
  by (induction k v m rule: bt_insert.induct) (auto simp: fst_set_bt_insert)

lemma bt_ok_remove [btree]: "bt_ok m \<Longrightarrow> bt_ok (bt_remove k m)"
  by (induction k m rule: bt_remove.induct) (auto dest: set_bt_remove [THEN subsetD])

lemma bt_get_insert [btree]: "bt_get (bt_insert k v m) = (bt_get m)(k \<mapsto> v)"
  by (induction k v m rule: bt_insert.induct) auto

lemma bt_get_remove [btree]: "bt_ok m \<Longrightarrow> bt_get (bt_remove k m) = (bt_get m)(k := None)"
proof (induction k m rule: bt_remove.induct)
  case (2 k k' v' m)
  then show ?case
    by (auto simp: map_of_eq_None_iff fun_eq_iff)
qed simp

lemma bt_get_Some_iff: "bt_ok m \<Longrightarrow> bt_get m k = Some v \<longleftrightarrow> (k, v) \<in> set m"
  by (simp add: bt_ok_distinct)

text \<open>
  The interface a client of an ordered map relies on: lookups after each update, and entries
  that come out in strictly ascending key order and agree with lookup.
\<close>

locale ordered_map =
  fixes get :: "'m \<Rightarrow> 'k::linorder \<Rightarrow> 'v option"
    and ins :: "'k \<Rightarrow> 'v \<Rightarrow> 'm \<Rightarrow> 'm"
    and del :: "'k \<Rightarrow> 'm \<Rightarrow> 'm"
    and entries :: "'m \<Rightarrow> ('k \<times> 'v) list"
    and ok :: "'m \<Rightarrow> bool"
  assumes get_ins: "ok m \<Longrightarrow> get (ins k v m) = (get m)(k \<mapsto> v)"
    and get_del: "ok m \<Longrightarrow> get (del k m) = (get m)(k := None)"
    and entries_get: "ok m \<Longrightarrow> get m = map_of (entries m)"
    and entries_sorted: "ok m \<Longrightarrow> sorted_wrt (<) (map fst (entries m))"
    and ok_ins: "ok m \<Longrightarrow> ok (ins k v m)"
    and ok_del: "ok m \<Longrightarrow> ok (del k m)"
begin

lemma entries_distinct: "ok m \<Longrightarrow> distinct (map fst (entries m))"
  using entries_sorted strict_sorted_iff by blast

lemma entries_iff: "ok m \<Longrightarrow> (k, v) \<in> set (entries m) \<longleftrightarrow> get m k = Some v"
  by (simp add: entries_get entries_distinct)

text \<open>Entries are determined by the lookup function: the representation is canonical.\<close>

lemma entries_canonical:
  assumes "ok m" "ok n" "get m = get n"
  shows "entries m = entries n"
proof -
  have eq: "set (entries m) = set (entries n)"
    using assms by (auto simp: entries_iff)
  then have "fst ` set (entries m) = fst ` set (entries n)" by simp
  then have keys: "map fst (entries m) = map fst (entries n)"
    using assms by (intro strict_sorted_equal) (simp_all add: entries_sorted)
  show ?thesis
  proof (rule nth_equalityI)
    from keys show len: "length (entries m) = length (entries n)"
      by (metis length_map)
    fix i assume i: "i < length (entries m)"
    then obtain k v where kv: "entries m ! i = (k, v)" by fastforce
    with i have "(k, v) \<in> set (entries n)"
      using eq nth_mem by metis
    moreover obtain v' where kv': "entries n ! i = (k, v')"
      using keys i len kv by (metis fst_conv nth_map surj_pair)
    moreover have "(k, v') \<in> set (entries n)"
      using kv' i len nth_mem by metis
    ultimately show "entries m ! i = entries n ! i"
      using assms kv by (metis entries_iff option.inject)
  qed
qed

lemma ins_overwrite: "ok m \<Longrightarrow> entries (ins k v (ins k w m)) = entries (ins k v m)"
  by (intro entries_canonical) (simp_all add: ok_ins get_ins)

end

interpretation bt: ordered_map bt_get bt_insert bt_remove "\<lambda>m. m" bt_ok
  by unfold_locales (auto simp: btree intro: bt_ok_def [THEN iffD1])

subsection \<open>Vectors\<close>

text \<open>\<open>Vec::get\<close>: \<open>None\<close> out of range.\<close>

definition vec_get :: "'a list \<Rightarrow> nat \<Rightarrow> 'a option" where
  "vec_get xs i = (if i < length xs then Some (xs ! i) else None)"

lemma vec_get_Some_iff: "vec_get xs i = Some x \<longleftrightarrow> i < length xs \<and> xs ! i = x"
  by (auto simp: vec_get_def)

lemma vec_get_None_iff [simp]: "vec_get xs i = None \<longleftrightarrow> length xs \<le> i"
  by (auto simp: vec_get_def)

lemma vec_get_update:
  "vec_get (xs[i := x]) j = (if i = j \<and> i < length xs then Some x else vec_get xs j)"
  by (auto simp: vec_get_def)

lemma vec_get_append:
  "vec_get (xs @ ys) i = (if i < length xs then Some (xs ! i) else vec_get ys (i - length xs))"
  by (auto simp: vec_get_def nth_append)

subsection \<open>Results\<close>

text \<open>A \<open>Result\<close> is a sum, \<open>Inl\<close> the error; \<open>rbind\<close> is the \<open>?\<close> operator.\<close>

definition rbind :: "'e + 'a \<Rightarrow> ('a \<Rightarrow> 'e + 'b) \<Rightarrow> 'e + 'b" where
  "rbind r f = (case r of Inl e \<Rightarrow> Inl e | Inr a \<Rightarrow> f a)"

lemma rbind_simps [simp]: "rbind (Inl e) f = Inl e" "rbind (Inr a) f = f a"
  by (simp_all add: rbind_def)

lemma rbind_eq_Inr: "rbind r f = Inr b \<longleftrightarrow> (\<exists>a. r = Inr a \<and> f a = Inr b)"
  by (cases r) auto

text \<open>\<open>collect::<Result<Vec<_>, _>>()\<close>: the first error stops the iteration.\<close>

fun collect_results :: "('a \<Rightarrow> 'e + 'b) \<Rightarrow> 'a list \<Rightarrow> 'e + 'b list" where
  "collect_results f [] = Inr []"
| "collect_results f (x # xs) =
     rbind (f x) (\<lambda>y. rbind (collect_results f xs) (\<lambda>ys. Inr (y # ys)))"

lemma collect_results_map:
  "(\<And>x. x \<in> set xs \<Longrightarrow> f x = Inr (g x)) \<Longrightarrow> collect_results f xs = Inr (map g xs)"
  by (induction xs) auto

text \<open>A loop over a fallible step.\<close>

fun fold_results :: "('a \<Rightarrow> 'c \<Rightarrow> 'e + 'a) \<Rightarrow> 'a \<Rightarrow> 'c list \<Rightarrow> 'e + 'a" where
  "fold_results f a [] = Inr a"
| "fold_results f a (c # cs) = rbind (f a c) (\<lambda>a. fold_results f a cs)"

lemma fold_results_append:
  "fold_results f a (cs @ ds) = rbind (fold_results f a cs) (\<lambda>a. fold_results f a ds)"
proof (induction cs arbitrary: a)
  case (Cons c cs)
  then show ?case by (cases "f a c") simp_all
qed simp

subsection \<open>Printing\<close>

text \<open>A string between single quotes, as the format strings of the messages write it.\<close>

definition quoted :: "string \<Rightarrow> string" where
  "quoted s = CHR 0x27 # s @ [CHR 0x27]"

text \<open>\<open>to_string\<close> of an unsigned integer: its decimal digits, most significant first.\<close>

fun dec_nat :: "nat \<Rightarrow> string" where
  "dec_nat n = (if n < 10 then [char_of (48 + n)] else dec_nat (n div 10) @ [char_of (48 + n mod 10)])"

declare dec_nat.simps [simp del]

definition to_string :: "'a::len word \<Rightarrow> string" where
  "to_string w = dec_nat (unat w)"

definition dec_val :: "string \<Rightarrow> nat" where
  "dec_val s = foldl (\<lambda>v c. 10 * v + (of_char c - 48)) 0 s"

lemma dec_val_snoc: "dec_val (s @ [c]) = 10 * dec_val s + (of_char c - 48)"
  by (simp add: dec_val_def)

lemma of_char_digit: "d < 10 \<Longrightarrow> (of_char (char_of (48 + d) :: char) :: nat) = 48 + d"
  by (simp add: of_char_of)

lemma dec_val_dec_nat: "dec_val (dec_nat n) = n"
proof (induction n rule: dec_nat.induct)
  case (1 n)
  have one: "dec_val [c] = of_char c - 48" for c by (simp add: dec_val_def)
  show ?case
  proof (cases "n < 10")
    case True
    then show ?thesis by (simp add: dec_nat.simps [of n] one of_char_digit)
  next
    case False
    then have "dec_val (dec_nat n) = 10 * dec_val (dec_nat (n div 10)) + n mod 10"
      by (simp add: dec_nat.simps [of n] dec_val_snoc of_char_digit)
    with False 1 show ?thesis by simp
  qed
qed

lemma to_string_inj [simp]: "to_string a = to_string b \<longleftrightarrow> a = b"
  by (metis dec_val_dec_nat to_string_def unat_inj_iff)

text \<open>
  An injective encoding of string tuples, used as a concrete instance where a statement is about
  an arbitrary injective tuple encoding.
\<close>

fun esc :: "string \<Rightarrow> string" where
  "esc [] = ''.''"
| "esc (c # s) = CHR ''x'' # c # esc s"

fun esc_tuple :: "string list \<Rightarrow> string" where
  "esc_tuple [] = []"
| "esc_tuple (s # ss) = esc s @ esc_tuple ss"

lemma esc_prefix_free: "esc a @ r = esc b @ r' \<longleftrightarrow> a = b \<and> r = r'"
proof (induction a arbitrary: b)
  case Nil
  then show ?case by (cases b) auto
next
  case (Cons c a)
  then show ?case by (cases b) auto
qed

lemma esc_tuple_inj: "esc_tuple a = esc_tuple b \<Longrightarrow> a = b"
proof (induction a arbitrary: b)
  case Nil
  have "esc s \<noteq> []" for s by (cases s) auto
  with Nil show ?case by (cases b) auto
next
  case (Cons s ss)
  have "esc s \<noteq> []" for s by (cases s) auto
  with Cons show ?case by (cases b) (auto simp: esc_prefix_free)
qed

subsection \<open>Handle tables\<close>

text \<open>
  The contract of a generation-checked slot map, as the dispatcher pools and the graph arena
  provide it: an insertion returns a handle that was dead before and changes the lookup at
  that handle only; a removal kills exactly its handle.
\<close>

locale handle_table =
  fixes ok :: "'s \<Rightarrow> bool"
    and room :: "'s \<Rightarrow> bool"
    and get :: "'s \<Rightarrow> 'h \<rightharpoonup> 'f"
    and add :: "'s \<Rightarrow> 'f \<Rightarrow> 's \<times> 'h"
    and rem :: "'s \<Rightarrow> 'h \<Rightarrow> 's"
  assumes add_fresh: "ok s \<Longrightarrow> room s \<Longrightarrow> get s (snd (add s f)) = None"
    and get_add: "ok s \<Longrightarrow> room s \<Longrightarrow> get (fst (add s f)) = (get s)(snd (add s f) \<mapsto> f)"
    and get_rem: "ok s \<Longrightarrow> get (rem s h) = (get s)(h := None)"
    and ok_add: "ok s \<Longrightarrow> room s \<Longrightarrow> ok (fst (add s f))"
    and ok_rem: "ok s \<Longrightarrow> ok (rem s h)"
begin

lemma add_preserves: "ok s \<Longrightarrow> room s \<Longrightarrow> get s h = Some g \<Longrightarrow> get (fst (add s f)) h = Some g"
  using add_fresh [of s f] by (auto simp: get_add)

lemma add_rem_cancel: "ok s \<Longrightarrow> room s \<Longrightarrow> get (rem (fst (add s f)) (snd (add s f))) = get s"
  using add_fresh [of s f] by (auto simp: get_add get_rem ok_add)

text \<open>Removing a list of handles leaves every other live handle as it was.\<close>

lemma rem_all:
  "ok s \<Longrightarrow> ok (fold (\<lambda>h s. rem s h) hs s) \<and>
     get (fold (\<lambda>h s. rem s h) hs s) = (get s) |` (- set hs)"
proof (induction hs arbitrary: s)
  case (Cons h hs)
  then show ?case
    by (auto simp: ok_rem get_rem restrict_map_def fun_eq_iff)
qed (simp add: restrict_map_def)

end

subsection \<open>Cursor paging\<close>

text \<open>
  A client reads a projection page by page, feeding the cursor of one page into the next
  request, until a page carries no cursor.
\<close>

fun read_pages :: "nat \<Rightarrow> ('c option \<Rightarrow> ('i list \<times> 'c option) option) \<Rightarrow> 'c option \<Rightarrow> 'i list option"
  where
  "read_pages 0 page c = None"
| "read_pages (Suc fuel) page c =
     (case page c of
        None \<Rightarrow> None
      | Some (items, None) \<Rightarrow> Some items
      | Some (items, Some c') \<Rightarrow> map_option ((@) items) (read_pages fuel page (Some c')))"

definition after_cursor :: "('i \<Rightarrow> 'c::linorder) \<Rightarrow> 'c option \<Rightarrow> 'i \<Rightarrow> bool" where
  "after_cursor key c i = (case c of None \<Rightarrow> True | Some c' \<Rightarrow> c' < key i)"

definition cut_page :: "('i \<Rightarrow> 'c) \<Rightarrow> nat \<Rightarrow> 'i list \<Rightarrow> 'i list \<times> 'c option" where
  "cut_page key n rest =
     (take n rest, if length rest > n then Some (key (last (take n rest))) else None)"

lemma filter_after_sorted:
  assumes "sorted_wrt (\<lambda>a b. key a < (key b :: 'c::linorder)) xs" "0 < n" "n \<le> length xs"
  shows "filter (\<lambda>i. key (last (take n xs)) < key i) xs = drop n xs"
proof -
  have split: "sorted_wrt (\<lambda>a b. key a < key b) (take n xs @ drop n xs)"
    using assms(1) by simp
  have ne: "take n xs \<noteq> []" using assms by auto
  let ?l = "last (take n xs)"
  from split have "\<forall>i \<in> set (drop n xs). key ?l < key i"
    using last_in_set [OF ne] unfolding sorted_wrt_append by blast
  then have later: "filter (\<lambda>i. key ?l < key i) (drop n xs) = drop n xs" by simp
  have "sorted_wrt (\<lambda>a b. key a < key b) (butlast (take n xs) @ [?l])"
    using split ne append_butlast_last_id sorted_wrt_append by metis
  then have "\<forall>i \<in> set (butlast (take n xs)). key i < key ?l"
    by (simp add: sorted_wrt_append)
  moreover have "set (take n xs) = insert ?l (set (butlast (take n xs)))"
    using ne by (metis append_butlast_last_id list.simps(15) rotate1.simps(2) set_rotate1)
  ultimately have "filter (\<lambda>i. key ?l < key i) (take n xs) = []"
    by (auto simp: filter_empty_conv)
  with later show ?thesis
    by (metis append_Nil append_take_drop_id filter_append)
qed

text \<open>
  The contract of a paged view: its items come in strictly ascending cursor order, and a page
  of an admissible size \<open>n\<close> is the first \<open>n\<close> items behind the cursor, with a cursor
  exactly when items are left.
\<close>

locale paged_view =
  fixes ok :: "'s \<Rightarrow> bool"
    and view :: "'s \<Rightarrow> 'i list"
    and key :: "'i \<Rightarrow> 'c::linorder"
    and sized :: "nat \<Rightarrow> bool"
    and page :: "'s \<Rightarrow> nat \<Rightarrow> 'c option \<Rightarrow> ('i list \<times> 'c option) option"
  assumes view_sorted: "ok s \<Longrightarrow> sorted_wrt (\<lambda>a b. key a < key b) (view s)"
    and sized_pos: "sized n \<Longrightarrow> 0 < n"
    and page_eq: "ok s \<Longrightarrow> sized n \<Longrightarrow> c = None \<or> c \<in> Some ` key ` set (view s) \<Longrightarrow>
      page s n c = Some (cut_page key n (filter (after_cursor key c) (view s)))"
begin

lemma after_cut:
  assumes "ok s" "0 < n" "rest = filter (after_cursor key c) (view s)" "n < length rest"
  shows "filter (after_cursor key (Some (key (last (take n rest))))) (view s) = drop n rest"
proof -
  let ?l = "key (last (take n rest))"
  have sorted: "sorted_wrt (\<lambda>a b. key a < key b) rest"
    using assms by (simp add: sorted_wrt_filter view_sorted)
  have "last (take n rest) \<in> set rest"
    using assms by (metis in_set_takeD last_in_set length_0_conv length_take less_nat_zero_code
        min_0R min_less_iff_conj not_gr_zero take_eq_Nil)
  then have "after_cursor key c (last (take n rest))"
    using assms(3) by simp
  then have "filter (after_cursor key (Some ?l)) (view s) = filter (\<lambda>i. ?l < key i) rest"
    unfolding assms(3) filter_filter
    by (intro filter_cong) (auto simp: after_cursor_def split: option.splits)
  also have "\<dots> = drop n rest"
    using filter_after_sorted [OF sorted] assms by simp
  finally show ?thesis .
qed

lemma read_rest:
  assumes "ok s" "sized n" "length (filter (after_cursor key c) (view s)) < fuel"
    "c = None \<or> c \<in> Some ` key ` set (view s)"
  shows "read_pages fuel (page s n) c = Some (filter (after_cursor key c) (view s))"
  using assms
proof (induction fuel arbitrary: c)
  case (Suc fuel)
  define rest where "rest = filter (after_cursor key c) (view s)"
  show ?case
  proof (cases "n < length rest")
    case True
    then have next_rest: "filter (after_cursor key (Some (key (last (take n rest))))) (view s) = drop n rest"
      using after_cut Suc.prems(1,2) rest_def sized_pos by blast
    have "take n rest \<noteq> []" using True Suc.prems(2) sized_pos by fastforce
    then have "last (take n rest) \<in> set (take n rest)" by (rule last_in_set)
    then have "last (take n rest) \<in> set rest" by (rule in_set_takeD)
    then have "last (take n rest) \<in> set (view s)" by (simp add: rest_def)
    with next_rest have "read_pages fuel (page s n) (Some (key (last (take n rest)))) = Some (drop n rest)"
      using Suc.IH [of "Some (key (last (take n rest)))"] Suc.prems True sized_pos [OF Suc.prems(2)]
      by (simp add: rest_def)
    with True show ?thesis
      using page_eq [OF Suc.prems(1,2,4)] by (simp add: cut_page_def rest_def)
  next
    case False
    then show ?thesis
      using page_eq [OF Suc.prems(1,2,4)] by (simp add: cut_page_def rest_def)
  qed
qed simp

text \<open>Reading from the start returns every item once, in order, whatever the page size.\<close>

lemma read_all:
  "ok s \<Longrightarrow> sized n \<Longrightarrow> length (view s) < fuel \<Longrightarrow> read_pages fuel (page s n) None = Some (view s)"
  using read_rest [of s n None fuel] by (simp add: after_cursor_def)

end

end
