(* ===== verification/Protocol.thy ===== *)
theory Protocol
  imports Prelude
begin

text \<open>
  The wave-protocol data types of \<open>protocol.rs\<close>: the closed set of message kinds, the
  seven-tier table that orders a wave and cuts it into immediate and batch-deferred parts, and
  the kinds that may travel upstream. Values are the type parameter \<open>'v\<close> (the sources' erased
  \<open>Rc<dyn Any>\<close>); an error is its display text.
\<close>

type_synonym lock_id = string

record 'v pull_demand =
  pull_id :: lock_id
  pull_params :: "'v option"

datatype tier =
    TierStart | TierControl | TierNotification | TierValue | TierSettle | TierTerminal | TierTeardown

fun as_u8 :: "tier \<Rightarrow> u8" where
  "as_u8 TierStart = 0"
| "as_u8 TierControl = 1"
| "as_u8 TierNotification = 2"
| "as_u8 TierValue = 3"
| "as_u8 TierSettle = 4"
| "as_u8 TierTerminal = 5"
| "as_u8 TierTeardown = 6"

definition is_immediate :: "tier \<Rightarrow> bool" where
  "is_immediate t \<longleftrightarrow> as_u8 t < as_u8 TierValue"

definition is_batch_deferred :: "tier \<Rightarrow> bool" where
  "is_batch_deferred t \<longleftrightarrow> \<not> is_immediate t"

definition is_pause_buffered :: "tier \<Rightarrow> bool" where
  "is_pause_buffered t \<longleftrightarrow> t \<in> {TierValue, TierSettle}"

text \<open>The derived \<open>Ord\<close> of the \<open>repr(u8)\<close> enum is the order of the discriminants.\<close>

instantiation tier :: linorder
begin

definition less_eq_tier :: "tier \<Rightarrow> tier \<Rightarrow> bool" where
  "s \<le> t \<longleftrightarrow> as_u8 s \<le> as_u8 t"

definition less_tier :: "tier \<Rightarrow> tier \<Rightarrow> bool" where
  "s < t \<longleftrightarrow> as_u8 s < as_u8 t"

instance
proof
  fix s t u :: tier
  show "s < t \<longleftrightarrow> s \<le> t \<and> \<not> t \<le> s"
    by (auto simp: less_eq_tier_def less_tier_def)
  show "s \<le> s"
    by (simp add: less_eq_tier_def)
  show "s \<le> t \<Longrightarrow> t \<le> u \<Longrightarrow> s \<le> u"
    by (auto simp: less_eq_tier_def)
  show "s \<le> t \<Longrightarrow> t \<le> s \<Longrightarrow> s = t"
    by (cases s; cases t) (simp_all add: less_eq_tier_def word_le_nat_alt)
  show "s \<le> t \<or> t \<le> s"
    by (auto simp: less_eq_tier_def)
qed

end

datatype (plugins only: code size) 'v message =
    Start
  | Pause lock_id
  | Resume lock_id
  | Pull "'v pull_demand"
  | Dirty
  | Data 'v
  | Resolved
  | Invalidate
  | Complete
  | Error string
  | Teardown

type_synonym 'v wave = "'v message list"

fun msg_tier :: "'v message \<Rightarrow> tier" where
  "msg_tier Start = TierStart"
| "msg_tier (Pause _) = TierControl"
| "msg_tier (Resume _) = TierControl"
| "msg_tier (Pull _) = TierControl"
| "msg_tier Dirty = TierNotification"
| "msg_tier (Data _) = TierValue"
| "msg_tier Resolved = TierValue"
| "msg_tier Invalidate = TierSettle"
| "msg_tier Complete = TierTerminal"
| "msg_tier (Error _) = TierTerminal"
| "msg_tier Teardown = TierTeardown"

fun is_up_allowed :: "'v message \<Rightarrow> bool" where
  "is_up_allowed Dirty = True"
| "is_up_allowed (Pause _) = True"
| "is_up_allowed (Resume _) = True"
| "is_up_allowed (Pull _) = True"
| "is_up_allowed Invalidate = True"
| "is_up_allowed Teardown = True"
| "is_up_allowed _ = False"

lemmas tier_class_defs =
  is_immediate_def is_batch_deferred_def is_pause_buffered_def word_less_nat_alt

lemma pause_buffered_deferred: "is_pause_buffered t \<Longrightarrow> is_batch_deferred t"
  by (cases t) (simp_all add: tier_class_defs)

text \<open>
  Every value-carrying or terminal kind is barred from travelling upstream, and of the kinds
  that may travel upstream only the invalidate request and the teardown are batch-deferred.
\<close>

lemma up_allowed_tiers:
  "is_up_allowed m \<Longrightarrow> is_batch_deferred (msg_tier m) \<Longrightarrow> m = Invalidate \<or> m = Teardown"
  by (cases m) (simp_all add: tier_class_defs)

lemma down_only_kinds:
  "\<not> is_up_allowed m \<longleftrightarrow> m = Start \<or> msg_tier m \<in> {TierValue, TierTerminal}"
  by (cases m) simp_all

end
