(* ===== verification/Dispatcher.thy ===== *)
theory Dispatcher
  imports Prelude
begin

text \<open>
  The dispatcher of \<open>dispatcher.rs\<close>: pools are slot maps of node functions addressed by
  \<open>(handle_id, generation)\<close>, with a free list and a 32-bit generation that is bumped (and
  wraps) every time a slot is freed. Node functions are the type parameter \<open>'f\<close>.
\<close>

datatype pool_kind = Sync | Async

record handle =
  pool_id :: u32
  handle_id :: u32
  generation :: u32

record 'f slot =
  slot_f :: "'f option"
  slot_generation :: u32

record 'f pool =
  kind :: pool_kind
  slots :: "'f slot list"
  free :: "u32 list"

definition pool_new :: "pool_kind \<Rightarrow> 'f pool" where
  "pool_new k = \<lparr>kind = k, slots = [], free = []\<rparr>"

text \<open>\<open>Vec::pop\<close> takes the last element of the free list.\<close>

definition pool_register :: "'f pool \<Rightarrow> 'f \<Rightarrow> 'f pool \<times> u32 \<times> u32" where
  "pool_register p f =
     (if free p \<noteq> []
      then let hid = last (free p);
               s = slots p ! unat hid
           in (p\<lparr>free := butlast (free p),
                 slots := (slots p)[unat hid := s\<lparr>slot_f := Some f\<rparr>]\<rparr>,
               hid, slot_generation s)
      else let hid = of_nat (length (slots p))
           in (p\<lparr>slots := slots p @ [\<lparr>slot_f = Some f, slot_generation = 0\<rparr>]\<rparr>, hid, 0))"

definition pool_unregister :: "'f pool \<Rightarrow> u32 \<Rightarrow> u32 \<Rightarrow> 'f pool" where
  "pool_unregister p hid g =
     (case vec_get (slots p) (unat hid) of
        None \<Rightarrow> p
      | Some s \<Rightarrow>
          if slot_generation s = g \<and> slot_f s \<noteq> None
          then p\<lparr>slots := (slots p)[unat hid := \<lparr>slot_f = None, slot_generation = slot_generation s + 1\<rparr>],
                 free := free p @ [hid]\<rparr>
          else p)"

definition pool_get :: "'f pool \<Rightarrow> u32 \<Rightarrow> u32 \<Rightarrow> 'f option" where
  "pool_get p hid g =
     (case vec_get (slots p) (unat hid) of
        None \<Rightarrow> None
      | Some s \<Rightarrow> if slot_generation s = g then slot_f s else None)"

record profile_stat =
  invokes :: u64
  total_duration_ns :: "128 word"
  last_duration_ns :: "128 word"

record 'f dispatcher =
  pools :: "'f pool list"
  recording :: bool
  stats :: "handle \<rightharpoonup> profile_stat"

definition SYNC_POOL_ID :: u32 where "SYNC_POOL_ID = 0"
definition ASYNC_POOL_ID :: u32 where "ASYNC_POOL_ID = 1"

definition dispatcher_new :: "'f dispatcher" where
  "dispatcher_new = \<lparr>pools = [pool_new Sync, pool_new Async], recording = False, stats = Map.empty\<rparr>"

definition set_recording :: "'f dispatcher \<Rightarrow> bool \<Rightarrow> 'f dispatcher" where
  "set_recording d on = d\<lparr>recording := on\<rparr>"

text \<open>Indexing \<open>pools\<close> out of range panics: \<open>None\<close>.\<close>

definition register_in :: "'f dispatcher \<Rightarrow> u32 \<Rightarrow> 'f \<Rightarrow> ('f dispatcher \<times> handle) option" where
  "register_in d pid f =
     (case vec_get (pools d) (unat pid) of
        None \<Rightarrow> None
      | Some p \<Rightarrow>
          (case pool_register p f of (p', hid, g) \<Rightarrow>
             Some (d\<lparr>pools := (pools d)[unat pid := p']\<rparr>,
                   \<lparr>pool_id = pid, handle_id = hid, generation = g\<rparr>)))"

definition register :: "'f dispatcher \<Rightarrow> 'f \<Rightarrow> ('f dispatcher \<times> handle) option" where
  "register d f = register_in d SYNC_POOL_ID f"

definition register_async :: "'f dispatcher \<Rightarrow> 'f \<Rightarrow> ('f dispatcher \<times> handle) option" where
  "register_async d f = register_in d ASYNC_POOL_ID f"

definition dispatcher_pool_kind :: "'f dispatcher \<Rightarrow> u32 \<Rightarrow> pool_kind option" where
  "dispatcher_pool_kind d pid = map_option kind (vec_get (pools d) (unat pid))"

definition unregister :: "'f dispatcher \<Rightarrow> handle \<Rightarrow> 'f dispatcher option" where
  "unregister d h =
     (case vec_get (pools d) (unat (pool_id h)) of
        None \<Rightarrow> None
      | Some p \<Rightarrow>
          Some (d\<lparr>pools := (pools d)[unat (pool_id h) := pool_unregister p (handle_id h) (generation h)],
                  stats := (stats d)(h := None)\<rparr>))"

text \<open>The drop of the profile guard: one more invocation, its duration added.\<close>

definition profile_guard_drop :: "'f dispatcher \<Rightarrow> handle \<Rightarrow> 128 word \<Rightarrow> 'f dispatcher" where
  "profile_guard_drop d h elapsed =
     (let s = (case stats d h of
                 None \<Rightarrow> \<lparr>invokes = 0, total_duration_ns = 0, last_duration_ns = 0\<rparr>
               | Some s \<Rightarrow> s)
      in d\<lparr>stats := (stats d)(h \<mapsto> \<lparr>invokes = invokes s + 1,
                                     total_duration_ns = total_duration_ns s + elapsed,
                                     last_duration_ns = elapsed\<rparr>)\<rparr>)"

text \<open>
  \<open>invoke\<close> looks the function up, then runs it with no borrow held, so the run may itself
  change the dispatcher (\<open>run\<close>); with the recorder on the guard drops after the run.
\<close>

definition invoke ::
  "('f \<Rightarrow> 'f dispatcher \<Rightarrow> 'f dispatcher) \<Rightarrow> 128 word \<Rightarrow> 'f dispatcher \<Rightarrow> handle \<Rightarrow> 'f dispatcher option"
  where
  "invoke run elapsed d h =
     (case vec_get (pools d) (unat (pool_id h)) of
        None \<Rightarrow> None
      | Some p \<Rightarrow>
          (case pool_get p (handle_id h) (generation h) of
             None \<Rightarrow> Some d
           | Some f \<Rightarrow>
               if recording d then Some (profile_guard_drop (run f d) h elapsed)
               else Some (run f d)))"

subsection \<open>The slot map is a handle table\<close>

text \<open>
  The free list holds each freed slot exactly once, and slot ids fit the 32-bit handle.
\<close>

definition pool_ok :: "'f pool \<Rightarrow> bool" where
  "pool_ok p \<longleftrightarrow> length (slots p) \<le> 2 ^ 32 \<and> distinct (free p) \<and>
     (\<forall>i. i \<in> set (free p) \<longleftrightarrow> unat i < length (slots p) \<and> slot_f (slots p ! unat i) = None)"

text \<open>A new slot still has an id, or a freed one can be reused.\<close>

definition pool_room :: "'f pool \<Rightarrow> bool" where
  "pool_room p \<longleftrightarrow> free p \<noteq> [] \<or> length (slots p) < 2 ^ 32"

definition pool_lookup :: "'f pool \<Rightarrow> u32 \<times> u32 \<rightharpoonup> 'f" where
  "pool_lookup p h = pool_get p (fst h) (snd h)"

abbreviation pool_remove :: "'f pool \<Rightarrow> u32 \<times> u32 \<Rightarrow> 'f pool" where
  "pool_remove p h \<equiv> pool_unregister p (fst h) (snd h)"

lemma pool_ok_new: "pool_ok (pool_new k)"
  by (simp add: pool_ok_def pool_new_def)

lemma pool_lookup_eq:
  "pool_lookup p (i, g) =
     (if unat i < length (slots p) \<and> slot_generation (slots p ! unat i) = g
      then slot_f (slots p ! unat i) else None)"
  by (simp add: pool_lookup_def pool_get_def vec_get_def)

lemma unat_of_nat_u32: "n < 2 ^ 32 \<Longrightarrow> unat (of_nat n :: u32) = n"
  by (simp add: unat_of_nat_small)

lemma u32_eq_of_nat: "n < 2 ^ 32 \<Longrightarrow> unat i = n \<longleftrightarrow> i = (of_nat n :: u32)"
  by (auto simp: unat_of_nat_u32)

lemma pool_register_reuse:
  assumes "pool_ok p" "free p \<noteq> []"
  shows "unat (last (free p)) < length (slots p)"
    and "slot_f (slots p ! unat (last (free p))) = None"
  using assms last_in_set [of "free p"] by (auto simp: pool_ok_def)

lemma pool_register_fresh:
  "pool_ok p \<Longrightarrow> pool_room p \<Longrightarrow> pool_lookup p (snd (pool_register p f)) = None"
  using pool_register_reuse [of p]
  by (cases "free p = []") (auto simp: pool_register_def pool_lookup_eq Let_def pool_room_def unat_of_nat_u32)

lemma pool_register_lookup:
  assumes "pool_ok p" "pool_room p"
  shows "pool_lookup (fst (pool_register p f)) =
    (pool_lookup p)(snd (pool_register p f) \<mapsto> f)"
proof (rule ext)
  fix h :: "u32 \<times> u32"
  obtain i g where h: "h = (i, g)" by fastforce
  show "pool_lookup (fst (pool_register p f)) h = ((pool_lookup p)(snd (pool_register p f) \<mapsto> f)) h"
  proof (cases "free p = []")
    case True
    with assms have len: "length (slots p) < 2 ^ 32" by (simp add: pool_room_def)
    show ?thesis
    proof (cases "unat i = length (slots p)")
      case i: True
      then have "i = of_nat (length (slots p))"
        using len by (simp add: u32_eq_of_nat)
      with True len i show ?thesis
        by (simp add: h pool_register_def pool_lookup_eq Let_def)
    next
      case False
      with True len show ?thesis
        by (auto simp: h pool_register_def pool_lookup_eq Let_def nth_append unat_of_nat_u32)
    qed
  next
    case False
    show ?thesis
    proof (cases "i = last (free p)")
      case True
      with False pool_register_reuse [OF assms(1) False] show ?thesis
        by (simp add: h pool_register_def pool_lookup_eq Let_def)
    next
      case ne: False
      with False show ?thesis
        by (simp add: h pool_register_def pool_lookup_eq Let_def unat_inj_iff)
    qed
  qed
qed

lemma pool_register_ok:
  assumes "pool_ok p" "pool_room p"
  shows "pool_ok (fst (pool_register p f))"
proof (cases "free p = []")
  case True
  with assms have "length (slots p) < 2 ^ 32" by (simp add: pool_room_def)
  with True assms(1) show ?thesis
    by (auto simp: pool_ok_def pool_register_def Let_def nth_append)
next
  case False
  have eq: "free p = butlast (free p) @ [last (free p)]" using False by simp
  have "distinct (butlast (free p) @ [last (free p)])"
    using assms(1) eq by (simp add: pool_ok_def)
  then have "last (free p) \<notin> set (butlast (free p))" "distinct (butlast (free p))" by auto
  moreover have "set (free p) = insert (last (free p)) (set (butlast (free p)))"
    using eq by (metis Un_insert_right list.simps(15) set_append sup_bot_right empty_set)
  moreover have "i \<in> set (free p) \<longleftrightarrow> unat i < length (slots p) \<and> slot_f (slots p ! unat i) = None" for i
    using assms(1) by (simp add: pool_ok_def)
  ultimately have "i \<in> set (butlast (free p)) \<longleftrightarrow>
      i \<noteq> last (free p) \<and> unat i < length (slots p) \<and> slot_f (slots p ! unat i) = None" for i
    by auto
  with \<open>distinct (butlast (free p))\<close> show ?thesis
    using False assms(1) pool_register_reuse(1) [OF assms(1) False]
    by (auto simp: pool_ok_def pool_register_def Let_def nth_list_update unat_inj_iff)
qed

lemma pool_unregister_lookup:
  "pool_lookup (pool_remove p h) = (pool_lookup p)(h := None)"
proof (rule ext)
  fix k :: "u32 \<times> u32"
  show "pool_lookup (pool_remove p h) k = ((pool_lookup p)(h := None)) k"
    by (cases h; cases k)
      (auto simp: pool_unregister_def pool_lookup_eq vec_get_def nth_list_update unat_inj_iff)
qed

lemma pool_unregister_ok: "pool_ok p \<Longrightarrow> pool_ok (pool_remove p h)"
  by (cases h)
    (auto simp: pool_unregister_def pool_ok_def vec_get_def nth_list_update unat_inj_iff
      split: if_splits)

interpretation pool: handle_table pool_ok pool_room pool_lookup pool_register pool_remove
  by unfold_locales
    (simp_all add: pool_register_fresh pool_register_lookup pool_unregister_lookup
      pool_register_ok pool_unregister_ok)

subsection \<open>Stale handles\<close>

datatype 'f pool_op = OpRegister 'f | OpUnregister u32 u32

fun pool_step :: "'f pool_op \<Rightarrow> 'f pool \<Rightarrow> 'f pool" where
  "pool_step (OpRegister f) p = fst (pool_register p f)"
| "pool_step (OpUnregister i g) p = pool_unregister p i g"

fun frees_slot :: "u32 \<Rightarrow> 'f pool_op \<Rightarrow> bool" where
  "frees_slot i (OpRegister _) = False"
| "frees_slot i (OpUnregister j _) = (i = j)"

definition slot_gen :: "'f pool \<Rightarrow> u32 \<Rightarrow> u32 option" where
  "slot_gen p i = map_option slot_generation (vec_get (slots p) (unat i))"

lemma slot_gen_register: "slot_gen p i = Some g \<Longrightarrow> slot_gen (fst (pool_register p f)) i = Some g"
  by (cases "last (free p) = i")
    (auto simp: slot_gen_def pool_register_def Let_def vec_get_Some_iff nth_append unat_inj_iff
      split: if_splits)

lemma slot_gen_unregister:
  "slot_gen p i = Some g \<Longrightarrow>
     slot_gen (pool_unregister p j g') i = Some g \<or>
     i = j \<and> slot_gen (pool_unregister p j g') i = Some (g + 1)"
  by (auto simp: slot_gen_def pool_unregister_def vec_get_def nth_list_update unat_inj_iff
      split: if_splits)

text \<open>Over any run, the generation of a slot advances by at most one per attempt to free it.\<close>

lemma slot_gen_run:
  "slot_gen p i = Some g \<Longrightarrow>
     \<exists>k \<le> length (filter (frees_slot i) ops). slot_gen (fold pool_step ops p) i = Some (g + of_nat k)"
proof (induction ops arbitrary: p g)
  case (Cons op ops)
  show ?case
  proof (cases "slot_gen (pool_step op p) i = Some g")
    case True
    from Cons.IH [OF this] show ?thesis by (auto intro: le_SucI)
  next
    case False
    with Cons.prems have bumped: "frees_slot i op" "slot_gen (pool_step op p) i = Some (g + 1)"
      by (cases op; auto dest: slot_gen_register slot_gen_unregister)+
    from Cons.IH [OF bumped(2)] obtain k where "k \<le> length (filter (frees_slot i) ops)"
      and "slot_gen (fold pool_step ops (pool_step op p)) i = Some (g + 1 + of_nat k)" by blast
    with bumped(1) show ?thesis
      by (intro exI [of _ "Suc k"]) (simp add: algebra_simps)
  qed
qed simp

lemma pool_get_gen: "pool_get p i g = Some f \<Longrightarrow> slot_gen p i = Some g"
  by (auto simp: pool_get_def slot_gen_def split: option.splits if_splits)

lemma slot_gen_freed: "pool_get p i g = Some f \<Longrightarrow> slot_gen (pool_unregister p i g) i = Some (g + 1)"
  by (auto simp: pool_get_def slot_gen_def pool_unregister_def vec_get_def split: if_splits)

lemma gen_no_wrap: "k < 2 ^ 32 - 1 \<Longrightarrow> g + 1 + of_nat k \<noteq> (g :: u32)"
proof
  assume k: "k < 2 ^ 32 - 1" and "g + 1 + of_nat k = g"
  then have "(of_nat (Suc k) :: u32) = 0" by (simp add: algebra_simps)
  then have "unat (of_nat (Suc k) :: u32) = 0" by simp
  with k show False by (simp add: unat_of_nat_u32 del: of_nat_Suc)
qed

subsection \<open>The dispatcher over its pools\<close>

definition lookup_handle :: "'f dispatcher \<Rightarrow> handle \<Rightarrow> 'f option" where
  "lookup_handle d h =
     (case vec_get (pools d) (unat (pool_id h)) of
        None \<Rightarrow> None
      | Some p \<Rightarrow> pool_get p (handle_id h) (generation h))"

definition dispatcher_ok :: "'f dispatcher \<Rightarrow> bool" where
  "dispatcher_ok d \<longleftrightarrow> length (pools d) = 2 \<and> (\<forall>p \<in> set (pools d). pool_ok p)"

lemma dispatcher_ok_new: "dispatcher_ok dispatcher_new"
  by (simp add: dispatcher_ok_def dispatcher_new_def pool_ok_new)

lemma register_in_ok:
  assumes "dispatcher_ok d" "register_in d pid f = Some (d', h)"
    and "pool_room (pools d ! unat pid)"
  shows "dispatcher_ok d'"
proof -
  from assms(2) have "unat pid < length (pools d)"
    by (auto simp: register_in_def vec_get_def split: if_splits)
  with assms have "pool_ok (fst (pool_register (pools d ! unat pid) f))"
    by (intro pool_register_ok) (simp_all add: dispatcher_ok_def)
  with assms show ?thesis
    by (auto simp: dispatcher_ok_def register_in_def vec_get_def split: if_splits prod.splits
        dest!: set_update_subset_insert [THEN subsetD])
qed

subsection \<open>Properties\<close>

text \<open>
  C27. A freed handle never reaches a recycled slot: once a live handle is unregistered, it
  resolves to nothing in every later state of the pool, whatever is registered and freed in
  between, as long as its slot is freed fewer than \<open>2^32 - 1\<close> more times (the generation is a
  wrapping 32-bit counter, so this is the exact range in which it cannot come round).
\<close>

theorem stale_handle_never_resolves:
  assumes "pool_get p i g = Some f"
    and "length (filter (frees_slot i) ops) < 2 ^ 32 - 1"
  shows "pool_get (fold pool_step ops (pool_unregister p i g)) i g = None"
proof -
  from slot_gen_run [OF slot_gen_freed [OF assms(1)], of ops] obtain k
    where "k \<le> length (filter (frees_slot i) ops)"
      and gen: "slot_gen (fold pool_step ops (pool_unregister p i g)) i = Some (g + 1 + of_nat k)"
    by blast
  with assms(2) have "g + 1 + of_nat k \<noteq> g" by (intro gen_no_wrap) simp
  with gen show ?thesis
    by (metis not_None_eq option.inject pool_get_gen)
qed

theorem stale_handle_never_resolves_witness:
  "pool_get (fold pool_step [OpRegister (2::nat), OpUnregister 0 1, OpRegister 3]
     (pool_unregister (fst (pool_register (pool_new Sync) 1)) 0 0)) 0 0 = None"
  by (rule stale_handle_never_resolves [of _ _ _ 1])
    (simp_all add: pool_register_def pool_new_def pool_get_def vec_get_def)

text \<open>
  Registering a function in a pool of a well-formed dispatcher that has a slot left gives a
  handle that was dead, resolves to that function from now on, and leaves what every other
  handle of any pool resolves to unchanged; the dispatcher stays well formed.
\<close>

theorem register_in_lookup:
  assumes "dispatcher_ok d" and "pool_room (pools d ! unat pid)" and "unat pid < 2"
  shows "\<exists>d' h. register_in d pid f = Some (d', h) \<and> dispatcher_ok d' \<and> pool_id h = pid \<and>
    lookup_handle d h = None \<and> lookup_handle d' h = Some f \<and>
    (\<forall>h'. h' \<noteq> h \<longrightarrow> lookup_handle d' h' = lookup_handle d h')"
proof -
  let ?p = "pools d ! unat pid"
  obtain p' i g where reg: "pool_register ?p f = (p', i, g)" by (cases "pool_register ?p f")
  define h where "h = \<lparr>pool_id = pid, handle_id = i, generation = g\<rparr>"
  define d' where "d' = d\<lparr>pools := (pools d)[unat pid := p']\<rparr>"
  from assms have len: "unat pid < length (pools d)" and ok: "pool_ok ?p"
    by (simp_all add: dispatcher_ok_def)
  then have r: "register_in d pid f = Some (d', h)"
    by (simp add: register_in_def vec_get_def reg h_def d'_def)
  have fresh: "pool_get ?p i g = None"
    using pool.add_fresh [OF ok assms(2), of f] by (simp add: reg pool_lookup_def)
  have look: "pool_lookup p' = (pool_lookup ?p)((i, g) \<mapsto> f)"
    using pool.get_add [OF ok assms(2), of f] by (simp add: reg)
  have p': "pool_get p' j k = (if j = i \<and> k = g then Some f else pool_get ?p j k)" for j k
    using fun_cong [OF look, of "(j, k)"] by (simp add: pool_lookup_def)
  have others: "lookup_handle d' h' = lookup_handle d h'" if "h' \<noteq> h" for h' :: handle
    using that len
    by (cases "pool_id h' = pid")
      (auto simp: lookup_handle_def d'_def vec_get_update vec_get_def p' h_def unat_inj_iff)
  have "lookup_handle d h = None" "lookup_handle d' h = Some f" "pool_id h = pid"
    using fresh len p' by (simp_all add: lookup_handle_def d'_def h_def vec_get_def)
  with r others register_in_ok [OF assms(1) r assms(2)] show ?thesis
    by blast
qed

theorem register_in_lookup_witness:
  "\<exists>d' h. register_in dispatcher_new 1 (7::nat) = Some (d', h) \<and> lookup_handle d' h = Some 7"
  using register_in_lookup [OF dispatcher_ok_new, of 1 "7::nat"]
  by (auto simp: dispatcher_new_def pool_room_def pool_new_def)

text \<open>
  Freeing a node's handle turns every later invocation through it into a silent no-op: the
  function is not run, no counter changes, and the profile entry is gone.
\<close>

theorem invoke_after_unregister:
  assumes "unregister d h = Some d'"
  shows "invoke run elapsed d' h = Some d' \<and> stats d' h = None"
  using assms fun_cong [OF pool_unregister_lookup, of "pools d ! unat (pool_id h)"
    "(handle_id h, generation h)" "(handle_id h, generation h)"]
  by (auto simp: unregister_def invoke_def vec_get_def pool_lookup_def split: if_splits)

theorem invoke_after_unregister_witness:
  "\<exists>d'. unregister (dispatcher_new :: nat dispatcher) \<lparr>pool_id = 0, handle_id = 0, generation = 0\<rparr> = Some d' \<and>
     invoke (\<lambda>_ d. d) 5 d' \<lparr>pool_id = 0, handle_id = 0, generation = 0\<rparr> = Some d'"
proof -
  obtain d' where d': "unregister (dispatcher_new :: nat dispatcher)
      \<lparr>pool_id = 0, handle_id = 0, generation = 0\<rparr> = Some d'"
    by (simp add: unregister_def dispatcher_new_def vec_get_def)
  with invoke_after_unregister [OF d', of "\<lambda>_ d. d" 5] show ?thesis by blast
qed

end
