(* ===== verification/Resilience.thy ===== *)
theory Resilience
  imports Prelude
begin

text \<open>
  The passive policies of \<open>resilience.rs\<close>: backoff delays in saturating 64-bit arithmetic,
  the retry policy built on them, and the reducers of the retry, breaker and rate-limit status
  nodes (their node bodies as functions of the events of one wave, with the clock readings as
  arguments).
\<close>

subsection \<open>Backoff and retry policies\<close>

datatype backoff_policy =
    BackoffNone
  | Constant u64
  | Linear u64 u64 "u64 option"
  | Exponential u64 u32 "u64 option"
  | Fibonacci u64 "u64 option"

definition cap :: "u64 \<Rightarrow> u64 option \<Rightarrow> u64" where
  "cap value mx = (case mx of None \<Rightarrow> value | Some m \<Rightarrow> min value m)"

text \<open>The loop of \<open>fibonacci\<close>: as many iterations as the first argument says.\<close>

fun fibonacci_loop :: "nat \<Rightarrow> u32 \<Rightarrow> u32 \<Rightarrow> u32" where
  "fibonacci_loop 0 prv cur = cur"
| "fibonacci_loop (Suc n) prv cur = fibonacci_loop n cur (saturating_add prv cur)"

definition fibonacci :: "u32 \<Rightarrow> u32" where
  "fibonacci n = (if n = 0 then 0 else if n = 1 then 1 else fibonacci_loop (unat n - 1) 0 1)"

fun delay_ms :: "backoff_policy \<Rightarrow> u32 \<Rightarrow> u64" where
  "delay_ms BackoffNone attempt = 0"
| "delay_ms (Constant d) attempt = d"
| "delay_ms (Linear initial step mx) attempt =
     cap (saturating_add initial (saturating_mul step (ucast (saturating_sub attempt 1)))) mx"
| "delay_ms (Exponential initial factor mx) attempt =
     cap (saturating_mul initial (ucast (saturating_pow factor (unat (saturating_sub attempt 1))))) mx"
| "delay_ms (Fibonacci unit mx) attempt = cap (saturating_mul unit (ucast (fibonacci attempt))) mx"

record retry_policy =
  max_attempts :: u32
  backoff :: backoff_policy

text \<open>\<open>RetryPolicy::new\<close> asserts a positive bound: \<open>None\<close> is the panic.\<close>

definition retry_policy_new :: "u32 \<Rightarrow> backoff_policy \<Rightarrow> retry_policy option" where
  "retry_policy_new n b = (if n > 0 then Some \<lparr>max_attempts = n, backoff = b\<rparr> else None)"

definition retry_policy_default :: retry_policy where
  "retry_policy_default = \<lparr>max_attempts = 1, backoff = BackoffNone\<rparr>"

definition should_retry :: "retry_policy \<Rightarrow> u32 \<Rightarrow> bool" where
  "should_retry p failed_attempt \<longleftrightarrow> failed_attempt < max_attempts p"

definition next_delay_ms :: "retry_policy \<Rightarrow> u32 \<Rightarrow> u64 option" where
  "next_delay_ms p next_attempt =
     (if next_attempt = 0 \<or> next_attempt > max_attempts p then None
      else Some (delay_ms (backoff p) next_attempt))"

subsection \<open>Status reducers\<close>

datatype retry_state = Idle | Running | Waiting | Succeeded | Failed | Exhausted

record retry_status =
  rs_attempt :: u32
  rs_max_attempts :: u32
  rs_delay_ms :: "u64 option"
  rs_state :: retry_state

datatype retry_event =
    EvAttempt u32
  | EvRetry u32 u64 string
  | EvSuccess u32
  | EvFailure u32 string
  | EvExhausted u32 string

fun retry_status_step :: "retry_policy \<Rightarrow> retry_event \<Rightarrow> retry_status" where
  "retry_status_step p (EvAttempt a) =
     \<lparr>rs_attempt = a, rs_max_attempts = max_attempts p, rs_delay_ms = None, rs_state = Running\<rparr>"
| "retry_status_step p (EvRetry a d _) =
     \<lparr>rs_attempt = a, rs_max_attempts = max_attempts p, rs_delay_ms = Some d, rs_state = Waiting\<rparr>"
| "retry_status_step p (EvSuccess a) =
     \<lparr>rs_attempt = a, rs_max_attempts = max_attempts p, rs_delay_ms = None, rs_state = Succeeded\<rparr>"
| "retry_status_step p (EvFailure a _) =
     \<lparr>rs_attempt = a, rs_max_attempts = max_attempts p,
      rs_delay_ms = next_delay_ms p (saturating_add a 1),
      rs_state = (if should_retry p a then Failed else Exhausted)\<rparr>"
| "retry_status_step p (EvExhausted a _) =
     \<lparr>rs_attempt = a, rs_max_attempts = max_attempts p, rs_delay_ms = None, rs_state = Exhausted\<rparr>"

text \<open>The body of \<open>retry_status_node\<close>: the status after the events of one wave.\<close>

definition retry_status_node :: "retry_policy \<Rightarrow> retry_event list \<Rightarrow> retry_status" where
  "retry_status_node p evs =
     fold (\<lambda>ev _. retry_status_step p ev) evs
       \<lparr>rs_attempt = 0, rs_max_attempts = max_attempts p, rs_delay_ms = None, rs_state = Idle\<rparr>"

datatype breaker_state = Closed | Open | HalfOpen

record breaker_status =
  br_state :: breaker_state
  br_failures :: u32
  br_opened_at_ms :: "u64 option"

definition breaker_initial :: breaker_status where
  "breaker_initial = \<lparr>br_state = Closed, br_failures = 0, br_opened_at_ms = None\<rparr>"

text \<open>
  One event of \<open>breaker_status_node\<close>; \<open>now\<close> is what \<open>now_ms()\<close> returns if the step
  reads it.
\<close>

fun breaker_step :: "u32 \<Rightarrow> u64 \<times> retry_event \<Rightarrow> breaker_status \<Rightarrow> breaker_status" where
  "breaker_step threshold (now, ev) st =
     (case ev of
        EvSuccess _ \<Rightarrow> breaker_initial
      | EvAttempt _ \<Rightarrow> st
      | EvRetry _ _ _ \<Rightarrow> st
      | _ \<Rightarrow>
          let st' = st\<lparr>br_failures := saturating_add (br_failures st) 1\<rparr>
          in if br_failures st' \<ge> threshold
             then st'\<lparr>br_state := Open, br_opened_at_ms := Some now\<rparr>
             else st')"

record rate_limit_state =
  rl_count :: u32
  rl_reset_at_ms :: u64
  rl_allowed :: u64
  rl_dropped :: u64

record rate_limit_status =
  rls_allowed :: u64
  rls_dropped :: u64
  rls_remaining :: u32
  rls_reset_at_ms :: u64

datatype rate_limit_event_kind = Allowed | Dropped

definition rate_limit_value ::
  "u32 \<Rightarrow> rate_limit_state \<Rightarrow> rate_limit_state \<times> rate_limit_event_kind \<times> rate_limit_status" where
  "rate_limit_value mx st =
     (let (st', k) =
        (if rl_count st < mx
         then (st\<lparr>rl_count := saturating_add (rl_count st) 1,
                  rl_allowed := saturating_add (rl_allowed st) 1\<rparr>, Allowed)
         else (st\<lparr>rl_dropped := saturating_add (rl_dropped st) 1\<rparr>, Dropped))
      in (st', k,
          \<lparr>rls_allowed = rl_allowed st', rls_dropped = rl_dropped st',
           rls_remaining = saturating_sub mx (rl_count st'),
           rls_reset_at_ms = rl_reset_at_ms st'\<rparr>))"

fun rate_limit_values ::
  "u32 \<Rightarrow> 't list \<Rightarrow> rate_limit_state \<Rightarrow>
     rate_limit_state \<times> (rate_limit_event_kind \<times> 't \<times> rate_limit_status) list" where
  "rate_limit_values mx [] st = (st, [])"
| "rate_limit_values mx (v # vs) st =
     (let (st', k, status) = rate_limit_value mx st;
          (st'', evs) = rate_limit_values mx vs st'
      in (st'', (k, v, status) # evs))"

text \<open>
  The body of the event node of \<open>rate_limit_bundle\<close> for one wave: the window is reset first if
  it has passed, then each value is let through or dropped.
\<close>

definition rate_limit_wave ::
  "u32 \<Rightarrow> u64 \<Rightarrow> u64 \<Rightarrow> 't list \<Rightarrow> rate_limit_state option \<Rightarrow>
     rate_limit_state \<times> (rate_limit_event_kind \<times> 't \<times> rate_limit_status) list" where
  "rate_limit_wave mx window current vs stored =
     (let st = (case stored of
                  None \<Rightarrow> \<lparr>rl_count = 0, rl_reset_at_ms = saturating_add current window,
                           rl_allowed = 0, rl_dropped = 0\<rparr>
                | Some s \<Rightarrow> s);
          st = (if current \<ge> rl_reset_at_ms st
                then st\<lparr>rl_count := 0, rl_reset_at_ms := saturating_add current window\<rparr>
                else st)
      in rate_limit_values mx vs st)"

subsection \<open>Delays\<close>

fun fib :: "nat \<Rightarrow> nat" where
  "fib 0 = 0"
| "fib (Suc 0) = 1"
| "fib (Suc (Suc n)) = fib n + fib (Suc n)"

lemma fib_mono: "m \<le> n \<Longrightarrow> fib m \<le> fib n"
proof (rule lift_Suc_mono_le [of fib])
  show "fib k \<le> fib (Suc k)" for k
    by (cases k) simp_all
qed

lemma min_sat: "min (min a m + min b m) m = min (a + b) (m :: nat)"
  by auto

lemma fibonacci_loop_sat:
  "unat prv = min (fib k) (2 ^ 32 - 1) \<Longrightarrow> unat cur = min (fib (Suc k)) (2 ^ 32 - 1) \<Longrightarrow>
     unat (fibonacci_loop n prv cur) = min (fib (Suc k + n)) (2 ^ 32 - 1)"
proof (induction n arbitrary: k prv cur)
  case (Suc n)
  have "unat (saturating_add prv cur) = min (fib (Suc (Suc k))) (2 ^ 32 - 1)"
    using Suc.prems min_sat [of "fib k" "2 ^ 32 - 1" "fib (Suc k)"]
    by (simp add: unat_saturating_add)
  with Suc.IH [of cur "Suc k"] Suc.prems(2) show ?case by simp
qed simp

lemma unat_fibonacci: "unat (fibonacci n) = min (fib (unat n)) (2 ^ 32 - 1)"
proof (cases "n = 0 \<or> n = 1")
  case False
  then have "0 < unat n" by (simp add: unat_gt_0)
  with False fibonacci_loop_sat [of 0 0 1 "unat n - 1"] show ?thesis
    by (auto simp: fibonacci_def)
qed (auto simp: fibonacci_def)

lemma unat_cap: "unat (cap v mx) = (case mx of None \<Rightarrow> unat v | Some m \<Rightarrow> min (unat v) (unat m))"
  by (auto simp: cap_def min_def word_le_nat_alt split: option.splits)

lemma unat_ucast_u32 [simp]: "unat (ucast (a :: u32) :: u64) = unat a"
proof -
  have "unat a < 2 ^ 64" using unsigned_less [of a, where ?'a = nat] by simp
  then show ?thesis by (simp add: unsigned_ucast_eq take_bit_nat_eq_self)
qed

lemma min_mono_left: "a \<le> b \<Longrightarrow> min a m \<le> min b (m :: nat)"
  by simp

lemma saturating_mul_mono:
  "unat a \<le> unat b \<Longrightarrow> unat (saturating_mul c a) \<le> unat (saturating_mul c b)"
  unfolding unat_saturating_mul by (intro min_mono_left mult_le_mono2)

lemma saturating_add_mono:
  "unat a \<le> unat b \<Longrightarrow> unat (saturating_add c a) \<le> unat (saturating_add c b)"
  by (auto simp: unat_saturating_add)

lemma cap_mono: "unat a \<le> unat b \<Longrightarrow> unat (cap a mx) \<le> unat (cap b mx)"
  by (auto simp: unat_cap split: option.splits)

lemma saturating_pow_mono:
  "0 < unat a \<Longrightarrow> m \<le> n \<Longrightarrow> unat (saturating_pow a m) \<le> unat (saturating_pow a n)"
  unfolding unat_saturating_pow by (intro min_mono_left power_increasing) simp_all

fun factor_positive :: "backoff_policy \<Rightarrow> bool" where
  "factor_positive (Exponential _ factor _) = (factor \<noteq> 0)"
| "factor_positive _ = True"

text \<open>
  C39. Every backoff strategy is monotone: a later attempt never waits less than an earlier one,
  through all the saturating arithmetic and the optional cap, for every strategy but an
  exponential one with factor zero.
\<close>

theorem delay_ms_monotone:
  assumes "a \<le> b" and "factor_positive pol"
  shows "delay_ms pol a \<le> delay_ms pol b"
proof -
  have ab: "unat (saturating_sub a 1) \<le> unat (saturating_sub b 1)" "unat a \<le> unat b"
    using assms(1) by (simp_all add: unat_saturating_sub word_le_nat_alt)
  have "unat (delay_ms pol a) \<le> unat (delay_ms pol b)"
  proof (cases pol)
    case (Exponential i f m)
    with assms(2) have "0 < unat f" by (simp add: unat_gt_0)
    with Exponential ab show ?thesis
      by (auto intro!: cap_mono saturating_mul_mono saturating_pow_mono)
  next
    case (Fibonacci u m)
    have "unat (fibonacci a) \<le> unat (fibonacci b)"
      unfolding unat_fibonacci using ab(2) by (intro min_mono_left fib_mono)
    with Fibonacci show ?thesis
      by (auto intro!: cap_mono saturating_mul_mono)
  qed (use ab in \<open>auto intro!: cap_mono saturating_add_mono saturating_mul_mono\<close>)
  then show ?thesis by (simp add: word_le_nat_alt)
qed

theorem delay_ms_monotone_witness:
  "(2::u32) \<le> 5 \<and> delay_ms (Exponential 10 2 (Some 50)) 2 \<le> delay_ms (Exponential 10 2 (Some 50)) 5"
  using delay_ms_monotone [of 2 5 "Exponential 10 2 (Some 50)"] by (simp add: word_le_nat_alt)

text \<open>
  C40. The Fibonacci strategy computes the true Fibonacci number of the attempt, clipped to the
  32-bit range, and its delay is the exact product with the unit, clipped to 64 bits and to the
  cap; no intermediate overflow can make it smaller.
\<close>

theorem fibonacci_delay_exact:
  "unat (delay_ms (Fibonacci unit mx) attempt) =
     (let d = min (unat unit * min (fib (unat attempt)) (2 ^ 32 - 1)) (2 ^ 64 - 1)
      in case mx of None \<Rightarrow> d | Some m \<Rightarrow> min d (unat m))"
  by (auto simp: unat_cap unat_saturating_mul unat_fibonacci Let_def split: option.splits)

text \<open>
  A retry policy is coherent: whenever it says that a failed attempt is retried, it also has
  a delay for the next attempt, and that delay respects the cap of the strategy; when it does
  not, no delay exists for any later attempt.
\<close>

theorem retry_policy_coherent:
  "(should_retry p a \<longrightarrow> next_delay_ms p (saturating_add a 1) = Some (delay_ms (backoff p) (a + 1))) \<and>
   (\<not> should_retry p a \<longrightarrow> a < b \<longrightarrow> next_delay_ms p b = None)"
proof (intro conjI impI)
  assume lt: "should_retry p a"
  then have "unat a < unat (max_attempts p)" by (simp add: should_retry_def word_less_nat_alt)
  moreover have "unat (max_attempts p) < 2 ^ 32" using unsigned_less [of "max_attempts p"] by simp
  ultimately have "unat a + 1 < 2 ^ 32" by simp
  then have "saturating_add a 1 = a + 1" "unat (a + 1) = unat a + 1"
    by (simp_all add: saturating_add_def unat_add_lem [THEN iffD1])
  moreover from this have "a + 1 \<noteq> 0" by (metis add_is_0 one_neq_zero unat_0)
  ultimately show "next_delay_ms p (saturating_add a 1) = Some (delay_ms (backoff p) (a + 1))"
    using \<open>unat a < unat (max_attempts p)\<close>
    by (auto simp: next_delay_ms_def word_less_nat_alt)
next
  assume "\<not> should_retry p a" "a < b"
  then show "next_delay_ms p b = None"
    by (auto simp: should_retry_def next_delay_ms_def)
qed

theorem retry_policy_coherent_witness:
  "should_retry \<lparr>max_attempts = 3, backoff = Constant 25\<rparr> 1 \<and>
   next_delay_ms \<lparr>max_attempts = 3, backoff = Constant 25\<rparr> (saturating_add 1 1) = Some 25"
  using retry_policy_coherent [of "\<lparr>max_attempts = 3, backoff = Constant 25\<rparr>" 1]
  by (simp add: should_retry_def word_less_nat_alt)

subsection \<open>Breaker and rate limiter\<close>

fun is_failure :: "retry_event \<Rightarrow> bool" where
  "is_failure (EvFailure _ _) = True"
| "is_failure (EvExhausted _ _) = True"
| "is_failure _ = False"

fun is_success :: "retry_event \<Rightarrow> bool" where
  "is_success (EvSuccess _) = True"
| "is_success _ = False"

text \<open>The failures since the last success: what the breaker is meant to count.\<close>

definition failures_since_success :: "retry_event list \<Rightarrow> nat" where
  "failures_since_success evs = length (filter is_failure (takeWhile (\<lambda>e. \<not> is_success e) (rev evs)))"

lemma failures_since_success_snoc:
  "failures_since_success (evs @ [e]) =
     (if is_success e then 0 else failures_since_success evs + (if is_failure e then 1 else 0))"
  by (cases e) (simp_all add: failures_since_success_def)

definition breaker_inv :: "u32 \<Rightarrow> retry_event list \<Rightarrow> breaker_status \<Rightarrow> bool" where
  "breaker_inv threshold evs st \<longleftrightarrow>
     unat (br_failures st) = min (failures_since_success evs) (2 ^ 32 - 1) \<and>
     br_state st = (if threshold \<le> br_failures st then Open else Closed) \<and>
     (br_opened_at_ms st \<noteq> None \<longleftrightarrow> br_state st = Open)"

lemma breaker_step_inv:
  assumes "0 < threshold" "breaker_inv threshold evs st"
  shows "breaker_inv threshold (evs @ [e]) (breaker_step threshold (now, e) st)"
proof -
  have pos: "\<not> threshold \<le> 0" using assms(1) by simp
  show ?thesis
    using assms(2) pos
    by (cases e)
      (auto simp: breaker_inv_def breaker_initial_def failures_since_success_snoc Let_def
        unat_saturating_add word_le_nat_alt split: if_splits)
qed

text \<open>
  C38. The circuit breaker opens exactly on the threshold: after any sequence of retry events, it
  is open if and only if the (saturating) number of failures since the last success has reached
  the threshold, it is closed otherwise, and it carries an opening time exactly while open.
\<close>

theorem breaker_opens_at_threshold:
  assumes "0 < threshold"
  shows "breaker_inv threshold (map snd evs) (fold (breaker_step threshold) evs breaker_initial)"
proof (induction evs rule: rev_induct)
  case Nil
  have "\<not> threshold \<le> 0" using assms by simp
  then show ?case
    by (auto simp: breaker_inv_def breaker_initial_def failures_since_success_def)
next
  case (snoc x xs)
  then show ?case
    by (cases x) (simp add: breaker_step_inv [OF assms] del: breaker_step.simps)
qed

theorem breaker_opens_at_threshold_witness:
  "breaker_inv 2 [EvFailure 1 ''e'', EvFailure 2 ''e'']
     (fold (breaker_step 2) [(10, EvFailure 1 ''e''), (20, EvFailure 2 ''e'')] breaker_initial)"
  using breaker_opens_at_threshold [of 2 "[(10, EvFailure 1 ''e''), (20, EvFailure 2 ''e'')]"]
  by (simp add: word_less_nat_alt del: breaker_step.simps)

lemma rate_limit_value_allowed:
  "rl_count st < mx \<Longrightarrow>
     rate_limit_value mx st = (st', k, status) \<Longrightarrow> k = Allowed \<and> unat (rl_count st') = Suc (unat (rl_count st))"
proof -
  assume lt: "rl_count st < mx" and r: "rate_limit_value mx st = (st', k, status)"
  have "unat mx < 2 ^ 32" using unsigned_less [of mx, where ?'a = nat] by simp
  with lt have "unat (rl_count st) + 1 < 2 ^ 32" by (simp add: word_less_nat_alt)
  with lt r show ?thesis
    by (auto simp: rate_limit_value_def unat_saturating_add)
qed

lemma rate_limit_value_dropped:
  "\<not> rl_count st < mx \<Longrightarrow>
     rate_limit_value mx st = (st', k, status) \<Longrightarrow> k = Dropped \<and> rl_count st' = rl_count st"
  by (auto simp: rate_limit_value_def)

lemma rate_limit_values_kinds:
  "map fst (snd (rate_limit_values mx vs st)) =
     replicate (min (length vs) (unat mx - unat (rl_count st))) Allowed @
     replicate (length vs - (unat mx - unat (rl_count st))) Dropped \<and>
   unat (rl_count (fst (rate_limit_values mx vs st))) =
     unat (rl_count st) + min (length vs) (unat mx - unat (rl_count st))"
proof (induction vs arbitrary: st)
  case (Cons v vs)
  obtain st' k status where r: "rate_limit_value mx st = (st', k, status)"
    by (cases "rate_limit_value mx st")
  show ?case
  proof (cases "rl_count st < mx")
    case True
    then obtain n where n: "unat mx - unat (rl_count st) = Suc n"
      by (metis Suc_diff_Suc word_less_nat_alt)
    with rate_limit_value_allowed [OF True r] have "unat mx - unat (rl_count st') = n" by simp
    with n rate_limit_value_allowed [OF True r] Cons.IH [of st'] show ?thesis
      by (simp add: r case_prod_unfold Let_def)
  next
    case False
    then have "unat mx - unat (rl_count st) = 0" by (simp add: word_less_nat_alt)
    with rate_limit_value_dropped [OF False r] Cons.IH [of st'] show ?thesis
      by (simp add: r case_prod_unfold Let_def)
  qed
qed simp

text \<open>
  The rate limiter is exact within a wave: of the values of a wave, the first as many as the
  window still has room for are let through in order, every later one is dropped, and the window
  count grows by what was let through, so it never passes the maximum.
\<close>

theorem rate_limit_wave_exact:
  assumes "stored = Some st" and "current < rl_reset_at_ms st" and "rl_count st \<le> mx"
  shows "let room = unat mx - unat (rl_count st); (st', evs) = rate_limit_wave mx window current vs stored
    in map fst evs = replicate (min (length vs) room) Allowed @ replicate (length vs - room) Dropped \<and>
       unat (rl_count st') = unat (rl_count st) + min (length vs) room \<and> rl_count st' \<le> mx"
proof -
  have "rate_limit_wave mx window current vs stored = rate_limit_values mx vs st"
    using assms by (auto simp: rate_limit_wave_def Let_def dest: leD)
  with rate_limit_values_kinds [of mx vs st] assms(3) show ?thesis
    by (auto simp: Let_def case_prod_unfold word_le_nat_alt)
qed

theorem rate_limit_wave_exact_witness:
  "let (st', evs) = rate_limit_wave 2 100 5 [''a'', ''b'', ''c'']
       (Some \<lparr>rl_count = 1, rl_reset_at_ms = 50, rl_allowed = 1, rl_dropped = 0\<rparr>)
   in map fst evs = [Allowed, Dropped, Dropped]"
  using rate_limit_wave_exact [OF refl, of 5 "\<lparr>rl_count = 1, rl_reset_at_ms = 50, rl_allowed = 1, rl_dropped = 0\<rparr>"
    2 100 "[''a'', ''b'', ''c'']"]
  by (auto simp: word_less_nat_alt word_le_nat_alt Let_def case_prod_unfold)

end
