(* ===== verification/Messaging.thy ===== *)
theory Messaging
  imports Prelude "HOL-Library.Monad_Syntax"
begin

text \<open>
  The retained message bus of \<open>messaging.rs\<close>: topics with sequence-numbered retained
  messages, subscriptions with cursors, the reducer of bus commands, retention, dead letters,
  and the read projections. The clock is a stream of readings that the state consumes (a
  reading \<open>None\<close> is a clock that panicked, which the code turns into 0). The tuple encoding
  of \<open>identity.rs\<close> is done by \<open>serde_json\<close>, which is not part of the sources: it is
  the parameter \<open>tk\<close> of the definitions that build keys.
\<close>

subsection \<open>Data\<close>

record data_issue =
  di_kind :: string
  di_code :: string
  di_message :: string
  di_severity :: string
  di_source :: string
  di_topic :: "string option"
  di_details :: "string option"

record 't message_envelope =
  me_topic :: string
  me_seq :: u64
  me_payload :: 't
  me_key :: "string option"
  me_timestamp_ms :: u64
  me_command_id :: "string option"
  me_idempotency_key :: "string option"

datatype message_bus_topic_policy = Strict | CreateAsFact

record message_bus_retention_policy =
  max_messages :: "nat option"
  max_age_ms :: "u64 option"

datatype message_bus_dedupe_action = DedupeStatus | DedupeIssue

record message_bus_options =
  bo_topics :: "string list"
  bo_topic_policy :: message_bus_topic_policy
  bo_retention :: message_bus_retention_policy
  bo_dedupe :: message_bus_dedupe_action

datatype 't message_bus_command =
    EnsureTopic string "string option"
  | CloseTopic string "string option"
  | Publish string 't "string option" "string option" "string option"
  | TopicPolicy message_bus_topic_policy "string option"
  | Ack string string u64 "string option"
  | Seek string string u64 "string option"
  | CloseSubscription string string "string option"

fun bus_command_topic :: "'t message_bus_command \<Rightarrow> string option" where
  "bus_command_topic (EnsureTopic t _) = Some t"
| "bus_command_topic (CloseTopic t _) = Some t"
| "bus_command_topic (Publish t _ _ _ _) = Some t"
| "bus_command_topic (TopicPolicy _ _) = None"
| "bus_command_topic (Ack t _ _ _) = Some t"
| "bus_command_topic (Seek t _ _ _) = Some t"
| "bus_command_topic (CloseSubscription t _ _) = Some t"

fun bus_command_id :: "'t message_bus_command \<Rightarrow> string option" where
  "bus_command_id (EnsureTopic _ c) = c"
| "bus_command_id (CloseTopic _ c) = c"
| "bus_command_id (Publish _ _ _ c _) = c"
| "bus_command_id (TopicPolicy _ c) = c"
| "bus_command_id (Ack _ _ _ c) = c"
| "bus_command_id (Seek _ _ _ c) = c"
| "bus_command_id (CloseSubscription _ _ c) = c"

fun command_subscription_id :: "'t message_bus_command \<Rightarrow> string option" where
  "command_subscription_id (Ack _ s _ _) = Some s"
| "command_subscription_id (Seek _ s _ _) = Some s"
| "command_subscription_id (CloseSubscription _ s _) = Some s"
| "command_subscription_id _ = None"

datatype (plugins only: code size) message_bus_status_kind =
    TopicCreated | TopicClosed | MessagePublished | RetentionTrimmed | DuplicateCommand
  | SubscriptionOpened | SubscriptionAcked | SubscriptionSought | SubscriptionClosed

record bus_status_fields =
  bf_topic :: "string option"
  bf_seq :: "u64 option"
  bf_head_seq :: "u64 option"
  bf_subscription_id :: "string option"
  bf_next_seq :: "u64 option"
  bf_command_id :: "string option"
  bf_details :: "string option"

record message_bus_status =
  bs_kind :: message_bus_status_kind
  bs_topic :: "string option"
  bs_seq :: "u64 option"
  bs_head_seq :: "u64 option"
  bs_subscription_id :: "string option"
  bs_next_seq :: "u64 option"
  bs_command_id :: "string option"
  bs_issue_code :: "string option"
  bs_timestamp_ms :: u64
  bs_details :: "string option"

record 't message_bus_dead_letter_entry =
  dl_entry_seq :: u64
  dl_topic :: "string option"
  dl_command :: "'t message_bus_command option"
  dl_message :: "'t message_envelope option"
  dl_issue :: data_issue
  dl_timestamp_ms :: u64

record 't topic_state =
  ts_closed :: bool
  ts_head_seq :: u64
  ts_next_seq :: u64
  ts_messages :: "'t message_envelope list"

record subscription_state =
  sub_topic :: string
  sub_subscription_id :: string
  sub_next_seq :: u64
  sub_closed :: bool
  sub_retention_gap :: bool

text \<open>Reading \<open>i\<close> of the clock; \<open>None\<close> is a reading that panics.\<close>

type_synonym clock = "nat \<Rightarrow> u64 option"

record 't message_bus_state =
  mb_now :: clock
  mb_ticks :: nat
  mb_topic_policy :: message_bus_topic_policy
  mb_retention :: message_bus_retention_policy
  mb_dedupe :: message_bus_dedupe_action
  mb_topics :: "(string, 't topic_state) btree"
  mb_subscriptions :: "(string, subscription_state) btree"
  mb_seen_command_ids :: "string set"
  mb_seen_idempotency_keys :: "string set"
  mb_dead_letters :: "'t message_bus_dead_letter_entry list"
  mb_dead_letter_seq :: u64

datatype 't runtime_event =
    EvMessage "'t message_envelope"
  | EvStatus message_bus_status
  | EvIssue data_issue

datatype message_bus_subscription_from = Earliest | Latest | FromSeq u64

record message_bus_subscription_options =
  so_topic :: string
  so_subscription_id :: string
  so_from :: message_bus_subscription_from

type_synonym tuple_key = "string list \<Rightarrow> string"

definition compound_tuple_key :: "tuple_key \<Rightarrow> string \<Rightarrow> string list \<Rightarrow> string" where
  "compound_tuple_key tk prefix parts = prefix @ '':'' @ tk parts"

definition subscription_key :: "tuple_key \<Rightarrow> string \<Rightarrow> string \<Rightarrow> string" where
  "subscription_key tk topic sid = tk [topic, sid]"

definition idempotency_key_for :: "tuple_key \<Rightarrow> string \<Rightarrow> string \<Rightarrow> string" where
  "idempotency_key_for tk topic ik = tk [topic, ik]"

subsection \<open>Clock, status facts and issues\<close>

definition timestamp_or_zero :: "'t message_bus_state \<Rightarrow> u64 \<times> 't message_bus_state" where
  "timestamp_or_zero st =
     (case mb_now st (mb_ticks st) of None \<Rightarrow> 0 | Some t \<Rightarrow> t, st\<lparr>mb_ticks := Suc (mb_ticks st)\<rparr>)"

definition no_fields :: bus_status_fields where
  "no_fields = \<lparr>bf_topic = None, bf_seq = None, bf_head_seq = None, bf_subscription_id = None,
     bf_next_seq = None, bf_command_id = None, bf_details = None\<rparr>"

definition status_fact ::
  "'t message_bus_state \<Rightarrow> message_bus_status_kind \<Rightarrow> bus_status_fields
    \<Rightarrow> message_bus_status \<times> 't message_bus_state" where
  "status_fact st k fs =
     (let (now, st) = timestamp_or_zero st
      in (\<lparr>bs_kind = k, bs_topic = bf_topic fs, bs_seq = bf_seq fs, bs_head_seq = bf_head_seq fs,
           bs_subscription_id = bf_subscription_id fs, bs_next_seq = bf_next_seq fs,
           bs_command_id = bf_command_id fs, bs_issue_code = None, bs_timestamp_ms = now,
           bs_details = bf_details fs\<rparr>, st))"

definition status_events ::
  "'t message_bus_state \<Rightarrow> message_bus_status_kind \<Rightarrow> bus_status_fields
    \<Rightarrow> 't message_bus_state \<times> 't runtime_event list" where
  "status_events st k fs = (let (s, st) = status_fact st k fs in (st, [EvStatus s]))"

definition issue_events ::
  "'t message_bus_state \<Rightarrow> 't message_bus_command option \<Rightarrow> 't message_envelope option
    \<Rightarrow> string \<Rightarrow> string \<Rightarrow> 't message_bus_state \<times> 't runtime_event list" where
  "issue_events st command message code issue_message =
     (let topic = (case Option.bind command bus_command_topic of
                     Some t \<Rightarrow> Some t
                   | None \<Rightarrow> map_option me_topic message);
          issue = \<lparr>di_kind = ''issue'', di_code = code, di_message = issue_message,
                   di_severity = ''error'', di_source = ''messageBus'', di_topic = topic,
                   di_details = None\<rparr>;
          (now, st) = timestamp_or_zero st;
          entry = \<lparr>dl_entry_seq = mb_dead_letter_seq st + 1, dl_topic = topic,
                   dl_command = command, dl_message = message, dl_issue = issue,
                   dl_timestamp_ms = now\<rparr>
      in (st\<lparr>mb_dead_letter_seq := dl_entry_seq entry,
             mb_dead_letters := mb_dead_letters st @ [entry]\<rparr>,
          [EvIssue issue]))"

definition reject_command ::
  "'t message_bus_state \<Rightarrow> 't message_bus_command \<Rightarrow> string
    \<Rightarrow> 't message_bus_state \<times> 't runtime_event list" where
  "reject_command st command reason = issue_events st (Some command) None ''malformed-command'' reason"

definition duplicate_command_events ::
  "'t message_bus_state \<Rightarrow> 't message_bus_command \<Rightarrow> string
    \<Rightarrow> 't message_bus_state \<times> 't runtime_event list" where
  "duplicate_command_events st command message =
     (let (status, st) = status_fact st DuplicateCommand
            (no_fields\<lparr>bf_topic := bus_command_topic command, bf_command_id := bus_command_id command\<rparr>)
      in if mb_dedupe st = DedupeIssue
         then issue_events st (Some command) None ''duplicate-command'' message
         else (st, [EvStatus status]))"

subsection \<open>Topics\<close>

definition make_topic_state :: "'t topic_state" where
  "make_topic_state = \<lparr>ts_closed = False, ts_head_seq = 1, ts_next_seq = 1, ts_messages = []\<rparr>"

definition validate_topic_key :: "string \<Rightarrow> string \<Rightarrow> string option" where
  "validate_topic_key topic owner =
     (if topic = [] then Some (owner @ '': topic must be a non-empty string'') else None)"

text \<open>\<open>unique_topics\<close> panics on an empty or repeated topic: \<open>None\<close>.\<close>

fun unique_topics_loop :: "string list \<Rightarrow> string set \<Rightarrow> string list \<Rightarrow> string list option" where
  "unique_topics_loop [] seen uniq = Some (sort uniq)"
| "unique_topics_loop (t # ts) seen uniq =
     (if validate_topic_key t ''messageBus'' \<noteq> None then None
      else if t \<in> seen then None
      else unique_topics_loop ts (insert t seen) (uniq @ [t]))"

definition unique_topics :: "string list \<Rightarrow> string list option" where
  "unique_topics ts = unique_topics_loop ts {} []"

definition message_bus_new :: "clock \<Rightarrow> message_bus_options \<Rightarrow> 't message_bus_state option" where
  "message_bus_new now opts = do {
     initial_topics \<leftarrow> unique_topics (bo_topics opts);
     Some \<lparr>mb_now = now, mb_ticks = 0, mb_topic_policy = bo_topic_policy opts,
           mb_retention = bo_retention opts, mb_dedupe = bo_dedupe opts,
           mb_topics = fold (\<lambda>t m. bt_insert t make_topic_state m) initial_topics [],
           mb_subscriptions = [], mb_seen_command_ids = {}, mb_seen_idempotency_keys = {},
           mb_dead_letters = [], mb_dead_letter_seq = 0\<rparr> }"

definition ensure_topic ::
  "'t message_bus_state \<Rightarrow> string \<Rightarrow> string option \<Rightarrow> 't message_bus_state \<times> 't runtime_event list"
  where
  "ensure_topic st topic cid =
     status_events
       (if bt_get (mb_topics st) topic = None
        then st\<lparr>mb_topics := bt_insert topic make_topic_state (mb_topics st)\<rparr> else st)
       TopicCreated (no_fields\<lparr>bf_topic := Some topic, bf_command_id := cid\<rparr>)"

definition close_topic ::
  "'t message_bus_state \<Rightarrow> string \<Rightarrow> string option \<Rightarrow> 't message_bus_state \<times> 't runtime_event list"
  where
  "close_topic st topic cid =
     (case bt_get (mb_topics st) topic of
        None \<Rightarrow> issue_events st (Some (CloseTopic topic cid)) None ''unknown-topic'' ''unknown topic''
      | Some ts \<Rightarrow>
          status_events (st\<lparr>mb_topics := bt_insert topic (ts\<lparr>ts_closed := True\<rparr>) (mb_topics st)\<rparr>)
            TopicClosed (no_fields\<lparr>bf_topic := Some topic, bf_command_id := cid\<rparr>))"

text \<open>
  Retention: age first, then count; the head moves to the first retained message, and every
  open subscription left behind it is flagged once. \<open>retain_by_age\<close> and
  \<open>retain_by_count\<close> are the two trims of \<open>trim_retention\<close>, \<open>flag_gaps\<close> its pass
  over the subscriptions.
\<close>

definition retain_by_age ::
  "u64 \<Rightarrow> u64 option \<Rightarrow> 't message_envelope list \<Rightarrow> 't message_envelope list" where
  "retain_by_age now max_age ms =
     (case max_age of
        None \<Rightarrow> ms
      | Some a \<Rightarrow> filter (\<lambda>m. saturating_sub now (me_timestamp_ms m) \<le> a) ms)"

definition retain_by_count :: "nat option \<Rightarrow> 'm list \<Rightarrow> 'm list" where
  "retain_by_count max_count ms =
     (case max_count of
        None \<Rightarrow> ms
      | Some n \<Rightarrow> if length ms > n then drop (length ms - n) ms else ms)"

definition left_behind :: "string \<Rightarrow> u64 \<Rightarrow> subscription_state \<Rightarrow> bool" where
  "left_behind topic head s \<longleftrightarrow>
     \<not> sub_closed s \<and> sub_topic s = topic \<and> sub_next_seq s < head \<and> \<not> sub_retention_gap s"

definition flag_gaps ::
  "string \<Rightarrow> u64 \<Rightarrow> (string, subscription_state) btree
    \<Rightarrow> (string, subscription_state) btree \<times> string list" where
  "flag_gaps topic head subs =
     (map (\<lambda>(k, s). (k, if left_behind topic head s then s\<lparr>sub_retention_gap := True\<rparr> else s)) subs,
      map sub_subscription_id (filter (left_behind topic head) (bt_values subs)))"

fun gap_issues ::
  "'t message_bus_state \<Rightarrow> string list \<Rightarrow> 't message_bus_state \<times> 't runtime_event list" where
  "gap_issues st [] = (st, [])"
| "gap_issues st (sid # sids) =
     (let (st, evs) = issue_events st None None ''retention-gap''
            (''subscription '' @ quoted sid @ '' is before retained headSeq'');
          (st, evs') = gap_issues st sids
      in (st, evs @ evs'))"

definition trim_retention ::
  "'t message_bus_state \<Rightarrow> string \<Rightarrow> 't message_bus_state \<times> 't runtime_event list" where
  "trim_retention st topic_name =
     (let (now, st) = timestamp_or_zero st
      in case bt_get (mb_topics st) topic_name of
           None \<Rightarrow> (st, [])
         | Some topic \<Rightarrow>
             let before_head = ts_head_seq topic;
                 aged = retain_by_age now (max_age_ms (mb_retention st)) (ts_messages topic)
             in if max_messages (mb_retention st) = Some 0
                then issue_events
                       (st\<lparr>mb_topics := bt_insert topic_name (topic\<lparr>ts_messages := aged\<rparr>) (mb_topics st)\<rparr>)
                       None None ''policy-rejected'' ''retention.maxMessages must be positive''
                else let kept = retain_by_count (max_messages (mb_retention st)) aged;
                         head = (case kept of [] \<Rightarrow> ts_next_seq topic | m # _ \<Rightarrow> me_seq m);
                         st = st\<lparr>mb_topics := bt_insert topic_name
                                 (topic\<lparr>ts_messages := kept, ts_head_seq := head\<rparr>) (mb_topics st)\<rparr>
                     in if head = before_head then (st, [])
                        else let (st, evs) = status_events st RetentionTrimmed
                                   (no_fields\<lparr>bf_topic := Some topic_name, bf_head_seq := Some head,
                                      bf_details := Some (''trimCount='' @ to_string (saturating_sub head before_head))\<rparr>);
                                 (subs, affected) = flag_gaps topic_name head (mb_subscriptions st);
                                 (st, evs') = gap_issues (st\<lparr>mb_subscriptions := subs\<rparr>) affected
                             in (st, evs @ evs'))"

definition publish_to_topic ::
  "tuple_key \<Rightarrow> 't message_bus_state \<Rightarrow> string \<Rightarrow> 't \<Rightarrow> string option \<Rightarrow> string option \<Rightarrow> string option
    \<Rightarrow> 't topic_state \<Rightarrow> 't message_bus_state \<times> 't runtime_event list" where
  "publish_to_topic tk st topic payload key cid ik ts =
     (let (now, st) = timestamp_or_zero st;
          message = \<lparr>me_topic = topic, me_seq = ts_next_seq ts, me_payload = payload, me_key = key,
                     me_timestamp_ms = now, me_command_id = cid, me_idempotency_key = ik\<rparr>;
          st = st\<lparr>mb_seen_idempotency_keys :=
                     (case ik of
                        None \<Rightarrow> mb_seen_idempotency_keys st
                      | Some k \<Rightarrow> insert (idempotency_key_for tk topic k) (mb_seen_idempotency_keys st)),
                  mb_topics := bt_insert topic
                     (ts\<lparr>ts_next_seq := ts_next_seq ts + 1, ts_messages := ts_messages ts @ [message]\<rparr>)
                     (mb_topics st)\<rparr>;
          (st, evs) = status_events st MessagePublished
             (no_fields\<lparr>bf_topic := Some topic, bf_seq := Some (me_seq message), bf_command_id := cid\<rparr>);
          (st, evs') = trim_retention st topic
      in (st, EvMessage message # evs @ evs'))"

definition publish_message ::
  "tuple_key \<Rightarrow> 't message_bus_state \<Rightarrow> string \<Rightarrow> 't \<Rightarrow> string option \<Rightarrow> string option \<Rightarrow> string option
    \<Rightarrow> 't message_bus_state \<times> 't runtime_event list" where
  "publish_message tk st topic payload key cid ik =
     (let absent = (bt_get (mb_topics st) topic = None)
      in if absent \<and> mb_topic_policy st \<noteq> CreateAsFact
         then issue_events st (Some (Publish topic payload key cid ik)) None ''unknown-topic'' ''unknown topic''
         else let (st, evs) = (if absent then ensure_topic st topic cid else (st, []))
              in case bt_get (mb_topics st) topic of
                   None \<Rightarrow> issue_events st None None ''unknown-topic'' ''unknown topic''
                 | Some ts \<Rightarrow>
                     if ts_closed ts
                     then issue_events st (Some (Publish topic payload key cid ik)) None
                            ''closed-topic'' ''closed topic''
                     else let (st, evs') = publish_to_topic tk st topic payload key cid ik ts
                          in (st, evs @ evs'))"

subsection \<open>Subscriptions\<close>

definition ack_subscription ::
  "tuple_key \<Rightarrow> 't message_bus_state \<Rightarrow> string \<Rightarrow> string \<Rightarrow> u64 \<Rightarrow> string option
    \<Rightarrow> 't message_bus_state \<times> 't runtime_event list" where
  "ack_subscription tk st topic sid seq cid =
     (case bt_get (mb_topics st) topic of
        None \<Rightarrow> issue_events st None None ''unknown-topic'' ''unknown topic''
      | Some ts \<Rightarrow>
          let key = subscription_key tk topic sid
          in case bt_get (mb_subscriptions st) key of
               None \<Rightarrow> issue_events st None None ''unknown-subscription'' ''unknown subscription''
             | Some sub \<Rightarrow>
                 if sub_closed sub
                 then issue_events st None None ''subscription-closed'' ''subscription is closed''
                 else if sub_retention_gap sub
                 then issue_events st None None ''retention-gap'' ''subscription must seek before ack''
                 else if seq < sub_next_seq sub
                 then issue_events st None None ''source-cursor-stale'' ''ack is behind subscription cursor''
                 else if seq \<ge> ts_next_seq ts
                 then issue_events st None None ''cursor-out-of-range'' ''ack is beyond topic tail''
                 else status_events
                        (st\<lparr>mb_subscriptions :=
                              bt_insert key (sub\<lparr>sub_next_seq := seq + 1\<rparr>) (mb_subscriptions st)\<rparr>)
                        SubscriptionAcked
                        (no_fields\<lparr>bf_topic := Some topic, bf_subscription_id := Some sid,
                           bf_next_seq := Some (seq + 1), bf_command_id := cid\<rparr>))"

definition seek_subscription ::
  "tuple_key \<Rightarrow> 't message_bus_state \<Rightarrow> string \<Rightarrow> string \<Rightarrow> u64 \<Rightarrow> string option
    \<Rightarrow> 't message_bus_state \<times> 't runtime_event list" where
  "seek_subscription tk st topic sid next_seq cid =
     (case bt_get (mb_topics st) topic of
        None \<Rightarrow> issue_events st None None ''unknown-topic'' ''unknown topic''
      | Some ts \<Rightarrow>
          let key = subscription_key tk topic sid
          in case bt_get (mb_subscriptions st) key of
               None \<Rightarrow> issue_events st None None ''unknown-subscription'' ''unknown subscription''
             | Some sub \<Rightarrow>
                 if sub_closed sub
                 then issue_events st None None ''subscription-closed'' ''subscription is closed''
                 else if next_seq < ts_head_seq ts
                 then issue_events st None None ''retention-gap'' ''seek is before retained headSeq''
                 else if next_seq > ts_next_seq ts
                 then issue_events st None None ''cursor-out-of-range'' ''seek is beyond topic tail''
                 else status_events
                        (st\<lparr>mb_subscriptions :=
                              bt_insert key (sub\<lparr>sub_next_seq := next_seq, sub_retention_gap := False\<rparr>)
                                (mb_subscriptions st)\<rparr>)
                        SubscriptionSought
                        (no_fields\<lparr>bf_topic := Some topic, bf_subscription_id := Some sid,
                           bf_next_seq := Some next_seq, bf_command_id := cid\<rparr>))"

definition close_subscription ::
  "tuple_key \<Rightarrow> 't message_bus_state \<Rightarrow> string \<Rightarrow> string \<Rightarrow> string option
    \<Rightarrow> 't message_bus_state \<times> 't runtime_event list" where
  "close_subscription tk st topic sid cid =
     (if bt_get (mb_topics st) topic = None
      then issue_events st None None ''unknown-topic'' ''unknown topic''
      else let key = subscription_key tk topic sid
           in case bt_get (mb_subscriptions st) key of
                None \<Rightarrow> issue_events st None None ''unknown-subscription'' ''unknown subscription''
              | Some sub \<Rightarrow>
                  status_events
                    (st\<lparr>mb_subscriptions :=
                          bt_insert key (sub\<lparr>sub_closed := True\<rparr>) (mb_subscriptions st)\<rparr>)
                    SubscriptionClosed
                    (no_fields\<lparr>bf_topic := Some topic, bf_subscription_id := Some sid,
                       bf_next_seq := Some (sub_next_seq sub), bf_command_id := cid\<rparr>))"

text \<open>
  \<open>ensure_subscription\<close> in three parts: the issue of a start outside the retained range,
  its dead-letter entry, and the function itself.
\<close>

definition out_of_range_issue ::
  "message_bus_subscription_options \<Rightarrow> u64 \<Rightarrow> u64 \<Rightarrow> u64 \<Rightarrow> data_issue" where
  "out_of_range_issue opts wanted head tail_seq =
     \<lparr>di_kind = ''issue'', di_code = ''cursor-out-of-range'',
      di_message = ''subscription start seq '' @ to_string wanted @ '' is outside retained range ''
        @ to_string head @ ''..='' @ to_string tail_seq,
      di_severity = ''error'', di_source = ''messageBus'', di_topic = Some (so_topic opts),
      di_details = Some (''subscriptionId='' @ so_subscription_id opts)\<rparr>"

definition dead_letter_issue ::
  "'t message_bus_state \<Rightarrow> string \<Rightarrow> data_issue \<Rightarrow> 't message_bus_state" where
  "dead_letter_issue st topic i =
     (let (now, st) = timestamp_or_zero st
      in st\<lparr>mb_dead_letter_seq := mb_dead_letter_seq st + 1,
            mb_dead_letters := mb_dead_letters st @
              [\<lparr>dl_entry_seq = mb_dead_letter_seq st + 1, dl_topic = Some topic, dl_command = None,
                dl_message = None, dl_issue = i, dl_timestamp_ms = now\<rparr>]\<rparr>)"

definition ensure_subscription ::
  "tuple_key \<Rightarrow> 't message_bus_state \<Rightarrow> message_bus_subscription_options
    \<Rightarrow> 't message_bus_state \<times> subscription_state \<times> bool \<times> data_issue option" where
  "ensure_subscription tk st opts =
     (let key = subscription_key tk (so_topic opts) (so_subscription_id opts)
      in case bt_get (mb_subscriptions st) key of
           Some existing \<Rightarrow> (st, existing, False, None)
         | None \<Rightarrow>
             let topic_range = map_option (\<lambda>t. (ts_head_seq t, ts_next_seq t))
                                 (bt_get (mb_topics st) (so_topic opts));
                 head_or_1 = (case topic_range of None \<Rightarrow> 1 | Some (head, _) \<Rightarrow> head);
                 wanted = (case so_from opts of
                             Earliest \<Rightarrow> head_or_1
                           | Latest \<Rightarrow> (case topic_range of None \<Rightarrow> 1 | Some (_, tail_seq) \<Rightarrow> tail_seq)
                           | FromSeq seq \<Rightarrow> seq);
                 issue = (case topic_range of
                            None \<Rightarrow> None
                          | Some (head, tail_seq) \<Rightarrow>
                              if wanted < head \<or> wanted > tail_seq
                              then Some (out_of_range_issue opts wanted head tail_seq) else None);
                 next_seq = (if issue \<noteq> None then head_or_1 else wanted);
                 st = (case issue of None \<Rightarrow> st | Some i \<Rightarrow> dead_letter_issue st (so_topic opts) i);
                 sub = \<lparr>sub_topic = so_topic opts, sub_subscription_id = so_subscription_id opts,
                        sub_next_seq = next_seq, sub_closed = False,
                        sub_retention_gap =
                          (case topic_range of None \<Rightarrow> False | Some (head, _) \<Rightarrow> next_seq < head)\<rparr>
             in (st\<lparr>mb_subscriptions := bt_insert key sub (mb_subscriptions st)\<rparr>, sub, True, issue))"

text \<open>
  \<open>MessageBus::subscription\<close>: the assertions on its arguments, the state change, and the
  status and issue facts it sets on the bus nodes (\<open>None\<close> is a failed assertion).
\<close>

fun show_from :: "message_bus_subscription_from \<Rightarrow> string" where
  "show_from Earliest = ''Earliest''"
| "show_from Latest = ''Latest''"
| "show_from (FromSeq n) = ''Seq('' @ to_string n @ '')''"

definition open_subscription ::
  "tuple_key \<Rightarrow> 't message_bus_state \<Rightarrow> message_bus_subscription_options
    \<Rightarrow> ('t message_bus_state \<times> subscription_state \<times> 't runtime_event list) option" where
  "open_subscription tk st opts =
     (if so_topic opts = [] \<or> so_subscription_id opts = [] then None
      else let (st, sub, opened, issue) = ensure_subscription tk st opts;
               (st, evs) = (if opened
                            then status_events st SubscriptionOpened
                                   (no_fields\<lparr>bf_topic := Some (sub_topic sub),
                                      bf_subscription_id := Some (sub_subscription_id sub),
                                      bf_next_seq := Some (sub_next_seq sub),
                                      bf_details := Some (''from='' @ show_from (so_from opts))\<rparr>)
                            else (st, []))
           in Some (st, sub, evs @ (case issue of None \<Rightarrow> [] | Some i \<Rightarrow> [EvIssue i])))"

subsection \<open>The command reducer\<close>

text \<open>The final \<open>match\<close> of \<open>reduce_message_bus_command\<close>.\<close>

fun apply_bus_command ::
  "tuple_key \<Rightarrow> 't message_bus_state \<Rightarrow> 't message_bus_command
    \<Rightarrow> 't message_bus_state \<times> 't runtime_event list" where
  "apply_bus_command tk st (EnsureTopic topic cid) = ensure_topic st topic cid"
| "apply_bus_command tk st (CloseTopic topic cid) = close_topic st topic cid"
| "apply_bus_command tk st (TopicPolicy pol cid) = (st\<lparr>mb_topic_policy := pol\<rparr>, [])"
| "apply_bus_command tk st (Publish topic payload key cid ik) =
     publish_message tk st topic payload key cid ik"
| "apply_bus_command tk st (Ack topic sid seq cid) = ack_subscription tk st topic sid seq cid"
| "apply_bus_command tk st (Seek topic sid n cid) = seek_subscription tk st topic sid n cid"
| "apply_bus_command tk st (CloseSubscription topic sid cid) = close_subscription tk st topic sid cid"

definition duplicate_publish :: "tuple_key \<Rightarrow> 't message_bus_state \<Rightarrow> 't message_bus_command \<Rightarrow> bool" where
  "duplicate_publish tk st command =
     (case command of
        Publish topic _ _ _ (Some ik) \<Rightarrow> idempotency_key_for tk topic ik \<in> mb_seen_idempotency_keys st
      | _ \<Rightarrow> False)"

definition reduce_message_bus_command ::
  "tuple_key \<Rightarrow> 't message_bus_state \<Rightarrow> 't message_bus_command
    \<Rightarrow> 't message_bus_state \<times> 't runtime_event list" where
  "reduce_message_bus_command tk st command =
     (case Option.bind (bus_command_topic command) (\<lambda>t. validate_topic_key t ''messageBus'') of
        Some error \<Rightarrow> reject_command st command error
      | None \<Rightarrow>
          if command_subscription_id command = Some []
          then reject_command st command ''subscriptionId must be a non-empty string''
          else if (case bus_command_id command of
                     None \<Rightarrow> False | Some cid \<Rightarrow> cid \<in> mb_seen_command_ids st)
          then duplicate_command_events st command ''duplicate commandId''
          else let st = (case bus_command_id command of
                           None \<Rightarrow> st
                         | Some cid \<Rightarrow> st\<lparr>mb_seen_command_ids := insert cid (mb_seen_command_ids st)\<rparr>)
               in if duplicate_publish tk st command
                  then duplicate_command_events st command ''duplicate idempotencyKey''
                  else apply_bus_command tk st command)"

text \<open>The body of the runtime node: the commands of one wave in order.\<close>

fun bus_runtime_body ::
  "tuple_key \<Rightarrow> 't message_bus_state \<Rightarrow> 't message_bus_command list
    \<Rightarrow> 't message_bus_state \<times> 't runtime_event list" where
  "bus_runtime_body tk st [] = (st, [])"
| "bus_runtime_body tk st (c # cs) =
     (let (st, evs) = reduce_message_bus_command tk st c;
          (st, evs') = bus_runtime_body tk st cs
      in (st, evs @ evs'))"

definition messages_node :: "'t runtime_event list \<Rightarrow> 't message_envelope list" where
  "messages_node evs = concat (map (\<lambda>ev. case ev of EvMessage m \<Rightarrow> [m] | _ \<Rightarrow> []) evs)"

definition status_node :: "'t runtime_event list \<Rightarrow> message_bus_status list" where
  "status_node evs = concat (map (\<lambda>ev. case ev of EvStatus s \<Rightarrow> [s] | _ \<Rightarrow> []) evs)"

definition issues_node :: "'t runtime_event list \<Rightarrow> data_issue list" where
  "issues_node evs = concat (map (\<lambda>ev. case ev of EvIssue i \<Rightarrow> [i] | _ \<Rightarrow> []) evs)"

subsection \<open>Read projections\<close>

text \<open>\<open>positive_limit\<close> panics on 0: \<open>None\<close>.\<close>

definition bus_positive_limit :: "nat option \<Rightarrow> nat option" where
  "bus_positive_limit limit =
     (let n = (case limit of None \<Rightarrow> 100 | Some n \<Rightarrow> n) in if n > 0 then Some n else None)"

definition last_opt :: "'a list \<Rightarrow> 'a option" where
  "last_opt xs = (if xs = [] then None else Some (last xs))"

record message_bus_catalog_entry =
  ce_topic :: string
  ce_closed :: bool
  ce_head_seq :: u64
  ce_next_seq :: u64
  ce_message_count :: nat

record message_bus_catalog_page =
  cp_topics :: "message_bus_catalog_entry list"
  cp_next_after_topic :: "string option"
  cp_has_more :: bool

record message_bus_catalog_params =
  cq_limit :: "nat option"
  cq_after_topic :: "string option"
  cq_include_closed :: bool

definition catalog_page ::
  "'t message_bus_state \<Rightarrow> message_bus_catalog_params \<Rightarrow> message_bus_catalog_page option" where
  "catalog_page st params = do {
     limit \<leftarrow> bus_positive_limit (cq_limit params);
     let topics = filter (\<lambda>(topic, v). (cq_include_closed params \<or> \<not> ts_closed v) \<and>
                            (case cq_after_topic params of None \<Rightarrow> True | Some a \<Rightarrow> topic > a))
                    (mb_topics st);
         has_more = (length topics > limit);
         page = map (\<lambda>(topic, v). \<lparr>ce_topic = topic, ce_closed = ts_closed v,
                       ce_head_seq = ts_head_seq v, ce_next_seq = ts_next_seq v,
                       ce_message_count = length (ts_messages v)\<rparr>) (take limit topics)
     in Some \<lparr>cp_topics = page,
              cp_next_after_topic = (if has_more then map_option ce_topic (last_opt page) else None),
              cp_has_more = has_more\<rparr> }"

record 't message_bus_topic_page =
  tp_topic :: string
  tp_messages :: "'t message_envelope list"
  tp_from_seq :: u64
  tp_through_seq :: "u64 option"
  tp_next_after_seq :: "u64 option"
  tp_has_more :: bool

record message_bus_topic_params =
  tq_limit :: "nat option"
  tq_after_seq :: "u64 option"

definition messages_from :: "u64 \<Rightarrow> 't topic_state option \<Rightarrow> 't message_envelope list" where
  "messages_from start topic =
     (case topic of None \<Rightarrow> [] | Some t \<Rightarrow> filter (\<lambda>m. me_seq m \<ge> start) (ts_messages t))"

definition topic_page ::
  "'t message_bus_state \<Rightarrow> string \<Rightarrow> message_bus_topic_params \<Rightarrow> 't message_bus_topic_page option" where
  "topic_page st topic_name params = do {
     let start = (case tq_after_seq params of
                    None \<Rightarrow> (case bt_get (mb_topics st) topic_name of None \<Rightarrow> 1 | Some t \<Rightarrow> ts_head_seq t)
                  | Some seq \<Rightarrow> seq + 1);
     limit \<leftarrow> bus_positive_limit (tq_limit params);
     let ms = messages_from start (bt_get (mb_topics st) topic_name);
         has_more = (length ms > limit);
         page = take limit ms;
         through_seq = map_option me_seq (last_opt page)
     in Some \<lparr>tp_topic = topic_name, tp_messages = page, tp_from_seq = start,
              tp_through_seq = through_seq,
              tp_next_after_seq = (if has_more then through_seq else None), tp_has_more = has_more\<rparr> }"

record message_bus_cursor =
  mc_topic :: string
  mc_subscription_id :: string
  mc_next_seq :: u64
  mc_closed :: bool
  mc_retention_gap :: bool
  mc_head_seq :: u64

definition live_subscription ::
  "tuple_key \<Rightarrow> 't message_bus_state \<Rightarrow> subscription_state \<Rightarrow> subscription_state" where
  "live_subscription tk st sub =
     (case bt_get (mb_subscriptions st) (subscription_key tk (sub_topic sub) (sub_subscription_id sub)) of
        None \<Rightarrow> sub | Some s \<Rightarrow> s)"

definition cursor_snapshot ::
  "tuple_key \<Rightarrow> 't message_bus_state \<Rightarrow> subscription_state \<Rightarrow> message_bus_cursor" where
  "cursor_snapshot tk st sub0 =
     (let sub = live_subscription tk st sub0
      in \<lparr>mc_topic = sub_topic sub, mc_subscription_id = sub_subscription_id sub,
          mc_next_seq = sub_next_seq sub, mc_closed = sub_closed sub,
          mc_retention_gap = sub_retention_gap sub,
          mc_head_seq = (case bt_get (mb_topics st) (sub_topic sub) of
                           None \<Rightarrow> 1 | Some t \<Rightarrow> ts_head_seq t)\<rparr>)"

record 't message_bus_available_page =
  ap_topic :: string
  ap_subscription_id :: string
  ap_cursor :: message_bus_cursor
  ap_messages :: "'t message_envelope list"
  ap_from_seq :: u64
  ap_through_seq :: "u64 option"
  ap_next_after_seq :: "u64 option"
  ap_has_more :: bool

definition bus_available_page ::
  "tuple_key \<Rightarrow> 't message_bus_state \<Rightarrow> subscription_state \<Rightarrow> message_bus_topic_params
    \<Rightarrow> 't message_bus_available_page option" where
  "bus_available_page tk st sub_key params = do {
     let sub = live_subscription tk st sub_key;
     let start = (case tq_after_seq params of None \<Rightarrow> sub_next_seq sub | Some seq \<Rightarrow> seq + 1);
     let ms = (if sub_retention_gap sub then []
               else messages_from start (bt_get (mb_topics st) (sub_topic sub)));
     limit \<leftarrow> bus_positive_limit (tq_limit params);
     let has_more = (length ms > limit);
         page = take limit ms;
         through_seq = map_option me_seq (last_opt page)
     in Some \<lparr>ap_topic = sub_topic sub, ap_subscription_id = sub_subscription_id sub,
              ap_cursor = cursor_snapshot tk st sub, ap_messages = page, ap_from_seq = start,
              ap_through_seq = through_seq,
              ap_next_after_seq = (if has_more then through_seq else None), ap_has_more = has_more\<rparr> }"

record message_bus_dead_letter_params =
  dq_limit :: "nat option"
  dq_after_entry_seq :: "u64 option"
  dq_topic :: "string option"
  dq_code :: "string option"

record 't message_bus_dead_letter_page =
  dp_entries :: "'t message_bus_dead_letter_entry list"
  dp_next_after_entry_seq :: "u64 option"
  dp_has_more :: bool

definition bus_dead_letter_page ::
  "'t message_bus_state \<Rightarrow> message_bus_dead_letter_params \<Rightarrow> 't message_bus_dead_letter_page option" where
  "bus_dead_letter_page st params = do {
     limit \<leftarrow> bus_positive_limit (dq_limit params);
     let entries = filter (\<lambda>e. (case dq_after_entry_seq params of None \<Rightarrow> True | Some a \<Rightarrow> dl_entry_seq e > a)
                            \<and> (case dq_topic params of None \<Rightarrow> True | Some t \<Rightarrow> dl_topic e = Some t)
                            \<and> (case dq_code params of None \<Rightarrow> True | Some c \<Rightarrow> di_code (dl_issue e) = c))
                     (mb_dead_letters st);
         has_more = (length entries > limit);
         page = take limit entries
     in Some \<lparr>dp_entries = page,
              dp_next_after_entry_seq = (if has_more then map_option dl_entry_seq (last_opt page) else None),
              dp_has_more = has_more\<rparr> }"

text \<open>The bodies of the cursor node of a subscription and of the \<open>to_topic\<close> command node.\<close>

definition cursor_node ::
  "tuple_key \<Rightarrow> 't message_bus_state \<Rightarrow> subscription_state \<Rightarrow> message_bus_status list
    \<Rightarrow> message_bus_cursor list" where
  "cursor_node tk st sub statuses =
     concat (map (\<lambda>s.
       let subscription_moved = bs_topic s = Some (sub_topic sub) \<and>
             bs_subscription_id s = Some (sub_subscription_id sub) \<and>
             bs_kind s \<in> {SubscriptionOpened, SubscriptionAcked, SubscriptionSought, SubscriptionClosed};
           retention_changed = bs_topic s = Some (sub_topic sub) \<and> bs_kind s = RetentionTrimmed
       in if subscription_moved \<or> retention_changed then [cursor_snapshot tk st sub] else []) statuses)"

definition to_topic_node :: "string \<Rightarrow> 't list \<Rightarrow> 't message_bus_command list" where
  "to_topic_node topic vals = map (\<lambda>v. Publish topic v None None None) vals"

definition subscription_ack :: "subscription_state \<Rightarrow> u64 \<Rightarrow> string option \<Rightarrow> 't message_bus_command" where
  "subscription_ack sub seq cid = Ack (sub_topic sub) (sub_subscription_id sub) seq cid"

definition subscription_seek :: "subscription_state \<Rightarrow> u64 \<Rightarrow> string option \<Rightarrow> 't message_bus_command" where
  "subscription_seek sub n cid = Seek (sub_topic sub) (sub_subscription_id sub) n cid"

definition subscription_close :: "subscription_state \<Rightarrow> string option \<Rightarrow> 't message_bus_command" where
  "subscription_close sub cid = CloseSubscription (sub_topic sub) (sub_subscription_id sub) cid"

section \<open>What the reducers leave alone\<close>

named_theorems bus_frame \<open>effects of the event-producing helpers on the fields of the bus state\<close>

text \<open>The part of the bus state that helpers which only report do not touch.\<close>

definition same_bus :: "'t message_bus_state \<Rightarrow> 't message_bus_state \<Rightarrow> bool" where
  "same_bus st st' \<longleftrightarrow>
     mb_now st' = mb_now st \<and> mb_ticks st \<le> mb_ticks st' \<and> mb_topic_policy st' = mb_topic_policy st \<and>
     mb_retention st' = mb_retention st \<and> mb_dedupe st' = mb_dedupe st \<and>
     mb_topics st' = mb_topics st \<and> mb_subscriptions st' = mb_subscriptions st \<and>
     mb_seen_command_ids st' = mb_seen_command_ids st \<and>
     mb_seen_idempotency_keys st' = mb_seen_idempotency_keys st"

lemma same_bus_refl [simp]: "same_bus st st"
  by (simp add: same_bus_def)

lemma same_bus_trans: "same_bus a b \<Longrightarrow> same_bus b c \<Longrightarrow> same_bus a c"
  by (auto simp: same_bus_def)

lemma messages_node_simps [simp]:
  "messages_node [] = []"
  "messages_node (EvMessage m # evs) = m # messages_node evs"
  "messages_node (EvStatus s # evs) = messages_node evs"
  "messages_node (EvIssue i # evs) = messages_node evs"
  "messages_node (evs @ evs') = messages_node evs @ messages_node evs'"
  by (simp_all add: messages_node_def)

lemma status_events_frame [bus_frame]:
  "same_bus st (fst (status_events st k fs))"
  "messages_node (snd (status_events st k fs)) = []"
  by (simp_all add: status_events_def status_fact_def timestamp_or_zero_def same_bus_def)

lemma issue_events_frame [bus_frame]:
  "same_bus st (fst (issue_events st c m code msg))"
  "messages_node (snd (issue_events st c m code msg)) = []"
  by (simp_all add: issue_events_def timestamp_or_zero_def same_bus_def Let_def)

lemma duplicate_command_events_frame [bus_frame]:
  "same_bus st (fst (duplicate_command_events st c msg))"
  "messages_node (snd (duplicate_command_events st c msg)) = []"
  by (simp_all add: duplicate_command_events_def status_fact_def timestamp_or_zero_def Let_def
      bus_frame) (simp add: same_bus_def issue_events_def timestamp_or_zero_def Let_def)

lemma gap_issues_frame [bus_frame]:
  "same_bus st (fst (gap_issues st sids))"
  "messages_node (snd (gap_issues st sids)) = []"
proof (induction sids arbitrary: st)
  case (Cons sid sids)
  { case 1 from Cons(1) show ?case
      by (auto simp: Let_def split_beta intro: same_bus_trans issue_events_frame) }
  { case 2 from Cons(2) show ?case
      by (auto simp: Let_def split_beta bus_frame) }
qed simp_all

section \<open>Retention invariant\<close>

definition monotone_clock :: "clock \<Rightarrow> bool" where
  "monotone_clock now \<longleftrightarrow> (\<forall>i. now i \<noteq> None) \<and> (\<forall>i j. i \<le> j \<longrightarrow> the (now i) \<le> the (now j))"

text \<open>
  The configurations in which retention only ever drops the oldest messages: a count bound of
  zero is not configured, and age trimming either is off or sees a clock that works and never
  goes back.
\<close>

definition lossless :: "'t message_bus_state \<Rightarrow> bool" where
  "lossless st \<longleftrightarrow> max_messages (mb_retention st) \<noteq> Some 0 \<and>
     (max_age_ms (mb_retention st) = None \<or> monotone_clock (mb_now st))"

definition on_topic :: "string \<Rightarrow> 't message_envelope list \<Rightarrow> 't message_envelope list" where
  "on_topic t pub = filter (\<lambda>m. me_topic m = t) pub"

definition numbered :: "'t message_envelope list \<Rightarrow> bool" where
  "numbered p \<longleftrightarrow> map me_seq p = map (\<lambda>i. of_nat (Suc i)) [0..<length p]"

definition stamped :: "'t message_bus_state \<Rightarrow> 't message_envelope list \<Rightarrow> bool" where
  "stamped st p \<longleftrightarrow> (monotone_clock (mb_now st) \<longrightarrow>
     sorted (map me_timestamp_ms p) \<and>
     (\<forall>m \<in> set p. me_timestamp_ms m \<le> the (mb_now st (mb_ticks st))))"

definition window :: "'t message_bus_state \<Rightarrow> 't message_envelope list \<Rightarrow> 't topic_state \<Rightarrow> bool" where
  "window st p ts \<longleftrightarrow> (lossless st \<longrightarrow>
     (\<exists>k \<le> length p. ts_messages ts = drop k p \<and> ts_head_seq ts = of_nat (Suc k)))"

text \<open>A topic against the list \<open>p\<close> of all messages ever published on it.\<close>

definition topic_inv :: "'t message_bus_state \<Rightarrow> 't message_envelope list \<Rightarrow> 't topic_state \<Rightarrow> bool" where
  "topic_inv st p ts \<longleftrightarrow> numbered p \<and> stamped st p \<and> window st p ts \<and>
     ts_next_seq ts = of_nat (Suc (length p))"

definition topics_inv :: "'t message_bus_state \<Rightarrow> 't message_envelope list \<Rightarrow> bool" where
  "topics_inv st pub \<longleftrightarrow> bt_ok (mb_topics st) \<and>
     (\<forall>t. bt_get (mb_topics st) t = None \<longrightarrow> on_topic t pub = []) \<and>
     (\<forall>t ts. bt_get (mb_topics st) t = Some ts \<longrightarrow> topic_inv st (on_topic t pub) ts)"

text \<open>An open subscription without a gap flag has not fallen behind the retained head.\<close>

definition sub_inv :: "('t topic_state) option \<Rightarrow> subscription_state \<Rightarrow> bool" where
  "sub_inv topic s \<longleftrightarrow>
     (case topic of
        None \<Rightarrow> True
      | Some ts \<Rightarrow> sub_closed s \<or> sub_retention_gap s \<or> ts_head_seq ts \<le> sub_next_seq s \<or> ts_head_seq ts = 1)"

definition subs_inv :: "tuple_key \<Rightarrow> 't message_bus_state \<Rightarrow> bool" where
  "subs_inv tk st \<longleftrightarrow> bt_ok (mb_subscriptions st) \<and>
     (\<forall>k s. bt_get (mb_subscriptions st) k = Some s \<longrightarrow>
        k = subscription_key tk (sub_topic s) (sub_subscription_id s) \<and>
        sub_inv (bt_get (mb_topics st) (sub_topic s)) s)"

definition bus_inv :: "tuple_key \<Rightarrow> 't message_envelope list \<Rightarrow> 't message_bus_state \<Rightarrow> bool" where
  "bus_inv tk pub st \<longleftrightarrow> topics_inv st pub \<and> subs_inv tk st"

lemma on_topic_simps [simp]:
  "on_topic t [] = []"
  "on_topic t (pub @ pub') = on_topic t pub @ on_topic t pub'"
  "on_topic t [m] = (if me_topic m = t then [m] else [])"
  by (simp_all add: on_topic_def)

lemma filter_up_closed:
  "sorted_wrt (\<lambda>x y. P x \<longrightarrow> P y) xs \<Longrightarrow> \<exists>j \<le> length xs. filter P xs = drop j xs"
proof (induction xs)
  case (Cons x xs)
  show ?case
  proof (cases "P x")
    case True
    with Cons.prems have "filter P (x # xs) = drop 0 (x # xs)" by simp
    then show ?thesis by blast
  next
    case False
    from Cons obtain j where "j \<le> length xs" "filter P xs = drop j xs" by auto
    with False have "Suc j \<le> length (x # xs) \<and> filter P (x # xs) = drop (Suc j) (x # xs)" by simp
    then show ?thesis by blast
  qed
qed simp

text \<open>Under a monotone clock the age trim drops a prefix; the count trim always does.\<close>

lemma retain_by_age_drop:
  assumes "max_age \<noteq> None \<Longrightarrow> sorted (map me_timestamp_ms ms) \<and> (\<forall>m \<in> set ms. me_timestamp_ms m \<le> now)"
  shows "\<exists>j \<le> length ms. retain_by_age now max_age ms = drop j ms"
proof (cases max_age)
  case None
  then have "retain_by_age now max_age ms = drop 0 ms" by (simp add: retain_by_age_def)
  then show ?thesis by blast
next
  case (Some a)
  let ?P = "\<lambda>m :: 'a message_envelope. saturating_sub now (me_timestamp_ms m) \<le> a"
  have "sorted_wrt (\<lambda>x y. me_timestamp_ms x \<le> me_timestamp_ms y) ms"
    using assms Some by (simp add: sorted_map)
  then have "sorted_wrt (\<lambda>x y. ?P x \<longrightarrow> ?P y) ms"
    by (rule sorted_wrt_mono_rel [rotated])
      (auto simp: word_le_nat_alt unat_saturating_sub)
  from filter_up_closed [OF this] Some show ?thesis by (simp add: retain_by_age_def)
qed

lemma retain_by_count_drop: "\<exists>j \<le> length ms. retain_by_count n ms = drop j ms"
proof (cases n)
  case None
  then have "retain_by_count n ms = drop 0 ms" by (simp add: retain_by_count_def)
  then show ?thesis by blast
next
  case (Some a)
  then have "retain_by_count n ms = drop (if length ms > a then length ms - a else 0) ms"
    by (simp add: retain_by_count_def)
  then show ?thesis by (metis diff_le_self zero_le)
qed

lemma stamped_mono: "stamped st p \<Longrightarrow> same_bus st st' \<Longrightarrow> stamped st' p"
  by (auto simp: stamped_def same_bus_def monotone_clock_def) (meson order_trans)

lemma topic_inv_same: "topic_inv st p ts \<Longrightarrow> same_bus st st' \<Longrightarrow> topic_inv st' p ts"
  using stamped_mono [of st p st']
  by (auto simp: topic_inv_def window_def lossless_def same_bus_def)

lemma same_bus_inv: "bus_inv tk pub st \<Longrightarrow> same_bus st st' \<Longrightarrow> bus_inv tk pub st'"
proof -
  assume inv: "bus_inv tk pub st" and same: "same_bus st st'"
  then have "mb_topics st' = mb_topics st" by (simp add: same_bus_def)
  then have "topics_inv st' pub"
    using inv topic_inv_same [OF _ same]
    by (simp add: bus_inv_def topics_inv_def)
  moreover have "subs_inv tk st'"
    using inv same by (simp add: bus_inv_def subs_inv_def same_bus_def)
  ultimately show ?thesis by (simp add: bus_inv_def)
qed

lemma topic_inv_updates [simp]:
  "topic_inv (st\<lparr>mb_topics := x\<rparr>) p ts = topic_inv st p ts"
  "topic_inv (st\<lparr>mb_subscriptions := y\<rparr>) p ts = topic_inv st p ts"
  "topic_inv (st\<lparr>mb_seen_command_ids := z\<rparr>) p ts = topic_inv st p ts"
  "topic_inv (st\<lparr>mb_seen_idempotency_keys := z\<rparr>) p ts = topic_inv st p ts"
  "topic_inv (st\<lparr>mb_topic_policy := pol\<rparr>) p ts = topic_inv st p ts"
  by (simp_all add: topic_inv_def stamped_def window_def lossless_def)

text \<open>Replacing one topic, together with the subscriptions, keeps the invariant.\<close>

lemma bus_inv_update:
  assumes "bus_inv tk pub st"
    and "topic_inv st (on_topic t pub') ts'"
    and "\<And>t'. t' \<noteq> t \<Longrightarrow> on_topic t' pub' = on_topic t' pub"
    and "bt_ok subs'"
    and "\<And>k s. bt_get subs' k = Some s \<Longrightarrow>
           k = subscription_key tk (sub_topic s) (sub_subscription_id s) \<and>
           sub_inv (if sub_topic s = t then Some ts' else bt_get (mb_topics st) (sub_topic s)) s"
  shows "bus_inv tk pub' (st\<lparr>mb_topics := bt_insert t ts' (mb_topics st), mb_subscriptions := subs'\<rparr>)"
proof -
  have ok: "bt_ok (mb_topics st)" using assms(1) by (simp add: bus_inv_def topics_inv_def)
  have "topics_inv (st\<lparr>mb_topics := bt_insert t ts' (mb_topics st), mb_subscriptions := subs'\<rparr>) pub'"
    using assms(1-3) ok by (auto simp: topics_inv_def bus_inv_def btree)
  moreover have "subs_inv tk (st\<lparr>mb_topics := bt_insert t ts' (mb_topics st), mb_subscriptions := subs'\<rparr>)"
    using assms(4,5) ok by (fastforce simp: subs_inv_def btree)
  ultimately show ?thesis by (simp add: bus_inv_def)
qed

lemma bus_inv_topic:
  assumes inv: "bus_inv tk pub st"
    and new: "topic_inv st (on_topic t pub') ts'"
    and others: "\<And>t'. t' \<noteq> t \<Longrightarrow> on_topic t' pub' = on_topic t' pub"
    and head: "case bt_get (mb_topics st) t of None \<Rightarrow> ts_head_seq ts' = 1
               | Some ts \<Rightarrow> ts_head_seq ts' = ts_head_seq ts"
  shows "bus_inv tk pub' (st\<lparr>mb_topics := bt_insert t ts' (mb_topics st)\<rparr>)"
proof -
  have "bus_inv tk pub' (st\<lparr>mb_topics := bt_insert t ts' (mb_topics st),
                            mb_subscriptions := mb_subscriptions st\<rparr>)"
  proof (rule bus_inv_update [OF inv new others])
    show "bt_ok (mb_subscriptions st)" using inv by (simp add: bus_inv_def subs_inv_def)
    fix k s assume "bt_get (mb_subscriptions st) k = Some s"
    with inv have "k = subscription_key tk (sub_topic s) (sub_subscription_id s) \<and>
        sub_inv (bt_get (mb_topics st) (sub_topic s)) s"
      by (simp add: bus_inv_def subs_inv_def)
    with head show "k = subscription_key tk (sub_topic s) (sub_subscription_id s) \<and>
        sub_inv (if sub_topic s = t then Some ts' else bt_get (mb_topics st) (sub_topic s)) s"
      by (auto simp: sub_inv_def split: option.splits)
  qed
  then show ?thesis by simp
qed

lemma bus_inv_sub:
  assumes inv: "bus_inv tk pub st"
    and key: "k = subscription_key tk (sub_topic s) (sub_subscription_id s)"
    and sub: "sub_inv (bt_get (mb_topics st) (sub_topic s)) s"
  shows "bus_inv tk pub (st\<lparr>mb_subscriptions := bt_insert k s (mb_subscriptions st)\<rparr>)"
  using assms by (auto simp: bus_inv_def topics_inv_def subs_inv_def btree)

lemma bus_inv_other [simp]:
  "bus_inv tk pub (st\<lparr>mb_seen_command_ids := z\<rparr>) = bus_inv tk pub st"
  "bus_inv tk pub (st\<lparr>mb_seen_idempotency_keys := z\<rparr>) = bus_inv tk pub st"
  "bus_inv tk pub (st\<lparr>mb_topic_policy := pol\<rparr>) = bus_inv tk pub st"
  by (simp_all add: bus_inv_def topics_inv_def subs_inv_def)

text \<open>Each reducer, by itself.\<close>

lemma make_topic_state_inv: "topic_inv st [] make_topic_state"
  by (simp add: topic_inv_def make_topic_state_def numbered_def stamped_def window_def)

lemma status_events_inv [intro]: "bus_inv tk pub st \<Longrightarrow> bus_inv tk pub (fst (status_events st k fs))"
  by (erule same_bus_inv) (rule status_events_frame)

lemma issue_events_inv [intro]: "bus_inv tk pub st \<Longrightarrow> bus_inv tk pub (fst (issue_events st c m code msg))"
  by (erule same_bus_inv) (rule issue_events_frame)

lemma ensure_topic_inv:
  assumes "bus_inv tk pub st"
  shows "bus_inv tk pub (fst (ensure_topic st t cid))"
proof (cases "bt_get (mb_topics st) t")
  case None
  then have "on_topic t pub = []"
    using assms by (simp add: bus_inv_def topics_inv_def)
  then have "bus_inv tk pub (st\<lparr>mb_topics := bt_insert t make_topic_state (mb_topics st)\<rparr>)"
    using assms None by (intro bus_inv_topic) (simp_all add: make_topic_state_inv, simp add: make_topic_state_def)
  with None show ?thesis by (auto simp: ensure_topic_def)
next
  case (Some ts)
  with assms show ?thesis by (auto simp: ensure_topic_def)
qed

lemma close_topic_inv:
  assumes "bus_inv tk pub st"
  shows "bus_inv tk pub (fst (close_topic st t cid))"
proof (cases "bt_get (mb_topics st) t")
  case (Some ts)
  then have "topic_inv st (on_topic t pub) ts"
    using assms by (simp add: bus_inv_def topics_inv_def)
  then have "topic_inv st (on_topic t pub) (ts\<lparr>ts_closed := True\<rparr>)"
    by (simp add: topic_inv_def window_def)
  with assms Some have "bus_inv tk pub (st\<lparr>mb_topics := bt_insert t (ts\<lparr>ts_closed := True\<rparr>) (mb_topics st)\<rparr>)"
    by (intro bus_inv_topic) simp_all
  with Some show ?thesis by (auto simp: close_topic_def)
qed (use assms in \<open>auto simp: close_topic_def\<close>)

lemma timestamp_frame [bus_frame]: "same_bus st (snd (timestamp_or_zero st))"
  by (simp add: timestamp_or_zero_def same_bus_def)

lemma monotone_reading:
  assumes "monotone_clock (mb_now st)" "timestamp_or_zero st = (now, st')"
  shows "now = the (mb_now st (mb_ticks st))"
proof -
  from assms(1) obtain t where "mb_now st (mb_ticks st) = Some t"
    unfolding monotone_clock_def by blast
  with assms(2) show ?thesis by (simp add: timestamp_or_zero_def)
qed

lemma bus_inv_topicD:
  "bus_inv tk pub st \<Longrightarrow> bt_get (mb_topics st) t = Some ts \<Longrightarrow> topic_inv st (on_topic t pub) ts"
  by (simp add: bus_inv_def topics_inv_def)

text \<open>Appending the next message, stamped with the current reading of the clock.\<close>

lemma append_topic_inv:
  assumes inv: "topic_inv st p ts"
    and now: "timestamp_or_zero st = (now, st')"
    and m: "me_seq m = ts_next_seq ts" "me_timestamp_ms m = now"
  shows "topic_inv st' (p @ [m])
           (ts\<lparr>ts_next_seq := ts_next_seq ts + 1, ts_messages := ts_messages ts @ [m]\<rparr>)"
proof -
  have same: "same_bus st st'" using now timestamp_frame [of st] by simp
  have "numbered (p @ [m])"
    using inv m by (simp add: topic_inv_def numbered_def)
  moreover have "stamped st' (p @ [m])"
  proof -
    have st': "mb_now st' = mb_now st" "mb_ticks st' = Suc (mb_ticks st)"
      using now by (auto simp: timestamp_or_zero_def)
    { assume mono: "monotone_clock (mb_now st)"
      then have reading: "now = the (mb_now st (mb_ticks st))"
        using now by (rule monotone_reading)
      have le: "the (mb_now st (mb_ticks st)) \<le> the (mb_now st (Suc (mb_ticks st)))"
        using mono by (simp add: monotone_clock_def)
      have "sorted (map me_timestamp_ms p)" "\<forall>m \<in> set p. me_timestamp_ms m \<le> now"
        using inv mono reading by (auto simp: topic_inv_def stamped_def)
      with m le reading have "sorted (map me_timestamp_ms (p @ [m])) \<and>
          (\<forall>m \<in> set (p @ [m]). me_timestamp_ms m \<le> the (mb_now st (Suc (mb_ticks st))))"
        by (auto simp: sorted_append) }
    then show ?thesis using st' by (simp add: stamped_def)
  qed
  moreover have "window st' (p @ [m])
      (ts\<lparr>ts_next_seq := ts_next_seq ts + 1, ts_messages := ts_messages ts @ [m]\<rparr>)"
  proof (unfold window_def, intro impI)
    assume "lossless st'"
    with inv same obtain k where "k \<le> length p" "ts_messages ts = drop k p" "ts_head_seq ts = of_nat (Suc k)"
      by (auto simp: topic_inv_def window_def lossless_def same_bus_def)
    then show "\<exists>k \<le> length (p @ [m]).
        ts_messages (ts\<lparr>ts_next_seq := ts_next_seq ts + 1, ts_messages := ts_messages ts @ [m]\<rparr>) = drop k (p @ [m]) \<and>
        ts_head_seq (ts\<lparr>ts_next_seq := ts_next_seq ts + 1, ts_messages := ts_messages ts @ [m]\<rparr>) = of_nat (Suc k)"
      by (intro exI [of _ k]) simp
  qed
  ultimately show ?thesis
    using inv by (simp add: topic_inv_def add.commute)
qed

text \<open>Trimming keeps a suffix and moves the head to its first message.\<close>

lemma numbered_nth: "numbered p \<Longrightarrow> i < length p \<Longrightarrow> me_seq (p ! i) = of_nat (Suc i)"
  unfolding numbered_def
  by (metis (no_types, lifting) add_0 length_map map_nth nth_map nth_upt)

lemma trim_topic_inv:
  assumes inv: "topic_inv st p ts"
    and now: "timestamp_or_zero st = (now, st')"
    and kept: "kept = retain_by_count (max_messages (mb_retention st))
                 (retain_by_age now (max_age_ms (mb_retention st)) (ts_messages ts))"
    and head: "head = (case kept of [] \<Rightarrow> ts_next_seq ts | m # _ \<Rightarrow> me_seq m)"
  shows "topic_inv st' p (ts\<lparr>ts_messages := kept, ts_head_seq := head\<rparr>)"
proof -
  have same: "same_bus st st'" using now timestamp_frame [of st] by simp
  have "window st' p (ts\<lparr>ts_messages := kept, ts_head_seq := head\<rparr>)"
  proof (unfold window_def, intro impI)
    assume "lossless st'"
    with same have ll: "lossless st" by (simp add: lossless_def same_bus_def)
    with inv obtain k where k: "k \<le> length p" "ts_messages ts = drop k p"
      by (auto simp: topic_inv_def window_def)
    have "\<exists>j \<le> length (drop k p). retain_by_age now (max_age_ms (mb_retention st)) (drop k p) = drop j (drop k p)"
    proof (rule retain_by_age_drop)
      assume "max_age_ms (mb_retention st) \<noteq> None"
      with ll have mono: "monotone_clock (mb_now st)" by (simp add: lossless_def)
      then have "now = the (mb_now st (mb_ticks st))"
        using now by (rule monotone_reading)
      with inv mono show "sorted (map me_timestamp_ms (drop k p)) \<and>
          (\<forall>m \<in> set (drop k p). me_timestamp_ms m \<le> now)"
        by (auto simp: topic_inv_def stamped_def drop_map [symmetric] sorted_wrt_drop dest: in_set_dropD)
    qed
    with k(2) retain_by_count_drop kept obtain i where "kept = drop i p"
      by (metis drop_drop)
    then obtain i where i: "kept = drop i p" "i \<le> length p"
      by (metis drop_all drop_all nle_le order_refl)
    have "head = of_nat (Suc i)"
    proof (cases "i < length p")
      case True
      then have "kept = p ! i # drop (Suc i) p" using i by (simp add: Cons_nth_drop_Suc)
      with True inv show ?thesis by (simp add: head numbered_nth topic_inv_def)
    next
      case False
      with i inv show ?thesis by (simp add: head topic_inv_def)
    qed
    with i show "\<exists>k \<le> length p. ts_messages (ts\<lparr>ts_messages := kept, ts_head_seq := head\<rparr>) = drop k p \<and>
        ts_head_seq (ts\<lparr>ts_messages := kept, ts_head_seq := head\<rparr>) = of_nat (Suc k)"
      by auto
  qed
  then show ?thesis
    using topic_inv_same [OF inv same] by (simp add: topic_inv_def)
qed

lemma flag_gaps_get:
  "bt_get (fst (flag_gaps t head subs)) k =
     map_option (\<lambda>s. if left_behind t head s then s\<lparr>sub_retention_gap := True\<rparr> else s) (bt_get subs k)"
  by (induction subs) (auto simp: flag_gaps_def)

lemma flag_gaps_ok: "bt_ok (fst (flag_gaps t head subs)) = bt_ok subs"
  by (simp add: flag_gaps_def bt_ok_def comp_def split_beta)

text \<open>What a trim does to the topic and to the subscriptions.\<close>

definition trimmed_topic :: "message_bus_retention_policy \<Rightarrow> u64 \<Rightarrow> 't topic_state \<Rightarrow> 't topic_state" where
  "trimmed_topic ret now ts =
     (let aged = retain_by_age now (max_age_ms ret) (ts_messages ts)
      in if max_messages ret = Some 0 then ts\<lparr>ts_messages := aged\<rparr>
         else let kept = retain_by_count (max_messages ret) aged
              in ts\<lparr>ts_messages := kept,
                    ts_head_seq := (case kept of [] \<Rightarrow> ts_next_seq ts | m # _ \<Rightarrow> me_seq m)\<rparr>)"

definition trimmed_subs ::
  "string \<Rightarrow> 't topic_state \<Rightarrow> 't topic_state \<Rightarrow> (string, subscription_state) btree
    \<Rightarrow> (string, subscription_state) btree" where
  "trimmed_subs t ts ts' subs =
     (if ts_head_seq ts' = ts_head_seq ts then subs else fst (flag_gaps t (ts_head_seq ts') subs))"

lemma same_bus_into:
  assumes "same_bus st st'"
  shows "same_bus (st\<lparr>mb_subscriptions := subs\<rparr>) (st'\<lparr>mb_subscriptions := subs\<rparr>)"
  using assms by (simp add: same_bus_def)

lemma trim_retention_state:
  assumes some: "bt_get (mb_topics st) t = Some ts" and now: "timestamp_or_zero st = (now, st1)"
  defines "ts' \<equiv> trimmed_topic (mb_retention st) now ts"
  shows "same_bus (st1\<lparr>mb_topics := bt_insert t ts' (mb_topics st1),
                       mb_subscriptions := trimmed_subs t ts ts' (mb_subscriptions st1)\<rparr>)
           (fst (trim_retention st t))"
proof -
  have st1: "mb_topics st1 = mb_topics st" "mb_retention st1 = mb_retention st"
    using now by (auto simp: timestamp_or_zero_def)
  define st2 where "st2 = st1\<lparr>mb_topics := bt_insert t ts' (mb_topics st1)\<rparr>"
  show ?thesis
  proof (cases "max_messages (mb_retention st) = Some 0")
    case True
    then have "fst (trim_retention st t) =
        fst (issue_events st2 None None ''policy-rejected'' ''retention.maxMessages must be positive'')"
      using some now st1 by (simp add: trim_retention_def Let_def ts'_def trimmed_topic_def st2_def)
    then show ?thesis
      using True issue_events_frame(1) [of st2]
      by (simp add: ts'_def trimmed_topic_def trimmed_subs_def st2_def Let_def)
  next
    case False
    define fs where "fs = no_fields\<lparr>bf_topic := Some t, bf_head_seq := Some (ts_head_seq ts'),
        bf_details := Some (''trimCount='' @ to_string (saturating_sub (ts_head_seq ts') (ts_head_seq ts)))\<rparr>"
    define st3 where "st3 = fst (status_events st2 RetentionTrimmed fs)"
    have same: "same_bus st2 st3" unfolding st3_def by (rule status_events_frame)
    have result: "fst (trim_retention st t) =
        (if ts_head_seq ts' = ts_head_seq ts then st2
         else fst (gap_issues (st3\<lparr>mb_subscriptions := fst (flag_gaps t (ts_head_seq ts') (mb_subscriptions st3))\<rparr>)
                (snd (flag_gaps t (ts_head_seq ts') (mb_subscriptions st3)))))"
      using some now st1 False
      by (simp add: trim_retention_def Let_def split_beta st3_def st2_def fs_def ts'_def trimmed_topic_def)
    have "mb_subscriptions st3 = mb_subscriptions st1"
      using same by (simp add: same_bus_def st2_def)
    then show ?thesis
      using same_bus_trans [OF same_bus_into [OF same] gap_issues_frame(1)]
      by (auto simp: result trimmed_subs_def st2_def)
  qed
qed

lemma trim_retention_inv:
  assumes inv: "bus_inv tk pub st"
  shows "bus_inv tk pub (fst (trim_retention st t))"
proof -
  obtain now st1 where now: "timestamp_or_zero st = (now, st1)" by fastforce
  have same: "same_bus st st1" using now timestamp_frame [of st] by simp
  have inv1: "bus_inv tk pub st1" using inv same by (rule same_bus_inv)
  show ?thesis
  proof (cases "bt_get (mb_topics st) t")
    case None
    with now inv1 same show ?thesis by (simp add: trim_retention_def same_bus_def)
  next
    case (Some ts)
    define ts' where "ts' = trimmed_topic (mb_retention st) now ts"
    have old: "topic_inv st (on_topic t pub) ts" using inv Some by (rule bus_inv_topicD)
    have new: "topic_inv st1 (on_topic t pub) ts'"
    proof (cases "max_messages (mb_retention st) = Some 0")
      case True
      with topic_inv_same [OF old same] same show ?thesis
        by (simp add: ts'_def trimmed_topic_def topic_inv_def window_def lossless_def same_bus_def)
    qed (simp add: ts'_def trimmed_topic_def Let_def trim_topic_inv [OF old now])
    have "bus_inv tk pub (st1\<lparr>mb_topics := bt_insert t ts' (mb_topics st1),
        mb_subscriptions := trimmed_subs t ts ts' (mb_subscriptions st1)\<rparr>)"
    proof (rule bus_inv_update [OF inv1 new])
      show "bt_ok (trimmed_subs t ts ts' (mb_subscriptions st1))"
        using inv1 by (simp add: trimmed_subs_def flag_gaps_ok bus_inv_def subs_inv_def)
      fix k s assume "bt_get (trimmed_subs t ts ts' (mb_subscriptions st1)) k = Some s"
      then obtain s0 where s0: "bt_get (mb_subscriptions st1) k = Some s0"
          "s = (if ts_head_seq ts' \<noteq> ts_head_seq ts \<and> left_behind t (ts_head_seq ts') s0
                then s0\<lparr>sub_retention_gap := True\<rparr> else s0)"
        by (cases "ts_head_seq ts' = ts_head_seq ts") (auto simp: flag_gaps_get trimmed_subs_def)
      have "k = subscription_key tk (sub_topic s0) (sub_subscription_id s0)"
          "sub_inv (bt_get (mb_topics st1) (sub_topic s0)) s0"
        using s0(1) inv1 by (simp_all add: bus_inv_def subs_inv_def)
      with Some same show "k = subscription_key tk (sub_topic s) (sub_subscription_id s) \<and>
          sub_inv (if sub_topic s = t then Some ts' else bt_get (mb_topics st1) (sub_topic s)) s"
        by (auto simp: s0(2) left_behind_def sub_inv_def same_bus_def not_less)
    qed simp
    then show ?thesis
      using trim_retention_state [OF Some now] by (auto simp: ts'_def intro: same_bus_inv)
  qed
qed

lemma trim_retention_silent [bus_frame]: "messages_node (snd (trim_retention st t)) = []"
  by (auto simp: trim_retention_def Let_def split_beta bus_frame split: option.splits)

lemma publish_to_topic_message:
  "messages_node (snd (publish_to_topic tk st t v key cid ik ts)) =
     [\<lparr>me_topic = t, me_seq = ts_next_seq ts, me_payload = v, me_key = key,
       me_timestamp_ms = fst (timestamp_or_zero st), me_command_id = cid, me_idempotency_key = ik\<rparr>]"
  by (simp add: publish_to_topic_def Let_def split_beta bus_frame)

lemma publish_to_topic_inv:
  assumes inv: "bus_inv tk pub st" and some: "bt_get (mb_topics st) t = Some ts"
  shows "bus_inv tk (pub @ messages_node (snd (publish_to_topic tk st t v key cid ik ts)))
           (fst (publish_to_topic tk st t v key cid ik ts))"
proof -
  obtain now st1 where now: "timestamp_or_zero st = (now, st1)" by fastforce
  have same: "same_bus st st1" using now timestamp_frame [of st] by simp
  define m where "m = \<lparr>me_topic = t, me_seq = ts_next_seq ts, me_payload = v, me_key = key,
      me_timestamp_ms = now, me_command_id = cid, me_idempotency_key = ik\<rparr>"
  define ts' where "ts' = ts\<lparr>ts_next_seq := ts_next_seq ts + 1, ts_messages := ts_messages ts @ [m]\<rparr>"
  have "topic_inv st1 (on_topic t pub @ [m]) ts'"
    unfolding ts'_def
    by (rule append_topic_inv [OF bus_inv_topicD [OF inv some] now]) (simp_all add: m_def)
  then have "bus_inv tk (pub @ [m]) (st1\<lparr>mb_topics := bt_insert t ts' (mb_topics st1)\<rparr>)"
    using same_bus_inv [OF inv same] some same
    by (intro bus_inv_topic) (simp_all add: m_def same_bus_def ts'_def)
  then have "bus_inv tk (pub @ [m])
      (st1\<lparr>mb_topics := bt_insert t ts' (mb_topics st1), mb_seen_idempotency_keys := iks\<rparr>)" for iks
    by simp
  then have "bus_inv tk (pub @ [m])
      (st1\<lparr>mb_seen_idempotency_keys := iks, mb_topics := bt_insert t ts' (mb_topics st1)\<rparr>)" for iks
    by (metis (no_types, lifting) message_bus_state.surjective message_bus_state.update_convs(6,9))
  then show ?thesis
    using now unfolding publish_to_topic_message
    by (auto simp: publish_to_topic_def Let_def split_beta m_def ts'_def
        intro!: trim_retention_inv status_events_inv)
qed

lemma publish_message_inv:
  assumes inv: "bus_inv tk pub st"
  shows "bus_inv tk (pub @ messages_node (snd (publish_message tk st t v key cid ik)))
           (fst (publish_message tk st t v key cid ik))"
proof -
  define absent where "absent = (bt_get (mb_topics st) t = None)"
  define st1 where "st1 = (if absent then fst (ensure_topic st t cid) else st)"
  have silent: "messages_node (snd (ensure_topic st t cid)) = []"
    by (simp add: ensure_topic_def bus_frame)
  have "bus_inv tk pub st1" using inv by (simp add: st1_def ensure_topic_inv)
  then have step: "bt_get (mb_topics st1) t = Some ts \<Longrightarrow>
      bus_inv tk (pub @ messages_node (snd (publish_to_topic tk st1 t v key cid ik ts)))
        (fst (publish_to_topic tk st1 t v key cid ik ts))" for ts
    by (rule publish_to_topic_inv)
  show ?thesis
    using inv step \<open>bus_inv tk pub st1\<close> silent
    by (auto simp: publish_message_def Let_def split_beta bus_frame absent_def [symmetric] st1_def
        split: option.splits)
qed

lemma bus_inv_subD:
  assumes "bus_inv tk pub st" "bt_get (mb_subscriptions st) k = Some s"
  shows "k = subscription_key tk (sub_topic s) (sub_subscription_id s)"
    and "sub_inv (bt_get (mb_topics st) (sub_topic s)) s"
  using assms by (simp_all add: bus_inv_def subs_inv_def)

text \<open>The tuple encoding keeps distinct tuples apart (documented JSON array encoding).\<close>

definition tuple_key_inj :: "tuple_key \<Rightarrow> bool" where
  "tuple_key_inj tk \<longleftrightarrow> (\<forall>a b. tk a = tk b \<longrightarrow> a = b)"

lemma subscription_key_inj:
  "tuple_key_inj tk \<Longrightarrow> subscription_key tk t i = subscription_key tk t' i' \<longleftrightarrow> t = t' \<and> i = i'"
  by (auto simp: tuple_key_inj_def subscription_key_def)

lemma ack_next_seq: "seq < (b :: u64) \<Longrightarrow> seq < seq + 1"
proof -
  assume "seq < b"
  then have "unat seq + 1 < 2 ^ 64"
    using unsigned_less [of b, where ?'a = nat] by (simp add: word_less_nat_alt)
  then have "unat (seq + 1) = unat seq + 1" by (simp add: unat_word_ariths)
  then show ?thesis by (simp add: word_less_nat_alt)
qed

lemma ack_subscription_inv:
  assumes inj: "tuple_key_inj tk" and inv: "bus_inv tk pub st"
  shows "bus_inv tk pub (fst (ack_subscription tk st t sid seq cid))"
proof -
  { fix ts s
    assume t: "bt_get (mb_topics st) t = Some ts"
      and s: "bt_get (mb_subscriptions st) (subscription_key tk t sid) = Some s"
      and accepted: "sub_next_seq s \<le> seq" "seq < ts_next_seq ts"
    have ids: "sub_topic s = t" "sub_subscription_id s = sid"
      using bus_inv_subD(1) [OF inv s] inj by (simp_all add: subscription_key_inj)
    have "sub_inv (Some ts) s" using bus_inv_subD(2) [OF inv s] ids t by simp
    then have "sub_inv (Some ts) (s\<lparr>sub_next_seq := seq + 1\<rparr>)"
      using accepted ack_next_seq [OF accepted(2)] by (auto simp: sub_inv_def)
    then have "bus_inv tk pub (st\<lparr>mb_subscriptions :=
        bt_insert (subscription_key tk t sid) (s\<lparr>sub_next_seq := seq + 1\<rparr>) (mb_subscriptions st)\<rparr>)"
      using inv t ids by (intro bus_inv_sub) simp_all }
  with inv show ?thesis
    by (auto simp: ack_subscription_def Let_def not_less split: option.splits intro!: issue_events_inv status_events_inv)
qed

lemma seek_subscription_inv:
  assumes inj: "tuple_key_inj tk" and inv: "bus_inv tk pub st"
  shows "bus_inv tk pub (fst (seek_subscription tk st t sid n cid))"
proof -
  { fix ts s
    assume t: "bt_get (mb_topics st) t = Some ts"
      and s: "bt_get (mb_subscriptions st) (subscription_key tk t sid) = Some s"
      and n: "ts_head_seq ts \<le> n"
    have ids: "sub_topic s = t" "sub_subscription_id s = sid"
      using bus_inv_subD(1) [OF inv s] inj by (simp_all add: subscription_key_inj)
    have "bus_inv tk pub (st\<lparr>mb_subscriptions := bt_insert (subscription_key tk t sid)
        (s\<lparr>sub_next_seq := n, sub_retention_gap := False\<rparr>) (mb_subscriptions st)\<rparr>)"
      using inv t ids n by (intro bus_inv_sub) (simp_all add: sub_inv_def) }
  with inv show ?thesis
    by (auto simp: seek_subscription_def Let_def not_less split: option.splits intro!: issue_events_inv status_events_inv)
qed

lemma close_subscription_inv:
  assumes inv: "bus_inv tk pub st"
  shows "bus_inv tk pub (fst (close_subscription tk st t sid cid))"
proof -
  { fix s
    assume s: "bt_get (mb_subscriptions st) (subscription_key tk t sid) = Some s"
    have "bus_inv tk pub (st\<lparr>mb_subscriptions := bt_insert (subscription_key tk t sid)
        (s\<lparr>sub_closed := True\<rparr>) (mb_subscriptions st)\<rparr>)"
      using inv bus_inv_subD(1) [OF inv s]
      by (intro bus_inv_sub) (simp_all add: sub_inv_def split: option.splits) }
  with inv show ?thesis
    by (auto simp: close_subscription_def Let_def split: option.splits intro!: issue_events_inv status_events_inv)
qed

lemma reduce_silent:
  "messages_node (snd (ensure_topic st t cid)) = []"
  "messages_node (snd (close_topic st t cid)) = []"
  "messages_node (snd (ack_subscription tk st t sid seq cid)) = []"
  "messages_node (snd (seek_subscription tk st t sid seq cid)) = []"
  "messages_node (snd (close_subscription tk st t sid cid)) = []"
  by (auto simp: ensure_topic_def close_topic_def ack_subscription_def seek_subscription_def
      close_subscription_def Let_def bus_frame split: option.splits)

lemma apply_bus_command_inv:
  assumes "tuple_key_inj tk" "bus_inv tk pub st"
  shows "bus_inv tk (pub @ messages_node (snd (apply_bus_command tk st c))) (fst (apply_bus_command tk st c))"
  using assms
  by (cases c) (simp_all add: reduce_silent ensure_topic_inv close_topic_inv publish_message_inv
      ack_subscription_inv seek_subscription_inv close_subscription_inv)

lemma reduce_message_bus_command_inv:
  assumes inj: "tuple_key_inj tk" and inv: "bus_inv tk pub st"
  shows "bus_inv tk (pub @ messages_node (snd (reduce_message_bus_command tk st c)))
           (fst (reduce_message_bus_command tk st c))"
proof -
  have dup: "bus_inv tk pub (fst (duplicate_command_events st' c msg))"
    if "bus_inv tk pub st'" for st' msg
    using that by (rule same_bus_inv) (rule duplicate_command_events_frame)
  have seen: "bus_inv tk pub (case bus_command_id c of None \<Rightarrow> st
      | Some cid \<Rightarrow> st\<lparr>mb_seen_command_ids := insert cid (mb_seen_command_ids st)\<rparr>)"
    using inv by (simp split: option.splits)
  show ?thesis
    using inv dup seen apply_bus_command_inv [OF inj seen]
    by (auto simp: reduce_message_bus_command_def Let_def bus_frame reject_command_def
        split: option.splits if_splits)
qed

lemma dead_letter_issue_frame [bus_frame]: "same_bus st (dead_letter_issue st t i)"
  by (simp add: dead_letter_issue_def timestamp_or_zero_def same_bus_def)

text \<open>A new subscription is added to a state that is otherwise the same.\<close>

lemma ensure_subscription_new:
  assumes "bt_get (mb_subscriptions st) (subscription_key tk (so_topic opts) (so_subscription_id opts)) = None"
  obtains st' s where
    "fst (ensure_subscription tk st opts) = st'\<lparr>mb_subscriptions :=
       bt_insert (subscription_key tk (so_topic opts) (so_subscription_id opts)) s (mb_subscriptions st')\<rparr>"
    "same_bus st st'" "sub_topic s = so_topic opts" "sub_subscription_id s = so_subscription_id opts"
    "sub_inv (bt_get (mb_topics st) (so_topic opts)) s"
    "fst (snd (ensure_subscription tk st opts)) = s"
proof -
  define issue where "issue = snd (snd (snd (ensure_subscription tk st opts)))"
  define s where "s = fst (snd (ensure_subscription tk st opts))"
  define st' where "st' = (case issue of None \<Rightarrow> st | Some i \<Rightarrow> dead_letter_issue st (so_topic opts) i)"
  have "fst (ensure_subscription tk st opts) = st'\<lparr>mb_subscriptions :=
      bt_insert (subscription_key tk (so_topic opts) (so_subscription_id opts)) s (mb_subscriptions st')\<rparr>"
    using assms by (simp add: ensure_subscription_def Let_def st'_def issue_def s_def)
  moreover have "same_bus st st'" by (simp add: st'_def bus_frame split: option.splits)
  moreover have "sub_topic s = so_topic opts" "sub_subscription_id s = so_subscription_id opts"
    using assms by (simp_all add: s_def ensure_subscription_def Let_def)
  moreover have "sub_inv (bt_get (mb_topics st) (so_topic opts)) s"
    using assms
    by (cases "bt_get (mb_topics st) (so_topic opts)")
      (auto simp: s_def ensure_subscription_def Let_def sub_inv_def not_less)
  ultimately show ?thesis using that s_def by blast
qed

lemma ensure_subscription_inv:
  assumes inv: "bus_inv tk pub st"
  shows "bus_inv tk pub (fst (ensure_subscription tk st opts))"
proof (cases "bt_get (mb_subscriptions st) (subscription_key tk (so_topic opts) (so_subscription_id opts))")
  case None
  then obtain st' s where new: "fst (ensure_subscription tk st opts) = st'\<lparr>mb_subscriptions :=
       bt_insert (subscription_key tk (so_topic opts) (so_subscription_id opts)) s (mb_subscriptions st')\<rparr>"
    "same_bus st st'" "sub_topic s = so_topic opts" "sub_subscription_id s = so_subscription_id opts"
    "sub_inv (bt_get (mb_topics st) (so_topic opts)) s"
    by (rule ensure_subscription_new)
  have "mb_topics st' = mb_topics st" using new(2) by (simp add: same_bus_def)
  then show ?thesis
    unfolding new(1) using same_bus_inv [OF inv new(2)] new(3-5) by (intro bus_inv_sub) simp_all
qed (use inv in \<open>simp add: ensure_subscription_def\<close>)

lemma open_subscription_inv:
  assumes "bus_inv tk pub st" "open_subscription tk st opts = Some (st', sub, evs)"
  shows "bus_inv tk pub st'"
  using assms ensure_subscription_inv [of tk pub st opts]
  by (auto simp: open_subscription_def Let_def split_beta split: if_splits)

section \<open>Reachable buses\<close>

text \<open>
  The histories of a bus: it is created, reduces commands and opens subscriptions in any
  order; \<open>pub\<close> collects every message the runtime node has emitted.
\<close>

inductive bus_reach :: "tuple_key \<Rightarrow> 't message_envelope list \<Rightarrow> 't message_bus_state \<Rightarrow> bool"
  for tk where
  bus_init: "message_bus_new now opts = Some st \<Longrightarrow> bus_reach tk [] st"
| bus_command: "bus_reach tk pub st \<Longrightarrow> reduce_message_bus_command tk st c = (st', evs) \<Longrightarrow>
    bus_reach tk (pub @ messages_node evs) st'"
| bus_subscribe: "bus_reach tk pub st \<Longrightarrow> open_subscription tk st opts = Some (st', sub, evs) \<Longrightarrow>
    bus_reach tk pub st'"

lemma new_topics_inv:
  assumes "bus_inv tk [] st"
  shows "bus_inv tk [] (st\<lparr>mb_topics := fold (\<lambda>t m. bt_insert t make_topic_state m) ts (mb_topics st)\<rparr>)"
  using assms
proof (induction ts arbitrary: st)
  case (Cons t ts)
  have head: "ts_head_seq (make_topic_state :: 'a topic_state) = 1" by (simp add: make_topic_state_def)
  have new: "topic_inv st (on_topic t []) (make_topic_state :: 'a topic_state)"
    by (simp add: make_topic_state_inv)
  have "bus_inv tk [] (st\<lparr>mb_topics := bt_insert t make_topic_state (mb_topics st),
      mb_subscriptions := mb_subscriptions st\<rparr>)"
    using Cons.prems
    by (intro bus_inv_update [OF Cons.prems new])
      (auto simp: bus_inv_def subs_inv_def sub_inv_def head)
  from Cons.IH [OF this] show ?case by simp
qed simp

lemma message_bus_new_inv:
  assumes "message_bus_new now opts = Some st"
  shows "bus_inv tk [] st"
proof -
  define st0 where "st0 = st\<lparr>mb_topics := []\<rparr>"
  obtain ts where st: "st = st0\<lparr>mb_topics := fold (\<lambda>t m. bt_insert t make_topic_state m) ts (mb_topics st0)\<rparr>"
    using assms by (auto simp: message_bus_new_def st0_def bind_eq_Some_conv)
  have "bus_inv tk [] st0"
    using assms by (auto simp: bus_inv_def topics_inv_def subs_inv_def message_bus_new_def st0_def
        bind_eq_Some_conv)
  from new_topics_inv [OF this] st show ?thesis by metis
qed

lemma bus_reach_inv:
  assumes "bus_reach tk pub st" "tuple_key_inj tk"
  shows "bus_inv tk pub st"
  using assms
proof (induction rule: bus_reach.induct)
  case (bus_command pub st c st' evs)
  then show ?case using reduce_message_bus_command_inv [of tk pub st c] by simp
qed (auto intro: message_bus_new_inv open_subscription_inv)

section \<open>Properties\<close>

lemma window_from:
  assumes p: "numbered p" "k \<le> length p" "length p < 2 ^ 64 - 1"
    and n: "of_nat (Suc k) \<le> (n :: u64) \<or> of_nat (Suc k) = (1 :: u64)"
  shows "filter (\<lambda>m. n \<le> me_seq m) (drop k p) = filter (\<lambda>m. n \<le> me_seq m) p"
proof (cases "k = 0")
  case False
  have small: "unat (of_nat (Suc i) :: u64) = Suc i" if "i \<le> length p" for i
    using that p(3) by (intro unat_of_nat_small) simp
  have k: "Suc k \<le> unat n"
  proof -
    have "of_nat (Suc k) \<noteq> (1 :: u64)"
      using small [OF p(2)] False by (metis Suc_inject One_nat_def unat_1)
    with n have "of_nat (Suc k) \<le> n" by blast
    then show ?thesis using small [OF p(2)] by (simp only: word_le_nat_alt)
  qed
  have "\<not> n \<le> me_seq m" if "m \<in> set (take k p)" for m
  proof -
    from that obtain i where i: "i < k" "i < length p" "m = p ! i"
      by (auto simp: in_set_conv_nth)
    then have "me_seq m = of_nat (Suc i)" using p(1) by (simp add: numbered_nth)
    with small [of i] i k show ?thesis by (simp only: word_le_nat_alt)
  qed
  then have "filter (\<lambda>m. n \<le> me_seq m) (take k p) = []" by (simp add: filter_empty_conv)
  then show ?thesis by (metis append_Nil append_take_drop_id filter_append)
qed simp

text \<open>
  C6. No message is lost silently. In every history of a bus whose retention cannot drop
  from the middle (no zero count bound; no age bound, or a clock that never fails and never goes
  back), an open subscription that carries no retention-gap flag is offered, in order and from
  its cursor on, exactly the messages ever published on its topic (fewer than \<open>2 ^ 64 - 1\<close> in all).
\<close>

theorem no_silent_loss:
  assumes reach: "bus_reach tk pub st" and inj: "tuple_key_inj tk" and "lossless st"
    and few: "length pub < 2 ^ 64 - 1" and n: "0 < n"
    and s: "bt_get (mb_subscriptions st) (subscription_key tk t sid) = Some s"
    and live: "\<not> sub_closed s" "\<not> sub_retention_gap s"
  shows "\<exists>page. bus_available_page tk st s \<lparr>tq_limit = Some n, tq_after_seq = None\<rparr> = Some page \<and>
    ap_messages page = take n (filter (\<lambda>m. sub_next_seq s \<le> me_seq m) (on_topic t pub))"
proof -
  have inv: "bus_inv tk pub st" using reach inj by (rule bus_reach_inv)
  have ids: "sub_topic s = t" "sub_subscription_id s = sid"
    using bus_inv_subD(1) [OF inv s] inj by (simp_all add: subscription_key_inj)
  have "messages_from (sub_next_seq s) (bt_get (mb_topics st) t) =
      filter (\<lambda>m. sub_next_seq s \<le> me_seq m) (on_topic t pub)"
  proof (cases "bt_get (mb_topics st) t")
    case None
    with inv show ?thesis by (simp add: messages_from_def bus_inv_def topics_inv_def)
  next
    case (Some ts)
    have "topic_inv st (on_topic t pub) ts" using inv Some by (rule bus_inv_topicD)
    with \<open>lossless st\<close> obtain k where k: "numbered (on_topic t pub)" "k \<le> length (on_topic t pub)"
        "ts_messages ts = drop k (on_topic t pub)" "ts_head_seq ts = of_nat (Suc k)"
      by (auto simp: topic_inv_def window_def)
    have "length (on_topic t pub) < 2 ^ 64 - 1"
      using few length_filter_le [of "\<lambda>m. me_topic m = t" pub] unfolding on_topic_def by linarith
    moreover have "of_nat (Suc k) \<le> sub_next_seq s \<or> of_nat (Suc k) = (1 :: u64)"
      using bus_inv_subD(2) [OF inv s] ids Some live k(4) by (auto simp: sub_inv_def)
    ultimately show ?thesis
      using window_from [OF k(1,2)] Some k(3) by (simp add: messages_from_def)
  qed
  with s live n ids show ?thesis
    by (simp add: bus_available_page_def live_subscription_def bus_positive_limit_def Let_def)
qed

text \<open>A small bus for the witnesses: one topic, one subscription, one retained message.\<close>

definition demo_bus0 :: "nat message_bus_state" where
  "demo_bus0 = the (message_bus_new (\<lambda>i. Some (of_nat i))
     \<lparr>bo_topics = [''a''], bo_topic_policy = Strict,
      bo_retention = \<lparr>max_messages = Some 1, max_age_ms = None\<rparr>, bo_dedupe = DedupeStatus\<rparr>)"

definition demo_bus1 :: "nat message_bus_state" where
  "demo_bus1 = fst (the (open_subscription esc_tuple demo_bus0
     \<lparr>so_topic = ''a'', so_subscription_id = ''s'', so_from = Earliest\<rparr>))"

definition demo_publish :: "nat \<Rightarrow> nat message_bus_command" where
  "demo_publish v = Publish ''a'' v None (Some ''c'') (Some ''k'')"

definition demo_bus2 :: "nat message_bus_state" where
  "demo_bus2 = fst (reduce_message_bus_command esc_tuple demo_bus1 (demo_publish 7))"

definition demo_pub :: "nat message_envelope list" where
  "demo_pub = messages_node (snd (reduce_message_bus_command esc_tuple demo_bus1 (demo_publish 7)))"

lemmas demo_bus_defs = message_bus_new_def unique_topics_def validate_topic_key_def
  open_subscription_def ensure_subscription_def subscription_key_def status_events_def status_fact_def
  no_fields_def timestamp_or_zero_def make_topic_state_def reduce_message_bus_command_def
  duplicate_publish_def publish_message_def publish_to_topic_def trim_retention_def
  retain_by_age_def retain_by_count_def idempotency_key_for_def Let_def

lemma demo_bus0_eq: "demo_bus0 =
  \<lparr>mb_now = \<lambda>i. Some (of_nat i), mb_ticks = 0, mb_topic_policy = Strict,
   mb_retention = \<lparr>max_messages = Some 1, max_age_ms = None\<rparr>, mb_dedupe = DedupeStatus,
   mb_topics = [(''a'', make_topic_state)], mb_subscriptions = [], mb_seen_command_ids = {},
   mb_seen_idempotency_keys = {}, mb_dead_letters = [], mb_dead_letter_seq = 0\<rparr>"
  by (simp add: demo_bus0_def demo_bus_defs)

lemma demo_bus1_eq: "demo_bus1 = demo_bus0\<lparr>mb_ticks := 1, mb_subscriptions :=
  [(''xa.xs.'', \<lparr>sub_topic = ''a'', sub_subscription_id = ''s'', sub_next_seq = 1, sub_closed = False,
     sub_retention_gap = False\<rparr>)]\<rparr>"
  by (simp add: demo_bus1_def demo_bus0_eq demo_bus_defs)

lemma demo_bus2_eq:
  "reduce_message_bus_command esc_tuple demo_bus1 (demo_publish 7) = (demo_bus2, snd (reduce_message_bus_command esc_tuple demo_bus1 (demo_publish 7)))"
  "demo_pub = [\<lparr>me_topic = ''a'', me_seq = 1, me_payload = 7, me_key = None, me_timestamp_ms = 1,
     me_command_id = Some ''c'', me_idempotency_key = Some ''k''\<rparr>]"
  "demo_bus2 = demo_bus1\<lparr>mb_ticks := 4, mb_seen_command_ids := {''c''},
     mb_seen_idempotency_keys := {''xa.xk.''},
     mb_topics := [(''a'', \<lparr>ts_closed = False, ts_head_seq = 1, ts_next_seq = 2, ts_messages = demo_pub\<rparr>)]\<rparr>"
  by (simp_all add: demo_bus2_def demo_pub_def demo_bus1_eq demo_bus0_eq demo_publish_def demo_bus_defs
      )

lemma demo_reach: "bus_reach esc_tuple demo_pub demo_bus2"
proof -
  have "bus_reach esc_tuple [] demo_bus0"
    by (rule bus_init [of "\<lambda>i. Some (of_nat i)" "\<lparr>bo_topics = [''a''], bo_topic_policy = Strict,
      bo_retention = \<lparr>max_messages = Some 1, max_age_ms = None\<rparr>, bo_dedupe = DedupeStatus\<rparr>"])
      (simp add: demo_bus0_eq demo_bus_defs)
  then have "bus_reach esc_tuple [] demo_bus1"
    by (rule bus_subscribe [of _ _ _ "\<lparr>so_topic = ''a'', so_subscription_id = ''s'', so_from = Earliest\<rparr>"])
      (simp add: demo_bus1_eq demo_bus0_eq demo_bus_defs)
  from bus_command [OF this demo_bus2_eq(1)] show ?thesis by (simp add: demo_pub_def)
qed

lemma esc_tuple_key_inj: "tuple_key_inj esc_tuple"
  by (simp add: tuple_key_inj_def esc_tuple_inj)

theorem no_silent_loss_witness:
  "\<exists>page. bus_available_page esc_tuple demo_bus2
      \<lparr>sub_topic = ''a'', sub_subscription_id = ''s'', sub_next_seq = 1, sub_closed = False,
       sub_retention_gap = False\<rparr> \<lparr>tq_limit = Some 5, tq_after_seq = None\<rparr> = Some page \<and>
    map me_payload (ap_messages page) = [7]"
proof -
  have "lossless demo_bus2" by (simp add: lossless_def demo_bus2_eq(3) demo_bus1_eq demo_bus0_eq)
  then have "\<exists>page. bus_available_page esc_tuple demo_bus2
      \<lparr>sub_topic = ''a'', sub_subscription_id = ''s'', sub_next_seq = 1, sub_closed = False,
       sub_retention_gap = False\<rparr> \<lparr>tq_limit = Some 5, tq_after_seq = None\<rparr> = Some page \<and>
      ap_messages page = take 5 (filter (\<lambda>m. 1 \<le> me_seq m) (on_topic ''a'' demo_pub))"
    using no_silent_loss [OF demo_reach esc_tuple_key_inj, of 5 "''a''" "''s''"
        "\<lparr>sub_topic = ''a'', sub_subscription_id = ''s'', sub_next_seq = 1, sub_closed = False,
          sub_retention_gap = False\<rparr>"]
    by (simp add: demo_bus2_eq(2,3) demo_bus1_eq subscription_key_def)
  then show ?thesis by (auto simp: demo_bus2_eq(2))
qed

subsection \<open>Deduplication\<close>

definition pub_command_ids :: "'t message_envelope list \<Rightarrow> string list" where
  "pub_command_ids pub = List.map_filter me_command_id pub"

definition pub_idempotency_keys :: "'t message_envelope list \<Rightarrow> (string \<times> string) list" where
  "pub_idempotency_keys pub = List.map_filter (\<lambda>m. map_option (Pair (me_topic m)) (me_idempotency_key m)) pub"

text \<open>Every id and key of a published message is remembered, and none was published twice.\<close>

definition dedupe_inv :: "tuple_key \<Rightarrow> 't message_envelope list \<Rightarrow> 't message_bus_state \<Rightarrow> bool" where
  "dedupe_inv tk pub st \<longleftrightarrow>
     distinct (pub_command_ids pub) \<and> set (pub_command_ids pub) \<subseteq> mb_seen_command_ids st \<and>
     distinct (pub_idempotency_keys pub) \<and>
     (\<lambda>(t, k). idempotency_key_for tk t k) ` set (pub_idempotency_keys pub) \<subseteq> mb_seen_idempotency_keys st"

lemma seen_status [bus_frame]:
  "mb_seen_command_ids (fst (status_events st k fs)) = mb_seen_command_ids st"
  "mb_seen_idempotency_keys (fst (status_events st k fs)) = mb_seen_idempotency_keys st"
  using status_events_frame(1) [of st k fs] by (simp_all add: same_bus_def)

lemma seen_issue [bus_frame]:
  "mb_seen_command_ids (fst (issue_events st c m code msg)) = mb_seen_command_ids st"
  "mb_seen_idempotency_keys (fst (issue_events st c m code msg)) = mb_seen_idempotency_keys st"
  using issue_events_frame(1) [of st c m code msg] by (simp_all add: same_bus_def)

lemma seen_duplicate [bus_frame]:
  "mb_seen_command_ids (fst (duplicate_command_events st c msg)) = mb_seen_command_ids st"
  "mb_seen_idempotency_keys (fst (duplicate_command_events st c msg)) = mb_seen_idempotency_keys st"
  using duplicate_command_events_frame(1) [of st c msg] by (simp_all add: same_bus_def)

lemma seen_timestamp [bus_frame]:
  "mb_seen_command_ids (snd (timestamp_or_zero st)) = mb_seen_command_ids st"
  "mb_seen_idempotency_keys (snd (timestamp_or_zero st)) = mb_seen_idempotency_keys st"
  by (simp_all add: timestamp_or_zero_def)

lemma seen_trim [bus_frame]:
  "mb_seen_command_ids (fst (trim_retention st t)) = mb_seen_command_ids st"
  "mb_seen_idempotency_keys (fst (trim_retention st t)) = mb_seen_idempotency_keys st"
proof -
  obtain now st1 where now: "timestamp_or_zero st = (now, st1)" by fastforce
  have st1: "mb_seen_command_ids st1 = mb_seen_command_ids st"
    "mb_seen_idempotency_keys st1 = mb_seen_idempotency_keys st"
    using now seen_timestamp [of st] by simp_all
  have "bt_get (mb_topics st1) t = bt_get (mb_topics st) t"
    using now by (auto simp: timestamp_or_zero_def)
  then have "mb_seen_command_ids (fst (trim_retention st t)) = mb_seen_command_ids st1 \<and>
      mb_seen_idempotency_keys (fst (trim_retention st t)) = mb_seen_idempotency_keys st1"
    using trim_retention_state [OF _ now, of t] now
    by (cases "bt_get (mb_topics st) t") (simp_all add: trim_retention_def same_bus_def)
  with st1 show "mb_seen_command_ids (fst (trim_retention st t)) = mb_seen_command_ids st"
    "mb_seen_idempotency_keys (fst (trim_retention st t)) = mb_seen_idempotency_keys st"
    by simp_all
qed

lemma seen_topics [bus_frame]:
  "mb_seen_command_ids (fst (ensure_topic st t cid)) = mb_seen_command_ids st"
  "mb_seen_idempotency_keys (fst (ensure_topic st t cid)) = mb_seen_idempotency_keys st"
  by (simp_all add: ensure_topic_def bus_frame)

text \<open>What \<open>publish_message\<close> publishes and remembers.\<close>

lemma publish_message_effect:
  defines "r \<equiv> \<lambda>tk st t v key cid ik. publish_message tk st t v key cid ik"
  shows "mb_seen_command_ids (fst (r tk st t v key cid ik)) = mb_seen_command_ids st"
    and "messages_node (snd (r tk st t v key cid ik)) = [] \<and>
           mb_seen_idempotency_keys (fst (r tk st t v key cid ik)) = mb_seen_idempotency_keys st \<or>
         (\<exists>m. messages_node (snd (r tk st t v key cid ik)) = [m] \<and>
           me_topic m = t \<and> me_command_id m = cid \<and> me_idempotency_key m = ik \<and>
           mb_seen_idempotency_keys (fst (r tk st t v key cid ik)) =
             mb_seen_idempotency_keys st \<union> (idempotency_key_for tk t ` set_option ik))"
  unfolding r_def
  by (auto simp: publish_message_def publish_to_topic_def Let_def split_beta bus_frame reduce_silent
      split: option.splits)

lemma seen_other_ops [bus_frame]:
  "mb_seen_command_ids (fst (close_topic st t cid)) = mb_seen_command_ids st"
  "mb_seen_idempotency_keys (fst (close_topic st t cid)) = mb_seen_idempotency_keys st"
  "mb_seen_command_ids (fst (ack_subscription tk st t sid seq cid)) = mb_seen_command_ids st"
  "mb_seen_idempotency_keys (fst (ack_subscription tk st t sid seq cid)) = mb_seen_idempotency_keys st"
  "mb_seen_command_ids (fst (seek_subscription tk st t sid seq cid)) = mb_seen_command_ids st"
  "mb_seen_idempotency_keys (fst (seek_subscription tk st t sid seq cid)) = mb_seen_idempotency_keys st"
  "mb_seen_command_ids (fst (close_subscription tk st t sid cid)) = mb_seen_command_ids st"
  "mb_seen_idempotency_keys (fst (close_subscription tk st t sid cid)) = mb_seen_idempotency_keys st"
  by (simp_all add: close_topic_def ack_subscription_def seek_subscription_def close_subscription_def
      Let_def bus_frame split: option.splits)

lemma apply_bus_command_seen: "mb_seen_command_ids (fst (apply_bus_command tk st c)) = mb_seen_command_ids st"
  by (cases c) (simp_all add: bus_frame publish_message_effect)

lemma apply_bus_command_effect:
  "messages_node (snd (apply_bus_command tk st c)) = [] \<and>
     mb_seen_idempotency_keys (fst (apply_bus_command tk st c)) = mb_seen_idempotency_keys st \<or>
   (\<exists>m t v key cid ik. c = Publish t v key cid ik \<and> messages_node (snd (apply_bus_command tk st c)) = [m] \<and>
     me_topic m = t \<and> me_command_id m = cid \<and> me_idempotency_key m = ik \<and>
     mb_seen_idempotency_keys (fst (apply_bus_command tk st c)) =
       mb_seen_idempotency_keys st \<union> (idempotency_key_for tk t ` set_option ik))"
proof (cases c)
  case (Publish t v key cid ik)
  then show ?thesis
    using publish_message_effect(2) [of tk st t v key cid ik] by auto
qed (simp_all add: reduce_silent bus_frame)

lemma dedupe_same:
  "dedupe_inv tk pub st \<Longrightarrow> mb_seen_command_ids st \<subseteq> mb_seen_command_ids st' \<Longrightarrow>
     mb_seen_idempotency_keys st \<subseteq> mb_seen_idempotency_keys st' \<Longrightarrow> dedupe_inv tk pub st'"
  by (auto simp: dedupe_inv_def)

lemma pub_ids_snoc:
  "pub_command_ids (pub @ [m]) = pub_command_ids pub @ (case me_command_id m of None \<Rightarrow> [] | Some c \<Rightarrow> [c])"
  "pub_idempotency_keys (pub @ [m]) = pub_idempotency_keys pub @
     (case me_idempotency_key m of None \<Rightarrow> [] | Some k \<Rightarrow> [(me_topic m, k)])"
  by (auto simp: pub_command_ids_def pub_idempotency_keys_def map_filter_def split: option.splits)

lemma dedupe_publish:
  assumes "dedupe_inv tk pub st"
    and "\<And>c. me_command_id m = Some c \<Longrightarrow> c \<notin> mb_seen_command_ids st \<and> c \<in> mb_seen_command_ids st'"
    and "\<And>k. me_idempotency_key m = Some k \<Longrightarrow>
      idempotency_key_for tk (me_topic m) k \<notin> mb_seen_idempotency_keys st \<and>
      idempotency_key_for tk (me_topic m) k \<in> mb_seen_idempotency_keys st'"
    and "mb_seen_command_ids st \<subseteq> mb_seen_command_ids st'"
    and "mb_seen_idempotency_keys st \<subseteq> mb_seen_idempotency_keys st'"
  shows "dedupe_inv tk (pub @ [m]) st'"
proof -
  have "distinct (pub_command_ids (pub @ [m])) \<and> set (pub_command_ids (pub @ [m])) \<subseteq> mb_seen_command_ids st'"
    using assms(1,2,4) by (auto simp: dedupe_inv_def pub_ids_snoc split: option.splits)
  moreover have "distinct (pub_idempotency_keys (pub @ [m])) \<and>
      (\<lambda>(t, k). idempotency_key_for tk t k) ` set (pub_idempotency_keys (pub @ [m])) \<subseteq> mb_seen_idempotency_keys st'"
    using assms(1,3,5) by (force simp: dedupe_inv_def pub_ids_snoc split: option.splits)
  ultimately show ?thesis by (simp add: dedupe_inv_def)
qed

lemma reduce_dedupe:
  assumes inv: "dedupe_inv tk pub st"
  shows "dedupe_inv tk (pub @ messages_node (snd (reduce_message_bus_command tk st c)))
           (fst (reduce_message_bus_command tk st c))"
proof -
  define st1 where "st1 = (case bus_command_id c of None \<Rightarrow> st
      | Some cid \<Rightarrow> st\<lparr>mb_seen_command_ids := insert cid (mb_seen_command_ids st)\<rparr>)"
  have seen1: "mb_seen_command_ids st1 = mb_seen_command_ids st \<union> set_option (bus_command_id c)"
    "mb_seen_idempotency_keys st1 = mb_seen_idempotency_keys st"
    by (auto simp: st1_def split: option.splits)
  consider (quiet) "messages_node (snd (reduce_message_bus_command tk st c)) = []"
      "mb_seen_command_ids st \<subseteq> mb_seen_command_ids (fst (reduce_message_bus_command tk st c))"
      "mb_seen_idempotency_keys (fst (reduce_message_bus_command tk st c)) = mb_seen_idempotency_keys st"
    | (applied) "reduce_message_bus_command tk st c = apply_bus_command tk st1 c"
      "\<not> duplicate_publish tk st1 c" "\<And>cid. bus_command_id c = Some cid \<Longrightarrow> cid \<notin> mb_seen_command_ids st"
    unfolding reduce_message_bus_command_def reject_command_def st1_def [symmetric]
    using seen1 by (fastforce simp: Let_def bus_frame split: option.splits if_splits)
  then show ?thesis
  proof cases
    case quiet
    with dedupe_same [OF inv] show ?thesis by simp
  next
    case applied
    have ids: "mb_seen_command_ids (fst (apply_bus_command tk st1 c)) = mb_seen_command_ids st1"
      by (rule apply_bus_command_seen)
    from apply_bus_command_effect [of tk st1 c] show ?thesis
    proof (elim disjE exE conjE)
      assume "messages_node (snd (apply_bus_command tk st1 c)) = []"
        "mb_seen_idempotency_keys (fst (apply_bus_command tk st1 c)) = mb_seen_idempotency_keys st1"
      with ids seen1 applied(1) dedupe_same [OF inv] show ?thesis by auto
    next
      fix m t v key cid ik
      assume c: "c = Publish t v key cid ik" "messages_node (snd (apply_bus_command tk st1 c)) = [m]"
        "me_topic m = t" "me_command_id m = cid" "me_idempotency_key m = ik"
        "mb_seen_idempotency_keys (fst (apply_bus_command tk st1 c)) =
           mb_seen_idempotency_keys st1 \<union> (idempotency_key_for tk t ` set_option ik)"
      have "dedupe_inv tk (pub @ [m]) (fst (apply_bus_command tk st1 c))"
        using applied(2,3) ids seen1 c
        by (intro dedupe_publish [OF inv]) (auto simp: duplicate_publish_def)
      with applied(1) c(2) show ?thesis by simp
    qed
  qed
qed

lemma open_subscription_seen:
  assumes "open_subscription tk st opts = Some (st', sub, evs)"
  shows "mb_seen_command_ids st' = mb_seen_command_ids st"
    and "mb_seen_idempotency_keys st' = mb_seen_idempotency_keys st"
proof -
  let ?e = "fst (ensure_subscription tk st opts)"
  have "mb_seen_command_ids ?e = mb_seen_command_ids st \<and>
      mb_seen_idempotency_keys ?e = mb_seen_idempotency_keys st"
  proof (cases "bt_get (mb_subscriptions st) (subscription_key tk (so_topic opts) (so_subscription_id opts))")
    case None
    then show ?thesis by (rule ensure_subscription_new) (simp add: same_bus_def)
  qed (simp add: ensure_subscription_def)
  with assms show "mb_seen_command_ids st' = mb_seen_command_ids st"
    "mb_seen_idempotency_keys st' = mb_seen_idempotency_keys st"
    by (auto simp: open_subscription_def Let_def split_beta bus_frame split: if_splits)
qed

text \<open>
  C9. Publishing is at most once per identity: over the whole history of a bus, whatever the
  clock and the retention, no two published messages carry the same command id, and no two
  messages of one topic carry the same idempotency key.
\<close>

theorem published_at_most_once:
  assumes "bus_reach tk pub st"
  shows "distinct (pub_command_ids pub) \<and> distinct (pub_idempotency_keys pub)"
proof -
  from assms have "dedupe_inv tk pub st"
  proof (induction rule: bus_reach.induct)
    case (bus_init now opts st)
    then show ?case by (simp add: dedupe_inv_def pub_command_ids_def pub_idempotency_keys_def map_filter_def)
  next
    case (bus_command pub st c st' evs)
    then show ?case using reduce_dedupe [of tk pub st c] by simp
  next
    case (bus_subscribe pub st opts st' sub evs)
    then show ?case using open_subscription_seen dedupe_same by (metis order_refl)
  qed
  then show ?thesis by (simp add: dedupe_inv_def)
qed

theorem published_at_most_once_witness: "pub_idempotency_keys demo_pub = [(''a'', ''k'')] \<and>
  distinct (pub_idempotency_keys demo_pub)"
  using published_at_most_once [OF demo_reach] by (simp add: demo_bus2_eq(2) pub_idempotency_keys_def map_filter_def)

subsection \<open>Paging\<close>

text \<open>The catalog and topic projections as paged views of the bus state.\<close>

definition catalog_view :: "'t message_bus_state \<times> bool \<Rightarrow> message_bus_catalog_entry list" where
  "catalog_view s = (case s of (st, inc) \<Rightarrow>
     map (\<lambda>(topic, v). \<lparr>ce_topic = topic, ce_closed = ts_closed v, ce_head_seq = ts_head_seq v,
            ce_next_seq = ts_next_seq v, ce_message_count = length (ts_messages v)\<rparr>)
       (filter (\<lambda>(topic, v). inc \<or> \<not> ts_closed v) (mb_topics st)))"

definition read_catalog ::
  "'t message_bus_state \<times> bool \<Rightarrow> nat \<Rightarrow> string option \<Rightarrow> (message_bus_catalog_entry list \<times> string option) option"
  where
  "read_catalog s n c =
     map_option (\<lambda>p. (cp_topics p, cp_next_after_topic p))
       (catalog_page (fst s) \<lparr>cq_limit = Some n, cq_after_topic = c, cq_include_closed = snd s\<rparr>)"

interpretation catalog: paged_view "\<lambda>s. bt_ok (mb_topics (fst s))" catalog_view ce_topic
  "\<lambda>n. 0 < n" read_catalog
proof
  fix s :: "'a message_bus_state \<times> bool"
  assume "bt_ok (mb_topics (fst s))"
  then have "sorted_wrt (\<lambda>a b. fst a < fst b) (mb_topics (fst s))"
    by (simp add: bt_ok_def sorted_wrt_map)
  then show "sorted_wrt (\<lambda>a b. ce_topic a < ce_topic b) (catalog_view s)"
    by (simp add: catalog_view_def split_beta sorted_wrt_map sorted_wrt_filter)
next
  fix s :: "'a message_bus_state \<times> bool" and n :: nat and c :: "string option"
  assume n: "0 < n"
  obtain st inc where s: "s = (st, inc)" by fastforce
  let ?e = "\<lambda>(topic, v). \<lparr>ce_topic = topic, ce_closed = ts_closed v, ce_head_seq = ts_head_seq v,
      ce_next_seq = ts_next_seq v, ce_message_count = length (ts_messages v)\<rparr>"
  let ?ts = "filter (\<lambda>(topic, v). (inc \<or> \<not> ts_closed v) \<and>
      (case c of None \<Rightarrow> True | Some a \<Rightarrow> topic > a)) (mb_topics st)"
  have view: "filter (after_cursor ce_topic c) (catalog_view s) = map ?e ?ts"
    by (cases c) (simp_all add: s catalog_view_def filter_map comp_def case_prod_beta' after_cursor_def)
  show "read_catalog s n c = Some (cut_page ce_topic n (filter (after_cursor ce_topic c) (catalog_view s)))"
    using n unfolding view
    by (simp add: read_catalog_def catalog_page_def bus_positive_limit_def s Let_def cut_page_def
        last_opt_def take_map comp_def)
qed simp

definition topic_view_ok :: "'t message_bus_state \<times> string \<Rightarrow> bool" where
  "topic_view_ok s = (case s of (st, t) \<Rightarrow>
     (case bt_get (mb_topics st) t of
        None \<Rightarrow> True
      | Some ts \<Rightarrow> sorted_wrt (\<lambda>a b. me_seq a < me_seq b) (ts_messages ts) \<and>
          (\<forall>m \<in> set (ts_messages ts). ts_head_seq ts \<le> me_seq m \<and> me_seq m < - 1)))"

definition topic_view :: "'t message_bus_state \<times> string \<Rightarrow> 't message_envelope list" where
  "topic_view s = (case bt_get (mb_topics (fst s)) (snd s) of None \<Rightarrow> [] | Some ts \<Rightarrow> ts_messages ts)"

definition read_topic ::
  "'t message_bus_state \<times> string \<Rightarrow> nat \<Rightarrow> u64 option \<Rightarrow> ('t message_envelope list \<times> u64 option) option" where
  "read_topic s n c =
     map_option (\<lambda>p. (tp_messages p, tp_next_after_seq p))
       (topic_page (fst s) (snd s) \<lparr>tq_limit = Some n, tq_after_seq = c\<rparr>)"

lemma succ_le_iff: "(a :: u64) < - 1 \<Longrightarrow> a + 1 \<le> b \<longleftrightarrow> a < b"
proof -
  assume "a < - 1"
  then have "unat a + 1 < 2 ^ 64"
    using unsigned_less [of "- 1 :: u64", where ?'a = nat] by (simp add: word_less_nat_alt)
  then have "unat (a + 1) = unat a + 1" by (simp add: unat_word_ariths)
  then show ?thesis by (simp add: word_less_nat_alt word_le_nat_alt Suc_le_eq)
qed

interpretation topic: paged_view topic_view_ok topic_view me_seq
  "\<lambda>n. 0 < n" read_topic
proof
  fix s :: "'a message_bus_state \<times> string"
  assume "topic_view_ok s"
  then show "sorted_wrt (\<lambda>a b. me_seq a < me_seq b) (topic_view s)"
    by (simp add: topic_view_ok_def topic_view_def split_beta split: option.splits)
next
  fix s :: "'a message_bus_state \<times> string" and n :: nat and c :: "u64 option"
  assume ok: "topic_view_ok s" and n: "0 < n" and c: "c = None \<or> c \<in> Some ` me_seq ` set (topic_view s)"
  have "messages_from (case c of None \<Rightarrow> (case bt_get (mb_topics (fst s)) (snd s) of None \<Rightarrow> 1 | Some t \<Rightarrow> ts_head_seq t)
        | Some seq \<Rightarrow> seq + 1) (bt_get (mb_topics (fst s)) (snd s))
      = filter (after_cursor me_seq c) (topic_view s)"
    using ok c
    by (auto simp: messages_from_def topic_view_def topic_view_ok_def after_cursor_def split_beta
        succ_le_iff intro!: filter_cong split: option.splits)
  then show "read_topic s n c = Some (cut_page me_seq n (filter (after_cursor me_seq c) (topic_view s)))"
    using n by (simp add: read_topic_def topic_page_def bus_positive_limit_def Let_def cut_page_def
        last_opt_def)
qed simp

text \<open>
  C36. A topic can be read completely page by page: in every history of a bus with lossless
  retention, following the \<open>next_after_seq\<close> cursors of \<open>topic_page\<close> from the start, with
  any page size, terminates and yields every retained message of the topic exactly once and in
  order.
\<close>

theorem topic_pages_complete:
  assumes reach: "bus_reach tk pub st" and inj: "tuple_key_inj tk" and "lossless st"
    and few: "length pub < 2 ^ 64 - 2" and n: "0 < n"
    and t: "bt_get (mb_topics st) t = Some ts"
  shows "read_pages (Suc (length (ts_messages ts)))
      (\<lambda>c. map_option (\<lambda>p. (tp_messages p, tp_next_after_seq p))
              (topic_page st t \<lparr>tq_limit = Some n, tq_after_seq = c\<rparr>)) None
    = Some (ts_messages ts)"
proof -
  have "topic_inv st (on_topic t pub) ts"
    using bus_reach_inv [OF reach inj] t by (rule bus_inv_topicD)
  with \<open>lossless st\<close> obtain k where k: "numbered (on_topic t pub)" "ts_messages ts = drop k (on_topic t pub)"
      "ts_head_seq ts = of_nat (Suc k)"
    by (auto simp: topic_inv_def window_def)
  have len: "length (on_topic t pub) < 2 ^ 64 - 2"
    using few length_filter_le [of "\<lambda>m. me_topic m = t" pub] unfolding on_topic_def by linarith
  have small: "unat (of_nat (Suc i) :: u64) = Suc i" if "i \<le> length (on_topic t pub)" for i
    using that len by (intro unat_of_nat_small) simp
  have seq: "unat (me_seq (ts_messages ts ! i)) = Suc (k + i)" if "i < length (ts_messages ts)" for i
    using that k(1,2) small [of "k + i"] by (simp add: numbered_nth del: of_nat_Suc)
  have max: "unat (- 1 :: u64) = 2 ^ 64 - 1" by (simp add: unat_word_max)
  have "sorted_wrt (\<lambda>a b. me_seq a < me_seq b) (ts_messages ts)"
    by (simp add: sorted_wrt_iff_nth_less word_less_nat_alt seq)
  moreover have "ts_head_seq ts \<le> me_seq m \<and> me_seq m < - 1" if m: "m \<in> set (ts_messages ts)" for m
  proof -
    from m obtain i where i: "i < length (ts_messages ts)" "m = ts_messages ts ! i"
      by (auto simp: in_set_conv_nth)
    then have "k + i < length (on_topic t pub)" using k(2) by simp
    then have "unat (ts_head_seq ts) = Suc k" using k(3) small [of k] by (simp del: of_nat_Suc)
    moreover have "unat (me_seq m) = Suc (k + i)" using seq [OF i(1)] i(2) by simp
    ultimately show ?thesis
      using \<open>k + i < _\<close> len max unfolding word_le_nat_alt word_less_nat_alt by auto
  qed
  ultimately have "topic_view_ok (st, t)" using t by (simp add: topic_view_ok_def)
  moreover have "read_topic (st, t) n = (\<lambda>c. map_option (\<lambda>p. (tp_messages p, tp_next_after_seq p))
      (topic_page st t \<lparr>tq_limit = Some n, tq_after_seq = c\<rparr>))"
    by (simp add: fun_eq_iff read_topic_def)
  ultimately show ?thesis
    using topic.read_all [of "(st, t)" n "Suc (length (ts_messages ts))", OF _ n] t
    by (simp add: topic_view_def del: read_pages.simps)
qed

theorem topic_pages_complete_witness:
  "read_pages (Suc (length demo_pub))
      (\<lambda>c. map_option (\<lambda>p. (tp_messages p, tp_next_after_seq p))
              (topic_page demo_bus2 ''a'' \<lparr>tq_limit = Some 1, tq_after_seq = c\<rparr>)) None = Some demo_pub"
proof -
  have "lossless demo_bus2" by (simp add: lossless_def demo_bus2_eq(3) demo_bus1_eq demo_bus0_eq)
  then show ?thesis
    using topic_pages_complete [OF demo_reach esc_tuple_key_inj, of 1 "''a''"
        "\<lparr>ts_closed = False, ts_head_seq = 1, ts_next_seq = 2, ts_messages = demo_pub\<rparr>"]
    by (simp add: demo_bus2_eq(2,3) demo_bus1_eq)
qed

subsection \<open>Cursor movement\<close>

lemma subs_frame [bus_frame]:
  "mb_subscriptions (fst (status_events st k fs)) = mb_subscriptions st"
  "mb_subscriptions (fst (issue_events st c m code msg)) = mb_subscriptions st"
  "mb_subscriptions (fst (duplicate_command_events st c' msg)) = mb_subscriptions st"
  "mb_subscriptions (snd (timestamp_or_zero st)) = mb_subscriptions st"
  using status_events_frame(1) [of st k fs] issue_events_frame(1) [of st c m code msg]
    duplicate_command_events_frame(1) [of st c' msg] timestamp_frame [of st]
  by (simp_all add: same_bus_def)

text \<open>The same subscription, up to its gap flag.\<close>

definition same_cursor :: "subscription_state \<Rightarrow> subscription_state \<Rightarrow> bool" where
  "same_cursor s s' \<longleftrightarrow> s' = s\<lparr>sub_retention_gap := sub_retention_gap s'\<rparr> \<and>
     (sub_retention_gap s \<longrightarrow> sub_retention_gap s')"

lemma same_cursor_refl [simp]: "same_cursor s s"
  by (simp add: same_cursor_def)

lemma trim_retention_subs:
  assumes "bt_get (mb_subscriptions st) k = Some s"
  shows "\<exists>s'. bt_get (mb_subscriptions (fst (trim_retention st t))) k = Some s' \<and> same_cursor s s'"
proof -
  obtain now st1 where now: "timestamp_or_zero st = (now, st1)" by fastforce
  then have st1: "mb_subscriptions st1 = mb_subscriptions st" "mb_topics st1 = mb_topics st"
    by (auto simp: timestamp_or_zero_def)
  show ?thesis
  proof (cases "bt_get (mb_topics st) t")
    case None
    with assms now st1 show ?thesis by (simp add: trim_retention_def)
  next
    case (Some ts)
    from trim_retention_state [OF this now] assms st1 show ?thesis
      by (auto simp: same_bus_def trimmed_subs_def flag_gaps_get same_cursor_def)
  qed
qed

lemma publish_message_subs:
  assumes "bt_get (mb_subscriptions st) k = Some s"
  shows "\<exists>s'. bt_get (mb_subscriptions (fst (publish_message tk st t v key cid ik))) k = Some s' \<and> same_cursor s s'"
proof -
  have ensure: "mb_subscriptions (fst (ensure_topic st t cid)) = mb_subscriptions st"
    by (simp add: ensure_topic_def bus_frame)
  have "\<exists>s'. bt_get (mb_subscriptions (fst (publish_to_topic tk st1 t v key cid ik ts))) k = Some s' \<and> same_cursor s s'"
    if "mb_subscriptions st1 = mb_subscriptions st" for st1 ts
    using that assms
    by (auto simp: publish_to_topic_def Let_def split_beta bus_frame intro!: trim_retention_subs)
  with assms ensure show ?thesis
    by (auto simp: publish_message_def Let_def split_beta bus_frame split: option.splits)
qed

text \<open>
  How a command may move the cursor of the subscription: an accepted ack, forward to the
  successor of the acked message; or a seek into the retained range.
\<close>

definition cursor_move ::
  "'t message_bus_state \<Rightarrow> 't message_bus_command \<Rightarrow> subscription_state \<Rightarrow> subscription_state \<Rightarrow> bool" where
  "cursor_move st c s s' \<longleftrightarrow>
     (case c of
        Ack t sid seq _ \<Rightarrow> t = sub_topic s \<and> sid = sub_subscription_id s \<and>
          sub_next_seq s \<le> seq \<and> sub_next_seq s < sub_next_seq s' \<and> sub_next_seq s' = seq + 1
      | Seek t sid n _ \<Rightarrow> t = sub_topic s \<and> sid = sub_subscription_id s \<and> sub_next_seq s' = n \<and>
          (\<exists>ts. bt_get (mb_topics st) t = Some ts \<and> ts_head_seq ts \<le> n \<and> n \<le> ts_next_seq ts)
      | _ \<Rightarrow> False)"

definition sub_step ::
  "'t message_bus_state \<Rightarrow> 't message_bus_command \<Rightarrow> subscription_state \<Rightarrow> subscription_state \<Rightarrow> bool" where
  "sub_step st c s s' \<longleftrightarrow>
     sub_topic s' = sub_topic s \<and> sub_subscription_id s' = sub_subscription_id s \<and>
     (sub_closed s \<longrightarrow> sub_closed s' \<and> sub_next_seq s' = sub_next_seq s) \<and>
     (sub_next_seq s' = sub_next_seq s \<or> cursor_move st c s s') \<and>
     (sub_retention_gap s \<and> \<not> sub_retention_gap s' \<longrightarrow>
        (\<exists>n cid. c = Seek (sub_topic s) (sub_subscription_id s) n cid))"

lemma same_cursor_step: "same_cursor s s' \<Longrightarrow> sub_step st c s s'"
  unfolding same_cursor_def sub_step_def by (cases s; cases s') auto

lemma ack_subscription_subs:
  assumes inj: "tuple_key_inj tk" and inv: "bus_inv tk pub st" and s: "bt_get (mb_subscriptions st) k = Some s"
  shows "\<exists>s'. bt_get (mb_subscriptions (fst (ack_subscription tk st t sid seq cid))) k = Some s' \<and>
    sub_step st (Ack t sid seq cid) s s'"
proof -
  have refl: "sub_step st (Ack t sid seq cid) s s" by (simp add: sub_step_def)
  have "sub_step st (Ack t sid seq cid) s (s\<lparr>sub_next_seq := seq + 1\<rparr>)"
    if "k = subscription_key tk t sid" "\<not> sub_closed s" "sub_next_seq s \<le> seq" "seq < ts_next_seq ts" for ts :: "'a topic_state"
    using that bus_inv_subD(1) [OF inv s] inj ack_next_seq [OF that(4)]
    by (auto simp: sub_step_def cursor_move_def subscription_key_inj)
  with s refl show ?thesis
    by (auto simp: ack_subscription_def Let_def bus_frame btree not_less not_le split: option.splits)
qed

lemma seek_subscription_subs:
  assumes inj: "tuple_key_inj tk" and inv: "bus_inv tk pub st" and s: "bt_get (mb_subscriptions st) k = Some s"
  shows "\<exists>s'. bt_get (mb_subscriptions (fst (seek_subscription tk st t sid n cid))) k = Some s' \<and>
    sub_step st (Seek t sid n cid) s s'"
proof -
  have refl: "sub_step st (Seek t sid n cid) s s" by (simp add: sub_step_def)
  have "sub_step st (Seek t sid n cid) s (s\<lparr>sub_next_seq := n, sub_retention_gap := False\<rparr>)"
    if "k = subscription_key tk t sid" "\<not> sub_closed s" "bt_get (mb_topics st) t = Some ts"
      "ts_head_seq ts \<le> n" "n \<le> ts_next_seq ts" for ts
    using that bus_inv_subD(1) [OF inv s] inj
    by (auto simp: sub_step_def cursor_move_def subscription_key_inj)
  with s refl show ?thesis
    by (auto simp: seek_subscription_def Let_def bus_frame btree not_less split: option.splits)
qed

lemma apply_bus_command_subs:
  assumes inj: "tuple_key_inj tk" and inv: "bus_inv tk pub st" and s: "bt_get (mb_subscriptions st) k = Some s"
  shows "\<exists>s'. bt_get (mb_subscriptions (fst (apply_bus_command tk st c))) k = Some s' \<and> sub_step st c s s'"
proof (cases c)
  case (Publish t v key cid ik)
  with publish_message_subs [OF s, of tk t v key cid ik] show ?thesis
    by (auto intro: same_cursor_step)
next
  case (CloseSubscription t sid cid)
  with s show ?thesis
    by (auto simp: close_subscription_def Let_def bus_frame btree sub_step_def split: option.splits)
qed (use s ack_subscription_subs [OF inj inv s] seek_subscription_subs [OF inj inv s] in
  \<open>auto simp: ensure_topic_def close_topic_def bus_frame sub_step_def split: option.splits\<close>)

text \<open>
  C28. Cursors are safe under every command: a subscription is never dropped nor renamed, a
  closed one stays closed with its cursor frozen, and the cursor of an open one moves only by an
  accepted ack of that subscription, strictly forward to the successor of the acked message,
  or by a seek of that subscription to a position inside the retained range; and once a
  subscription is flagged with a retention gap, only a seek of it clears the flag.
\<close>

theorem cursor_moves_only_by_ack_or_seek:
  assumes reach: "bus_reach tk pub st" and inj: "tuple_key_inj tk"
    and s: "bt_get (mb_subscriptions st) k = Some s"
  shows "\<exists>s'. bt_get (mb_subscriptions (fst (reduce_message_bus_command tk st c))) k = Some s' \<and> sub_step st c s s'"
proof -
  define st1 where "st1 = (case bus_command_id c of None \<Rightarrow> st
      | Some cid \<Rightarrow> st\<lparr>mb_seen_command_ids := insert cid (mb_seen_command_ids st)\<rparr>)"
  have st1: "mb_subscriptions st1 = mb_subscriptions st" "mb_topics st1 = mb_topics st"
    by (simp_all add: st1_def split: option.splits)
  have "bus_inv tk pub st1"
    using bus_reach_inv [OF reach inj] by (simp add: st1_def split: option.splits)
  from apply_bus_command_subs [OF inj this, of k s c] s st1
  obtain s' where s': "bt_get (mb_subscriptions (fst (apply_bus_command tk st1 c))) k = Some s'" "sub_step st1 c s s'"
    by auto
  then have "sub_step st c s s'"
    using st1 by (auto simp: sub_step_def cursor_move_def split: message_bus_command.splits)
  moreover have "sub_step st c s s" by (simp add: sub_step_def)
  ultimately show ?thesis
    using s s'(1) st1 unfolding reduce_message_bus_command_def reject_command_def st1_def [symmetric]
    by (auto simp: Let_def bus_frame split: option.splits)
qed

theorem cursor_moves_only_by_ack_or_seek_witness:
  "\<exists>s'. bt_get (mb_subscriptions (fst (reduce_message_bus_command esc_tuple demo_bus2 (Ack ''a'' ''s'' 1 None)))) ''xa.xs.''
      = Some s' \<and> sub_next_seq s' = 2 \<and>
    sub_step demo_bus2 (Ack ''a'' ''s'' 1 None) \<lparr>sub_topic = ''a'', sub_subscription_id = ''s'', sub_next_seq = 1,
      sub_closed = False, sub_retention_gap = False\<rparr> s'"
proof -
  let ?s = "\<lparr>sub_topic = ''a'', sub_subscription_id = ''s'', sub_next_seq = 1, sub_closed = False,
      sub_retention_gap = False\<rparr>"
  have "bt_get (mb_subscriptions demo_bus2) ''xa.xs.'' = Some ?s"
    by (simp add: demo_bus2_eq(3) demo_bus1_eq)
  from cursor_moves_only_by_ack_or_seek [OF demo_reach esc_tuple_key_inj this, of "Ack ''a'' ''s'' 1 None"]
  obtain s' where s': "bt_get (mb_subscriptions (fst (reduce_message_bus_command esc_tuple demo_bus2
      (Ack ''a'' ''s'' 1 None)))) ''xa.xs.'' = Some s'" "sub_step demo_bus2 (Ack ''a'' ''s'' 1 None) ?s s'"
    by blast
  moreover have "sub_next_seq s' = 2"
    using s'(1)
    by (simp add: demo_bus2_eq(3) demo_bus1_eq demo_bus0_eq demo_bus_defs ack_subscription_def
        word_le_nat_alt word_less_nat_alt) auto
  ultimately show ?thesis by blast
qed

text \<open>A bus whose clock goes back between two publications.\<close>

definition backward_clock :: clock where
  "backward_clock i = Some (if i < 4 then 100 else if i < 6 then 10 else 150)"

definition aged_bus0 :: "nat message_bus_state" where
  "aged_bus0 = the (message_bus_new backward_clock
     \<lparr>bo_topics = [''a''], bo_topic_policy = Strict,
      bo_retention = \<lparr>max_messages = None, max_age_ms = Some 100\<rparr>, bo_dedupe = DedupeStatus\<rparr>)"

definition aged_bus1 :: "nat message_bus_state" where
  "aged_bus1 = fst (the (open_subscription esc_tuple aged_bus0
     \<lparr>so_topic = ''a'', so_subscription_id = ''s'', so_from = Earliest\<rparr>))"

definition aged_run :: "nat message_bus_state \<times> nat runtime_event list" where
  "aged_run = bus_runtime_body esc_tuple aged_bus1
     [Publish ''a'' 7 None None None, Publish ''a'' 8 None None None, Publish ''a'' 9 None None None]"

lemma bus_reach_runtime:
  "bus_reach tk pub st \<Longrightarrow> bus_reach tk (pub @ messages_node (snd (bus_runtime_body tk st cs))) (fst (bus_runtime_body tk st cs))"
proof (induction cs arbitrary: pub st)
  case (Cons c cs)
  from bus_command [OF Cons.prems] have "bus_reach tk (pub @ messages_node (snd (reduce_message_bus_command tk st c)))
      (fst (reduce_message_bus_command tk st c))" by simp
  from Cons.IH [OF this] show ?case by (simp add: split_beta)
qed simp

lemma aged_bus0_eq: "aged_bus0 =
  \<lparr>mb_now = backward_clock, mb_ticks = 0, mb_topic_policy = Strict,
   mb_retention = \<lparr>max_messages = None, max_age_ms = Some 100\<rparr>, mb_dedupe = DedupeStatus,
   mb_topics = [(''a'', make_topic_state)], mb_subscriptions = [], mb_seen_command_ids = {},
   mb_seen_idempotency_keys = {}, mb_dead_letters = [], mb_dead_letter_seq = 0\<rparr>"
  by (simp add: aged_bus0_def demo_bus_defs)

lemma aged_bus1_eq: "aged_bus1 = aged_bus0\<lparr>mb_ticks := 1, mb_subscriptions :=
  [(''xa.xs.'', \<lparr>sub_topic = ''a'', sub_subscription_id = ''s'', sub_next_seq = 1, sub_closed = False,
     sub_retention_gap = False\<rparr>)]\<rparr>"
  by (simp add: aged_bus1_def aged_bus0_eq demo_bus_defs backward_clock_def)

lemma aged_reach: "bus_reach esc_tuple (messages_node (snd aged_run)) (fst aged_run)"
proof -
  have "bus_reach esc_tuple [] aged_bus0"
    by (rule bus_init [of backward_clock "\<lparr>bo_topics = [''a''], bo_topic_policy = Strict,
      bo_retention = \<lparr>max_messages = None, max_age_ms = Some 100\<rparr>, bo_dedupe = DedupeStatus\<rparr>"])
      (simp add: aged_bus0_eq demo_bus_defs)
  then have "bus_reach esc_tuple [] aged_bus1"
    by (rule bus_subscribe [of _ _ _ "\<lparr>so_topic = ''a'', so_subscription_id = ''s'', so_from = Earliest\<rparr>"])
      (simp add: aged_bus1_eq aged_bus0_eq demo_bus_defs backward_clock_def)
  from bus_reach_runtime [OF this] show ?thesis
    unfolding aged_run_def by (simp del: bus_runtime_body.simps)
qed

text \<open>
  The clock condition is needed: with an age bound and a clock that goes back once, a
  reachable bus drops a message from the middle of a topic. The subscription is open, carries no
  gap flag, and is not offered message 2, which was published on its topic.
\<close>

theorem clock_regression_loses_message:
  "bus_reach esc_tuple (messages_node (snd aged_run)) (fst aged_run) \<and>
   map me_payload (on_topic ''a'' (messages_node (snd aged_run))) = [7, 8, 9] \<and>
   bt_get (mb_subscriptions (fst aged_run)) (subscription_key esc_tuple ''a'' ''s'') =
     Some \<lparr>sub_topic = ''a'', sub_subscription_id = ''s'', sub_next_seq = 1, sub_closed = False,
           sub_retention_gap = False\<rparr> \<and>
   map_option (map me_payload \<circ> ap_messages) (bus_available_page esc_tuple (fst aged_run)
     \<lparr>sub_topic = ''a'', sub_subscription_id = ''s'', sub_next_seq = 1, sub_closed = False,
      sub_retention_gap = False\<rparr> \<lparr>tq_limit = None, tq_after_seq = None\<rparr>) = Some [7, 9]"
  by (intro conjI aged_reach)
    (simp_all add: aged_run_def aged_bus1_eq aged_bus0_eq demo_bus_defs backward_clock_def
      saturating_sub_def on_topic_def bus_available_page_def live_subscription_def messages_from_def
      bus_positive_limit_def word_le_nat_alt word_less_nat_alt)

end
