(* ===== verification/WorkQueue.thy ===== *)
theory WorkQueue
  imports Messaging Resilience
begin

text \<open>
  The work queue of \<open>work_queue.rs\<close>: admission of bus messages, claims under leases,
  renewal, release, completion, failure with retry and dead letters, cancellation, scheduling
  and lease expiry, as the reducers of its runtime node, with the record log they append and the
  read projections. \<open>usize\<close> is \<open>nat\<close>; timestamps, sequence numbers and attempts keep
  their width (sequence counters wrap, as in a release build). A panic is \<open>None\<close>. The
  iteration order of a \<open>HashSet\<close> is unspecified: it is the parameter \<open>hi\<close>, and
  \<open>tk\<close> is the tuple encoding as in the message bus.
\<close>

subsection \<open>Commands\<close>

type_synonym i64 = "64 word"

record 't work_queue_submit =
  su_payload :: 't
  su_work_id :: "string option"
  su_priority :: "i64 option"
  su_tags :: "string list"
  su_requirements :: "string list"
  su_not_before_ms :: "u64 option"
  su_deadline_ms :: "u64 option"

text \<open>
  The fields of a constructor are in the order of the source: payload (submissions), command id,
  queue id, idempotency key, then the fields of the variant, then \<open>now_ms\<close>.
\<close>

datatype (plugins only: code size) 't work_queue_command =
    CmdSubmit 't string "string option" "string option"
  | CmdClaim string "string option" "string option" string "string list" "nat option" "u64 option" "u64 option"
  | CmdRenewLease string "string option" "string option" string string u32 string "u64 option" "u64 option" "u64 option"
  | CmdRelease string "string option" "string option" string string u32 string "string option" "u64 option"
  | CmdComplete string "string option" "string option" string string u32 string "string option" "u64 option"
  | CmdFail string "string option" "string option" string string u32 string "string option" "bool option" "u64 option"
  | CmdCancel string "string option" "string option" string "string option" "u64 option"
  | CmdSchedule string "string option" "string option" string "string option" u64 "u64 option" "string option" "u64 option"
  | CmdExpireLeases string "string option" "string option" "string list" "nat option" "u64 option"

fun command_id :: "'t work_queue_command \<Rightarrow> string" where
  "command_id (CmdSubmit _ c _ _) = c"
| "command_id (CmdClaim c _ _ _ _ _ _ _) = c"
| "command_id (CmdRenewLease c _ _ _ _ _ _ _ _ _) = c"
| "command_id (CmdRelease c _ _ _ _ _ _ _ _) = c"
| "command_id (CmdComplete c _ _ _ _ _ _ _ _) = c"
| "command_id (CmdFail c _ _ _ _ _ _ _ _ _) = c"
| "command_id (CmdCancel c _ _ _ _ _) = c"
| "command_id (CmdSchedule c _ _ _ _ _ _ _ _) = c"
| "command_id (CmdExpireLeases c _ _ _ _ _) = c"

fun command_queue_id :: "'t work_queue_command \<Rightarrow> string option" where
  "command_queue_id (CmdSubmit _ _ q _) = q"
| "command_queue_id (CmdClaim _ q _ _ _ _ _ _) = q"
| "command_queue_id (CmdRenewLease _ q _ _ _ _ _ _ _ _) = q"
| "command_queue_id (CmdRelease _ q _ _ _ _ _ _ _) = q"
| "command_queue_id (CmdComplete _ q _ _ _ _ _ _ _) = q"
| "command_queue_id (CmdFail _ q _ _ _ _ _ _ _ _) = q"
| "command_queue_id (CmdCancel _ q _ _ _ _) = q"
| "command_queue_id (CmdSchedule _ q _ _ _ _ _ _ _) = q"
| "command_queue_id (CmdExpireLeases _ q _ _ _ _) = q"

fun command_idempotency_key :: "'t work_queue_command \<Rightarrow> string option" where
  "command_idempotency_key (CmdSubmit _ _ _ k) = k"
| "command_idempotency_key (CmdClaim _ _ k _ _ _ _ _) = k"
| "command_idempotency_key (CmdRenewLease _ _ k _ _ _ _ _ _ _) = k"
| "command_idempotency_key (CmdRelease _ _ k _ _ _ _ _ _) = k"
| "command_idempotency_key (CmdComplete _ _ k _ _ _ _ _ _) = k"
| "command_idempotency_key (CmdFail _ _ k _ _ _ _ _ _ _) = k"
| "command_idempotency_key (CmdCancel _ _ k _ _ _) = k"
| "command_idempotency_key (CmdSchedule _ _ k _ _ _ _ _ _) = k"
| "command_idempotency_key (CmdExpireLeases _ _ k _ _ _) = k"

fun command_now_ms :: "'t work_queue_command \<Rightarrow> u64 option" where
  "command_now_ms (CmdSubmit _ _ _ _) = None"
| "command_now_ms (CmdClaim _ _ _ _ _ _ _ n) = n"
| "command_now_ms (CmdRenewLease _ _ _ _ _ _ _ _ _ n) = n"
| "command_now_ms (CmdRelease _ _ _ _ _ _ _ _ n) = n"
| "command_now_ms (CmdComplete _ _ _ _ _ _ _ _ n) = n"
| "command_now_ms (CmdFail _ _ _ _ _ _ _ _ _ n) = n"
| "command_now_ms (CmdCancel _ _ _ _ _ n) = n"
| "command_now_ms (CmdSchedule _ _ _ _ _ _ _ _ n) = n"
| "command_now_ms (CmdExpireLeases _ _ _ _ _ n) = n"

subsection \<open>Records, status and state\<close>

record work_queue_message_bus_ref =
  mr_topic :: string
  mr_seq :: u64
  mr_subscription_id :: string

datatype derived_state = Scheduled | Ready | Leased | RetryWait | Completed | Canceled | DeadLettered

text \<open>Fields in the order of the source; the first is \<open>record_seq\<close>, then queue id and work id.\<close>

datatype (plugins only: code size) 't work_queue_record =
    WorkAdmitted u64 string string 't work_queue_message_bus_ref "i64 option" "string list" "string list"
      "u64 option" "u64 option" u64
  | AdmissionDeduped u64 string string work_queue_message_bus_ref string string u64
  | WorkScheduled u64 string string string "string option" u64 "u64 option" "string option" u64
  | WorkClaimed u64 string string string string u32 string u64 u64
  | LeaseRenewed u64 string string string string u32 string u64 u64 u64
  | WorkReleased u64 string string string string u32 string u64 "string option"
  | LeaseExpired u64 string string "string option" string u32 string u64 u64
  | AttemptCompleted u64 string string string string u32 string "string option" u64
  | WorkCompleted u64 string string string string u32 string "string option" u64
  | AttemptFailed u64 string string string string u32 string "string option" "bool option" u64
  | RetryScheduled u64 string string string u64 u64 "string option" u64
  | WorkDeadLettered u64 string string string string "u32 option" u64
  | WorkCanceled u64 string string string "string option" u64 "string option" "u32 option"

fun record_seq :: "'t work_queue_record \<Rightarrow> u64" where
  "record_seq (WorkAdmitted n _ _ _ _ _ _ _ _ _ _) = n"
| "record_seq (AdmissionDeduped n _ _ _ _ _ _) = n"
| "record_seq (WorkScheduled n _ _ _ _ _ _ _ _) = n"
| "record_seq (WorkClaimed n _ _ _ _ _ _ _ _) = n"
| "record_seq (LeaseRenewed n _ _ _ _ _ _ _ _ _) = n"
| "record_seq (WorkReleased n _ _ _ _ _ _ _ _) = n"
| "record_seq (LeaseExpired n _ _ _ _ _ _ _ _) = n"
| "record_seq (AttemptCompleted n _ _ _ _ _ _ _ _) = n"
| "record_seq (WorkCompleted n _ _ _ _ _ _ _ _) = n"
| "record_seq (AttemptFailed n _ _ _ _ _ _ _ _ _) = n"
| "record_seq (RetryScheduled n _ _ _ _ _ _ _) = n"
| "record_seq (WorkDeadLettered n _ _ _ _ _ _) = n"
| "record_seq (WorkCanceled n _ _ _ _ _ _ _) = n"

fun record_work_id :: "'t work_queue_record \<Rightarrow> string" where
  "record_work_id (WorkAdmitted _ _ w _ _ _ _ _ _ _ _) = w"
| "record_work_id (AdmissionDeduped _ _ w _ _ _ _) = w"
| "record_work_id (WorkScheduled _ _ w _ _ _ _ _ _) = w"
| "record_work_id (WorkClaimed _ _ w _ _ _ _ _ _) = w"
| "record_work_id (LeaseRenewed _ _ w _ _ _ _ _ _ _) = w"
| "record_work_id (WorkReleased _ _ w _ _ _ _ _ _) = w"
| "record_work_id (LeaseExpired _ _ w _ _ _ _ _ _) = w"
| "record_work_id (AttemptCompleted _ _ w _ _ _ _ _ _) = w"
| "record_work_id (WorkCompleted _ _ w _ _ _ _ _ _) = w"
| "record_work_id (AttemptFailed _ _ w _ _ _ _ _ _ _) = w"
| "record_work_id (RetryScheduled _ _ w _ _ _ _ _) = w"
| "record_work_id (WorkDeadLettered _ _ w _ _ _ _) = w"
| "record_work_id (WorkCanceled _ _ w _ _ _ _ _) = w"

fun record_queue_id :: "'t work_queue_record \<Rightarrow> string" where
  "record_queue_id (WorkAdmitted _ q _ _ _ _ _ _ _ _ _) = q"
| "record_queue_id (AdmissionDeduped _ q _ _ _ _ _) = q"
| "record_queue_id (WorkScheduled _ q _ _ _ _ _ _ _) = q"
| "record_queue_id (WorkClaimed _ q _ _ _ _ _ _ _) = q"
| "record_queue_id (LeaseRenewed _ q _ _ _ _ _ _ _ _) = q"
| "record_queue_id (WorkReleased _ q _ _ _ _ _ _ _) = q"
| "record_queue_id (LeaseExpired _ q _ _ _ _ _ _ _) = q"
| "record_queue_id (AttemptCompleted _ q _ _ _ _ _ _ _) = q"
| "record_queue_id (WorkCompleted _ q _ _ _ _ _ _ _) = q"
| "record_queue_id (AttemptFailed _ q _ _ _ _ _ _ _ _) = q"
| "record_queue_id (RetryScheduled _ q _ _ _ _ _ _) = q"
| "record_queue_id (WorkDeadLettered _ q _ _ _ _ _) = q"
| "record_queue_id (WorkCanceled _ q _ _ _ _ _ _) = q"

fun admission_message_bus :: "'t work_queue_record \<Rightarrow> work_queue_message_bus_ref option" where
  "admission_message_bus (WorkAdmitted _ _ _ _ m _ _ _ _ _ _) = Some m"
| "admission_message_bus (AdmissionDeduped _ _ _ m _ _ _) = Some m"
| "admission_message_bus _ = None"

fun with_record_seq :: "'t work_queue_record \<Rightarrow> u64 \<Rightarrow> 't work_queue_record" where
  "with_record_seq (WorkAdmitted _ q w p m pr tg rq nb dl at) n = WorkAdmitted n q w p m pr tg rq nb dl at"
| "with_record_seq (AdmissionDeduped _ q w m r e at) n = AdmissionDeduped n q w m r e at"
| "with_record_seq (WorkScheduled _ q w c s nb dl r at) n = WorkScheduled n q w c s nb dl r at"
| "with_record_seq (WorkClaimed _ q w c l a wk at ex) n = WorkClaimed n q w c l a wk at ex"
| "with_record_seq (LeaseRenewed _ q w c l a wk pv ex at) n = LeaseRenewed n q w c l a wk pv ex at"
| "with_record_seq (WorkReleased _ q w c l a wk at r) n = WorkReleased n q w c l a wk at r"
| "with_record_seq (LeaseExpired _ q w c l a wk ex at) n = LeaseExpired n q w c l a wk ex at"
| "with_record_seq (AttemptCompleted _ q w c l a wk r at) n = AttemptCompleted n q w c l a wk r at"
| "with_record_seq (WorkCompleted _ q w c l a wk r at) n = WorkCompleted n q w c l a wk r at"
| "with_record_seq (AttemptFailed _ q w c l a wk e rt at) n = AttemptFailed n q w c l a wk e rt at"
| "with_record_seq (RetryScheduled _ q w c ra d r at) n = RetryScheduled n q w c ra d r at"
| "with_record_seq (WorkDeadLettered _ q w c r ex at) n = WorkDeadLettered n q w c r ex at"
| "with_record_seq (WorkCanceled _ q w c r at l a) n = WorkCanceled n q w c r at l a"

datatype (plugins only: code size) work_queue_status_kind =
    CommandAccepted | CommandRejected | AdmissionAccepted | AdmissionRejected | ProjectionReady
  | ProjectionPartial | MaintenanceApplied | MaintenanceNoop | PolicyWarning

record status_fields =
  sf_work_id :: "string option"
  sf_command_id :: "string option"
  sf_record_seq :: "u64 option"
  sf_as_of_record_seq :: "u64 option"
  sf_issue_code :: "string option"
  sf_details :: "string option"

record work_queue_status =
  ws_kind :: work_queue_status_kind
  ws_queue_id :: string
  ws_work_id :: "string option"
  ws_command_id :: "string option"
  ws_record_seq :: "u64 option"
  ws_as_of_record_seq :: "u64 option"
  ws_issue_code :: "string option"
  ws_timestamp_ms :: u64
  ws_details :: "string option"

datatype 't queue_event =
    QRecord "'t work_queue_record"
  | QStatus work_queue_status
  | QIssue data_issue

record 't work_state =
  w_work_id :: string
  w_payload :: 't
  w_state :: derived_state
  w_admission_seq :: u64
  w_priority :: "i64 option"
  w_tags :: "string list"
  w_requirements :: "string list"
  w_not_before_ms :: "u64 option"
  w_retry_at_ms :: "u64 option"
  w_deadline_ms :: "u64 option"
  w_attempt :: u32
  w_lease_id :: "string option"
  w_worker_id :: "string option"
  w_lease_expires_at_ms :: "u64 option"

record 't runtime_state =
  q_record_seq :: u64
  q_lease_seq :: u64
  q_works :: "(string, 't work_state) btree"
  q_source_seqs :: "string set"
  q_command_ids :: "string set"
  q_idempotency_keys :: "string set"
  q_records :: "'t work_queue_record list"
  q_dead_letters :: "'t work_queue_record list"

definition runtime_state_default :: "'t runtime_state" where
  "runtime_state_default = \<lparr>q_record_seq = 0, q_lease_seq = 0, q_works = [], q_source_seqs = {},
     q_command_ids = {}, q_idempotency_keys = {}, q_records = [], q_dead_letters = []\<rparr>"

record runtime_options =
  ro_queue_id :: string
  ro_subscription_id :: string
  ro_lease_duration_ms :: u64
  ro_retry :: retry_policy

subsection \<open>Helpers\<close>

definition is_terminal :: "derived_state \<Rightarrow> bool" where
  "is_terminal s \<longleftrightarrow> s = Completed \<or> s = Canceled \<or> s = DeadLettered"

definition is_expired :: "'t work_state \<Rightarrow> u64 \<Rightarrow> bool" where
  "is_expired w now \<longleftrightarrow> w_state w = Leased \<and>
     (case w_lease_expires_at_ms w of None \<Rightarrow> False | Some e \<Rightarrow> e \<le> now)"

definition is_ready :: "'t work_state \<Rightarrow> u64 \<Rightarrow> bool" where
  "is_ready w now =
     (case w_state w of
        Scheduled \<Rightarrow> (case w_not_before_ms w of None \<Rightarrow> False | Some t \<Rightarrow> t \<le> now)
      | RetryWait \<Rightarrow> (case w_retry_at_ms w of None \<Rightarrow> False | Some t \<Rightarrow> t \<le> now)
      | Ready \<Rightarrow> True
      | _ \<Rightarrow> False)"

definition is_ready_for_projection :: "'t work_state \<Rightarrow> u64 option \<Rightarrow> bool" where
  "is_ready_for_projection w now =
     (if w_state w = Scheduled \<or> w_state w = RetryWait
      then (case now of None \<Rightarrow> False | Some t \<Rightarrow> is_ready w t)
      else w_state w = Ready)"

definition clear_lease :: "'t work_state \<Rightarrow> 't work_state" where
  "clear_lease w = w\<lparr>w_lease_id := None, w_worker_id := None, w_lease_expires_at_ms := None\<rparr>"

definition positive_limit :: "nat \<Rightarrow> nat option" where
  "positive_limit n = (if n > 0 then Some n else None)"

definition append_record ::
  "'t runtime_state \<Rightarrow> 't work_queue_record \<Rightarrow> 't runtime_state \<times> 't work_queue_record" where
  "append_record st r =
     (let n = q_record_seq st + 1; r = with_record_seq r n
      in (st\<lparr>q_record_seq := n, q_records := q_records st @ [r]\<rparr>, r))"

definition no_status :: status_fields where
  "no_status = \<lparr>sf_work_id = None, sf_command_id = None, sf_record_seq = None,
     sf_as_of_record_seq = None, sf_issue_code = None, sf_details = None\<rparr>"

definition status_event ::
  "runtime_options \<Rightarrow> work_queue_status_kind \<Rightarrow> u64 \<Rightarrow> status_fields \<Rightarrow> 't queue_event" where
  "status_event opts k ts fs =
     QStatus \<lparr>ws_kind = k, ws_queue_id = ro_queue_id opts, ws_work_id = sf_work_id fs,
       ws_command_id = sf_command_id fs, ws_record_seq = sf_record_seq fs,
       ws_as_of_record_seq = sf_as_of_record_seq fs, ws_issue_code = sf_issue_code fs,
       ws_timestamp_ms = ts, ws_details = sf_details fs\<rparr>"

definition reject_queue_command_by_id ::
  "runtime_options \<Rightarrow> string option \<Rightarrow> string \<Rightarrow> string \<Rightarrow> u64 \<Rightarrow> 't queue_event list" where
  "reject_queue_command_by_id opts cid code message now =
     [QIssue \<lparr>di_kind = ''issue'', di_code = code, di_message = message, di_severity = ''error'',
        di_source = ''workQueue'', di_topic = None,
        di_details = Some (''queueId='' @ ro_queue_id opts)\<rparr>,
      status_event opts CommandRejected now (no_status\<lparr>sf_command_id := cid, sf_issue_code := Some code\<rparr>)]"

definition reject_queue_command ::
  "runtime_options \<Rightarrow> 't work_queue_command \<Rightarrow> string \<Rightarrow> string \<Rightarrow> u64 \<Rightarrow> 't queue_event list" where
  "reject_queue_command opts c code message now =
     reject_queue_command_by_id opts (Some (command_id c)) code message now"

definition checked_timestamp ::
  "runtime_options \<Rightarrow> string option \<Rightarrow> u64 \<Rightarrow> u64 \<Rightarrow> string \<Rightarrow> 't queue_event list + u64" where
  "checked_timestamp opts cid now delta message =
     (case checked_add now delta of
        Some t \<Rightarrow> Inr t
      | None \<Rightarrow> Inl (reject_queue_command_by_id opts cid ''clock-overflow'' message now))"

definition accepted ::
  "runtime_options \<Rightarrow> 't work_queue_record \<Rightarrow> string option \<Rightarrow> string option \<Rightarrow> u64 \<Rightarrow> 't queue_event list" where
  "accepted opts r wid cid now =
     [QRecord r,
      status_event opts CommandAccepted now
        (no_status\<lparr>sf_work_id := wid, sf_command_id := cid, sf_record_seq := Some (record_seq r)\<rparr>)]"

definition validate_queue_command :: "string \<Rightarrow> 't work_queue_command \<Rightarrow> (string \<times> string) option" where
  "validate_queue_command qid c =
     (if command_id c = [] then Some (''malformed-command'', ''commandId must be non-empty'')
      else if (case command_queue_id c of None \<Rightarrow> False | Some q \<Rightarrow> q \<noteq> qid)
      then Some (''queue-mismatch'', ''command queueId does not match this queue'')
      else case c of
        CmdClaim _ _ _ worker wids limit dur _ \<Rightarrow>
          if worker = [] then Some (''malformed-command'', ''claim workerId is required'')
          else if limit = Some 0 \<or> dur = Some 0 \<or> [] \<in> set wids
          then Some (''malformed-command'', ''claim options are malformed'') else None
      | CmdRenewLease _ _ _ wid lid att worker dur _ _ \<Rightarrow>
          if wid = [] \<or> lid = [] \<or> worker = [] \<or> att = 0 \<or> dur = Some 0
          then Some (''malformed-command'', ''lease command is malformed'') else None
      | CmdRelease _ _ _ wid lid att worker _ _ \<Rightarrow>
          if wid = [] \<or> lid = [] \<or> worker = [] \<or> att = 0
          then Some (''malformed-command'', ''lease command is malformed'') else None
      | CmdComplete _ _ _ wid lid att worker _ _ \<Rightarrow>
          if wid = [] \<or> lid = [] \<or> worker = [] \<or> att = 0
          then Some (''malformed-command'', ''lease command is malformed'') else None
      | CmdFail _ _ _ wid lid att worker _ _ _ \<Rightarrow>
          if wid = [] \<or> lid = [] \<or> worker = [] \<or> att = 0
          then Some (''malformed-command'', ''lease command is malformed'') else None
      | CmdCancel _ _ _ wid _ _ \<Rightarrow>
          if wid = [] then Some (''malformed-command'', ''workId must be non-empty'') else None
      | CmdSchedule _ _ _ wid _ _ _ _ _ \<Rightarrow>
          if wid = [] then Some (''malformed-command'', ''workId must be non-empty'') else None
      | CmdExpireLeases _ _ _ wids limit _ \<Rightarrow>
          if limit = Some 0 \<or> [] \<in> set wids
          then Some (''malformed-command'', ''expire-leases options are malformed'') else None
      | CmdSubmit _ _ _ _ \<Rightarrow> None)"

subsection \<open>Admission\<close>

definition admit_message ::
  "tuple_key \<Rightarrow> runtime_options \<Rightarrow> 't runtime_state \<Rightarrow> 't work_queue_submit message_envelope \<Rightarrow> u64
    \<Rightarrow> 't runtime_state \<times> 't queue_event list" where
  "admit_message tk opts st message now =
     (let source = tk [me_topic message, to_string (me_seq message)]
      in if source \<in> q_source_seqs st then (st, [])
         else
           let st = st\<lparr>q_source_seqs := insert source (q_source_seqs st)\<rparr>;
               submit = me_payload message;
               wid = (case su_work_id submit of
                        Some w \<Rightarrow> w
                      | None \<Rightarrow> compound_tuple_key tk ''work-queue-work''
                                  [ro_queue_id opts, me_topic message, to_string (me_seq message)]);
               mref = \<lparr>mr_topic = me_topic message, mr_seq = me_seq message,
                       mr_subscription_id = ro_subscription_id opts\<rparr>
           in if bt_get (q_works st) wid \<noteq> None
              then let (st, r) = append_record st
                         (AdmissionDeduped 0 (ro_queue_id opts) wid mref ''duplicate-work'' wid now)
                   in (st, [QRecord r,
                            status_event opts AdmissionRejected now
                              (no_status\<lparr>sf_work_id := Some wid, sf_record_seq := Some (record_seq r),
                                 sf_issue_code := Some ''duplicate-work''\<rparr>)])
              else let initial_state = (case su_not_before_ms submit of
                                          None \<Rightarrow> Ready
                                        | Some t \<Rightarrow> if t > now then Scheduled else Ready);
                       w = \<lparr>w_work_id = wid, w_payload = su_payload submit, w_state = initial_state,
                            w_admission_seq = me_seq message, w_priority = su_priority submit,
                            w_tags = su_tags submit, w_requirements = su_requirements submit,
                            w_not_before_ms = su_not_before_ms submit, w_retry_at_ms = None,
                            w_deadline_ms = su_deadline_ms submit, w_attempt = 0, w_lease_id = None,
                            w_worker_id = None, w_lease_expires_at_ms = None\<rparr>;
                       (st, r) = append_record (st\<lparr>q_works := bt_insert wid w (q_works st)\<rparr>)
                         (WorkAdmitted 0 (ro_queue_id opts) wid (su_payload submit) mref
                            (su_priority submit) (su_tags submit) (su_requirements submit)
                            (su_not_before_ms submit) (su_deadline_ms submit) now)
                   in (st, [QRecord r,
                            status_event opts AdmissionAccepted now
                              (no_status\<lparr>sf_work_id := Some wid, sf_record_seq := Some (record_seq r)\<rparr>)]))"

text \<open>\<open>admission_ack_command\<close> and \<open>should_poll_admission\<close> tie the queue to its bus.\<close>

definition admission_ack_command ::
  "tuple_key \<Rightarrow> 't work_queue_record \<Rightarrow> 't work_queue_submit message_bus_command option" where
  "admission_ack_command tk r = do {
     m \<leftarrow> admission_message_bus r;
     Some (Ack (mr_topic m) (mr_subscription_id m) (mr_seq m)
       (Some (compound_tuple_key tk ''work-queue-admission-ack''
          [record_queue_id r, mr_topic m, mr_subscription_id m, to_string (mr_seq m)]))) }"

definition should_poll_admission :: "message_bus_status \<Rightarrow> string \<Rightarrow> string \<Rightarrow> bool" where
  "should_poll_admission s topic sid \<longleftrightarrow>
     bs_topic s = Some topic \<and>
     (bs_kind s = MessagePublished \<or> bs_kind s = RetentionTrimmed \<or>
      bs_subscription_id s = Some sid \<and> (bs_kind s = SubscriptionAcked \<or> bs_kind s = SubscriptionSought))"

subsection \<open>Leases\<close>

definition materialize_lease_expired ::
  "runtime_options \<Rightarrow> 't runtime_state \<Rightarrow> 't work_state \<Rightarrow> string option \<Rightarrow> u64 \<Rightarrow> (string \<times> string) option
    \<Rightarrow> 't runtime_state \<times> 't queue_event list" where
  "materialize_lease_expired opts st work cid now rejection =
     (case bt_get (q_works st) (w_work_id work) of
        None \<Rightarrow> (st, [])
      | Some current \<Rightarrow>
          let st = st\<lparr>q_works := bt_insert (w_work_id work) (clear_lease (current\<lparr>w_state := Ready\<rparr>)) (q_works st)\<rparr>;
              (st, r) = append_record st
                (LeaseExpired 0 (ro_queue_id opts) (w_work_id work) cid
                   (case w_lease_id work of None \<Rightarrow> [] | Some l \<Rightarrow> l) (w_attempt work)
                   (case w_worker_id work of None \<Rightarrow> [] | Some w \<Rightarrow> w)
                   (case w_lease_expires_at_ms work of None \<Rightarrow> now | Some e \<Rightarrow> e) now)
          in (st, QRecord r # (case rejection of
                                 None \<Rightarrow> []
                               | Some (code, message) \<Rightarrow> reject_queue_command_by_id opts cid code message now)))"

record lease_check =
  lc_work_id :: string
  lc_lease_id :: string
  lc_attempt :: u32
  lc_worker_id :: string
  lc_command_id :: "string option"
  lc_now_ms :: u64

text \<open>\<open>Inl\<close> carries the events of the failed check.\<close>

definition current_lease ::
  "runtime_options \<Rightarrow> 't runtime_state \<Rightarrow> lease_check \<Rightarrow> 't runtime_state \<times> ('t queue_event list + unit)" where
  "current_lease opts st chk =
     (let reject = (\<lambda>code message. reject_queue_command_by_id opts (lc_command_id chk) code message (lc_now_ms chk))
      in case bt_get (q_works st) (lc_work_id chk) of
           None \<Rightarrow> (st, Inl (reject ''unknown-work'' ''unknown work''))
         | Some work \<Rightarrow>
             if is_terminal (w_state work) then (st, Inl (reject ''terminal-work'' ''work is terminal''))
             else if w_state work \<noteq> Leased then (st, Inl (reject ''lease-not-current'' ''work is not leased''))
             else if w_lease_id work \<noteq> Some (lc_lease_id chk)
             then (st, Inl (reject ''stale-lease'' ''lease is not current''))
             else if w_attempt work \<noteq> lc_attempt chk
             then (st, Inl (reject ''attempt-mismatch'' ''attempt mismatch''))
             else if w_worker_id work \<noteq> Some (lc_worker_id chk)
             then (st, Inl (reject ''worker-mismatch'' ''worker mismatch''))
             else if is_expired work (lc_now_ms chk)
             then let (st, events) =
                        materialize_lease_expired opts st work (lc_command_id chk) (lc_now_ms chk) None
                  in (st, Inl (events @ reject ''lease-expired'' ''lease expired''))
             else (st, Inr ()))"

definition renew_lease ::
  "runtime_options \<Rightarrow> 't runtime_state \<Rightarrow> string \<Rightarrow> string \<Rightarrow> string \<Rightarrow> u32 \<Rightarrow> string \<Rightarrow> u64 option \<Rightarrow> u64 option
    \<Rightarrow> u64 \<Rightarrow> ('t runtime_state \<times> 't queue_event list) option" where
  "renew_lease opts st cid wid lid att worker dur expires now =
     (case current_lease opts st \<lparr>lc_work_id = wid, lc_lease_id = lid, lc_attempt = att,
             lc_worker_id = worker, lc_command_id = Some cid, lc_now_ms = now\<rparr> of
        (st, Inl events) \<Rightarrow> Some (st, events)
      | (st, Inr _) \<Rightarrow> do {
          work \<leftarrow> bt_get (q_works st) wid;
          previous \<leftarrow> w_lease_expires_at_ms work;
          case (case expires of
                  Some v \<Rightarrow> Inr v
                | None \<Rightarrow> checked_timestamp opts (Some cid) now
                            (case dur of None \<Rightarrow> ro_lease_duration_ms opts | Some d \<Rightarrow> d)
                            ''lease renewal duration overflows timestamp'') of
            Inl events \<Rightarrow> Some (st, events)
          | Inr nxt \<Rightarrow>
              let st = st\<lparr>q_works := bt_insert wid (work\<lparr>w_lease_expires_at_ms := Some nxt\<rparr>) (q_works st)\<rparr>;
                  (st, r) = append_record st
                    (LeaseRenewed 0 (ro_queue_id opts) wid cid lid att worker previous nxt now)
              in Some (st, accepted opts r (Some wid) (Some cid) now) })"

definition release_work ::
  "runtime_options \<Rightarrow> 't runtime_state \<Rightarrow> string \<Rightarrow> string \<Rightarrow> string \<Rightarrow> u32 \<Rightarrow> string \<Rightarrow> string option
    \<Rightarrow> u64 \<Rightarrow> ('t runtime_state \<times> 't queue_event list) option" where
  "release_work opts st cid wid lid att worker reason now =
     (case current_lease opts st \<lparr>lc_work_id = wid, lc_lease_id = lid, lc_attempt = att,
             lc_worker_id = worker, lc_command_id = Some cid, lc_now_ms = now\<rparr> of
        (st, Inl events) \<Rightarrow> Some (st, events)
      | (st, Inr _) \<Rightarrow> do {
          work \<leftarrow> bt_get (q_works st) wid;
          let st = st\<lparr>q_works := bt_insert wid ((clear_lease work)\<lparr>w_state := Ready\<rparr>) (q_works st)\<rparr>;
              (st, r) = append_record st
                (WorkReleased 0 (ro_queue_id opts) wid cid lid att worker now reason)
          in Some (st, accepted opts r (Some wid) (Some cid) now) })"

definition complete_work ::
  "runtime_options \<Rightarrow> 't runtime_state \<Rightarrow> string \<Rightarrow> string \<Rightarrow> string \<Rightarrow> u32 \<Rightarrow> string \<Rightarrow> string option
    \<Rightarrow> u64 \<Rightarrow> ('t runtime_state \<times> 't queue_event list) option" where
  "complete_work opts st cid wid lid att worker result now =
     (case current_lease opts st \<lparr>lc_work_id = wid, lc_lease_id = lid, lc_attempt = att,
             lc_worker_id = worker, lc_command_id = Some cid, lc_now_ms = now\<rparr> of
        (st, Inl events) \<Rightarrow> Some (st, events)
      | (st, Inr _) \<Rightarrow> do {
          work \<leftarrow> bt_get (q_works st) wid;
          let st = st\<lparr>q_works := bt_insert wid (clear_lease (work\<lparr>w_state := Completed\<rparr>)) (q_works st)\<rparr>;
              (st, attempt_record) = append_record st
                (AttemptCompleted 0 (ro_queue_id opts) wid cid lid att worker result now);
              (st, done_record) = append_record st
                (WorkCompleted 0 (ro_queue_id opts) wid cid lid att worker result now)
          in Some (st, [QRecord attempt_record, QRecord done_record,
                 status_event opts CommandAccepted now
                   (no_status\<lparr>sf_work_id := Some wid, sf_command_id := Some cid,
                      sf_record_seq := Some (record_seq done_record)\<rparr>)]) })"

text \<open>\<open>fail_work\<close> with its decision and its two final branches as separate definitions.\<close>

definition fail_retries :: "runtime_options \<Rightarrow> bool option \<Rightarrow> u32 \<Rightarrow> bool" where
  "fail_retries opts retryable attempt_for_policy \<longleftrightarrow>
     (case retryable of None \<Rightarrow> True | Some b \<Rightarrow> b) \<and> should_retry (ro_retry opts) attempt_for_policy"

definition fail_retry_delay :: "runtime_options \<Rightarrow> bool option \<Rightarrow> u32 \<Rightarrow> u64" where
  "fail_retry_delay opts retryable attempt_for_policy =
     (if fail_retries opts retryable attempt_for_policy
      then (case next_delay_ms (ro_retry opts) (saturating_add attempt_for_policy 1) of None \<Rightarrow> 0 | Some d \<Rightarrow> d)
      else 0)"

definition fail_dead_letter ::
  "runtime_options \<Rightarrow> 't runtime_state \<Rightarrow> 't work_state \<Rightarrow> 't work_queue_record \<Rightarrow> string \<Rightarrow> string \<Rightarrow> u32 \<Rightarrow> u64
    \<Rightarrow> 't runtime_state \<times> 't queue_event list" where
  "fail_dead_letter opts st work failed cid wid att now =
     (let st = st\<lparr>q_works := bt_insert wid (clear_lease (work\<lparr>w_state := DeadLettered\<rparr>)) (q_works st)\<rparr>;
          (st, dead) = append_record st
            (WorkDeadLettered 0 (ro_queue_id opts) wid cid ''attempts-exhausted'' (Some att) now);
          st = st\<lparr>q_dead_letters := q_dead_letters st @ [dead]\<rparr>
      in (st, [QRecord failed, QRecord dead,
               status_event opts CommandAccepted now
                 (no_status\<lparr>sf_work_id := Some wid, sf_command_id := Some cid,
                    sf_record_seq := Some (record_seq dead)\<rparr>)]))"

definition fail_schedule_retry ::
  "runtime_options \<Rightarrow> 't runtime_state \<Rightarrow> 't work_state \<Rightarrow> 't work_queue_record \<Rightarrow> string \<Rightarrow> string \<Rightarrow> u64 \<Rightarrow> u64 \<Rightarrow> u64
    \<Rightarrow> 't runtime_state \<times> 't queue_event list" where
  "fail_schedule_retry opts st work failed cid wid delay retry_at now =
     (let work = clear_lease (work\<lparr>w_state := (if delay > 0 then RetryWait else Ready), w_retry_at_ms := Some retry_at\<rparr>);
          st = st\<lparr>q_works := bt_insert wid work (q_works st)\<rparr>;
          (st, retry_record) = append_record st
            (RetryScheduled 0 (ro_queue_id opts) wid cid retry_at delay (Some ''retry-policy'') now)
      in (st, [QRecord failed, QRecord retry_record,
               status_event opts CommandAccepted now
                 (no_status\<lparr>sf_work_id := Some wid, sf_command_id := Some cid,
                    sf_record_seq := Some (record_seq retry_record)\<rparr>)]))"

definition fail_work ::
  "runtime_options \<Rightarrow> 't runtime_state \<Rightarrow> string \<Rightarrow> string \<Rightarrow> string \<Rightarrow> u32 \<Rightarrow> string \<Rightarrow> string option
    \<Rightarrow> bool option \<Rightarrow> u64 \<Rightarrow> ('t runtime_state \<times> 't queue_event list) option" where
  "fail_work opts st cid wid lid att worker err retryable now =
     (case current_lease opts st \<lparr>lc_work_id = wid, lc_lease_id = lid, lc_attempt = att,
             lc_worker_id = worker, lc_command_id = Some cid, lc_now_ms = now\<rparr> of
        (st, Inl events) \<Rightarrow> Some (st, events)
      | (st, Inr _) \<Rightarrow> do {
          work \<leftarrow> bt_get (q_works st) wid;
          let retry = fail_retries opts retryable (w_attempt work);
              delay = fail_retry_delay opts retryable (w_attempt work)
          in case (if retry
                   then checked_timestamp opts (Some cid) now delay ''retry delay overflows timestamp''
                   else Inr now) of
               Inl events \<Rightarrow> Some (st, events)
             | Inr retry_at \<Rightarrow>
                 let (st, failed) = append_record st
                       (AttemptFailed 0 (ro_queue_id opts) wid cid lid att worker err retryable now)
                 in if \<not> retry then Some (fail_dead_letter opts st work failed cid wid att now)
                    else Some (fail_schedule_retry opts st work failed cid wid delay retry_at now) })"

definition cancel_work ::
  "runtime_options \<Rightarrow> 't runtime_state \<Rightarrow> string \<Rightarrow> string \<Rightarrow> string option \<Rightarrow> u64
    \<Rightarrow> 't runtime_state \<times> 't queue_event list" where
  "cancel_work opts st cid wid reason now =
     (case bt_get (q_works st) wid of
        None \<Rightarrow> (st, reject_queue_command_by_id opts (Some cid) ''unknown-work'' ''unknown work'' now)
      | Some work \<Rightarrow>
          if is_terminal (w_state work)
          then (st, reject_queue_command_by_id opts (Some cid) ''terminal-work'' ''work is terminal'' now)
          else let canceled_lease_id = w_lease_id work;
                   att = (if w_attempt work > 0 then Some (w_attempt work) else None);
                   st = st\<lparr>q_works := bt_insert wid (clear_lease (work\<lparr>w_state := Canceled\<rparr>)) (q_works st)\<rparr>;
                   (st, r) = append_record st
                     (WorkCanceled 0 (ro_queue_id opts) wid cid reason now canceled_lease_id att)
               in (st, accepted opts r (Some wid) (Some cid) now))"

definition schedule_work ::
  "runtime_options \<Rightarrow> 't runtime_state \<Rightarrow> string \<Rightarrow> string \<Rightarrow> string option \<Rightarrow> u64 \<Rightarrow> u64 option \<Rightarrow> string option
    \<Rightarrow> u64 \<Rightarrow> 't runtime_state \<times> 't queue_event list" where
  "schedule_work opts st cid wid schedule_id not_before deadline reason now =
     (case bt_get (q_works st) wid of
        None \<Rightarrow> (st, reject_queue_command_by_id opts (Some cid) ''unknown-work'' ''unknown work'' now)
      | Some work \<Rightarrow>
          if is_terminal (w_state work)
          then (st, reject_queue_command_by_id opts (Some cid) ''terminal-work'' ''work is terminal'' now)
          else if w_state work = Leased
          then (st, reject_queue_command_by_id opts (Some cid) ''schedule-conflict''
                      ''leased work cannot be scheduled without release or cancel'' now)
          else let st = st\<lparr>q_works := bt_insert wid (work\<lparr>w_state := Scheduled,
                           w_not_before_ms := Some not_before, w_deadline_ms := deadline\<rparr>) (q_works st)\<rparr>;
                   (st, r) = append_record st
                     (WorkScheduled 0 (ro_queue_id opts) wid cid schedule_id not_before deadline reason now)
               in (st, accepted opts r (Some wid) (Some cid) now))"

subsection \<open>Claims and expiry\<close>

text \<open>The loop over the expired work ids, common to \<open>claim_work\<close> and \<open>expire_leases\<close>.\<close>

fun expire_loop ::
  "runtime_options \<Rightarrow> 't runtime_state \<Rightarrow> string \<Rightarrow> u64 \<Rightarrow> string list \<Rightarrow> 't runtime_state \<times> 't queue_event list"
  where
  "expire_loop opts st cid now [] = (st, [])"
| "expire_loop opts st cid now (wid # wids) =
     (case bt_get (q_works st) wid of
        None \<Rightarrow> expire_loop opts st cid now wids
      | Some work \<Rightarrow>
          let (st, evs) = materialize_lease_expired opts st work (Some cid) now None;
              (st, evs') = expire_loop opts st cid now wids
          in (st, evs @ evs'))"

text \<open>The events for the requested works that were not claimed, in the iteration order of the set.\<close>

fun claim_miss_loop ::
  "runtime_options \<Rightarrow> 't runtime_state \<Rightarrow> string \<Rightarrow> string set \<Rightarrow> u64 \<Rightarrow> string list \<Rightarrow> 't queue_event list" where
  "claim_miss_loop opts st cid claimed now [] = []"
| "claim_miss_loop opts st cid claimed now (wid # wids) =
     (if wid \<in> claimed then []
      else case bt_get (q_works st) wid of
             None \<Rightarrow> reject_queue_command_by_id opts (Some cid) ''unknown-work'' (''unknown work '' @ quoted wid) now
           | Some work \<Rightarrow>
               if is_ready work now then []
               else let code = (if is_terminal (w_state work) then ''terminal-work''
                                else if w_state work = Leased then ''already-leased'' else ''not-ready'')
                    in reject_queue_command_by_id opts (Some cid) code
                         (''requested work '' @ quoted wid @ '' is not claimable'') now)
     @ claim_miss_loop opts st cid claimed now wids"

definition claim_miss_events ::
  "(string set \<Rightarrow> string list) \<Rightarrow> runtime_options \<Rightarrow> 't runtime_state \<Rightarrow> string \<Rightarrow> string set \<Rightarrow> string set \<Rightarrow> u64
    \<Rightarrow> 't queue_event list" where
  "claim_miss_events hi opts st cid requested claimed now =
     claim_miss_loop opts st cid claimed now (hi requested)"

text \<open>The claim loop; \<open>None\<close> is the panic of its \<open>expect\<close>.\<close>

fun claim_loop ::
  "tuple_key \<Rightarrow> runtime_options \<Rightarrow> 't runtime_state \<Rightarrow> string \<Rightarrow> string \<Rightarrow> u64 \<Rightarrow> u64 \<Rightarrow> string list
    \<Rightarrow> ('t runtime_state \<times> 't queue_event list) option" where
  "claim_loop tk opts st cid worker expires now [] = Some (st, [])"
| "claim_loop tk opts st cid worker expires now (wid # wids) = do {
     let lease_seq = q_lease_seq st + 1;
     let st = st\<lparr>q_lease_seq := lease_seq\<rparr>;
     work \<leftarrow> bt_get (q_works st) wid;
     let lid = compound_tuple_key tk ''work-queue-lease'' [w_work_id work, to_string lease_seq];
         work = work\<lparr>w_state := Leased, w_attempt := w_attempt work + 1, w_lease_id := Some lid,
                     w_worker_id := Some worker, w_lease_expires_at_ms := Some expires\<rparr>;
         st = st\<lparr>q_works := bt_insert wid work (q_works st)\<rparr>;
         (st, r) = append_record st
           (WorkClaimed 0 (ro_queue_id opts) wid cid lid (w_attempt work) worker now expires);
         events = accepted opts r (Some wid) (Some cid) now
     in do { (st, evs') \<leftarrow> claim_loop tk opts st cid worker expires now wids; Some (st, events @ evs') } }"

definition claim_candidates :: "'t runtime_state \<Rightarrow> string set \<Rightarrow> u64 \<Rightarrow> nat \<Rightarrow> string list" where
  "claim_candidates st requested now limit =
     map snd (take limit (sort (map (\<lambda>w. (w_admission_seq w, w_work_id w))
       (filter (\<lambda>w. is_ready w now)
         (filter (\<lambda>w. requested = {} \<or> w_work_id w \<in> requested) (bt_values (q_works st)))))))"

definition claim_work ::
  "tuple_key \<Rightarrow> (string set \<Rightarrow> string list) \<Rightarrow> runtime_options \<Rightarrow> 't runtime_state \<Rightarrow> string \<Rightarrow> string \<Rightarrow> string list
    \<Rightarrow> nat option \<Rightarrow> u64 option \<Rightarrow> u64 \<Rightarrow> ('t runtime_state \<times> 't queue_event list) option" where
  "claim_work tk hi opts st cid worker requested_work_ids limit dur now = do {
     limit \<leftarrow> positive_limit (case limit of None \<Rightarrow> max (length requested_work_ids) 1 | Some n \<Rightarrow> n);
     let requested = set requested_work_ids;
         expired = map w_work_id (filter (\<lambda>w. (requested = {} \<or> w_work_id w \<in> requested) \<and> is_expired w now)
                     (bt_values (q_works st)));
         (st, events) = expire_loop opts st cid now expired;
         candidates = claim_candidates st requested now limit
     in if candidates = []
        then Some (st, events @
               (if requested = {}
                then reject_queue_command_by_id opts (Some cid) ''not-ready'' ''no ready work'' now
                else claim_miss_events hi opts st cid requested {} now))
        else case checked_timestamp opts (Some cid) now
                    (case dur of None \<Rightarrow> ro_lease_duration_ms opts | Some d \<Rightarrow> d)
                    ''lease duration overflows timestamp'' of
               Inl overflow_events \<Rightarrow> Some (st, overflow_events)
             | Inr expires \<Rightarrow> do {
                 (st, claims) \<leftarrow> claim_loop tk opts st cid worker expires now candidates;
                 Some (st, events @ claims @
                   (if requested = {} then []
                    else claim_miss_events hi opts st cid requested (set candidates) now)) } }"

definition usize_max :: nat where "usize_max = 2 ^ 64 - 1"

definition expire_leases ::
  "runtime_options \<Rightarrow> 't runtime_state \<Rightarrow> string \<Rightarrow> string list \<Rightarrow> nat option \<Rightarrow> u64
    \<Rightarrow> ('t runtime_state \<times> 't queue_event list) option" where
  "expire_leases opts st cid work_ids limit now = do {
     let requested = set work_ids;
     limit \<leftarrow> positive_limit (case limit of None \<Rightarrow> usize_max | Some n \<Rightarrow> n);
     let expired = map w_work_id (take limit
           (filter (\<lambda>w. requested = {} \<or> w_work_id w \<in> requested)
             (filter (\<lambda>w. is_expired w now) (bt_values (q_works st)))))
     in if expired = []
        then Some (st, [status_event opts MaintenanceNoop now (no_status\<lparr>sf_command_id := Some cid\<rparr>)])
        else let (st, events) = expire_loop opts st cid now expired
             in Some (st, events @ [status_event opts MaintenanceApplied now
                  (no_status\<lparr>sf_command_id := Some cid,
                     sf_details := Some (''expired='' @ dec_nat (length expired))\<rparr>)]) }"

subsection \<open>The command reducer and the runtime node\<close>

fun apply_queue_command ::
  "tuple_key \<Rightarrow> (string set \<Rightarrow> string list) \<Rightarrow> runtime_options \<Rightarrow> 't runtime_state \<Rightarrow> 't work_queue_command \<Rightarrow> u64
    \<Rightarrow> ('t runtime_state \<times> 't queue_event list) option" where
  "apply_queue_command tk hi opts st (CmdSubmit _ cid _ _) now =
     Some (st, [status_event opts CommandAccepted now
       (no_status\<lparr>sf_command_id := Some cid, sf_details := Some ''submit uses messageBus''\<rparr>)])"
| "apply_queue_command tk hi opts st (CmdClaim cid _ _ worker wids limit dur _) now =
     claim_work tk hi opts st cid worker wids limit dur now"
| "apply_queue_command tk hi opts st (CmdRenewLease cid _ _ wid lid att worker dur expires _) now =
     renew_lease opts st cid wid lid att worker dur expires now"
| "apply_queue_command tk hi opts st (CmdRelease cid _ _ wid lid att worker reason _) now =
     release_work opts st cid wid lid att worker reason now"
| "apply_queue_command tk hi opts st (CmdComplete cid _ _ wid lid att worker result _) now =
     complete_work opts st cid wid lid att worker result now"
| "apply_queue_command tk hi opts st (CmdFail cid _ _ wid lid att worker err retryable _) now =
     fail_work opts st cid wid lid att worker err retryable now"
| "apply_queue_command tk hi opts st (CmdCancel cid _ _ wid reason _) now =
     Some (cancel_work opts st cid wid reason now)"
| "apply_queue_command tk hi opts st (CmdSchedule cid _ _ wid sid nb dl reason _) now =
     Some (schedule_work opts st cid wid sid nb dl reason now)"
| "apply_queue_command tk hi opts st (CmdExpireLeases cid _ _ wids limit _) now =
     expire_leases opts st cid wids limit now"

definition remember_command :: "'t runtime_state \<Rightarrow> 't work_queue_command \<Rightarrow> 't runtime_state" where
  "remember_command st c =
     st\<lparr>q_command_ids := insert (command_id c) (q_command_ids st),
        q_idempotency_keys := (case command_idempotency_key c of
           None \<Rightarrow> q_idempotency_keys st | Some k \<Rightarrow> insert k (q_idempotency_keys st))\<rparr>"

definition reduce_queue_command ::
  "tuple_key \<Rightarrow> (string set \<Rightarrow> string list) \<Rightarrow> runtime_options \<Rightarrow> 't runtime_state \<Rightarrow> 't work_queue_command \<Rightarrow> u64
    \<Rightarrow> ('t runtime_state \<times> 't queue_event list) option" where
  "reduce_queue_command tk hi opts st c now =
     (case validate_queue_command (ro_queue_id opts) c of
        Some (code, message) \<Rightarrow> Some (st, reject_queue_command opts c code message now)
      | None \<Rightarrow>
          if command_id c \<in> q_command_ids st
          then Some (st, reject_queue_command opts c ''duplicate-command'' ''duplicate commandId'' now)
          else if (case command_idempotency_key c of None \<Rightarrow> False | Some k \<Rightarrow> k \<in> q_idempotency_keys st)
          then Some (st, reject_queue_command opts c ''duplicate-command'' ''duplicate idempotencyKey'' now)
          else apply_queue_command tk hi opts (remember_command st c) c now)"

text \<open>
  The body of the runtime node on one wave: the messages of the admission pages, then the
  commands; each message, and each command without its own time, reads the clock
  (\<open>None\<close> is a reading that panicked).
\<close>

definition clock_or_zero :: "u64 option \<Rightarrow> u64" where
  "clock_or_zero r = (case r of None \<Rightarrow> 0 | Some t \<Rightarrow> t)"

fun admit_all ::
  "tuple_key \<Rightarrow> runtime_options \<Rightarrow> 't runtime_state \<Rightarrow> ('t work_queue_submit message_envelope \<times> u64 option) list
    \<Rightarrow> 't runtime_state \<times> 't queue_event list" where
  "admit_all tk opts st [] = (st, [])"
| "admit_all tk opts st ((m, r) # ms) =
     (let (st, evs) = admit_message tk opts st m (clock_or_zero r);
          (st, evs') = admit_all tk opts st ms
      in (st, evs @ evs'))"

fun reduce_all ::
  "tuple_key \<Rightarrow> (string set \<Rightarrow> string list) \<Rightarrow> runtime_options \<Rightarrow> 't runtime_state
    \<Rightarrow> ('t work_queue_command \<times> u64 option) list \<Rightarrow> ('t runtime_state \<times> 't queue_event list) option" where
  "reduce_all tk hi opts st [] = Some (st, [])"
| "reduce_all tk hi opts st ((c, r) # cs) = do {
     (st, evs) \<leftarrow> reduce_queue_command tk hi opts st c
                    (case command_now_ms c of Some t \<Rightarrow> t | None \<Rightarrow> clock_or_zero r);
     (st, evs') \<leftarrow> reduce_all tk hi opts st cs;
     Some (st, evs @ evs') }"

definition runtime_body ::
  "tuple_key \<Rightarrow> (string set \<Rightarrow> string list) \<Rightarrow> runtime_options \<Rightarrow> 't runtime_state
    \<Rightarrow> ('t work_queue_submit message_envelope \<times> u64 option) list \<Rightarrow> ('t work_queue_command \<times> u64 option) list
    \<Rightarrow> ('t runtime_state \<times> 't queue_event list) option" where
  "runtime_body tk hi opts st ms cs =
     (let (st, evs) = admit_all tk opts st ms
      in do { (st, evs') \<leftarrow> reduce_all tk hi opts st cs; Some (st, evs @ evs') })"

definition records_node :: "'t queue_event list \<Rightarrow> 't work_queue_record list" where
  "records_node evs = concat (map (\<lambda>ev. case ev of QRecord r \<Rightarrow> [r] | _ \<Rightarrow> []) evs)"

definition admission_ack_commands ::
  "tuple_key \<Rightarrow> 't work_queue_record list \<Rightarrow> 't work_queue_submit message_bus_command list" where
  "admission_ack_commands tk rs = List.map_filter (admission_ack_command tk) rs"

subsection \<open>Read projections\<close>

record 't available_item =
  ai_work_id :: string
  ai_state :: derived_state
  ai_payload :: 't
  ai_admission_seq :: u64
  ai_priority :: "i64 option"
  ai_tags :: "string list"
  ai_requirements :: "string list"
  ai_not_before_ms :: "u64 option"
  ai_retry_at_ms :: "u64 option"
  ai_deadline_ms :: "u64 option"

record 't work_queue_available_page =
  av_items :: "'t available_item list"
  av_next_after_work_id :: "string option"
  av_next_after_admission_seq :: "u64 option"
  av_has_more :: bool
  av_as_of_record_seq :: u64

record available_params =
  aq_limit :: "nat option"
  aq_after_work_id :: "string option"
  aq_after_admission_seq :: "u64 option"
  aq_now_ms :: "u64 option"

definition available_item_of :: "'t work_state \<Rightarrow> 't available_item" where
  "available_item_of w = \<lparr>ai_work_id = w_work_id w, ai_state = w_state w, ai_payload = w_payload w,
     ai_admission_seq = w_admission_seq w, ai_priority = w_priority w, ai_tags = w_tags w,
     ai_requirements = w_requirements w, ai_not_before_ms = w_not_before_ms w,
     ai_retry_at_ms = w_retry_at_ms w, ai_deadline_ms = w_deadline_ms w\<rparr>"

definition available_after :: "available_params \<Rightarrow> 't work_state \<Rightarrow> bool" where
  "available_after params w =
     (case (aq_after_admission_seq params, aq_after_work_id params) of
        (Some after_seq, Some after_id) \<Rightarrow> (w_admission_seq w, w_work_id w) > (after_seq, after_id)
      | (Some after_seq, None) \<Rightarrow> w_admission_seq w > after_seq
      | (None, Some after_id) \<Rightarrow> w_work_id w > after_id
      | (None, None) \<Rightarrow> True)"

definition available_page ::
  "'t runtime_state \<Rightarrow> available_params \<Rightarrow> 't work_queue_available_page option" where
  "available_page st params = do {
     limit \<leftarrow> positive_limit (case aq_limit params of None \<Rightarrow> 100 | Some n \<Rightarrow> n);
     let items = sort_key (\<lambda>i. (ai_admission_seq i, ai_work_id i))
           (map available_item_of (filter (available_after params)
             (filter (\<lambda>w. is_ready_for_projection w (aq_now_ms params)) (bt_values (q_works st)))));
         has_more = (length items > limit);
         page = take limit items
     in Some \<lparr>av_items = page,
              av_next_after_work_id = (if has_more then map_option ai_work_id (last_opt page) else None),
              av_next_after_admission_seq = (if has_more then map_option ai_admission_seq (last_opt page) else None),
              av_has_more = has_more, av_as_of_record_seq = q_record_seq st\<rparr> }"

record active_lease =
  al_lease_id :: string
  al_attempt :: u32
  al_worker_id :: string
  al_lease_expires_at_ms :: u64

record 't work_queue_work_snapshot =
  sn_work_id :: string
  sn_state :: "derived_state option"
  sn_payload :: "'t option"
  sn_active_lease :: "active_lease option"
  sn_records :: "'t work_queue_record list"
  sn_as_of_record_seq :: u64

definition work_snapshot :: "'t runtime_state \<Rightarrow> string \<Rightarrow> 't work_queue_work_snapshot" where
  "work_snapshot st wid =
     (let work = bt_get (q_works st) wid
      in \<lparr>sn_work_id = wid, sn_state = map_option w_state work, sn_payload = map_option w_payload work,
          sn_active_lease = do {
            w \<leftarrow> work;
            if w_state w \<noteq> Leased then None
            else do { lid \<leftarrow> w_lease_id w; worker \<leftarrow> w_worker_id w; e \<leftarrow> w_lease_expires_at_ms w;
                      Some \<lparr>al_lease_id = lid, al_attempt = w_attempt w, al_worker_id = worker,
                            al_lease_expires_at_ms = e\<rparr> } },
          sn_records = filter (\<lambda>r. record_work_id r = wid) (q_records st),
          sn_as_of_record_seq = q_record_seq st\<rparr>)"

record dead_letter_params =
  dd_limit :: "nat option"
  dd_after_dead_letter_seq :: "u64 option"
  dd_after_work_id :: "string option"

record 't work_queue_dead_letter_page =
  dg_entries :: "'t work_queue_record list"
  dg_next_after_dead_letter_seq :: "u64 option"
  dg_has_more :: bool
  dg_as_of_record_seq :: u64

definition dead_letter_page ::
  "'t runtime_state \<Rightarrow> dead_letter_params \<Rightarrow> 't work_queue_dead_letter_page option" where
  "dead_letter_page st params = do {
     limit \<leftarrow> positive_limit (case dd_limit params of None \<Rightarrow> 100 | Some n \<Rightarrow> n);
     let entries = filter (\<lambda>r. (case dd_after_dead_letter_seq params of None \<Rightarrow> True | Some a \<Rightarrow> record_seq r > a)
                     \<and> (case dd_after_work_id params of None \<Rightarrow> True | Some a \<Rightarrow> record_work_id r > a))
                   (q_dead_letters st);
         has_more = (length entries > limit);
         page = take limit entries
     in Some \<lparr>dg_entries = page,
              dg_next_after_dead_letter_seq = (if has_more then map_option record_seq (last_opt page) else None),
              dg_has_more = has_more, dg_as_of_record_seq = q_record_seq st\<rparr> }"

section \<open>The lifecycle a record log describes\<close>

text \<open>
  The abstract machine: what one record does to the table of works, and when it is legal. The
  reducers are shown to append legal records and to keep the table equal to the replay of the
  log.
\<close>

type_synonym 't works = "(string, 't work_state) btree"

definition on_work :: "string \<Rightarrow> ('t work_state \<Rightarrow> 't work_state) \<Rightarrow> 't works \<Rightarrow> 't works" where
  "on_work wid f ws = (case bt_get ws wid of None \<Rightarrow> ws | Some w \<Rightarrow> bt_insert wid (f w) ws)"

fun apply_record :: "'t work_queue_record \<Rightarrow> 't works \<Rightarrow> 't works" where
  "apply_record (WorkAdmitted _ _ wid p m pr tg rq nb dl at) ws =
     bt_insert wid \<lparr>w_work_id = wid, w_payload = p,
       w_state = (case nb of None \<Rightarrow> Ready | Some t \<Rightarrow> if t > at then Scheduled else Ready),
       w_admission_seq = mr_seq m, w_priority = pr, w_tags = tg, w_requirements = rq,
       w_not_before_ms = nb, w_retry_at_ms = None, w_deadline_ms = dl, w_attempt = 0,
       w_lease_id = None, w_worker_id = None, w_lease_expires_at_ms = None\<rparr> ws"
| "apply_record (AdmissionDeduped _ _ _ _ _ _ _) ws = ws"
| "apply_record (WorkScheduled _ _ wid _ _ nb dl _ _) ws =
     on_work wid (\<lambda>w. w\<lparr>w_state := Scheduled, w_not_before_ms := Some nb, w_deadline_ms := dl\<rparr>) ws"
| "apply_record (WorkClaimed _ _ wid _ lid att worker _ ex) ws =
     on_work wid (\<lambda>w. w\<lparr>w_state := Leased, w_attempt := att, w_lease_id := Some lid,
       w_worker_id := Some worker, w_lease_expires_at_ms := Some ex\<rparr>) ws"
| "apply_record (LeaseRenewed _ _ wid _ _ _ _ _ ex _) ws =
     on_work wid (\<lambda>w. w\<lparr>w_lease_expires_at_ms := Some ex\<rparr>) ws"
| "apply_record (WorkReleased _ _ wid _ _ _ _ _ _) ws = on_work wid (\<lambda>w. clear_lease (w\<lparr>w_state := Ready\<rparr>)) ws"
| "apply_record (LeaseExpired _ _ wid _ _ _ _ _ _) ws = on_work wid (\<lambda>w. clear_lease (w\<lparr>w_state := Ready\<rparr>)) ws"
| "apply_record (AttemptCompleted _ _ _ _ _ _ _ _ _) ws = ws"
| "apply_record (WorkCompleted _ _ wid _ _ _ _ _ _) ws = on_work wid (\<lambda>w. clear_lease (w\<lparr>w_state := Completed\<rparr>)) ws"
| "apply_record (AttemptFailed _ _ _ _ _ _ _ _ _ _) ws = ws"
| "apply_record (RetryScheduled _ _ wid _ ra d _ _) ws =
     on_work wid (\<lambda>w. clear_lease (w\<lparr>w_state := (if d > 0 then RetryWait else Ready), w_retry_at_ms := Some ra\<rparr>)) ws"
| "apply_record (WorkDeadLettered _ _ wid _ _ _ _) ws = on_work wid (\<lambda>w. clear_lease (w\<lparr>w_state := DeadLettered\<rparr>)) ws"
| "apply_record (WorkCanceled _ _ wid _ _ _ _ _) ws = on_work wid (\<lambda>w. clear_lease (w\<lparr>w_state := Canceled\<rparr>)) ws"

text \<open>The holder of the current lease, with its attempt, unexpired at the given time.\<close>

definition holds_lease :: "'t work_state \<Rightarrow> string \<Rightarrow> u32 \<Rightarrow> string \<Rightarrow> u64 \<Rightarrow> bool" where
  "holds_lease w lid att worker now \<longleftrightarrow>
     w_state w = Leased \<and> w_lease_id w = Some lid \<and> w_attempt w = att \<and> w_worker_id w = Some worker \<and>
     (\<exists>e. w_lease_expires_at_ms w = Some e \<and> now < e)"

fun legal_record :: "'t work_queue_record \<Rightarrow> 't works \<Rightarrow> bool" where
  "legal_record (WorkAdmitted _ _ wid _ _ _ _ _ _ _ _) ws = (bt_get ws wid = None)"
| "legal_record (AdmissionDeduped _ _ wid _ _ _ _) ws = (bt_get ws wid \<noteq> None)"
| "legal_record (WorkScheduled _ _ wid _ _ _ _ _ _) ws =
     (\<exists>w. bt_get ws wid = Some w \<and> \<not> is_terminal (w_state w) \<and> w_state w \<noteq> Leased)"
| "legal_record (WorkClaimed _ _ wid _ lid att worker at ex) ws =
     (\<exists>w. bt_get ws wid = Some w \<and> is_ready w at \<and> att = w_attempt w + 1)"
| "legal_record (LeaseRenewed _ _ wid _ lid att worker pv _ at) ws =
     (\<exists>w. bt_get ws wid = Some w \<and> holds_lease w lid att worker at \<and> w_lease_expires_at_ms w = Some pv)"
| "legal_record (WorkReleased _ _ wid _ lid att worker at _) ws =
     (\<exists>w. bt_get ws wid = Some w \<and> holds_lease w lid att worker at)"
| "legal_record (LeaseExpired _ _ wid _ lid att worker ex at) ws =
     (\<exists>w. bt_get ws wid = Some w \<and> w_state w = Leased \<and> w_lease_id w = Some lid \<and> w_attempt w = att \<and>
        w_worker_id w = Some worker \<and> w_lease_expires_at_ms w = Some ex \<and> ex \<le> at)"
| "legal_record (AttemptCompleted _ _ wid _ lid att worker _ at) ws =
     (\<exists>w. bt_get ws wid = Some w \<and> holds_lease w lid att worker at)"
| "legal_record (WorkCompleted _ _ wid _ lid att worker _ at) ws =
     (\<exists>w. bt_get ws wid = Some w \<and> holds_lease w lid att worker at)"
| "legal_record (AttemptFailed _ _ wid _ lid att worker _ _ at) ws =
     (\<exists>w. bt_get ws wid = Some w \<and> holds_lease w lid att worker at)"
| "legal_record (RetryScheduled _ _ wid _ _ _ _ _) ws =
     (\<exists>w. bt_get ws wid = Some w \<and> w_state w = Leased)"
| "legal_record (WorkDeadLettered _ _ wid _ _ _ _) ws =
     (\<exists>w. bt_get ws wid = Some w \<and> w_state w = Leased)"
| "legal_record (WorkCanceled _ _ wid _ _ _ lid _) ws =
     (\<exists>w. bt_get ws wid = Some w \<and> \<not> is_terminal (w_state w) \<and> w_lease_id w = lid)"

fun legal_log :: "'t works \<Rightarrow> 't work_queue_record list \<Rightarrow> bool" where
  "legal_log ws [] = True"
| "legal_log ws (r # rs) = (legal_record r ws \<and> legal_log (apply_record r ws) rs)"

definition replay :: "'t work_queue_record list \<Rightarrow> 't works \<Rightarrow> 't works" where
  "replay rs ws = fold apply_record rs ws"

lemma replay_simps [simp]:
  "replay [] ws = ws" "replay (r # rs) ws = replay rs (apply_record r ws)"
  "replay (rs @ rs') ws = replay rs' (replay rs ws)"
  by (simp_all add: replay_def)

lemma legal_log_append [simp]:
  "legal_log ws (rs @ rs') \<longleftrightarrow> legal_log ws rs \<and> legal_log (replay rs ws) rs'"
  by (induction rs arbitrary: ws) auto

lemma with_record_seq_simps [simp]:
  "record_seq (with_record_seq r n) = n"
  "record_work_id (with_record_seq r n) = record_work_id r"
  "apply_record (with_record_seq r n) ws = apply_record r ws"
  "legal_record (with_record_seq r n) ws = legal_record r ws"
  by (cases r; simp)+

subsection \<open>Well-formed work tables\<close>

definition lease_fields_ok :: "'t work_state \<Rightarrow> bool" where
  "lease_fields_ok w \<longleftrightarrow>
     (if w_state w = Leased
      then w_lease_id w \<noteq> None \<and> w_worker_id w \<noteq> None \<and> w_lease_expires_at_ms w \<noteq> None
      else w_lease_id w = None \<and> w_worker_id w = None \<and> w_lease_expires_at_ms w = None)"

definition works_ok :: "'t works \<Rightarrow> bool" where
  "works_ok ws \<longleftrightarrow> bt_ok ws \<and>
     (\<forall>k w. bt_get ws k = Some w \<longrightarrow> w_work_id w = k \<and> lease_fields_ok w)"

lemma works_ok_Nil [simp]: "works_ok []"
  by (simp add: works_ok_def)

lemma works_okD: "works_ok ws \<Longrightarrow> bt_get ws k = Some w \<Longrightarrow> w_work_id w = k \<and> lease_fields_ok w"
  by (simp add: works_ok_def)

lemma works_ok_id: "works_ok ws \<Longrightarrow> bt_get ws k = Some w \<Longrightarrow> w_work_id w = k"
  by (simp add: works_ok_def)

lemma works_ok_insert:
  "works_ok ws \<Longrightarrow> w_work_id w = k \<Longrightarrow> lease_fields_ok w \<Longrightarrow> works_ok (bt_insert k w ws)"
  by (auto simp: works_ok_def btree)

lemma on_work_Some [simp]: "bt_get ws k = Some w \<Longrightarrow> on_work k f ws = bt_insert k (f w) ws"
  by (simp add: on_work_def)

lemma clear_lease_simps [simp]:
  "w_work_id (clear_lease w) = w_work_id w" "w_state (clear_lease w) = w_state w"
  "w_lease_id (clear_lease w) = None" "w_worker_id (clear_lease w) = None"
  "w_lease_expires_at_ms (clear_lease w) = None" "w_attempt (clear_lease w) = w_attempt w"
  "(clear_lease w)\<lparr>w_state := s\<rparr> = clear_lease (w\<lparr>w_state := s\<rparr>)"
  by (simp_all add: clear_lease_def)

lemma lease_fields_clear [simp]: "w_state w \<noteq> Leased \<Longrightarrow> lease_fields_ok (clear_lease w)"
  by (simp add: lease_fields_ok_def)

text \<open>Every legal record keeps the table well formed.\<close>

lemma legal_record_works_ok:
  assumes ok: "works_ok ws" and legal: "legal_record r ws"
  shows "works_ok (apply_record r ws)"
proof (cases r)
  case (WorkAdmitted n q wid p m pr tg rq nb dl at)
  with ok show ?thesis
    by (auto intro!: works_ok_insert simp: lease_fields_ok_def split: option.splits)
next
  case (WorkScheduled n q wid c s nb dl r at)
  with legal obtain w where w: "bt_get ws wid = Some w" "w_state w \<noteq> Leased" by auto
  with works_okD [OF ok w(1)] ok WorkScheduled show ?thesis
    by (auto intro!: works_ok_insert simp: lease_fields_ok_def)
next
  case (WorkClaimed n q wid c l a wk at ex)
  with legal obtain w where w: "bt_get ws wid = Some w" by auto
  with works_okD [OF ok w] ok WorkClaimed show ?thesis
    by (auto intro!: works_ok_insert simp: lease_fields_ok_def)
next
  case (LeaseRenewed n q wid c l a wk pv ex at)
  with legal obtain w where w: "bt_get ws wid = Some w" "w_state w = Leased" by (auto simp: holds_lease_def)
  with works_okD [OF ok w(1)] ok LeaseRenewed show ?thesis
    by (auto intro!: works_ok_insert simp: lease_fields_ok_def)
qed (use ok legal in \<open>auto intro!: works_ok_insert simp: works_ok_id [OF ok]\<close>)

lemma legal_log_works_ok: "works_ok ws \<Longrightarrow> legal_log ws rs \<Longrightarrow> works_ok (replay rs ws)"
  by (induction rs arbitrary: ws) (auto intro: legal_record_works_ok)

text \<open>A terminal work is left alone by every legal record; only duplicates of its admission are still logged.\<close>

lemma apply_record_other: "k \<noteq> record_work_id r \<Longrightarrow> bt_get (apply_record r ws) k = bt_get ws k"
  by (cases r) (simp_all add: on_work_def btree split: option.split)

lemma legal_record_open:
  assumes "legal_record r ws" "admission_message_bus r = None"
  shows "\<exists>w. bt_get ws (record_work_id r) = Some w \<and> \<not> is_terminal (w_state w)"
proof (cases r)
  case (WorkClaimed n q wid c l a wk at ex)
  with assms obtain w where "bt_get ws wid = Some w" "is_ready w at" by auto
  with WorkClaimed show ?thesis by (cases "w_state w") (auto simp: is_terminal_def is_ready_def)
qed (use assms in \<open>auto simp: is_terminal_def holds_lease_def\<close>)

lemma legal_record_terminal:
  assumes legal: "legal_record r ws" and w: "bt_get ws k = Some w" "is_terminal (w_state w)"
  shows "bt_get (apply_record r ws) k = Some w"
    and "record_work_id r = k \<Longrightarrow> admission_message_bus r \<noteq> None"
proof -
  show adm: "admission_message_bus r \<noteq> None" if "record_work_id r = k"
    using legal_record_open [OF legal] w that by auto
  show "bt_get (apply_record r ws) k = Some w"
  proof (cases "record_work_id r = k")
    case True
    with adm legal w show ?thesis by (cases r) simp_all
  qed (use w apply_record_other in metis)
qed

lemma legal_log_terminal:
  assumes "legal_log ws rs" "bt_get ws k = Some w" "is_terminal (w_state w)"
  shows "bt_get (replay rs ws) k = Some w"
    and "\<forall>r \<in> set rs. record_work_id r = k \<longrightarrow> admission_message_bus r \<noteq> None"
proof -
  have "bt_get (replay rs ws) k = Some w \<and>
      (\<forall>r \<in> set rs. record_work_id r = k \<longrightarrow> admission_message_bus r \<noteq> None)"
    using assms
  proof (induction rs arbitrary: ws)
    case (Cons r rs)
    then have legal: "legal_record r ws" by simp
    have "bt_get (apply_record r ws) k = Some w"
      using legal_record_terminal(1) [OF legal Cons.prems(2,3)] .
    moreover have "record_work_id r = k \<longrightarrow> admission_message_bus r \<noteq> None"
      using legal_record_terminal(2) [OF legal Cons.prems(2,3)] by blast
    ultimately show ?case using Cons.IH [of "apply_record r ws"] Cons.prems by simp
  qed simp
  then show "bt_get (replay rs ws) k = Some w"
    and "\<forall>r \<in> set rs. record_work_id r = k \<longrightarrow> admission_message_bus r \<noteq> None"
    by simp_all
qed

section \<open>The reducers implement the lifecycle\<close>

named_theorems wq_sim \<open>each reducer appends a legal stretch of the log\<close>

fun is_dead_letter :: "'t work_queue_record \<Rightarrow> bool" where
  "is_dead_letter (WorkDeadLettered _ _ _ _ _ _ _) = True"
| "is_dead_letter _ = False"

lemma is_dead_letter_with_seq [simp]: "is_dead_letter (with_record_seq r n) = is_dead_letter r"
  by (cases r) simp_all

fun numbered_from :: "u64 \<Rightarrow> 't work_queue_record list \<Rightarrow> bool" where
  "numbered_from n [] = True"
| "numbered_from n (r # rs) = (record_seq r = n + 1 \<and> numbered_from (n + 1) rs)"

lemma numbered_from_append:
  "numbered_from n (rs @ rs') \<longleftrightarrow> numbered_from n rs \<and> numbered_from (n + of_nat (length rs)) rs'"
  by (induction rs arbitrary: n) (simp_all add: add.assoc)

lemma numbered_from_nth: "numbered_from n rs \<Longrightarrow> i < length rs \<Longrightarrow> record_seq (rs ! i) = n + of_nat (Suc i)"
  by (induction rs arbitrary: n i) (auto simp: nth_Cons add.assoc split: nat.splits)

text \<open>\<open>st'\<close> extends the log of \<open>st\<close> by the legal, consecutively numbered records \<open>rs\<close>.\<close>

definition log_step :: "'t runtime_state \<Rightarrow> 't work_queue_record list \<Rightarrow> 't runtime_state \<Rightarrow> bool" where
  "log_step st rs st' \<longleftrightarrow>
     q_records st' = q_records st @ rs \<and> numbered_from (q_record_seq st) rs \<and>
     q_record_seq st' = q_record_seq st + of_nat (length rs) \<and>
     legal_log (q_works st) rs \<and> q_works st' = replay rs (q_works st) \<and>
     q_dead_letters st' = q_dead_letters st @ filter is_dead_letter rs"

lemma log_step_refl [simp]: "log_step st [] st"
  by (simp add: log_step_def)

lemma log_step_trans: "log_step st rs st' \<Longrightarrow> log_step st' rs' st'' \<Longrightarrow> log_step st (rs @ rs') st''"
  by (simp add: log_step_def numbered_from_append add.assoc)

lemma log_step_works_ok: "log_step st rs st' \<Longrightarrow> works_ok (q_works st) \<Longrightarrow> works_ok (q_works st')"
  by (auto simp: log_step_def intro: legal_log_works_ok)

text \<open>One record, after the table has been updated as the record says.\<close>

lemma append_record_step:
  assumes "legal_record r (q_works st)" "ws = apply_record r (q_works st)" "\<not> is_dead_letter r"
  shows "log_step st [snd (append_record (st\<lparr>q_works := ws\<rparr>) r)] (fst (append_record (st\<lparr>q_works := ws\<rparr>) r))"
  using assms by (simp add: log_step_def append_record_def Let_def)

lemma append_record_same:
  assumes "legal_record r (q_works st)" "apply_record r (q_works st) = q_works st" "\<not> is_dead_letter r"
  shows "log_step st [snd (append_record st r)] (fst (append_record st r))"
  using append_record_step [OF assms(1), of "q_works st"] assms by simp

lemma append_record_frame [simp]:
  "q_works (fst (append_record st r)) = q_works st"
  "q_lease_seq (fst (append_record st r)) = q_lease_seq st"
  "q_source_seqs (fst (append_record st r)) = q_source_seqs st"
  "q_command_ids (fst (append_record st r)) = q_command_ids st"
  "q_idempotency_keys (fst (append_record st r)) = q_idempotency_keys st"
  "q_dead_letters (fst (append_record st r)) = q_dead_letters st"
  by (simp_all add: append_record_def Let_def)

lemma log_step_ignores [simp]:
  "log_step (st\<lparr>q_source_seqs := a\<rparr>) rs st' = log_step st rs st'"
  "log_step (st\<lparr>q_lease_seq := l\<rparr>) rs st' = log_step st rs st'"
  "log_step (remember_command st c) rs st' = log_step st rs st'"
  by (simp_all add: log_step_def remember_command_def)

lemma records_node_simps [simp]:
  "records_node [] = []"
  "records_node (QRecord r # evs) = r # records_node evs"
  "records_node (QStatus s # evs) = records_node evs"
  "records_node (QIssue i # evs) = records_node evs"
  "records_node (evs @ evs') = records_node evs @ records_node evs'"
  "records_node (status_event opts k ts fs # evs) = records_node evs"
  "records_node (reject_queue_command_by_id opts cid code message now) = []"
  "records_node (reject_queue_command opts c code message now) = []"
  "records_node (accepted opts r wid cid now) = [r]"
  by (simp_all add: records_node_def status_event_def reject_queue_command_by_id_def
      reject_queue_command_def accepted_def)

text \<open>A reduction that appends exactly the records it emits.\<close>

definition emits_log :: "'t runtime_state \<Rightarrow> 't runtime_state \<times> 't queue_event list \<Rightarrow> bool" where
  "emits_log st res \<longleftrightarrow> log_step st (records_node (snd res)) (fst res)"

lemma emits_nothing [simp]: "records_node evs = [] \<Longrightarrow> emits_log st (st, evs)"
  by (simp add: emits_log_def)

lemma emits_log_trans:
  "emits_log st (st', evs) \<Longrightarrow> emits_log st' (st'', evs') \<Longrightarrow> emits_log st (st'', evs @ evs')"
  by (auto simp: emits_log_def intro: log_step_trans)

lemma emits_log_seq:
  "emits_log st res \<Longrightarrow> emits_log (fst res) res' \<Longrightarrow> emits_log st (fst res', snd res @ snd res')"
  by (auto simp: emits_log_def intro: log_step_trans)

lemma append_record_emits:
  assumes "legal_record r (q_works st)" "ws = apply_record r (q_works st)" "\<not> is_dead_letter r"
  shows "emits_log st (case append_record (st\<lparr>q_works := ws\<rparr>) r of (st, r) \<Rightarrow> (st, accepted opts r wid cid now))"
  using append_record_step [OF assms] by (simp add: emits_log_def split_beta)

lemma expired_fields:
  assumes "works_ok ws" "bt_get ws wid = Some w" "is_expired w now"
  obtains lid worker e where "w_work_id w = wid" "w_state w = Leased" "w_lease_id w = Some lid"
    "w_worker_id w = Some worker" "w_lease_expires_at_ms w = Some e" "e \<le> now"
  using works_okD [OF assms(1,2)] assms(3) that
  by (auto simp: is_expired_def lease_fields_ok_def split: option.splits)

lemma materialize_emits:
  assumes ok: "works_ok (q_works st)" and w: "bt_get (q_works st) wid = Some w" "is_expired w now"
  shows "emits_log st (materialize_lease_expired opts st w cid now None)"
proof -
  obtain lid worker e where f: "w_work_id w = wid" "w_state w = Leased" "w_lease_id w = Some lid"
    "w_worker_id w = Some worker" "w_lease_expires_at_ms w = Some e" "e \<le> now"
    using expired_fields [OF ok w] .
  let ?r = "LeaseExpired 0 (ro_queue_id opts) wid cid lid (w_attempt w) worker e now"
  have "log_step st [snd (append_record (st\<lparr>q_works := apply_record ?r (q_works st)\<rparr>) ?r)]
      (fst (append_record (st\<lparr>q_works := apply_record ?r (q_works st)\<rparr>) ?r))"
    using w f by (intro append_record_step) simp_all
  then show ?thesis
    using w(1) f by (simp add: materialize_lease_expired_def emits_log_def split_beta Let_def)
qed

lemma current_lease_cases:
  assumes ok: "works_ok (q_works st)" and eq: "current_lease opts st chk = (st', res)"
  obtains (rejected) evs where "res = Inl evs" "emits_log st (st', evs)"
    | (held) w where "res = Inr ()" "st' = st" "bt_get (q_works st) (lc_work_id chk) = Some w"
        "holds_lease w (lc_lease_id chk) (lc_attempt chk) (lc_worker_id chk) (lc_now_ms chk)"
proof (cases "bt_get (q_works st) (lc_work_id chk)")
  case None
  with eq show ?thesis by (intro rejected) (auto simp: current_lease_def Let_def)
next
  case (Some w)
  let ?cur = "w_state w = Leased \<and> w_lease_id w = Some (lc_lease_id chk) \<and> w_attempt w = lc_attempt chk \<and>
      w_worker_id w = Some (lc_worker_id chk)"
  show ?thesis
  proof (cases "?cur \<and> is_expired w (lc_now_ms chk)")
    case True
    let ?m = "materialize_lease_expired opts st w (lc_command_id chk) (lc_now_ms chk) None"
    let ?evs = "snd ?m @ reject_queue_command_by_id opts (lc_command_id chk) ''lease-expired'' ''lease expired''
        (lc_now_ms chk)"
    have res: "st' = fst ?m" "res = Inl ?evs"
      using True Some eq by (auto simp: current_lease_def Let_def is_terminal_def split_beta)
    have "emits_log st ?m" using ok Some True by (intro materialize_emits) simp_all
    then have "emits_log st (st', ?evs)" by (simp add: emits_log_def res(1))
    with res(2) show ?thesis by (rule rejected)
  next
    case False
    show ?thesis
    proof (cases ?cur)
      case cur: True
      then obtain e where e: "w_lease_expires_at_ms w = Some e"
        using works_okD [OF ok Some] by (auto simp: lease_fields_ok_def)
      with False cur have "lc_now_ms chk < e" by (simp add: is_expired_def not_le)
      with e False cur Some eq show ?thesis
        by (intro held) (auto simp: current_lease_def Let_def is_terminal_def holds_lease_def)
    next
      case False
      with Some eq have "\<exists>evs. st' = st \<and> res = Inl evs \<and> records_node evs = []"
        by (auto simp: current_lease_def Let_def split: if_splits)
      with rejected show ?thesis by auto
    qed
  qed
qed

lemma renew_lease_emits [wq_sim]:
  assumes ok: "works_ok (q_works st)"
  shows "\<exists>res. renew_lease opts st cid wid lid att worker dur expires now = Some res \<and> emits_log st res"
proof -
  obtain st' res where cl: "current_lease opts st \<lparr>lc_work_id = wid, lc_lease_id = lid, lc_attempt = att,
      lc_worker_id = worker, lc_command_id = Some cid, lc_now_ms = now\<rparr> = (st', res)" by fastforce
  from ok cl show ?thesis
  proof (cases rule: current_lease_cases)
    case (held w)
    then obtain e where e: "w_lease_expires_at_ms w = Some e" by (auto simp: holds_lease_def)
    let ?r = "\<lambda>nxt. LeaseRenewed 0 (ro_queue_id opts) wid cid lid att worker e nxt now"
    have "emits_log st (case append_record (st\<lparr>q_works := apply_record (?r nxt) (q_works st)\<rparr>) (?r nxt) of
        (st, r) \<Rightarrow> (st, accepted opts r (Some wid) (Some cid) now))" for nxt
      using held e by (intro append_record_emits) simp_all
    with held cl e show ?thesis
      by (auto simp: renew_lease_def checked_timestamp_def Let_def split_beta split: option.splits)
  qed (use cl in \<open>simp add: renew_lease_def\<close>)
qed

lemma release_work_emits [wq_sim]:
  assumes ok: "works_ok (q_works st)"
  shows "\<exists>res. release_work opts st cid wid lid att worker reason now = Some res \<and> emits_log st res"
proof -
  obtain st' res where cl: "current_lease opts st \<lparr>lc_work_id = wid, lc_lease_id = lid, lc_attempt = att,
      lc_worker_id = worker, lc_command_id = Some cid, lc_now_ms = now\<rparr> = (st', res)" by fastforce
  from ok cl show ?thesis
  proof (cases rule: current_lease_cases)
    case (held w)
    let ?r = "WorkReleased 0 (ro_queue_id opts) wid cid lid att worker now reason"
    have "emits_log st (case append_record (st\<lparr>q_works := apply_record ?r (q_works st)\<rparr>) ?r of
        (st, r) \<Rightarrow> (st, accepted opts r (Some wid) (Some cid) now))"
      using held by (intro append_record_emits) simp_all
    with held cl show ?thesis by (simp add: release_work_def Let_def split_beta)
  qed (use cl in \<open>simp add: release_work_def\<close>)
qed

lemma complete_work_emits [wq_sim]:
  assumes ok: "works_ok (q_works st)"
  shows "\<exists>res. complete_work opts st cid wid lid att worker result now = Some res \<and> emits_log st res"
proof -
  obtain st' res where cl: "current_lease opts st \<lparr>lc_work_id = wid, lc_lease_id = lid, lc_attempt = att,
      lc_worker_id = worker, lc_command_id = Some cid, lc_now_ms = now\<rparr> = (st', res)" by fastforce
  from ok cl show ?thesis
  proof (cases rule: current_lease_cases)
    case (held w)
    with cl show ?thesis
      by (simp add: complete_work_def Let_def split_beta emits_log_def log_step_def append_record_def)
  qed (use cl in \<open>simp add: complete_work_def\<close>)
qed

lemma fail_work_emits [wq_sim]:
  assumes ok: "works_ok (q_works st)"
  shows "\<exists>res. fail_work opts st cid wid lid att worker err retryable now = Some res \<and> emits_log st res"
proof -
  obtain st' res where cl: "current_lease opts st \<lparr>lc_work_id = wid, lc_lease_id = lid, lc_attempt = att,
      lc_worker_id = worker, lc_command_id = Some cid, lc_now_ms = now\<rparr> = (st', res)" by fastforce
  from ok cl show ?thesis
  proof (cases rule: current_lease_cases)
    case (held w)
    then have leased: "w_state w = Leased" by (simp add: holds_lease_def)
    from held cl leased show ?thesis
      by (simp add: fail_work_def fail_dead_letter_def fail_schedule_retry_def Let_def split_beta emits_log_def
          log_step_def append_record_def checked_timestamp_def split: option.splits sum.splits if_splits)
  qed (use cl in \<open>simp add: fail_work_def\<close>)
qed

lemma cancel_work_emits [wq_sim]: "emits_log st (cancel_work opts st cid wid reason now)"
  by (auto simp: cancel_work_def Let_def split_beta emits_log_def log_step_def append_record_def
      split: option.splits)

lemma schedule_work_emits [wq_sim]: "emits_log st (schedule_work opts st cid wid sid nb dl reason now)"
  by (auto simp: schedule_work_def Let_def split_beta emits_log_def log_step_def append_record_def
      split: option.splits)

lemma admit_message_emits [wq_sim]: "emits_log st (admit_message tk opts st m now)"
  by (auto simp: admit_message_def Let_def split_beta emits_log_def log_step_def append_record_def
      split: option.splits)

subsection \<open>Expiry and claims\<close>

text \<open>The ids name distinct works that satisfy \<open>P\<close>.\<close>

definition all_works :: "('t work_state \<Rightarrow> bool) \<Rightarrow> 't works \<Rightarrow> string list \<Rightarrow> bool" where
  "all_works P ws wids \<longleftrightarrow> distinct wids \<and> (\<forall>wid \<in> set wids. \<exists>w. bt_get ws wid = Some w \<and> P w)"

lemma all_works_head: "all_works P ws (wid # wids) \<Longrightarrow> \<exists>w. bt_get ws wid = Some w \<and> P w"
  by (simp add: all_works_def)

lemma all_works_tail:
  assumes "all_works P ws (wid # wids)" "\<And>k. k \<noteq> wid \<Longrightarrow> bt_get ws' k = bt_get ws k"
  shows "all_works P ws' wids"
  unfolding all_works_def
proof (intro conjI ballI)
  show "distinct wids" using assms(1) by (simp add: all_works_def)
  fix k assume "k \<in> set wids"
  then have "k \<noteq> wid" "\<exists>w. bt_get ws k = Some w \<and> P w" using assms(1) by (auto simp: all_works_def)
  then show "\<exists>w. bt_get ws' k = Some w \<and> P w" using assms(2) by simp
qed

lemma materialize_frame:
  assumes "works_ok (q_works st)" "bt_get (q_works st) wid = Some w"
  shows "k \<noteq> wid \<Longrightarrow> bt_get (q_works (fst (materialize_lease_expired opts st w cid now None))) k = bt_get (q_works st) k"
    and "q_lease_seq (fst (materialize_lease_expired opts st w cid now rej)) = q_lease_seq st"
  using works_ok_id [OF assms] assms
  by (auto simp: materialize_lease_expired_def Let_def split_beta btree works_ok_def split: option.splits)

lemma expire_loop_emits:
  assumes "works_ok (q_works st)" "all_works (\<lambda>w. is_expired w now) (q_works st) wids"
  shows "emits_log st (expire_loop opts st cid now wids) \<and>
         q_lease_seq (fst (expire_loop opts st cid now wids)) = q_lease_seq st"
  using assms
proof (induction wids arbitrary: st)
  case (Cons wid wids)
  then obtain w where w: "bt_get (q_works st) wid = Some w" "is_expired w now"
    using all_works_head by blast
  let ?m = "materialize_lease_expired opts st w (Some cid) now None"
  have m: "emits_log st ?m" using Cons.prems(1) w by (rule materialize_emits)
  then have "works_ok (q_works (fst ?m))"
    using Cons.prems(1) by (auto simp: emits_log_def intro: log_step_works_ok)
  moreover have "all_works (\<lambda>w. is_expired w now) (q_works (fst ?m)) wids"
    using all_works_tail [OF Cons.prems(2)] materialize_frame(1) [OF Cons.prems(1) w(1)] .
  ultimately have "emits_log (fst ?m) (expire_loop opts (fst ?m) cid now wids) \<and>
      q_lease_seq (fst (expire_loop opts (fst ?m) cid now wids)) = q_lease_seq (fst ?m)"
    by (rule Cons.IH)
  with m w materialize_frame(2) [OF Cons.prems(1) w(1)] show ?case
    by (auto simp: split_beta Let_def intro: emits_log_seq)
qed simp

lemma works_values:
  assumes "works_ok ws"
  shows "w \<in> set (bt_values ws) \<longleftrightarrow> bt_get ws (w_work_id w) = Some w"
    and "distinct (map w_work_id (bt_values ws))"
proof -
  have ok: "bt_ok ws" using assms by (simp add: works_ok_def)
  have ids: "w_work_id (snd kw) = fst kw" if "kw \<in> set ws" for kw
    using that bt_get_Some_iff [OF ok, of "fst kw" "snd kw"] works_ok_id [OF assms] by simp
  show "w \<in> set (bt_values ws) \<longleftrightarrow> bt_get ws (w_work_id w) = Some w"
  proof
    assume "w \<in> set (bt_values ws)"
    then obtain k where "(k, w) \<in> set ws" by auto
    then show "bt_get ws (w_work_id w) = Some w"
      using ids [of "(k, w)"] bt_get_Some_iff [OF ok, of k w] by simp
  next
    assume "bt_get ws (w_work_id w) = Some w"
    then show "w \<in> set (bt_values ws)" by (force dest: map_of_SomeD)
  qed
  have "map w_work_id (bt_values ws) = bt_keys ws" using ids by simp
  then show "distinct (map w_work_id (bt_values ws))" using bt_ok_distinct [OF ok] by (simp only:)
qed

lemma all_works_filter:
  assumes "works_ok ws" "\<And>w. Q w \<Longrightarrow> P w"
  shows "all_works P ws (map w_work_id (filter Q (bt_values ws)))"
  using works_values [OF assms(1)] assms(2)
  by (force simp: all_works_def intro: distinct_map_filter)

lemma all_works_take: "all_works P ws wids \<Longrightarrow> all_works P ws (take n wids)"
  by (auto simp: all_works_def dest: in_set_takeD)

text \<open>The lease ids a stretch of the log hands out, and those the counter makes next.\<close>

fun claimed_leases :: "'t work_queue_record list \<Rightarrow> string list" where
  "claimed_leases [] = []"
| "claimed_leases (WorkClaimed _ _ _ _ lid _ _ _ _ # rs) = lid # claimed_leases rs"
| "claimed_leases (_ # rs) = claimed_leases rs"

lemma claimed_leases_append [simp]: "claimed_leases (rs @ rs') = claimed_leases rs @ claimed_leases rs'"
  by (induction rs rule: claimed_leases.induct) simp_all

definition lease_key :: "tuple_key \<Rightarrow> string \<Rightarrow> u64 \<Rightarrow> string" where
  "lease_key tk wid n = compound_tuple_key tk ''work-queue-lease'' [wid, to_string n]"

definition next_leases :: "tuple_key \<Rightarrow> u64 \<Rightarrow> string list \<Rightarrow> string list" where
  "next_leases tk n wids = map (\<lambda>(wid, i). lease_key tk wid (n + of_nat (Suc i))) (zip wids [0..<length wids])"

lemma next_leases_Cons: "next_leases tk n (wid # wids) = lease_key tk wid (n + 1) # next_leases tk (n + 1) wids"
proof -
  have "zip (wid # wids) [0..<length (wid # wids)] = (wid, 0) # zip wids (map Suc [0..<length wids])"
    by (simp add: map_Suc_upt upt_conv_Cons del: upt_Suc)
  then show ?thesis
    by (simp add: next_leases_def zip_map2 comp_def split_beta add.assoc)
qed

lemma claim_loop_emits:
  assumes "works_ok (q_works st)" "all_works (\<lambda>w. is_ready w now) (q_works st) wids"
  shows "\<exists>res. claim_loop tk opts st cid worker expires now wids = Some res \<and> emits_log st res \<and>
    q_lease_seq (fst res) = q_lease_seq st + of_nat (length wids) \<and>
    claimed_leases (records_node (snd res)) = next_leases tk (q_lease_seq st) wids"
  using assms
proof (induction wids arbitrary: st)
  case Nil
  then show ?case by (simp add: next_leases_def)
next
  case (Cons wid wids)
  then obtain w where w: "bt_get (q_works st) wid = Some w" "is_ready w now"
    using all_works_head by blast
  have wid: "w_work_id w = wid" using works_ok_id [OF Cons.prems(1) w(1)] .
  let ?st = "st\<lparr>q_lease_seq := q_lease_seq st + 1\<rparr>"
  let ?r = "WorkClaimed 0 (ro_queue_id opts) wid cid (lease_key tk wid (q_lease_seq st + 1)) (w_attempt w + 1)
      worker now expires"
  let ?a = "append_record (?st\<lparr>q_works := apply_record ?r (q_works st)\<rparr>) ?r"
  have step: "log_step st [snd ?a] (fst ?a)"
    using append_record_step [of ?r ?st "apply_record ?r (q_works st)"] w by simp
  have "works_ok (q_works (fst ?a))" using log_step_works_ok [OF step Cons.prems(1)] .
  moreover have "all_works (\<lambda>w. is_ready w now) (q_works (fst ?a)) wids"
    using all_works_tail [OF Cons.prems(2)] apply_record_other [of _ ?r "q_works st"] by simp
  ultimately obtain res where res: "claim_loop tk opts (fst ?a) cid worker expires now wids = Some res"
      "emits_log (fst ?a) res" "q_lease_seq (fst res) = q_lease_seq (fst ?a) + of_nat (length wids)"
      "claimed_leases (records_node (snd res)) = next_leases tk (q_lease_seq (fst ?a)) wids"
    using Cons.IH by blast
  have lid: "claimed_leases [snd ?a] = [lease_key tk wid (q_lease_seq st + 1)]"
    by (simp add: append_record_def Let_def)
  have "claim_loop tk opts st cid worker expires now (wid # wids) =
      Some (fst res, accepted opts (snd ?a) (Some wid) (Some cid) now @ snd res)"
    using w wid res(1) by (simp add: Let_def split_beta lease_key_def)
  moreover have "emits_log st (fst res, accepted opts (snd ?a) (Some wid) (Some cid) now @ snd res)"
    using log_step_trans [OF step] res(2) by (simp add: emits_log_def)
  moreover have "claimed_leases (records_node (accepted opts (snd ?a) (Some wid) (Some cid) now @ snd res)) =
      next_leases tk (q_lease_seq st) (wid # wids)"
    using claimed_leases_append [of "[snd ?a]" "records_node (snd res)"] res(4) lid
    by (simp add: next_leases_Cons)
  ultimately show ?case using res(3) by (simp add: add.assoc)
qed

lemma distinct_by_length: "set xs = set ys \<Longrightarrow> length xs = length ys \<Longrightarrow> distinct ys \<Longrightarrow> distinct xs"
  by (metis card_distinct distinct_card)

lemma claim_candidates_ready:
  assumes "works_ok (q_works st)"
  shows "all_works (\<lambda>w. is_ready w now) (q_works st) (claim_candidates st requested now limit)"
proof -
  let ?ws = "filter (\<lambda>w. is_ready w now) (filter (\<lambda>w. requested = {} \<or> w_work_id w \<in> requested)
      (bt_values (q_works st)))"
  let ?l = "sort (map (\<lambda>w. (w_admission_seq w, w_work_id w)) ?ws)"
  have "all_works (\<lambda>w. is_ready w now) (q_works st) (map w_work_id ?ws)"
    unfolding filter_filter using assms by (intro all_works_filter) simp_all
  moreover have same: "set (map snd ?l) = set (map w_work_id ?ws)" by (simp add: image_image)
  moreover have "distinct (map w_work_id ?ws) \<Longrightarrow> distinct (map snd ?l)"
    by (rule distinct_by_length [OF same]) simp
  ultimately have "all_works (\<lambda>w. is_ready w now) (q_works st) (map snd ?l)"
    unfolding all_works_def by simp
  then show ?thesis
    unfolding claim_candidates_def take_map [symmetric] by (rule all_works_take)
qed

lemma claim_miss_loop_silent [simp]: "records_node (claim_miss_loop opts st cid claimed now wids) = []"
  by (induction wids) (auto simp: Let_def split: option.splits)

lemma claim_miss_events_silent [simp]: "records_node (claim_miss_events hi opts st cid req claimed now) = []"
  by (simp add: claim_miss_events_def)

definition claim_duration :: "runtime_options \<Rightarrow> u64 option \<Rightarrow> u64" where
  "claim_duration opts dur = (case dur of None \<Rightarrow> ro_lease_duration_ms opts | Some d \<Rightarrow> d)"

text \<open>What a claim does: expired leases are closed first, then the candidates are leased.\<close>

definition claim_expired :: "'t runtime_state \<Rightarrow> string set \<Rightarrow> u64 \<Rightarrow> string list" where
  "claim_expired st requested now =
     map w_work_id (filter (\<lambda>w. (requested = {} \<or> w_work_id w \<in> requested) \<and> is_expired w now)
       (bt_values (q_works st)))"

lemma claim_work_unfold:
  assumes "positive_limit (case limit of None \<Rightarrow> max (length wids) 1 | Some n \<Rightarrow> n) = Some n"
    and "expire_loop opts st cid now (claim_expired st (set wids) now) = (st1, evs1)"
    and "cands = claim_candidates st1 (set wids) now n"
  shows "claim_work tk hi opts st cid worker wids limit dur now =
      (if cands = [] then Some (st1, evs1 @ (if set wids = {}
           then reject_queue_command_by_id opts (Some cid) ''not-ready'' ''no ready work'' now
           else claim_miss_events hi opts st1 cid (set wids) {} now))
       else case checked_timestamp opts (Some cid) now (claim_duration opts dur) ''lease duration overflows timestamp'' of
              Inl evs \<Rightarrow> Some (st1, evs)
            | Inr e \<Rightarrow> do { (st, claims) \<leftarrow> claim_loop tk opts st1 cid worker e now cands;
                 Some (st, evs1 @ claims @ (if set wids = {} then []
                   else claim_miss_events hi opts st cid (set wids) (set cands) now)) })"
  unfolding assms(3)
  by (simp only: claim_work_def assms(1) Option.bind.simps Let_def claim_expired_def [symmetric] assms(2) prod.case
      claim_duration_def [symmetric])

lemma claim_work_sim:
  assumes ok: "works_ok (q_works st)" and limit: "limit \<noteq> Some 0"
  assumes st1_def: "st1 = fst (expire_loop opts st cid now (claim_expired st (set wids) now))"
    and evs1_def: "evs1 = snd (expire_loop opts st cid now (claim_expired st (set wids) now))"
    and cands_def: "cands = claim_candidates st1 (set wids) now
      (case limit of None \<Rightarrow> max (length wids) 1 | Some n \<Rightarrow> n)"
  shows "emits_log st (st1, evs1)" "q_lease_seq st1 = q_lease_seq st"
    and "checked_add now (claim_duration opts dur) = None \<Longrightarrow> cands \<noteq> [] \<Longrightarrow>
      \<exists>evs. claim_work tk hi opts st cid worker wids limit dur now = Some (st1, evs) \<and> records_node evs = []"
    and "checked_add now (claim_duration opts dur) = Some e \<or> cands = [] \<Longrightarrow>
      \<exists>res. claim_work tk hi opts st cid worker wids limit dur now = Some res \<and> emits_log st res \<and>
        q_lease_seq (fst res) = q_lease_seq st + of_nat (length cands) \<and>
        claimed_leases (records_node (snd res)) = claimed_leases (records_node evs1) @ next_leases tk (q_lease_seq st) cands"
proof -
  have "all_works (\<lambda>w. is_expired w now) (q_works st) (claim_expired st (set wids) now)"
    unfolding claim_expired_def using ok by (intro all_works_filter) simp_all
  from expire_loop_emits [OF ok this, of opts cid]
  show exp: "emits_log st (st1, evs1)" and lseq: "q_lease_seq st1 = q_lease_seq st"
    by (simp_all add: st1_def evs1_def emits_log_def)
  have ok1: "works_ok (q_works st1)"
    using exp ok by (auto simp: emits_log_def intro: log_step_works_ok)
  let ?n = "case limit of None \<Rightarrow> max (length wids) 1 | Some n \<Rightarrow> n"
  have n: "positive_limit ?n = Some ?n" using limit by (auto simp: positive_limit_def split: option.splits)
  have "expire_loop opts st cid now (claim_expired st (set wids) now) = (st1, evs1)"
    by (simp add: st1_def evs1_def)
  note unfold = claim_work_unfold [OF n this cands_def, of tk hi worker dur]
  show "\<exists>evs. claim_work tk hi opts st cid worker wids limit dur now = Some (st1, evs) \<and> records_node evs = []"
    if "checked_add now (claim_duration opts dur) = None" "cands \<noteq> []"
    using that by (simp add: unfold checked_timestamp_def)
  have cands: "all_works (\<lambda>w. is_ready w now) (q_works st1) cands"
    unfolding cands_def using ok1 by (rule claim_candidates_ready)
  show "\<exists>res. claim_work tk hi opts st cid worker wids limit dur now = Some res \<and> emits_log st res \<and>
        q_lease_seq (fst res) = q_lease_seq st + of_nat (length cands) \<and>
        claimed_leases (records_node (snd res)) = claimed_leases (records_node evs1) @ next_leases tk (q_lease_seq st) cands"
    if e: "checked_add now (claim_duration opts dur) = Some e \<or> cands = []"
  proof (cases "cands = []")
    case True
    with exp lseq show ?thesis by (simp add: unfold emits_log_def next_leases_def)
  next
    case False
    obtain res where res: "claim_loop tk opts st1 cid worker e now cands = Some res" "emits_log st1 res"
        "q_lease_seq (fst res) = q_lease_seq st1 + of_nat (length cands)"
        "claimed_leases (records_node (snd res)) = next_leases tk (q_lease_seq st1) cands"
      using claim_loop_emits [OF ok1 cands, of tk opts cid worker e] by blast
    have "emits_log st (fst res, evs1 @ snd res)"
      using emits_log_trans [OF exp, of "fst res" "snd res"] res(2) by simp
    with False e res lseq show ?thesis
      by (simp add: unfold checked_timestamp_def split_beta emits_log_def)
  qed
qed

subsection \<open>Every command\<close>

text \<open>Reducers other than the claim hand out no lease.\<close>

definition no_claim :: "'t runtime_state \<Rightarrow> 't runtime_state \<times> 't queue_event list \<Rightarrow> bool" where
  "no_claim st res \<longleftrightarrow> q_lease_seq (fst res) = q_lease_seq st \<and> claimed_leases (records_node (snd res)) = []"

lemma materialize_no_claim: "no_claim st (materialize_lease_expired opts st w cid now None)"
  by (simp add: no_claim_def materialize_lease_expired_def Let_def append_record_def split: option.splits)

lemma expire_loop_no_claim: "no_claim st (expire_loop opts st cid now wids)"
proof (induction wids arbitrary: st)
  case (Cons wid wids)
  show ?case
  proof (cases "bt_get (q_works st) wid")
    case (Some w)
    from Cons [of "fst (materialize_lease_expired opts st w (Some cid) now None)"]
      materialize_no_claim [of st opts w "Some cid" now] Some show ?thesis
      by (simp add: no_claim_def split_beta Let_def)
  qed (use Cons in simp)
qed (simp add: no_claim_def)

lemma current_lease_no_claim:
  "current_lease opts st chk = (st', Inl evs) \<Longrightarrow> no_claim st (st', evs)"
  using materialize_no_claim [of st opts _ "lc_command_id chk" "lc_now_ms chk"]
  by (auto simp: current_lease_def Let_def no_claim_def split_beta split: option.splits if_splits)

lemma current_lease_ok_same: "current_lease opts st chk = (st', Inr u) \<Longrightarrow> st' = st"
  by (auto simp: current_lease_def Let_def split_beta split: option.splits if_splits)

lemma lease_guard_no_claim:
  assumes "(case current_lease opts st chk of (st', Inl e) \<Rightarrow> Some (st', e) | (st', Inr _) \<Rightarrow> f st') = Some res"
    and "\<And>r. f st = Some r \<Longrightarrow> no_claim st r"
  shows "no_claim st res"
proof (cases "current_lease opts st chk")
  case (Pair st' r)
  show ?thesis
  proof (cases r)
    case (Inr u)
    with Pair have "st' = st" by (auto dest: current_lease_ok_same)
    with assms Pair Inr show ?thesis by simp
  qed (use assms(1) Pair in \<open>auto dest: current_lease_no_claim\<close>)
qed

lemma lease_ops_no_claim:
  "renew_lease opts st cid wid lid att worker dur expires now = Some res \<Longrightarrow> no_claim st res"
  "release_work opts st cid wid lid att worker reason now = Some res \<Longrightarrow> no_claim st res"
  "complete_work opts st cid wid lid att worker reason now = Some res \<Longrightarrow> no_claim st res"
  "fail_work opts st cid wid lid att worker err retryable now = Some res \<Longrightarrow> no_claim st res"
  unfolding renew_lease_def release_work_def complete_work_def fail_work_def
  by (erule lease_guard_no_claim;
      auto simp: Let_def append_record_def checked_timestamp_def no_claim_def fail_dead_letter_def
        fail_schedule_retry_def split: option.splits if_splits Option.bind_splits)+

lemma other_ops_no_claim:
  "no_claim st (cancel_work opts st cid wid reason now)"
  "no_claim st (schedule_work opts st cid wid sid nb dl reason now)"
  "no_claim st (admit_message tk opts st m now)"
  "expire_leases opts st cid wids limit now = Some res \<Longrightarrow> no_claim st res"
  using expire_loop_no_claim [of st opts cid now]
  by (auto simp: cancel_work_def schedule_work_def admit_message_def expire_leases_def Let_def append_record_def
      no_claim_def split_beta split: option.splits if_splits Option.bind_splits)

lemma expire_leases_emits [wq_sim]:
  assumes ok: "works_ok (q_works st)" and "limit \<noteq> Some 0"
  shows "\<exists>res. expire_leases opts st cid wids limit now = Some res \<and> emits_log st res"
proof -
  let ?n = "case limit of None \<Rightarrow> usize_max | Some n \<Rightarrow> n"
  let ?ws = "filter (\<lambda>w. set wids = {} \<or> w_work_id w \<in> set wids)
      (filter (\<lambda>w. is_expired w now) (bt_values (q_works st)))"
  have n: "positive_limit ?n = Some ?n"
    using assms(2) by (auto simp: positive_limit_def usize_max_def split: option.splits)
  have "all_works (\<lambda>w. is_expired w now) (q_works st) (map w_work_id ?ws)"
    unfolding filter_filter using ok by (intro all_works_filter) simp_all
  then have "all_works (\<lambda>w. is_expired w now) (q_works st) (map w_work_id (take ?n ?ws))"
    unfolding take_map [symmetric] by (rule all_works_take)
  from expire_loop_emits [OF ok this, of opts cid] show ?thesis
    unfolding expire_leases_def Let_def n by (simp add: split_beta emits_log_def)
qed

definition claim_overflows :: "runtime_options \<Rightarrow> 't work_queue_command \<Rightarrow> u64 \<Rightarrow> bool" where
  "claim_overflows opts c now =
     (case c of CmdClaim _ _ _ _ _ _ dur _ \<Rightarrow> checked_add now (claim_duration opts dur) = None | _ \<Rightarrow> False)"

text \<open>The leases handed out by a step are the next ones of the counter.\<close>

definition lease_step :: "tuple_key \<Rightarrow> 't runtime_state \<Rightarrow> 't work_queue_record list \<Rightarrow> 't runtime_state \<Rightarrow> bool" where
  "lease_step tk st rs st' \<longleftrightarrow>
     (\<exists>wids. claimed_leases rs = next_leases tk (q_lease_seq st) wids \<and>
        q_lease_seq st' = q_lease_seq st + of_nat (length wids))"

lemma no_claim_lease_step: "no_claim st res \<Longrightarrow> lease_step tk st (records_node (snd res)) (fst res)"
  by (auto simp: no_claim_def lease_step_def next_leases_def intro!: exI [of _ "[]"])

lemma claim_work_step:
  assumes ok: "works_ok (q_works st)" and limit: "limit \<noteq> Some 0"
  shows "\<exists>res rs. claim_work tk hi opts st cid worker wids limit dur now = Some res \<and>
    log_step st rs (fst res) \<and> lease_step tk st rs (fst res) \<and>
    (checked_add now (claim_duration opts dur) \<noteq> None \<longrightarrow> records_node (snd res) = rs)"
proof -
  let ?x = "expire_loop opts st cid now (claim_expired st (set wids) now)"
  let ?c = "claim_candidates (fst ?x) (set wids) now (case limit of None \<Rightarrow> max (length wids) 1 | Some n \<Rightarrow> n)"
  note sim = claim_work_sim [OF ok limit refl refl refl, where opts = opts and cid = cid and now = now and wids = wids]
  have quiet: "no_claim st ?x" by (rule expire_loop_no_claim)
  show ?thesis
  proof (cases "checked_add now (claim_duration opts dur) = None \<and> ?c \<noteq> []")
    case True
    with sim(3) obtain evs where "claim_work tk hi opts st cid worker wids limit dur now = Some (fst ?x, evs)"
      by blast
    moreover have "log_step st (records_node (snd ?x)) (fst ?x)" using sim(1) by (simp add: emits_log_def)
    ultimately show ?thesis using True no_claim_lease_step [OF quiet, of tk] by auto
  next
    case False
    then obtain e where "checked_add now (claim_duration opts dur) = Some e \<or> ?c = []"
      by (cases "checked_add now (claim_duration opts dur)") auto
    from sim(4) [OF this] obtain res where res: "claim_work tk hi opts st cid worker wids limit dur now = Some res"
        "emits_log st res" "q_lease_seq (fst res) = q_lease_seq st + of_nat (length ?c)"
        "claimed_leases (records_node (snd res)) = claimed_leases (records_node (snd ?x)) @ next_leases tk (q_lease_seq st) ?c"
      by blast
    then have "lease_step tk st (records_node (snd res)) (fst res)"
      using quiet by (auto simp: lease_step_def no_claim_def)
    with res show ?thesis by (auto simp: emits_log_def)
  qed
qed

lemma apply_queue_command_step:
  assumes ok: "works_ok (q_works st)" and valid: "validate_queue_command qid c = None"
  shows "\<exists>res rs. apply_queue_command tk hi opts st c now = Some res \<and>
    log_step st rs (fst res) \<and> lease_step tk st rs (fst res) \<and>
    (\<not> claim_overflows opts c now \<longrightarrow> records_node (snd res) = rs)"
proof -
  have quiet: ?thesis if "apply_queue_command tk hi opts st c now = Some res" "emits_log st res" "no_claim st res" for res
    using that no_claim_lease_step [OF that(3), of tk] by (auto simp: emits_log_def)
  show ?thesis
  proof (cases c)
    case (CmdClaim cid q ik worker wids limit dur n)
    then have "limit \<noteq> Some 0" using valid by (auto simp: validate_queue_command_def split: if_splits)
    from claim_work_step [OF ok this, of tk hi opts cid worker wids dur now] CmdClaim show ?thesis
      by (auto simp: claim_overflows_def)
  next
    case (CmdExpireLeases cid q ik wids limit n)
    then have "limit \<noteq> Some 0" using valid by (auto simp: validate_queue_command_def split: if_splits)
    from expire_leases_emits [OF ok this] CmdExpireLeases show ?thesis
      by (metis quiet apply_queue_command.simps(9) other_ops_no_claim(4))
  next
    case (CmdSubmit p cid q ik)
    then show ?thesis by (auto simp: lease_step_def next_leases_def intro!: exI [of _ "[]"])
  next
    case (CmdCancel cid q ik wid reason n)
    with cancel_work_emits show ?thesis by (metis quiet apply_queue_command.simps(7) other_ops_no_claim(1))
  next
    case (CmdSchedule cid q ik wid sid nb dl reason n)
    with schedule_work_emits show ?thesis by (metis quiet apply_queue_command.simps(8) other_ops_no_claim(2))
  next
    case (CmdRenewLease cid q ik wid lid att worker dur expires n)
    with renew_lease_emits [OF ok] show ?thesis by (metis quiet apply_queue_command.simps(3) lease_ops_no_claim(1))
  next
    case (CmdRelease cid q ik wid lid att worker reason n)
    with release_work_emits [OF ok] show ?thesis by (metis quiet apply_queue_command.simps(4) lease_ops_no_claim(2))
  next
    case (CmdComplete cid q ik wid lid att worker result n)
    with complete_work_emits [OF ok] show ?thesis by (metis quiet apply_queue_command.simps(5) lease_ops_no_claim(3))
  next
    case (CmdFail cid q ik wid lid att worker err retryable n)
    with fail_work_emits [OF ok] show ?thesis by (metis quiet apply_queue_command.simps(6) lease_ops_no_claim(4))
  qed
qed

lemma remember_command_frame [simp]:
  "q_works (remember_command st c) = q_works st" "q_lease_seq (remember_command st c) = q_lease_seq st"
  "q_records (remember_command st c) = q_records st" "q_source_seqs (remember_command st c) = q_source_seqs st"
  by (simp_all add: remember_command_def)

lemma lease_step_refl [simp]: "lease_step tk st [] st"
  by (auto simp: lease_step_def next_leases_def intro!: exI [of _ "[]"])

lemma reduce_queue_command_step:
  assumes "works_ok (q_works st)"
  shows "\<exists>res rs. reduce_queue_command tk hi opts st c now = Some res \<and>
    log_step st rs (fst res) \<and> lease_step tk st rs (fst res) \<and>
    (\<not> claim_overflows opts c now \<longrightarrow> records_node (snd res) = rs)"
proof (cases "validate_queue_command (ro_queue_id opts) c")
  case None
  have rejected: "\<exists>rs. log_step st rs st \<and> lease_step tk st rs st \<and>
      (\<not> claim_overflows opts c now \<longrightarrow> [] = rs)"
    by (intro exI [of _ "[]"]) simp
  have "works_ok (q_works (remember_command st c))" using assms by simp
  from apply_queue_command_step [OF this None, of tk hi opts now]
  have "\<exists>res rs. apply_queue_command tk hi opts (remember_command st c) c now = Some res \<and>
      log_step st rs (fst res) \<and> lease_step tk st rs (fst res) \<and>
      (\<not> claim_overflows opts c now \<longrightarrow> records_node (snd res) = rs)"
    by (simp add: lease_step_def)
  with None rejected show ?thesis by (auto simp: reduce_queue_command_def split: option.splits)
next
  case (Some e)
  then show ?thesis
    by (auto simp: reduce_queue_command_def split_beta intro!: exI [of _ "[]"])
qed

section \<open>Reachable queues\<close>

text \<open>A queue admits messages and reduces commands, in any order and at any times.\<close>

inductive queue_reach ::
  "tuple_key \<Rightarrow> (string set \<Rightarrow> string list) \<Rightarrow> runtime_options \<Rightarrow> 't runtime_state \<Rightarrow> bool" for tk hi opts where
  queue_init: "queue_reach tk hi opts runtime_state_default"
| queue_admit: "queue_reach tk hi opts st \<Longrightarrow> queue_reach tk hi opts (fst (admit_message tk opts st m now))"
| queue_command: "queue_reach tk hi opts st \<Longrightarrow> reduce_queue_command tk hi opts st c now = Some (st', evs) \<Longrightarrow>
    queue_reach tk hi opts st'"

lemma next_leases_append:
  "next_leases tk n (wids @ wids') = next_leases tk n wids @ next_leases tk (n + of_nat (length wids)) wids'"
  by (induction wids arbitrary: n) (simp_all add: next_leases_Cons add.assoc, simp add: next_leases_def)

lemma lease_step_trans: "lease_step tk st rs st' \<Longrightarrow> lease_step tk st' rs' st'' \<Longrightarrow> lease_step tk st (rs @ rs') st''"
proof -
  assume "lease_step tk st rs st'" "lease_step tk st' rs' st''"
  then obtain wids wids' where
    "claimed_leases rs = next_leases tk (q_lease_seq st) wids" "q_lease_seq st' = q_lease_seq st + of_nat (length wids)"
    "claimed_leases rs' = next_leases tk (q_lease_seq st') wids'" "q_lease_seq st'' = q_lease_seq st' + of_nat (length wids')"
    by (auto simp: lease_step_def)
  then have "claimed_leases (rs @ rs') = next_leases tk (q_lease_seq st) (wids @ wids') \<and>
      q_lease_seq st'' = q_lease_seq st + of_nat (length (wids @ wids'))"
    by (simp add: next_leases_append add.assoc)
  then show ?thesis unfolding lease_step_def by blast
qed

lemma runtime_state_default_frame [simp]:
  "q_records runtime_state_default = []" "q_works runtime_state_default = []"
  "q_lease_seq runtime_state_default = 0" "q_record_seq runtime_state_default = 0"
  by (simp_all add: runtime_state_default_def)

definition queue_inv :: "tuple_key \<Rightarrow> 't runtime_state \<Rightarrow> bool" where
  "queue_inv tk st \<longleftrightarrow> log_step runtime_state_default (q_records st) st \<and>
     lease_step tk runtime_state_default (q_records st) st"

lemma queue_inv_works_ok: "queue_inv tk st \<Longrightarrow> works_ok (q_works st)"
  unfolding queue_inv_def by (elim conjE, erule log_step_works_ok) (simp add: runtime_state_default_def)

lemma queue_inv_step:
  assumes "queue_inv tk st" "log_step st rs st'" "lease_step tk st rs st'"
  shows "queue_inv tk st'"
proof -
  have "q_records st' = q_records st @ rs" using assms(2) by (simp add: log_step_def)
  with assms show ?thesis by (auto simp: queue_inv_def intro: log_step_trans lease_step_trans)
qed

lemma queue_reach_inv: "queue_reach tk hi opts st \<Longrightarrow> queue_inv tk st"
proof (induction rule: queue_reach.induct)
  case queue_init
  show ?case by (simp add: queue_inv_def)
next
  case (queue_admit st m now)
  have "emits_log st (admit_message tk opts st m now)" by (rule admit_message_emits)
  moreover have "no_claim st (admit_message tk opts st m now)" by (rule other_ops_no_claim)
  ultimately show ?case
    using queue_admit queue_inv_step no_claim_lease_step by (metis emits_log_def)
next
  case (queue_command st c now st' evs)
  from reduce_queue_command_step [OF queue_inv_works_ok [OF queue_command.IH], of tk hi opts c now] queue_command
  show ?case by (auto intro: queue_inv_step)
qed

section \<open>Properties\<close>

text \<open>
  C5. The record log is the truth of the queue (event sourcing). In every reachable state the
  works table is the replay of the record log; each record was legal when it was written (only a
  ready work is claimed, only the holder of the current unexpired lease renews, releases,
  completes or fails, expiry needs an expired lease, nothing touches a terminal work);
  record numbers are consecutive from 1; and the dead-letter list is the dead letters of the log.
\<close>

theorem works_are_replay_of_log:
  assumes "queue_reach tk hi opts st"
  shows "q_works st = replay (q_records st) [] \<and> legal_log [] (q_records st) \<and>
    q_record_seq st = of_nat (length (q_records st)) \<and>
    map record_seq (q_records st) = map (\<lambda>i. of_nat (Suc i)) [0..<length (q_records st)] \<and>
    q_dead_letters st = filter is_dead_letter (q_records st)"
proof -
  have "log_step runtime_state_default (q_records st) st"
    using queue_reach_inv [OF assms] by (simp add: queue_inv_def)
  then have inv: "q_works st = replay (q_records st) []" "legal_log [] (q_records st)"
      "q_record_seq st = of_nat (length (q_records st))" "numbered_from 0 (q_records st)"
      "q_dead_letters st = filter is_dead_letter (q_records st)"
    by (simp_all add: log_step_def runtime_state_default_def)
  have "map record_seq (q_records st) = map (\<lambda>i. of_nat (Suc i)) [0..<length (q_records st)]"
    using numbered_from_nth [OF inv(4)] by (intro nth_equalityI) simp_all
  with inv show ?thesis by simp
qed

text \<open>A small queue for the witnesses: one work, admitted at time 5 and claimed at time 10.\<close>

definition demo_options :: runtime_options where
  "demo_options = \<lparr>ro_queue_id = ''q'', ro_subscription_id = ''s'', ro_lease_duration_ms = 100,
     ro_retry = \<lparr>max_attempts = 2, backoff = Constant 20\<rparr>\<rparr>"

definition demo_message :: "u64 \<Rightarrow> nat \<Rightarrow> nat work_queue_submit message_envelope" where
  "demo_message n v = \<lparr>me_topic = ''t'', me_seq = n,
     me_payload = \<lparr>su_payload = v, su_work_id = Some ''w'', su_priority = None, su_tags = [],
       su_requirements = [], su_not_before_ms = None, su_deadline_ms = None\<rparr>,
     me_key = None, me_timestamp_ms = 0, me_command_id = None, me_idempotency_key = None\<rparr>"

definition demo_queue1 :: "nat runtime_state" where
  "demo_queue1 = fst (admit_message esc_tuple demo_options runtime_state_default (demo_message 1 7) 5)"

definition demo_claim :: "nat work_queue_command" where
  "demo_claim = CmdClaim ''c1'' None None ''bob'' [] None None (Some 10)"

definition demo_queue2 :: "nat runtime_state" where
  "demo_queue2 = fst (the (reduce_queue_command esc_tuple sorted_list_of_set demo_options demo_queue1 demo_claim 10))"

definition demo_complete :: "nat work_queue_command" where
  "demo_complete = CmdComplete ''c2'' None None ''w'' (lease_key esc_tuple ''w'' 1) 1 ''bob'' None (Some 20)"

definition demo_queue3 :: "nat runtime_state" where
  "demo_queue3 = fst (the (reduce_queue_command esc_tuple sorted_list_of_set demo_options demo_queue2 demo_complete 20))"

definition demo_work :: "nat work_state" where
  "demo_work = \<lparr>w_work_id = ''w'', w_payload = 7, w_state = Ready, w_admission_seq = 1, w_priority = None,
     w_tags = [], w_requirements = [], w_not_before_ms = None, w_retry_at_ms = None, w_deadline_ms = None,
     w_attempt = 0, w_lease_id = None, w_worker_id = None, w_lease_expires_at_ms = None\<rparr>"

definition demo_admitted :: "nat work_queue_record" where
  "demo_admitted = WorkAdmitted 1 ''q'' ''w'' 7 \<lparr>mr_topic = ''t'', mr_seq = 1, mr_subscription_id = ''s''\<rparr>
     None [] [] None None 5"

lemma demo_queue1_eq: "demo_queue1 = \<lparr>q_record_seq = 1, q_lease_seq = 0, q_works = [(''w'', demo_work)],
   q_source_seqs = {esc_tuple [''t'', to_string (1 :: u64)]}, q_command_ids = {}, q_idempotency_keys = {},
   q_records = [demo_admitted], q_dead_letters = []\<rparr>"
  by (simp add: demo_queue1_def admit_message_def demo_message_def runtime_state_default_def demo_options_def
      append_record_def demo_work_def demo_admitted_def Let_def)

definition demo_claimed :: "nat work_queue_record" where
  "demo_claimed = WorkClaimed 2 ''q'' ''w'' ''c1'' (lease_key esc_tuple ''w'' 1) 1 ''bob'' 10 110"

definition demo_leased :: "nat work_state" where
  "demo_leased = demo_work\<lparr>w_state := Leased, w_attempt := 1, w_lease_id := Some (lease_key esc_tuple ''w'' 1),
     w_worker_id := Some ''bob'', w_lease_expires_at_ms := Some 110\<rparr>"

lemmas demo_queue_defs = reduce_queue_command_def validate_queue_command_def remember_command_def
  positive_limit_def is_expired_def is_ready_def claim_candidates_def checked_timestamp_def checked_add_def
  append_record_def is_terminal_def current_lease_def clear_lease_def demo_options_def Let_def
  word_le_nat_alt word_less_nat_alt

lemma demo_claim_eq: "\<exists>evs. reduce_queue_command esc_tuple sorted_list_of_set demo_options demo_queue1 demo_claim 10 =
   Some (demo_queue1\<lparr>q_record_seq := 2, q_lease_seq := 1, q_works := [(''w'', demo_leased)],
     q_command_ids := {''c1''}, q_records := [demo_admitted, demo_claimed]\<rparr>, evs) \<and> records_node evs = [demo_claimed]"
  by (simp add: demo_claim_def demo_queue1_eq claim_work_def demo_work_def demo_leased_def demo_claimed_def
      lease_key_def demo_queue_defs)

lemma demo_queue2_eq: "demo_queue2 = demo_queue1\<lparr>q_record_seq := 2, q_lease_seq := 1,
   q_works := [(''w'', demo_leased)], q_command_ids := {''c1''}, q_records := [demo_admitted, demo_claimed]\<rparr>"
  using demo_claim_eq unfolding demo_queue2_def by auto

definition demo_done :: "nat work_queue_record list" where
  "demo_done = [AttemptCompleted 3 ''q'' ''w'' ''c2'' (lease_key esc_tuple ''w'' 1) 1 ''bob'' None 20,
     WorkCompleted 4 ''q'' ''w'' ''c2'' (lease_key esc_tuple ''w'' 1) 1 ''bob'' None 20]"

lemma lease_key_nonempty [simp]: "lease_key tk wid n \<noteq> []"
  by (simp add: lease_key_def compound_tuple_key_def)

lemma demo_complete_eq: "\<exists>evs. reduce_queue_command esc_tuple sorted_list_of_set demo_options demo_queue2 demo_complete 20 =
   Some (demo_queue2\<lparr>q_record_seq := 4, q_works := [(''w'', clear_lease (demo_leased\<lparr>w_state := Completed\<rparr>))],
     q_command_ids := {''c1'', ''c2''}, q_records := [demo_admitted, demo_claimed] @ demo_done\<rparr>, evs) \<and>
   records_node evs = demo_done"
  by (auto simp: demo_complete_def demo_queue2_eq demo_queue1_eq complete_work_def demo_leased_def demo_work_def
      demo_done_def demo_queue_defs)

lemma demo_reach1: "queue_reach esc_tuple sorted_list_of_set demo_options demo_queue1"
  unfolding demo_queue1_def by (intro queue_admit queue_init)

lemma demo_reach2: "queue_reach esc_tuple sorted_list_of_set demo_options demo_queue2"
proof -
  obtain st evs where "reduce_queue_command esc_tuple sorted_list_of_set demo_options demo_queue1 demo_claim 10 = Some (st, evs)"
    using demo_claim_eq by blast
  from queue_command [OF demo_reach1 this] this show ?thesis by (simp add: demo_queue2_def)
qed

lemma demo_reach3: "queue_reach esc_tuple sorted_list_of_set demo_options demo_queue3"
proof -
  obtain st evs where "reduce_queue_command esc_tuple sorted_list_of_set demo_options demo_queue2 demo_complete 20 = Some (st, evs)"
    using demo_complete_eq by blast
  from queue_command [OF demo_reach2 this] this show ?thesis by (simp add: demo_queue3_def)
qed

lemma demo_queue3_records: "q_records demo_queue3 = [demo_admitted, demo_claimed] @ demo_done"
  using demo_complete_eq unfolding demo_queue3_def by auto

theorem works_are_replay_of_log_witness:
  "q_works demo_queue3 = replay ([demo_admitted, demo_claimed] @ demo_done) [] \<and>
   map record_seq (q_records demo_queue3) = [1, 2, 3, 4]"
  using works_are_replay_of_log [OF demo_reach3] by (simp add: demo_queue3_records demo_done_def)

subsection \<open>Outcomes and leases\<close>

fun is_outcome :: "'t work_queue_record \<Rightarrow> bool" where
  "is_outcome (WorkCompleted _ _ _ _ _ _ _ _ _) = True"
| "is_outcome (WorkDeadLettered _ _ _ _ _ _ _) = True"
| "is_outcome (WorkCanceled _ _ _ _ _ _ _ _) = True"
| "is_outcome _ = False"

lemma outcome_terminal:
  assumes "legal_record r ws" "is_outcome r"
  shows "\<exists>w. bt_get (apply_record r ws) (record_work_id r) = Some w \<and> is_terminal (w_state w)"
  using assms by (cases r) (auto simp: btree is_terminal_def)

fun is_deduped :: "'t work_queue_record \<Rightarrow> bool" where
  "is_deduped (AdmissionDeduped _ _ _ _ _ _ _) = True"
| "is_deduped _ = False"

lemma legal_admission_deduped:
  "legal_record r ws \<Longrightarrow> bt_get ws (record_work_id r) \<noteq> None \<Longrightarrow> admission_message_bus r \<noteq> None \<Longrightarrow> is_deduped r"
  by (cases r) auto

lemma legal_log_terminal_deduped:
  "legal_log ws rs \<Longrightarrow> bt_get ws k = Some w \<Longrightarrow> is_terminal (w_state w) \<Longrightarrow> r \<in> set rs \<Longrightarrow> record_work_id r = k \<Longrightarrow>
     is_deduped r"
proof (induction rs arbitrary: ws)
  case (Cons r0 rs)
  have legal: "legal_record r0 ws" and rest: "legal_log (apply_record r0 ws) rs" using Cons.prems(1) by simp_all
  note later = legal_record_terminal(1) [OF legal Cons.prems(2,3)]
  show ?case
  proof (cases "r = r0")
    case True
    with legal_record_terminal(2) [OF legal Cons.prems(2,3)] Cons.prems(2,5) legal show ?thesis
      by (auto intro: legal_admission_deduped)
  next
    case False
    with Cons.prems(4) have "r \<in> set rs" by simp
    with Cons.IH [OF rest later Cons.prems(3)] Cons.prems(5) show ?thesis by simp
  qed
qed simp

lemma outcome_is_last:
  assumes legal: "legal_log ws (pre @ r # post)" and r: "is_outcome r" and r': "r' \<in> set post"
    and same: "record_work_id r' = record_work_id r"
  shows "is_deduped r'"
proof -
  let ?ws = "replay pre ws"
  have "legal_record r ?ws" and rest: "legal_log (apply_record r ?ws) post" using legal by simp_all
  with r obtain w where "bt_get (apply_record r ?ws) (record_work_id r) = Some w" "is_terminal (w_state w)"
    using outcome_terminal by blast
  from legal_log_terminal_deduped [OF rest this] r' same show ?thesis by blast
qed

text \<open>
  C8. A work has at most one outcome. In the log of any reachable queue, once a record completes,
  dead-letters or cancels a work, no later record mentions that work, except admissions of
  duplicate messages: it is never claimed, completed, retried, dead-lettered or canceled again.
\<close>

theorem outcome_at_most_once:
  assumes "queue_reach tk hi opts st" "q_records st = pre @ r # post" "is_outcome r"
    "r' \<in> set post" "record_work_id r' = record_work_id r"
  shows "is_deduped r'"
proof -
  have "legal_log [] (pre @ r # post)"
    using queue_reach_inv [OF assms(1)] assms(2) by (simp add: queue_inv_def log_step_def)
  with assms(3-5) show ?thesis by (intro outcome_is_last)
qed

definition demo_queue4 :: "nat runtime_state" where
  "demo_queue4 = fst (admit_message esc_tuple demo_options demo_queue3 (demo_message 2 8) 30)"

lemma demo_queue3_eq: "demo_queue3 = demo_queue2\<lparr>q_record_seq := 4,
   q_works := [(''w'', clear_lease (demo_leased\<lparr>w_state := Completed\<rparr>))],
   q_command_ids := {''c1'', ''c2''}, q_records := [demo_admitted, demo_claimed] @ demo_done\<rparr>"
  using demo_complete_eq unfolding demo_queue3_def by auto

lemma demo_queue4_records: "q_records demo_queue4 = [demo_admitted, demo_claimed] @ demo_done @
   [AdmissionDeduped 5 ''q'' ''w'' \<lparr>mr_topic = ''t'', mr_seq = 2, mr_subscription_id = ''s''\<rparr> ''duplicate-work'' ''w'' 30]"
proof -
  have "to_string (2 :: u64) \<noteq> to_string (1 :: u64)" by (simp only: to_string_inj) simp
  then have "esc_tuple [''t'', to_string (2 :: u64)] \<noteq> esc_tuple [''t'', to_string (1 :: u64)]"
    using esc_tuple_inj by blast
  then show ?thesis
    by (simp add: demo_queue4_def demo_queue3_eq demo_queue2_eq demo_queue1_eq admit_message_def demo_message_def
        append_record_def demo_options_def Let_def)
qed

theorem outcome_at_most_once_witness:
  "is_outcome (demo_done ! 1) \<and> is_deduped (q_records demo_queue4 ! 4)"
proof -
  have reach: "queue_reach esc_tuple sorted_list_of_set demo_options demo_queue4"
    unfolding demo_queue4_def by (intro queue_admit demo_reach3)
  show ?thesis
    using outcome_at_most_once [OF reach, of "[demo_admitted, demo_claimed, demo_done ! 0]" "demo_done ! 1"
        "[q_records demo_queue4 ! 4]" "q_records demo_queue4 ! 4"]
    by (simp add: demo_queue4_records demo_done_def)
qed

text \<open>A lease is kept by renewals, by the attempt records and by duplicate admissions only.\<close>

fun keeps_lease :: "'t work_queue_record \<Rightarrow> bool" where
  "keeps_lease (LeaseRenewed _ _ _ _ _ _ _ _ _ _) = True"
| "keeps_lease (AttemptCompleted _ _ _ _ _ _ _ _ _) = True"
| "keeps_lease (AttemptFailed _ _ _ _ _ _ _ _ _ _) = True"
| "keeps_lease (AdmissionDeduped _ _ _ _ _ _ _) = True"
| "keeps_lease _ = False"

definition claimed_by :: "string \<Rightarrow> string \<Rightarrow> u32 \<Rightarrow> string \<Rightarrow> 't work_queue_record \<Rightarrow> bool" where
  "claimed_by wid lid att worker r \<longleftrightarrow> (\<exists>n q c at ex. r = WorkClaimed n q wid c lid att worker at ex)"

text \<open>The last claim of a work, with nothing since that ended the lease.\<close>

definition lease_origin ::
  "string \<Rightarrow> string \<Rightarrow> u32 \<Rightarrow> string \<Rightarrow> 't work_queue_record list \<Rightarrow> bool" where
  "lease_origin wid lid att worker rs \<longleftrightarrow>
     (\<exists>pre r post. rs = pre @ r # post \<and> claimed_by wid lid att worker r \<and>
        (\<forall>r' \<in> set post. record_work_id r' = wid \<longrightarrow> keeps_lease r'))"

lemma lease_origin_snoc:
  "lease_origin wid lid att worker rs \<Longrightarrow> record_work_id r = wid \<longrightarrow> keeps_lease r \<Longrightarrow>
     lease_origin wid lid att worker (rs @ [r])"
proof -
  assume "lease_origin wid lid att worker rs" and r: "record_work_id r = wid \<longrightarrow> keeps_lease r"
  then obtain pre c post where "rs @ [r] = pre @ c # (post @ [r])" "claimed_by wid lid att worker c"
      "\<forall>r' \<in> set post. record_work_id r' = wid \<longrightarrow> keeps_lease r'"
    by (auto simp: lease_origin_def)
  with r show ?thesis
    unfolding lease_origin_def
    by (intro exI [of _ pre] exI [of _ c] exI [of _ "post @ [r]"]) auto
qed

lemma keeps_lease_work:
  assumes "legal_record r ws" "keeps_lease r" "bt_get (apply_record r ws) (record_work_id r) = Some w'"
  shows "\<exists>w. bt_get ws (record_work_id r) = Some w \<and> w_state w' = w_state w \<and> w_lease_id w' = w_lease_id w \<and>
    w_attempt w' = w_attempt w \<and> w_worker_id w' = w_worker_id w"
  using assms by (cases r) (auto simp: btree)

lemma new_lease_claimed:
  assumes "legal_record r ws" "\<not> keeps_lease r" "bt_get (apply_record r ws) (record_work_id r) = Some w"
    "w_state w = Leased" "w_lease_id w = Some lid" "w_worker_id w = Some worker"
  shows "claimed_by (record_work_id r) lid (w_attempt w) worker r"
  using assms by (cases r) (auto simp: btree claimed_by_def split: if_splits option.splits)

lemma leased_has_origin:
  assumes "legal_log [] rs" "bt_get (replay rs []) wid = Some w" "w_state w = Leased"
    "w_lease_id w = Some lid" "w_worker_id w = Some worker"
  shows "lease_origin wid lid (w_attempt w) worker rs"
  using assms
proof (induction rs arbitrary: w rule: rev_induct)
  case (snoc r rs)
  let ?ws = "replay rs []"
  have legal: "legal_log [] rs" "legal_record r ?ws" using snoc.prems(1) by simp_all
  have w: "bt_get (apply_record r ?ws) wid = Some w" using snoc.prems(2) by simp
  show ?case
  proof (cases "record_work_id r = wid")
    case False
    with w have "bt_get ?ws wid = Some w" using apply_record_other by metis
    with snoc.IH [OF legal(1)] snoc.prems(3-5) False show ?thesis by (intro lease_origin_snoc) auto
  next
    case True
    show ?thesis
    proof (cases "keeps_lease r")
      case keep: True
      with keeps_lease_work [OF legal(2)] True w obtain v where
        "bt_get ?ws wid = Some v" "w_state w = w_state v" "w_lease_id w = w_lease_id v"
        "w_attempt w = w_attempt v" "w_worker_id w = w_worker_id v" by blast
      with snoc.IH [OF legal(1)] snoc.prems(3-5) keep show ?thesis by (intro lease_origin_snoc) auto
    next
      case False
      with new_lease_claimed [OF legal(2)] True w snoc.prems(3-5)
      have "claimed_by wid lid (w_attempt w) worker r" by blast
      then show ?thesis unfolding lease_origin_def by (intro exI [of _ rs] exI [of _ r] exI [of _ "[]"]) simp
    qed
  qed
qed simp

text \<open>The lease a record was written under.\<close>

fun lease_of_record :: "'t work_queue_record \<Rightarrow> (string \<times> string \<times> u32 \<times> string) option" where
  "lease_of_record (LeaseRenewed _ _ wid _ lid att worker _ _ _) = Some (wid, lid, att, worker)"
| "lease_of_record (WorkReleased _ _ wid _ lid att worker _ _) = Some (wid, lid, att, worker)"
| "lease_of_record (LeaseExpired _ _ wid _ lid att worker _ _) = Some (wid, lid, att, worker)"
| "lease_of_record (AttemptCompleted _ _ wid _ lid att worker _ _) = Some (wid, lid, att, worker)"
| "lease_of_record (WorkCompleted _ _ wid _ lid att worker _ _) = Some (wid, lid, att, worker)"
| "lease_of_record (AttemptFailed _ _ wid _ lid att worker _ _ _) = Some (wid, lid, att, worker)"
| "lease_of_record _ = None"

lemma lease_record_held:
  assumes "legal_record r ws" "lease_of_record r = Some (wid, lid, att, worker)"
  shows "\<exists>w. bt_get ws wid = Some w \<and> w_state w = Leased \<and> w_lease_id w = Some lid \<and> w_attempt w = att \<and>
    w_worker_id w = Some worker"
  using assms by (cases r) (auto simp: holds_lease_def)

text \<open>
  C7. Leases fence workers. In the log of a reachable queue, every renewal, release, expiry,
  completion and failure was written under the lease of the most recent claim of that work: the
  claim carries the same lease id, attempt and worker, and nothing between the two ended the
  lease, so a worker whose lease was released, expired, or superseded can settle nothing.
\<close>

theorem lease_fencing:
  assumes "queue_reach tk hi opts st" "q_records st = pre @ r # post"
    "lease_of_record r = Some (wid, lid, att, worker)"
  shows "lease_origin wid lid att worker pre"
proof -
  have "legal_log [] (pre @ r # post)"
    using queue_reach_inv [OF assms(1)] assms(2) by (simp add: queue_inv_def log_step_def)
  then have legal: "legal_log [] pre" "legal_record r (replay pre [])" by simp_all
  from lease_record_held [OF legal(2) assms(3)] obtain w where
    "bt_get (replay pre []) wid = Some w" "w_state w = Leased" "w_lease_id w = Some lid" "w_attempt w = att"
    "w_worker_id w = Some worker" by blast
  with leased_has_origin [OF legal(1)] show ?thesis by blast
qed

theorem lease_fencing_witness:
  "lease_origin ''w'' (lease_key esc_tuple ''w'' 1) 1 ''bob'' [demo_admitted, demo_claimed]"
  using lease_fencing [OF demo_reach3, of "[demo_admitted, demo_claimed]" "demo_done ! 0" "[demo_done ! 1]"
      "''w''" "lease_key esc_tuple ''w'' 1" 1 "''bob''"]
  by (simp add: demo_queue3_records demo_done_def)

lemma lease_key_inj:
  "tuple_key_inj tk \<Longrightarrow> lease_key tk w n = lease_key tk w' n' \<longleftrightarrow> w = w' \<and> n = n'"
  by (auto simp: lease_key_def compound_tuple_key_def tuple_key_inj_def dest!: spec)

lemma next_leases_distinct:
  assumes "tuple_key_inj tk" "length wids < 2 ^ 64"
  shows "distinct (next_leases tk n wids)"
proof -
  have "(of_nat (Suc i) :: u64) = of_nat (Suc j) \<longleftrightarrow> i = j" if "i < length wids" "j < length wids" for i j
  proof
    assume "(of_nat (Suc i) :: u64) = of_nat (Suc j)"
    then have "(of_nat i :: u64) = of_nat j" by simp
    then have "unat (of_nat i :: u64) = unat (of_nat j :: u64)" by simp
    moreover have "unat (of_nat i :: u64) = i" "unat (of_nat j :: u64) = j"
      using that assms(2) by (intro unat_of_nat_small; simp)+
    ultimately show "i = j" by simp
  qed simp
  then show ?thesis
    using assms(1) by (auto simp: next_leases_def distinct_conv_nth lease_key_inj simp del: of_nat_Suc)
qed

text \<open>
  C29. Lease ids are never reused. As long as fewer than \<open>2 ^ 64\<close> claims were made, all lease
  ids handed out over the life of a queue are different, for any injective tuple encoding.
\<close>

theorem lease_ids_unique:
  assumes "queue_reach tk hi opts st" "tuple_key_inj tk" "length (claimed_leases (q_records st)) < 2 ^ 64"
  shows "distinct (claimed_leases (q_records st))"
proof -
  obtain wids where wids: "claimed_leases (q_records st) = next_leases tk 0 wids"
    using queue_reach_inv [OF assms(1)] by (auto simp: queue_inv_def lease_step_def)
  then have "length wids < 2 ^ 64" using assms(3) by (simp add: next_leases_def)
  with wids show ?thesis using next_leases_distinct [OF assms(2)] by simp
qed

theorem lease_ids_unique_witness: "distinct (claimed_leases (q_records demo_queue3)) \<and>
  claimed_leases (q_records demo_queue3) = [lease_key esc_tuple ''w'' 1]"
  using lease_ids_unique [OF demo_reach3 esc_tuple_key_inj]
  by (simp add: demo_queue3_records demo_done_def demo_admitted_def demo_claimed_def)

subsection \<open>The runtime node\<close>

lemma reduce_all_total:
  "queue_reach tk hi opts st \<Longrightarrow> \<exists>res. reduce_all tk hi opts st cs = Some res \<and> queue_reach tk hi opts (fst res)"
proof (induction cs arbitrary: st)
  case (Cons cr cs)
  obtain c r where cr: "cr = (c, r)" by fastforce
  let ?now = "case command_now_ms c of Some t \<Rightarrow> t | None \<Rightarrow> clock_or_zero r"
  obtain st' evs where red: "reduce_queue_command tk hi opts st c ?now = Some (st', evs)"
    using reduce_queue_command_step [OF queue_inv_works_ok [OF queue_reach_inv [OF Cons.prems]]] by fast
  from Cons.IH [OF queue_command [OF Cons.prems red]] red cr show ?case by (auto simp: split_beta)
qed simp

lemma admit_all_reach: "queue_reach tk hi opts st \<Longrightarrow> queue_reach tk hi opts (fst (admit_all tk opts st ms))"
proof (induction ms arbitrary: st)
  case (Cons mr ms)
  from Cons.IH [OF queue_admit [OF Cons.prems]] show ?case by (cases mr) (simp add: split_beta Let_def)
qed simp

text \<open>
  C18. The runtime node never panics and always answers: from every reachable state, every wave
  of messages and commands (malformed and repeated commands, unknown works, overflowing times
  included) is reduced completely and leads to a reachable state.
\<close>

theorem runtime_never_panics:
  assumes "queue_reach tk hi opts st"
  shows "\<exists>res. runtime_body tk hi opts st ms cs = Some res \<and> queue_reach tk hi opts (fst res)"
  using reduce_all_total [OF admit_all_reach [OF assms], of ms cs]
  by (auto simp: runtime_body_def split_beta)

theorem runtime_never_panics_witness:
  "\<exists>res. runtime_body esc_tuple sorted_list_of_set demo_options demo_queue2
     [(demo_message 1 7, None)] [(demo_complete, None), (demo_claim, None)] = Some res \<and>
     queue_reach esc_tuple sorted_list_of_set demo_options (fst res)"
  by (rule runtime_never_panics [OF demo_reach2])

text \<open>
  C30. Subscribers see the log: unless the command is a claim whose lease would end beyond the
  clock range, the record events a reduction emits are exactly the records it appends, in
  order.
\<close>

theorem emitted_records_are_the_log:
  assumes "queue_reach tk hi opts st" "reduce_queue_command tk hi opts st c now = Some (st', evs)"
    "\<not> claim_overflows opts c now"
  shows "q_records st' = q_records st @ records_node evs"
  using reduce_queue_command_step [OF queue_inv_works_ok [OF queue_reach_inv [OF assms(1)]], of tk hi opts c now]
    assms(2,3) by (auto simp: log_step_def)

theorem emitted_records_are_the_log_witness:
  "q_records demo_queue3 = q_records demo_queue2 @ demo_done"
proof -
  obtain evs where "reduce_queue_command esc_tuple sorted_list_of_set demo_options demo_queue2 demo_complete 20
      = Some (demo_queue3, evs)" "records_node evs = demo_done"
    using demo_complete_eq unfolding demo_queue3_eq by blast
  moreover have "\<not> claim_overflows demo_options demo_complete 20"
    by (simp add: claim_overflows_def demo_complete_def)
  ultimately show ?thesis using emitted_records_are_the_log [OF demo_reach2] by metis
qed

text \<open>
  The exception is real: a claim whose lease duration overflows the clock, made when
  another lease has run out, appends the expiry record to the log and frees the work, but the
  record is missing from the emitted events.
\<close>

theorem overflowing_claim_drops_expiry_record:
  "queue_reach esc_tuple sorted_list_of_set demo_options demo_queue2 \<and>
   (\<exists>st' evs. reduce_queue_command esc_tuple sorted_list_of_set demo_options demo_queue2
      (CmdClaim ''c9'' None None ''eve'' [] None (Some (- 1)) (Some 200)) 200 = Some (st', evs) \<and>
      q_records st' = q_records demo_queue2 @
        [LeaseExpired 3 ''q'' ''w'' (Some ''c9'') (lease_key esc_tuple ''w'' 1) 1 ''bob'' 110 200] \<and>
      records_node evs = [])"
  by (rule conjI [OF demo_reach2])
    (simp add: demo_queue2_eq demo_queue1_eq claim_work_def demo_leased_def demo_work_def
      materialize_lease_expired_def demo_queue_defs unat_word_max)

subsection \<open>Failure and retry\<close>

lemma held_current_lease:
  assumes "bt_get (q_works st) wid = Some w" "holds_lease w lid att worker now"
  shows "current_lease opts st \<lparr>lc_work_id = wid, lc_lease_id = lid, lc_attempt = att, lc_worker_id = worker,
    lc_command_id = cid, lc_now_ms = now\<rparr> = (st, Inr ())"
  using assms by (auto simp: current_lease_def holds_lease_def is_terminal_def is_expired_def Let_def)

lemma retry_delay:
  assumes "should_retry p att"
  shows "next_delay_ms p (saturating_add att 1) = Some (delay_ms (backoff p) (att + 1))"
proof -
  have lt: "unat att < unat (max_attempts p)" using assms by (simp add: should_retry_def word_less_nat_alt)
  moreover have "unat (max_attempts p) < 2 ^ 32" using unsigned_less [of "max_attempts p", where ?'a = nat] by simp
  ultimately have fits: "unat att + 1 < 2 ^ 32" by linarith
  then have att1: "unat (att + 1) = unat att + 1" by (simp add: unat_word_ariths)
  have "saturating_add att 1 = att + 1" using fits by (simp add: saturating_add_def)
  moreover have "att + 1 \<noteq> 0" using att1 by (metis add_is_0 one_neq_zero unat_0)
  moreover have "\<not> att + 1 > max_attempts p" using lt att1 by (simp add: word_less_nat_alt not_less)
  ultimately show ?thesis by (simp add: next_delay_ms_def)
qed

text \<open>
  C31. A failed attempt is retried by the policy or dead-lettered. When the holder of the
  current lease reports a failure: if the failure is not retryable or the attempt was the last
  one of the policy, the work is dead-lettered for good and recorded so; otherwise it waits for
  the backoff delay of the next attempt and is claimable exactly from then on; and if that time
  is beyond the clock range, the command is refused and the lease stays as it is.
\<close>

theorem fail_work_outcome:
  assumes w: "bt_get (q_works st) wid = Some w" and held: "holds_lease w lid att worker now"
  shows "\<exists>st' evs. fail_work opts st cid wid lid att worker err retryable now = Some (st', evs) \<and>
    (if retryable = Some False \<or> max_attempts (ro_retry opts) \<le> att
     then bt_get (q_works st') wid = Some (clear_lease (w\<lparr>w_state := DeadLettered\<rparr>)) \<and>
       (\<exists>dead. q_dead_letters st' = q_dead_letters st @ [dead] \<and> record_work_id dead = wid)
     else case checked_add now (delay_ms (backoff (ro_retry opts)) (att + 1)) of
            None \<Rightarrow> st' = st
          | Some at \<Rightarrow> \<exists>w'. bt_get (q_works st') wid = Some w' \<and> w_retry_at_ms w' = Some at \<and>
              w_attempt w' = att \<and> w_lease_id w' = None \<and>
              (\<forall>t. now \<le> t \<longrightarrow> is_ready w' t = (at \<le> t)))"
proof -
  have att: "w_attempt w = att" using held by (simp add: holds_lease_def)
  note cur = held_current_lease [OF w held]
  show ?thesis
  proof (cases "retryable = Some False \<or> max_attempts (ro_retry opts) \<le> att")
    case True
    then have "\<not> fail_retries opts retryable att" by (auto simp: fail_retries_def should_retry_def)
    with True show ?thesis
      by (simp add: fail_work_def cur w att fail_dead_letter_def append_record_def Let_def btree)
  next
    case False
    define delay where "delay = delay_ms (backoff (ro_retry opts)) (att + 1)"
    have retry: "fail_retries opts retryable att"
      using False by (auto simp: fail_retries_def should_retry_def not_le split: option.splits)
    then have delay: "fail_retry_delay opts retryable att = delay"
      using retry_delay [of "ro_retry opts" att] by (simp add: fail_retry_delay_def fail_retries_def delay_def)
    let ?w = "\<lambda>at. clear_lease (w\<lparr>w_state := if 0 < delay then RetryWait else Ready, w_retry_at_ms := Some at\<rparr>)"
    have ready: "is_ready (?w at) t = (at \<le> t)" if "checked_add now delay = Some at" "now \<le> t" for at t
      using that by (auto simp: is_ready_def clear_lease_def checked_add_Some word_gt_0)
    show ?thesis
    proof (cases "checked_add now delay")
      case None
      with False retry delay show ?thesis
        by (simp add: fail_work_def cur w att checked_timestamp_def Let_def delay_def)
    next
      case (Some at)
      have "bt_get (q_works (fst (fail_schedule_retry opts st' w failed cid wid delay at now))) wid = Some (?w at)"
        for st' failed
        by (simp add: fail_schedule_retry_def append_record_def Let_def btree)
      with False retry delay Some ready show ?thesis
        by (auto simp: fail_work_def cur w att checked_timestamp_def Let_def delay_def [symmetric]
            append_record_def fail_schedule_retry_def btree) (auto simp: clear_lease_def)
    qed
  qed
qed

theorem fail_work_outcome_witness:
  "\<exists>st' evs w'. fail_work demo_options demo_queue2 ''c3'' ''w'' (lease_key esc_tuple ''w'' 1) 1 ''bob'' None None 20
      = Some (st', evs) \<and>
    bt_get (q_works st') ''w'' = Some w' \<and> is_ready w' 40 \<and> \<not> is_ready w' 39"
proof -
  have "bt_get (q_works demo_queue2) ''w'' = Some demo_leased" by (simp add: demo_queue2_eq)
  moreover have "holds_lease demo_leased (lease_key esc_tuple ''w'' 1) 1 ''bob'' 20"
    by (simp add: holds_lease_def demo_leased_def word_less_nat_alt)
  ultimately have "\<exists>st' evs. fail_work demo_options demo_queue2 ''c3'' ''w'' (lease_key esc_tuple ''w'' 1) 1 ''bob'' None None 20
      = Some (st', evs) \<and> (\<exists>w'. bt_get (q_works st') ''w'' = Some w' \<and> w_retry_at_ms w' = Some 40 \<and> w_attempt w' = 1 \<and>
        w_lease_id w' = None \<and> (\<forall>t. 20 \<le> t \<longrightarrow> is_ready w' t = (40 \<le> t)))"
    using fail_work_outcome [of demo_queue2 "''w''" demo_leased "lease_key esc_tuple ''w'' 1" 1 "''bob''" 20
        demo_options "''c3''" None None]
    by (simp add: demo_options_def checked_add_def word_le_nat_alt)
  then obtain st' evs w' where r: "fail_work demo_options demo_queue2 ''c3'' ''w'' (lease_key esc_tuple ''w'' 1) 1 ''bob'' None None 20
      = Some (st', evs)" "bt_get (q_works st') ''w'' = Some w'" "\<forall>t. 20 \<le> t \<longrightarrow> is_ready w' t = (40 \<le> t)"
    by blast
  moreover have "is_ready w' 40" "\<not> is_ready w' 39" using r(3) by (simp_all add: word_le_nat_alt)
  ultimately show ?thesis by blast
qed

subsection \<open>Admission\<close>

definition admission_source :: "'t work_queue_record \<Rightarrow> (string \<times> u64) option" where
  "admission_source r = map_option (\<lambda>m. (mr_topic m, mr_seq m)) (admission_message_bus r)"

definition admitted_sources :: "'t work_queue_record list \<Rightarrow> (string \<times> u64) list" where
  "admitted_sources rs = List.map_filter admission_source rs"

lemma admitted_sources_append [simp]: "admitted_sources (rs @ rs') = admitted_sources rs @ admitted_sources rs'"
  by (simp add: admitted_sources_def map_filter_def)

text \<open>The remembered sources are those the records name, and none was recorded twice.\<close>

definition source_inv :: "tuple_key \<Rightarrow> 't runtime_state \<Rightarrow> bool" where
  "source_inv tk st \<longleftrightarrow> distinct (admitted_sources (q_records st)) \<and>
     q_source_seqs st = (\<lambda>(t, n). tk [t, to_string n]) ` set (admitted_sources (q_records st))"

lemma admit_message_sources:
  fixes m :: "'t work_queue_submit message_envelope"
  defines "key \<equiv> \<lambda>tk. tk [me_topic m, to_string (me_seq m)]"
  shows "key tk \<in> q_source_seqs st \<Longrightarrow> admit_message tk opts st m now = (st, [])"
    and "key tk \<notin> q_source_seqs st \<Longrightarrow>
      \<exists>r. q_records (fst (admit_message tk opts st m now)) = q_records st @ [r] \<and>
        admission_source r = Some (me_topic m, me_seq m) \<and>
        q_source_seqs (fst (admit_message tk opts st m now)) = insert (key tk) (q_source_seqs st)"
  by (auto simp: key_def admit_message_def append_record_def Let_def admission_source_def split: option.splits)

lemma admit_message_source_inv:
  assumes inv: "source_inv tk st"
  shows "source_inv tk (fst (admit_message tk opts st m now))"
proof (cases "tk [me_topic m, to_string (me_seq m)] \<in> q_source_seqs st")
  case False
  then obtain r where r: "q_records (fst (admit_message tk opts st m now)) = q_records st @ [r]"
      "admission_source r = Some (me_topic m, me_seq m)"
      "q_source_seqs (fst (admit_message tk opts st m now)) =
         insert (tk [me_topic m, to_string (me_seq m)]) (q_source_seqs st)"
    using admit_message_sources(2) by blast
  then have "admitted_sources [r] = [(me_topic m, me_seq m)]" by (simp add: admitted_sources_def map_filter_def)
  with inv False r show ?thesis by (auto simp: source_inv_def)
qed (simp add: admit_message_sources(1) inv)

text \<open>Commands admit nothing.\<close>

definition same_sources :: "'t runtime_state \<Rightarrow> 't runtime_state \<Rightarrow> bool" where
  "same_sources st st' \<longleftrightarrow> q_source_seqs st' = q_source_seqs st \<and>
     admitted_sources (q_records st') = admitted_sources (q_records st)"

lemma same_sources_refl [simp]: "same_sources st st"
  by (simp add: same_sources_def)

lemma same_sources_trans: "same_sources a b \<Longrightarrow> same_sources b c \<Longrightarrow> same_sources a c"
  by (simp add: same_sources_def)

lemma append_record_sources [simp]:
  assumes "admission_message_bus r = None"
  shows "admitted_sources (q_records (fst (append_record st r))) = admitted_sources (q_records st)"
proof -
  have "admission_message_bus (with_record_seq r n) = None" for n using assms by (cases r) simp_all
  then have "admitted_sources [with_record_seq r n] = []" for n
    by (simp add: admitted_sources_def map_filter_def admission_source_def)
  then show ?thesis by (simp add: append_record_def Let_def)
qed

lemma materialize_sources: "same_sources st (fst (materialize_lease_expired opts st w cid now rej))"
  by (simp add: materialize_lease_expired_def same_sources_def Let_def split_beta split: option.splits)

lemma expire_loop_sources: "same_sources st (fst (expire_loop opts st cid now wids))"
proof (induction wids arbitrary: st)
  case (Cons wid wids)
  from same_sources_trans [OF materialize_sources Cons] Cons show ?case
    by (simp add: split_beta Let_def split: option.splits)
qed simp

lemma claim_loop_sources:
  "claim_loop tk opts st cid worker expires now wids = Some res \<Longrightarrow> same_sources st (fst res)"
proof (induction wids arbitrary: st res)
  case (Cons wid wids)
  from Cons.prems obtain w where w: "bt_get (q_works st) wid = Some w"
    by (auto simp: bind_eq_Some_conv Let_def)
  define lid where "lid = compound_tuple_key tk ''work-queue-lease'' [w_work_id w, to_string (q_lease_seq st + 1)]"
  define a where "a = append_record (st\<lparr>q_lease_seq := q_lease_seq st + 1,
      q_works := bt_insert wid (w\<lparr>w_state := Leased, w_attempt := w_attempt w + 1, w_lease_id := Some lid,
        w_worker_id := Some worker, w_lease_expires_at_ms := Some expires\<rparr>) (q_works st)\<rparr>)
      (WorkClaimed 0 (ro_queue_id opts) wid cid lid (w_attempt w + 1) worker now expires)"
  have a: "same_sources st (fst a)" by (simp add: a_def same_sources_def)
  have "do { (st, evs') \<leftarrow> claim_loop tk opts (fst a) cid worker expires now wids;
         Some (st, accepted opts (snd a) (Some wid) (Some cid) now @ evs') } = Some res"
    using Cons.prems w by (simp add: Let_def split_beta a_def lid_def)
  then obtain r where "claim_loop tk opts (fst a) cid worker expires now wids = Some r" "fst res = fst r"
    by (auto simp: bind_eq_Some_conv)
  with Cons.IH [of "fst a" r] a show ?case by (auto intro: same_sources_trans)
qed simp

lemma current_lease_sources: "same_sources st (fst (current_lease opts st chk))"
  using materialize_sources [of st opts _ "lc_command_id chk" "lc_now_ms chk" None]
  by (simp add: current_lease_def Let_def split_beta split: option.splits)

lemma lease_guard_sources:
  assumes "(case current_lease opts st chk of (st', Inl e) \<Rightarrow> Some (st', e) | (st', Inr _) \<Rightarrow> f st') = Some res"
    and "\<And>st' r. f st' = Some r \<Longrightarrow> same_sources st' (fst r)"
  shows "same_sources st (fst res)"
proof (cases "current_lease opts st chk")
  case (Pair st' r)
  then have "same_sources st st'" using current_lease_sources [of st opts chk] by simp
  then show ?thesis
    using assms(1) Pair by (cases r) (auto dest: assms(2) intro: same_sources_trans)
qed

lemma lease_ops_sources:
  "renew_lease opts st cid wid lid att worker dur expires now = Some res \<Longrightarrow> same_sources st (fst res)"
  "release_work opts st cid wid lid att worker reason now = Some res \<Longrightarrow> same_sources st (fst res)"
  "complete_work opts st cid wid lid att worker reason now = Some res \<Longrightarrow> same_sources st (fst res)"
  "fail_work opts st cid wid lid att worker err retryable now = Some res \<Longrightarrow> same_sources st (fst res)"
  unfolding renew_lease_def release_work_def complete_work_def fail_work_def
  by (erule lease_guard_sources;
      auto simp: Let_def split_beta checked_timestamp_def same_sources_def fail_dead_letter_def
        fail_schedule_retry_def split: option.splits if_splits Option.bind_splits)+

lemma cancel_schedule_sources:
  "same_sources st (fst (cancel_work opts st cid wid reason now))"
  "same_sources st (fst (schedule_work opts st cid wid sid nb dl reason now))"
  by (auto simp: cancel_work_def schedule_work_def Let_def split_beta same_sources_def split: option.splits)

lemma expire_leases_sources:
  "expire_leases opts st cid wids limit now = Some res \<Longrightarrow> same_sources st (fst res)"
  using expire_loop_sources [of st opts cid now]
  by (auto simp: expire_leases_def Let_def split_beta bind_eq_Some_conv split: if_splits)

lemma claim_work_sources:
  assumes "claim_work tk hi opts st cid worker wids limit dur now = Some res"
  shows "same_sources st (fst res)"
proof -
  from assms obtain n where n: "positive_limit (case limit of None \<Rightarrow> max (length wids) 1 | Some n \<Rightarrow> n) = Some n"
    by (auto simp: claim_work_def bind_eq_Some_conv)
  obtain st1 evs1 where x: "expire_loop opts st cid now (claim_expired st (set wids) now) = (st1, evs1)" by fastforce
  have st1: "same_sources st st1" using expire_loop_sources [of st opts cid now] x by (metis fst_conv)
  have "fst res = st1 \<or> (\<exists>e cs r. claim_loop tk opts st1 cid worker e now cs = Some r \<and> fst res = fst r)"
    using assms unfolding claim_work_unfold [OF n x refl]
    by (auto simp: bind_eq_Some_conv split: if_splits sum.splits)
  with st1 claim_loop_sources show ?thesis by (metis same_sources_trans)
qed

lemma reduce_sources:
  assumes "reduce_queue_command tk hi opts st c now = Some res"
  shows "same_sources st (fst res)"
proof -
  have "same_sources st' (fst r)" if "apply_queue_command tk hi opts st' c now = Some r" for st' r
    using that
    by (cases c) (auto dest: claim_work_sources lease_ops_sources expire_leases_sources
        simp: cancel_schedule_sources)
  from this [of "remember_command st c" res] assms show ?thesis
    by (auto simp: reduce_queue_command_def same_sources_def split: option.splits if_splits)
qed

lemma queue_reach_sources: "queue_reach tk hi opts st \<Longrightarrow> source_inv tk st"
proof (induction rule: queue_reach.induct)
  case queue_init
  then show ?case by (simp add: source_inv_def admitted_sources_def map_filter_def runtime_state_default_def)
next
  case (queue_admit st m now)
  then show ?case by (intro admit_message_source_inv)
next
  case (queue_command st c now st' evs)
  then show ?case using reduce_sources by (fastforce simp: same_sources_def source_inv_def)
qed

text \<open>
  The life of a queue with the messages delivered to it, in order, redeliveries included.
\<close>

inductive queue_life ::
  "tuple_key \<Rightarrow> (string set \<Rightarrow> string list) \<Rightarrow> runtime_options \<Rightarrow> 't work_queue_submit message_envelope list \<Rightarrow>
   't runtime_state \<Rightarrow> bool" for tk hi opts where
  life_init: "queue_life tk hi opts [] runtime_state_default"
| life_admit: "queue_life tk hi opts ms st \<Longrightarrow> queue_life tk hi opts (ms @ [m]) (fst (admit_message tk opts st m now))"
| life_command: "queue_life tk hi opts ms st \<Longrightarrow> reduce_queue_command tk hi opts st c now = Some (st', evs) \<Longrightarrow>
    queue_life tk hi opts ms st'"

lemma queue_life_reach: "queue_life tk hi opts ms st \<Longrightarrow> queue_reach tk hi opts st"
  by (induction rule: queue_life.induct) (auto intro: queue_init queue_admit queue_command)

lemma admit_message_admitted:
  assumes inv: "source_inv tk st" and inj: "tuple_key_inj tk"
  shows "set (admitted_sources (q_records (fst (admit_message tk opts st m now)))) =
    insert (me_topic m, me_seq m) (set (admitted_sources (q_records st)))"
proof (cases "tk [me_topic m, to_string (me_seq m)] \<in> q_source_seqs st")
  case True
  then obtain t n where "(t, n) \<in> set (admitted_sources (q_records st))"
      "tk [me_topic m, to_string (me_seq m)] = tk [t, to_string n]"
    using inv by (auto simp: source_inv_def)
  moreover then have "me_topic m = t" "me_seq m = n"
    using inj unfolding tuple_key_inj_def by (metis list.inject to_string_inj)+
  ultimately show ?thesis using True by (simp add: admit_message_sources(1) insert_absorb)
next
  case False
  then obtain r where "q_records (fst (admit_message tk opts st m now)) = q_records st @ [r]"
      "admission_source r = Some (me_topic m, me_seq m)"
    using admit_message_sources(2) by blast
  moreover then have "admitted_sources [r] = [(me_topic m, me_seq m)]"
    by (simp add: admitted_sources_def map_filter_def)
  ultimately show ?thesis by simp
qed

text \<open>
  C17. Admission is exactly once per bus message. Over the life of a queue, whatever commands run
  between the deliveries and however often a message is delivered again, the admission records name
  exactly the delivered messages (by topic and sequence number), and each of them once: as admitted
  or as a duplicate of an existing work, so that its acknowledgement follows.
\<close>

theorem admission_exactly_once:
  assumes "queue_life tk hi opts ms st" and inj: "tuple_key_inj tk"
  shows "distinct (admitted_sources (q_records st)) \<and>
    set (admitted_sources (q_records st)) = (\<lambda>m. (me_topic m, me_seq m)) ` set ms"
proof
  show "distinct (admitted_sources (q_records st))"
    using queue_reach_sources [OF queue_life_reach [OF assms(1)]] by (simp add: source_inv_def)
  show "set (admitted_sources (q_records st)) = (\<lambda>m. (me_topic m, me_seq m)) ` set ms"
    using assms(1)
  proof (induction rule: queue_life.induct)
    case life_init
    then show ?case by (simp add: admitted_sources_def map_filter_def runtime_state_default_def)
  next
    case (life_admit ms st m now)
    then show ?case
      using admit_message_admitted [OF queue_reach_sources [OF queue_life_reach [OF life_admit.hyps]] inj] by simp
  next
    case (life_command ms st c now st' evs)
    then show ?case using reduce_sources by (fastforce simp: same_sources_def)
  qed
qed

theorem admission_exactly_once_witness:
  "distinct (admitted_sources (q_records demo_queue1)) \<and> set (admitted_sources (q_records demo_queue1)) = {(''t'', 1)}"
proof -
  have "queue_life esc_tuple sorted_list_of_set demo_options ([] @ [demo_message 1 7]) demo_queue1"
    unfolding demo_queue1_def by (rule life_admit [OF life_init])
  from admission_exactly_once [OF this esc_tuple_key_inj] show ?thesis by (simp add: demo_message_def)
qed

end
