(* ===== verification/Storage.thy ===== *)
theory Storage
  imports Prelude
begin

text \<open>
  The storage tiers of \<open>storage.rs\<close>: the names of the file backend, the in-memory versioned
  key-value tier, append logs over any key-value tier, and the tiered read-through. A tier is
  the record of the operations of its trait over a state, the way a \<open>dyn\<close> reference carries
  them; what a client may rely on is the locale \<open>kv_store\<close>, which the in-memory tier
  satisfies. A Rust string is the list of its UTF-8 bytes, one \<open>char\<close> each, a \<open>HashMap\<close>
  whose keys are only listed sorted is a sorted association list, and the tuple encoding of
  \<open>serde_json\<close> is a parameter as in the message bus.
\<close>

datatype storage_error =
  Unsupported string string
| ContentAddressedMiss string
| Backend string

type_synonym 'a storage_result = "storage_error + 'a"

fun storage_error_message :: "storage_error \<Rightarrow> string" where
  "storage_error_message (Unsupported label capability) =
     label @ '': KV tier does not support '' @ capability"
| "storage_error_message (ContentAddressedMiss key) =
     ''content-addressed lookup miss in read-strict mode: '' @ key"
| "storage_error_message (Backend message) = message"

section \<open>File names\<close>

definition ascii_alnum :: "char \<Rightarrow> bool" where
  "ascii_alnum c \<longleftrightarrow> (let b = (of_char c :: nat)
     in 48 \<le> b \<and> b \<le> 57 \<or> 65 \<le> b \<and> b \<le> 90 \<or> 97 \<le> b \<and> b \<le> 122)"

definition hex_nibble :: "nat \<Rightarrow> char" where
  "hex_nibble v = (if v \<le> 9 then char_of (48 + v) else char_of (97 + (v - 10)))"

fun key_to_file_stem :: "string \<Rightarrow> string" where
  "key_to_file_stem [] = []"
| "key_to_file_stem (c # cs) =
     (if ascii_alnum c \<or> c = CHR ''_'' \<or> c = CHR ''-'' then [c]
      else [CHR ''%'', hex_nibble (of_char c div 16), hex_nibble (of_char c mod 16)])
     @ key_to_file_stem cs"

text \<open>\<open>char::to_digit(16)\<close>.\<close>

definition to_digit16 :: "char \<Rightarrow> nat option" where
  "to_digit16 c = (let b = (of_char c :: nat)
     in if 48 \<le> b \<and> b \<le> 57 then Some (b - 48)
        else if 97 \<le> b \<and> b \<le> 102 then Some (b - 87)
        else if 65 \<le> b \<and> b \<le> 70 then Some (b - 55) else None)"

text \<open>The byte loop of \<open>file_stem_to_key\<close>, on the bytes from the index on.\<close>

function stem_bytes :: "string \<Rightarrow> string option" where
  "stem_bytes [] = Some []"
| "stem_bytes (c # cs) =
     (if c = CHR ''%'' \<and> 2 \<le> length cs
      then (case to_digit16 (cs ! 0) of
              None \<Rightarrow> None
            | Some hi \<Rightarrow>
                (case to_digit16 (cs ! 1) of
                   None \<Rightarrow> None
                 | Some lo \<Rightarrow> map_option ((#) (char_of (16 * hi + lo))) (stem_bytes (drop 2 cs))))
      else if (of_char c :: nat) < 128 then map_option ((#) c) (stem_bytes cs)
      else None)"
  by pat_completeness auto
termination by (relation "measure length") auto

text \<open>\<open>String::from_utf8\<close>: the well-formed byte sequences of UTF-8.\<close>

definition utf8_tail :: "nat \<Rightarrow> nat \<Rightarrow> nat list \<Rightarrow> bool" where
  "utf8_tail lo hi bs \<longleftrightarrow>
     bs \<noteq> [] \<and> lo \<le> hd bs \<and> hd bs \<le> hi \<and> (\<forall>b \<in> set (tl bs). 128 \<le> b \<and> b \<le> 191)"

definition utf8_tail_ok :: "nat \<Rightarrow> nat list \<Rightarrow> bool" where
  "utf8_tail_ok b tail \<longleftrightarrow>
     (if b < 224 then 194 \<le> b \<and> utf8_tail 128 191 tail
      else if b = 224 then utf8_tail 160 191 tail
      else if b = 237 then utf8_tail 128 159 tail
      else if b < 240 then utf8_tail 128 191 tail
      else if b = 240 then utf8_tail 144 191 tail
      else if b < 244 then utf8_tail 128 191 tail
      else b = 244 \<and> utf8_tail 128 143 tail)"

definition utf8_width :: "nat \<Rightarrow> nat" where
  "utf8_width b = (if b < 224 then 1 else if b < 240 then 2 else 3)"

function utf8_ok :: "nat list \<Rightarrow> bool" where
  "utf8_ok [] = True"
| "utf8_ok (b # bs) =
     (if b < 128 then utf8_ok bs
      else utf8_width b \<le> length bs \<and> utf8_tail_ok b (take (utf8_width b) bs) \<and>
           utf8_ok (drop (utf8_width b) bs))"
  by pat_completeness auto
termination by (relation "measure length") auto

definition from_utf8 :: "string \<Rightarrow> string option" where
  "from_utf8 s = (if utf8_ok (map of_char s) then Some s else None)"

definition file_stem_to_key :: "string \<Rightarrow> string option" where
  "file_stem_to_key stem =
     (case stem_bytes stem of
        None \<Rightarrow> None
      | Some out \<Rightarrow>
          (case from_utf8 out of
             None \<Rightarrow> None
           | Some key \<Rightarrow> if key_to_file_stem key = stem then Some key else None))"

definition strip_prefix :: "string \<Rightarrow> string \<Rightarrow> string option" where
  "strip_prefix p s = (if take (length p) s = p then Some (drop (length p) s) else None)"

definition ends_with :: "string \<Rightarrow> string \<Rightarrow> bool" where
  "ends_with s suffix \<longleftrightarrow> length suffix \<le> length s \<and> drop (length s - length suffix) s = suffix"

definition FILE_STEM_PREFIX :: string where "FILE_STEM_PREFIX = ''k-''"
definition STORAGE_NAMESPACE_PREFIX :: string where
  "STORAGE_NAMESPACE_PREFIX = ''storage-namespace''"
definition STORAGE_NAMESPACE_PREFIX_WITH_COLON :: string where
  "STORAGE_NAMESPACE_PREFIX_WITH_COLON = ''storage-namespace:''"

definition storage_physical_key :: "(string list \<Rightarrow> string) \<Rightarrow> string \<Rightarrow> string \<Rightarrow> string" where
  "storage_physical_key tk namespace logical_key =
     STORAGE_NAMESPACE_PREFIX @ '':'' @ tk [namespace, logical_key]"

definition decode_storage_physical_key ::
  "(string \<Rightarrow> string list option) \<Rightarrow> string \<Rightarrow> string \<Rightarrow> string \<Rightarrow> string option storage_result" where
  "decode_storage_physical_key parse namespace raw_key malformed_message =
     (case strip_prefix STORAGE_NAMESPACE_PREFIX_WITH_COLON raw_key of
        None \<Rightarrow> Inr None
      | Some tuple_key \<Rightarrow>
          (case parse tuple_key of
             None \<Rightarrow> Inl (Backend malformed_message)
           | Some tup \<Rightarrow>
               if tup = [] \<or> hd tup \<noteq> namespace then Inr None
               else if length tup \<noteq> 2 then Inl (Backend malformed_message)
               else Inr (Some (tup ! 1))))"

record file_backend =
  fb_namespace :: string
  fb_extension :: string

definition valid_extension :: "string \<Rightarrow> bool" where
  "valid_extension e \<longleftrightarrow>
     2 \<le> length e \<and> hd e = CHR ''.'' \<and> \<not> (\<exists>i < length e - 1. take 2 (drop i e) = ''..'') \<and>
     CHR ''/'' \<notin> set e \<and> CHR 0x5C \<notin> set e \<and> CHR 0x00 \<notin> set e \<and>
     (\<forall>c \<in> set e. ascii_alnum c \<or> c = CHR ''.'' \<or> c = CHR ''_'' \<or> c = CHR ''-'')"

definition file_backend_new :: "string \<Rightarrow> string \<Rightarrow> file_backend storage_result" where
  "file_backend_new namespace extension =
     (if valid_extension extension
      then Inr \<lparr>fb_namespace = namespace, fb_extension = extension\<rparr>
      else Inl (Backend ''fileBackend: extension must be a simple suffix such as .bin''))"

definition file_name_for :: "(string list \<Rightarrow> string) \<Rightarrow> file_backend \<Rightarrow> string \<Rightarrow> string" where
  "file_name_for tk fb key =
     FILE_STEM_PREFIX @ key_to_file_stem (storage_physical_key tk (fb_namespace fb) key)
     @ fb_extension fb"

definition key_from_filename ::
  "(string \<Rightarrow> string list option) \<Rightarrow> file_backend \<Rightarrow> string \<Rightarrow> string option storage_result" where
  "key_from_filename parse fb filename =
     (if filename \<noteq> [] \<and> hd filename = CHR ''.'' \<or> \<not> ends_with filename (fb_extension fb) then Inr None
      else let stem = take (length filename - length (fb_extension fb)) filename
           in case strip_prefix FILE_STEM_PREFIX stem of
                None \<Rightarrow> Inr None
              | Some raw_stem \<Rightarrow>
                  (case file_stem_to_key raw_stem of
                     None \<Rightarrow> Inr None
                   | Some key \<Rightarrow>
                       decode_storage_physical_key parse (fb_namespace fb) key
                         ''fileBackend: malformed stored key''))"

subsection \<open>File names round-trip\<close>

lemma of_char_lt_256 [simp]: "(of_char c :: nat) < 256"
  by (metis of_char_of of_char_mod_256 mod_less_divisor zero_less_numeral)

lemma of_char_hex_nibble: "v < 16 \<Longrightarrow> (of_char (hex_nibble v) :: nat) = (if v \<le> 9 then 48 + v else 87 + v)"
  by (auto simp: hex_nibble_def of_char_of)

lemma to_digit16_hex_nibble [simp]: "v < 16 \<Longrightarrow> to_digit16 (hex_nibble v) = Some v"
  by (auto simp: to_digit16_def of_char_hex_nibble Let_def)

lemma plain_byte: "ascii_alnum c \<or> c = CHR ''_'' \<or> c = CHR ''-'' \<Longrightarrow> c \<noteq> CHR ''%'' \<and> (of_char c :: nat) < 128"
  by (auto simp: ascii_alnum_def Let_def)

lemma stem_bytes_stem: "stem_bytes (key_to_file_stem k) = Some k"
proof (induction k)
  case (Cons c cs)
  have "16 * (of_char c div 16) + of_char c mod 16 = (of_char c :: nat)" by simp
  moreover have "(of_char c :: nat) div 16 < 16"
    using of_char_lt_256 [of c] by (intro less_mult_imp_div_less) (simp del: of_char_lt_256)
  ultimately show ?case
    using Cons plain_byte [of c] by auto
qed simp

lemma file_stem_round_trip:
  "utf8_ok (map of_char k) \<Longrightarrow> file_stem_to_key (key_to_file_stem k) = Some k"
  by (simp add: file_stem_to_key_def stem_bytes_stem from_utf8_def)

lemma file_stem_to_key_SomeD: "file_stem_to_key s = Some k \<Longrightarrow> key_to_file_stem k = s"
  by (auto simp: file_stem_to_key_def split: option.splits if_splits)

lemma key_to_file_stem_inj: "key_to_file_stem a = key_to_file_stem b \<longleftrightarrow> a = b"
  by (metis option.inject stem_bytes_stem)

lemma strip_prefix_append [simp]: "strip_prefix p (p @ s) = Some s"
  by (simp add: strip_prefix_def)

lemma ends_with_append [simp]: "ends_with (s @ e) e"
  by (simp add: ends_with_def)

lemma key_from_file_name_for:
  assumes "\<And>parts. parse (tk parts) = Some parts"
    and "utf8_ok (map of_char (storage_physical_key tk (fb_namespace fb) key))"
  shows "key_from_filename parse fb (file_name_for tk fb key) = Inr (Some key)"
proof -
  have phys: "decode_storage_physical_key parse ns (storage_physical_key tk ns key) m = Inr (Some key)" for ns m
  proof -
    have eq: "storage_physical_key tk ns key = STORAGE_NAMESPACE_PREFIX_WITH_COLON @ tk [ns, key]"
      by (simp add: storage_physical_key_def STORAGE_NAMESPACE_PREFIX_def
          STORAGE_NAMESPACE_PREFIX_WITH_COLON_def)
    show ?thesis
      unfolding decode_storage_physical_key_def eq strip_prefix_append by (simp add: assms(1))
  qed
  define stem where "stem = key_to_file_stem (storage_physical_key tk (fb_namespace fb) key)"
  have "strip_prefix FILE_STEM_PREFIX (take (length (FILE_STEM_PREFIX @ stem @ fb_extension fb)
      - length (fb_extension fb)) (FILE_STEM_PREFIX @ stem @ fb_extension fb)) = Some stem"
    by simp
  moreover have "ends_with (FILE_STEM_PREFIX @ stem @ fb_extension fb) (fb_extension fb)"
    using ends_with_append [of "FILE_STEM_PREFIX @ stem"] by simp
  moreover have "file_stem_to_key stem = Some (storage_physical_key tk (fb_namespace fb) key)"
    using assms(2) by (simp add: stem_def file_stem_round_trip)
  moreover have "hd (FILE_STEM_PREFIX @ stem @ fb_extension fb) \<noteq> CHR ''.''"
    by (simp add: FILE_STEM_PREFIX_def)
  ultimately show ?thesis
    by (simp add: key_from_filename_def file_name_for_def phys Let_def flip: stem_def)
qed

lemma hex_nibble_not_sep: "v < 16 \<Longrightarrow> hex_nibble v \<noteq> CHR ''/'' \<and> hex_nibble v \<noteq> CHR 0x5C"
  using of_char_hex_nibble [of v] by (auto split: if_splits)

lemma key_to_file_stem_safe: "CHR ''/'' \<notin> set (key_to_file_stem k) \<and> CHR 0x5C \<notin> set (key_to_file_stem k)"
proof (induction k)
  case (Cons c cs)
  have "(of_char c :: nat) div 16 < 16" by (simp add: less_mult_imp_div_less)
  moreover have "(of_char c :: nat) mod 16 < 16" by simp
  moreover have "ascii_alnum c \<or> c = CHR ''_'' \<or> c = CHR ''-'' \<Longrightarrow> c \<noteq> CHR ''/'' \<and> c \<noteq> CHR 0x5C"
    by (auto simp: ascii_alnum_def Let_def)
  ultimately show ?case
    using Cons hex_nibble_not_sep by (simp, metis)
qed simp

text \<open>A concrete tuple encoding, for the witness: characters are escaped, parts end in a dot.\<close>

fun wrap_parts :: "string list \<Rightarrow> string" where
  "wrap_parts [] = []"
| "wrap_parts (p # ps) = concat (map (\<lambda>c. [CHR ''c'', c]) p) @ CHR ''.'' # wrap_parts ps"

fun unwrap_parts :: "string \<Rightarrow> string \<Rightarrow> string list option" where
  "unwrap_parts acc [] = Some []"
| "unwrap_parts acc [x] = Some [acc]"
| "unwrap_parts acc (x # y # s) =
     (if x = CHR ''c'' then unwrap_parts (acc @ [y]) s else map_option ((#) acc) (unwrap_parts [] (y # s)))"

lemma unwrap_part: "unwrap_parts acc (concat (map (\<lambda>c. [CHR ''c'', c]) p) @ CHR ''.'' # s) =
    map_option ((#) (acc @ p)) (unwrap_parts [] s)"
  by (induction p arbitrary: acc) (cases s; simp)+

lemma unwrap_wrap: "unwrap_parts [] (wrap_parts ps) = Some ps"
  by (induction ps) (simp_all add: unwrap_part)

text \<open>
  C33. File names are safe and faithful. The name under which the file backend stores a key has no
  path separator, whatever bytes the key has, and decoding the name gives the key back, for every
  namespace and every valid extension; so distinct keys have distinct files, and a listing returns
  exactly the stored keys.
\<close>

theorem file_names_faithful:
  assumes "\<And>parts. parse (tk parts) = Some parts"
    and "file_backend_new ns ext = Inr fb"
    and "utf8_ok (map of_char (storage_physical_key tk ns key))"
  shows "key_from_filename parse fb (file_name_for tk fb key) = Inr (Some key) \<and>
    CHR ''/'' \<notin> set (file_name_for tk fb key) \<and> CHR 0x5C \<notin> set (file_name_for tk fb key)"
proof -
  have fb: "fb_namespace fb = ns" "valid_extension (fb_extension fb)"
    using assms(2) by (auto simp: file_backend_new_def split: if_splits)
  then have "CHR ''/'' \<notin> set (fb_extension fb)" "CHR 0x5C \<notin> set (fb_extension fb)"
    by (auto simp: valid_extension_def)
  then show ?thesis
    using key_from_file_name_for [where parse = parse, OF assms(1), of fb key] assms(3) key_to_file_stem_safe fb(1)
    by (auto simp: file_name_for_def FILE_STEM_PREFIX_def)
qed

theorem file_names_faithful_witness:
  "key_from_filename (unwrap_parts []) \<lparr>fb_namespace = ''n'', fb_extension = ''.bin''\<rparr>
     (file_name_for wrap_parts \<lparr>fb_namespace = ''n'', fb_extension = ''.bin''\<rparr> ''../a'') = Inr (Some ''../a'')"
proof -
  have "valid_extension ''.bin''"
    unfolding valid_extension_def
    by (simp add: ascii_alnum_def, intro allI impI) (auto simp: drop_Cons' split: if_splits)
  then have "file_backend_new ''n'' ''.bin'' = Inr \<lparr>fb_namespace = ''n'', fb_extension = ''.bin''\<rparr>"
    by (simp add: file_backend_new_def)
  moreover have "utf8_ok (map of_char (storage_physical_key wrap_parts ''n'' ''../a''))"
    by (simp add: storage_physical_key_def STORAGE_NAMESPACE_PREFIX_def)
  ultimately show ?thesis
    using file_names_faithful [where parse = "unwrap_parts []" and tk = wrap_parts, OF unwrap_wrap] by blast
qed

section \<open>Key-value tiers\<close>

record kv_generation =
  kg_store_id :: u64
  kg_epoch :: u64
  kg_key :: string
  kg_version :: u64

datatype 't kv_versioned_read =
  ReadHit 't kv_generation
| ReadMiss kv_generation

fun read_generation :: "'t kv_versioned_read \<Rightarrow> kv_generation" where
  "read_generation (ReadHit v g) = g"
| "read_generation (ReadMiss g) = g"

text \<open>The operations of the trait \<open>KvStorageTier\<close> over the state of a tier.\<close>

record ('s, 't) kv_tier =
  kv_get :: "'s \<Rightarrow> string \<Rightarrow> 't option storage_result"
  kv_set :: "'s \<Rightarrow> string \<Rightarrow> 't \<Rightarrow> 's \<times> unit storage_result"
  kv_put_if_absent :: "'s \<Rightarrow> string \<Rightarrow> 't \<Rightarrow> 's \<times> bool storage_result"
  kv_delete :: "'s \<Rightarrow> string \<Rightarrow> 's \<times> unit storage_result"
  kv_list :: "'s \<Rightarrow> string \<Rightarrow> string list storage_result"
  kv_supports_versioned :: bool
  kv_get_versioned :: "'s \<Rightarrow> string \<Rightarrow> 't kv_versioned_read storage_result"
  kv_set_if_match :: "'s \<Rightarrow> string \<Rightarrow> 't \<Rightarrow> kv_generation \<Rightarrow> 's \<times> bool storage_result"

subsection \<open>The in-memory tier\<close>

record 't memory_entry =
  en_value :: 't
  en_version :: u64

record 't memory_kv =
  mk_store_id :: u64
  mk_epoch :: u64
  mk_entries :: "(string, 't memory_entry) btree"
  mk_tombstones :: "(string, u64) btree"
  mk_next_version :: u64

text \<open>The store id comes from the global counter \<open>NEXT_STORE_ID\<close>.\<close>

definition memory_kv_new :: "u64 \<Rightarrow> 't memory_kv" where
  "memory_kv_new store_id = \<lparr>mk_store_id = store_id, mk_epoch = 0, mk_entries = [],
     mk_tombstones = [], mk_next_version = 1\<rparr>"

definition bump_version :: "'t memory_kv \<Rightarrow> 't memory_kv \<times> u64" where
  "bump_version s = (s\<lparr>mk_next_version := mk_next_version s + 1\<rparr>, mk_next_version s)"

definition current_version :: "'t memory_kv \<Rightarrow> string \<Rightarrow> u64" where
  "current_version s key =
     (case bt_get (mk_entries s) key of
        Some entry \<Rightarrow> en_version entry
      | None \<Rightarrow> (case bt_get (mk_tombstones s) key of Some v \<Rightarrow> v | None \<Rightarrow> 0))"

definition generation_for :: "'t memory_kv \<Rightarrow> string \<Rightarrow> kv_generation" where
  "generation_for s key = \<lparr>kg_store_id = mk_store_id s, kg_epoch = mk_epoch s, kg_key = key,
     kg_version = current_version s key\<rparr>"

definition memory_clear :: "'t memory_kv \<Rightarrow> 't memory_kv" where
  "memory_clear s = s\<lparr>mk_entries := [], mk_tombstones := [], mk_epoch := mk_epoch s + 1,
     mk_next_version := 1\<rparr>"

definition memory_get :: "'t memory_kv \<Rightarrow> string \<Rightarrow> 't option storage_result" where
  "memory_get s key = Inr (map_option en_value (bt_get (mk_entries s) key))"

definition memory_set :: "'t memory_kv \<Rightarrow> string \<Rightarrow> 't \<Rightarrow> 't memory_kv \<times> unit storage_result" where
  "memory_set s key value =
     (let (s, version) = bump_version s
      in (s\<lparr>mk_entries := bt_insert key \<lparr>en_value = value, en_version = version\<rparr> (mk_entries s),
            mk_tombstones := bt_remove key (mk_tombstones s)\<rparr>, Inr ()))"

definition memory_put_if_absent ::
  "'t memory_kv \<Rightarrow> string \<Rightarrow> 't \<Rightarrow> 't memory_kv \<times> bool storage_result" where
  "memory_put_if_absent s key value =
     (if bt_get (mk_entries s) key \<noteq> None then (s, Inr False)
      else let (s, r) = memory_set s key value in (s, rbind r (\<lambda>_. Inr True)))"

definition memory_delete :: "'t memory_kv \<Rightarrow> string \<Rightarrow> 't memory_kv \<times> unit storage_result" where
  "memory_delete s key =
     (if bt_get (mk_entries s) key \<noteq> None
      then let (s, version) = bump_version (s\<lparr>mk_entries := bt_remove key (mk_entries s)\<rparr>)
           in (s\<lparr>mk_tombstones := bt_insert key version (mk_tombstones s)\<rparr>, Inr ())
      else (s, Inr ()))"

definition starts_with :: "string \<Rightarrow> string \<Rightarrow> bool" where
  "starts_with s p \<longleftrightarrow> take (length p) s = p"

definition memory_list :: "'t memory_kv \<Rightarrow> string \<Rightarrow> string list storage_result" where
  "memory_list s p = Inr (filter (\<lambda>key. starts_with key p) (bt_keys (mk_entries s)))"

definition memory_get_versioned ::
  "'t memory_kv \<Rightarrow> string \<Rightarrow> 't kv_versioned_read storage_result" where
  "memory_get_versioned s key =
     (case bt_get (mk_entries s) key of
        Some entry \<Rightarrow>
          Inr (ReadHit (en_value entry)
                 \<lparr>kg_store_id = mk_store_id s, kg_epoch = mk_epoch s, kg_key = key,
                  kg_version = en_version entry\<rparr>)
      | None \<Rightarrow> Inr (ReadMiss (generation_for s key)))"

definition memory_set_if_match ::
  "'t memory_kv \<Rightarrow> string \<Rightarrow> 't \<Rightarrow> kv_generation \<Rightarrow> 't memory_kv \<times> bool storage_result" where
  "memory_set_if_match s key value g =
     (if kg_store_id g \<noteq> mk_store_id s \<or> kg_epoch g \<noteq> mk_epoch s \<or> kg_key g \<noteq> key \<or>
         kg_version g \<noteq> current_version s key
      then (s, Inr False)
      else let (s, r) = memory_set s key value in (s, rbind r (\<lambda>_. Inr True)))"

definition memory_kv_tier :: "('t memory_kv, 't) kv_tier" where
  "memory_kv_tier = \<lparr>kv_get = memory_get, kv_set = memory_set,
     kv_put_if_absent = memory_put_if_absent, kv_delete = memory_delete, kv_list = memory_list,
     kv_supports_versioned = True, kv_get_versioned = memory_get_versioned,
     kv_set_if_match = memory_set_if_match\<rparr>"

text \<open>\<open>dict_kv\<close>: a memory tier with initial entries, set in order.\<close>

definition dict_kv :: "u64 \<Rightarrow> (string \<times> 't) list \<Rightarrow> 't memory_kv" where
  "dict_kv store_id kvs = fold (\<lambda>(k, v) s. fst (memory_set s k v)) kvs (memory_kv_new store_id)"

subsection \<open>What a client of a tier relies on\<close>

text \<open>
  The contract of a well-behaved tier: it behaves as a map, and listing a prefix returns the
  present keys that start with it, ascending.
\<close>

locale kv_store =
  fixes kv :: "('s, 't) kv_tier"
    and ok :: "'s \<Rightarrow> bool"
    and view :: "'s \<Rightarrow> string \<rightharpoonup> 't"
  assumes get_view: "ok s \<Longrightarrow> kv_get kv s k = Inr (view s k)"
    and set_view: "ok s \<Longrightarrow> snd (kv_set kv s k v) = Inr () \<and> ok (fst (kv_set kv s k v)) \<and>
      view (fst (kv_set kv s k v)) = (view s)(k \<mapsto> v)"
    and delete_view: "ok s \<Longrightarrow> snd (kv_delete kv s k) = Inr () \<and> ok (fst (kv_delete kv s k)) \<and>
      view (fst (kv_delete kv s k)) = (view s)(k := None)"
    and put_view: "ok s \<Longrightarrow> snd (kv_put_if_absent kv s k v) = Inr (view s k = None) \<and>
      ok (fst (kv_put_if_absent kv s k v)) \<and>
      view (fst (kv_put_if_absent kv s k v)) = (if view s k = None then (view s)(k \<mapsto> v) else view s)"
    and list_view: "ok s \<Longrightarrow> \<exists>ks. kv_list kv s p = Inr ks \<and> sorted_wrt (<) ks \<and>
      set ks = {k \<in> dom (view s). starts_with k p}"

definition memory_ok :: "'t memory_kv \<Rightarrow> bool" where
  "memory_ok s \<longleftrightarrow> bt_ok (mk_entries s) \<and> bt_ok (mk_tombstones s)"

definition memory_view :: "'t memory_kv \<Rightarrow> string \<rightharpoonup> 't" where
  "memory_view s = map_option en_value \<circ> bt_get (mk_entries s)"

lemma memory_ok_new [simp]: "memory_ok (memory_kv_new i)"
  by (simp add: memory_ok_def memory_kv_new_def)

lemma memory_ok_set: "memory_ok s \<Longrightarrow> memory_ok (fst (memory_set s k v))"
  by (simp add: memory_ok_def memory_set_def bump_version_def Let_def btree)

lemma memory_view_set: "memory_view (fst (memory_set s k v)) = (memory_view s)(k \<mapsto> v)"
  by (auto simp: memory_view_def memory_set_def bump_version_def Let_def btree fun_eq_iff)

lemma memory_ok_delete: "memory_ok s \<Longrightarrow> memory_ok (fst (memory_delete s k))"
  by (simp add: memory_ok_def memory_delete_def bump_version_def Let_def btree)

lemma memory_view_delete:
  "memory_ok s \<Longrightarrow> memory_view (fst (memory_delete s k)) = (memory_view s)(k := None)"
  by (auto simp: memory_view_def memory_delete_def memory_ok_def bump_version_def Let_def btree
      fun_eq_iff)

lemma memory_set_result [simp]: "snd (memory_set s k v) = Inr ()"
  by (simp add: memory_set_def bump_version_def Let_def)

lemma memory_list_view:
  assumes "memory_ok s"
  shows "\<exists>ks. memory_list s p = Inr ks \<and> sorted_wrt (<) ks \<and>
    set ks = {k \<in> dom (memory_view s). starts_with k p}"
proof -
  have "dom (memory_view s) = fst ` set (mk_entries s)"
    by (auto simp: memory_view_def dom_def map_of_eq_None_iff image_iff)
  then show ?thesis
    using assms by (auto simp: memory_list_def memory_ok_def bt_ok_def sorted_wrt_filter)
qed

interpretation mem: kv_store memory_kv_tier memory_ok memory_view
proof
  fix s :: "'a memory_kv" and k v p
  assume ok: "memory_ok s"
  show "kv_get memory_kv_tier s k = Inr (memory_view s k)"
    by (simp add: memory_kv_tier_def memory_get_def memory_view_def)
  show "snd (kv_set memory_kv_tier s k v) = Inr () \<and> memory_ok (fst (kv_set memory_kv_tier s k v)) \<and>
      memory_view (fst (kv_set memory_kv_tier s k v)) = (memory_view s)(k \<mapsto> v)"
    using ok by (simp add: memory_kv_tier_def memory_ok_set memory_view_set)
  show "snd (kv_delete memory_kv_tier s k) = Inr () \<and> memory_ok (fst (kv_delete memory_kv_tier s k)) \<and>
      memory_view (fst (kv_delete memory_kv_tier s k)) = (memory_view s)(k := None)"
    using ok by (simp add: memory_kv_tier_def memory_ok_delete memory_view_delete)
      (simp add: memory_delete_def bump_version_def Let_def)
  show "snd (kv_put_if_absent memory_kv_tier s k v) = Inr (memory_view s k = None) \<and>
      memory_ok (fst (kv_put_if_absent memory_kv_tier s k v)) \<and>
      memory_view (fst (kv_put_if_absent memory_kv_tier s k v)) =
        (if memory_view s k = None then (memory_view s)(k \<mapsto> v) else memory_view s)"
    using ok memory_ok_set [of s k v] memory_view_set [of s k v] memory_set_result [of s k v]
    by (auto simp: memory_kv_tier_def memory_put_if_absent_def case_prod_beta' Let_def
        memory_view_def)
  show "\<exists>ks. kv_list memory_kv_tier s p = Inr ks \<and> sorted_wrt (<) ks \<and>
      set ks = {k \<in> dom (memory_view s). starts_with k p}"
    using memory_list_view [OF ok] by (simp add: memory_kv_tier_def)
qed

subsection \<open>Generations detect every write\<close>

datatype 't kv_op =
  OpSet string 't
| OpPut string 't
| OpDelete string
| OpClear
| OpMatch string 't kv_generation

fun kv_step :: "'t memory_kv \<Rightarrow> 't kv_op \<Rightarrow> 't memory_kv" where
  "kv_step s (OpSet k v) = fst (memory_set s k v)"
| "kv_step s (OpPut k v) = fst (memory_put_if_absent s k v)"
| "kv_step s (OpDelete k) = fst (memory_delete s k)"
| "kv_step s OpClear = memory_clear s"
| "kv_step s (OpMatch k v g) = fst (memory_set_if_match s k v g)"

text \<open>Whether an operation writes or removes a key, given the state it meets.\<close>

fun kv_touches :: "string \<Rightarrow> 't memory_kv \<Rightarrow> 't kv_op \<Rightarrow> bool" where
  "kv_touches k s (OpSet k' v) \<longleftrightarrow> k = k'"
| "kv_touches k s (OpPut k' v) \<longleftrightarrow> k = k' \<and> memory_view s k = None"
| "kv_touches k s (OpDelete k') \<longleftrightarrow> k = k' \<and> memory_view s k \<noteq> None"
| "kv_touches k s OpClear \<longleftrightarrow> True"
| "kv_touches k s (OpMatch k' v g) \<longleftrightarrow> k = k' \<and> snd (memory_set_if_match s k' v g) = Inr True"

fun kv_untouched :: "string \<Rightarrow> 't memory_kv \<Rightarrow> 't kv_op list \<Rightarrow> bool" where
  "kv_untouched k s [] \<longleftrightarrow> True"
| "kv_untouched k s (op # ops) \<longleftrightarrow> \<not> kv_touches k s op \<and> kv_untouched k (kv_step s op) ops"

definition kv_run :: "'t memory_kv \<Rightarrow> 't kv_op list \<Rightarrow> 't memory_kv" where
  "kv_run s ops = foldl kv_step s ops"

definition versions_ok :: "'t memory_kv \<Rightarrow> bool" where
  "versions_ok s \<longleftrightarrow> memory_ok s \<and> mk_next_version s > 0 \<and>
     (\<forall>k. current_version s k < mk_next_version s)"

definition stamp :: "'t memory_kv \<Rightarrow> string \<Rightarrow> nat \<times> nat" where
  "stamp s k = (unat (mk_epoch s), unat (current_version s k))"

definition version_room :: "nat \<Rightarrow> 't memory_kv \<Rightarrow> bool" where
  "version_room n s \<longleftrightarrow> unat (mk_next_version s) + n < 2 ^ 64 \<and> unat (mk_epoch s) + n < 2 ^ 64"

lemma versions_ok_new [simp]: "versions_ok (memory_kv_new i)"
  by (simp add: versions_ok_def memory_kv_new_def current_version_def memory_ok_def)

lemma next_version_room:
  "version_room 1 s \<Longrightarrow> unat (mk_next_version s + 1) = unat (mk_next_version s) + 1"
  by (simp add: version_room_def unat_add_lem [THEN iffD1])

lemma epoch_room: "version_room 1 s \<Longrightarrow> unat (mk_epoch s + 1) = unat (mk_epoch s) + 1"
  by (simp add: version_room_def unat_add_lem [THEN iffD1])

lemma current_version_set:
  "memory_ok s \<Longrightarrow> current_version (fst (memory_set s k v)) k' =
     (if k' = k then mk_next_version s else current_version s k')"
  by (auto simp: memory_ok_def current_version_def memory_set_def bump_version_def Let_def btree
      split: option.split)

lemma current_version_delete:
  "memory_ok s \<Longrightarrow> current_version (fst (memory_delete s k)) k' =
     (if k' = k \<and> memory_view s k \<noteq> None then mk_next_version s else current_version s k')"
  by (auto simp: memory_ok_def current_version_def memory_delete_def bump_version_def Let_def btree
      memory_view_def split: option.split)

lemma memory_set_frame [simp]:
  "mk_next_version (fst (memory_set s k v)) = mk_next_version s + 1"
  "mk_epoch (fst (memory_set s k v)) = mk_epoch s"
  "mk_store_id (fst (memory_set s k v)) = mk_store_id s"
  by (simp_all add: memory_set_def bump_version_def Let_def)

lemma memory_delete_frame [simp]:
  "mk_next_version (fst (memory_delete s k)) =
     (if memory_view s k = None then mk_next_version s else mk_next_version s + 1)"
  "mk_epoch (fst (memory_delete s k)) = mk_epoch s"
  "mk_store_id (fst (memory_delete s k)) = mk_store_id s"
  by (simp_all add: memory_delete_def bump_version_def Let_def memory_view_def)

text \<open>What one operation does to the stamp of a key: a write makes it later, nothing else moves it.\<close>

definition step_ok :: "string \<Rightarrow> 't memory_kv \<Rightarrow> bool \<Rightarrow> 't memory_kv \<Rightarrow> bool" where
  "step_ok k s touched s' \<longleftrightarrow> versions_ok s' \<and> mk_store_id s' = mk_store_id s \<and>
     unat (mk_next_version s') \<le> unat (mk_next_version s) + 1 \<and>
     unat (mk_epoch s') \<le> unat (mk_epoch s) + 1 \<and>
     (if touched then stamp s k < stamp s' k
      else stamp s' k = stamp s k \<and> memory_view s' k = memory_view s k)"

lemma versions_ok_bump:
  assumes "versions_ok s" "version_room 1 s" "memory_ok s'"
    and "mk_next_version s' = mk_next_version s + 1"
    and "\<And>k'. current_version s' k' = (if k' = k \<and> b then mk_next_version s else current_version s k')"
  shows "versions_ok s'"
proof -
  have "mk_next_version s < mk_next_version s + 1"
    using next_version_room [OF assms(2)] by (simp add: word_less_nat_alt)
  then show ?thesis
    using assms by (auto simp: versions_ok_def intro: less_trans)
qed

lemma step_ok_set:
  assumes "versions_ok s" "version_room 1 s"
  shows "step_ok k s (k = k') (fst (memory_set s k' v))"
proof -
  have ok: "memory_ok s" using assms by (simp add: versions_ok_def)
  have "versions_ok (fst (memory_set s k' v))"
    by (rule versions_ok_bump [OF assms, where k = k' and b = True])
      (simp_all add: ok current_version_set memory_ok_set)
  moreover have "unat (current_version s k) < unat (mk_next_version s)"
    using assms(1) unfolding versions_ok_def word_less_nat_alt by blast
  moreover have "unat (mk_next_version s + 1) \<le> unat (mk_next_version s) + 1"
    using next_version_room [OF assms(2)] by linarith
  ultimately show ?thesis
    unfolding step_ok_def stamp_def memory_set_frame current_version_set [OF ok] memory_view_set
    by (cases "k = k'") simp_all
qed

lemma step_ok_idle: "versions_ok s \<Longrightarrow> step_ok k s False s"
  by (simp add: step_ok_def)

lemma step_ok_delete:
  assumes "versions_ok s" "version_room 1 s"
  shows "step_ok k s (k = k' \<and> memory_view s k \<noteq> None) (fst (memory_delete s k'))"
proof (cases "memory_view s k' = None")
  case True
  then have "fst (memory_delete s k') = s"
    by (simp add: memory_delete_def memory_view_def)
  moreover have "\<not> (k = k' \<and> memory_view s k \<noteq> None)" using True by auto
  ultimately show ?thesis using step_ok_idle [OF assms(1), of k] by (simp only: simp_thms if_False)
next
  case False
  have ok: "memory_ok s" using assms by (simp add: versions_ok_def)
  have "versions_ok (fst (memory_delete s k'))"
    using False by (intro versions_ok_bump [OF assms, where k = k' and b = True])
      (simp_all add: ok current_version_delete memory_ok_delete)
  moreover have "unat (current_version s k) < unat (mk_next_version s)"
    using assms(1) unfolding versions_ok_def word_less_nat_alt by blast
  moreover have "unat (mk_next_version s + 1) \<le> unat (mk_next_version s) + 1"
    using next_version_room [OF assms(2)] by linarith
  ultimately show ?thesis
    using False
    unfolding step_ok_def stamp_def memory_delete_frame current_version_delete [OF ok]
      memory_view_delete [OF ok]
    by (cases "k = k'") simp_all
qed

lemma step_ok_clear:
  assumes "versions_ok s" "version_room 1 s"
  shows "step_ok k s True (memory_clear s)"
proof -
  have "0 < unat (mk_next_version s)" using assms by (simp add: versions_ok_def word_less_nat_alt)
  then show ?thesis
    using epoch_room [OF assms(2)]
    by (simp add: step_ok_def stamp_def memory_clear_def versions_ok_def memory_ok_def
        current_version_def less_prod_def)
qed

lemma kv_step_ok:
  assumes "versions_ok s" "version_room 1 s"
  shows "step_ok k s (kv_touches k s op) (kv_step s op)"
proof (cases op)
  case (OpPut k' v)
  have "fst (memory_put_if_absent s k' v) =
      (if memory_view s k' = None then fst (memory_set s k' v) else s)"
    by (auto simp: memory_put_if_absent_def memory_view_def case_prod_beta' Let_def)
  with OpPut show ?thesis
    using step_ok_set [OF assms, of k k' v] step_ok_idle [OF assms(1), of k] by (auto cong: conj_cong)
next
  case (OpMatch k' v g)
  have "fst (memory_set_if_match s k' v g) =
      (if snd (memory_set_if_match s k' v g) = Inr True then fst (memory_set s k' v) else s)"
    by (auto simp: memory_set_if_match_def case_prod_beta' Let_def)
  with OpMatch show ?thesis
    using step_ok_set [OF assms, of k k' v] step_ok_idle [OF assms(1), of k] by auto
next
  case (OpDelete k')
  then show ?thesis using step_ok_delete [OF assms, of k k'] by (simp only: kv_touches.simps kv_step.simps)
qed (use step_ok_set [OF assms] step_ok_clear [OF assms] in \<open>simp_all\<close>)

lemma version_room_step:
  "version_room (Suc n) s \<Longrightarrow> step_ok k s b s' \<Longrightarrow> version_room n s'"
  by (auto simp: version_room_def step_ok_def)

lemma kv_run_ok:
  assumes "versions_ok s" "version_room (length ops) s"
  shows "versions_ok (kv_run s ops) \<and> mk_store_id (kv_run s ops) = mk_store_id s \<and>
    (if kv_untouched k s ops
     then stamp (kv_run s ops) k = stamp s k \<and> memory_view (kv_run s ops) k = memory_view s k
     else stamp s k < stamp (kv_run s ops) k)"
  using assms
proof (induction ops arbitrary: s)
  case (Cons op ops)
  let ?s = "kv_step s op"
  have "version_room 1 s" using Cons.prems(2) by (auto simp: version_room_def)
  then have step: "step_ok k s (kv_touches k s op) ?s"
    using kv_step_ok Cons.prems(1) by blast
  have "version_room (length ops) ?s"
    using version_room_step [OF _ step] Cons.prems(2) by simp
  moreover have "versions_ok ?s" using step by (simp add: step_ok_def)
  ultimately show ?case
    using Cons.IH [of ?s] step
    by (auto simp: kv_run_def step_ok_def split: if_splits intro: less_trans)
qed (simp add: kv_run_def)

lemma set_if_match_stamp:
  "snd (memory_set_if_match s k v \<lparr>kg_store_id = mk_store_id s, kg_epoch = e, kg_key = k, kg_version = w\<rparr>)
     = Inr (stamp s k = (unat e, unat w))"
  by (auto simp: memory_set_if_match_def stamp_def case_prod_beta' Let_def unat_inj_iff)

text \<open>
  C14. Versioned writes are lost-update free. A client reads a key of the in-memory tier, anyone
  then performs any sequence of operations (sets, conditional sets, deletions, a clear), and the
  client writes back under the generation it read: the write is accepted exactly when no
  operation in between wrote or removed that key, and then the key still has the value the client
  saw. A key deleted and set again to its old value is detected too. The bound keeps the 64-bit
  version and epoch counters from wrapping.
\<close>

theorem set_if_match_no_lost_update:
  assumes "versions_ok s" "version_room (length ops) s"
    and "memory_get_versioned s k = Inr r"
  shows "snd (memory_set_if_match (kv_run s ops) k v (read_generation r)) = Inr (kv_untouched k s ops) \<and>
    (kv_untouched k s ops \<longrightarrow> memory_get (kv_run s ops) k = memory_get s k)"
proof -
  have r: "read_generation r = generation_for s k"
    using assms(3) by (auto simp: memory_get_versioned_def generation_for_def current_version_def
        split: option.splits)
  note run = kv_run_ok [OF assms(1,2), of k]
  have "read_generation r = \<lparr>kg_store_id = mk_store_id (kv_run s ops), kg_epoch = mk_epoch s,
      kg_key = k, kg_version = current_version s k\<rparr>"
    using run r by (simp add: generation_for_def)
  then have "snd (memory_set_if_match (kv_run s ops) k v (read_generation r)) =
      Inr (stamp (kv_run s ops) k = stamp s k)"
    by (simp add: set_if_match_stamp stamp_def)
  then show ?thesis
    using run by (auto simp: memory_get_def memory_view_def split: if_splits)
qed

theorem set_if_match_no_lost_update_witness:
  "snd (memory_set_if_match
     (kv_run (fst (memory_set (memory_kv_new 7) ''k'' (1::nat))) [OpDelete ''k'', OpSet ''k'' 1]) ''k'' 2
     \<lparr>kg_store_id = 7, kg_epoch = 0, kg_key = ''k'', kg_version = 1\<rparr>) = Inr False"
proof -
  let ?s = "fst (memory_set (memory_kv_new 7) ''k'' (1::nat))"
  let ?g = "\<lparr>kg_store_id = 7, kg_epoch = 0, kg_key = ''k'', kg_version = 1\<rparr>"
  have "version_room 1 (memory_kv_new 7 :: nat memory_kv)" by (simp add: version_room_def memory_kv_new_def)
  then have "step_ok ''k'' (memory_kv_new 7) (''k'' = ''k'') ?s"
    by (rule step_ok_set [OF versions_ok_new])
  then have "versions_ok ?s" by (simp add: step_ok_def)
  moreover have "version_room (length [OpDelete ''k'', OpSet ''k'' (1::nat)]) ?s"
    by (simp add: version_room_def memory_kv_new_def)
  moreover have "memory_get_versioned ?s ''k'' = Inr (ReadHit 1 ?g)"
    by (simp add: memory_get_versioned_def memory_set_def bump_version_def memory_kv_new_def Let_def)
  ultimately show ?thesis
    using set_if_match_no_lost_update [of ?s "[OpDelete ''k'', OpSet ''k'' 1]" "''k''" "ReadHit 1 ?g" 2]
    by (simp add: memory_view_set)
qed

end
