(* ===== verification/ReadThrough.thy ===== *)
theory ReadThrough
  imports Storage
begin

text \<open>
  The tiered read-through of \<open>storage.rs\<close>: lookup through a list of key-value tiers, an
  optional loader, and promotion of the found value to earlier tiers, conditional on the
  generation that was observed where the tier is versioned. The tiers have a state each. The
  callbacks \<open>on_miss\<close> and \<open>on_error\<close> only observe (their panics are caught), and are left
  out.
\<close>

record lookup_tier =
  lt_index :: int
  lt_name :: "string option"

datatype read_through_outcome = OutHit | OutMiss | OutError

record 't lookup_fact =
  lf_outcome :: read_through_outcome
  lf_key :: string
  lf_tier :: lookup_tier
  lf_value :: "'t option"
  lf_generation :: "kv_generation option"
  lf_error :: "storage_error option"

record promotion_fact =
  pf_tier :: lookup_tier
  pf_ok :: bool
  pf_error :: "storage_error option"

datatype read_through_status = StatusHit | StatusMiss | StatusError

record 't read_through_result =
  rt_status :: read_through_status
  rt_key :: string
  rt_value :: "'t option"
  rt_hit_tier :: "lookup_tier option"
  rt_facts :: "'t lookup_fact list"
  rt_promotions :: "promotion_fact list"

datatype promotion_policy = AllEarlier | Disabled | Indices "nat list"

record ('s, 't) read_through_options =
  ro_key :: string
  ro_tiers :: "('s, 't) kv_tier list"
  ro_tier_names :: "string list"
  ro_load :: "(string \<Rightarrow> 't option storage_result) option"
  ro_promote_to :: promotion_policy

definition lookup_tier_at :: "int \<Rightarrow> string list \<Rightarrow> lookup_tier" where
  "lookup_tier_at index tier_names =
     \<lparr>lt_index = index, lt_name = vec_get tier_names (nat (max index 0))\<rparr>"

definition read_tier ::
  "('s, 't) kv_tier \<Rightarrow> 's \<Rightarrow> string \<Rightarrow> ('t option \<times> kv_generation option) storage_result" where
  "read_tier tier st key =
     (if kv_supports_versioned tier
      then (case kv_get_versioned tier st key of
              Inr (ReadHit v g) \<Rightarrow> Inr (Some v, Some g)
            | Inr (ReadMiss g) \<Rightarrow> Inr (None, Some g)
            | Inl e \<Rightarrow> Inl e)
      else rbind (kv_get tier st key) (\<lambda>found. Inr (found, None)))"

definition hit_fact :: "string \<Rightarrow> lookup_tier \<Rightarrow> 't \<Rightarrow> kv_generation option \<Rightarrow> 't lookup_fact" where
  "hit_fact key info v g = \<lparr>lf_outcome = OutHit, lf_key = key, lf_tier = info, lf_value = Some v,
     lf_generation = g, lf_error = None\<rparr>"

definition miss_fact :: "string \<Rightarrow> lookup_tier \<Rightarrow> kv_generation option \<Rightarrow> 't lookup_fact" where
  "miss_fact key info g = \<lparr>lf_outcome = OutMiss, lf_key = key, lf_tier = info, lf_value = None,
     lf_generation = g, lf_error = None\<rparr>"

definition error_fact :: "string \<Rightarrow> lookup_tier \<Rightarrow> storage_error \<Rightarrow> 't lookup_fact" where
  "error_fact key info e = \<lparr>lf_outcome = OutError, lf_key = key, lf_tier = info, lf_value = None,
     lf_generation = None, lf_error = Some e\<rparr>"

text \<open>The lookup loop: the facts it records, and the tier and value of the first hit.\<close>

fun lookup_loop ::
  "string \<Rightarrow> string list \<Rightarrow> nat \<Rightarrow> (('s, 't) kv_tier \<times> 's) list
    \<Rightarrow> 't lookup_fact list \<times> (lookup_tier \<times> 't) option" where
  "lookup_loop key names index [] = ([], None)"
| "lookup_loop key names index ((tier, st) # rest) =
     (let info = lookup_tier_at (int index) names
      in case read_tier tier st key of
           Inr (Some found, g) \<Rightarrow> ([hit_fact key info found g], Some (info, found))
         | Inr (None, g) \<Rightarrow>
             (let (facts, hit) = lookup_loop key names (index + 1) rest
              in (miss_fact key info g # facts, hit))
         | Inl e \<Rightarrow>
             (let (facts, hit) = lookup_loop key names (index + 1) rest
              in (error_fact key info e # facts, hit)))"

definition loader_tier :: lookup_tier where
  "loader_tier = \<lparr>lt_index = - 1, lt_name = Some ''load''\<rparr>"

definition load_step ::
  "string \<Rightarrow> (string \<Rightarrow> 't option storage_result) option
    \<Rightarrow> 't lookup_fact list \<times> (lookup_tier \<times> 't) option" where
  "load_step key load =
     (case load of
        None \<Rightarrow> ([], None)
      | Some f \<Rightarrow>
          (case f key of
             Inr (Some loaded) \<Rightarrow> ([hit_fact key loader_tier loaded None], Some (loader_tier, loaded))
           | Inr None \<Rightarrow> ([miss_fact key loader_tier None], None)
           | Inl e \<Rightarrow> ([error_fact key loader_tier e], None)))"

definition generation_for_tier :: "'t lookup_fact list \<Rightarrow> nat \<Rightarrow> kv_generation option" where
  "generation_for_tier facts index =
     (case find (\<lambda>f. lt_index (lf_tier f) = int index) facts of
        None \<Rightarrow> None | Some f \<Rightarrow> lf_generation f)"

fun pick_indices :: "nat \<Rightarrow> nat \<Rightarrow> nat list \<Rightarrow> nat list \<Rightarrow> nat list" where
  "pick_indices tier_count max_promote [] out = out"
| "pick_indices tier_count max_promote (index # indices) out =
     pick_indices tier_count max_promote indices
       (if index < tier_count \<and> index < max_promote \<and> index \<notin> set out then out @ [index] else out)"

definition build_promotion_targets :: "nat \<Rightarrow> nat \<Rightarrow> promotion_policy \<Rightarrow> nat list" where
  "build_promotion_targets tier_count hit_index promote_to =
     (if tier_count = 0 then []
      else let max_promote = min hit_index tier_count
           in case promote_to of
                Disabled \<Rightarrow> []
              | AllEarlier \<Rightarrow> [0..<max_promote]
              | Indices indices \<Rightarrow> pick_indices tier_count max_promote indices [])"

definition promote_one ::
  "('s, 't) kv_tier \<Rightarrow> 's \<Rightarrow> string \<Rightarrow> 't \<Rightarrow> kv_generation option \<Rightarrow> 's \<times> bool storage_result" where
  "promote_one tier st key found g =
     (if kv_supports_versioned tier
      then (case g of
              Some g \<Rightarrow> kv_set_if_match tier st key found g
            | None \<Rightarrow> (st, Inl (Backend
                ''tiered_read_through: versioned promotion target was not observed with a generation'')))
      else let (st, r) = kv_set tier st key found in (st, rbind r (\<lambda>_. Inr True)))"

fun promote_loop ::
  "string \<Rightarrow> string list \<Rightarrow> ('s, 't) kv_tier list \<Rightarrow> 't lookup_fact list \<Rightarrow> 't \<Rightarrow> nat list \<Rightarrow> 's list
    \<Rightarrow> 's list \<times> promotion_fact list" where
  "promote_loop key names tiers facts found [] sts = (sts, [])"
| "promote_loop key names tiers facts found (index # targets) sts =
     (let info = lookup_tier_at (int index) names;
          (st, write) = promote_one (tiers ! index) (sts ! index) key found (generation_for_tier facts index);
          pf = (case write of
                    Inr k \<Rightarrow> \<lparr>pf_tier = info, pf_ok = k, pf_error = None\<rparr>
                  | Inl e \<Rightarrow> \<lparr>pf_tier = info, pf_ok = False, pf_error = Some e\<rparr>);
          (sts, rest) = promote_loop key names tiers facts found targets (sts[index := st])
      in (sts, pf # rest))"

definition tiered_read_through ::
  "('s, 't) read_through_options \<Rightarrow> 's list \<Rightarrow> 's list \<times> 't read_through_result" where
  "tiered_read_through opts sts =
     (let key = ro_key opts;
          tiers = ro_tiers opts;
          (facts, hit) = lookup_loop key (ro_tier_names opts) 0 (zip tiers sts);
          (facts', hit) = (if hit = None then load_step key (ro_load opts) else ([], hit));
          facts = facts @ facts';
          (sts, promotions) =
            (case hit of
               None \<Rightarrow> (sts, [])
             | Some (source_tier, found) \<Rightarrow>
                 let source_index = (if lt_index source_tier < 0 then length tiers
                                     else nat (lt_index source_tier))
                 in promote_loop key (ro_tier_names opts) tiers facts found
                      (build_promotion_targets (length tiers) source_index (ro_promote_to opts)) sts);
          status = (if hit \<noteq> None then StatusHit
                    else if list_ex (\<lambda>f. lf_outcome f = OutError) facts then StatusError
                    else StatusMiss)
      in (sts, \<lparr>rt_status = status, rt_key = key, rt_value = map_option snd hit,
                rt_hit_tier = map_option fst hit, rt_facts = facts, rt_promotions = promotions\<rparr>))"

section \<open>What a read-through returns\<close>

text \<open>The reference: the value of the first tier that has one, errors skipped.\<close>

fun first_value :: "string \<Rightarrow> (('s, 't) kv_tier \<times> 's) list \<Rightarrow> (nat \<times> 't) option" where
  "first_value key [] = None"
| "first_value key ((tier, st) # rest) =
     (case read_tier tier st key of
        Inr (Some v, _) \<Rightarrow> Some (0, v)
      | _ \<Rightarrow> map_option (\<lambda>(i, v). (Suc i, v)) (first_value key rest))"

lemma lookup_loop_hit:
  "snd (lookup_loop key names index ts) =
     map_option (\<lambda>(i, v). (lookup_tier_at (int (index + i)) names, v)) (first_value key ts)"
proof (induction ts arbitrary: index)
  case (Cons t ts)
  obtain tier st where t: "t = (tier, st)" by force
  show ?case
    using Cons [of "index + 1"]
    by (cases "first_value key ts")
      (auto simp: t Let_def case_prod_beta' ac_simps split: sum.split prod.split option.split)
qed simp

lemma lookup_loop_index:
  "f \<in> set (fst (lookup_loop key names index ts)) \<Longrightarrow>
     int index \<le> lt_index (lf_tier f) \<and> lf_key f = key"
proof (induction ts arbitrary: index)
  case (Cons t ts)
  obtain tier st where t: "t = (tier, st)" by force
  show ?case
    using Cons.prems Cons.IH [of "index + 1"]
    by (fastforce simp: t Let_def case_prod_beta' hit_fact_def miss_fact_def error_fact_def
        lookup_tier_at_def split: sum.splits prod.splits option.splits)
qed simp

lemma first_value_index: "first_value key ts = Some (i, v) \<Longrightarrow> i < length ts"
proof (induction ts arbitrary: i)
  case (Cons t ts)
  obtain tier st where t: "t = (tier, st)" by force
  show ?case
    using Cons by (auto simp: t split: sum.splits prod.splits option.splits)
qed simp

lemma first_value_before:
  "first_value key ts = Some (i, v) \<Longrightarrow> j < i \<Longrightarrow> \<forall>w g. read_tier (fst (ts ! j)) (snd (ts ! j)) key \<noteq> Inr (Some w, g)"
proof (induction ts arbitrary: i j)
  case (Cons t ts)
  obtain tier st where t: "t = (tier, st)" by force
  show ?case
  proof (cases j)
    case 0
    with Cons.prems show ?thesis
      by (auto simp: t split: sum.splits prod.splits option.splits)
  next
    case (Suc j')
    with Cons show ?thesis
      by (auto simp: t split: sum.splits prod.splits option.splits)
  qed
qed simp

lemma lookup_loop_errors:
  "first_value key ts = None \<Longrightarrow>
     (\<exists>f \<in> set (fst (lookup_loop key names n ts)). lf_outcome f = OutError) \<longleftrightarrow>
     (\<exists>(tier, st) \<in> set ts. \<exists>e. read_tier tier st key = Inl e)"
proof (induction ts arbitrary: n)
  case (Cons t ts)
  obtain tier st where t: "t = (tier, st)" by force
  from Cons show ?case
    by (auto simp: t Let_def case_prod_beta' error_fact_def miss_fact_def split: sum.splits option.splits prod.splits)
qed simp

text \<open>
  C34. A read-through finds the right value. The value returned is that of the first tier, in
  order, whose read hits, whatever earlier tiers missed or failed; only when no tier hits is the
  loader asked. The status is a hit exactly when a value is returned, an error exactly when
  nothing was found and the read of some tier or the loader failed, and a miss otherwise.
\<close>

theorem read_through_first_hit:
  "rt_value (snd (tiered_read_through opts sts)) =
     (case first_value (ro_key opts) (zip (ro_tiers opts) sts) of
        Some (i, v) \<Rightarrow> Some v
      | None \<Rightarrow> (case ro_load opts of
                   None \<Rightarrow> None
                 | Some f \<Rightarrow> (case f (ro_key opts) of Inr r \<Rightarrow> r | Inl _ \<Rightarrow> None))) \<and>
   (rt_status (snd (tiered_read_through opts sts)) =
     (if rt_value (snd (tiered_read_through opts sts)) \<noteq> None then StatusHit
      else if (\<exists>(tier, st) \<in> set (zip (ro_tiers opts) sts). \<exists>e. read_tier tier st (ro_key opts) = Inl e) \<or>
        (\<exists>f e. ro_load opts = Some f \<and> f (ro_key opts) = Inl e)
      then StatusError else StatusMiss))"
proof -
  obtain facts hit where loop: "lookup_loop (ro_key opts) (ro_tier_names opts) 0 (zip (ro_tiers opts) sts)
      = (facts, hit)"
    by force
  have hit: "hit = map_option (\<lambda>(i, v). (lookup_tier_at (int i) (ro_tier_names opts), v))
      (first_value (ro_key opts) (zip (ro_tiers opts) sts))"
    using lookup_loop_hit [of "ro_key opts" "ro_tier_names opts" 0 "zip (ro_tiers opts) sts"]
    by (simp add: loop)
  show ?thesis
  proof (cases "first_value (ro_key opts) (zip (ro_tiers opts) sts)")
    case None
    then have errors: "(\<exists>f \<in> set facts. lf_outcome f = OutError) \<longleftrightarrow>
        (\<exists>(tier, st) \<in> set (zip (ro_tiers opts) sts). \<exists>e. read_tier tier st (ro_key opts) = Inl e)"
      using lookup_loop_errors [of "ro_key opts" "zip (ro_tiers opts) sts" "ro_tier_names opts" 0] by (simp add: loop)
    have loaded: "(\<exists>f \<in> set (fst (load_step (ro_key opts) (ro_load opts))). lf_outcome f = OutError) \<longleftrightarrow>
        (\<exists>f e. ro_load opts = Some f \<and> f (ro_key opts) = Inl e)"
      by (auto simp: load_step_def hit_fact_def miss_fact_def error_fact_def split: option.split sum.split)
    have found: "(case ro_load opts of None \<Rightarrow> None | Some f \<Rightarrow> (case f (ro_key opts) of Inr r \<Rightarrow> r | Inl _ \<Rightarrow> None)) =
        map_option snd (snd (load_step (ro_key opts) (ro_load opts)))"
      by (auto simp: load_step_def split: option.split sum.split)
    obtain facts' hit' where load: "load_step (ro_key opts) (ro_load opts) = (facts', hit')" by force
    show ?thesis
      unfolding errors [symmetric] loaded [symmetric] found
      using None hit by (cases hit') (auto simp: tiered_read_through_def loop load Let_def case_prod_beta' list_ex_iff)
  next
    case (Some p)
    then show ?thesis
      using hit by (auto simp: tiered_read_through_def loop Let_def case_prod_beta')
  qed
qed

section \<open>Promotion\<close>

abbreviation (input) memory_tiers :: "'t memory_kv list \<Rightarrow> (('t memory_kv, 't) kv_tier \<times> 't memory_kv) list"
  where "memory_tiers sts \<equiv> map (\<lambda>st. (memory_kv_tier, st)) sts"

lemma read_memory_tier:
  "read_tier memory_kv_tier st key = Inr (memory_view st key, Some (generation_for st key))"
  by (simp add: read_tier_def memory_kv_tier_def memory_get_versioned_def memory_view_def
      generation_for_def current_version_def split: option.split)

lemma generation_observed:
  "first_value key (memory_tiers sts) = Some (i, v) \<Longrightarrow> j < i \<Longrightarrow>
     generation_for_tier (fst (lookup_loop key names index (memory_tiers sts)) @ facts) (index + j) =
       Some (generation_for (sts ! j) key)"
proof (induction sts arbitrary: index i j)
  case (Cons st sts)
  from Cons.prems have miss: "memory_view st key = None"
    by (auto simp: read_memory_tier split: option.splits)
  with Cons.prems(1) obtain i' where i': "first_value key (memory_tiers sts) = Some (i', v)" "i = Suc i'"
    by (auto simp: read_memory_tier)
  let ?facts = "fst (lookup_loop key names (Suc index) (memory_tiers sts)) @ facts"
  have facts: "fst (lookup_loop key names index (memory_tiers (st # sts))) @ facts =
      miss_fact key (lookup_tier_at (int index) names) (Some (generation_for st key)) # ?facts"
    by (simp add: read_memory_tier miss case_prod_beta' Let_def)
  show ?case
  proof (cases j)
    case 0
    then show ?thesis
      unfolding facts by (simp add: generation_for_tier_def miss_fact_def lookup_tier_at_def)
  next
    case (Suc j')
    then have "generation_for_tier ?facts (Suc index + j') = Some (generation_for (sts ! j') key)"
      using Cons.IH [OF i'(1), of j' "Suc index"] Cons.prems(2) i'(2) by simp
    then show ?thesis
      unfolding facts Suc by (simp add: generation_for_tier_def miss_fact_def lookup_tier_at_def)
  qed
qed simp

lemma promote_memory:
  "promote_one memory_kv_tier st key v (Some (generation_for st key)) =
     (fst (memory_set st key v), Inr True)"
  by (simp add: promote_one_def memory_kv_tier_def memory_set_if_match_def generation_for_def
      case_prod_beta' Let_def)

lemma promote_loop_memory:
  assumes "distinct targets" "set targets \<subseteq> {..<length sts}" "length tiers = length sts"
    and "\<And>j. j < length sts \<Longrightarrow> tiers ! j = memory_kv_tier"
    and "\<And>j. j \<in> set targets \<Longrightarrow> generation_for_tier facts j = Some (generation_for (sts ! j) key)"
  shows "fst (promote_loop key names tiers facts v targets sts) =
      map (\<lambda>j. if j \<in> set targets then fst (memory_set (sts ! j) key v) else sts ! j) [0..<length sts] \<and>
    snd (promote_loop key names tiers facts v targets sts) =
      map (\<lambda>j. \<lparr>pf_tier = lookup_tier_at (int j) names, pf_ok = True, pf_error = None\<rparr>) targets"
  using assms
proof (induction targets arbitrary: sts)
  case Nil
  then show ?case by (simp add: map_nth)
next
  case (Cons j targets)
  let ?sts = "sts[j := fst (memory_set (sts ! j) key v)]"
  have j: "j < length sts" using Cons.prems(2) by simp
  have gen: "generation_for_tier facts k = Some (generation_for (?sts ! k) key)" if "k \<in> set targets" for k
    using that Cons.prems(1,5) by (metis distinct.simps(2) list.set_intros(2) nth_list_update_neq)
  have ih: "fst (promote_loop key names tiers facts v targets ?sts) =
      map (\<lambda>k. if k \<in> set targets then fst (memory_set (?sts ! k) key v) else ?sts ! k) [0..<length ?sts]"
    "snd (promote_loop key names tiers facts v targets ?sts) =
      map (\<lambda>j. \<lparr>pf_tier = lookup_tier_at (int j) names, pf_ok = True, pf_error = None\<rparr>) targets"
    using Cons.IH [of ?sts] Cons.prems(1-4) gen by auto
  have step: "promote_loop key names tiers facts v (j # targets) sts =
      (fst (promote_loop key names tiers facts v targets ?sts),
       \<lparr>pf_tier = lookup_tier_at (int j) names, pf_ok = True, pf_error = None\<rparr>
         # snd (promote_loop key names tiers facts v targets ?sts))"
    using Cons.prems(4) [OF j] Cons.prems(5) [of j]
    by (simp add: promote_memory case_prod_beta' Let_def)
  show ?case
    unfolding step using ih j Cons.prems(1)
    by (auto simp: nth_list_update)
qed

text \<open>
  C35. Promotion fills the caches. With in-memory tiers and the default policy, a read-through that
  hits in tier \<open>i\<close> writes the value into every tier before \<open>i\<close> (each write is accepted,
  since nothing changed the tier after it was observed), reports these promotions in order, and
  leaves tier \<open>i\<close> and the later ones untouched.
\<close>

theorem promotion_fills_earlier_tiers:
  assumes tiers: "ro_tiers opts = replicate (length sts) memory_kv_tier"
    and "ro_promote_to opts = AllEarlier"
    and hit: "first_value (ro_key opts) (zip (ro_tiers opts) sts) = Some (i, v)"
    and res: "tiered_read_through opts sts = (sts', r)"
  shows "length sts' = length sts \<and>
    (\<forall>j < i. memory_view (sts' ! j) = (memory_view (sts ! j))(ro_key opts \<mapsto> v)) \<and>
    (\<forall>j < length sts. i \<le> j \<longrightarrow> sts' ! j = sts ! j) \<and>
    length (rt_promotions r) = i \<and> (\<forall>p \<in> set (rt_promotions r). pf_ok p)"
proof -
  let ?key = "ro_key opts" and ?names = "ro_tier_names opts"
  have zip: "zip (ro_tiers opts) sts = memory_tiers sts"
    unfolding tiers by (simp add: zip_replicate1)
  define facts where "facts = fst (lookup_loop ?key ?names 0 (memory_tiers sts))"
  have i: "i < length sts" using first_value_index [OF hit] zip by simp
  have loop: "lookup_loop ?key ?names 0 (memory_tiers sts) =
      (facts, Some (lookup_tier_at (int i) ?names, v))"
    using lookup_loop_hit [of ?key ?names 0 "memory_tiers sts"] hit
    by (simp add: zip facts_def prod_eq_iff)
  have targets: "build_promotion_targets (length sts) i AllEarlier = [0..<i]"
    using i by (auto simp: build_promotion_targets_def)
  have gen: "generation_for_tier facts j = Some (generation_for (sts ! j) ?key)" if "j < i" for j
    using generation_observed [of ?key sts i v j ?names 0 "[]"] hit that by (simp add: zip facts_def)
  have promo: "fst (promote_loop ?key ?names (ro_tiers opts) facts v [0..<i] sts) =
      map (\<lambda>j. if j \<in> set [0..<i] then fst (memory_set (sts ! j) ?key v) else sts ! j) [0..<length sts] \<and>
    snd (promote_loop ?key ?names (ro_tiers opts) facts v [0..<i] sts) =
      map (\<lambda>j. \<lparr>pf_tier = lookup_tier_at (int j) ?names, pf_ok = True, pf_error = None\<rparr>) [0..<i]"
    using i gen by (intro promote_loop_memory) (auto simp: tiers)
  have "tiered_read_through opts sts = (fst (promote_loop ?key ?names (ro_tiers opts) facts v [0..<i] sts),
      snd (tiered_read_through opts sts)) \<and>
    rt_promotions (snd (tiered_read_through opts sts)) =
      snd (promote_loop ?key ?names (ro_tiers opts) facts v [0..<i] sts)"
    unfolding tiered_read_through_def Let_def loop [folded zip]
    using assms(2) targets tiers by (simp add: case_prod_beta' lookup_tier_at_def)
  then show ?thesis
    using promo i res by (auto simp: memory_view_set)
qed

theorem promotion_fills_earlier_tiers_witness:
  "memory_view (fst (tiered_read_through
     \<lparr>ro_key = ''k'', ro_tiers = replicate 2 memory_kv_tier, ro_tier_names = [], ro_load = None,
      ro_promote_to = AllEarlier\<rparr>
     [memory_kv_new 0, fst (memory_set (memory_kv_new 1) ''k'' (9::nat))]) ! 0) ''k'' = Some 9"
proof -
  let ?o = "\<lparr>ro_key = ''k'', ro_tiers = replicate 2 memory_kv_tier, ro_tier_names = [], ro_load = None,
      ro_promote_to = AllEarlier\<rparr>"
  let ?sts = "[memory_kv_new 0, fst (memory_set (memory_kv_new 1) ''k'' (9::nat))]"
  have "memory_view (memory_kv_new 0 :: nat memory_kv) ''k'' = None"
    by (simp add: memory_view_def memory_kv_new_def)
  then have "first_value ''k'' (zip (ro_tiers ?o) ?sts) = Some (1, 9)"
    by (simp add: read_memory_tier memory_view_set numeral_2_eq_2)
  then show ?thesis
    using promotion_fills_earlier_tiers [of ?o ?sts 1 9 "fst (tiered_read_through ?o ?sts)"
        "snd (tiered_read_through ?o ?sts)"]
    by (simp add: numeral_2_eq_2)
qed

end
