(* ===== verification/Collections.thy ===== *)
theory Collections
  imports Prelude "HOL-Library.Monad_Syntax"
begin

text \<open>
  The reactive collections of \<open>data_structures.rs\<close>: the list, log, index and map backends, the
  operations of the reactive wrappers with the changes they emit on the delta node, the read
  views, and the body of the incremental scan over a log. An operation returns the new state and
  the changes it emits, in order; a panic is \<open>None\<close>. \<open>usize\<close> is \<open>nat\<close>, \<open>isize\<close> is
  \<open>int\<close>. Versions are 64-bit and wrap, as in the source.
\<close>

section \<open>Changes\<close>

datatype 't list_change =
  ListAppend 't
| ListAppendMany "'t list"
| ListInsert nat 't
| ListInsertMany nat "'t list"
| ListPop nat 't
| ListTrimHead nat
| ListClear nat

datatype 't log_change =
  LogAppended 't
| LogAppendMany "'t list"
| LogTrimHead nat
| LogClear nat

datatype ('k, 's, 'v) index_change =
  IndexUpsert 'k 's 'v
| IndexDelete 'k
| IndexDeleteMany "'k list"
| IndexClear nat

datatype ('k, 'v) map_change =
  MapSet 'k 'v
| MapDelete 'k 'v
| MapClear nat

record ('k, 's, 'v) index_row =
  ir_primary :: 'k
  ir_secondary :: 's
  ir_value :: 'v

section \<open>Lists\<close>

definition trim_head_overflow :: "nat option \<Rightarrow> 'a list \<Rightarrow> ('a list \<times> nat) option" where
  "trim_head_overflow max_size buf =
     (case max_size of
        None \<Rightarrow> Some (buf, 0)
      | Some m \<Rightarrow>
          if m = 0 then None
          else if length buf \<le> m then Some (buf, 0)
          else let removed = length buf - m in Some (drop removed buf, removed))"

definition normalize_read_index :: "int \<Rightarrow> nat \<Rightarrow> nat option" where
  "normalize_read_index index len =
     (if len \<ge> 2 ^ 63 then None
      else let i = (if index \<ge> 0 then index else int len + index)
           in if i \<ge> 0 \<and> i < int len then Some (nat i) else None)"

record 't list_backend =
  lb_buf :: "'t list"
  lb_version :: u64

definition lb_new :: "'t list \<Rightarrow> nat option \<Rightarrow> 't list_backend option" where
  "lb_new initial max_size = do {
     (buf, _) \<leftarrow> trim_head_overflow max_size initial;
     Some \<lparr>lb_buf = buf, lb_version = 0\<rparr> }"

definition lb_put :: "'t list \<Rightarrow> 't list_backend \<Rightarrow> 't list_backend" where
  "lb_put buf b = b\<lparr>lb_buf := buf, lb_version := lb_version b + 1\<rparr>"

definition lb_at :: "'t list_backend \<Rightarrow> int \<Rightarrow> 't option" where
  "lb_at b index = do {
     i \<leftarrow> normalize_read_index index (length (lb_buf b));
     vec_get (lb_buf b) i }"

definition lb_append :: "'t \<Rightarrow> 't list_backend \<Rightarrow> 't list_backend" where
  "lb_append v b = lb_put (lb_buf b @ [v]) b"

definition lb_append_many :: "'t list \<Rightarrow> 't list_backend \<Rightarrow> 't list_backend" where
  "lb_append_many vs b = (if vs = [] then b else lb_put (lb_buf b @ vs) b)"

definition insert_at :: "nat \<Rightarrow> 'a list \<Rightarrow> 'a list \<Rightarrow> 'a list" where
  "insert_at i vs xs = take i xs @ vs @ drop i xs"

definition remove_at :: "nat \<Rightarrow> 'a list \<Rightarrow> 'a list" where
  "remove_at i xs = take i xs @ drop (i + 1) xs"

definition lb_insert :: "nat \<Rightarrow> 't \<Rightarrow> 't list_backend \<Rightarrow> 't list_backend option" where
  "lb_insert i v b =
     (if i \<le> length (lb_buf b) then Some (lb_put (insert_at i [v] (lb_buf b)) b) else None)"

definition lb_insert_many :: "nat \<Rightarrow> 't list \<Rightarrow> 't list_backend \<Rightarrow> 't list_backend option" where
  "lb_insert_many i vs b =
     (if i \<le> length (lb_buf b)
      then Some (if vs = [] then b else lb_put (insert_at i vs (lb_buf b)) b) else None)"

definition lb_pop :: "int option \<Rightarrow> 't list_backend \<Rightarrow> ('t list_backend \<times> nat \<times> 't) option" where
  "lb_pop index b =
     (if lb_buf b = [] then None
      else let raw = (case index of None \<Rightarrow> - 1 | Some i \<Rightarrow> i)
           in do { i \<leftarrow> normalize_read_index raw (length (lb_buf b));
                   Some (lb_put (remove_at i (lb_buf b)) b, i, lb_buf b ! i) })"

definition lb_clear :: "'t list_backend \<Rightarrow> 't list_backend \<times> nat" where
  "lb_clear b = (let n = length (lb_buf b) in if n = 0 then (b, 0) else (lb_put [] b, n))"

definition lb_enforce_max_size :: "nat option \<Rightarrow> 't list_backend \<Rightarrow> ('t list_backend \<times> nat) option" where
  "lb_enforce_max_size max_size b = do {
     (buf, removed) \<leftarrow> trim_head_overflow max_size (lb_buf b);
     Some (if removed > 0 then lb_put buf b else b, removed) }"

record 't reactive_list =
  rl_backend :: "'t list_backend"
  rl_max_size :: "nat option"

definition rl_new :: "'t list \<Rightarrow> nat option \<Rightarrow> 't reactive_list option" where
  "rl_new initial max_size =
     (if max_size = Some 0 then None
      else do { b \<leftarrow> lb_new initial max_size; Some \<lparr>rl_backend = b, rl_max_size = max_size\<rparr> })"

text \<open>\<open>emit_trimmed\<close>: enforce the capacity after a change, and say what was dropped.\<close>

definition rl_enforce_capacity :: "'t list_change list \<Rightarrow> 't list_backend \<Rightarrow> 't reactive_list
    \<Rightarrow> ('t reactive_list \<times> 't list_change list) option" where
  "rl_enforce_capacity changes b l = do {
     (b, n) \<leftarrow> lb_enforce_max_size (rl_max_size l) b;
     Some (l\<lparr>rl_backend := b\<rparr>, changes @ (if n > 0 then [ListTrimHead n] else [])) }"

definition rl_append :: "'t \<Rightarrow> 't reactive_list \<Rightarrow> ('t reactive_list \<times> 't list_change list) option" where
  "rl_append v l = rl_enforce_capacity [ListAppend v] (lb_append v (rl_backend l)) l"

definition rl_append_many :: "'t list \<Rightarrow> 't reactive_list \<Rightarrow> ('t reactive_list \<times> 't list_change list) option" where
  "rl_append_many vs l =
     (if vs = [] then Some (l, [])
      else rl_enforce_capacity [ListAppendMany vs] (lb_append_many vs (rl_backend l)) l)"

definition rl_insert :: "nat \<Rightarrow> 't \<Rightarrow> 't reactive_list \<Rightarrow> ('t reactive_list \<times> 't list_change list) option" where
  "rl_insert i v l = do {
     b \<leftarrow> lb_insert i v (rl_backend l);
     rl_enforce_capacity [ListInsert i v] b l }"

definition rl_insert_many :: "nat \<Rightarrow> 't list \<Rightarrow> 't reactive_list \<Rightarrow> ('t reactive_list \<times> 't list_change list) option" where
  "rl_insert_many i vs l = do {
     b \<leftarrow> lb_insert_many i vs (rl_backend l);
     (if vs = [] then Some (l\<lparr>rl_backend := b\<rparr>, [])
      else rl_enforce_capacity [ListInsertMany i vs] b l) }"

definition rl_pop :: "int option \<Rightarrow> 't reactive_list \<Rightarrow> ('t reactive_list \<times> 't list_change list \<times> 't) option" where
  "rl_pop index l = do {
     (b, i, v) \<leftarrow> lb_pop index (rl_backend l);
     Some (l\<lparr>rl_backend := b\<rparr>, [ListPop i v], v) }"

definition rl_clear :: "'t reactive_list \<Rightarrow> 't reactive_list \<times> 't list_change list" where
  "rl_clear l =
     (let (b, count) = lb_clear (rl_backend l)
      in (l\<lparr>rl_backend := b\<rparr>, if count > 0 then [ListClear count] else []))"

text \<open>The fold of a bound source (\<open>append_from\<close>): every value of the wave is appended.\<close>

fun rl_bind_source :: "'t list \<Rightarrow> 't reactive_list \<Rightarrow> ('t reactive_list \<times> 't list_change list) option" where
  "rl_bind_source [] l = Some (l, [])"
| "rl_bind_source (v # vs) l = do {
     (l, cs) \<leftarrow> rl_append v l;
     (l, cs') \<leftarrow> rl_bind_source vs l;
     Some (l, cs @ cs') }"

section \<open>Logs\<close>

record 't log_backend =
  gb_buf :: "'t list"
  gb_version :: u64
  gb_max_size :: "nat option"

definition gb_put :: "'t list \<Rightarrow> 't log_backend \<Rightarrow> 't log_backend" where
  "gb_put buf b = b\<lparr>gb_buf := buf, gb_version := gb_version b + 1\<rparr>"

definition gb_new :: "'t list \<Rightarrow> nat option \<Rightarrow> 't log_backend option" where
  "gb_new initial max_size = do {
     (buf, _) \<leftarrow> trim_head_overflow max_size initial;
     Some \<lparr>gb_buf = buf, gb_version = 0, gb_max_size = max_size\<rparr> }"

definition gb_at :: "'t log_backend \<Rightarrow> int \<Rightarrow> 't option" where
  "gb_at b index = do {
     i \<leftarrow> normalize_read_index index (length (gb_buf b));
     vec_get (gb_buf b) i }"

definition gb_enforce_max_size :: "'t log_backend \<Rightarrow> ('t log_backend \<times> nat) option" where
  "gb_enforce_max_size b = do {
     (buf, removed) \<leftarrow> trim_head_overflow (gb_max_size b) (gb_buf b);
     Some (if removed > 0 then gb_put buf b else b, removed) }"

definition gb_append :: "'t \<Rightarrow> 't log_backend \<Rightarrow> ('t log_backend \<times> nat) option" where
  "gb_append v b = gb_enforce_max_size (gb_put (gb_buf b @ [v]) b)"

definition gb_append_many :: "'t list \<Rightarrow> 't log_backend \<Rightarrow> ('t log_backend \<times> nat) option" where
  "gb_append_many vs b =
     (if vs = [] then Some (b, 0) else gb_enforce_max_size (gb_put (gb_buf b @ vs) b))"

definition gb_clear :: "'t log_backend \<Rightarrow> 't log_backend \<times> nat" where
  "gb_clear b = (let n = length (gb_buf b) in if n = 0 then (b, 0) else (gb_put [] b, n))"

definition gb_trim_head :: "nat \<Rightarrow> 't log_backend \<Rightarrow> 't log_backend \<times> nat" where
  "gb_trim_head n b =
     (if n = 0 then (b, 0)
      else let removed = min n (length (gb_buf b))
           in if removed = 0 then (b, 0) else (gb_put (drop removed (gb_buf b)) b, removed))"

definition log_trimmed :: "nat \<Rightarrow> 't log_change list" where
  "log_trimmed n = (if n > 0 then [LogTrimHead n] else [])"

definition rg_new :: "'t list \<Rightarrow> nat option \<Rightarrow> 't log_backend option" where
  "rg_new initial max_size = (if max_size = Some 0 then None else gb_new initial max_size)"

definition rg_append :: "'t \<Rightarrow> 't log_backend \<Rightarrow> ('t log_backend \<times> 't log_change list) option" where
  "rg_append v b = do { (b, n) \<leftarrow> gb_append v b; Some (b, LogAppended v # log_trimmed n) }"

definition rg_append_many :: "'t list \<Rightarrow> 't log_backend \<Rightarrow> ('t log_backend \<times> 't log_change list) option" where
  "rg_append_many vs b =
     (if vs = [] then Some (b, [])
      else do { (b, n) \<leftarrow> gb_append_many vs b; Some (b, LogAppendMany vs # log_trimmed n) })"

definition rg_clear :: "'t log_backend \<Rightarrow> 't log_backend \<times> 't log_change list" where
  "rg_clear b = (let (b, count) = gb_clear b in (b, if count > 0 then [LogClear count] else []))"

definition rg_trim_head :: "nat \<Rightarrow> 't log_backend \<Rightarrow> 't log_backend \<times> 't log_change list" where
  "rg_trim_head n b = (let (b, removed) = gb_trim_head n b in (b, log_trimmed removed))"

text \<open>The bodies of the view nodes over a log.\<close>

definition log_tail :: "nat \<Rightarrow> 't log_backend \<Rightarrow> 't list" where
  "log_tail n b = drop (length (gb_buf b) - n) (gb_buf b)"

definition log_slice :: "nat \<Rightarrow> nat option \<Rightarrow> 't log_backend \<Rightarrow> 't list" where
  "log_slice start stop b =
     (let all = gb_buf b;
          stop' = min (case stop of None \<Rightarrow> length all | Some n \<Rightarrow> n) (length all);
          start' = min start stop'
      in take (stop' - start') (drop start' all))"

definition log_page :: "nat \<Rightarrow> nat \<Rightarrow> 't log_backend \<Rightarrow> 't list" where
  "log_page offset limit b =
     (let all = gb_buf b;
          start = min offset (length all);
          stop = min (min (offset + limit) (2 ^ 64 - 1)) (length all)
      in take (stop - start) (drop start all))"

record 'a log_scan_state =
  ls_acc :: 'a
  ls_processed :: nat

definition log_scan_body ::
  "'a \<Rightarrow> ('a \<Rightarrow> 't \<Rightarrow> 'a) \<Rightarrow> 't list \<Rightarrow> 't log_change list \<Rightarrow> 'a log_scan_state option
    \<Rightarrow> 'a log_scan_state \<times> 'a option" where
  "log_scan_body initial step all changes previous =
     (let appended = sum_list (map (\<lambda>change. case change of
                        LogAppended _ \<Rightarrow> 1 | LogAppendMany vs \<Rightarrow> length vs
                      | LogTrimHead _ \<Rightarrow> 0 | LogClear _ \<Rightarrow> 0) changes);
          reset_change = list_ex (\<lambda>change. case change of
                        LogTrimHead _ \<Rightarrow> True | LogClear _ \<Rightarrow> True | _ \<Rightarrow> False) changes;
          state = (case previous of
                     Some s \<Rightarrow> s | None \<Rightarrow> \<lparr>ls_acc = initial, ls_processed = 0\<rparr>);
          state = (if reset_change \<or> length all < ls_processed state
                   then \<lparr>ls_acc = initial, ls_processed = 0\<rparr> else state)
      in if appended > 0 \<and> length all < min (ls_processed state + appended) (2 ^ 64 - 1)
         then (state, None)
         else let acc = foldl step (ls_acc state) (drop (ls_processed state) all)
              in (\<lparr>ls_acc = acc, ls_processed = length all\<rparr>, Some acc))"

section \<open>Indexes\<close>

record ('k, 's, 'v) index_backend =
  ib_rows :: "('k, 's \<times> 'v) btree"
  ib_version :: u64

definition ib_put :: "('k, 's \<times> 'v) btree \<Rightarrow> ('k, 's, 'v) index_backend \<Rightarrow> ('k, 's, 'v) index_backend" where
  "ib_put rows b = b\<lparr>ib_rows := rows, ib_version := ib_version b + 1\<rparr>"

definition ib_new :: "('k::linorder, 's, 'v) index_row list \<Rightarrow> ('k, 's, 'v) index_backend" where
  "ib_new initial =
     \<lparr>ib_rows = fold (\<lambda>r. bt_insert (ir_primary r) (ir_secondary r, ir_value r)) initial [], ib_version = 0\<rparr>"

definition ib_get :: "('k, 's, 'v) index_backend \<Rightarrow> 'k \<Rightarrow> 'v option" where
  "ib_get b primary = map_option snd (bt_get (ib_rows b) primary)"

definition ib_snapshot :: "('k::linorder, 's::linorder, 'v) index_backend \<Rightarrow> ('k, 's, 'v) index_row list" where
  "ib_snapshot b = sort_key (\<lambda>r. (ir_secondary r, ir_primary r))
     (map (\<lambda>(k, s, v). \<lparr>ir_primary = k, ir_secondary = s, ir_value = v\<rparr>) (ib_rows b))"

definition ib_range_by_primary :: "('k::linorder, 's, 'v) index_backend \<Rightarrow> 'k \<Rightarrow> 'k \<Rightarrow> 'v list" where
  "ib_range_by_primary b start stop =
     (if start \<ge> stop then []
      else map (\<lambda>(_, _, v). v) (filter (\<lambda>(k, _). start \<le> k \<and> k < stop) (ib_rows b)))"

definition ib_upsert :: "'k::linorder \<Rightarrow> 's \<Rightarrow> 'v \<Rightarrow> ('k, 's, 'v) index_backend \<Rightarrow> ('k, 's, 'v) index_backend" where
  "ib_upsert k s v b = ib_put (bt_insert k (s, v) (ib_rows b)) b"

definition ib_delete :: "'k \<Rightarrow> ('k, 's, 'v) index_backend \<Rightarrow> ('k, 's, 'v) index_backend \<times> bool" where
  "ib_delete k b =
     (if bt_get (ib_rows b) k \<noteq> None then (ib_put (bt_remove k (ib_rows b)) b, True) else (b, False))"

fun remove_present :: "'k list \<Rightarrow> ('k, 'r) btree \<Rightarrow> ('k, 'r) btree \<times> 'k list" where
  "remove_present [] rows = (rows, [])"
| "remove_present (k # ks) rows =
     (if bt_get rows k \<noteq> None
      then let (rows, removed) = remove_present ks (bt_remove k rows) in (rows, k # removed)
      else remove_present ks rows)"

definition ib_delete_many :: "'k list \<Rightarrow> ('k, 's, 'v) index_backend \<Rightarrow> ('k, 's, 'v) index_backend \<times> 'k list" where
  "ib_delete_many ks b =
     (let (rows, removed) = remove_present ks (ib_rows b)
      in (if removed \<noteq> [] then ib_put rows b else b, removed))"

definition ib_clear :: "('k, 's, 'v) index_backend \<Rightarrow> ('k, 's, 'v) index_backend \<times> nat" where
  "ib_clear b = (let n = length (ib_rows b) in if n = 0 then (b, 0) else (ib_put [] b, n))"

definition ri_upsert :: "'k::linorder \<Rightarrow> 's \<Rightarrow> 'v \<Rightarrow> ('k, 's, 'v) index_backend
    \<Rightarrow> ('k, 's, 'v) index_backend \<times> ('k, 's, 'v) index_change list" where
  "ri_upsert k s v b = (ib_upsert k s v b, [IndexUpsert k s v])"

definition ri_delete :: "'k \<Rightarrow> ('k, 's, 'v) index_backend
    \<Rightarrow> ('k, 's, 'v) index_backend \<times> ('k, 's, 'v) index_change list" where
  "ri_delete k b = (let (b, removed) = ib_delete k b in (b, if removed then [IndexDelete k] else []))"

definition ri_delete_many :: "'k list \<Rightarrow> ('k, 's, 'v) index_backend
    \<Rightarrow> ('k, 's, 'v) index_backend \<times> ('k, 's, 'v) index_change list" where
  "ri_delete_many ks b =
     (let (b, removed) = ib_delete_many ks b
      in (b, if removed \<noteq> [] then [IndexDeleteMany removed] else []))"

definition ri_clear :: "('k, 's, 'v) index_backend
    \<Rightarrow> ('k, 's, 'v) index_backend \<times> ('k, 's, 'v) index_change list" where
  "ri_clear b = (let (b, count) = ib_clear b in (b, if count > 0 then [IndexClear count] else []))"

section \<open>Maps\<close>

record ('k, 'v) map_backend =
  pb_rows :: "('k, 'v) btree"
  pb_version :: u64

definition pb_put :: "('k, 'v) btree \<Rightarrow> ('k, 'v) map_backend \<Rightarrow> ('k, 'v) map_backend" where
  "pb_put rows b = b\<lparr>pb_rows := rows, pb_version := pb_version b + 1\<rparr>"

definition pb_new :: "('k::linorder \<times> 'v) list \<Rightarrow> ('k, 'v) map_backend" where
  "pb_new initial = \<lparr>pb_rows = fold (\<lambda>(k, v). bt_insert k v) initial [], pb_version = 0\<rparr>"

definition pb_selected_snapshot :: "('v \<Rightarrow> 'k \<Rightarrow> bool) \<Rightarrow> ('k, 'v) map_backend \<Rightarrow> ('k, 'v) btree" where
  "pb_selected_snapshot predicate b = filter (\<lambda>(k, v). predicate v k) (pb_rows b)"

definition pb_set :: "'k::linorder \<Rightarrow> 'v \<Rightarrow> ('k, 'v) map_backend \<Rightarrow> ('k, 'v) map_backend" where
  "pb_set k v b = pb_put (bt_insert k v (pb_rows b)) b"

definition pb_delete :: "'k \<Rightarrow> ('k, 'v) map_backend \<Rightarrow> ('k, 'v) map_backend \<times> 'v option" where
  "pb_delete k b =
     (case bt_get (pb_rows b) k of
        None \<Rightarrow> (b, None)
      | Some previous \<Rightarrow> (pb_put (bt_remove k (pb_rows b)) b, Some previous))"

definition pb_clear :: "('k, 'v) map_backend \<Rightarrow> ('k, 'v) map_backend \<times> nat" where
  "pb_clear b = (let n = length (pb_rows b) in if n = 0 then (b, 0) else (pb_put [] b, n))"

definition rm_set :: "'k::linorder \<Rightarrow> 'v \<Rightarrow> ('k, 'v) map_backend
    \<Rightarrow> ('k, 'v) map_backend \<times> ('k, 'v) map_change list" where
  "rm_set k v b = (pb_set k v b, [MapSet k v])"

fun rm_set_many :: "('k::linorder \<times> 'v) list \<Rightarrow> ('k, 'v) map_backend
    \<Rightarrow> ('k, 'v) map_backend \<times> ('k, 'v) map_change list" where
  "rm_set_many [] b = (b, [])"
| "rm_set_many ((k, v) # kvs) b =
     (let (b, cs) = rm_set k v b; (b, cs') = rm_set_many kvs b in (b, cs @ cs'))"

definition rm_delete :: "'k \<Rightarrow> ('k, 'v) map_backend \<Rightarrow> ('k, 'v) map_backend \<times> ('k, 'v) map_change list" where
  "rm_delete k b =
     (case pb_delete k b of
        (b, Some previous) \<Rightarrow> (b, [MapDelete k previous])
      | (b, None) \<Rightarrow> (b, []))"

fun rm_delete_many :: "'k list \<Rightarrow> ('k, 'v) map_backend \<Rightarrow> ('k, 'v) map_backend \<times> ('k, 'v) map_change list" where
  "rm_delete_many [] b = (b, [])"
| "rm_delete_many (k # ks) b =
     (let (b, cs) = rm_delete k b; (b, cs') = rm_delete_many ks b in (b, cs @ cs'))"

definition rm_clear :: "('k, 'v) map_backend \<Rightarrow> ('k, 'v) map_backend \<times> ('k, 'v) map_change list" where
  "rm_clear b = (let (b, count) = pb_clear b in (b, if count > 0 then [MapClear count] else []))"

end
