(* ===== verification/AppendLog.thy ===== *)
theory AppendLog
  imports Storage
begin

text \<open>
  The append logs of \<open>storage.rs\<close> over any key-value tier: zero-padded sequence keys,
  reading behind a cursor, appending, truncation, the multi-writer append loop, and paging. They
  are proved correct once, in the context of the contract \<open>kv_store\<close>, against the list of
  the appended values, and then for the in-memory tier.
\<close>

subsection \<open>Keys, reading, appending, truncating\<close>

definition APPEND_LOG_SEQ_PAD :: nat where "APPEND_LOG_SEQ_PAD = 20"

record 't append_log_entry =
  ae_key :: string
  ae_seq :: u64
  ae_value :: 't

record append_log_read_options =
  lr_after :: "u64 option"
  lr_limit :: "nat option"

record 't append_log_page =
  lp_entries :: "'t append_log_entry list"
  lp_next_after :: "u64 option"
  lp_done :: bool

text \<open>The operations of the trait \<open>AppendLogStorageTier\<close>.\<close>

record ('s, 't) append_log_tier =
  lg_append :: "'s \<Rightarrow> 't \<Rightarrow> 's \<times> 't append_log_entry storage_result"
  lg_read :: "'s \<Rightarrow> append_log_read_options \<Rightarrow> 't append_log_entry list storage_result"
  lg_truncate_after :: "'s \<Rightarrow> u64 \<Rightarrow> 's \<times> unit storage_result"
  lg_size :: "'s \<Rightarrow> nat storage_result"

definition append_log_key :: "string \<Rightarrow> u64 \<Rightarrow> string" where
  "append_log_key p seq =
     p @ ''/'' @ replicate (APPEND_LOG_SEQ_PAD - length (to_string seq)) CHR ''0'' @ to_string seq"

definition is_ascii_digit :: "char \<Rightarrow> bool" where
  "is_ascii_digit c \<longleftrightarrow> 48 \<le> (of_char c :: nat) \<and> (of_char c :: nat) \<le> 57"

definition seq_from_key :: "string \<Rightarrow> string \<Rightarrow> u64 storage_result" where
  "seq_from_key p key =
     (case strip_prefix (p @ ''/'') key of
        None \<Rightarrow> Inl (Backend (''append log key outside prefix: '' @ key))
      | Some raw \<Rightarrow>
          if \<not> list_all is_ascii_digit raw
          then Inl (Backend (''append log key has a non-numeric sequence: '' @ key))
          else if length raw \<noteq> APPEND_LOG_SEQ_PAD
          then Inl (Backend (''append log key sequence must be 20 padded digits: '' @ key))
          else if dec_val raw < 2 ^ 64 then Inr (of_nat (dec_val raw))
          else Inl (Backend (''append log key sequence is outside the u64 range: '' @ key)))"

definition next_seq_from_keys :: "string \<Rightarrow> string list \<Rightarrow> u64 storage_result" where
  "next_seq_from_keys p keys =
     rbind (collect_results (seq_from_key p) keys)
       (\<lambda>seqs. case seqs of
          [] \<Rightarrow> Inr 0
        | s # ss \<Rightarrow>
            (case checked_add (fold max ss s) 1 of
               Some n \<Rightarrow> Inr n
             | None \<Rightarrow> Inl (Backend (''append log next sequence is outside the u64 range: '' @ p))))"

definition size_from_keys :: "string \<Rightarrow> string list \<Rightarrow> nat storage_result" where
  "size_from_keys p keys =
     rbind (collect_results (seq_from_key p) keys) (\<lambda>_. Inr (length keys))"

definition keyed_seqs :: "string \<Rightarrow> string list \<Rightarrow> (string \<times> u64) list storage_result" where
  "keyed_seqs p keys =
     collect_results (\<lambda>key. rbind (seq_from_key p key) (\<lambda>seq. Inr (key, seq))) keys"

definition read_entry :: "('s, 't) kv_tier \<Rightarrow> 's \<Rightarrow> string \<times> u64 \<Rightarrow> 't append_log_entry storage_result" where
  "read_entry kv st = (\<lambda>(key, seq).
     rbind (kv_get kv st key) (\<lambda>v. case v of
         None \<Rightarrow> Inl (Backend (''append log listed key is missing: '' @ key))
       | Some value \<Rightarrow> Inr \<lparr>ae_key = key, ae_seq = seq, ae_value = value\<rparr>))"

definition read_append_log_entries ::
  "('s, 't) kv_tier \<Rightarrow> 's \<Rightarrow> string \<Rightarrow> append_log_read_options \<Rightarrow> 't append_log_entry list storage_result" where
  "read_append_log_entries kv st p opts =
     rbind (kv_list kv st (p @ ''/'')) (\<lambda>listed.
     rbind (keyed_seqs p listed) (\<lambda>keys.
       let keys = filter (\<lambda>(_, seq). case lr_after opts of None \<Rightarrow> True | Some a \<Rightarrow> seq > a) keys;
           keys = sort_key snd keys;
           keys = (case lr_limit opts of None \<Rightarrow> keys | Some n \<Rightarrow> take n keys)
       in collect_results (read_entry kv st) keys))"

fun delete_entries :: "('s, 't) kv_tier \<Rightarrow> u64 \<Rightarrow> (string \<times> u64) list \<Rightarrow> 's \<Rightarrow> 's \<times> unit storage_result"
  where
  "delete_entries kv seq [] st = (st, Inr ())"
| "delete_entries kv seq ((key, parsed) # rest) st =
     (if parsed > seq
      then (case kv_delete kv st key of
              (st, Inl e) \<Rightarrow> (st, Inl e)
            | (st, Inr _) \<Rightarrow> delete_entries kv seq rest st)
      else delete_entries kv seq rest st)"

definition delete_append_log_entries_after ::
  "('s, 't) kv_tier \<Rightarrow> 's \<Rightarrow> string \<Rightarrow> u64 \<Rightarrow> 's \<times> unit storage_result" where
  "delete_append_log_entries_after kv st p seq =
     (case rbind (kv_list kv st (p @ ''/'')) (keyed_seqs p) of
        Inl e \<Rightarrow> (st, Inl e)
      | Inr keys \<Rightarrow> delete_entries kv seq keys st)"

definition log_next_seq :: "('s, 't) kv_tier \<Rightarrow> 's \<Rightarrow> string \<Rightarrow> u64 storage_result" where
  "log_next_seq kv st p = rbind (kv_list kv st (p @ ''/'')) (next_seq_from_keys p)"

definition log_append ::
  "('s, 't) kv_tier \<Rightarrow> string \<Rightarrow> 's \<Rightarrow> 't \<Rightarrow> 's \<times> 't append_log_entry storage_result" where
  "log_append kv p st value =
     (case log_next_seq kv st p of
        Inl e \<Rightarrow> (st, Inl e)
      | Inr seq \<Rightarrow>
          let key = append_log_key p seq;
              (st, r) = kv_set kv st key value
          in (st, rbind r (\<lambda>_. Inr \<lparr>ae_key = key, ae_seq = seq, ae_value = value\<rparr>)))"

definition log_size :: "('s, 't) kv_tier \<Rightarrow> string \<Rightarrow> 's \<Rightarrow> nat storage_result" where
  "log_size kv p st = rbind (kv_list kv st (p @ ''/'')) (size_from_keys p)"

definition append_log_storage :: "('s, 't) kv_tier \<Rightarrow> string \<Rightarrow> ('s, 't) append_log_tier" where
  "append_log_storage kv p = \<lparr>lg_append = log_append kv p,
     lg_read = (\<lambda>st opts. read_append_log_entries kv st p opts),
     lg_truncate_after = (\<lambda>st seq. delete_append_log_entries_after kv st p seq),
     lg_size = log_size kv p\<rparr>"

definition read_append_log_page ::
  "('s, 't) append_log_tier \<Rightarrow> 's \<Rightarrow> append_log_read_options \<Rightarrow> 't append_log_page storage_result" where
  "read_append_log_page log st opts =
     (let limit = (case lr_limit opts of None \<Rightarrow> 100 | Some n \<Rightarrow> n)
      in if limit = 0 then Inl (Backend ''read_append_log_page: limit must be positive'')
         else if limit = 2 ^ 64 - 1
         then Inl (Backend ''read_append_log_page: limit must leave room for one lookahead entry'')
         else rbind (lg_read log st (opts\<lparr>lr_limit := Some (limit + 1)\<rparr>)) (\<lambda>entries.
           let done = (length entries \<le> limit);
               entries = take limit entries
           in Inr \<lparr>lp_entries = entries,
                   lp_next_after = (if entries = [] then lr_after opts
                                    else Some (ae_seq (last entries))),
                   lp_done = done\<rparr>))"

lemma retry_progress:
  assumes "seq \<le> s" "unat s < 18446744073709551615"
  shows "18446744073709551616 - unat (s + 1) < 18446744073709551616 - unat (seq :: u64)"
proof -
  have "unat (s + 1) = unat s + 1"
    using assms(2) by (simp add: unat_add_lem [THEN iffD1])
  then show ?thesis
    using assms by (simp add: word_le_nat_alt)
qed

text \<open>
  The appending loop of several writers. \<open>env\<close> is what other writers do to the store before
  the \<open>n\<close>-th call of this one; every round either returns or moves on to a later sequence
  number.
\<close>

function multi_writer_loop ::
  "('s, 't) kv_tier \<Rightarrow> string \<Rightarrow> nat \<Rightarrow> (nat \<Rightarrow> 's \<Rightarrow> 's) \<Rightarrow> 't \<Rightarrow> nat \<Rightarrow> nat \<Rightarrow> u64 \<Rightarrow> 's
    \<Rightarrow> 's \<times> 't append_log_entry storage_result" where
  "multi_writer_loop kv p max_attempts env value n attempts seq st =
     (case (if attempts \<ge> max_attempts
            then rbind (log_next_seq kv (env n st) p) (\<lambda>refreshed. Inr (max seq refreshed, 0))
            else Inr (seq, attempts)) of
        Inl e \<Rightarrow> (env n st, Inl e)
      | Inr (seq', attempts') \<Rightarrow>
          let st = env (n + 1) (env n st);
              key = append_log_key p seq'
          in case kv_put_if_absent kv st key value of
               (st, Inl e) \<Rightarrow> (st, Inl e)
             | (st, Inr True) \<Rightarrow> (st, Inr \<lparr>ae_key = key, ae_seq = seq', ae_value = value\<rparr>)
             | (st, Inr False) \<Rightarrow>
                 (case checked_add seq' 1 of
                    None \<Rightarrow> (st, Inl (Backend (''append log next sequence is outside the u64 range: '' @ p)))
                  | Some seq'' \<Rightarrow>
                      multi_writer_loop kv p max_attempts env value (n + 2) (attempts' + 1) seq'' st))"
  by pat_completeness auto
termination
proof (relation "measure (\<lambda>(kv, p, m, env, v, n, a, seq, st). 2 ^ 64 - unat seq)", goal_cases)
  case 2
  then show ?case
    by (auto simp: rbind_eq_Inr checked_add_Some retry_progress split: if_splits)
qed simp

definition multi_writer_append ::
  "('s, 't) kv_tier \<Rightarrow> string \<Rightarrow> nat \<Rightarrow> (nat \<Rightarrow> 's \<Rightarrow> 's) \<Rightarrow> 's \<Rightarrow> 't
    \<Rightarrow> 's \<times> 't append_log_entry storage_result" where
  "multi_writer_append kv p max_attempts env st value =
     (case log_next_seq kv (env 0 st) p of
        Inl e \<Rightarrow> (env 0 st, Inl e)
      | Inr seq \<Rightarrow> multi_writer_loop kv p max_attempts env value 1 0 seq (env 0 st))"

definition multi_writer_append_log_storage ::
  "('s, 't) kv_tier \<Rightarrow> string \<Rightarrow> nat \<Rightarrow> (nat \<Rightarrow> 's \<Rightarrow> 's) \<Rightarrow> ('s, 't) append_log_tier storage_result" where
  "multi_writer_append_log_storage kv p max_attempts env =
     (if max_attempts = 0
      then Inl (Backend ''multi_writer_append_log_storage: max_attempts must be positive'')
      else Inr \<lparr>lg_append = multi_writer_append kv p max_attempts env,
                lg_read = (\<lambda>st opts. read_append_log_entries kv st p opts),
                lg_truncate_after = (\<lambda>st _. (st, Inl (Backend
                  ''multi_writer_append_log_storage.truncate_after: unsupported without a stronger compaction capability''))),
                lg_size = log_size kv p\<rparr>)"

declare multi_writer_loop.simps [simp del]

section \<open>An append log is a list\<close>

lemma dec_nat_digits: "list_all is_ascii_digit (dec_nat n)"
proof (induction n rule: dec_nat.induct)
  case (1 n)
  have "is_ascii_digit (char_of (48 + d))" if "d < 10" for d :: nat
    using that by (simp add: is_ascii_digit_def of_char_digit)
  then show ?case
    using 1 by (simp add: dec_nat.simps [of n])
qed

lemma length_dec_nat: "n < 10 ^ Suc m \<Longrightarrow> length (dec_nat n) \<le> Suc m"
proof (induction m arbitrary: n)
  case (Suc m)
  show ?case
  proof (cases "n < 10")
    case False
    have "n div 10 < 10 ^ Suc m"
      using Suc.prems by (intro less_mult_imp_div_less) (simp add: mult.commute)
    then have "length (dec_nat (n div 10)) \<le> Suc m" by (rule Suc.IH)
    with False show ?thesis by (simp add: dec_nat.simps [of n])
  qed (simp add: dec_nat.simps [of n])
next
  case 0
  then show ?case by (simp add: dec_nat.simps [of n])
qed

lemma dec_val_zeros: "dec_val (replicate k CHR ''0'' @ s) = dec_val s"
  by (induction k) (simp_all add: dec_val_def)

lemma to_string_fits: "length (to_string (n :: u64)) \<le> APPEND_LOG_SEQ_PAD"
proof -
  have "unat n < 2 ^ LENGTH(64)" by (rule unsigned_less)
  then have "unat n < 10 ^ Suc 19" by simp
  then show ?thesis
    using length_dec_nat [of "unat n" 19] by (simp add: to_string_def APPEND_LOG_SEQ_PAD_def)
qed

lemma seq_from_append_log_key [simp]: "seq_from_key p (append_log_key p n) = Inr n"
proof -
  define raw where "raw = replicate (APPEND_LOG_SEQ_PAD - length (to_string n)) CHR ''0'' @ to_string n"
  have "length raw = APPEND_LOG_SEQ_PAD"
    using to_string_fits [of n] by (simp add: raw_def)
  moreover have "list_all is_ascii_digit (replicate k CHR ''0'')" for k
    by (induction k) (simp_all add: is_ascii_digit_def)
  then have "list_all is_ascii_digit raw"
    by (simp add: raw_def to_string_def dec_nat_digits)
  moreover have "dec_val raw = unat n"
    by (simp add: raw_def dec_val_zeros to_string_def dec_val_dec_nat)
  moreover have "append_log_key p n = (p @ ''/'') @ raw"
    by (simp add: append_log_key_def raw_def)
  moreover have "unat n < 2 ^ 64" using unsigned_less [of n] by simp
  ultimately show ?thesis
    by (simp only: seq_from_key_def strip_prefix_append option.case) simp
qed

lemma append_log_key_inj [simp]: "append_log_key p a = append_log_key p b \<longleftrightarrow> a = b"
  by (metis seq_from_append_log_key sum.inject(2))

lemma starts_with_append_log_key [simp]: "starts_with (append_log_key p n) (p @ ''/'')"
  by (simp add: starts_with_def append_log_key_def)

text \<open>
  The values \<open>xs\<close> are the log at a prefix: the keys under the prefix are exactly the
  sequence keys below the length, and each holds its value.
\<close>

definition log_holds :: "(string \<rightharpoonup> 't) \<Rightarrow> string \<Rightarrow> 't list \<Rightarrow> bool" where
  "log_holds m p xs \<longleftrightarrow> length xs \<le> 2 ^ 64 \<and>
     {k \<in> dom m. starts_with k (p @ ''/'')} = (\<lambda>i. append_log_key p (of_nat i)) ` {..<length xs} \<and>
     (\<forall>i < length xs. m (append_log_key p (of_nat i)) = Some (xs ! i))"

definition log_entry :: "string \<Rightarrow> 't list \<Rightarrow> u64 \<Rightarrow> 't append_log_entry" where
  "log_entry p xs n = \<lparr>ae_key = append_log_key p n, ae_seq = n, ae_value = xs ! unat n\<rparr>"

definition seqs_below :: "nat \<Rightarrow> u64 list" where
  "seqs_below n = map of_nat [0..<n]"

definition log_entries :: "string \<Rightarrow> 't list \<Rightarrow> 't append_log_entry list" where
  "log_entries p xs = map (log_entry p xs) (seqs_below (length xs))"

lemma sorted_seqs_below: "n \<le> 2 ^ 64 \<Longrightarrow> sorted_wrt (<) (seqs_below n)"
  by (auto simp: seqs_below_def sorted_wrt_map sorted_wrt_iff_nth_less word_less_nat_alt
      unat_of_nat_small)

lemma set_seqs_below: "set (seqs_below n) = of_nat ` {..<n}"
  by (auto simp: seqs_below_def)

lemma in_seqs_below: "n \<le> 2 ^ 64 \<Longrightarrow> s \<in> set (seqs_below n) \<longleftrightarrow> unat s < n"
proof -
  assume n: "n \<le> 2 ^ 64"
  have "s = of_nat (unat s)" by simp
  then show ?thesis
    using n by (auto simp: set_seqs_below unat_of_nat_small image_iff intro: bexI [of _ "unat s"])
qed

lemma sort_key_snd: "sort_key snd (map (\<lambda>s. (f s, s)) ss) = map (\<lambda>s. (f s, s)) (sort ss)"
proof -
  have ins: "insort_key snd (f x, x) (map (\<lambda>s. (f s, s)) l) = map (\<lambda>s. (f s, s)) (insort x l)" for x l
    by (induction l) auto
  show ?thesis by (induction ss) (simp_all add: ins)
qed

lemma len64: "LENGTH(64) = 64"
  by simp

context kv_store
begin

lemma listed_seqs:
  assumes "ok st" "log_holds (view st) p xs"
  shows "\<exists>ss. kv_list kv st (p @ ''/'') = Inr (map (append_log_key p) ss) \<and>
    sort ss = seqs_below (length xs)"
proof -
  obtain ks where ks: "kv_list kv st (p @ ''/'') = Inr ks" "sorted_wrt (<) ks"
      "set ks = {k \<in> dom (view st). starts_with k (p @ ''/'')}"
    using list_view [OF assms(1)] by blast
  have keys: "set ks = append_log_key p ` set (seqs_below (length xs))"
    using assms(2) ks(3) by (auto simp: log_holds_def set_seqs_below image_image)
  define ss where "ss = map (\<lambda>k. case seq_from_key p k of Inr n \<Rightarrow> n | Inl _ \<Rightarrow> 0) ks"
  have ks_eq: "ks = map (append_log_key p) ss"
    unfolding ss_def map_map o_def
    by (rule map_idI [symmetric]) (use keys in auto)
  have "distinct ks" using ks(2) strict_sorted_iff by blast
  then have "distinct ss" by (simp add: ks_eq distinct_map)
  moreover have "set ss = set (seqs_below (length xs))"
    using keys by (simp add: ks_eq inj_image_eq_iff inj_on_def)
  moreover have "sorted_wrt (<) (seqs_below (length xs))"
    using assms(2) by (simp add: log_holds_def sorted_seqs_below)
  ultimately have "sort ss = seqs_below (length xs)"
    by (intro sorted_distinct_set_unique) (auto simp: strict_sorted_iff)
  then show ?thesis using ks(1) ks_eq by blast
qed

lemma keyed_seqs_keys:
  "keyed_seqs p (map (append_log_key p) ss) = Inr (map (\<lambda>s. (append_log_key p s, s)) ss)"
  by (induction ss) (simp_all add: keyed_seqs_def)

lemma view_log_entry:
  assumes "log_holds (view st) p xs" "s \<in> set (seqs_below (length xs))"
  shows "view st (append_log_key p s) = Some (xs ! unat s)"
proof -
  have "unat s < length xs" using assms by (simp add: log_holds_def in_seqs_below)
  moreover have "of_nat (unat s) = s" by simp
  ultimately show ?thesis using assms(1) unfolding log_holds_def by metis
qed

lemma read_entries:
  assumes "ok st" "log_holds (view st) p xs" "set ss \<subseteq> set (seqs_below (length xs))"
  shows "collect_results (read_entry kv st) (map (\<lambda>s. (append_log_key p s, s)) ss) =
    Inr (map (log_entry p xs) ss)"
proof -
  have "read_entry kv st (append_log_key p s, s) = Inr (log_entry p xs s)" if "s \<in> set ss" for s
    using that assms view_log_entry [OF assms(2), of s] get_view [OF assms(1)]
    by (auto simp: read_entry_def log_entry_def)
  then show ?thesis by (induction ss) auto
qed

text \<open>Reading returns the entries behind the cursor, in order, up to the limit.\<close>

lemma read_log:
  assumes "ok st" "log_holds (view st) p xs"
  shows "read_append_log_entries kv st p opts =
    Inr ((case lr_limit opts of None \<Rightarrow> (\<lambda>l. l) | Some n \<Rightarrow> take n)
      (filter (\<lambda>e. case lr_after opts of None \<Rightarrow> True | Some a \<Rightarrow> a < ae_seq e) (log_entries p xs)))"
proof -
  let ?P = "\<lambda>s. case lr_after opts of None \<Rightarrow> True | Some a \<Rightarrow> a < s"
  let ?K = "\<lambda>s. (append_log_key p s, s)"
  let ?cut = "case lr_limit opts of None \<Rightarrow> (\<lambda>l. l) | Some n \<Rightarrow> take n"
  obtain ss where ss: "kv_list kv st (p @ ''/'') = Inr (map (append_log_key p) ss)"
      "sort ss = seqs_below (length xs)"
    using listed_seqs [OF assms] by blast
  define fs where "fs = filter ?P (seqs_below (length xs))"
  have keys: "sort_key snd (filter (\<lambda>(_, s). ?P s) (map ?K ss)) = map ?K fs"
  proof -
    have "filter (\<lambda>(_, s). ?P s) (map ?K ss) = map ?K (filter ?P ss)"
      by (induction ss) auto
    then show ?thesis by (simp add: sort_key_snd fs_def flip: ss(2) filter_sort)
  qed
  have sub: "set (take n fs) \<subseteq> set (seqs_below (length xs))" "set fs \<subseteq> set (seqs_below (length xs))" for n
    using set_take_subset [of n fs] by (auto simp: fs_def)
  have entries: "map (log_entry p xs) fs =
      filter (\<lambda>e. ?P (ae_seq e)) (log_entries p xs)"
    by (cases "lr_after opts") (simp_all add: fs_def log_entries_def filter_map o_def log_entry_def)
  show ?thesis
    by (cases "lr_limit opts")
      (simp_all add: read_append_log_entries_def ss(1) keyed_seqs_keys keys Let_def take_map
        read_entries [OF assms] sub flip: entries)
qed

lemma seqs_keys: "collect_results (seq_from_key p) (map (append_log_key p) ss) = Inr ss"
  by (induction ss) simp_all

lemma size_log:
  assumes "ok st" "log_holds (view st) p xs"
  shows "log_size kv p st = Inr (length xs)"
proof -
  obtain ss where ss: "kv_list kv st (p @ ''/'') = Inr (map (append_log_key p) ss)"
      "sort ss = seqs_below (length xs)"
    using listed_seqs [OF assms] by blast
  have "length ss = length xs" using arg_cong [OF ss(2), of length] by (simp add: seqs_below_def)
  with ss(1) show ?thesis by (simp add: log_size_def size_from_keys_def seqs_keys)
qed

lemma next_seq_log:
  assumes "ok st" "log_holds (view st) p xs"
  shows "log_next_seq kv st p =
    (if length xs < 2 ^ 64 then Inr (of_nat (length xs))
     else Inl (Backend (''append log next sequence is outside the u64 range: '' @ p)))"
proof -
  obtain ss where ss: "kv_list kv st (p @ ''/'') = Inr (map (append_log_key p) ss)"
      "sort ss = seqs_below (length xs)"
    using listed_seqs [OF assms] by blast
  have len: "length xs \<le> 2 ^ 64" using assms(2) by (simp add: log_holds_def)
  show ?thesis
  proof (cases ss)
    case Nil
    then have "seqs_below (length xs) = []" using ss(2) by simp
    with ss(1) Nil show ?thesis
      by (simp add: log_next_seq_def next_seq_from_keys_def seqs_below_def)
  next
    case (Cons s rest)
    then have "length xs \<noteq> 0" using ss(2) by (auto simp: seqs_below_def)
    then obtain m where m: "length xs = Suc m" using not0_implies_Suc by blast
    have "set ss = set (seqs_below (length xs))" by (metis set_sort ss(2))
    moreover have small: "unat (of_nat m :: u64) = m"
      using m len by (intro unat_of_nat_small) simp
    ultimately have "Max (set ss) = of_nat m"
      using m len by (intro Max_eqI) (simp_all add: in_seqs_below word_le_nat_alt)
    then have "fold max rest s = of_nat m"
      using Cons Max.set_eq_fold [of s rest] by simp
    moreover have "checked_add (of_nat m) (1 :: u64) =
        (if length xs < 2 ^ 64 then Some (of_nat (length xs)) else None)"
      unfolding checked_add_def small m by (simp only: unat_1 len64 Suc_eq_plus1 of_nat_add of_nat_1 add.commute)
    ultimately show ?thesis
      using Cons ss(1) seqs_keys [of p ss]
      by (simp add: log_next_seq_def next_seq_from_keys_def)
  qed
qed

text \<open>Adding the next key extends the log by one value.\<close>

lemma log_holds_snoc:
  assumes "log_holds m p xs" "length xs < 2 ^ 64"
  shows "log_holds (m(append_log_key p (of_nat (length xs)) \<mapsto> v)) p (xs @ [v])"
proof -
  let ?k = "append_log_key p (of_nat (length xs))"
  have "{k \<in> dom (m(?k \<mapsto> v)). starts_with k (p @ ''/'')} =
      insert ?k {k \<in> dom m. starts_with k (p @ ''/'')}"
    by auto
  also have "\<dots> = (\<lambda>i. append_log_key p (of_nat i)) ` {..<length (xs @ [v])}"
    using assms(1) by (simp add: log_holds_def lessThan_Suc)
  finally have dom: "{k \<in> dom (m(?k \<mapsto> v)). starts_with k (p @ ''/'')} =
      (\<lambda>i. append_log_key p (of_nat i)) ` {..<length (xs @ [v])}" .
  have "(of_nat i :: u64) \<noteq> of_nat (length xs)" if "i < length xs" for i
    using that assms(2) of_nat_eq_small [where 'a = 64, of i "length xs"] by simp
  then show ?thesis
    using assms dom by (auto simp: log_holds_def nth_append less_Suc_eq)
qed

lemma append_log:
  assumes "ok st" "log_holds (view st) p xs" "length xs < 2 ^ 64"
  shows "snd (log_append kv p st v) = Inr (log_entry p (xs @ [v]) (of_nat (length xs)))"
    and "ok (fst (log_append kv p st v))"
    and "log_holds (view (fst (log_append kv p st v))) p (xs @ [v])"
proof -
  have "unat (of_nat (length xs) :: u64) = length xs"
    using assms(3) by (intro unat_of_nat_small) simp
  then show "snd (log_append kv p st v) = Inr (log_entry p (xs @ [v]) (of_nat (length xs)))"
    using assms set_view [OF assms(1)]
    by (simp add: log_append_def next_seq_log Let_def case_prod_beta' log_entry_def)
  have st: "fst (log_append kv p st v) = fst (kv_set kv st (append_log_key p (of_nat (length xs))) v)"
    using assms by (simp add: log_append_def next_seq_log Let_def case_prod_beta')
  then show "ok (fst (log_append kv p st v))" using set_view [OF assms(1)] by simp
  show "log_holds (view (fst (log_append kv p st v))) p (xs @ [v])"
    using st set_view [OF assms(1)] log_holds_snoc [OF assms(2,3)] by simp
qed

lemma delete_entries_view:
  "ok st \<Longrightarrow> snd (delete_entries kv seq (map (\<lambda>s. (append_log_key p s, s)) ss) st) = Inr () \<and>
     ok (fst (delete_entries kv seq (map (\<lambda>s. (append_log_key p s, s)) ss) st)) \<and>
     view (fst (delete_entries kv seq (map (\<lambda>s. (append_log_key p s, s)) ss) st)) =
       (view st) |` (- append_log_key p ` {s \<in> set ss. seq < s})"
proof (induction ss arbitrary: st)
  case (Cons s ss)
  show ?case
  proof (cases "seq < s")
    case True
    have "{s' \<in> set (s # ss). seq < s'} = insert s {s' \<in> set ss. seq < s'}" using True by auto
    moreover have "snd (kv_delete kv st (append_log_key p s)) = Inr ()" using Cons.prems delete_view by simp
    ultimately show ?thesis
      using True Cons.IH [of "fst (kv_delete kv st (append_log_key p s))"]
        delete_view [OF Cons.prems, of "append_log_key p s"]
      by (auto simp: case_prod_beta' split: sum.split simp: restrict_map_def fun_eq_iff)
  next
    case False
    then have "{s' \<in> set (s # ss). seq < s'} = {s' \<in> set ss. seq < s'}" by auto
    with False Cons show ?thesis by simp
  qed
qed (simp add: restrict_map_def)

lemma log_holds_truncate:
  assumes "log_holds m p xs" "set ss = set (seqs_below (length xs))"
  shows "log_holds (m |` (- append_log_key p ` {s \<in> set ss. seq < s})) p (take (unat seq + 1) xs)"
proof -
  have len: "length xs \<le> 2 ^ 64" using assms(1) by (simp add: log_holds_def)
  have gone: "(of_nat i :: u64) \<in> {s \<in> set ss. seq < s} \<longleftrightarrow> unat seq < i" if "i < length xs" for i
  proof -
    have "unat (of_nat i :: u64) = i" using that len by (intro unat_of_nat_small) simp
    then show ?thesis using that len assms(2) by (simp add: in_seqs_below word_less_nat_alt)
  qed
  have keep: "append_log_key p (of_nat i) \<notin> append_log_key p ` {s \<in> set ss. seq < s} \<longleftrightarrow> i < unat seq + 1"
    if "i < length xs" for i
    using gone [OF that] by auto
  have "{k \<in> dom (m |` (- append_log_key p ` {s \<in> set ss. seq < s})). starts_with k (p @ ''/'')} =
      {k \<in> dom m. starts_with k (p @ ''/'')} - append_log_key p ` {s \<in> set ss. seq < s}"
    by (auto simp: restrict_map_def split: if_splits)
  also have "\<dots> = (\<lambda>i. append_log_key p (of_nat i)) ` {i. i < length xs \<and> i < unat seq + 1}"
    using assms(1) keep by (auto simp: log_holds_def)
  also have "{i. i < length xs \<and> i < unat seq + 1} = {..<length (take (unat seq + 1) xs)}"
    by auto
  finally have dom: "{k \<in> dom (m |` (- append_log_key p ` {s \<in> set ss. seq < s})).
      starts_with k (p @ ''/'')} = (\<lambda>i. append_log_key p (of_nat i)) ` {..<length (take (unat seq + 1) xs)}" .
  show ?thesis
    unfolding log_holds_def dom
    using assms(1) len keep by (auto simp: log_holds_def restrict_map_def)
qed

lemma truncate_log:
  assumes "ok st" "log_holds (view st) p xs"
  shows "snd (delete_append_log_entries_after kv st p seq) = Inr ()"
    and "ok (fst (delete_append_log_entries_after kv st p seq))"
    and "log_holds (view (fst (delete_append_log_entries_after kv st p seq))) p (take (unat seq + 1) xs)"
proof -
  obtain ss where ss: "kv_list kv st (p @ ''/'') = Inr (map (append_log_key p) ss)"
      "sort ss = seqs_below (length xs)"
    using listed_seqs [OF assms] by blast
  have eq: "delete_append_log_entries_after kv st p seq =
      delete_entries kv seq (map (\<lambda>s. (append_log_key p s, s)) ss) st"
    by (simp add: delete_append_log_entries_after_def ss(1) keyed_seqs_keys)
  note del = delete_entries_view [OF assms(1), of seq p ss]
  from del show "snd (delete_append_log_entries_after kv st p seq) = Inr ()" by (simp add: eq)
  from del show "ok (fst (delete_append_log_entries_after kv st p seq))" by (simp add: eq)
  have "set ss = set (seqs_below (length xs))" by (metis set_sort ss(2))
  then show "log_holds (view (fst (delete_append_log_entries_after kv st p seq))) p (take (unat seq + 1) xs)"
    using del log_holds_truncate [OF assms(2)] by (simp add: eq)
qed

text \<open>
  Appending among other writers that only add: nothing present is overwritten, and a success
  returns a fresh key that holds the value.
\<close>

definition append_safe :: "string \<Rightarrow> 't \<Rightarrow> 's \<Rightarrow> 's \<times> 't append_log_entry storage_result \<Rightarrow> bool" where
  "append_safe p v st r \<longleftrightarrow> ok (fst r) \<and> view st \<subseteq>\<^sub>m view (fst r) \<and>
     (\<forall>e. snd r = Inr e \<longrightarrow> ae_value e = v \<and> ae_key e = append_log_key p (ae_seq e) \<and>
        view st (ae_key e) = None \<and> view (fst r) (ae_key e) = Some v)"

lemma append_safe_later:
  "view st \<subseteq>\<^sub>m view st' \<Longrightarrow> append_safe p v st' r \<Longrightarrow> append_safe p v st r"
  unfolding append_safe_def
proof (intro conjI allI impI; elim conjE)
  assume le: "view st \<subseteq>\<^sub>m view st'" and le': "view st' \<subseteq>\<^sub>m view (fst r)"
  show "view st \<subseteq>\<^sub>m view (fst r)" using le le' by (rule map_le_trans)
next
  fix e assume le: "view st \<subseteq>\<^sub>m view st'" and r: "snd r = Inr e"
    and all: "\<forall>e. snd r = Inr e \<longrightarrow> ae_value e = v \<and> ae_key e = append_log_key p (ae_seq e) \<and>
      view st' (ae_key e) = None \<and> view (fst r) (ae_key e) = Some v"
  show "view st (ae_key e) = None"
    using all r le by (cases "view st (ae_key e)") (auto simp: map_le_def dom_def)
qed auto

lemma append_safe_error: "ok st' \<Longrightarrow> view st \<subseteq>\<^sub>m view st' \<Longrightarrow> append_safe p v st (st', Inl e)"
  by (simp add: append_safe_def)

lemma append_safe_put:
  assumes "ok st" "kv_put_if_absent kv st (append_log_key p n) v = (st', Inr True)"
  shows "append_safe p v st (st', Inr \<lparr>ae_key = append_log_key p n, ae_seq = n, ae_value = v\<rparr>)"
  using put_view [OF assms(1), of "append_log_key p n" v] assms(2)
  by (auto simp: append_safe_def map_le_def split: if_splits)

lemma multi_writer_loop_safe:
  assumes env: "\<And>n s. ok s \<Longrightarrow> ok (env n s) \<and> view s \<subseteq>\<^sub>m view (env n s)" and "ok st"
  shows "append_safe p v st (multi_writer_loop kv p max_attempts env v n attempts seq st)"
  using assms(2)
proof (induction "18446744073709551616 - unat seq" arbitrary: n attempts seq st rule: less_induct)
  case less
  let ?next = "if attempts \<ge> max_attempts
    then rbind (log_next_seq kv (env n st) p) (\<lambda>refreshed. Inr (max seq refreshed, 0))
    else Inr (seq, attempts)"
  define st1 where "st1 = env (Suc n) (env n st)"
  have st1: "ok (env n st)" "view st \<subseteq>\<^sub>m view (env n st)" "ok st1" "view st \<subseteq>\<^sub>m view st1"
    using env less.prems map_le_trans unfolding st1_def by blast+
  note unfold = multi_writer_loop.simps [of kv p max_attempts env v n attempts seq st]
  show ?case
  proof (cases ?next)
    case (Inl e)
    then show ?thesis unfolding unfold Inl using st1 by (simp add: append_safe_error)
  next
    case (Inr b)
    obtain seq' att where b: "b = (seq', att)" by force
    have ge: "seq \<le> seq'"
      using Inr b by (auto simp: rbind_eq_Inr split: if_splits)
    obtain st2 r where put: "kv_put_if_absent kv st1 (append_log_key p seq') v = (st2, r)" by force
    have st2: "r = Inr (view st1 (append_log_key p seq') = None)" "ok st2" "view st1 \<subseteq>\<^sub>m view st2"
      using put_view [OF st1(3), of "append_log_key p seq'" v] put
      by (auto simp: map_le_def split: if_splits)
    have safe2: "append_safe p v st x" if "append_safe p v st2 x" for x
      using append_safe_later that st1(4) st2(3) map_le_trans by metis
    show ?thesis
    proof (cases "view st1 (append_log_key p seq') = None")
      case True
      then show ?thesis
        using append_safe_later [OF st1(4) append_safe_put [OF st1(3)]] put st2(1)
        unfolding unfold Inr b by (simp add: Let_def flip: st1_def)
    next
      case False
      then have rF: "r = Inr False" using st2(1) by simp
      have res: "multi_writer_loop kv p max_attempts env v n attempts seq st =
          (case checked_add seq' 1 of
             None \<Rightarrow> (st2, Inl (Backend (''append log next sequence is outside the u64 range: '' @ p)))
           | Some seq'' \<Rightarrow> multi_writer_loop kv p max_attempts env v (n + 2) (att + 1) seq'' st2)"
        using put rF unfolding unfold Inr b by (simp add: Let_def flip: st1_def)
      show ?thesis
      proof (cases "checked_add seq' 1")
        case None
        then show ?thesis using res safe2 append_safe_error [OF st2(2), of st2] by simp
      next
        case (Some s'')
        then have "18446744073709551616 - unat s'' < 18446744073709551616 - unat seq"
          using retry_progress [OF ge] by (auto simp: checked_add_Some)
        then show ?thesis using res Some safe2 less.hyps st2(2) by simp
      qed
    qed
  qed
qed

lemma multi_writer_append_safe:
  assumes "\<And>n s. ok s \<Longrightarrow> ok (env n s) \<and> view s \<subseteq>\<^sub>m view (env n s)" "ok st"
  shows "append_safe p v st (multi_writer_append kv p max_attempts env st v)"
proof -
  have "ok (env 0 st)" "view st \<subseteq>\<^sub>m view (env 0 st)" using assms by blast+
  moreover have "append_safe p v (env 0 st) (multi_writer_append kv p max_attempts env st v)"
    using multi_writer_loop_safe [of env "env 0 st", OF assms(1)] \<open>ok (env 0 st)\<close>
    by (auto simp: multi_writer_append_def append_safe_error split: sum.split)
  ultimately show ?thesis using append_safe_later by blast
qed

end

section \<open>The in-memory append log\<close>

datatype 't log_op = LogAppend 't | LogTruncate u64

fun log_step :: "('s, 't) append_log_tier \<Rightarrow> 's \<Rightarrow> 't log_op \<Rightarrow> 's" where
  "log_step log st (LogAppend v) = fst (lg_append log st v)"
| "log_step log st (LogTruncate seq) = fst (lg_truncate_after log st seq)"

fun log_spec :: "'t list \<Rightarrow> 't log_op \<Rightarrow> 't list" where
  "log_spec xs (LogAppend v) = xs @ [v]"
| "log_spec xs (LogTruncate seq) = take (unat seq + 1) xs"

definition memory_log :: "string \<Rightarrow> ('t memory_kv, 't) append_log_tier" where
  "memory_log p = append_log_storage memory_kv_tier p"

lemma length_log_spec: "length (foldl log_spec xs ops) \<le> length xs + length ops"
proof (induction ops arbitrary: xs)
  case (Cons op ops)
  have "length (log_spec xs op) \<le> length xs + 1" by (cases op) auto
  with Cons [of "log_spec xs op"] show ?case by simp
qed simp

lemma memory_log_run:
  assumes "memory_ok st" "log_holds (memory_view st) p xs" "length xs + length ops \<le> 2 ^ 64"
  shows "memory_ok (foldl (log_step (memory_log p)) st ops) \<and>
    log_holds (memory_view (foldl (log_step (memory_log p)) st ops)) p (foldl log_spec xs ops)"
  using assms
proof (induction ops arbitrary: st xs)
  case (Cons op ops)
  let ?st = "log_step (memory_log p) st op"
  have "memory_ok ?st \<and> log_holds (memory_view ?st) p (log_spec xs op)"
    using mem.append_log [OF Cons.prems(1,2)] mem.truncate_log [OF Cons.prems(1,2)] Cons.prems(3)
    by (cases op) (simp_all add: memory_log_def append_log_storage_def)
  moreover have "length (log_spec xs op) \<le> length xs + 1" by (cases op) auto
  ultimately show ?case
    using Cons.IH [of ?st "log_spec xs op"] Cons.prems(3) by simp
qed simp

lemma log_holds_empty: "log_holds (memory_view (memory_kv_new i)) p []"
  by (simp add: log_holds_def memory_view_def memory_kv_new_def)

text \<open>
  C13. An append log is a list. Whatever appends and truncations are performed on a fresh in-memory
  log (at most \<open>2 ^ 64\<close> of them), reading it from the start returns exactly the values that
  are left, in the order they were appended, numbered densely from 0; the size is their number,
  and the next append gets the next number. Truncating after a sequence number keeps the entries
  up to and including it.
\<close>

theorem memory_log_refines_list:
  assumes "length ops \<le> 2 ^ 64" and st: "st = foldl (log_step (memory_log p)) (memory_kv_new i) ops"
    and xs: "xs = foldl log_spec [] ops"
  shows "lg_read (memory_log p) st \<lparr>lr_after = None, lr_limit = None\<rparr> =
      Inr (map (\<lambda>n. \<lparr>ae_key = append_log_key p (of_nat n), ae_seq = of_nat n, ae_value = xs ! n\<rparr>)
        [0..<length xs]) \<and>
    lg_size (memory_log p) st = Inr (length xs) \<and>
    (length xs < 2 ^ 64 \<longrightarrow> snd (lg_append (memory_log p) st v) =
      Inr \<lparr>ae_key = append_log_key p (of_nat (length xs)), ae_seq = of_nat (length xs), ae_value = v\<rparr>)"
proof -
  have ok: "memory_ok st" "log_holds (memory_view st) p xs"
    using memory_log_run [OF memory_ok_new log_holds_empty, of ops] assms by simp_all
  have len: "length xs \<le> 2 ^ 64" using ok(2) by (simp add: log_holds_def)
  have "log_entries p xs = map (\<lambda>n. \<lparr>ae_key = append_log_key p (of_nat n), ae_seq = of_nat n,
      ae_value = xs ! n\<rparr>) [0..<length xs]"
    using len by (simp add: log_entries_def seqs_below_def log_entry_def unat_of_nat_small)
  then show ?thesis
    using mem.read_log [OF ok] mem.size_log [OF ok] mem.append_log(1) [OF ok, of v]
    by (simp add: memory_log_def append_log_storage_def log_entry_def unat_of_nat_small)
qed

theorem memory_log_refines_list_witness:
  "map ae_value (case lg_read (memory_log ''l'')
       (foldl (log_step (memory_log ''l'')) (memory_kv_new 0)
         [LogAppend (5::nat), LogAppend 6, LogAppend 7, LogTruncate 1])
       \<lparr>lr_after = None, lr_limit = None\<rparr> of Inr es \<Rightarrow> es | Inl _ \<Rightarrow> []) = [5, 6]"
  using memory_log_refines_list [of "[LogAppend (5::nat), LogAppend 6, LogAppend 7, LogTruncate 1]"
      _ "''l''" 0, OF _ refl refl]
  by simp

text \<open>
  C12. Concurrent writers never overwrite each other. If several writers append to one log in the
  in-memory store through the retrying loop, and what the others do between its calls only adds
  entries, then an append never changes an existing entry, and when it succeeds it returns a
  sequence number whose key was free and now holds its value. The loop always ends.
\<close>

theorem multi_writer_append_never_overwrites:
  assumes "memory_ok st" "\<And>n s. memory_ok s \<Longrightarrow> memory_ok (env n s) \<and> memory_view s \<subseteq>\<^sub>m memory_view (env n s)"
    and "multi_writer_append memory_kv_tier p max_attempts env st v = (st', r)"
  shows "memory_view st \<subseteq>\<^sub>m memory_view st' \<and>
    (\<forall>e. r = Inr e \<longrightarrow> ae_key e = append_log_key p (ae_seq e) \<and> memory_view st (ae_key e) = None \<and>
      memory_view st' (ae_key e) = Some v)"
  using mem.multi_writer_append_safe [where env = env, OF assms(2,1), of p v max_attempts] assms(3)
  unfolding mem.append_safe_def by auto

theorem multi_writer_append_never_overwrites_witness:
  "(case multi_writer_append memory_kv_tier ''l'' 3 (\<lambda>n s. fst (memory_put_if_absent s (append_log_key ''l'' 0) 1))
       (memory_kv_new 0) (2::nat) of
     (st', Inr e) \<Rightarrow> memory_view st' (ae_key e) = Some 2 | _ \<Rightarrow> True)"
proof -
  let ?env = "\<lambda>(n::nat) s. fst (memory_put_if_absent s (append_log_key ''l'' 0) (1::nat))"
  have env: "memory_ok (?env n s) \<and> memory_view s \<subseteq>\<^sub>m memory_view (?env n s)" if "memory_ok s" for n s
    using mem.put_view [OF that, of "append_log_key ''l'' 0" 1]
    by (auto simp: memory_kv_tier_def map_le_def)
  show ?thesis
    using multi_writer_append_never_overwrites [where env = ?env and st = "memory_kv_new 0"
        and p = "''l''" and v = 2 and max_attempts = 3, OF memory_ok_new env]
    by (auto split: prod.split sum.split)
qed

subsection \<open>Paging\<close>

definition log_view_ok :: "'t memory_kv \<times> string \<Rightarrow> bool" where
  "log_view_ok s \<longleftrightarrow> memory_ok (fst s) \<and> (\<exists>xs. log_holds (memory_view (fst s)) (snd s) xs)"

definition log_view :: "'t memory_kv \<times> string \<Rightarrow> 't append_log_entry list" where
  "log_view s = (case lg_read (memory_log (snd s)) (fst s) \<lparr>lr_after = None, lr_limit = None\<rparr> of
     Inr es \<Rightarrow> es | Inl _ \<Rightarrow> [])"

definition read_log_page ::
  "'t memory_kv \<times> string \<Rightarrow> nat \<Rightarrow> u64 option \<Rightarrow> ('t append_log_entry list \<times> u64 option) option" where
  "read_log_page s n c =
     (case read_append_log_page (memory_log (snd s)) (fst s) \<lparr>lr_after = c, lr_limit = Some n\<rparr> of
        Inr pg \<Rightarrow> Some (lp_entries pg, if lp_done pg then None else lp_next_after pg)
      | Inl _ \<Rightarrow> None)"

lemma sorted_log_entries:
  "length xs \<le> 2 ^ 64 \<Longrightarrow> sorted_wrt (\<lambda>a b. ae_seq a < ae_seq b) (log_entries p xs)"
  using sorted_seqs_below [of "length xs"] by (simp add: log_entries_def sorted_wrt_map log_entry_def)

lemma log_view_entries:
  "memory_ok st \<Longrightarrow> log_holds (memory_view st) p xs \<Longrightarrow> log_view (st, p) = log_entries p xs"
  by (simp add: log_view_def memory_log_def append_log_storage_def mem.read_log)

lemma read_log_page_cut:
  assumes "memory_ok st" "log_holds (memory_view st) p xs" "0 < n" "n < 2 ^ 64 - 1"
  shows "read_log_page (st, p) n c =
    Some (cut_page ae_seq n (filter (after_cursor ae_seq c) (log_entries p xs)))"
proof -
  let ?rest = "filter (after_cursor ae_seq c) (log_entries p xs)"
  have read: "read_append_log_entries memory_kv_tier st p \<lparr>lr_after = c, lr_limit = Some (n + 1)\<rparr> =
      Inr (take (n + 1) ?rest)"
    using mem.read_log [OF assms(1,2)] unfolding after_cursor_def by simp
  have "take n ?rest \<noteq> []" if "n < length ?rest" using that assms(3) by auto
  moreover have "take n (take (n + 1) ?rest) = take n ?rest" by (simp add: min_def)
  moreover have "length (take (n + 1) ?rest) \<le> n \<longleftrightarrow> length ?rest \<le> n" by auto
  ultimately show ?thesis
    using assms(3,4) read
    by (simp add: read_log_page_def read_append_log_page_def memory_log_def append_log_storage_def
        Let_def cut_page_def del: take_take length_take take_eq_Nil)
qed

interpretation log_pages: paged_view log_view_ok log_view ae_seq "\<lambda>n. 0 < n \<and> n < 2 ^ 64 - 1" read_log_page
proof
  fix s :: "'a memory_kv \<times> string" and n c
  assume "log_view_ok s"
  then obtain xs where xs: "memory_ok (fst s)" "log_holds (memory_view (fst s)) (snd s) xs"
    by (auto simp: log_view_ok_def)
  then have view: "log_view s = log_entries (snd s) xs"
    using log_view_entries [of "fst s" "snd s"] by simp
  have "length xs \<le> 2 ^ 64" using xs(2) by (simp add: log_holds_def)
  then show "sorted_wrt (\<lambda>a b. ae_seq a < ae_seq b) (log_view s)"
    by (simp add: view sorted_log_entries)
  show "read_log_page s n c = Some (cut_page ae_seq n (filter (after_cursor ae_seq c) (log_view s)))"
    if "0 < n \<and> n < 2 ^ 64 - 1" "c = None \<or> c \<in> Some ` ae_seq ` set (log_view s)"
    using read_log_page_cut [OF xs] that by (simp add: view)
qed simp

text \<open>
  Reading an append log page by page, from the start and following \<open>next_after\<close> until a
  page says it is the last, returns every entry exactly once and in order, for every admissible
  page size, after any appends and truncations.
\<close>

theorem log_pages_complete:
  assumes "length ops \<le> 2 ^ 64" "0 < n" "n < 2 ^ 64 - 1"
    and st: "st = foldl (log_step (memory_log p)) (memory_kv_new i) ops"
  shows "read_pages (Suc (length (foldl log_spec [] ops))) (read_log_page (st, p) n) None =
      Some (log_view (st, p)) \<and>
    map ae_value (log_view (st, p)) = foldl log_spec [] ops"
proof -
  let ?xs = "foldl log_spec [] ops"
  have ok: "memory_ok st" "log_holds (memory_view st) p ?xs"
    using memory_log_run [OF memory_ok_new log_holds_empty, of ops] assms by simp_all
  then have view: "log_view (st, p) = log_entries p ?xs" by (rule log_view_entries)
  have len: "length ?xs \<le> 2 ^ 64" using ok(2) by (simp add: log_holds_def)
  have vals: "map ae_value (log_view (st, p)) = ?xs"
    using len by (auto simp: view log_entries_def seqs_below_def log_entry_def unat_of_nat_small
        intro: nth_equalityI)
  then have "length (log_view (st, p)) = length ?xs" by (metis length_map)
  then have "read_pages (Suc (length ?xs)) (read_log_page (st, p) n) None = Some (log_view (st, p))"
    using ok assms(2,3) by (intro log_pages.read_all) (auto simp: log_view_ok_def)
  with vals show ?thesis by blast
qed

theorem log_pages_complete_witness:
  "map ae_value (log_view (foldl (log_step (memory_log ''l'')) (memory_kv_new 0)
      [LogAppend (5::nat), LogAppend 6], ''l'')) = [5, 6]"
  using log_pages_complete [of "[LogAppend (5::nat), LogAppend 6]" 1, OF _ _ _ refl] by simp

end
