(* ===== verification/Json.thy ===== *)
theory Json
  imports Complex_Main Prelude
begin

text \<open>
  The JSON helpers of \<open>json.rs\<close>: the strict validator, the canonical printer with object
  keys in JavaScript order, the scanner that rejects duplicate keys, the strict codec, and the
  decimal-integer strings. Text is a list of bytes (\<open>string\<close>). What \<open>serde_json\<close> does
  (escaping and unescaping a string, printing a float, parsing a text) is not part of the sources:
  it is the parameter \<open>S\<close> of the definitions that call it.
\<close>

subsection \<open>Values\<close>

text \<open>
  The value type of \<open>serde_json\<close>. An object is a \<open>BTreeMap\<close> in key order. A number is a
  non-negative or negative 64-bit integer or a finite float; a finite float is its exact rational
  value, or the negative zero.
\<close>

datatype f64 = NegZero | Fin rat

datatype json_number = PosInt u64 | NegInt u64 | Float f64

datatype json =
    JNull
  | JBool bool
  | JNumber json_number
  | JString string
  | JArray "json list"
  | JObject "(string \<times> json) list"

datatype codec_error = Encode string | Decode string | Validation string

fun show_codec_error :: "codec_error \<Rightarrow> string" where
  "show_codec_error (Encode message) = ''json encode failed: '' @ message"
| "show_codec_error (Decode message) = ''json decode failed: '' @ message"
| "show_codec_error (Validation message) = message"

text \<open>
  The calls into \<open>serde_json\<close>: \<open>to_string\<close> of a string, \<open>from_str\<close> into a string
  and into a value, and the text of a float. \<open>str_debug\<close> is the \<open>Debug\<close> form of a
  string, which depends on the Unicode tables of the standard library.
\<close>

record serde =
  str_to_json :: "string \<Rightarrow> string + string"
  str_from_json :: "string \<Rightarrow> string + string"
  value_from_json :: "string \<Rightarrow> string + json"
  float_text :: "f64 \<Rightarrow> string"
  str_debug :: "string \<Rightarrow> string"

definition dec_int :: "int \<Rightarrow> string" where
  "dec_int z = (if z < 0 then CHR ''-'' # dec_nat (nat (- z)) else dec_nat (nat z))"

fun number_text :: "serde \<Rightarrow> json_number \<Rightarrow> string" where
  "number_text S (PosInt n) = to_string n"
| "number_text S (NegInt n) = dec_int (sint n)"
| "number_text S (Float f) = float_text S f"

fun as_i64 :: "json_number \<Rightarrow> int option" where
  "as_i64 (PosInt n) = (if unat n < 2 ^ 63 then Some (int (unat n)) else None)"
| "as_i64 (NegInt n) = Some (sint n)"
| "as_i64 (Float f) = None"

fun as_u64 :: "json_number \<Rightarrow> u64 option" where
  "as_u64 (PosInt n) = Some n"
| "as_u64 (NegInt n) = None"
| "as_u64 (Float f) = None"

text \<open>
  The float of an integer is exact up to \<open>2 ^ 53\<close>. The validator asks for it only below that
  bound, the printer only for floats.
\<close>

fun f64_val :: "f64 \<Rightarrow> rat" where
  "f64_val NegZero = 0"
| "f64_val (Fin r) = r"

fun as_f64 :: "json_number \<Rightarrow> rat option" where
  "as_f64 (PosInt n) = Some (of_nat (unat n))"
| "as_f64 (NegInt n) = Some (of_int (sint n))"
| "as_f64 (Float f) = Some (f64_val f)"

definition JS_MAX_SAFE_INTEGER :: int where
  "JS_MAX_SAFE_INTEGER = 9007199254740991"

definition f64_min_positive :: rat where
  "f64_min_positive = 1 / 2 ^ 1022"

subsection \<open>Validation\<close>

definition not_canonical_number :: "string \<Rightarrow> codec_error" where
  "not_canonical_number path = Validation (''strictJsonCodec: JSON number at '' @ path @
     '' is not strict canonical JSON compatible'')"

definition unsafe_integer :: "string \<Rightarrow> codec_error" where
  "unsafe_integer path = Validation (''strictJsonCodec: JSON integer at '' @ path @
     '' is outside the safe integer range'')"

definition subnormal_number :: "string \<Rightarrow> codec_error" where
  "subnormal_number path = Validation (''strictJsonCodec: JSON number at '' @ path @
     '' is subnormal and not strict canonical JSON compatible'')"

definition too_deep :: "string \<Rightarrow> codec_error" where
  "too_deep path = Validation (''strictJsonCodec: JSON value at '' @ path @
     '' exceeds maximum depth 128'')"

definition int_range_check :: "json_number \<Rightarrow> string \<Rightarrow> codec_error + unit" where
  "int_range_check number path =
     (case as_i64 number of
        Some value \<Rightarrow>
          if \<bar>value\<bar> \<le> JS_MAX_SAFE_INTEGER then Inr () else Inl (unsafe_integer path)
      | None \<Rightarrow>
          (case as_u64 number of
             Some value \<Rightarrow>
               if int (unat value) > JS_MAX_SAFE_INTEGER then Inl (unsafe_integer path) else Inr ()
           | None \<Rightarrow> Inr ()))"

definition float_range_check :: "json_number \<Rightarrow> string \<Rightarrow> codec_error + unit" where
  "float_range_check number path =
     (case as_f64 number of
        Some value \<Rightarrow>
          if \<bar>value\<bar> > 0 \<and> \<bar>value\<bar> < f64_min_positive then Inl (subnormal_number path)
          else if frac value = 0 \<and> \<bar>value\<bar> > of_int JS_MAX_SAFE_INTEGER
          then Inl (unsafe_integer path)
          else Inr ()
      | None \<Rightarrow> Inr ())"

definition validate_number :: "serde \<Rightarrow> json_number \<Rightarrow> string \<Rightarrow> codec_error + unit" where
  "validate_number S number path =
     (if number_text S number = ''-0.0'' \<or> number_text S number = ''-0''
      then Inl (not_canonical_number path)
      else rbind (int_range_check number path) (\<lambda>_. float_range_check number path))"

definition index_path :: "string \<Rightarrow> nat \<Rightarrow> string" where
  "index_path path i = path @ ''['' @ dec_nat i @ '']''"

definition member_path :: "string \<Rightarrow> string \<Rightarrow> string" where
  "member_path path key = path @ ''.'' @ key"

text \<open>The first error of the members, in the order of the map or the array.\<close>

fun validate_value :: "serde \<Rightarrow> json \<Rightarrow> string \<Rightarrow> nat \<Rightarrow> codec_error + unit"
and validate_members :: "serde \<Rightarrow> (string \<times> json) list \<Rightarrow> string \<Rightarrow> nat \<Rightarrow> codec_error + unit"
and validate_items :: "serde \<Rightarrow> json list \<Rightarrow> string \<Rightarrow> nat \<Rightarrow> nat \<Rightarrow> codec_error + unit" where
  "validate_value S value path depth =
     (if depth > 128 then Inl (too_deep path)
      else (case value of
          JObject m \<Rightarrow> validate_members S m path depth
        | JArray vs \<Rightarrow> validate_items S vs path 0 depth
        | JNumber number \<Rightarrow> validate_number S number path
        | _ \<Rightarrow> Inr ()))"
| "validate_members S [] path depth = Inr ()"
| "validate_members S ((key, value) # m) path depth =
     rbind (validate_value S value (member_path path key) (Suc depth))
       (\<lambda>_. validate_members S m path depth)"
| "validate_items S [] path i depth = Inr ()"
| "validate_items S (value # vs) path i depth =
     rbind (validate_value S value (index_path path i) (Suc depth))
       (\<lambda>_. validate_items S vs path (Suc i) depth)"

definition validate_strict_json_value :: "serde \<Rightarrow> json \<Rightarrow> string \<Rightarrow> codec_error + unit" where
  "validate_strict_json_value S value path = validate_value S value path 0"

subsection \<open>Canonical text\<close>

text \<open>
  \<open>encode_utf16\<close> of a string, from its UTF-8 bytes: the scalar values, and from each the one
  or two code units.
\<close>

fun utf8_scalars :: "nat list \<Rightarrow> nat list" where
  "utf8_scalars (a # b # c # d # bs) =
     (if a < 0x80 then a # utf8_scalars (b # c # d # bs)
      else if a < 0xE0 then ((a mod 0x20) * 0x40 + b mod 0x40) # utf8_scalars (c # d # bs)
      else if a < 0xF0
      then ((a mod 0x10) * 0x1000 + (b mod 0x40) * 0x40 + c mod 0x40) # utf8_scalars (d # bs)
      else ((a mod 8) * 0x40000 + (b mod 0x40) * 0x1000 + (c mod 0x40) * 0x40 + d mod 0x40)
             # utf8_scalars bs)"
| "utf8_scalars [a, b, c] =
     (if a < 0x80 then a # utf8_scalars [b, c]
      else if a < 0xE0 then ((a mod 0x20) * 0x40 + b mod 0x40) # utf8_scalars [c]
      else [(a mod 0x10) * 0x1000 + (b mod 0x40) * 0x40 + c mod 0x40])"
| "utf8_scalars [a, b] =
     (if a < 0x80 then a # utf8_scalars [b] else [(a mod 0x20) * 0x40 + b mod 0x40])"
| "utf8_scalars [a] = [a]"
| "utf8_scalars [] = []"

definition utf16_units :: "nat \<Rightarrow> nat list" where
  "utf16_units p = (if p < 0x10000 then [p]
     else [0xD800 + (p - 0x10000) div 0x400, 0xDC00 + (p - 0x10000) mod 0x400])"

definition encode_utf16 :: "string \<Rightarrow> nat list" where
  "encode_utf16 s = concat (map utf16_units (utf8_scalars (map of_char s)))"

text \<open>\<open>cmp_js_utf16\<close> is the lexicographic order of the code units.\<close>

definition sort_members :: "(string \<times> json) list \<Rightarrow> (string \<times> json) list" where
  "sort_members m = sort_key (encode_utf16 \<circ> fst) m"

definition canonical_number_string :: "serde \<Rightarrow> json_number \<Rightarrow> string" where
  "canonical_number_string S number =
     (case as_i64 number of
        Some value \<Rightarrow> dec_int value
      | None \<Rightarrow>
          (case as_u64 number of
             Some value \<Rightarrow> to_string value
           | None \<Rightarrow>
               (case as_f64 number of
                  Some value \<Rightarrow>
                    if value = 0 then ''0''
                    else if frac value = 0 \<and> \<bar>value\<bar> \<le> of_int JS_MAX_SAFE_INTEGER
                    then dec_int \<lfloor>value\<rfloor>
                    else number_text S number
                | None \<Rightarrow> number_text S number)))"

fun join_with :: "string \<Rightarrow> string list \<Rightarrow> string" where
  "join_with sep [] = []"
| "join_with sep [t] = t"
| "join_with sep (t # u # ts) = t @ sep @ join_with sep (u # ts)"

definition string_json :: "serde \<Rightarrow> string \<Rightarrow> codec_error + string" where
  "string_json S s = (case str_to_json S s of Inl err \<Rightarrow> Inl (Encode err) | Inr t \<Rightarrow> Inr t)"

lemma set_sort_members [simp]: "set (sort_members m) = set m"
  by (simp add: sort_members_def)

lemma sort_member_size [termination_simp]:
  "(k, v) \<in> set (sort_members m) \<Longrightarrow> size v < Suc (size_list (\<lambda>x. Suc (size (snd x))) m)"
  using size_list_estimation [of "(k, v)" m "size v" "\<lambda>x. Suc (size (snd x))"] by simp

lemma collect_results_cong [fundef_cong]:
  "xs = ys \<Longrightarrow> (\<And>x. x \<in> set ys \<Longrightarrow> f x = g x) \<Longrightarrow> collect_results f xs = collect_results g ys"
proof (induction xs arbitrary: ys)
  case (Cons x xs)
  then show ?case by (cases ys) auto
qed simp

text \<open>
  The code sorts the keys and looks each value up again; sorting the entries is the same because
  the keys of a map are distinct.
\<close>

fun canonical_json_string :: "serde \<Rightarrow> json \<Rightarrow> codec_error + string" where
  "canonical_json_string S JNull = Inr ''null''"
| "canonical_json_string S (JBool True) = Inr ''true''"
| "canonical_json_string S (JBool False) = Inr ''false''"
| "canonical_json_string S (JNumber number) = Inr (canonical_number_string S number)"
| "canonical_json_string S (JString s) = string_json S s"
| "canonical_json_string S (JArray vs) =
     rbind (collect_results (canonical_json_string S) vs)
       (\<lambda>ts. Inr (''['' @ join_with '','' ts @ '']''))"
| "canonical_json_string S (JObject m) =
     rbind (collect_results
         (\<lambda>kv. rbind (string_json S (fst kv))
           (\<lambda>k. rbind (canonical_json_string S (snd kv)) (\<lambda>v. Inr (k @ '':'' @ v))))
         (sort_members m))
       (\<lambda>ts. Inr (''{'' @ join_with '','' ts @ ''}''))"

definition stable_json_string :: "serde \<Rightarrow> json \<Rightarrow> codec_error + string" where
  "stable_json_string S value =
     rbind (validate_strict_json_value S value ''$'') (\<lambda>_. canonical_json_string S value)"

definition strict_canonical_json_bytes :: "serde \<Rightarrow> json \<Rightarrow> codec_error + string" where
  "strict_canonical_json_bytes S value = stable_json_string S value"

subsection \<open>The duplicate-key scanner\<close>

text \<open>
  The scanner is an index into the text. Positions where the code slices the text follow or
  precede an ASCII byte, so the slices never split a character.
\<close>

definition fail :: "string \<Rightarrow> codec_error + 'a" where
  "fail message = Inl (Validation (''strictJsonCodec: '' @ message))"

definition near_byte :: "string \<Rightarrow> nat \<Rightarrow> string" where
  "near_byte message i = message @ '' near byte '' @ dec_nat i"

abbreviation (input) peek :: "string \<Rightarrow> nat \<Rightarrow> char option" where
  "peek text i \<equiv> vec_get text i"

definition is_space :: "char \<Rightarrow> bool" where
  "is_space c \<longleftrightarrow> c = CHR '' '' \<or> c = CHR 0x0A \<or> c = CHR 0x0D \<or> c = CHR 0x09"

definition is_digit :: "char \<Rightarrow> bool" where
  "is_digit c \<longleftrightarrow> 48 \<le> (of_char c :: nat) \<and> (of_char c :: nat) \<le> 57"

text \<open>A loop that advances while the byte under the index satisfies a test.\<close>

function skip_while :: "(char \<Rightarrow> bool) \<Rightarrow> string \<Rightarrow> nat \<Rightarrow> nat" where
  "skip_while p text i =
     (if i < length text \<and> p (text ! i) then skip_while p text (Suc i) else i)"
  by pat_completeness auto

termination
  by (relation "measure (\<lambda>(p, text, i). length text - i)") auto

declare skip_while.simps [simp del]

definition skip_whitespace :: "string \<Rightarrow> nat \<Rightarrow> nat" where
  "skip_whitespace text i = skip_while is_space text i"

definition skip_digits :: "string \<Rightarrow> nat \<Rightarrow> nat" where
  "skip_digits text i = skip_while is_digit text i"

definition slice :: "string \<Rightarrow> nat \<Rightarrow> nat \<Rightarrow> string" where
  "slice text i j = drop i (take j text)"

text \<open>The loop of \<open>read_json_string\<close>: the index after the closing quote.\<close>

function string_end :: "string \<Rightarrow> nat \<Rightarrow> nat option" where
  "string_end text i =
     (if i < length text then
        if text ! i = CHR 0x22 then Some (Suc i)
        else if text ! i = CHR 0x5C then string_end text (i + 2)
        else string_end text (Suc i)
      else None)"
  by pat_completeness auto

termination
  by (relation "measure (\<lambda>(text, i). length text - i)") auto

declare string_end.simps [simp del]

definition read_json_string :: "serde \<Rightarrow> string \<Rightarrow> nat \<Rightarrow> codec_error + string \<times> nat" where
  "read_json_string S text start =
     (case string_end text (Suc start) of
        Some j \<Rightarrow>
          (case str_from_json S (slice text start j) of
             Inr s \<Rightarrow> Inr (s, j)
           | Inl err \<Rightarrow> fail (''malformed JSON string: '' @ err))
      | None \<Rightarrow> fail ''unterminated JSON string'')"

definition consume_literal :: "string \<Rightarrow> nat \<Rightarrow> string \<Rightarrow> codec_error + nat" where
  "consume_literal text i literal =
     (if take (length literal) (drop i text) = literal then Inr (i + length literal)
      else fail (near_byte ''malformed JSON'' i))"

definition consume_integer :: "string \<Rightarrow> nat \<Rightarrow> nat \<Rightarrow> codec_error + nat" where
  "consume_integer text start i =
     (case peek text i of
        Some c \<Rightarrow>
          if c = CHR ''0'' then Inr (Suc i)
          else if is_digit c then Inr (skip_digits text (Suc i))
          else fail (near_byte ''malformed JSON number'' start)
      | None \<Rightarrow> fail (near_byte ''malformed JSON number'' start))"

definition digits1 :: "string \<Rightarrow> nat \<Rightarrow> nat \<Rightarrow> codec_error + nat" where
  "digits1 text start i =
     (if \<exists>c. peek text i = Some c \<and> is_digit c then Inr (skip_digits text i)
      else fail (near_byte ''malformed JSON number'' start))"

definition consume_fraction :: "string \<Rightarrow> nat \<Rightarrow> nat \<Rightarrow> codec_error + nat" where
  "consume_fraction text start i =
     (if peek text i = Some (CHR ''.'') then digits1 text start (Suc i) else Inr i)"

definition consume_exponent :: "string \<Rightarrow> nat \<Rightarrow> nat \<Rightarrow> codec_error + nat" where
  "consume_exponent text start i =
     (if peek text i = Some (CHR ''e'') \<or> peek text i = Some (CHR ''E'') then
        digits1 text start
          (if peek text (Suc i) = Some (CHR ''+'') \<or> peek text (Suc i) = Some (CHR ''-'')
           then i + 2 else Suc i)
      else Inr i)"

definition consume_number :: "string \<Rightarrow> nat \<Rightarrow> codec_error + nat" where
  "consume_number text start =
     rbind (consume_integer text start
         (if peek text start = Some (CHR ''-'') then Suc start else start))
       (\<lambda>i. rbind (consume_fraction text start i) (consume_exponent text start))"

text \<open>
  The recursive descent, with fuel: \<open>None\<close> is fuel that ran out. The loops over members and
  items take the parser of a value as an argument. \<open>scan_fuel\<close> below is enough for every text.
\<close>

type_synonym scan_result = "(codec_error + nat) option"

definition after_value :: "scan_result \<Rightarrow> (nat \<Rightarrow> scan_result) \<Rightarrow> scan_result" where
  "after_value r f =
     (case r of None \<Rightarrow> None | Some (Inl e) \<Rightarrow> Some (Inl e) | Some (Inr i) \<Rightarrow> f i)"

primrec parse_members ::
  "(string \<Rightarrow> nat \<Rightarrow> scan_result) \<Rightarrow> serde \<Rightarrow> string \<Rightarrow> string \<Rightarrow> nat \<Rightarrow> string list \<Rightarrow> nat \<Rightarrow> scan_result"
  where
  "parse_members pv S text path 0 keys index = None"
| "parse_members pv S text path (Suc n) keys index =
     (if index < length text then
        let i = skip_whitespace text index in
        if peek text i \<noteq> Some (CHR 0x22)
        then Some (fail (near_byte ''expected object key'' i))
        else
          (case read_json_string S text i of
             Inl e \<Rightarrow> Some (Inl e)
           | Inr (key, j) \<Rightarrow>
               if key \<in> set keys
               then Some (fail (''duplicate object key '' @ str_debug S key @ '' at '' @ path))
               else
                 let j = skip_whitespace text j in
                 if peek text j \<noteq> Some (CHR '':'')
                 then Some (fail (near_byte (''expected '' @ quoted '':'' @ '' after object key'') j))
                 else
                   after_value (pv (member_path path key) (Suc j)) (\<lambda>k.
                     let k = skip_whitespace text k in
                     if peek text k = Some (CHR '','')
                     then parse_members pv S text path n (keys @ [key]) (Suc k)
                     else if peek text k = Some (CHR ''}'') then Some (Inr (Suc k))
                     else Some (fail (near_byte
                            (''expected '' @ quoted '','' @ '' or '' @ quoted ''}'') k))))
      else Some (fail ''unterminated JSON object''))"

definition parse_object ::
  "(string \<Rightarrow> nat \<Rightarrow> scan_result) \<Rightarrow> serde \<Rightarrow> string \<Rightarrow> string \<Rightarrow> nat \<Rightarrow> nat \<Rightarrow> scan_result" where
  "parse_object pv S text path n index =
     (let i = skip_whitespace text (Suc index) in
      if peek text i = Some (CHR ''}'') then Some (Inr (Suc i))
      else parse_members pv S text path n [] i)"

primrec parse_items ::
  "(string \<Rightarrow> nat \<Rightarrow> scan_result) \<Rightarrow> string \<Rightarrow> string \<Rightarrow> nat \<Rightarrow> nat \<Rightarrow> nat \<Rightarrow> scan_result" where
  "parse_items pv text path 0 item index = None"
| "parse_items pv text path (Suc n) item index =
     (if index < length text then
        after_value (pv (index_path path item) index) (\<lambda>k.
          let k = skip_whitespace text k in
          if peek text k = Some (CHR '','')
          then parse_items pv text path n (Suc item) (Suc k)
          else if peek text k = Some (CHR '']'') then Some (Inr (Suc k))
          else Some (fail (near_byte (''expected '' @ quoted '','' @ '' or '' @ quoted '']'') k)))
      else Some (fail ''unterminated JSON array''))"

definition parse_array ::
  "(string \<Rightarrow> nat \<Rightarrow> scan_result) \<Rightarrow> string \<Rightarrow> string \<Rightarrow> nat \<Rightarrow> nat \<Rightarrow> scan_result" where
  "parse_array pv text path n index =
     (let i = skip_whitespace text (Suc index) in
      if peek text i = Some (CHR '']'') then Some (Inr (Suc i))
      else parse_items pv text path n 0 i)"

primrec parse_value :: "serde \<Rightarrow> string \<Rightarrow> nat \<Rightarrow> string \<Rightarrow> nat \<Rightarrow> scan_result" where
  "parse_value S text 0 = (\<lambda>path index. None)"
| "parse_value S text (Suc n) = (\<lambda>path index.
     let i = skip_whitespace text index in
      case peek text i of
        None \<Rightarrow> Some (fail (near_byte ''malformed JSON'' i))
      | Some c \<Rightarrow>
          if c = CHR ''{'' then parse_object (parse_value S text n) S text path n i
          else if c = CHR ''['' then parse_array (parse_value S text n) text path n i
          else if c = CHR 0x22 then Some (rbind (read_json_string S text i) (\<lambda>(_, j). Inr j))
          else if c = CHR ''t'' then Some (consume_literal text i ''true'')
          else if c = CHR ''f'' then Some (consume_literal text i ''false'')
          else if c = CHR ''n'' then Some (consume_literal text i ''null'')
          else if c = CHR ''-'' \<or> is_digit c then Some (consume_number text i)
          else Some (fail (near_byte ''malformed JSON'' i)))"

definition scan_fuel :: "string \<Rightarrow> nat" where
  "scan_fuel text = length text + 2"

definition assert_no_duplicate_json_object_keys ::
  "serde \<Rightarrow> string \<Rightarrow> (codec_error + unit) option" where
  "assert_no_duplicate_json_object_keys S text =
     (case parse_value S text (scan_fuel text) ''$'' 0 of
        None \<Rightarrow> None
      | Some (Inl e) \<Rightarrow> Some (Inl e)
      | Some (Inr j) \<Rightarrow>
          if skip_whitespace text j \<noteq> length text
          then Some (fail (near_byte ''trailing JSON token'' (skip_whitespace text j)))
          else Some (Inr ()))"

subsection \<open>Codecs\<close>

text \<open>
  \<open>from_utf8\<close>: the length of the first character of a byte sequence, or how many bytes are
  wrong (\<open>None\<close>: the sequence ends too early).
\<close>

definition utf8_cont :: "nat \<Rightarrow> bool" where
  "utf8_cont b \<longleftrightarrow> 0x80 \<le> b \<and> b < 0xC0"

definition utf8_second :: "nat \<Rightarrow> nat \<Rightarrow> bool" where
  "utf8_second a b \<longleftrightarrow> utf8_cont b \<and>
     (a = 0xE0 \<longrightarrow> 0xA0 \<le> b) \<and> (a = 0xED \<longrightarrow> b < 0xA0) \<and>
     (a = 0xF0 \<longrightarrow> 0x90 \<le> b) \<and> (a = 0xF4 \<longrightarrow> b < 0x90)"

definition utf8_width :: "nat \<Rightarrow> nat" where
  "utf8_width a =
     (if a < 0x80 then 1 else if a < 0xC2 then 0 else if a < 0xE0 then 2
      else if a < 0xF0 then 3 else if a < 0xF5 then 4 else 0)"

definition utf8_first :: "nat list \<Rightarrow> nat option + nat" where
  "utf8_first bs =
     (case bs of
        [] \<Rightarrow> Inl None
      | a # rest \<Rightarrow>
          (let w = utf8_width a in
           if w = 0 then Inl (Some 1)
           else if w = 1 then Inr 1
           else
             (case rest of
                [] \<Rightarrow> Inl None
              | b # rest \<Rightarrow>
                  if \<not> utf8_second a b then Inl (Some 1)
                  else if w = 2 then Inr 2
                  else
                    (case rest of
                       [] \<Rightarrow> Inl None
                     | c # rest \<Rightarrow>
                         if \<not> utf8_cont c then Inl (Some 2)
                         else if w = 3 then Inr 3
                         else
                           (case rest of
                              [] \<Rightarrow> Inl None
                            | d # _ \<Rightarrow> if utf8_cont d then Inr 4 else Inl (Some 3))))))"

definition utf8_error_text :: "nat option \<Rightarrow> nat \<Rightarrow> string" where
  "utf8_error_text len i =
     (case len of
        Some k \<Rightarrow> ''invalid utf-8 sequence of '' @ dec_nat k @ '' bytes from index '' @ dec_nat i
      | None \<Rightarrow> ''incomplete utf-8 byte sequence from index '' @ dec_nat i)"

lemma utf8_first_pos [termination_simp]: "utf8_first bs = Inr w \<Longrightarrow> 0 < w"
  by (auto simp: utf8_first_def Let_def split: list.splits if_splits)

function from_utf8_at :: "nat list \<Rightarrow> nat \<Rightarrow> string + unit" where
  "from_utf8_at bs i =
     (if bs = [] then Inr ()
      else
        (case utf8_first bs of
           Inl len \<Rightarrow> Inl (utf8_error_text len i)
         | Inr w \<Rightarrow> from_utf8_at (drop w bs) (i + w)))"
  by pat_completeness auto

termination
  by (relation "measure (\<lambda>(bs, i). length bs)") (auto simp: utf8_first_pos)

declare from_utf8_at.simps [simp del]

definition from_utf8 :: "string \<Rightarrow> string + unit" where
  "from_utf8 s = from_utf8_at (map of_char s) 0"

definition map_err :: "('e \<Rightarrow> 'f) \<Rightarrow> 'e + 'a \<Rightarrow> 'f + 'a" where
  "map_err f r = (case r of Inl e \<Rightarrow> Inl (f e) | Inr a \<Rightarrow> Inr a)"

definition strict_json_decode :: "serde \<Rightarrow> string \<Rightarrow> (codec_error + json) option" where
  "strict_json_decode S bytes =
     (case map_err Decode (from_utf8 bytes) of
        Inl e \<Rightarrow> Some (Inl e)
      | Inr _ \<Rightarrow>
          (case assert_no_duplicate_json_object_keys S bytes of
             None \<Rightarrow> None
           | Some (Inl e) \<Rightarrow> Some (Inl e)
           | Some (Inr _) \<Rightarrow>
               Some (rbind (map_err Decode (value_from_json S bytes)) (\<lambda>decoded.
                 rbind (strict_canonical_json_bytes S decoded) (\<lambda>canonical.
                   if bytes \<noteq> canonical
                   then Inl (Validation ''strictJsonCodec: bytes are not canonical stable JSON'')
                   else Inr decoded)))))"

definition json_codec_encode :: "serde \<Rightarrow> json \<Rightarrow> codec_error + string" where
  "json_codec_encode S value = stable_json_string S value"

definition json_codec_decode :: "serde \<Rightarrow> string \<Rightarrow> codec_error + json" where
  "json_codec_decode S bytes = map_err Decode (value_from_json S bytes)"

subsection \<open>Decimal integers\<close>

definition is_decimal_integer_string :: "string \<Rightarrow> bool" where
  "is_decimal_integer_string value =
     (if value = ''0'' then True
      else
        (let rest = (case value of c # cs \<Rightarrow> if c = CHR ''-'' then cs else value | [] \<Rightarrow> value) in
         rest \<noteq> [] \<and> hd rest \<noteq> CHR ''0'' \<and> list_all is_digit rest \<and> value \<noteq> ''-0''))"

definition is_non_negative_decimal_integer_string :: "string \<Rightarrow> bool" where
  "is_non_negative_decimal_integer_string value =
     (if value = ''0'' then True
      else value \<noteq> [] \<and> hd value \<noteq> CHR ''-'' \<and> hd value \<noteq> CHR ''0'' \<and> list_all is_digit value)"

definition assert_decimal_integer_string :: "string \<Rightarrow> string \<Rightarrow> codec_error + string" where
  "assert_decimal_integer_string value label =
     (if is_decimal_integer_string value then Inr value
      else Inl (Validation (label @ '' must be a canonical decimal integer string'')))"

definition assert_non_negative_decimal_integer_string ::
  "string \<Rightarrow> string \<Rightarrow> codec_error + string" where
  "assert_non_negative_decimal_integer_string value label =
     (if is_non_negative_decimal_integer_string value then Inr value
      else Inl (Validation (label @ '' must be a canonical non-negative decimal integer string'')))"

type_synonym u128 = "128 word"

definition i128_to_decimal_string :: "u128 \<Rightarrow> string" where
  "i128_to_decimal_string value = dec_int (sint value)"

definition u128_to_non_negative_decimal_string :: "u128 \<Rightarrow> string" where
  "u128_to_non_negative_decimal_string value = to_string value"

text \<open>
  \<open>parse::<i128>\<close> and \<open>parse::<u128>\<close> on a string that has passed the test above: only
  the range can fail.
\<close>

definition parse_i128 :: "string \<Rightarrow> string + u128" where
  "parse_i128 s =
     (let z = (case s of c # cs \<Rightarrow> if c = CHR ''-'' then - int (dec_val cs) else int (dec_val s)
               | [] \<Rightarrow> 0) in
      if z > 2 ^ 127 - 1 then Inl ''number too large to fit in target type''
      else if z < - (2 ^ 127) then Inl ''number too small to fit in target type''
      else Inr (word_of_int z))"

definition parse_u128 :: "string \<Rightarrow> string + u128" where
  "parse_u128 s =
     (if dec_val s < 2 ^ 128 then Inr (of_nat (dec_val s))
      else Inl ''number too large to fit in target type'')"

definition decimal_string_to_i128 :: "string \<Rightarrow> codec_error + u128" where
  "decimal_string_to_i128 value =
     rbind (assert_decimal_integer_string value ''decimal integer'') (\<lambda>value.
       map_err (\<lambda>err. Validation (''decimal integer is outside i128 range: '' @ err))
         (parse_i128 value))"

definition non_negative_decimal_string_to_u128 :: "string \<Rightarrow> codec_error + u128" where
  "non_negative_decimal_string_to_u128 value =
     rbind (assert_non_negative_decimal_integer_string value ''decimal integer'') (\<lambda>value.
       map_err (\<lambda>err. Validation (''decimal integer is outside u128 range: '' @ err))
         (parse_u128 value))"

end
