(* ===== verification/CollectionStorage.thy ===== *)
theory CollectionStorage
  imports Collections AppendLog Json
begin

text \<open>
  Loading a persisted collection (\<open>storage.rs\<close>): snapshot and change frames, the folds of
  the four kinds of change over a restored state, and the loaders that combine a snapshot with
  the changes behind its cursor. Frames are checked and values compared by the strict canonical
  bytes of \<open>json.rs\<close> (\<open>strict_canonical_json_bytes\<close> of \<open>Json\<close>, with the \<open>serde_json\<close>
  calls \<open>S\<close>). The conversions that user types derive with \<open>serde\<close> are parameters: \<open>de\<close> and
  \<open>des\<close> are \<open>serde_json::from_value\<close> at the type read, \<open>tv\<close>, \<open>tvk\<close> and \<open>tvv\<close> are
  \<open>serde_json::to_value\<close>.
\<close>

datatype collection_kind = ReactiveListKind | ReactiveLogKind | ReactiveMapKind | ReactiveIndexKind

fun show_kind :: "collection_kind \<Rightarrow> string" where
  "show_kind ReactiveListKind = ''ReactiveList''"
| "show_kind ReactiveLogKind = ''ReactiveLog''"
| "show_kind ReactiveMapKind = ''ReactiveMap''"
| "show_kind ReactiveIndexKind = ''ReactiveIndex''"

record snapshot_frame =
  sf_format :: string
  sf_version :: u8
  sf_kind :: collection_kind
  sf_change_cursor :: int
  sf_snapshot :: json

record change_frame =
  cf_format :: string
  cf_version :: u8
  cf_kind :: collection_kind
  cf_change :: json

definition SNAPSHOT_FORMAT :: string where
  "SNAPSHOT_FORMAT = ''graphrefly.reactive-collection.snapshot.v1''"
definition CHANGE_FORMAT :: string where
  "CHANGE_FORMAT = ''graphrefly.reactive-collection.change.v1''"
definition FRAME_VERSION :: u8 where "FRAME_VERSION = 1"

text \<open>\<open>serde_json::to_value\<close> of a frame, as its type derives it; an object is in key order.\<close>

fun kind_name :: "collection_kind \<Rightarrow> string" where
  "kind_name ReactiveListKind = ''reactiveList''"
| "kind_name ReactiveLogKind = ''reactiveLog''"
| "kind_name ReactiveMapKind = ''reactiveMap''"
| "kind_name ReactiveIndexKind = ''reactiveIndex''"

definition int_json :: "int \<Rightarrow> json" where
  "int_json i = JNumber (if i < 0 then NegInt (of_int i) else PosInt (of_int i))"

definition snapshot_frame_json :: "snapshot_frame \<Rightarrow> json" where
  "snapshot_frame_json f = JObject
     [(''changeCursor'', int_json (sf_change_cursor f)), (''format'', JString (sf_format f)),
      (''kind'', JString (kind_name (sf_kind f))), (''snapshot'', sf_snapshot f),
      (''version'', int_json (uint (sf_version f)))]"

definition change_frame_json :: "change_frame \<Rightarrow> json" where
  "change_frame_json f = JObject
     [(''change'', cf_change f), (''format'', JString (cf_format f)),
      (''kind'', JString (kind_name (cf_kind f))), (''version'', int_json (uint (cf_version f)))]"

text \<open>\<open>strict_canonical_json_bytes\<close> with the error mapped by \<open>storage_json_error\<close>.\<close>

definition strict_bytes :: "serde \<Rightarrow> json \<Rightarrow> string storage_result" where
  "strict_bytes S v =
     (case strict_canonical_json_bytes S v of
        Inl err \<Rightarrow> Inl (Backend (show_codec_error err)) | Inr bytes \<Rightarrow> Inr bytes)"

definition assert_snapshot_frame ::
  "serde \<Rightarrow> snapshot_frame \<Rightarrow> unit storage_result" where
  "assert_snapshot_frame S f =
     (if sf_format f \<noteq> SNAPSHOT_FORMAT
      then Inl (Backend (''reactiveCollection snapshot frame: unsupported format '' @ sf_format f))
      else if sf_version f \<noteq> FRAME_VERSION
      then Inl (Backend (''reactiveCollection snapshot frame: unsupported version '' @ to_string (sf_version f)))
      else if sf_change_cursor f < - 1
      then Inl (Backend
        ''reactiveCollection snapshot frame: changeCursor must be -1 or a non-negative integer'')
      else rbind (strict_bytes S (snapshot_frame_json f)) (\<lambda>_. Inr ()))"

definition assert_change_frame ::
  "serde \<Rightarrow> change_frame \<Rightarrow> unit storage_result" where
  "assert_change_frame S f =
     (if cf_format f \<noteq> CHANGE_FORMAT
      then Inl (Backend (''reactiveCollection change frame: unsupported format '' @ cf_format f))
      else if cf_version f \<noteq> FRAME_VERSION
      then Inl (Backend (''reactiveCollection change frame: unsupported version '' @ to_string (cf_version f)))
      else rbind (strict_bytes S (change_frame_json f)) (\<lambda>_. Inr ()))"

definition collection_snapshot_frame ::
  "serde \<Rightarrow> collection_kind \<Rightarrow> int \<Rightarrow> json \<Rightarrow> snapshot_frame storage_result" where
  "collection_snapshot_frame S kind change_cursor snapshot =
     (let f = \<lparr>sf_format = SNAPSHOT_FORMAT, sf_version = FRAME_VERSION, sf_kind = kind,
               sf_change_cursor = change_cursor, sf_snapshot = snapshot\<rparr>
      in rbind (assert_snapshot_frame S f) (\<lambda>_. Inr f))"

definition collection_change_frame ::
  "serde \<Rightarrow> collection_kind \<Rightarrow> json \<Rightarrow> change_frame storage_result" where
  "collection_change_frame S kind change =
     (let f = \<lparr>cf_format = CHANGE_FORMAT, cf_version = FRAME_VERSION, cf_kind = kind, cf_change = change\<rparr>
      in rbind (assert_change_frame S f) (\<lambda>_. Inr f))"

section \<open>Folding changes\<close>

definition strict_json_identity :: "serde \<Rightarrow> ('a \<Rightarrow> json storage_result) \<Rightarrow> 'a \<Rightarrow> string storage_result" where
  "strict_json_identity S tv v = rbind (tv v) (strict_bytes S)"

definition strict_json_equal :: "serde \<Rightarrow> ('a \<Rightarrow> json storage_result) \<Rightarrow> 'a \<Rightarrow> 'a \<Rightarrow> bool storage_result" where
  "strict_json_equal S tv a b =
     rbind (tv a) (\<lambda>l. rbind (tv b) (\<lambda>r.
       rbind (strict_bytes S l) (\<lambda>lb. rbind (strict_bytes S r) (\<lambda>rb. Inr (lb = rb)))))"

definition len_error :: "string \<Rightarrow> nat \<Rightarrow> string \<Rightarrow> nat \<Rightarrow> storage_error" where
  "len_error what n mid len = Backend (what @ dec_nat n @ mid @ dec_nat len)"

definition apply_list_change ::
  "('t \<Rightarrow> 't \<Rightarrow> bool storage_result) \<Rightarrow> 't list \<Rightarrow> 't list_change \<Rightarrow> 't list storage_result" where
  "apply_list_change same state change =
     (case change of
         ListAppend v \<Rightarrow> Inr (state @ [v])
       | ListAppendMany vs \<Rightarrow> Inr (state @ vs)
       | ListInsert i v \<Rightarrow>
           if i > length state
           then Inl (len_error ''reactiveList fold: insert index '' i '' is out of bounds for len '' (length state))
           else Inr (insert_at i [v] state)
       | ListInsertMany i vs \<Rightarrow>
           if i > length state
           then Inl (len_error ''reactiveList fold: insertMany index '' i '' is out of bounds for len '' (length state))
           else Inr (insert_at i vs state)
       | ListPop i v \<Rightarrow>
           if i \<ge> length state
           then Inl (len_error ''reactiveList fold: pop index '' i '' is out of bounds for len '' (length state))
           else rbind (same (state ! i) v) (\<lambda>eq.
             if eq then Inr (remove_at i state)
             else Inl (Backend ''reactiveList fold: pop value does not match stored state''))
       | ListTrimHead n \<Rightarrow>
           if n > length state
           then Inl (len_error ''reactiveList fold: trimHead '' n '' exceeds len '' (length state))
           else Inr (drop n state)
       | ListClear count \<Rightarrow>
           if count \<noteq> length state
           then Inl (len_error ''reactiveList fold: clear count '' count '' does not match len '' (length state))
           else Inr [])"

definition fold_list_change ::
  "serde \<Rightarrow> ('t \<Rightarrow> json storage_result) \<Rightarrow> (json \<Rightarrow> 't list_change storage_result)
    \<Rightarrow> 't list \<Rightarrow> change_frame \<Rightarrow> 't list storage_result" where
  "fold_list_change S tv de state frame =
     rbind (de (cf_change frame)) (apply_list_change (strict_json_equal S tv) state)"

definition apply_log_change ::
  "'t list \<Rightarrow> 't log_change \<Rightarrow> 't list storage_result" where
  "apply_log_change  state change =
     (case change of
         LogAppended v \<Rightarrow> Inr (state @ [v])
       | LogAppendMany vs \<Rightarrow> Inr (state @ vs)
       | LogTrimHead n \<Rightarrow>
           if n > length state
           then Inl (len_error ''reactiveLog fold: trimHead '' n '' exceeds len '' (length state))
           else Inr (drop n state)
       | LogClear count \<Rightarrow>
           if count \<noteq> length state
           then Inl (len_error ''reactiveLog fold: clear count '' count '' does not match len '' (length state))
           else Inr [])"

definition fold_log_change ::
  "(json \<Rightarrow> 't log_change storage_result) \<Rightarrow> 't list \<Rightarrow> change_frame \<Rightarrow> 't list storage_result" where
  "fold_log_change de state frame =
     rbind (de (cf_change frame)) (apply_log_change state)"

text \<open>\<open>find_map_key\<close> and \<open>find_index_primary\<close>: the first entry with the identity of the key.\<close>

fun find_identity :: "('k \<Rightarrow> 'i storage_result) \<Rightarrow> 'i \<Rightarrow> nat \<Rightarrow> 'k list \<Rightarrow> nat option storage_result" where
  "find_identity ident target index [] = Inr None"
| "find_identity ident target index (k # ks) =
     rbind (ident k) (\<lambda>i. if i = target then Inr (Some index)
                          else find_identity ident target (index + 1) ks)"

definition find_map_key ::
  "('k \<Rightarrow> 'i storage_result) \<Rightarrow> ('k \<times> 'v) list \<Rightarrow> 'k \<Rightarrow> nat option storage_result" where
  "find_map_key ident entries key =
     rbind (ident key) (\<lambda>target. find_identity ident target 0 (map fst entries))"

definition find_index_primary ::
  "('k \<Rightarrow> 'i storage_result) \<Rightarrow> ('k, 's, 'v) index_row list \<Rightarrow> 'k \<Rightarrow> nat option storage_result" where
  "find_index_primary ident rows primary =
     rbind (ident primary) (\<lambda>target. find_identity ident target 0 (map ir_primary rows))"

definition apply_map_change ::
  "('k \<Rightarrow> 'i storage_result) \<Rightarrow> ('v \<Rightarrow> 'v \<Rightarrow> bool storage_result) \<Rightarrow> ('k \<times> 'v) list
    \<Rightarrow> ('k, 'v) map_change \<Rightarrow> ('k \<times> 'v) list storage_result" where
  "apply_map_change ident same state change =
     (case change of
         MapSet k v \<Rightarrow>
           rbind (find_map_key ident state k) (\<lambda>found. case found of
               Some i \<Rightarrow> Inr (state[i := (k, v)])
             | None \<Rightarrow> Inr (state @ [(k, v)]))
       | MapDelete k previous \<Rightarrow>
           rbind (find_map_key ident state k) (\<lambda>found. case found of
               None \<Rightarrow> Inl (Backend ''reactiveMap fold: delete key is missing'')
             | Some i \<Rightarrow>
                 rbind (same (snd (state ! i)) previous) (\<lambda>eq.
                   if eq then Inr (remove_at i state)
                   else Inl (Backend
                     ''reactiveMap fold: delete previous value does not match stored state'')))
       | MapClear count \<Rightarrow>
           if count \<noteq> length state
           then Inl (len_error ''reactiveMap fold: clear count '' count '' does not match len '' (length state))
           else Inr [])"

definition fold_map_change ::
  "serde \<Rightarrow> ('k \<Rightarrow> json storage_result) \<Rightarrow> ('v \<Rightarrow> json storage_result)
    \<Rightarrow> (json \<Rightarrow> ('k, 'v) map_change storage_result) \<Rightarrow> ('k \<times> 'v) list \<Rightarrow> change_frame
    \<Rightarrow> ('k \<times> 'v) list storage_result" where
  "fold_map_change S tvk tvv de state frame =
     rbind (de (cf_change frame)) (apply_map_change (strict_json_identity S tvk) (strict_json_equal S tvv) state)"

text \<open>\<open>remove_index_primaries\<close>: all positions are found before any row is removed.\<close>

fun removal_indexes ::
  "('k \<Rightarrow> 'i storage_result) \<Rightarrow> ('k, 's, 'v) index_row list \<Rightarrow> string \<Rightarrow> nat \<Rightarrow> 'i list \<Rightarrow> 'k list
    \<Rightarrow> nat list storage_result" where
  "removal_indexes ident rows label index seen [] = Inr []"
| "removal_indexes ident rows label index seen (k # ks) =
     rbind (ident k) (\<lambda>i.
       if i \<in> set seen
       then Inl (Backend (label @ '' '' @ dec_nat index @ '' duplicates an earlier primary''))
       else rbind (find_index_primary ident rows k) (\<lambda>found. case found of
           None \<Rightarrow> Inl (Backend (label @ '' '' @ dec_nat index @ '' is missing''))
         | Some row \<Rightarrow>
             rbind (removal_indexes ident rows label (index + 1) (seen @ [i]) ks)
               (\<lambda>rest. Inr (row # rest))))"

definition remove_index_primaries ::
  "('k \<Rightarrow> 'i storage_result) \<Rightarrow> ('k, 's, 'v) index_row list \<Rightarrow> 'k list \<Rightarrow> string
    \<Rightarrow> ('k, 's, 'v) index_row list storage_result" where
  "remove_index_primaries ident rows primaries label =
     rbind (removal_indexes ident rows label 0 [] primaries)
       (\<lambda>indexes. Inr (fold remove_at (rev (sort indexes)) rows))"

definition apply_index_change ::
  "('k \<Rightarrow> 'i storage_result) \<Rightarrow> ('k, 's, 'v) index_row list \<Rightarrow> ('k, 's, 'v) index_change
    \<Rightarrow> ('k, 's, 'v) index_row list storage_result" where
  "apply_index_change ident state change =
     (case change of
         IndexUpsert k s v \<Rightarrow>
           let row = \<lparr>ir_primary = k, ir_secondary = s, ir_value = v\<rparr>
           in rbind (find_index_primary ident state k) (\<lambda>found. case found of
                  Some i \<Rightarrow> Inr (state[i := row])
                | None \<Rightarrow> Inr (state @ [row]))
       | IndexDelete k \<Rightarrow>
           rbind (find_index_primary ident state k) (\<lambda>found. case found of
               None \<Rightarrow> Inl (Backend ''reactiveIndex fold: delete primary is missing'')
             | Some i \<Rightarrow> Inr (remove_at i state))
       | IndexDeleteMany ks \<Rightarrow>
           remove_index_primaries ident state ks
             ''reactiveIndex fold: deleteMany primary''
       | IndexClear count \<Rightarrow>
           if count \<noteq> length state
           then Inl (len_error ''reactiveIndex fold: clear count '' count '' does not match len '' (length state))
           else Inr [])"

definition fold_index_change ::
  "serde \<Rightarrow> ('k \<Rightarrow> json storage_result)
    \<Rightarrow> (json \<Rightarrow> ('k, 's, 'v) index_change storage_result) \<Rightarrow> ('k, 's, 'v) index_row list
    \<Rightarrow> change_frame \<Rightarrow> ('k, 's, 'v) index_row list storage_result" where
  "fold_index_change S tvk de state frame =
     rbind (de (cf_change frame)) (apply_index_change (strict_json_identity S tvk) state)"

section \<open>Loading\<close>

record load_options =
  lo_storage_prefix :: "string option"
  lo_snapshot_key :: "string option"
  lo_change_log :: "(append_log_read_options \<Rightarrow> change_frame append_log_entry list storage_result) option"

definition collection_snapshot_key :: "string \<Rightarrow> string storage_result" where
  "collection_snapshot_key p =
     (if p = [] then Inl (Backend ''reactive_collection_snapshot_key: storage_prefix must be non-empty'')
      else Inr (p @ ''/snapshot''))"

definition resolve_collection_snapshot_key :: "load_options \<Rightarrow> string storage_result" where
  "resolve_collection_snapshot_key opts =
     (case lo_snapshot_key opts of
        Some key \<Rightarrow>
          if key = [] then Inl (Backend ''reactiveCollection load: snapshot_key must be non-empty'')
          else Inr key
      | None \<Rightarrow>
          (case lo_storage_prefix opts of
             None \<Rightarrow> Inl (Backend ''reactiveCollection load: storage_prefix or snapshot_key is required'')
           | Some p \<Rightarrow> collection_snapshot_key p))"

definition load_collection_snapshot ::
  "serde \<Rightarrow> (string \<Rightarrow> snapshot_frame option storage_result)
    \<Rightarrow> (json \<Rightarrow> 'a storage_result) \<Rightarrow> load_options \<Rightarrow> collection_kind
    \<Rightarrow> ('a option \<times> u64 option \<times> bool) storage_result" where
  "load_collection_snapshot S get de opts kind =
     rbind (resolve_collection_snapshot_key opts) (\<lambda>key.
     rbind (get key) (\<lambda>found. case found of
         None \<Rightarrow> Inr (None, None, False)
       | Some frame \<Rightarrow>
           rbind (assert_snapshot_frame S frame) (\<lambda>_.
             if sf_kind frame \<noteq> kind
             then Inl (Backend (''reactiveCollection snapshot frame: expected '' @ show_kind kind
                                @ '', got '' @ show_kind (sf_kind frame)))
             else rbind (de (sf_snapshot frame)) (\<lambda>state.
               Inr (Some state,
                    if sf_change_cursor frame < 0 then None else Some (of_int (sf_change_cursor frame)),
                    True)))))"

definition seq_to_snapshot_cursor :: "u64 \<Rightarrow> int storage_result" where
  "seq_to_snapshot_cursor seq =
     (if unat seq < 2 ^ 63 then Inr (int (unat seq))
      else Inl (Backend ''reactiveCollection cursor exceeds i64 range''))"

definition cursor_or_minus_one :: "u64 option \<Rightarrow> int storage_result" where
  "cursor_or_minus_one cursor =
     (case cursor of None \<Rightarrow> Inr (- 1) | Some seq \<Rightarrow> seq_to_snapshot_cursor seq)"

record 'a folded_state =
  fs_state :: 'a
  fs_cursor :: "u64 option"
  fs_snapshot_cursor :: int

fun fold_entries ::
  "serde \<Rightarrow> collection_kind \<Rightarrow> ('a \<Rightarrow> change_frame \<Rightarrow> 'a storage_result)
    \<Rightarrow> 'a \<Rightarrow> u64 option \<Rightarrow> u64 \<Rightarrow> change_frame append_log_entry list \<Rightarrow> ('a \<times> u64 option) storage_result" where
  "fold_entries S kind f state cursor expected [] = Inr (state, cursor)"
| "fold_entries S kind f state cursor expected (e # es) =
     (if ae_seq e \<noteq> expected
      then Inl (Backend (''reactiveCollection load: non-contiguous change log sequence, expected ''
                         @ to_string expected @ '', got '' @ to_string (ae_seq e)))
      else rbind (assert_change_frame S (ae_value e)) (\<lambda>_.
        if cf_kind (ae_value e) \<noteq> kind
        then Inl (Backend (''reactiveCollection change frame: expected '' @ show_kind kind
                           @ '', got '' @ show_kind (cf_kind (ae_value e))))
        else rbind (f state (ae_value e)) (\<lambda>state.
          case checked_add expected 1 of
            None \<Rightarrow> Inl (Backend ''reactiveCollection load: change log sequence overflow'')
          | Some expected \<Rightarrow> fold_entries S kind f state (Some (ae_seq e)) expected es)))"

definition fold_collection_changes ::
  "serde \<Rightarrow> 'a \<Rightarrow> u64 option
    \<Rightarrow> (append_log_read_options \<Rightarrow> change_frame append_log_entry list storage_result) option
    \<Rightarrow> collection_kind \<Rightarrow> ('a \<Rightarrow> change_frame \<Rightarrow> 'a storage_result) \<Rightarrow> ('a folded_state \<times> nat) storage_result" where
  "fold_collection_changes S state cursor change_log kind f =
     rbind (cursor_or_minus_one cursor) (\<lambda>snapshot_cursor.
       case change_log of
         None \<Rightarrow> Inr (\<lparr>fs_state = state, fs_cursor = cursor, fs_snapshot_cursor = snapshot_cursor\<rparr>, 0)
       | Some read \<Rightarrow>
           rbind (read \<lparr>lr_after = cursor, lr_limit = None\<rparr>) (\<lambda>entries.
           rbind (fold_entries S kind f state cursor
                    (case cursor of None \<Rightarrow> 0 | Some seq \<Rightarrow> saturating_add seq 1) entries) (\<lambda>(state, cursor).
             Inr (\<lparr>fs_state = state, fs_cursor = cursor, fs_snapshot_cursor = snapshot_cursor\<rparr>,
                  length entries))))"

datatype restore_source = FromEmpty | FromChanges | FromSnapshot | FromSnapshotAndChanges

record 'a collection_restore_state =
  rs_kind :: collection_kind
  rs_state :: 'a
  rs_source :: restore_source
  rs_snapshot_cursor :: int
  rs_changes_cursor :: int
  rs_cursor :: "u64 option"
  rs_snapshot_found :: bool
  rs_changes_applied :: nat

definition restore_state ::
  "collection_kind \<Rightarrow> 'a \<Rightarrow> bool \<Rightarrow> int \<Rightarrow> nat \<Rightarrow> u64 option \<Rightarrow> 'a collection_restore_state storage_result" where
  "restore_state kind state snapshot_found snapshot_cursor changes_applied cursor =
     rbind (cursor_or_minus_one cursor) (\<lambda>change_cursor.
       Inr \<lparr>rs_kind = kind, rs_state = state,
            rs_source = (case (snapshot_found, changes_applied > 0) of
                           (False, False) \<Rightarrow> FromEmpty | (False, True) \<Rightarrow> FromChanges
                         | (True, False) \<Rightarrow> FromSnapshot | (True, True) \<Rightarrow> FromSnapshotAndChanges),
            rs_snapshot_cursor = snapshot_cursor, rs_changes_cursor = change_cursor,
            rs_cursor = cursor, rs_snapshot_found = snapshot_found,
            rs_changes_applied = changes_applied\<rparr>)"

text \<open>
  The common shape of the four loaders: snapshot or the empty state, a check, the fold of the
  later changes, a check.
\<close>

definition load_collection_state ::
  "serde
    \<Rightarrow> (string \<Rightarrow> snapshot_frame option storage_result) \<Rightarrow> (json \<Rightarrow> 'a list storage_result)
    \<Rightarrow> (string \<Rightarrow> 'a list \<Rightarrow> unit storage_result) \<Rightarrow> string \<Rightarrow> collection_kind
    \<Rightarrow> ('a list \<Rightarrow> change_frame \<Rightarrow> 'a list storage_result) \<Rightarrow> load_options
    \<Rightarrow> 'a list collection_restore_state storage_result" where
  "load_collection_state S get des check name kind f opts =
     rbind (load_collection_snapshot S get des opts kind) (\<lambda>(snapshot, cursor, found).
     let state = (case snapshot of None \<Rightarrow> [] | Some s \<Rightarrow> s)
     in rbind (check (name @ '' snapshot'') state) (\<lambda>_.
        rbind (fold_collection_changes S state cursor (lo_change_log opts) kind f) (\<lambda>(folded, applied).
        rbind (check (name @ '' restore'') (fs_state folded)) (\<lambda>_.
          restore_state kind (fs_state folded) found (fs_snapshot_cursor folded) applied
            (fs_cursor folded)))))"

definition no_check :: "string \<Rightarrow> 'a list \<Rightarrow> unit storage_result" where
  "no_check label state = Inr ()"

text \<open>The loop of the uniqueness checks; \<open>err\<close> is the error at a position.\<close>

fun unique_identities ::
  "('k \<Rightarrow> 'i storage_result) \<Rightarrow> (nat \<Rightarrow> storage_error) \<Rightarrow> nat \<Rightarrow> 'i list \<Rightarrow> 'k list \<Rightarrow> unit storage_result" where
  "unique_identities ident err index seen [] = Inr ()"
| "unique_identities ident err index seen (k # ks) =
     rbind (ident k) (\<lambda>i.
       if i \<in> set seen then Inl (err index)
       else unique_identities ident err (index + 1) (seen @ [i]) ks)"

definition assert_unique_map_keys ::
  "('k \<Rightarrow> 'i storage_result) \<Rightarrow> string \<Rightarrow> ('k \<times> 'v) list \<Rightarrow> unit storage_result" where
  "assert_unique_map_keys ident label entries =
     unique_identities ident
       (\<lambda>index. Backend (label @ '': entry '' @ dec_nat index @ '' duplicates an earlier key''))
       0 [] (map fst entries)"

definition assert_unique_index_primaries ::
  "('k \<Rightarrow> 'i storage_result) \<Rightarrow> string \<Rightarrow> ('k, 's, 'v) index_row list \<Rightarrow> unit storage_result" where
  "assert_unique_index_primaries ident label rows =
     unique_identities ident
       (\<lambda>index. Backend (label @ '': row '' @ dec_nat index @ '' duplicates an earlier primary''))
       0 [] (map ir_primary rows)"

definition load_reactive_list_state ::
  "serde
    \<Rightarrow> (string \<Rightarrow> snapshot_frame option storage_result)
    \<Rightarrow> ('t \<Rightarrow> json storage_result) \<Rightarrow> (json \<Rightarrow> 't list storage_result) \<Rightarrow> (json \<Rightarrow> 't list_change storage_result)
    \<Rightarrow> load_options \<Rightarrow> 't list collection_restore_state storage_result" where
  "load_reactive_list_state S get tv des de opts =
     load_collection_state S get des no_check ''reactiveList'' ReactiveListKind
       (fold_list_change S tv de) opts"

definition load_reactive_log_state ::
  "serde
    \<Rightarrow> (string \<Rightarrow> snapshot_frame option storage_result)
    \<Rightarrow> (json \<Rightarrow> 't list storage_result) \<Rightarrow> (json \<Rightarrow> 't log_change storage_result)
    \<Rightarrow> load_options \<Rightarrow> 't list collection_restore_state storage_result" where
  "load_reactive_log_state S get des de opts =
     load_collection_state S get des no_check ''reactiveLog'' ReactiveLogKind
       (fold_log_change de) opts"

definition load_reactive_map_state ::
  "serde
    \<Rightarrow> (string \<Rightarrow> snapshot_frame option storage_result)
    \<Rightarrow> ('k \<Rightarrow> json storage_result) \<Rightarrow> ('v \<Rightarrow> json storage_result) \<Rightarrow> (json \<Rightarrow> ('k \<times> 'v) list storage_result)
    \<Rightarrow> (json \<Rightarrow> ('k, 'v) map_change storage_result) \<Rightarrow> load_options
    \<Rightarrow> ('k \<times> 'v) list collection_restore_state storage_result" where
  "load_reactive_map_state S get tvk tvv des de opts =
     load_collection_state S get des
       (assert_unique_map_keys (strict_json_identity S tvk)) ''reactiveMap'' ReactiveMapKind
       (fold_map_change S tvk tvv de) opts"

definition load_reactive_index_state ::
  "serde
    \<Rightarrow> (string \<Rightarrow> snapshot_frame option storage_result)
    \<Rightarrow> ('k \<Rightarrow> json storage_result) \<Rightarrow> (json \<Rightarrow> ('k, 's, 'v) index_row list storage_result)
    \<Rightarrow> (json \<Rightarrow> ('k, 's, 'v) index_change storage_result) \<Rightarrow> load_options
    \<Rightarrow> ('k, 's, 'v) index_row list collection_restore_state storage_result" where
  "load_reactive_index_state S get tvk des de opts =
     load_collection_state S get des
       (assert_unique_index_primaries (strict_json_identity S tvk)) ''reactiveIndex'' ReactiveIndexKind
       (fold_index_change S tvk de) opts"

section \<open>Rebuilding a collection\<close>

text \<open>
  The constructors of \<open>data_structures.rs\<close> from a restored state; a panic of the list or log
  constructor on a zero capacity is \<open>None\<close>. \<open>anyj\<close> is \<open>any_to_checkpoint_json\<close> at the type of
  the keys, which dispatches on the type of its argument and fails for every type it does not know.
\<close>

definition restore_reactive_list ::
  "'t list collection_restore_state \<Rightarrow> nat option \<Rightarrow> 't reactive_list option storage_result" where
  "restore_reactive_list state max_size =
     (if rs_kind state \<noteq> ReactiveListKind
      then Inl (Backend ''restore_reactive_list: restore state kind must be reactiveList'')
      else Inr (rl_new (rs_state state) max_size))"

definition restore_reactive_log ::
  "'t list collection_restore_state \<Rightarrow> nat option \<Rightarrow> 't log_backend option storage_result" where
  "restore_reactive_log state max_size =
     (if rs_kind state \<noteq> ReactiveLogKind
      then Inl (Backend ''restore_reactive_log: restore state kind must be reactiveLog'')
      else Inr (rg_new (rs_state state) max_size))"

definition restore_json_identity :: "('a \<Rightarrow> string + json) \<Rightarrow> serde \<Rightarrow> 'a \<Rightarrow> string storage_result" where
  "restore_json_identity anyj S v =
     (case anyj v of
        Inl err \<Rightarrow> Inl (Backend err)
      | Inr j \<Rightarrow>
          (case strict_canonical_json_bytes S j of
             Inl err \<Rightarrow> Inl (Backend (''restore_reactive_*: '' @ show_codec_error err))
           | Inr bytes \<Rightarrow> Inr bytes))"

definition assert_unique_restore_map_keys ::
  "('k \<Rightarrow> string + json) \<Rightarrow> serde \<Rightarrow> ('k \<times> 'v) list \<Rightarrow> unit storage_result" where
  "assert_unique_restore_map_keys anyj S entries =
     unique_identities (restore_json_identity anyj S)
       (\<lambda>index. Backend (''restore_reactive_map: entry '' @ dec_nat index
                         @ '' duplicates an earlier strict-JSON key''))
       0 [] (map fst entries)"

definition assert_unique_restore_index_primaries ::
  "('k \<Rightarrow> string + json) \<Rightarrow> serde \<Rightarrow> ('k, 's, 'v) index_row list \<Rightarrow> unit storage_result" where
  "assert_unique_restore_index_primaries anyj S rows =
     unique_identities (restore_json_identity anyj S)
       (\<lambda>index. Backend (''restore_reactive_index: row '' @ dec_nat index
                         @ '' duplicates an earlier strict-JSON primary''))
       0 [] (map ir_primary rows)"

definition restore_reactive_map ::
  "('k::linorder \<Rightarrow> string + json) \<Rightarrow> serde \<Rightarrow> ('k \<times> 'v) list collection_restore_state
    \<Rightarrow> ('k, 'v) map_backend storage_result" where
  "restore_reactive_map anyj S state =
     (if rs_kind state \<noteq> ReactiveMapKind
      then Inl (Backend ''restore_reactive_map: restore state kind must be reactiveMap'')
      else rbind (assert_unique_restore_map_keys anyj S (rs_state state)) (\<lambda>_.
        Inr (pb_new (rs_state state))))"

definition restore_reactive_index ::
  "('k::linorder \<Rightarrow> string + json) \<Rightarrow> serde \<Rightarrow> ('k, 's, 'v) index_row list collection_restore_state
    \<Rightarrow> ('k, 's, 'v) index_backend storage_result" where
  "restore_reactive_index anyj S state =
     (if rs_kind state \<noteq> ReactiveIndexKind
      then Inl (Backend ''restore_reactive_index: restore state kind must be reactiveIndex'')
      else rbind (assert_unique_restore_index_primaries anyj S (rs_state state)) (\<lambda>_.
        Inr (ib_new (rs_state state))))"

end
