(* ===== verification/CollectionReplay.thy ===== *)
theory CollectionReplay
  imports CollectionStorage
begin

text \<open>
  The changes a collection emits determine its contents: folding them, as the loaders of
  \<open>storage.rs\<close> do, over any representation of the old contents gives a representation of the
  new contents. The law is stated once, as the locale \<open>replayable\<close>, and holds for lists,
  logs, maps and indexes; the theorems about loading rest on it.
\<close>

fun run_ops :: "('s \<Rightarrow> 'o \<Rightarrow> ('s \<times> 'c list) option) \<Rightarrow> 's \<Rightarrow> 'o list \<Rightarrow> ('s \<times> 'c list) option" where
  "run_ops step s [] = Some (s, [])"
| "run_ops step s (op # ops) = do {
     (s, cs) \<leftarrow> step s op;
     (s, cs') \<leftarrow> run_ops step s ops;
     Some (s, cs @ cs') }"

locale replayable =
  fixes ok :: "'s \<Rightarrow> bool"
    and rep :: "'v \<Rightarrow> 's \<Rightarrow> bool"
    and step :: "'s \<Rightarrow> 'o \<Rightarrow> ('s \<times> 'c list) option"
    and apply_change :: "'v \<Rightarrow> 'c \<Rightarrow> 'e + 'v"
  assumes replay_step: "ok s \<Longrightarrow> rep v s \<Longrightarrow> step s op = Some (s', cs) \<Longrightarrow>
    ok s' \<and> (\<exists>v'. fold_results apply_change v cs = Inr v' \<and> rep v' s')"
begin

lemma replay_run:
  "ok s \<Longrightarrow> rep v s \<Longrightarrow> run_ops step s ops = Some (s', cs) \<Longrightarrow>
     ok s' \<and> (\<exists>v'. fold_results apply_change v cs = Inr v' \<and> rep v' s')"
proof (induction ops arbitrary: s v cs)
  case (Cons op ops)
  from Cons.prems(3) obtain s1 cs1 cs2 where
    steps: "step s op = Some (s1, cs1)" "run_ops step s1 ops = Some (s', cs2)" "cs = cs1 @ cs2"
    by (auto simp: bind_eq_Some_conv)
  obtain v1 where v1: "ok s1" "fold_results apply_change v cs1 = Inr v1" "rep v1 s1"
    using replay_step [OF Cons.prems(1,2) steps(1)] by blast
  show ?case
    using Cons.IH [OF v1(1,3) steps(2)] v1(2) steps(3) by (simp add: fold_results_append)
qed simp

end

section \<open>Lists and logs\<close>

datatype 't list_op =
  LAppend 't | LAppendMany "'t list" | LInsert nat 't | LInsertMany nat "'t list"
| LPop "int option" | LClear

fun list_step :: "'t reactive_list \<Rightarrow> 't list_op \<Rightarrow> ('t reactive_list \<times> 't list_change list) option" where
  "list_step l (LAppend v) = rl_append v l"
| "list_step l (LAppendMany vs) = rl_append_many vs l"
| "list_step l (LInsert i v) = rl_insert i v l"
| "list_step l (LInsertMany i vs) = rl_insert_many i vs l"
| "list_step l (LPop i) = map_option (\<lambda>(l, cs, v). (l, cs)) (rl_pop i l)"
| "list_step l LClear = Some (rl_clear l)"

datatype 't rlog_op = GAppend 't | GAppendMany "'t list" | GClear | GTrimHead nat

fun rlog_step :: "'t log_backend \<Rightarrow> 't rlog_op \<Rightarrow> ('t log_backend \<times> 't log_change list) option" where
  "rlog_step b (GAppend v) = rg_append v b"
| "rlog_step b (GAppendMany vs) = rg_append_many vs b"
| "rlog_step b GClear = Some (rg_clear b)"
| "rlog_step b (GTrimHead n) = Some (rg_trim_head n b)"

definition same_value :: "'t \<Rightarrow> 't \<Rightarrow> bool storage_result" where
  "same_value a b = Inr (a = b)"

definition list_of :: "'t reactive_list \<Rightarrow> 't list" where
  "list_of l = lb_buf (rl_backend l)"

definition in_capacity :: "nat option \<Rightarrow> 'a list \<Rightarrow> bool" where
  "in_capacity max_size xs \<longleftrightarrow> (case max_size of None \<Rightarrow> True | Some m \<Rightarrow> 0 < m \<and> length xs \<le> m)"

definition list_ok :: "'t reactive_list \<Rightarrow> bool" where
  "list_ok l \<longleftrightarrow> in_capacity (rl_max_size l) (list_of l)"

definition log_ok :: "'t log_backend \<Rightarrow> bool" where
  "log_ok b \<longleftrightarrow> in_capacity (gb_max_size b) (gb_buf b)"

lemma trim_head_overflow_Some:
  "trim_head_overflow m xs = Some (ys, n) \<longleftrightarrow>
     n = (case m of None \<Rightarrow> 0 | Some k \<Rightarrow> length xs - k) \<and> ys = drop n xs \<and> m \<noteq> Some 0"
  by (auto simp: trim_head_overflow_def Let_def split: option.splits)

lemma within_trim:
  "trim_head_overflow m xs = Some (ys, n) \<Longrightarrow> in_capacity m ys \<and> n \<le> length xs"
  by (auto simp: trim_head_overflow_Some in_capacity_def split: option.splits)

lemma lb_put_buf [simp]: "lb_buf (lb_put buf b) = buf"
  by (simp add: lb_put_def)

lemma gb_put_simps [simp]: "gb_buf (gb_put buf b) = buf" "gb_max_size (gb_put buf b) = gb_max_size b"
  by (simp_all add: gb_put_def)

lemma rl_enforce_Some:
  "rl_enforce_capacity cs b l = Some (l', ds) \<Longrightarrow>
     list_ok l' \<and> rl_max_size l' = rl_max_size l \<and>
     (\<exists>n. list_of l' = drop n (lb_buf b) \<and> n \<le> length (lb_buf b) \<and>
          ds = cs @ (if n > 0 then [ListTrimHead n] else []))"
  by (auto simp: rl_enforce_capacity_def lb_enforce_max_size_def bind_eq_Some_conv list_ok_def list_of_def
      trim_head_overflow_Some in_capacity_def split: if_splits option.splits)

lemma normalize_bound: "normalize_read_index i n = Some j \<Longrightarrow> j < n"
  by (auto simp: normalize_read_index_def Let_def split: if_splits)

lemma apply_trim:
  "n \<le> length xs \<Longrightarrow> fold_results (apply_list_change same) xs (if n > 0 then [ListTrimHead n] else []) = Inr (drop n xs)"
  by (simp add: apply_list_change_def)

lemma list_enforced:
  assumes "rl_enforce_capacity [c] b l = Some (l', cs)" "apply_list_change same_value xs c = Inr (lb_buf b)"
  shows "list_ok l' \<and> fold_results (apply_list_change same_value) xs cs = Inr (list_of l')"
  using rl_enforce_Some [OF assms(1)] assms(2) by (auto simp: apply_trim)

lemma list_step_replay:
  assumes "list_ok l" "list_step l op = Some (l', cs)"
  shows "list_ok l' \<and> fold_results (apply_list_change same_value) (list_of l) cs = Inr (list_of l')"
proof (cases op)
  case (LAppend v)
  with assms show ?thesis
    by (intro list_enforced) (auto simp: rl_append_def apply_list_change_def lb_append_def list_of_def)
next
  case (LAppendMany vs)
  show ?thesis
  proof (cases "vs = []")
    case False
    with assms LAppendMany have "rl_enforce_capacity [ListAppendMany vs] (lb_append_many vs (rl_backend l)) l
        = Some (l', cs)"
      by (simp add: rl_append_many_def)
    then show ?thesis
      by (rule list_enforced) (simp add: False apply_list_change_def lb_append_many_def list_of_def)
  qed (use assms LAppendMany in \<open>auto simp: rl_append_many_def\<close>)
next
  case (LInsert i v)
  with assms obtain b where "lb_insert i v (rl_backend l) = Some b" "rl_enforce_capacity [ListInsert i v] b l = Some (l', cs)"
    by (auto simp: rl_insert_def bind_eq_Some_conv)
  then show ?thesis
    by (intro list_enforced) (auto simp: apply_list_change_def lb_insert_def list_of_def split: if_splits)
next
  case (LInsertMany i vs)
  with assms obtain b where b: "lb_insert_many i vs (rl_backend l) = Some b"
      "(if vs = [] then Some (l\<lparr>rl_backend := b\<rparr>, []) else rl_enforce_capacity [ListInsertMany i vs] b l) = Some (l', cs)"
    by (auto simp: rl_insert_many_def bind_eq_Some_conv)
  show ?thesis
  proof (cases "vs = []")
    case True
    with b assms show ?thesis
      by (auto simp: lb_insert_many_def list_ok_def list_of_def split: if_splits)
  next
    case False
    with b show ?thesis
      by (intro list_enforced) (auto simp: apply_list_change_def lb_insert_many_def list_of_def split: if_splits)
  qed
next
  case (LPop i)
  with assms show ?thesis
    by (auto simp: rl_pop_def lb_pop_def bind_eq_Some_conv apply_list_change_def list_of_def list_ok_def
        in_capacity_def same_value_def remove_at_def Let_def dest!: normalize_bound split: if_splits option.splits)
next
  case LClear
  with assms show ?thesis
    by (auto simp: rl_clear_def lb_clear_def Let_def apply_list_change_def list_of_def list_ok_def
        in_capacity_def split: if_splits option.splits)
qed

interpretation rlist: replayable list_ok "\<lambda>v l. v = list_of l" list_step "apply_list_change same_value"
  by unfold_locales (use list_step_replay in blast)

lemma gb_enforce_Some:
  "gb_enforce_max_size b = Some (b', n) \<Longrightarrow>
     log_ok b' \<and> gb_buf b' = drop n (gb_buf b) \<and> n \<le> length (gb_buf b)"
  by (auto simp: gb_enforce_max_size_def bind_eq_Some_conv log_ok_def trim_head_overflow_Some in_capacity_def
      split: if_splits option.splits)

lemma apply_log_trim:
  "n \<le> length xs \<Longrightarrow> fold_results apply_log_change xs (log_trimmed n) = Inr (drop n xs)"
  by (simp add: apply_log_change_def log_trimmed_def)

lemma rlog_step_replay:
  assumes "log_ok b" "rlog_step b op = Some (b', cs)"
  shows "log_ok b' \<and> fold_results apply_log_change (gb_buf b) cs = Inr (gb_buf b')"
proof (cases op)
  case (GAppend v)
  with assms obtain n where "gb_enforce_max_size (gb_put (gb_buf b @ [v]) b) = Some (b', n)"
      "cs = LogAppended v # log_trimmed n"
    by (auto simp: rg_append_def gb_append_def bind_eq_Some_conv)
  then show ?thesis
    using gb_enforce_Some [of "gb_put (gb_buf b @ [v]) b" b' n] apply_log_trim [of n "gb_buf b @ [v]"]
    by (auto simp: apply_log_change_def)
next
  case (GAppendMany vs)
  show ?thesis
  proof (cases "vs = []")
    case False
    with assms GAppendMany obtain n where "gb_enforce_max_size (gb_put (gb_buf b @ vs) b) = Some (b', n)"
        "cs = LogAppendMany vs # log_trimmed n"
      by (auto simp: rg_append_many_def gb_append_many_def bind_eq_Some_conv)
    then show ?thesis
      using gb_enforce_Some [of "gb_put (gb_buf b @ vs) b" b' n] apply_log_trim [of n "gb_buf b @ vs"]
      by (auto simp: apply_log_change_def)
  qed (use assms GAppendMany in \<open>auto simp: rg_append_many_def\<close>)
next
  case GClear
  with assms show ?thesis
    by (auto simp: rg_clear_def gb_clear_def Let_def apply_log_change_def log_ok_def in_capacity_def
        split: if_splits option.splits)
next
  case (GTrimHead n)
  with assms show ?thesis
    by (auto simp: rg_trim_head_def gb_trim_head_def Let_def apply_log_change_def log_ok_def in_capacity_def
        log_trimmed_def split: if_splits option.splits)
qed

interpretation rlog: replayable log_ok "\<lambda>v b. v = gb_buf b" rlog_step apply_log_change
  by unfold_locales (use rlog_step_replay in blast)

lemma list_step_max_size: "list_step l op = Some (l', cs) \<Longrightarrow> rl_max_size l' = rl_max_size l"
  by (cases op) (auto simp: rl_append_def rl_append_many_def rl_insert_def rl_insert_many_def rl_pop_def rl_clear_def
      rl_enforce_capacity_def Let_def case_prod_beta' bind_eq_Some_conv split: if_splits)

lemma run_list_max_size: "run_ops list_step l ops = Some (l', cs) \<Longrightarrow> rl_max_size l' = rl_max_size l"
  by (induction ops arbitrary: l cs) (auto simp: bind_eq_Some_conv dest: list_step_max_size)

lemma rlog_step_max_size: "rlog_step b op = Some (b', cs) \<Longrightarrow> gb_max_size b' = gb_max_size b"
  by (cases op) (auto simp: rg_append_def rg_append_many_def gb_append_def gb_append_many_def gb_enforce_max_size_def
      rg_clear_def gb_clear_def rg_trim_head_def gb_trim_head_def Let_def case_prod_beta' bind_eq_Some_conv
      split: if_splits)

lemma run_rlog_max_size: "run_ops rlog_step b ops = Some (b', cs) \<Longrightarrow> gb_max_size b' = gb_max_size b"
  by (induction ops arbitrary: b cs) (auto simp: bind_eq_Some_conv dest: rlog_step_max_size)

text \<open>Within the capacity nothing is trimmed.\<close>

lemma within_no_trim: "in_capacity m xs \<Longrightarrow> m \<noteq> Some 0 \<and> trim_head_overflow m xs = Some (xs, 0)"
  by (auto simp: in_capacity_def trim_head_overflow_def split: option.splits)

section \<open>Maps and indexes\<close>

text \<open>
  A restored map is a vector of entries in the order the keys were first set; it represents a
  backend when its keys are distinct and it has the same lookups.
\<close>

definition rep_entries :: "('k \<times> 'v) list \<Rightarrow> ('k, 'v) btree \<Rightarrow> bool" where
  "rep_entries es rows \<longleftrightarrow> distinct (map fst es) \<and> map_of es = map_of rows"

lemma rep_entries_length:
  assumes "rep_entries es rows" "bt_ok rows"
  shows "length es = length rows"
proof -
  have "fst ` set es = fst ` set rows"
    using assms(1) unfolding rep_entries_def by (metis dom_map_of_conv_image_fst)
  moreover have "distinct (map fst es)" "distinct (map fst rows)"
    using assms bt_ok_distinct by (auto simp: rep_entries_def)
  ultimately show ?thesis
    by (metis distinct_card length_map list.set_map)
qed

lemma find_identity_ideal:
  "find_identity Inr k n ks = Inr r \<Longrightarrow>
     (case r of None \<Rightarrow> k \<notin> set ks
      | Some j \<Rightarrow> n \<le> j \<and> j - n < length ks \<and> ks ! (j - n) = k)"
proof (induction ks arbitrary: n)
  case (Cons a ks)
  show ?case
  proof (cases "a = k")
    case False
    with Cons.prems have "find_identity Inr k (Suc n) ks = Inr r" by simp
    from Cons.IH [OF this] False show ?thesis
      by (cases r) (auto simp: nth_Cons' Suc_le_eq)
  qed (use Cons.prems in auto)
qed simp

lemma find_identity_total: "\<exists>r. find_identity Inr k n ks = Inr r"
  by (induction ks arbitrary: n) auto

lemma find_map_key_cases:
  obtains (absent) "find_map_key Inr es k = Inr None" "k \<notin> fst ` set es"
  | (present) i where "find_map_key Inr es k = Inr (Some i)" "i < length es" "fst (es ! i) = k"
proof -
  obtain r where r: "find_map_key Inr es k = Inr r"
    using find_identity_total [of k 0 "map fst es"] by (auto simp: find_map_key_def)
  then have "find_identity Inr k 0 (map fst es) = Inr r" by (simp add: find_map_key_def)
  from find_identity_ideal [OF this] show ?thesis
    by (cases r) (use absent present r in auto)
qed

lemma entries_split:
  assumes "distinct (map fst es)" "i < length es"
  obtains us ws where "es = us @ es ! i # ws" "fst (es ! i) \<notin> fst ` set us" "fst (es ! i) \<notin> fst ` set ws"
    "length us = i"
proof -
  obtain us ws where split: "es = us @ es ! i # ws" "length us = i"
    using id_take_nth_drop [OF assms(2)] assms(2) by (metis length_take min.absorb4)
  have "distinct (map fst (us @ es ! i # ws))" using assms(1) split(1) by metis
  then have "fst (es ! i) \<notin> fst ` set us" "fst (es ! i) \<notin> fst ` set ws" by auto
  then show ?thesis using split by (intro that [of us ws])
qed

lemma rep_update:
  assumes "rep_entries es rows" "i < length es" "fst (es ! i) = k"
  shows "rep_entries (es[i := (k, v)]) (bt_insert k v rows)"
proof -
  obtain us ws where split: "es = us @ es ! i # ws" "fst (es ! i) \<notin> fst ` set us"
      "fst (es ! i) \<notin> fst ` set ws" "length us = i"
    using entries_split [of es i] assms by (auto simp: rep_entries_def)
  then have "es[i := (k, v)] = us @ (k, v) # ws"
    by (metis list_update_length)
  moreover have "map_of (us @ (k, v) # ws) = (map_of (us @ es ! i # ws))(k \<mapsto> v)"
  proof -
    have "map_of us k = None" using split(2) assms(3) by (simp add: map_of_eq_None_iff)
    then show ?thesis
      using assms(3) by (cases "es ! i") (auto simp: map_add_def fun_eq_iff split: option.splits)
  qed
  moreover have "distinct (map fst (us @ (k, v) # ws))"
    using assms(1,3) split(1) unfolding rep_entries_def by (metis (no_types, lifting) fst_conv list.simps(9) map_append)
  ultimately show ?thesis
    using assms(1) split(1) by (simp add: rep_entries_def btree)
qed

lemma rep_snoc:
  assumes "rep_entries es rows" "k \<notin> fst ` set es"
  shows "rep_entries (es @ [(k, v)]) (bt_insert k v rows)"
proof -
  have "map_of es k = None" using assms(2) by (simp add: map_of_eq_None_iff)
  then have "map_of (es @ [(k, v)]) = (map_of es)(k \<mapsto> v)"
    by (auto simp: map_add_def fun_eq_iff split: option.split)
  then show ?thesis using assms by (auto simp: rep_entries_def btree)
qed

lemma rep_remove:
  assumes "rep_entries es rows" "i < length es" "fst (es ! i) = k" "bt_ok rows"
  shows "rep_entries (remove_at i es) (bt_remove k rows)"
proof -
  obtain us ws where split: "es = us @ es ! i # ws" "fst (es ! i) \<notin> fst ` set us"
      "fst (es ! i) \<notin> fst ` set ws" "length us = i"
    using entries_split [of es i] assms by (auto simp: rep_entries_def)
  then have rem: "remove_at i es = us @ ws"
    unfolding remove_at_def by (metis append_eq_conv_conj append_Cons append_Nil append_assoc
        length_append_singleton Suc_eq_plus1)
  have "map_of ws k = None" using split(3) assms(3) by (simp add: map_of_eq_None_iff)
  moreover have "map_of us k = None" using split(2) assms(3) by (simp add: map_of_eq_None_iff)
  ultimately have "map_of (us @ ws) = (map_of (us @ es ! i # ws))(k := None)"
    using assms(3) by (cases "es ! i") (auto simp: map_add_def fun_eq_iff split: option.splits)
  moreover have "distinct (map fst (us @ ws))"
  proof -
    have "distinct (map fst (us @ es ! i # ws))" using assms(1) split(1) by (simp add: rep_entries_def)
    then show ?thesis by auto
  qed
  ultimately show ?thesis
    using assms(1,4) split(1) by (simp add: rep_entries_def rem btree)
qed

datatype ('k, 'v) map_op =
  PSet 'k 'v | PSetMany "('k \<times> 'v) list" | PDelete 'k | PDeleteMany "'k list" | PClear

fun map_step :: "('k::linorder, 'v) map_backend \<Rightarrow> ('k, 'v) map_op
    \<Rightarrow> (('k, 'v) map_backend \<times> ('k, 'v) map_change list) option" where
  "map_step b (PSet k v) = Some (rm_set k v b)"
| "map_step b (PSetMany kvs) = Some (rm_set_many kvs b)"
| "map_step b (PDelete k) = Some (rm_delete k b)"
| "map_step b (PDeleteMany ks) = Some (rm_delete_many ks b)"
| "map_step b PClear = Some (rm_clear b)"

definition map_ok :: "('k::linorder, 'v) map_backend \<Rightarrow> bool" where
  "map_ok b \<longleftrightarrow> bt_ok (pb_rows b)"

definition rep_map :: "('k \<times> 'v) list \<Rightarrow> ('k, 'v) map_backend \<Rightarrow> bool" where
  "rep_map es b \<longleftrightarrow> rep_entries es (pb_rows b)"

text \<open>What one emitted group of changes promises.\<close>

definition map_replays :: "('k \<times> 'v) list \<Rightarrow> ('k::linorder, 'v) map_backend \<times> ('k, 'v) map_change list \<Rightarrow> bool" where
  "map_replays es r \<longleftrightarrow> map_ok (fst r) \<and>
     (\<exists>es'. fold_results (apply_map_change Inr same_value) es (snd r) = Inr es' \<and> rep_map es' (fst r))"

lemma pb_put_rows [simp]: "pb_rows (pb_put rows b) = rows"
  by (simp add: pb_put_def)

lemma map_set_replays: "map_ok b \<Longrightarrow> rep_map es b \<Longrightarrow> map_replays es (rm_set k v b)"
  by (rule find_map_key_cases [of es k])
    (auto simp: map_replays_def rm_set_def pb_set_def apply_map_change_def map_ok_def rep_map_def
      bt_ok_insert rep_snoc rep_update)

lemma map_delete_replays:
  assumes "map_ok b" "rep_map es b"
  shows "map_replays es (rm_delete k b)"
proof (cases "bt_get (pb_rows b) k")
  case None
  with assms show ?thesis
    by (auto simp: map_replays_def rm_delete_def pb_delete_def)
next
  case (Some w)
  then have get: "map_of es k = Some w" using assms(2) by (simp add: rep_map_def rep_entries_def)
  then have "k \<in> fst ` set es" by (metis map_of_eq_None_iff option.distinct(1))
  then obtain i where i: "find_map_key Inr es k = Inr (Some i)" "i < length es" "fst (es ! i) = k"
    using find_map_key_cases [of es k] by metis
  have "snd (es ! i) = w"
    using get i(2,3) assms(2) unfolding rep_map_def rep_entries_def
    by (metis map_of_eq_Some_iff nth_mem option.inject prod.collapse)
  with Some i assms show ?thesis
    by (auto simp: map_replays_def rm_delete_def pb_delete_def apply_map_change_def same_value_def
        map_ok_def rep_map_def bt_ok_remove rep_remove)
qed

lemma map_clear_replays: "map_ok b \<Longrightarrow> rep_map es b \<Longrightarrow> map_replays es (rm_clear b)"
  using rep_entries_length [of es "pb_rows b"]
  by (auto simp: map_replays_def rm_clear_def pb_clear_def Let_def apply_map_change_def map_ok_def
      rep_map_def rep_entries_def)

lemma map_replays_seq:
  assumes "map_replays es (b1, cs1)"
    and "\<And>es1. map_ok b1 \<Longrightarrow> rep_map es1 b1 \<Longrightarrow> map_replays es1 (b2, cs2)"
  shows "map_replays es (b2, cs1 @ cs2)"
  using assms by (fastforce simp: map_replays_def fold_results_append)

lemma map_set_many_replays: "map_ok b \<Longrightarrow> rep_map es b \<Longrightarrow> map_replays es (rm_set_many kvs b)"
proof (induction kvs b arbitrary: es rule: rm_set_many.induct)
  case (2 k v kvs b)
  obtain b1 cs1 where b1: "rm_set k v b = (b1, cs1)" by force
  obtain b2 cs2 where b2: "rm_set_many kvs b1 = (b2, cs2)" by force
  have "map_replays es (b1, cs1)" using map_set_replays 2(2,3) b1 by metis
  then have "map_replays es (b2, cs1 @ cs2)"
    by (rule map_replays_seq) (use 2(1) [OF b1 [symmetric] refl] b2 in force)
  then show ?case by (simp add: b1 b2)
qed (auto simp: map_replays_def)

lemma map_delete_many_replays: "map_ok b \<Longrightarrow> rep_map es b \<Longrightarrow> map_replays es (rm_delete_many ks b)"
proof (induction ks b arbitrary: es rule: rm_delete_many.induct)
  case (2 k ks b)
  obtain b1 cs1 where b1: "rm_delete k b = (b1, cs1)" by force
  obtain b2 cs2 where b2: "rm_delete_many ks b1 = (b2, cs2)" by force
  have "map_replays es (b1, cs1)" using map_delete_replays 2(2,3) b1 by metis
  then have "map_replays es (b2, cs1 @ cs2)"
    by (rule map_replays_seq) (use 2(1) [OF b1 [symmetric] refl] b2 in force)
  then show ?case by (simp add: b1 b2)
qed (auto simp: map_replays_def)

lemma map_step_replays:
  assumes "map_ok b" "rep_map es b" "map_step b op = Some (b', cs)"
  shows "map_replays es (b', cs)"
  using assms(3) map_set_replays [OF assms(1,2)] map_set_many_replays [OF assms(1,2)]
    map_delete_replays [OF assms(1,2)] map_delete_many_replays [OF assms(1,2)]
    map_clear_replays [OF assms(1,2)]
  by (cases op) (metis map_step.simps option.inject)+

interpretation rmap: replayable map_ok rep_map map_step "apply_map_change Inr same_value"
  by unfold_locales (use map_step_replays in \<open>force simp: map_replays_def\<close>)

text \<open>An index represents its rows by primary key, so it is a map of pairs.\<close>

definition row_pair :: "('k, 's, 'v) index_row \<Rightarrow> 'k \<times> 's \<times> 'v" where
  "row_pair r = (ir_primary r, ir_secondary r, ir_value r)"

definition rep_index :: "('k, 's, 'v) index_row list \<Rightarrow> ('k, 's, 'v) index_backend \<Rightarrow> bool" where
  "rep_index rows b \<longleftrightarrow> rep_entries (map row_pair rows) (ib_rows b)"

definition index_ok :: "('k::linorder, 's, 'v) index_backend \<Rightarrow> bool" where
  "index_ok b \<longleftrightarrow> bt_ok (ib_rows b)"

datatype ('k, 's, 'v) index_op =
  IUpsert 'k 's 'v | IDelete 'k | IDeleteMany "'k list" | IClear

fun index_step :: "('k::linorder, 's, 'v) index_backend \<Rightarrow> ('k, 's, 'v) index_op
    \<Rightarrow> (('k, 's, 'v) index_backend \<times> ('k, 's, 'v) index_change list) option" where
  "index_step b (IUpsert k s v) = Some (ri_upsert k s v b)"
| "index_step b (IDelete k) = Some (ri_delete k b)"
| "index_step b (IDeleteMany ks) = Some (ri_delete_many ks b)"
| "index_step b IClear = Some (ri_clear b)"

lemma row_pair_fst [simp]: "fst (row_pair r) = ir_primary r"
  by (simp add: row_pair_def)

lemma ib_put_rows [simp]: "ib_rows (ib_put rows b) = rows"
  by (simp add: ib_put_def)

lemma find_index_primary_pairs:
  "find_index_primary Inr rows k = find_map_key Inr (map row_pair rows) k"
  by (simp add: find_index_primary_def find_map_key_def comp_def)

lemma map_remove_at: "map f (remove_at i xs) = remove_at i (map f xs)"
  by (simp add: remove_at_def take_map drop_map)

lemma map_foldr_remove_at: "map f (foldr remove_at is xs) = foldr remove_at is (map f xs)"
  by (induction "is") (simp_all add: map_remove_at)

lemma take_foldr_remove_at:
  "\<forall>i \<in> set is. n \<le> i \<Longrightarrow> take n (foldr remove_at is xs) = take n xs"
  by (induction "is") (auto simp: remove_at_def min_def)

lemma remove_present_spec:
  "bt_ok rows \<Longrightarrow> remove_present ks rows = (rows', removed) \<Longrightarrow>
     bt_ok rows' \<and> distinct removed \<and> set removed \<subseteq> fst ` set rows \<and>
     map_of rows' = map_of rows |` (- set removed)"
proof (induction ks arbitrary: rows rows' removed)
  case (Cons k ks)
  show ?case
  proof (cases "bt_get rows k")
    case (Some w)
    obtain removed' where rest: "remove_present ks (bt_remove k rows) = (rows', removed')"
        "removed = k # removed'"
      using Cons.prems(2) Some by (auto split: prod.splits)
    have ok: "bt_ok (bt_remove k rows)" using Cons.prems(1) by (rule bt_ok_remove)
    note ih = Cons.IH [OF ok rest(1)]
    have "map_of (bt_remove k rows) = (map_of rows)(k := None)"
      using Cons.prems(1) by (simp add: btree)
    moreover from this have dom: "fst ` set (bt_remove k rows) = fst ` set rows - {k}"
      by (metis dom_fun_upd dom_map_of_conv_image_fst)
    moreover have "k \<in> fst ` set rows"
      using Some by (metis domI dom_map_of_conv_image_fst)
    ultimately show ?thesis
      using ih rest(2) by (auto simp: restrict_map_def fun_eq_iff)
  next
    case None
    with Cons show ?thesis by auto
  qed
qed auto

lemma rep_remove_many:
  assumes "rep_entries es rows" "bt_ok rows"
  shows "sorted_wrt (<) is \<Longrightarrow> \<forall>i \<in> set is. i < length es \<Longrightarrow>
    \<exists>rows'. bt_ok rows' \<and> rep_entries (foldr remove_at is es) rows'
      \<and> map_of rows' = map_of rows |` (- (\<lambda>i. fst (es ! i)) ` set is)"
proof (induction "is")
  case Nil
  with assms show ?case by (intro exI [of _ rows]) simp
next
  case (Cons i "is")
  let ?ys = "foldr remove_at is es"
  obtain rows' where rows': "bt_ok rows'" "rep_entries ?ys rows'"
      "map_of rows' = map_of rows |` (- (\<lambda>i. fst (es ! i)) ` set is)"
    using Cons by auto
  have "take (Suc i) ?ys = take (Suc i) es"
    using Cons.prems(1) by (intro take_foldr_remove_at) (auto simp: Suc_le_eq)
  moreover have "i < length es" using Cons.prems(2) by simp
  ultimately have i: "i < length ?ys" "?ys ! i = es ! i"
    by (metis Suc_le_eq length_take min.absorb2 min.cobounded1, metis lessI nth_take)
  have "rep_entries (remove_at i ?ys) (bt_remove (fst (es ! i)) rows')"
    using rep_remove [OF rows'(2) i(1) refl rows'(1)] i(2) by simp
  then show ?case
    using rows'(1,3) by (intro exI [of _ "bt_remove (fst (es ! i)) rows'"])
      (auto simp: btree restrict_map_def fun_eq_iff)
qed

lemma removal_indexes_ideal:
  "distinct ks \<Longrightarrow> set ks \<inter> set seen = {} \<Longrightarrow> set ks \<subseteq> ir_primary ` set rows \<Longrightarrow>
     \<exists>is. removal_indexes Inr rows label n seen ks = Inr is \<and> map (\<lambda>i. ir_primary (rows ! i)) is = ks
       \<and> (\<forall>i \<in> set is. i < length rows)"
proof (induction ks arbitrary: n seen)
  case (Cons k ks)
  obtain "is" where "is": "removal_indexes Inr rows label (n + 1) (seen @ [k]) ks = Inr is"
      "map (\<lambda>i. ir_primary (rows ! i)) is = ks" "\<forall>i \<in> set is. i < length rows"
    using Cons.IH [of "seen @ [k]" "n + 1"] Cons.prems by auto
  have "k \<in> fst ` set (map row_pair rows)" using Cons.prems(3) by (auto simp: image_image)
  then obtain i where "find_index_primary Inr rows k = Inr (Some i)" "i < length rows"
      "ir_primary (rows ! i) = k"
    using find_map_key_cases [of "map row_pair rows" k]
    by (metis find_index_primary_pairs length_map nth_map row_pair_fst)
  with "is" Cons.prems(2) show ?case by (intro exI [of _ "i # is"]) auto
qed simp

lemma sort_distinct_strict: "distinct (xs :: nat list) \<Longrightarrow> sorted_wrt (<) (sort xs)"
  by (simp add: strict_sorted_iff)

definition index_replays :: "('k, 's, 'v) index_row list
    \<Rightarrow> ('k::linorder, 's, 'v) index_backend \<times> ('k, 's, 'v) index_change list \<Rightarrow> bool" where
  "index_replays rows r \<longleftrightarrow> index_ok (fst r) \<and>
     (\<exists>rows'. fold_results (apply_index_change Inr) rows (snd r) = Inr rows' \<and> rep_index rows' (fst r))"

lemmas index_defs = index_replays_def apply_index_change_def index_ok_def rep_index_def

lemma index_upsert_replays:
  assumes "index_ok b" "rep_index rows b"
  shows "index_replays rows (ri_upsert k s v b)"
proof (rule find_map_key_cases [of "map row_pair rows" k])
  assume "find_map_key Inr (map row_pair rows) k = Inr None" "k \<notin> fst ` set (map row_pair rows)"
  with assms rep_snoc [of "map row_pair rows" "ib_rows b" k "(s, v)"] show ?thesis
    by (auto simp: index_defs ri_upsert_def ib_upsert_def find_index_primary_pairs bt_ok_insert
        row_pair_def)
next
  fix i
  assume "find_map_key Inr (map row_pair rows) k = Inr (Some i)" "i < length (map row_pair rows)"
    "fst (map row_pair rows ! i) = k"
  with assms rep_update [of "map row_pair rows" "ib_rows b" i k "(s, v)"] show ?thesis
    by (auto simp: index_defs ri_upsert_def ib_upsert_def find_index_primary_pairs bt_ok_insert
        row_pair_def map_update)
qed

lemma index_delete_replays:
  assumes "index_ok b" "rep_index rows b"
  shows "index_replays rows (ri_delete k b)"
proof (cases "bt_get (ib_rows b) k")
  case None
  with assms show ?thesis by (auto simp: index_defs ri_delete_def ib_delete_def)
next
  case (Some w)
  then have "k \<in> fst ` set (map row_pair rows)"
    using assms(2) unfolding rep_index_def rep_entries_def
    by (metis domI dom_map_of_conv_image_fst)
  then obtain i where "find_map_key Inr (map row_pair rows) k = Inr (Some i)"
      "i < length (map row_pair rows)" "fst (map row_pair rows ! i) = k"
    using find_map_key_cases [of "map row_pair rows" k] by metis
  with Some assms rep_remove [of "map row_pair rows" "ib_rows b" i k] show ?thesis
    by (auto simp: index_defs ri_delete_def ib_delete_def find_index_primary_pairs bt_ok_remove
        map_remove_at)
qed

lemma index_delete_many_replays:
  assumes "index_ok b" "rep_index rows b"
  shows "index_replays rows (ri_delete_many ks b)"
proof -
  let ?es = "map row_pair rows"
  obtain t removed where rp: "remove_present ks (ib_rows b) = (t, removed)" by force
  have spec: "bt_ok t" "distinct removed" "set removed \<subseteq> fst ` set (ib_rows b)"
      "map_of t = map_of (ib_rows b) |` (- set removed)"
    using remove_present_spec [OF _ rp] assms(1) by (auto simp: index_ok_def)
  have "set removed \<subseteq> ir_primary ` set rows"
    using spec(3) assms(2) unfolding rep_index_def rep_entries_def
    by (metis (no_types, lifting) dom_map_of_conv_image_fst image_cong image_image list.set_map row_pair_fst)
  from removal_indexes_ideal [OF spec(2) _ this, of "[]"] obtain "is" where "is":
      "removal_indexes Inr rows ''reactiveIndex fold: deleteMany primary'' 0 [] removed = Inr is"
      "map (\<lambda>i. ir_primary (rows ! i)) is = removed" "\<forall>i \<in> set is. i < length rows"
    by auto
  have "distinct is" using spec(2) "is"(2) by (metis distinct_map)
  then obtain rows' where "rep_entries (foldr remove_at (sort is) ?es) rows'"
      "map_of rows' = map_of (ib_rows b) |` (- (\<lambda>i. fst (?es ! i)) ` set is)"
    using rep_remove_many [of ?es "ib_rows b" "sort is"] assms "is"(3)
    by (auto simp: index_ok_def rep_index_def sort_distinct_strict)
  moreover have "(\<lambda>i. fst (?es ! i)) ` set is = set removed"
    using "is"(2,3) by (auto simp flip: "is"(2))
  ultimately have "rep_entries (map row_pair (foldr remove_at (sort is) rows)) t"
    using spec(4) by (simp add: rep_entries_def map_foldr_remove_at)
  then show ?thesis
    using spec(1) "is"(1) rp assms
    by (auto simp: index_defs ri_delete_many_def ib_delete_many_def remove_index_primaries_def
        foldr_conv_fold)
qed

lemma index_clear_replays: "index_ok b \<Longrightarrow> rep_index rows b \<Longrightarrow> index_replays rows (ri_clear b)"
  using rep_entries_length [of "map row_pair rows" "ib_rows b"]
  by (auto simp: index_defs ri_clear_def ib_clear_def Let_def rep_entries_def)

interpretation rindex: replayable index_ok rep_index index_step "apply_index_change Inr"
proof
  fix b rows op b' cs
  assume "index_ok b" "rep_index rows b" "index_step b op = Some (b', cs)"
  then have "index_replays rows (b', cs)"
    by (cases op) (metis index_upsert_replays index_delete_replays index_delete_many_replays
        index_clear_replays index_step.simps option.inject)+
  then show "index_ok b' \<and> (\<exists>rows'. fold_results (apply_index_change Inr) rows cs = Inr rows' \<and> rep_index rows' b')"
    by (simp add: index_replays_def)
qed

section \<open>From the emitted changes to the loaded state\<close>

text \<open>
  The loader compares a popped value with the stored one by their strict canonical bytes. Where the
  replay succeeds with equality of values, it succeeds with equality of bytes too, provided that
  the popped values have canonical bytes.
\<close>

lemma strict_json_equal_refl:
  "strict_json_identity S tv v = Inr b \<Longrightarrow> strict_json_equal S tv v v = Inr True"
  by (auto simp: strict_json_identity_def strict_json_equal_def rbind_eq_Inr)

lemma apply_list_change_bytes:
  assumes "apply_list_change same_value xs c = Inr ys"
    and "\<And>i v. c = ListPop i v \<Longrightarrow> \<exists>b. strict_json_identity S tv v = Inr b"
  shows "apply_list_change (strict_json_equal S tv) xs c = Inr ys"
proof (cases c)
  case (ListPop i v)
  then obtain b where "strict_json_identity S tv v = Inr b" using assms(2) by blast
  then have "strict_json_equal S tv v v = Inr True" by (rule strict_json_equal_refl)
  moreover have "xs ! i = v"
    using assms(1) ListPop by (auto simp: apply_list_change_def same_value_def split: if_splits)
  ultimately show ?thesis using assms(1) ListPop by (auto simp: apply_list_change_def same_value_def split: if_splits)
qed (use assms(1) in \<open>auto simp: apply_list_change_def\<close>)

lemma replay_bytes:
  assumes "fold_results (apply_list_change same_value) xs cs = Inr ys"
    and "\<And>i v. ListPop i v \<in> set cs \<Longrightarrow> \<exists>b. strict_json_identity S tv v = Inr b"
  shows "fold_results (apply_list_change (strict_json_equal S tv)) xs cs = Inr ys"
  using assms
proof (induction cs arbitrary: xs)
  case (Cons c cs)
  then obtain zs where zs: "apply_list_change same_value xs c = Inr zs"
      "fold_results (apply_list_change same_value) zs cs = Inr ys"
    by (auto simp: rbind_eq_Inr)
  have "apply_list_change (strict_json_equal S tv) xs c = Inr zs"
    by (rule apply_list_change_bytes [OF zs(1)]) (use Cons.prems(2) in auto)
  moreover have "fold_results (apply_list_change (strict_json_equal S tv)) zs cs = Inr ys"
    by (rule Cons.IH [OF zs(2)]) (use Cons.prems(2) in auto)
  ultimately show ?case by simp
qed simp

end
