(* ===== verification/JsonCodec.thy ===== *)
theory JsonCodec
  imports Json
begin

text \<open>
  The strict codec: its scanner ends on every text and tells whether the objects of a text have
  distinct keys, canonical text is read back, and the decimal-integer strings are the decimal
  forms of integers.
\<close>

subsection \<open>The scanner decides every text\<close>

lemma skip_while_ge: "i \<le> skip_while p text i"
proof (induction p "text" i rule: skip_while.induct)
  case (1 p t i)
  then show ?case by (cases "i < length t \<and> p (t ! i)") (auto simp: skip_while.simps [of p t i])
qed

lemma skip_whitespace_ge [simp]: "i \<le> skip_whitespace text i"
  by (simp add: skip_whitespace_def skip_while_ge)

lemma skip_whitespace_less: "a < i \<Longrightarrow> a < skip_whitespace text i"
  by (rule less_le_trans [OF _ skip_whitespace_ge])

lemma skip_digits_ge [simp]: "i \<le> skip_digits text i"
  by (simp add: skip_digits_def skip_while_ge)

lemma string_end_gt: "string_end text i = Some j \<Longrightarrow> i < j"
proof (induction "text" i rule: string_end.induct)
  case (1 t i)
  then show ?case
    by (fastforce simp: string_end.simps [of t i] split: if_splits)
qed

lemma read_json_string_gt: "read_json_string S text i = Inr (s, j) \<Longrightarrow> i < j"
  by (auto simp: read_json_string_def fail_def split: option.splits sum.splits dest!: string_end_gt)

lemma consume_literal_gt: "literal \<noteq> [] \<Longrightarrow> consume_literal text i literal = Inr j \<Longrightarrow> i < j"
  by (auto simp: consume_literal_def fail_def split: if_splits)

lemma digits1_ge: "digits1 text start i = Inr j \<Longrightarrow> i \<le> j"
  by (auto simp: digits1_def fail_def split: if_splits)

lemma consume_integer_gt: "consume_integer text start i = Inr j \<Longrightarrow> i < j"
  by (auto simp: consume_integer_def fail_def Suc_le_eq [symmetric] split: option.splits if_splits)

lemma consume_fraction_ge: "consume_fraction text start i = Inr j \<Longrightarrow> i \<le> j"
  by (auto simp: consume_fraction_def split: if_splits dest: digits1_ge)

lemma consume_exponent_ge: "consume_exponent text start i = Inr j \<Longrightarrow> i \<le> j"
  by (auto simp: consume_exponent_def split: if_splits dest: digits1_ge)

lemma consume_number_gt: "consume_number text i = Inr j \<Longrightarrow> i < j"
  by (auto simp: consume_number_def rbind_eq_Inr
      dest!: consume_integer_gt consume_fraction_ge consume_exponent_ge split: if_splits)

lemmas scan_gt = read_json_string_gt consume_literal_gt consume_number_gt

text \<open>A scan from \<open>i\<close> that ends, and ends further on if it succeeds.\<close>

definition decides :: "nat \<Rightarrow> scan_result \<Rightarrow> bool" where
  "decides i r \<longleftrightarrow> (\<exists>x. r = Some x \<and> (\<forall>j. x = Inr j \<longrightarrow> i < j))"

lemma decides_simps [simp]:
  "decides i (Some (Inl e))" "decides i (Some (fail m))"
  "decides i (Some (Inr j)) \<longleftrightarrow> i < j" "\<not> decides i None"
  by (simp_all add: decides_def fail_def)

lemma decides_mono: "decides i r \<Longrightarrow> i' \<le> i \<Longrightarrow> decides i' r"
  by (fastforce simp: decides_def)

lemma decides_after:
  assumes "decides i r" and "\<And>k. i < k \<Longrightarrow> decides i (f k)"
  shows "decides i (after_value r f)"
  using assms by (auto simp: decides_def after_value_def split: sum.splits)

lemma parse_members_decides:
  assumes pv: "\<And>path j. index < j \<Longrightarrow> decides j (pv path j)"
    and fuel: "length text - index < n"
  shows "decides index (parse_members pv S text path n keys index)"
  using assms
proof (induction n arbitrary: keys index)
  case (Suc n)
  define i where "i = skip_whitespace text index"
  have i: "index \<le> i" by (simp add: i_def)
  have body: "decides index (after_value (pv p (Suc j)) (\<lambda>k.
      let k = skip_whitespace text k in
      if peek text k = Some (CHR '','') then parse_members pv S text path n (keys @ [key]) (Suc k)
      else if peek text k = Some (CHR ''}'') then Some (Inr (Suc k))
      else Some (fail (near_byte (''expected '' @ quoted '','' @ '' or '' @ quoted ''}'') k))))"
    if "index < length text" "index < j" for j key p
  proof (rule decides_after)
    show "decides index (pv p (Suc j))"
      using that by (intro decides_mono [OF Suc.prems(1)]) auto
    fix k assume k: "index < k"
    define k' where "k' = skip_whitespace text k"
    have k': "index < k'" using k by (simp add: k'_def skip_whitespace_less)
    then have "decides (Suc k') (parse_members pv S text path n (keys @ [key]) (Suc k'))"
      using Suc.prems that by (intro Suc.IH) auto
    then show "decides index (let k = skip_whitespace text k in
        if peek text k = Some (CHR '','') then parse_members pv S text path n (keys @ [key]) (Suc k)
        else if peek text k = Some (CHR ''}'') then Some (Inr (Suc k))
        else Some (fail (near_byte (''expected '' @ quoted '','' @ '' or '' @ quoted ''}'') k)))"
      using k' by (auto simp: k'_def [symmetric] Let_def intro: decides_mono)
  qed
  have gt: "index < skip_whitespace text j" if "read_json_string S text i = Inr (key, j)" for key j
    using read_json_string_gt [OF that] i skip_whitespace_ge [of j "text"] by linarith
  show ?case
    using body [OF _ gt]
    by (auto simp: Let_def i_def [symmetric] split: sum.splits prod.splits)
qed simp

lemma parse_items_decides:
  assumes pv: "\<And>path j. index \<le> j \<Longrightarrow> decides j (pv path j)"
    and fuel: "length text - index < n"
  shows "decides index (parse_items pv text path n item index)"
  using assms
proof (induction n arbitrary: item index)
  case (Suc n)
  have step: "decides index (let k = skip_whitespace text k in
        if peek text k = Some (CHR '','') then parse_items pv text path n (Suc item) (Suc k)
        else if peek text k = Some (CHR '']'') then Some (Inr (Suc k))
        else Some (fail (near_byte (''expected '' @ quoted '','' @ '' or '' @ quoted '']'') k)))"
    if "index < length text" "index < k" for k
  proof -
    define k' where "k' = skip_whitespace text k"
    have k': "index < k'" using that by (simp add: k'_def skip_whitespace_less)
    then have "decides (Suc k') (parse_items pv text path n (Suc item) (Suc k'))"
      using Suc.prems that by (intro Suc.IH) auto
    then show ?thesis
      using k' by (auto simp: k'_def [symmetric] Let_def intro: decides_mono)
  qed
  show ?case
    using step Suc.prems(1) [of index] by (auto intro!: decides_after)
qed simp

lemma parse_value_decides:
  "length text - index < n \<Longrightarrow> decides index (parse_value S text n path index)"
proof (induction n arbitrary: path index)
  case (Suc n)
  define i where "i = skip_whitespace text index"
  have i: "index \<le> i" by (simp add: i_def)
  have sub: "decides j (parse_value S text n p j)" if "i < length text" "i < j" for p j
    using Suc that i by auto
  have obj: "decides i (parse_object (parse_value S text n) S text path n i)" if "i < length text"
  proof -
    define k where "k = skip_whitespace text (Suc i)"
    have k: "i < k" by (simp add: k_def skip_whitespace_less)
    have "decides k (parse_members (parse_value S text n) S text path n [] k)"
      using that k i Suc.prems by (intro parse_members_decides sub) auto
    with k show ?thesis
      by (auto simp: parse_object_def k_def [symmetric] intro: decides_mono)
  qed
  have arr: "decides i (parse_array (parse_value S text n) text path n i)" if "i < length text"
  proof -
    define k where "k = skip_whitespace text (Suc i)"
    have k: "i < k" by (simp add: k_def skip_whitespace_less)
    have "decides k (parse_items (parse_value S text n) text path n 0 k)"
      using that k i Suc.prems by (intro parse_items_decides sub) auto
    with k show ?thesis
      by (auto simp: parse_array_def k_def [symmetric] intro: decides_mono)
  qed
  have leaf: "decides i (Some (rbind (read_json_string S text i) (\<lambda>(_, j). Inr j)))"
    "decides i (Some (consume_literal text i ''true''))"
    "decides i (Some (consume_literal text i ''false''))"
    "decides i (Some (consume_literal text i ''null''))"
    "decides i (Some (consume_number text i))"
    by (auto simp: decides_def rbind_eq_Inr dest: scan_gt intro: consume_literal_gt [rotated])
  have "decides i (parse_value S text (Suc n) path index)"
    using obj arr leaf
    by (auto simp: i_def [symmetric] Let_def vec_get_Some_iff split: option.splits)
  then show ?case using i by (rule decides_mono)
qed simp

lemma scanner_decides: "\<exists>r. assert_no_duplicate_json_object_keys S text = Some r"
proof -
  have "decides 0 (parse_value S text (scan_fuel text) ''$'' 0)"
    by (rule parse_value_decides) (simp add: scan_fuel_def)
  then show ?thesis
    by (auto simp: decides_def assert_no_duplicate_json_object_keys_def split: sum.splits)
qed

subsection \<open>The scanner accepts canonical text\<close>

text \<open>What the remaining text looks like at an index.\<close>

lemma at_Cons:
  assumes "drop i text = c # r"
  shows "peek text i = Some c" "i < length text" "text ! i = c" "drop (Suc i) text = r"
proof -
  show "i < length text" using assms by (cases "i < length text") auto
  then show "text ! i = c" "drop (Suc i) text = r"
    using assms by (simp_all add: Cons_nth_drop_Suc [symmetric])
  with \<open>i < length text\<close> show "peek text i = Some c" by (simp add: vec_get_Some_iff)
qed

lemma at_Nil: "drop i text = [] \<Longrightarrow> peek text i = None"
  by simp

lemma at_append: "drop i text = t @ r \<Longrightarrow> drop (i + length t) text = r"
  by (metis add.commute append_eq_conv_conj drop_drop)

definition stops :: "(char \<Rightarrow> bool) \<Rightarrow> string \<Rightarrow> bool" where
  "stops p r \<longleftrightarrow> (case r of [] \<Rightarrow> True | c # _ \<Rightarrow> \<not> p c)"

lemma skip_while_span:
  "drop i text = ds @ r \<Longrightarrow> list_all p ds \<Longrightarrow> stops p r \<Longrightarrow> skip_while p text i = i + length ds"
proof (induction ds arbitrary: i)
  case Nil
  then show ?case
    by (cases r) (auto simp: stops_def skip_while.simps [of p "text" i] dest: at_Cons)
next
  case (Cons d ds)
  then show ?case
    using at_Cons [of i "text" d "ds @ r"] by (simp add: skip_while.simps [of p "text" i])
qed

lemma skip_whitespace_stop: "drop i text = r \<Longrightarrow> stops is_space r \<Longrightarrow> skip_whitespace text i = i"
  using skip_while_span [of i "text" "[]" r is_space] by (simp add: skip_whitespace_def)

text \<open>The body of a JSON string: a quote is always escaped, and the last byte escapes nothing.\<close>

fun string_body :: "string \<Rightarrow> bool" where
  "string_body [] = True"
| "string_body (c # cs) =
     (if c = CHR 0x22 then False
      else if c = CHR 0x5C then (case cs of [] \<Rightarrow> False | _ # ds \<Rightarrow> string_body ds)
      else string_body cs)"

lemma string_end_body:
  "string_body b \<Longrightarrow> drop i text = b @ CHR 0x22 # r \<Longrightarrow> string_end text i = Some (i + length b + 1)"
proof (induction b arbitrary: i rule: string_body.induct)
  case 1
  then show ?case using at_Cons [of i "text"] by (simp add: string_end.simps [of "text" i])
next
  case (2 c cs)
  note at = at_Cons [of i "text" c "cs @ CHR 0x22 # r"]
  show ?case
  proof (cases "c = CHR 0x5C")
    case True
    with 2 obtain d ds where cs: "cs = d # ds" "string_body ds" by (auto split: list.splits)
    with 2 at have "drop (i + 2) text = ds @ CHR 0x22 # r"
      using at_Cons [of "Suc i" "text" d "ds @ CHR 0x22 # r"] by simp
    with 2 cs True at show ?thesis by (simp add: string_end.simps [of "text" i])
  next
    case False
    with 2 at show ?thesis
      by (auto simp: string_end.simps [of "text" i] split: if_splits)
  qed
qed

definition quoted_text :: "string \<Rightarrow> bool" where
  "quoted_text t \<longleftrightarrow> (\<exists>b. t = CHR 0x22 # b @ [CHR 0x22] \<and> string_body b)"

lemma read_json_string_text:
  assumes "quoted_text t" "str_from_json S t = Inr s" "drop i text = t @ r"
  shows "read_json_string S text i = Inr (s, i + length t)"
proof -
  from assms(1) obtain b where t: "t = CHR 0x22 # b @ [CHR 0x22]" "string_body b"
    by (auto simp: quoted_text_def)
  have "string_end text (Suc i) = Some (i + length t)"
    using string_end_body [OF t(2), of "Suc i" "text" r] at_Cons(4) [of i "text"] assms(3) t(1)
    by simp
  moreover have "slice text i (i + length t) = t"
    using assms(3) by (simp add: slice_def drop_take)
  ultimately show ?thesis using assms(2) by (simp add: read_json_string_def)
qed

text \<open>The grammar of a JSON number.\<close>

definition digit_run :: "string \<Rightarrow> bool" where
  "digit_run ds \<longleftrightarrow> ds \<noteq> [] \<and> list_all is_digit ds"

definition integer_part :: "string \<Rightarrow> bool" where
  "integer_part ds \<longleftrightarrow> ds = ''0'' \<or> digit_run ds \<and> hd ds \<noteq> CHR ''0''"

definition fraction_part :: "string \<Rightarrow> bool" where
  "fraction_part t \<longleftrightarrow> t = [] \<or> (\<exists>ds. t = CHR ''.'' # ds \<and> digit_run ds)"

definition exponent_part :: "string \<Rightarrow> bool" where
  "exponent_part t \<longleftrightarrow> t = [] \<or>
     (\<exists>e sg ds. t = e # sg @ ds \<and> (e = CHR ''e'' \<or> e = CHR ''E'') \<and>
        (sg = [] \<or> sg = ''+'' \<or> sg = ''-'') \<and> digit_run ds)"

definition json_number_text :: "string \<Rightarrow> bool" where
  "json_number_text t \<longleftrightarrow>
     (\<exists>sg ip fp ep. t = sg @ ip @ fp @ ep \<and> (sg = [] \<or> sg = ''-'') \<and> integer_part ip \<and>
        fraction_part fp \<and> exponent_part ep)"

definition number_char :: "char \<Rightarrow> bool" where
  "number_char c \<longleftrightarrow> is_digit c \<or> c = CHR ''.'' \<or> c = CHR ''e'' \<or> c = CHR ''E''"

lemma skip_digits_span:
  "drop i text = ds @ r \<Longrightarrow> list_all is_digit ds \<Longrightarrow> stops is_digit r \<Longrightarrow> skip_digits text i = i + length ds"
  by (simp add: skip_digits_def skip_while_span)

lemma stops_weaken: "stops p r \<Longrightarrow> (\<And>c. q c \<Longrightarrow> p c) \<Longrightarrow> stops q r"
  by (auto simp: stops_def split: list.splits)

lemma digits1_span:
  assumes "drop i text = ds @ r" "digit_run ds" "stops is_digit r"
  shows "digits1 text start i = Inr (i + length ds)"
  using assms at_Cons [of i "text" "hd ds" "tl ds @ r"] skip_digits_span [of i "text" ds r]
  by (cases ds) (auto simp: digits1_def digit_run_def)

lemma digit_run_Cons:
  "digit_run ds \<Longrightarrow> \<exists>d ds'. ds = d # ds' \<and> is_digit d \<and> list_all is_digit ds'"
  by (cases ds) (auto simp: digit_run_def)

lemma not_digit [simp]:
  "\<not> is_digit (CHR ''.'')" "\<not> is_digit (CHR ''e'')" "\<not> is_digit (CHR ''E'')" "\<not> is_digit (CHR ''-'')"
  "\<not> is_digit (CHR ''+'')" "\<not> is_digit (CHR '','')" "\<not> is_digit (CHR '']'')" "\<not> is_digit (CHR ''}'')"
  by (simp_all add: is_digit_def)

lemma consume_exponent_span:
  assumes at: "drop i text = ep @ r" and ep: "exponent_part ep" and r: "stops number_char r"
  shows "consume_exponent text start i = Inr (i + length ep)"
proof (cases "ep = []")
  case True
  then show ?thesis
    using at r at_Cons [of i "text"]
    by (cases r) (auto simp: consume_exponent_def stops_def number_char_def vec_get_def)
next
  case False
  with ep obtain e sg ds where t: "ep = e # sg @ ds" "e = CHR ''e'' \<or> e = CHR ''E''"
      "sg = [] \<or> sg = ''+'' \<or> sg = ''-''" "digit_run ds"
    by (auto simp: exponent_part_def)
  have r': "stops is_digit r" using r by (rule stops_weaken) (simp add: number_char_def)
  have e: "peek text i = Some e" "drop (Suc i) text = sg @ ds @ r"
    using at_Cons [of i "text"] at t(1) by simp_all
  obtain d ds' where ds: "ds = d # ds'" "is_digit d" using digit_run_Cons [OF t(4)] by blast
  show ?thesis
  proof (cases "sg = []")
    case True
    then have "peek text (Suc i) = Some d" using at_Cons(1) [of "Suc i" "text"] e(2) ds by simp
    moreover have "d \<noteq> CHR ''+''" "d \<noteq> CHR ''-''" using ds(2) by auto
    ultimately show ?thesis
      using t e True digits1_span [OF _ t(4) r', of "Suc i" "text"]
      by (auto simp: consume_exponent_def)
  next
    case False
    then obtain c where c: "sg = [c]" "c = CHR ''+'' \<or> c = CHR ''-''" using t(3) by auto
    then have "peek text (Suc i) = Some c" "drop (i + 2) text = ds @ r"
      using at_Cons [of "Suc i" "text" c "ds @ r"] e(2) by simp_all
    then show ?thesis
      using t e c digits1_span [OF _ t(4) r', of "i + 2" "text"]
      by (auto simp: consume_exponent_def)
  qed
qed

lemma consume_fraction_span:
  assumes at: "drop i text = fp @ r" and fp: "fraction_part fp"
    and r: "stops (\<lambda>c. is_digit c \<or> c = CHR ''.'') r"
  shows "consume_fraction text start i = Inr (i + length fp)"
proof (cases "fp = []")
  case True
  then show ?thesis
    using at r at_Cons [of i "text"]
    by (cases r) (auto simp: consume_fraction_def stops_def vec_get_def)
next
  case False
  with fp obtain ds where t: "fp = CHR ''.'' # ds" "digit_run ds" by (auto simp: fraction_part_def)
  have r': "stops is_digit r" using r by (rule stops_weaken) simp
  have e: "peek text i = Some (CHR ''.'')" "drop (Suc i) text = ds @ r"
    using at_Cons [of i "text"] at t(1) by simp_all
  show ?thesis
    using t e digits1_span [OF e(2) t(2) r'] by (simp add: consume_fraction_def)
qed

lemma consume_integer_span:
  assumes at: "drop i text = ip @ r" and ip: "integer_part ip" and r: "stops is_digit r"
  shows "consume_integer text start i = Inr (i + length ip)"
proof (cases "ip = ''0''")
  case True
  then show ?thesis
    using at at_Cons [of i "text"] by (simp add: consume_integer_def)
next
  case False
  with ip obtain d ds where t: "ip = d # ds" "is_digit d" "list_all is_digit ds" "d \<noteq> CHR ''0''"
    using digit_run_Cons [of ip] by (auto simp: integer_part_def)
  have e: "peek text i = Some d" "drop (Suc i) text = ds @ r"
    using at_Cons [of i "text"] at t(1) by simp_all
  show ?thesis
    using t e skip_digits_span [OF e(2) t(3) r] by (simp add: consume_integer_def)
qed

lemma stops_append: "stops p (a @ b) \<longleftrightarrow> (if a = [] then stops p b else \<not> p (hd a))"
  by (cases a) (simp_all add: stops_def)

lemma part_heads:
  "fraction_part fp \<Longrightarrow> fp \<noteq> [] \<Longrightarrow> hd fp = CHR ''.''"
  "exponent_part ep \<Longrightarrow> ep \<noteq> [] \<Longrightarrow> hd ep = CHR ''e'' \<or> hd ep = CHR ''E''"
  by (auto simp: fraction_part_def exponent_part_def)

lemma exponent_stops:
  assumes "exponent_part ep" "stops number_char r"
  shows "stops (\<lambda>c. is_digit c \<or> c = CHR ''.'') (ep @ r)"
proof -
  have "stops (\<lambda>c. is_digit c \<or> c = CHR ''.'') r"
    using assms(2) by (rule stops_weaken) (auto simp: number_char_def)
  moreover have "\<not> is_digit (hd ep)" "hd ep \<noteq> CHR ''.''" if "ep \<noteq> []"
    using part_heads(2) [OF assms(1) that] by auto
  ultimately show ?thesis by (simp add: stops_append)
qed

lemma fraction_stops:
  assumes "fraction_part fp" "exponent_part ep" "stops number_char r"
  shows "stops is_digit (fp @ ep @ r)"
proof -
  have "stops is_digit (ep @ r)"
    using exponent_stops [OF assms(2,3)] by (rule stops_weaken) simp
  then show ?thesis using part_heads(1) [OF assms(1)] by (simp add: stops_append)
qed

lemma integer_part_head:
  "integer_part ip \<Longrightarrow> \<exists>d ds. ip = d # ds \<and> is_digit d"
proof (cases "ip = ''0''")
  case True
  then show ?thesis by (simp add: is_digit_def)
next
  case False
  assume "integer_part ip"
  with False show ?thesis by (cases ip) (auto simp: integer_part_def digit_run_def)
qed

lemma consume_number_span:
  assumes at: "drop i text = t @ r" and t: "json_number_text t" and r: "stops number_char r"
  shows "consume_number text i = Inr (i + length t)"
proof -
  from t obtain sg ip fp ep where t: "t = sg @ ip @ fp @ ep" "sg = [] \<or> sg = ''-''"
      "integer_part ip" "fraction_part fp" "exponent_part ep"
    by (auto simp: json_number_text_def)
  define j where "j = i + length sg"
  have j: "drop j text = ip @ fp @ ep @ r"
    using at t(1) by (simp add: j_def at_append)
  have start: "(if peek text i = Some (CHR ''-'') then Suc i else i) = j"
  proof (cases "sg = []")
    case True
    with j integer_part_head [OF t(3)] at_Cons(1) [of i "text"] show ?thesis by (auto simp: j_def)
  next
    case False
    with t at at_Cons(1) [of i "text"] show ?thesis by (auto simp: j_def)
  qed
  have "consume_integer text i j = Inr (j + length ip)"
    using j t(3) fraction_stops [OF t(4,5) r] by (rule consume_integer_span)
  moreover have "consume_fraction text i (j + length ip) = Inr (j + length ip + length fp)"
    using at_append [OF j] t(4) exponent_stops [OF t(5) r] by (rule consume_fraction_span)
  moreover have "consume_exponent text i (j + length ip + length fp)
      = Inr (j + length ip + length fp + length ep)"
    using at_append [OF at_append [OF j]] t(5) r by (rule consume_exponent_span)
  ultimately show ?thesis
    using t(1) by (simp add: consume_number_def start j_def)
qed

text \<open>
  What the development relies on of \<open>serde_json\<close>: a valid string is printed between quotes
  with the inner quotes escaped, in valid UTF-8, and read back; a float is printed as a JSON
  number.
\<close>

definition serde_ok :: "serde \<Rightarrow> bool" where
  "serde_ok S \<longleftrightarrow>
     (\<forall>s. from_utf8 s = Inr () \<longrightarrow>
        (\<exists>t. str_to_json S s = Inr t \<and> quoted_text t \<and> from_utf8 t = Inr () \<and>
           str_from_json S t = Inr s)) \<and>
     (\<forall>f. json_number_text (float_text S f) \<and> from_utf8 (float_text S f) = Inr ())"

text \<open>The strings of a value are valid UTF-8, as the type of strings guarantees.\<close>

fun strings_ok :: "json \<Rightarrow> bool" where
  "strings_ok (JString s) \<longleftrightarrow> from_utf8 s = Inr ()"
| "strings_ok (JArray vs) \<longleftrightarrow> (\<forall>v \<in> set vs. strings_ok v)"
| "strings_ok (JObject m) \<longleftrightarrow> (\<forall>kv \<in> set m. from_utf8 (fst kv) = Inr () \<and> strings_ok (snd kv))"
| "strings_ok _ \<longleftrightarrow> True"

fun unique_keys :: "json \<Rightarrow> bool" where
  "unique_keys (JArray vs) \<longleftrightarrow> (\<forall>v \<in> set vs. unique_keys v)"
| "unique_keys (JObject m) \<longleftrightarrow> distinct (map fst m) \<and> (\<forall>kv \<in> set m. unique_keys (snd kv))"
| "unique_keys _ \<longleftrightarrow> True"

text \<open>A scan that, when it does not run out of fuel, accepts up to \<open>j\<close> exactly if \<open>b\<close>.\<close>

definition judged :: "bool \<Rightarrow> nat \<Rightarrow> scan_result \<Rightarrow> bool" where
  "judged b j r \<longleftrightarrow> r = None \<or> (if b then r = Some (Inr j) else (\<exists>e. r = Some (Inl e)))"

lemma judged_simps [simp]:
  "judged b j None" "judged b j (Some (Inr k)) \<longleftrightarrow> b \<and> k = j" "judged b j (Some (Inl e)) \<longleftrightarrow> \<not> b"
  "judged b j (Some (fail m)) \<longleftrightarrow> \<not> b"
  by (auto simp: judged_def fail_def)

lemma judged_after:
  "judged a k r \<Longrightarrow> judged b j (f k) \<Longrightarrow> judged (a \<and> b) j (after_value r f)"
  by (auto simp: judged_def after_value_def split: if_splits)

definition value_stop :: "string \<Rightarrow> bool" where
  "value_stop r \<longleftrightarrow> stops (\<lambda>c. number_char c \<or> is_space c) r"

text \<open>The text \<open>t\<close> scans as a value wherever it stands, and is accepted exactly if \<open>b\<close>.\<close>

definition scans_as :: "serde \<Rightarrow> bool \<Rightarrow> string \<Rightarrow> bool" where
  "scans_as S b t \<longleftrightarrow>
     (\<exists>c r. t = c # r \<and> \<not> is_space c \<and> c \<noteq> CHR '']'' \<and> c \<noteq> CHR ''}'') \<and>
     (\<forall>text i r n path. drop i text = t @ r \<longrightarrow> value_stop r \<longrightarrow>
        judged b (i + length t) (parse_value S text n path i))"

lemma scans_as_start:
  "scans_as S b t \<Longrightarrow> drop i text = t @ r \<Longrightarrow>
     skip_whitespace text i = i \<and> i < length text \<and> peek text i \<noteq> Some (CHR '']'') \<and>
     peek text i \<noteq> Some (CHR ''}'')"
  using at_Cons [of i "text"] skip_whitespace_stop [of i "text" "t @ r"]
  by (fastforce simp: scans_as_def stops_def)

lemma scans_asD:
  "scans_as S b t \<Longrightarrow> drop i text = t @ r \<Longrightarrow> value_stop r \<Longrightarrow>
     judged b (i + length t) (parse_value S text n path i)"
  by (simp add: scans_as_def)

lemma not_space [simp]:
  "\<not> is_space (CHR '','')" "\<not> is_space (CHR '']'')" "\<not> is_space (CHR ''}'')" "\<not> is_space (CHR '':'')"
  "\<not> is_space (CHR ''['')" "\<not> is_space (CHR ''{'')" "\<not> is_space (CHR ''t'')" "\<not> is_space (CHR ''f'')"
  "\<not> is_space (CHR ''n'')" "\<not> is_space (CHR ''-'')" "\<not> is_space (CHR 0x22)"
  by (simp_all add: is_space_def)

lemma digit_not_space: "is_digit c \<Longrightarrow> \<not> is_space c"
  by (auto simp: is_digit_def is_space_def)

lemma value_stop_punct [simp]:
  "value_stop []" "value_stop (CHR '','' # r)" "value_stop (CHR '']'' # r)" "value_stop (CHR ''}'' # r)"
  by (simp_all add: value_stop_def stops_def number_char_def)

lemma parse_items_text:
  assumes "list_all2 (scans_as S) bs ts" "ts \<noteq> []"
    and "drop i text = join_with '','' ts @ CHR '']'' # r"
  shows "judged (list_all (\<lambda>b. b) bs) (i + length (join_with '','' ts) + 1)
    (parse_items (parse_value S text m) text path n item i)"
  using assms
proof (induction n arbitrary: bs ts i item)
  case (Suc n)
  from Suc.prems obtain b bs' t ts' where l: "bs = b # bs'" "ts = t # ts'" "scans_as S b t"
      "list_all2 (scans_as S) bs' ts'"
    by (cases ts; cases bs) auto
  define r' where "r' = (if ts' = [] then CHR '']'' # r else CHR '','' # join_with '','' ts' @ CHR '']'' # r)"
  have at: "drop i text = t @ r'"
    using Suc.prems(3) l(2) by (cases ts') (auto simp: r'_def)
  have k: "drop (i + length t) text = r'" using at by (rule at_append)
  have ws: "skip_whitespace text (i + length t) = i + length t"
    using k by (rule skip_whitespace_stop) (simp add: r'_def stops_def)
  have v: "judged b (i + length t) (parse_value S text m p i)" for p
    using scans_asD [OF l(3) at] by (simp add: r'_def)
  have pk: "peek text (i + length t) = Some (if ts' = [] then CHR '']'' else CHR '','')"
    using k at_Cons(1) [of "i + length t" "text"] by (auto simp: r'_def)
  define f where "f = (\<lambda>k. let k = skip_whitespace text k in
      if peek text k = Some (CHR '','')
      then parse_items (parse_value S text m) text path n (Suc item) (Suc k)
      else if peek text k = Some (CHR '']'') then Some (Inr (Suc k))
      else Some (fail (near_byte (''expected '' @ quoted '','' @ '' or '' @ quoted '']'') k)))"
  have eq: "parse_items (parse_value S text m) text path (Suc n) item i =
      after_value (parse_value S text m (index_path path item) i) f"
    using scans_as_start [OF l(3) at] by (simp add: f_def)
  show ?case
  proof (cases "ts' = []")
    case True
    then have "judged True (i + length t + 1) (f (i + length t))"
      using pk ws by (simp add: f_def)
    from judged_after [where f = f, OF v this] show ?thesis using True l eq by simp
  next
    case False
    have at': "drop (Suc (i + length t)) text = join_with '','' ts' @ CHR '']'' # r"
      using k False at_Cons(4) [of "i + length t" "text"] by (simp add: r'_def)
    have "judged (list_all (\<lambda>b. b) bs') (Suc (i + length t) + length (join_with '','' ts') + 1)
        (parse_items (parse_value S text m) text path n (Suc item) (Suc (i + length t)))"
      using l(4) False at' by (rule Suc.IH)
    then have "judged (list_all (\<lambda>b. b) bs') (Suc (i + length t) + length (join_with '','' ts') + 1)
        (f (i + length t))"
      using pk ws False by (simp add: f_def)
    from judged_after [where f = f, OF v this] show ?thesis using False l eq
      by (cases ts') (simp_all add: add.assoc)
  qed
qed simp

text \<open>The text of a member with its key.\<close>

definition member_text :: "serde \<Rightarrow> string \<Rightarrow> bool \<Rightarrow> string \<Rightarrow> bool" where
  "member_text S k b t \<longleftrightarrow>
     (\<exists>kt vt. t = kt @ '':'' @ vt \<and> quoted_text kt \<and> str_from_json S kt = Inr k \<and> scans_as S b vt)"

lemma quoted_text_head: "quoted_text t \<Longrightarrow> \<exists>r. t = CHR 0x22 # r"
  by (auto simp: quoted_text_def)

lemma parse_members_text:
  assumes "list_all2 (\<lambda>(k, b). member_text S k b) kbs ts" "ts \<noteq> []"
    and "drop i text = join_with '','' ts @ CHR ''}'' # r"
  shows "judged ((\<forall>k \<in> fst ` set kbs. k \<notin> set keys) \<and> distinct (map fst kbs) \<and> list_all snd kbs)
    (i + length (join_with '','' ts) + 1)
    (parse_members (parse_value S text m) S text path n keys i)"
  using assms
proof (induction n arbitrary: kbs ts i keys)
  case (Suc n)
  from Suc.prems obtain k b kbs' t ts' where l: "kbs = (k, b) # kbs'" "ts = t # ts'"
      "member_text S k b t" "list_all2 (\<lambda>(k, b). member_text S k b) kbs' ts'"
    by (cases ts; cases kbs) auto
  from l(3) obtain kt vt where t: "t = kt @ '':'' @ vt" "quoted_text kt" "str_from_json S kt = Inr k"
      "scans_as S b vt"
    by (auto simp: member_text_def)
  define r' where "r' = (if ts' = [] then CHR ''}'' # r else CHR '','' # join_with '','' ts' @ CHR ''}'' # r)"
  define j where "j = i + length kt"
  define e where "e = i + length t"
  have at: "drop i text = kt @ CHR '':'' # vt @ r'"
    using Suc.prems(3) l(2) t(1) by (cases ts') (auto simp: r'_def)
  have head: "peek text i = Some (CHR 0x22)" "i < length text" "skip_whitespace text i = i"
    using at quoted_text_head [OF t(2)] at_Cons [of i "text"]
      skip_whitespace_stop [of i "text" "kt @ CHR '':'' # vt @ r'"]
    by (auto simp: stops_def)
  have key: "read_json_string S text i = Inr (k, j)"
    using read_json_string_text [OF t(2,3) at] by (simp add: j_def)
  have colon: "drop j text = CHR '':'' # vt @ r'" using at_append [OF at] by (simp add: j_def)
  have pj: "peek text j = Some (CHR '':'')" "skip_whitespace text j = j" "drop (Suc j) text = vt @ r'"
    using at_Cons [OF colon] skip_whitespace_stop [OF colon] by (simp_all add: stops_def)
  have "value_stop r'" by (simp add: r'_def)
  then have v: "judged b e (parse_value S text m p (Suc j))" for p
    using scans_asD [OF t(4) pj(3), of m p] t(1) by (simp add: j_def e_def add.assoc)
  have re: "drop e text = r'" using at_append [OF pj(3)] t(1) by (simp add: e_def j_def add.assoc)
  have pe: "peek text e = Some (if ts' = [] then CHR ''}'' else CHR '','')" "skip_whitespace text e = e"
    using re at_Cons(1) [of e "text"] skip_whitespace_stop [OF re] by (auto simp: r'_def stops_def)
  define f where "f = (\<lambda>e. let e = skip_whitespace text e in
      if peek text e = Some (CHR '','')
      then parse_members (parse_value S text m) S text path n (keys @ [k]) (Suc e)
      else if peek text e = Some (CHR ''}'') then Some (Inr (Suc e))
      else Some (fail (near_byte (''expected '' @ quoted '','' @ '' or '' @ quoted ''}'') e)))"
  have eq: "parse_members (parse_value S text m) S text path (Suc n) keys i =
      (if k \<in> set keys then Some (fail (''duplicate object key '' @ str_debug S k @ '' at '' @ path))
       else after_value (parse_value S text m (member_path path k) (Suc j)) f)"
    using head key pj by (simp add: f_def)
  show ?case
  proof (cases "k \<in> set keys")
    case True
    then show ?thesis using l(1) by (simp only: eq) simp
  next
    case new: False
    show ?thesis
    proof (cases "ts' = []")
      case True
      then have "judged True (e + 1) (f e)" using pe by (simp add: f_def)
      from judged_after [where f = f, OF v this] show ?thesis
        using True l new by (simp only: eq) (simp add: e_def)
    next
      case False
      have at': "drop (Suc e) text = join_with '','' ts' @ CHR ''}'' # r"
        using re False at_Cons(4) [of e "text"] by (simp add: r'_def)
      let ?b = "(\<forall>k' \<in> fst ` set kbs'. k' \<notin> set (keys @ [k])) \<and> distinct (map fst kbs') \<and> list_all snd kbs'"
      have "judged ?b (Suc e + length (join_with '','' ts') + 1) (f e)"
        using Suc.IH [OF l(4) False at', of "keys @ [k]"] pe False by (simp add: f_def)
      note step = judged_after [where f = f, OF v [of "member_path path k"] this]
      have c: "(b \<and> ?b) =
          ((\<forall>k \<in> fst ` set kbs. k \<notin> set keys) \<and> distinct (map fst kbs) \<and> list_all snd kbs)"
        using l(1) new by auto
      have len: "Suc e + length (join_with '','' ts') + 1 = i + length (join_with '','' ts) + 1"
        using False l(2) by (cases ts') (simp_all add: e_def)
      from step show ?thesis by (simp only: eq new if_False c len)
    qed
  qed
qed simp

lemma scans_asI:
  assumes "t = c # t'" "\<not> is_space c" "c \<noteq> CHR '']''" "c \<noteq> CHR ''}''"
    and "\<And>text i r n path. drop i text = t @ r \<Longrightarrow> value_stop r \<Longrightarrow> peek text i = Some c \<Longrightarrow>
       skip_whitespace text i = i \<Longrightarrow> judged b (i + length t) (parse_value S text (Suc n) path i)"
  shows "scans_as S b t"
  unfolding scans_as_def
proof (intro conjI allI impI)
  show "\<exists>c r. t = c # r \<and> \<not> is_space c \<and> c \<noteq> CHR '']'' \<and> c \<noteq> CHR ''}''"
    using assms(1-4) by blast
  fix "text" i r n path
  assume at: "drop i text = t @ r" "value_stop r"
  have "peek text i = Some c" "skip_whitespace text i = i"
    using at_Cons(1) [of i "text"] skip_whitespace_stop [OF at(1)] assms(1,2) at(1)
    by (simp_all add: stops_def)
  then show "judged b (i + length t) (parse_value S text n path i)"
    using assms(5) [OF at] by (cases n) simp_all
qed

lemma literal_scans:
  "scans_as S True ''null''" "scans_as S True ''true''" "scans_as S True ''false''"
proof -
  show "scans_as S True ''null''"
    by (rule scans_asI [of _ "CHR ''n''"]) (simp_all add: consume_literal_def)
  show "scans_as S True ''true''"
    by (rule scans_asI [of _ "CHR ''t''"]) (simp_all add: consume_literal_def)
  show "scans_as S True ''false''"
    by (rule scans_asI [of _ "CHR ''f''"]) (simp_all add: consume_literal_def)
qed

lemma quoted_scans:
  assumes "quoted_text t" "str_from_json S t = Inr s"
  shows "scans_as S True t"
proof -
  obtain t' where t: "t = CHR 0x22 # t'" using quoted_text_head [OF assms(1)] by blast
  show ?thesis
    using t
  proof (rule scans_asI)
    fix "text" i r n path
    assume at: "drop i text = t @ r" "peek text i = Some (CHR 0x22)" "skip_whitespace text i = i"
    show "judged True (i + length t) (parse_value S text (Suc n) path i)"
      using at read_json_string_text [OF assms at(1)] by simp
  qed simp_all
qed

lemma json_number_head:
  assumes "json_number_text t"
  shows "\<exists>c t'. t = c # t' \<and> (c = CHR ''-'' \<or> is_digit c)"
proof -
  from assms obtain sg ip r where t: "t = sg @ ip @ r" "sg = [] \<or> sg = ''-''" "integer_part ip"
    by (auto simp: json_number_text_def)
  obtain d ds where "ip = d # ds" "is_digit d" using integer_part_head [OF t(3)] by blast
  with t show ?thesis by auto
qed

lemma number_scans:
  assumes "json_number_text t"
  shows "scans_as S True t"
proof -
  obtain c t' where t: "t = c # t'" and c: "c = CHR ''-'' \<or> is_digit c"
    using json_number_head [OF assms] by blast
  have ne: "c \<noteq> CHR ''{''" "c \<noteq> CHR ''[''" "c \<noteq> CHR 0x22" "c \<noteq> CHR ''t''" "c \<noteq> CHR ''f''"
    "c \<noteq> CHR ''n''" "c \<noteq> CHR '']''" "c \<noteq> CHR ''}''" "\<not> is_space c"
    using c by (auto simp: is_digit_def is_space_def)
  show ?thesis
    using t ne(9,7,8)
  proof (rule scans_asI)
    fix "text" i r n path
    assume at: "drop i text = t @ r" "value_stop r" "peek text i = Some c" "skip_whitespace text i = i"
    have "stops number_char r"
      using at(2) unfolding value_stop_def by (rule stops_weaken) simp
    then have "consume_number text i = Inr (i + length t)"
      using at(1) assms by (intro consume_number_span)
    then show "judged True (i + length t) (parse_value S text (Suc n) path i)"
      using at(3,4) ne c by simp
  qed
qed

lemma array_scans:
  assumes "list_all2 (scans_as S) bs ts"
  shows "scans_as S (list_all (\<lambda>b. b) bs) (''['' @ join_with '','' ts @ '']'')"
proof (rule scans_asI)
  fix "text" i r n path
  let ?t = "''['' @ join_with '','' ts @ '']''"
  assume at: "drop i text = ?t @ r" "peek text i = Some (CHR ''['')" "skip_whitespace text i = i"
  have nx: "drop (Suc i) text = join_with '','' ts @ CHR '']'' # r"
    using at_Cons(4) [of i "text"] at(1) by simp
  have "judged (list_all (\<lambda>b. b) bs) (i + length ?t) (parse_array (parse_value S text n) text path n i)"
  proof (cases ts)
    case Nil
    with nx at_Cons(1) [of "Suc i" "text"] skip_whitespace_stop [OF nx] assms show ?thesis
      by (simp add: parse_array_def stops_def)
  next
    case (Cons t ts')
    then obtain b bs' where b: "bs = b # bs'" "scans_as S b t" using assms by (cases bs) auto
    obtain r' where r': "drop (Suc i) text = t @ r'"
      using nx Cons by (cases ts') auto
    have "judged (list_all (\<lambda>b. b) bs) (Suc i + length (join_with '','' ts) + 1)
        (parse_items (parse_value S text n) text path n 0 (Suc i))"
      using assms Cons nx by (intro parse_items_text) simp_all
    then show ?thesis
      using scans_as_start [OF b(2) r'] by (simp add: parse_array_def)
  qed
  then show "judged (list_all (\<lambda>b. b) bs) (i + length ?t) (parse_value S text (Suc n) path i)"
    using at by simp
qed simp_all

lemma object_scans:
  assumes "list_all2 (\<lambda>(k, b). member_text S k b) kbs ts"
  shows "scans_as S (distinct (map fst kbs) \<and> list_all snd kbs) (''{'' @ join_with '','' ts @ ''}'')"
proof (rule scans_asI)
  fix "text" i r n path
  let ?t = "''{'' @ join_with '','' ts @ ''}''" and ?b = "distinct (map fst kbs) \<and> list_all snd kbs"
  assume at: "drop i text = ?t @ r" "peek text i = Some (CHR ''{'')" "skip_whitespace text i = i"
  have nx: "drop (Suc i) text = join_with '','' ts @ CHR ''}'' # r"
    using at_Cons(4) [of i "text"] at(1) by simp
  have "judged ?b (i + length ?t) (parse_object (parse_value S text n) S text path n i)"
  proof (cases ts)
    case Nil
    with nx at_Cons(1) [of "Suc i" "text"] skip_whitespace_stop [OF nx] assms show ?thesis
      by (simp add: parse_object_def stops_def)
  next
    case (Cons t ts')
    then obtain k b kbs' where "kbs = (k, b) # kbs'" "member_text S k b t"
      using assms by (cases kbs) auto
    then obtain r' where r': "drop (Suc i) text = CHR 0x22 # r'"
      using nx Cons by (cases ts') (auto simp: member_text_def dest!: quoted_text_head)
    have "judged ?b (Suc i + length (join_with '','' ts) + 1)
        (parse_members (parse_value S text n) S text path n [] (Suc i))"
      using parse_members_text [OF assms _ nx, of "[]" n path n] Cons by simp
    then show ?thesis
      using at_Cons(1) [OF r'] skip_whitespace_stop [OF r'] by (simp add: parse_object_def stops_def)
  qed
  then show "judged ?b (i + length ?t) (parse_value S text (Suc n) path i)"
    using at by simp
qed simp_all

text \<open>Decimal numerals.\<close>

lemma dec_nat_all_digits: "digit_run (dec_nat n)"
proof (induction n rule: dec_nat.induct)
  case (1 n)
  have "is_digit (char_of (48 + d))" if "d < 10" for d :: nat
    using that by (simp add: is_digit_def of_char_of)
  with 1 show ?case
    by (cases "n < 10") (simp_all add: dec_nat.simps [of n] digit_run_def)
qed

lemma dec_nat_head: "0 < n \<Longrightarrow> hd (dec_nat n) \<noteq> CHR ''0''"
proof (induction n rule: dec_nat.induct)
  case (1 n)
  show ?case
  proof (cases "n < 10")
    case True
    then have "(of_char (hd (dec_nat n)) :: nat) = 48 + n"
      by (simp add: dec_nat.simps [of n] of_char_of)
    with 1(2) show ?thesis by auto
  next
    case False
    then have "hd (dec_nat n) = hd (dec_nat (n div 10))"
      using dec_nat_all_digits [of "n div 10"] by (simp add: dec_nat.simps [of n] digit_run_def)
    with False 1(1) show ?thesis by simp
  qed
qed

lemma dec_nat_0: "dec_nat 0 = ''0''"
  by code_simp

lemma dec_nat_integer: "integer_part (dec_nat n)"
  using dec_nat_all_digits [of n] dec_nat_head [of n] by (cases "n = 0") (auto simp: integer_part_def dec_nat_0)

lemma dec_int_number: "json_number_text (dec_int z)"
  unfolding json_number_text_def
  by (rule exI [of _ "if z < 0 then ''-'' else []"], rule exI [of _ "dec_nat (nat \<bar>z\<bar>)"],
      rule exI [of _ "[]"], rule exI [of _ "[]"])
    (simp add: dec_int_def dec_nat_integer fraction_part_def exponent_part_def)

lemma to_string_dec_int: "to_string n = dec_int (int (unat n))"
  by (simp add: to_string_def dec_int_def)

lemma dec_int_0: "dec_int 0 = ''0''"
  by (simp add: dec_int_def dec_nat_0)

lemma canonical_number_cases:
  "(\<exists>z. canonical_number_string S number = dec_int z) \<or>
   (\<exists>f. canonical_number_string S number = float_text S f)"
  by (cases number)
    (auto simp: canonical_number_string_def to_string_dec_int simp flip: dec_int_0 split: option.splits)

lemma canonical_number_text: "serde_ok S \<Longrightarrow> json_number_text (canonical_number_string S number)"
  using canonical_number_cases [of S number] dec_int_number by (auto simp: serde_ok_def)

text \<open>Valid UTF-8 is closed under concatenation.\<close>

abbreviation (input) utf8_ok :: "string \<Rightarrow> bool" where
  "utf8_ok s \<equiv> from_utf8 s = Inr ()"

lemma utf8_first_append:
  "utf8_first bs = Inr w \<Longrightarrow> utf8_first (bs @ cs) = Inr w \<and> w \<le> length bs"
  by (auto simp: utf8_first_def Let_def split: list.splits if_splits)

lemma from_utf8_at_append:
  "from_utf8_at a i = Inr () \<Longrightarrow> from_utf8_at (a @ b) i = from_utf8_at b (i + length a)"
proof (induction a i rule: from_utf8_at.induct)
  case (1 a i)
  show ?case
  proof (cases "a = []")
    case False
    with 1(2) obtain w where w: "utf8_first a = Inr w" "from_utf8_at (drop w a) (i + w) = Inr ()"
      by (auto simp: from_utf8_at.simps [of a i] split: sum.splits)
    have "from_utf8_at (a @ b) i = from_utf8_at (drop w a @ b) (i + w)"
      using utf8_first_append [OF w(1), of b] False by (simp add: from_utf8_at.simps [of "a @ b" i])
    also have "\<dots> = from_utf8_at b (i + length a)"
      using 1(1) [OF False w] utf8_first_append [OF w(1), of b] by simp
    finally show ?thesis .
  qed simp
qed

lemma from_utf8_at_shift: "from_utf8_at a i = Inr () \<Longrightarrow> from_utf8_at a j = Inr ()"
proof (induction a i arbitrary: j rule: from_utf8_at.induct)
  case (1 a i)
  then show ?case
    by (cases "a = []")
      (auto simp: from_utf8_at.simps [of a] from_utf8_at.simps [of "[]"] split: sum.splits)
qed

lemma utf8_append: "utf8_ok a \<Longrightarrow> utf8_ok b \<Longrightarrow> utf8_ok (a @ b)"
  using from_utf8_at_append [of "map of_char a" 0] from_utf8_at_shift [of "map of_char b" 0]
  by (simp add: from_utf8_def)

definition ascii :: "string \<Rightarrow> bool" where
  "ascii s \<longleftrightarrow> list_all (\<lambda>c. (of_char c :: nat) < 128) s"

lemma utf8_Nil [simp]: "utf8_ok []"
  by (simp add: from_utf8_def from_utf8_at.simps)

lemma utf8_Cons: "(of_char c :: nat) < 128 \<Longrightarrow> utf8_ok s \<Longrightarrow> utf8_ok (c # s)"
proof -
  assume "(of_char c :: nat) < 128" "utf8_ok s"
  moreover from this have "utf8_ok [c]"
    by (simp add: from_utf8_def from_utf8_at.simps utf8_first_def utf8_width_def)
  ultimately show ?thesis using utf8_append [of "[c]" s] by simp
qed

lemma ascii_utf8: "ascii s \<Longrightarrow> utf8_ok s"
  by (induction s) (simp_all add: ascii_def utf8_Cons)

lemma join_utf8: "\<forall>t \<in> set ts. utf8_ok t \<Longrightarrow> utf8_ok (join_with '','' ts)"
  by (induction "'',''" ts rule: join_with.induct) (simp_all add: utf8_append utf8_Cons)

lemma joined_utf8:
  assumes "list_all2 (\<lambda>x t. P x t \<and> utf8_ok t) xs ts"
  shows "utf8_ok (join_with '','' ts)"
proof (rule join_utf8)
  show "\<forall>t \<in> set ts. utf8_ok t"
    using assms by (induction xs ts rule: list_all2_induct) auto
qed

lemma digit_ascii: "is_digit c \<Longrightarrow> (of_char c :: nat) < 128"
  by (simp add: is_digit_def)

lemma dec_int_utf8: "utf8_ok (dec_int z)"
proof (rule ascii_utf8)
  have "ascii (dec_nat n)" for n
    using dec_nat_all_digits [of n] by (auto simp: ascii_def digit_run_def list_all_iff digit_ascii)
  then show "ascii (dec_int z)" by (auto simp: dec_int_def ascii_def)
qed

lemma canonical_number_utf8: "serde_ok S \<Longrightarrow> utf8_ok (canonical_number_string S number)"
  using canonical_number_cases [of S number] dec_int_utf8 by (auto simp: serde_ok_def)

lemma collect_results_all2:
  "(\<And>x. x \<in> set xs \<Longrightarrow> \<exists>t. f x = Inr t \<and> P x t) \<Longrightarrow> \<exists>ts. collect_results f xs = Inr ts \<and> list_all2 P xs ts"
proof (induction xs)
  case (Cons x xs)
  then show ?case by (fastforce simp: rbind_eq_Inr)
qed simp

lemma string_text:
  assumes "serde_ok S" "utf8_ok s"
  shows "\<exists>t. string_json S s = Inr t \<and> quoted_text t \<and> utf8_ok t \<and> str_from_json S t = Inr s"
  using assms by (fastforce simp: serde_ok_def string_json_def)

lemma canonical_array:
  assumes "\<And>v. v \<in> set vs \<Longrightarrow>
      \<exists>t. canonical_json_string S v = Inr t \<and> scans_as S (unique_keys v) t \<and> utf8_ok t"
  shows "\<exists>t. canonical_json_string S (JArray vs) = Inr t \<and> scans_as S (unique_keys (JArray vs)) t \<and> utf8_ok t"
proof -
  obtain ts where ts: "collect_results (canonical_json_string S) vs = Inr ts"
    "list_all2 (\<lambda>v t. scans_as S (unique_keys v) t \<and> utf8_ok t) vs ts"
    using collect_results_all2 [of vs "canonical_json_string S", OF assms] by blast
  have "list_all2 (scans_as S) (map unique_keys vs) ts"
    using ts(2) by (auto simp: list_all2_map1 elim: list_all2_mono)
  from array_scans [OF this] have "scans_as S (unique_keys (JArray vs)) (''['' @ join_with '','' ts @ '']'')"
    by (simp add: list_all_iff)
  moreover have "utf8_ok (''['' @ join_with '','' ts @ '']'')"
    using joined_utf8 [OF ts(2)] by (simp add: utf8_append utf8_Cons)
  ultimately show ?thesis using ts(1) by simp
qed

lemma canonical_object:
  assumes "serde_ok S"
    and "\<And>kv. kv \<in> set m \<Longrightarrow> utf8_ok (fst kv) \<and>
      (\<exists>t. canonical_json_string S (snd kv) = Inr t \<and> scans_as S (unique_keys (snd kv)) t \<and> utf8_ok t)"
  shows "\<exists>t. canonical_json_string S (JObject m) = Inr t \<and> scans_as S (unique_keys (JObject m)) t \<and> utf8_ok t"
proof -
  define f where "f = (\<lambda>kv. rbind (string_json S (fst kv))
    (\<lambda>k. rbind (canonical_json_string S (snd kv)) (\<lambda>v. Inr (k @ '':'' @ v))))"
  have "\<exists>t. f kv = Inr t \<and> member_text S (fst kv) (unique_keys (snd kv)) t \<and> utf8_ok t"
    if kv: "kv \<in> set (sort_members m)" for kv
  proof -
    obtain vt where v: "canonical_json_string S (snd kv) = Inr vt" "scans_as S (unique_keys (snd kv)) vt"
        "utf8_ok vt" and k: "utf8_ok (fst kv)"
      using assms(2) [of kv] kv by auto
    obtain kt where kt: "string_json S (fst kv) = Inr kt" "quoted_text kt" "utf8_ok kt"
        "str_from_json S kt = Inr (fst kv)"
      using string_text [OF assms(1) k] by blast
    have "utf8_ok (kt @ '':'' @ vt)"
      using kt(3) v(3) by (simp add: utf8_append utf8_Cons)
    moreover have "member_text S (fst kv) (unique_keys (snd kv)) (kt @ '':'' @ vt)"
      unfolding member_text_def using v(2) kt(2,4) by blast
    ultimately show ?thesis using v(1) kt(1) by (simp add: f_def)
  qed
  note mem = this
  obtain ts where ts: "collect_results f (sort_members m) = Inr ts"
    "list_all2 (\<lambda>kv t. member_text S (fst kv) (unique_keys (snd kv)) t \<and> utf8_ok t) (sort_members m) ts"
    by (rule exE [OF collect_results_all2 [where f = f and xs = "sort_members m" and
        P = "\<lambda>kv t. member_text S (fst kv) (unique_keys (snd kv)) t \<and> utf8_ok t", OF mem]]) auto
  define kbs where "kbs = map (\<lambda>kv. (fst kv, unique_keys (snd kv))) (sort_members m)"
  have "list_all2 (\<lambda>(k, b). member_text S k b) kbs ts"
    using ts(2) by (auto simp: kbs_def list_all2_map1 elim: list_all2_mono)
  moreover have "distinct (map fst kbs) \<and> list_all snd kbs \<longleftrightarrow> unique_keys (JObject m)"
    by (auto simp: kbs_def list_all_iff distinct_map sort_members_def comp_def)
  ultimately have "scans_as S (unique_keys (JObject m)) (''{'' @ join_with '','' ts @ ''}'')"
    using object_scans by metis
  moreover have "utf8_ok (''{'' @ join_with '','' ts @ ''}'')"
    using joined_utf8 [OF ts(2)] by (simp add: utf8_append utf8_Cons)
  ultimately show ?thesis using ts(1) by (simp add: f_def)
qed

lemma canonical_text:
  assumes "serde_ok S"
  shows "strings_ok v \<Longrightarrow>
    \<exists>t. canonical_json_string S v = Inr t \<and> scans_as S (unique_keys v) t \<and> utf8_ok t"
proof (induction v)
  case (JBool b)
  then show ?case by (cases b) (simp_all add: literal_scans ascii_utf8 ascii_def)
next
  case (JNumber n)
  then show ?case
    using canonical_number_text [OF assms] canonical_number_utf8 [OF assms] by (simp add: number_scans)
next
  case (JString s)
  then show ?case using string_text [OF assms, of s] quoted_scans by fastforce
next
  case (JArray vs)
  then show ?case by (intro canonical_array) auto
next
  case (JObject m)
  then show ?case by (intro canonical_object [OF assms]) force
qed (simp add: literal_scans ascii_utf8 ascii_def)

lemma scan_whole_text:
  assumes "scans_as S b t"
  shows "assert_no_duplicate_json_object_keys S t = Some (Inr ()) \<longleftrightarrow> b"
proof -
  have "judged b (length t) (parse_value S t (scan_fuel t) ''$'' 0)"
    using scans_asD [OF assms, of 0 t "[]"] by simp
  moreover have "decides 0 (parse_value S t (scan_fuel t) ''$'' 0)"
    by (rule parse_value_decides) (simp add: scan_fuel_def)
  moreover have "skip_whitespace t (length t) = length t"
    by (rule skip_whitespace_stop [of _ _ "[]"]) (simp_all add: stops_def)
  ultimately show ?thesis
    by (auto simp: judged_def assert_no_duplicate_json_object_keys_def split: if_splits)
qed

subsection \<open>Normal forms\<close>

text \<open>
  The text of an integral float is that of an integer, so a value comes back from its canonical
  text with such floats turned into integers.
\<close>

fun normalize_number :: "json_number \<Rightarrow> json_number" where
  "normalize_number (Float f) =
     (if frac (f64_val f) = 0 then
        if 0 \<le> \<lfloor>f64_val f\<rfloor> then PosInt (word_of_int \<lfloor>f64_val f\<rfloor>) else NegInt (word_of_int \<lfloor>f64_val f\<rfloor>)
      else Float f)"
| "normalize_number number = number"

fun normalize :: "json \<Rightarrow> json" where
  "normalize (JNumber number) = JNumber (normalize_number number)"
| "normalize (JArray vs) = JArray (map normalize vs)"
| "normalize (JObject m) = JObject (map (\<lambda>kv. (fst kv, normalize (snd kv))) m)"
| "normalize v = v"

lemma dec_int_not_zero_text: "dec_int z \<noteq> ''-0.0''" "dec_int z \<noteq> ''-0''"
proof -
  have hd: "dec_nat (nat (- z)) \<noteq> CHR ''0'' # r" if "z < 0" for r
    using dec_nat_head [of "nat (- z)"] that by fastforce
  have dig: "dec_nat n \<noteq> CHR ''-'' # r" for n r
    using dec_nat_all_digits [of n] by (auto simp: digit_run_def)
  show "dec_int z \<noteq> ''-0.0''" "dec_int z \<noteq> ''-0''"
    using hd dig by (auto simp: dec_int_def)
qed

lemma safe_word:
  assumes "\<bar>z\<bar> \<le> JS_MAX_SAFE_INTEGER"
  shows "0 \<le> z \<Longrightarrow> unat (word_of_int z :: u64) = nat z"
    and "sint (word_of_int z :: u64) = z"
  using assms
  by (simp_all add: JS_MAX_SAFE_INTEGER_def unat_eq_nat_uint uint_word_of_int sint_sbintrunc'
      nat_mod_distrib signed_take_bit_int_eq_self)

lemma integral_rat: "frac (r :: rat) = 0 \<Longrightarrow> r = of_int \<lfloor>r\<rfloor>"
  by (auto elim: Ints_cases)

definition safe_number :: "serde \<Rightarrow> json_number \<Rightarrow> bool" where
  "safe_number S number \<longleftrightarrow> (\<exists>path. validate_number S number path = Inr ())"

lemma safe_float:
  assumes "safe_number S (Float f)" "frac (f64_val f) = 0"
  shows "\<bar>\<lfloor>f64_val f\<rfloor>\<bar> \<le> JS_MAX_SAFE_INTEGER"
proof -
  have "\<bar>f64_val f\<bar> \<le> of_int JS_MAX_SAFE_INTEGER"
    using assms
    by (auto simp: safe_number_def validate_number_def float_range_check_def rbind_eq_Inr split: if_splits)
  then show ?thesis using integral_rat [OF assms(2)]
    by (metis of_int_abs of_int_le_iff)
qed

lemma small_integer:
  fixes z :: int
  shows "\<not> (0 < \<bar>of_int z :: rat\<bar> \<and> \<bar>of_int z\<bar> < f64_min_positive)"
proof
  assume a: "0 < \<bar>of_int z :: rat\<bar> \<and> \<bar>of_int z\<bar> < f64_min_positive"
  then have "1 \<le> \<bar>z\<bar>" by auto
  then have "(1 :: rat) \<le> \<bar>of_int z\<bar>" by (metis of_int_1_le_iff of_int_abs)
  moreover have "f64_min_positive < 1" by (simp add: f64_min_positive_def)
  ultimately show False using a by linarith
qed

lemma safe_integer:
  assumes "\<bar>z\<bar> \<le> JS_MAX_SAFE_INTEGER"
  shows "0 \<le> z \<Longrightarrow> validate_number S (PosInt (word_of_int z)) path = Inr ()"
    and "z < 0 \<Longrightarrow> validate_number S (NegInt (word_of_int z)) path = Inr ()"
proof -
  have c: "\<bar>of_int z\<bar> \<le> (of_int JS_MAX_SAFE_INTEGER :: rat)"
    using assms by (metis of_int_abs of_int_le_iff)
  show "validate_number S (PosInt (word_of_int z)) path = Inr ()" if "0 \<le> z"
    using that c assms safe_word [OF assms] small_integer [of z] dec_int_not_zero_text [of z]
    by (simp add: validate_number_def to_string_dec_int int_range_check_def float_range_check_def
        JS_MAX_SAFE_INTEGER_def)
  show "validate_number S (NegInt (word_of_int z)) path = Inr ()" if "z < 0"
    using that c assms safe_word [OF assms] small_integer [of z] dec_int_not_zero_text [of z]
    by (simp add: validate_number_def int_range_check_def float_range_check_def)
qed

lemma normalize_number_safe:
  assumes "safe_number S number"
  shows "validate_number S (normalize_number number) path = Inr ()"
    and "canonical_number_string S (normalize_number number) = canonical_number_string S number"
proof -
  have same: "validate_number S number path = Inr ()"
    using assms
    by (auto simp: safe_number_def validate_number_def int_range_check_def float_range_check_def
        rbind_eq_Inr split: if_splits option.splits)
  show "validate_number S (normalize_number number) path = Inr ()"
  proof (cases "\<exists>f. number = Float f \<and> frac (f64_val f) = 0")
    case True
    then obtain f where f: "number = Float f" "frac (f64_val f) = 0" by blast
    with assms safe_float have "\<bar>\<lfloor>f64_val f\<rfloor>\<bar> \<le> JS_MAX_SAFE_INTEGER" by blast
    from safe_integer [OF this] f show ?thesis by simp
  next
    case False
    then show ?thesis using same by (cases number) auto
  qed
  show "canonical_number_string S (normalize_number number) = canonical_number_string S number"
  proof (cases "\<exists>f. number = Float f \<and> frac (f64_val f) = 0")
    case True
    then obtain f where f: "number = Float f" "frac (f64_val f) = 0" by blast
    define z where "z = \<lfloor>f64_val f\<rfloor>"
    have z: "f64_val f = of_int z" "\<bar>z\<bar> \<le> JS_MAX_SAFE_INTEGER"
      using integral_rat [OF f(2)] safe_float [of S f] assms f by (simp_all add: z_def)
    have le: "\<bar>of_int z\<bar> \<le> (of_int JS_MAX_SAFE_INTEGER :: rat)"
      using z(2) by (metis of_int_abs of_int_le_iff)
    have "nat z < 9223372036854775808" using z(2) by (simp add: JS_MAX_SAFE_INTEGER_def)
    then show ?thesis
      using f z le safe_word [OF z(2)]
      by (auto simp: canonical_number_string_def z_def [symmetric] dec_int_0)
  next
    case False
    then show ?thesis by (cases number) auto
  qed
qed

fun safe_numbers :: "serde \<Rightarrow> json \<Rightarrow> bool" where
  "safe_numbers S (JNumber number) \<longleftrightarrow> safe_number S number"
| "safe_numbers S (JArray vs) \<longleftrightarrow> (\<forall>v \<in> set vs. safe_numbers S v)"
| "safe_numbers S (JObject m) \<longleftrightarrow> (\<forall>kv \<in> set m. safe_numbers S (snd kv))"
| "safe_numbers S _ \<longleftrightarrow> True"

lemma validated_normal:
  "validate_value S v path depth = Inr () \<Longrightarrow>
     validate_value S (normalize v) path depth = Inr () \<and> safe_numbers S v"
  "validate_members S m path depth = Inr () \<Longrightarrow>
     validate_members S (map (\<lambda>kv. (fst kv, normalize (snd kv))) m) path depth = Inr () \<and>
     (\<forall>kv \<in> set m. safe_numbers S (snd kv))"
  "validate_items S vs path i depth = Inr () \<Longrightarrow>
     validate_items S (map normalize vs) path i depth = Inr () \<and> (\<forall>v \<in> set vs. safe_numbers S v)"
proof (induction S v path depth and S m path depth and S vs path i depth
    rule: validate_value_validate_members_validate_items.induct)
  case (1 S v path depth)
  then show ?case
    using normalize_number_safe(1)
    by (cases v) (auto simp: safe_number_def split: if_splits)
qed (auto simp: rbind_eq_Inr simp del: validate_value.simps)

lemma collect_results_map_arg: "collect_results f (map g xs) = collect_results (f \<circ> g) xs"
  by (induction xs) simp_all

lemma insort_key_map: "insort_key f (g x) (map g xs) = map g (insort_key (f \<circ> g) x xs)"
  by (induction xs) auto

lemma sort_key_map: "sort_key f (map g xs) = map g (sort_key (f \<circ> g) xs)"
  by (induction xs) (simp_all add: insort_key_map comp_def)

lemma sort_members_normalize:
  "sort_members (map (\<lambda>kv. (fst kv, normalize (snd kv))) m) =
     map (\<lambda>kv. (fst kv, normalize (snd kv))) (sort_members m)"
  by (simp add: sort_members_def sort_key_map comp_def)

lemma canonical_normal:
  "safe_numbers S v \<Longrightarrow> canonical_json_string S (normalize v) = canonical_json_string S v"
proof (induction v)
  case (JArray vs)
  then have "collect_results (canonical_json_string S \<circ> normalize) vs = collect_results (canonical_json_string S) vs"
    by (intro collect_results_cong) auto
  then show ?case by (simp add: collect_results_map_arg)
next
  case (JObject m)
  have "collect_results ((\<lambda>kv. rbind (string_json S (fst kv))
        (\<lambda>k. rbind (canonical_json_string S (snd kv)) (\<lambda>v. Inr (k @ '':'' @ v)))) \<circ>
        (\<lambda>kv. (fst kv, normalize (snd kv)))) (sort_members m) =
      collect_results (\<lambda>kv. rbind (string_json S (fst kv))
        (\<lambda>k. rbind (canonical_json_string S (snd kv)) (\<lambda>v. Inr (k @ '':'' @ v)))) (sort_members m)"
    using JObject by (intro collect_results_cong) (force simp: comp_def)+
  then show ?case by (simp add: collect_results_map_arg sort_members_normalize)
qed (simp_all add: normalize_number_safe)

lemma stable_normal:
  assumes "stable_json_string S v = Inr t"
  shows "stable_json_string S (normalize v) = Inr t"
  using assms validated_normal(1) [of S v "''$''" 0] canonical_normal [of S v]
  by (auto simp: stable_json_string_def validate_strict_json_value_def rbind_eq_Inr
      simp del: validate_value.simps)

text \<open>
  The scanner decides every text: the fuel bound is enough, so its loops end and it never
  returns without a verdict.
\<close>

theorem scanner_always_decides: "assert_no_duplicate_json_object_keys S text \<noteq> None"
  using scanner_decides [of S "text"] by auto

text \<open>
  C26. On the JSON text of a tree of values the scanner says exactly whether every object has
  distinct keys, at any depth and after unescaping.
\<close>

theorem scanner_accepts_iff_unique_keys:
  assumes "serde_ok S" "strings_ok v" "canonical_json_string S v = Inr t"
  shows "assert_no_duplicate_json_object_keys S t = Some (Inr ()) \<longleftrightarrow> unique_keys v"
  using canonical_text [OF assms(1,2)] assms(3) scan_whole_text by auto

text \<open>
  The strict codec reads back what it writes: the bytes of an accepted value pass the UTF-8
  check, the duplicate-key scanner and the canonical-form check, and decode to the value with its
  integral floats as integers.
\<close>

theorem strict_codec_roundtrip:
  assumes "serde_ok S" "strings_ok v" "unique_keys v"
    and "strict_canonical_json_bytes S v = Inr t"
    and "value_from_json S t = Inr (normalize v)"
  shows "strict_json_decode S t = Some (Inr (normalize v))"
proof -
  have "canonical_json_string S v = Inr t"
    using assms(4) by (simp add: strict_canonical_json_bytes_def stable_json_string_def rbind_eq_Inr)
  then have "assert_no_duplicate_json_object_keys S t = Some (Inr ())" "from_utf8 t = Inr ()"
    using canonical_text [OF assms(1,2)] scan_whole_text assms(3) by auto
  then show ?thesis
    using assms(5) stable_normal [of S v t] assms(4)
    by (simp add: strict_json_decode_def map_err_def strict_canonical_json_bytes_def)
qed

subsection \<open>Decimal integers and their text\<close>

lemma digit_value: "is_digit c \<Longrightarrow> char_of (48 + (of_char c - 48 :: nat)) = c \<and> (of_char c - 48 :: nat) < 10"
  by (auto simp: is_digit_def)

lemma char_of_48: "char_of (48 :: nat) = CHR ''0''"
  by code_simp

lemma dec_nat_dec_val_pos:
  "digit_run ds \<Longrightarrow> hd ds \<noteq> CHR ''0'' \<Longrightarrow> dec_nat (dec_val ds) = ds \<and> 0 < dec_val ds"
proof (induction ds rule: rev_induct)
  case (snoc d ds)
  have d: "is_digit d" using snoc.prems by (simp add: digit_run_def)
  define n where "n = (of_char d - 48 :: nat)"
  have n: "n < 10" "char_of (48 + n) = d" using digit_value [OF d] by (simp_all add: n_def)
  have v: "dec_val (ds @ [d]) = 10 * dec_val ds + n" by (simp add: dec_val_snoc n_def)
  show ?case
  proof (cases "ds = []")
    case True
    have "n \<noteq> 0"
    proof
      assume "n = 0"
      with n(2) have "d = CHR ''0''" by (simp only: add_0_right char_of_48)
      with snoc.prems(2) True show False by simp
    qed
    then show ?thesis using True n v by (simp add: dec_val_def dec_nat.simps [of n])
  next
    case False
    then have ih: "dec_nat (dec_val ds) = ds" "0 < dec_val ds"
      using snoc by (auto simp: digit_run_def)
    then have "(10 * dec_val ds + n) div 10 = dec_val ds" "(10 * dec_val ds + n) mod 10 = n"
      "\<not> 10 * dec_val ds + n < 10"
      using n by auto
    then show ?thesis using ih n v by (simp add: dec_nat.simps [of "10 * dec_val ds + n"])
  qed
qed (simp add: digit_run_def)

lemma dec_nat_dec_val: "integer_part ds \<Longrightarrow> dec_nat (dec_val ds) = ds"
  using dec_nat_dec_val_pos [of ds] dec_val_dec_nat [of 0] by (auto simp: integer_part_def dec_nat_0)

lemma non_negative_iff: "is_non_negative_decimal_integer_string s \<longleftrightarrow> integer_part s"
  by (cases s) (auto simp: is_non_negative_decimal_integer_string_def integer_part_def digit_run_def)

lemma decimal_iff:
  "is_decimal_integer_string s \<longleftrightarrow>
     integer_part s \<or> (\<exists>ds. s = CHR ''-'' # ds \<and> digit_run ds \<and> hd ds \<noteq> CHR ''0'')"
  by (cases s) (auto simp: is_decimal_integer_string_def integer_part_def digit_run_def Let_def)

lemma dec_int_not_minus: "integer_part ds \<Longrightarrow> ds \<noteq> CHR ''-'' # r"
  using integer_part_head [of ds] by auto

lemma decimal_text: "is_decimal_integer_string s \<longleftrightarrow> (\<exists>z. s = dec_int z)"
proof
  assume "is_decimal_integer_string s"
  then consider "integer_part s" | ds where "s = CHR ''-'' # ds" "digit_run ds" "hd ds \<noteq> CHR ''0''"
    by (auto simp: decimal_iff)
  then show "\<exists>z. s = dec_int z"
  proof cases
    case 1
    then have "s = dec_int (int (dec_val s))" by (simp add: dec_int_def dec_nat_dec_val)
    then show ?thesis ..
  next
    case 2
    then have "s = dec_int (- int (dec_val ds))"
      using dec_nat_dec_val_pos [of ds] by (simp add: dec_int_def)
    then show ?thesis ..
  qed
next
  assume "\<exists>z. s = dec_int z"
  then show "is_decimal_integer_string s"
    using dec_nat_integer dec_nat_all_digits dec_nat_head
    by (auto simp: decimal_iff dec_int_def)
qed

lemma dec_int_inj: "dec_int a = dec_int b \<longleftrightarrow> a = b"
proof -
  have "dec_val (dec_nat n) = n" for n by (rule dec_val_dec_nat)
  then have inj: "dec_nat m = dec_nat n \<longleftrightarrow> m = n" for m n by metis
  show ?thesis
    using dec_int_not_minus [OF dec_nat_integer]
    by (auto simp: dec_int_def inj dest: sym)
qed

lemma parse_i128_dec_int:
  "parse_i128 (dec_int z) =
     (if z > 2 ^ 127 - 1 then Inl ''number too large to fit in target type''
      else if z < - (2 ^ 127) then Inl ''number too small to fit in target type''
      else Inr (word_of_int z))"
proof -
  obtain d ds where d: "dec_nat (nat z) = d # ds" "is_digit d"
    using integer_part_head [OF dec_nat_integer [of "nat z"]] by blast
  then have "d \<noteq> CHR ''-''" by auto
  have v: "dec_val (d # ds) = nat z" using dec_val_dec_nat [of "nat z"] d(1) by simp
  show ?thesis
    using d v \<open>d \<noteq> CHR ''-''\<close> by (cases "z < 0") (simp_all add: parse_i128_def dec_int_def Let_def dec_val_dec_nat)
qed

text \<open>
  A string is accepted as a decimal integer exactly if it is the decimal form of an integer,
  so no two accepted strings denote the same integer.
\<close>

theorem decimal_string_iff:
  "is_decimal_integer_string s \<longleftrightarrow> (\<exists>!z. s = dec_int z)"
  using dec_int_inj by (auto simp: decimal_text)

text \<open>
  The 128-bit conversions are inverse to each other: a string converts to a number exactly
  if it is that number's decimal form, signed and unsigned, at the full width.
\<close>

theorem decimal_string_conversions_inverse:
  "(decimal_string_to_i128 s = Inr a \<longleftrightarrow> s = i128_to_decimal_string a) \<and>
   (non_negative_decimal_string_to_u128 s = Inr b \<longleftrightarrow> s = u128_to_non_negative_decimal_string b)"
proof
  have rng: "- (2 ^ 127) \<le> sint a" "sint a \<le> 2 ^ 127 - 1"
    using sint_ge [of a] sint_lt [of a] by simp_all
  have word_back: "sint (word_of_int z :: u128) = z" if "- (2 ^ 127) \<le> z" "z \<le> 2 ^ 127 - 1" for z
    using that by (simp add: sint_sbintrunc' signed_take_bit_int_eq_self)
  show "decimal_string_to_i128 s = Inr a \<longleftrightarrow> s = i128_to_decimal_string a"
  proof
    assume a: "decimal_string_to_i128 s = Inr a"
    then obtain z where "s = dec_int z"
      by (auto simp: decimal_string_to_i128_def assert_decimal_integer_string_def decimal_text split: if_splits)
    with a word_back [of z] show "s = i128_to_decimal_string a"
      by (auto simp: decimal_string_to_i128_def assert_decimal_integer_string_def map_err_def
          parse_i128_dec_int i128_to_decimal_string_def split: if_splits)
  next
    assume "s = i128_to_decimal_string a"
    then show "decimal_string_to_i128 s = Inr a"
      using rng by (auto simp: decimal_string_to_i128_def assert_decimal_integer_string_def map_err_def
          parse_i128_dec_int i128_to_decimal_string_def decimal_text)
  qed
  show "non_negative_decimal_string_to_u128 s = Inr b \<longleftrightarrow> s = u128_to_non_negative_decimal_string b"
  proof
    assume b: "non_negative_decimal_string_to_u128 s = Inr b"
    then have "integer_part s" "dec_val s < 2 ^ 128" "b = of_nat (dec_val s)"
      by (auto simp: non_negative_decimal_string_to_u128_def map_err_def parse_u128_def
          assert_non_negative_decimal_integer_string_def non_negative_iff split: if_splits)
    then show "s = u128_to_non_negative_decimal_string b"
      by (simp add: u128_to_non_negative_decimal_string_def to_string_def unat_of_nat_small dec_nat_dec_val)
  next
    assume "s = u128_to_non_negative_decimal_string b"
    then show "non_negative_decimal_string_to_u128 s = Inr b"
      using unsigned_less [where w = b]
      by (simp add: non_negative_decimal_string_to_u128_def map_err_def parse_u128_def
          assert_non_negative_decimal_integer_string_def non_negative_iff dec_nat_integer
          u128_to_non_negative_decimal_string_def to_string_def dec_val_dec_nat)
  qed
qed

text \<open>
  The scanner has no depth limit, and it runs before the reader of \<open>serde_json\<close> and before
  the validator with their limits of 128.
\<close>

fun nested :: "nat \<Rightarrow> json" where
  "nested 0 = JArray []"
| "nested (Suc n) = JArray [nested n]"

lemma nested_text: "canonical_json_string S (nested n) = Inr (replicate (Suc n) (CHR ''['') @ replicate (Suc n) (CHR '']''))"
  by (induction n) (simp_all add: replicate_append_same)

lemma nested_scans: "scans_as S True (replicate (Suc n) (CHR ''['') @ replicate (Suc n) (CHR '']''))"
proof (induction n)
  case 0
  show ?case using array_scans [of S "[]" "[]"] by simp
next
  case (Suc n)
  let ?t = "replicate (Suc n) (CHR ''['') @ replicate (Suc n) (CHR '']'')"
  have "''['' @ join_with '','' [?t] @ '']'' = replicate (Suc (Suc n)) (CHR ''['') @ replicate (Suc (Suc n)) (CHR '']'')"
    by (simp add: replicate_append_same)
  with array_scans [of S "[True]" "[?t]"] Suc show ?case by simp
qed

lemma nested_too_deep: "depth \<le> 128 \<Longrightarrow> 128 < depth + n \<Longrightarrow> \<exists>p. validate_value S (nested n) path depth = Inl (too_deep p)"
proof (induction n arbitrary: path depth)
  case (Suc n)
  show ?case
  proof (cases "depth = 128")
    case True
    then show ?thesis by (cases n) auto
  next
    case False
    with Suc.prems Suc.IH [of "Suc depth" "index_path path 0"]
    obtain p where "validate_value S (nested n) (index_path path 0) (Suc depth) = Inl (too_deep p)" by auto
    with Suc.prems show ?thesis by (auto simp del: validate_value.simps simp: validate_value.simps [of S "JArray [nested n]"])
  qed
qed simp

text \<open>
  The recursion of the scanner is not bounded by the depth the codec allows: for every
  \<open>n\<close>, \<open>n\<close> nested arrays pass the scanner, which descends through all of them, although the
  validator refuses every value nested deeper than 128.
\<close>

theorem scanner_depth_unbounded:
  "assert_no_duplicate_json_object_keys S
     (replicate (Suc n) (CHR ''['') @ replicate (Suc n) (CHR '']'')) = Some (Inr ()) \<and>
   (\<exists>p. strict_canonical_json_bytes S (nested (129 + n)) = Inl (too_deep p))"
proof
  show "assert_no_duplicate_json_object_keys S
      (replicate (Suc n) (CHR ''['') @ replicate (Suc n) (CHR '']'')) = Some (Inr ())"
    using scan_whole_text [OF nested_scans] by (simp only:)
  obtain p where "validate_value S (nested (129 + n)) ''$'' 0 = Inl (too_deep p)"
    using nested_too_deep [of 0 "129 + n" S "''$''"] by auto
  then show "\<exists>p. strict_canonical_json_bytes S (nested (129 + n)) = Inl (too_deep p)"
    by (auto simp: strict_canonical_json_bytes_def stable_json_string_def
        validate_strict_json_value_def simp del: validate_value.simps)
qed

subsection \<open>A concrete instance\<close>

fun json_escape :: "string \<Rightarrow> string" where
  "json_escape [] = []"
| "json_escape (c # s) =
     (if c = CHR 0x22 \<or> c = CHR 0x5C then CHR 0x5C # c # json_escape s else c # json_escape s)"

fun json_unescape :: "string \<Rightarrow> string" where
  "json_unescape [] = []"
| "json_unescape [c] = []"
| "json_unescape (c # d # s) =
     (if c = CHR 0x5C then d # json_unescape s else c # json_unescape (d # s))"

definition demo_serde :: "(string \<Rightarrow> string + json) \<Rightarrow> serde" where
  "demo_serde parse = \<lparr>str_to_json = \<lambda>s. Inr (CHR 0x22 # json_escape s @ [CHR 0x22]),
     str_from_json = \<lambda>t. Inr (json_unescape (tl t)), value_from_json = parse,
     float_text = \<lambda>f. ''0.5'', str_debug = \<lambda>s. s\<rparr>"

lemma unescape_escape: "json_unescape (json_escape s @ [CHR 0x22]) = s"
proof (induction s)
  case (Cons c s)
  have "\<exists>d r. json_escape s @ [CHR 0x22] = d # r" by (cases "json_escape s") auto
  with Cons show ?case by auto
qed simp

lemma string_body_escape: "string_body (json_escape s)"
  by (induction s) auto

lemma escape_high:
  "\<forall>c \<in> set a. 128 \<le> (of_char c :: nat) \<Longrightarrow> json_escape (a @ s) = a @ json_escape s"
  by (induction a) auto

lemma utf8_first_wide:
  "utf8_first bs = Inr w \<Longrightarrow> w \<noteq> 1 \<Longrightarrow> \<forall>b \<in> set (take w bs). 128 \<le> b"
  by (auto simp: utf8_first_def Let_def utf8_width_def utf8_second_def utf8_cont_def
      split: list.splits if_splits)

lemma utf8_first_one: "utf8_first bs = Inr 1 \<Longrightarrow> \<exists>a r. bs = a # r \<and> a < 128"
  by (auto simp: utf8_first_def Let_def utf8_width_def split: list.splits if_splits)

lemma utf8_first_take:
  "utf8_first bs = Inr w \<Longrightarrow> utf8_first (take w bs) = Inr w"
  by (auto simp: utf8_first_def Let_def utf8_width_def split: list.splits if_splits)

lemma utf8_escape: "utf8_ok s \<Longrightarrow> utf8_ok (json_escape s)"
proof (induction s rule: length_induct)
  case (1 s)
  show ?case
  proof (cases "s = []")
    case False
    define bs where "bs = map (of_char :: char \<Rightarrow> nat) s"
    obtain w where w: "utf8_first bs = Inr w" "from_utf8_at (drop w bs) w = Inr ()"
      using 1(2) False
      by (auto simp: from_utf8_def bs_def from_utf8_at.simps [of "map of_char s"] split: sum.splits)
    define a where "a = take w s"
    define r where "r = drop w s"
    have s: "s = a @ r" by (simp add: a_def r_def)
    have wl: "w \<le> length bs" "0 < w" using utf8_first_append [OF w(1)] utf8_first_pos [OF w(1)] by auto
    have "from_utf8_at (drop w bs) 0 = Inr ()" using w(2) by (rule from_utf8_at_shift)
    then have "utf8_ok r" by (simp add: from_utf8_def r_def bs_def drop_map)
    moreover have "length r < length s" using wl False by (simp add: r_def)
    ultimately have r: "utf8_ok (json_escape r)" using 1(1) by blast
    show ?thesis
    proof (cases "w = 1")
      case True
      then obtain c where c: "a = [c]" "(of_char c :: nat) < 128"
        using utf8_first_one [of bs] w(1) by (cases s) (auto simp: bs_def a_def)
      then show ?thesis using r by (simp add: s utf8_Cons)
    next
      case wide: False
      have "\<forall>c \<in> set a. 128 \<le> (of_char c :: nat)"
        using utf8_first_wide [OF w(1) wide] by (simp add: bs_def a_def take_map)
      moreover have "utf8_ok a"
      proof -
        have "utf8_first (map of_char a) = Inr w"
          using utf8_first_take [OF w(1)] by (simp add: a_def bs_def take_map)
        moreover have "length a = w" using wl by (simp add: a_def bs_def)
        ultimately show ?thesis
          using wl(2) by (auto simp: from_utf8_def from_utf8_at.simps)
      qed
      ultimately show ?thesis using r by (simp add: s escape_high utf8_append)
    qed
  qed simp
qed

lemma demo_float: "json_number_text ''0.5''"
  unfolding json_number_text_def integer_part_def fraction_part_def exponent_part_def digit_run_def
  by (rule exI [of _ "[]"], rule exI [of _ "''0''"], rule exI [of _ "''.5''"], rule exI [of _ "[]"])
    (simp add: is_digit_def)

lemma demo_serde_ok: "serde_ok (demo_serde parse)"
  unfolding serde_ok_def demo_serde_def
  using demo_float string_body_escape unescape_escape utf8_escape
  by (auto simp: quoted_text_def utf8_Cons utf8_append ascii_utf8 ascii_def)

definition demo_json :: json where
  "demo_json = JObject [(''a'', JArray [JNull, JNumber (PosInt 1)]), (''b'', JString [CHR 0x22])]"

definition demo_json_text :: string where
  "demo_json_text = ''{'' @ [CHR 0x22, CHR ''a'', CHR 0x22] @ '':[null,1],'' @
     [CHR 0x22, CHR ''b'', CHR 0x22, CHR '':'', CHR 0x22, CHR 0x5C, CHR 0x22, CHR 0x22] @ ''}''"

definition demo_reader :: "string \<Rightarrow> string + json" where
  "demo_reader t = (if t = demo_json_text then Inr demo_json else Inl ''unexpected text'')"

lemma dec_int_1: "dec_int 1 = ''1''"
  by code_simp

lemma demo_order: "sort_members [(''a'', v), (''b'', w)] = [(''a'', v), (''b'', w)]"
  by (simp add: sort_members_def encode_utf16_def utf16_units_def)

lemma demo_canonical: "canonical_json_string (demo_serde p) demo_json = Inr demo_json_text"
  by (simp add: demo_json_def demo_order demo_json_text_def demo_serde_def string_json_def
      canonical_number_string_def dec_int_1)

lemma demo_stable: "strict_canonical_json_bytes (demo_serde p) demo_json = Inr demo_json_text"
  using demo_canonical [of p] dec_int_not_zero_text [of 1] safe_integer(1) [of 1]
  by (simp add: strict_canonical_json_bytes_def stable_json_string_def validate_strict_json_value_def
      demo_json_def JS_MAX_SAFE_INTEGER_def)

lemma demo_strings: "strings_ok demo_json" "unique_keys demo_json" "normalize demo_json = demo_json"
  by (simp_all add: demo_json_def ascii_utf8 ascii_def)

theorem scanner_accepts_iff_unique_keys_witness:
  "assert_no_duplicate_json_object_keys (demo_serde demo_reader) demo_json_text = Some (Inr ())"
  using scanner_accepts_iff_unique_keys [OF demo_serde_ok demo_strings(1) demo_canonical] demo_strings(2)
  by blast

theorem strict_codec_roundtrip_witness:
  "strict_json_decode (demo_serde demo_reader) demo_json_text = Some (Inr demo_json)"
proof -
  have "value_from_json (demo_serde demo_reader) demo_json_text = Inr (normalize demo_json)"
    by (simp add: demo_serde_def demo_reader_def demo_strings)
  from strict_codec_roundtrip [OF demo_serde_ok demo_strings(1,2) demo_stable this]
  show ?thesis by (simp add: demo_strings)
qed

end
