(* ===== verification/CollectionRestore.thy ===== *)
theory CollectionRestore
  imports CollectionReplay JsonCodec
begin

text \<open>
  A persisted list or log: its changes are appended to an append log in the in-memory store, one
  frame per change, and a snapshot frame may hold the contents reached after some of them. The
  loaders of \<open>storage.rs\<close> then return the current contents, if the strict checks of the code
  accepted what was written.
\<close>

definition frame_of :: "collection_kind \<Rightarrow> ('c \<Rightarrow> json) \<Rightarrow> 'c \<Rightarrow> change_frame" where
  "frame_of kind enc c =
     \<lparr>cf_format = CHANGE_FORMAT, cf_version = FRAME_VERSION, cf_kind = kind, cf_change = enc c\<rparr>"

text \<open>The log after the changes \<open>cs\<close> have been appended to it, in order.\<close>

definition persisted :: "string \<Rightarrow> u64 \<Rightarrow> collection_kind \<Rightarrow> ('c \<Rightarrow> json) \<Rightarrow> 'c list \<Rightarrow> change_frame memory_kv" where
  "persisted p i kind enc cs =
     foldl (log_step (memory_log p)) (memory_kv_new i) (map (\<lambda>c. LogAppend (frame_of kind enc c)) cs)"

text \<open>
  What the snapshot store holds: nothing (then the collection started empty and no change is
  skipped), or a frame that the checks of the code accept, with the contents after the first \<open>n\<close>
  changes.
\<close>

definition snapshot_after ::
  "serde \<Rightarrow> collection_kind \<Rightarrow> (json \<Rightarrow> 'a list storage_result) \<Rightarrow> snapshot_frame option \<Rightarrow> nat \<Rightarrow> 'a list \<Rightarrow> bool" where
  "snapshot_after S kind des found n contents \<longleftrightarrow>
     (case found of
        None \<Rightarrow> n = 0 \<and> contents = []
      | Some f \<Rightarrow> assert_snapshot_frame S f = Inr () \<and> sf_kind f = kind \<and>
          sf_change_cursor f = int n - 1 \<and> des (sf_snapshot f) = Inr contents)"

text \<open>
  A change can be logged if the writer's constructor of change frames accepts it, and it is read
  back as it was written.
\<close>

definition loggable ::
  "serde \<Rightarrow> collection_kind \<Rightarrow> ('c \<Rightarrow> json) \<Rightarrow> (json \<Rightarrow> 'c storage_result) \<Rightarrow> 'c \<Rightarrow> bool" where
  "loggable S kind enc de c \<longleftrightarrow>
     collection_change_frame S kind (enc c) = Inr (frame_of kind enc c) \<and> de (enc c) = Inr c"

lemma loggable_accepted: "loggable S kind enc de c \<Longrightarrow> assert_change_frame S (frame_of kind enc c) = Inr ()"
  by (auto simp: loggable_def collection_change_frame_def frame_of_def Let_def rbind_eq_Inr)

lemma foldl_log_spec_appends: "foldl log_spec xs (map (\<lambda>c. LogAppend (f c)) cs) = xs @ map f cs"
  by (induction cs arbitrary: xs) simp_all

lemma persisted_holds:
  assumes "length cs \<le> 2 ^ 63"
  shows "memory_ok (persisted p i kind enc cs) \<and>
    log_holds (memory_view (persisted p i kind enc cs)) p (map (frame_of kind enc) cs)"
  using memory_log_run [OF memory_ok_new log_holds_empty, of "map (\<lambda>c. LogAppend (frame_of kind enc c)) cs"] assms
  by (simp add: persisted_def foldl_log_spec_appends)

text \<open>The cursor a snapshot after \<open>n\<close> changes leaves.\<close>

definition cursor_at :: "nat \<Rightarrow> u64 option" where
  "cursor_at n = (if n = 0 then None else Some (of_nat (n - 1)))"

lemma small_u64: "n < 2 ^ 64 \<Longrightarrow> unat (of_nat n :: u64) = n"
  by (rule unat_of_nat_small) simp

lemma entries_behind:
  assumes "length xs \<le> 2 ^ 63" "n \<le> length xs"
  shows "filter (\<lambda>e. case cursor_at n of None \<Rightarrow> True | Some a \<Rightarrow> a < ae_seq e) (log_entries p xs) =
    map (\<lambda>j. log_entry p xs (of_nat j)) [n..<length xs]"
proof (cases n)
  case (Suc m)
  have keep: "(of_nat m < (of_nat j :: u64)) = (n \<le> j)" if "j < length xs" for j
    using that assms Suc by (simp add: word_less_nat_alt small_u64 Suc_le_eq)
  have "filter (\<lambda>j. n \<le> j) [0..<length xs] = [n..<length xs]"
    using assms(2) by (induction xs) auto
  moreover have "filter (\<lambda>j. of_nat m < (of_nat j :: u64)) [0..<length xs] = filter (\<lambda>j. n \<le> j) [0..<length xs]"
    by (rule filter_cong) (use keep in auto)
  ultimately show ?thesis
    using Suc by (simp add: log_entries_def seqs_below_def filter_map o_def log_entry_def cursor_at_def)
qed (simp add: cursor_at_def log_entries_def seqs_below_def)

lemma fold_entries_frames:
  assumes ok: "\<And>c. c \<in> set (drop n cs) \<Longrightarrow> assert_change_frame S (frame_of kind enc c) = Inr ()"
    and "length cs \<le> 2 ^ 63"
  shows "n \<le> length cs \<Longrightarrow>
    fold_entries S kind f v (cursor_at n) (of_nat n)
      (map (\<lambda>j. log_entry p (map (frame_of kind enc) cs) (of_nat j)) [n..<length cs]) =
    rbind (fold_results f v (map (frame_of kind enc) (drop n cs))) (\<lambda>v'. Inr (v', cursor_at (length cs)))"
  using ok
proof (induction "length cs - n" arbitrary: n v)
  case (Suc d)
  then have n: "n < length cs" by simp
  have un: "unat (of_nat n :: u64) = n" using n assms(2) by (intro small_u64) simp
  have drop: "drop n cs = cs ! n # drop (Suc n) cs" using n by (simp add: Cons_nth_drop_Suc)
  have "checked_add (of_nat n) (1 :: u64) = Some (of_nat (Suc n))"
    using n assms(2) by (simp add: checked_add_def un)
  moreover have "fold_entries S kind f v' (cursor_at (Suc n)) (of_nat (Suc n))
      (map (\<lambda>j. log_entry p (map (frame_of kind enc) cs) (of_nat j)) [Suc n..<length cs]) =
    rbind (fold_results f v' (map (frame_of kind enc) (drop (Suc n) cs))) (\<lambda>v'. Inr (v', cursor_at (length cs)))" for v'
    using Suc.hyps(1) [of "Suc n" v'] Suc.hyps(2) Suc.prems(2) n by (simp add: drop)
  moreover have "assert_change_frame S (frame_of kind enc (cs ! n)) = Inr ()"
    using Suc.prems(2) by (simp add: drop)
  moreover have "cf_kind (frame_of kind enc (cs ! n)) = kind" by (simp add: frame_of_def)
  ultimately show ?case
    using n
    by (cases "f v (frame_of kind enc (cs ! n))")
      (simp_all add: upt_conv_Cons drop log_entry_def un cursor_at_def del: upt_Suc of_nat_Suc)
qed simp

lemma cursor_or_minus_one_at: "n \<le> 2 ^ 63 \<Longrightarrow> cursor_or_minus_one (cursor_at n) = Inr (int n - 1)"
  by (cases n) (simp_all add: cursor_or_minus_one_def cursor_at_def seq_to_snapshot_cursor_def small_u64)

lemma expected_after: "n \<le> 2 ^ 63 \<Longrightarrow>
    (case cursor_at n of None \<Rightarrow> 0 | Some seq \<Rightarrow> saturating_add seq 1) = (of_nat n :: u64)"
  by (cases n) (simp_all add: cursor_at_def saturating_add_def checked_add_def small_u64)

lemma load_snapshot_after:
  assumes "resolve_collection_snapshot_key opts = Inr key" "get key = Inr found"
    "snapshot_after S kind des found n v" "n \<le> 2 ^ 63"
  shows "\<exists>s. load_collection_snapshot S get des opts kind = Inr (s, cursor_at n, found \<noteq> None) \<and>
    (case s of None \<Rightarrow> [] | Some s \<Rightarrow> s) = v"
proof (cases found)
  case (Some f)
  have "(of_int (int n - 1) :: u64) = of_nat (n - 1)" if "0 < n"
    using that by (cases n) simp_all
  with Some assms show ?thesis
    by (auto simp: load_collection_snapshot_def snapshot_after_def cursor_at_def)
qed (use assms in \<open>auto simp: load_collection_snapshot_def snapshot_after_def cursor_at_def\<close>)

text \<open>Loading is the fold of the changes behind the snapshot over its contents.\<close>

lemma load_replays:
  assumes ok: "\<And>c. c \<in> set (drop n cs) \<Longrightarrow> assert_change_frame S (frame_of kind enc c) = Inr ()"
    and key: "resolve_collection_snapshot_key opts = Inr key" "get key = Inr found"
    and log: "lo_change_log opts = Some (lg_read (memory_log p) (persisted p i kind enc cs))" "length cs \<le> 2 ^ 63"
    and snap: "snapshot_after S kind des found n v" "n \<le> length cs"
    and fold: "fold_results f v (map (frame_of kind enc) (drop n cs)) = Inr v'"
    and check: "\<And>l. check l v = Inr ()" "\<And>l. check l v' = Inr ()"
  shows "\<exists>r. load_collection_state S get des check name kind f opts = Inr r \<and>
    rs_state r = v' \<and> rs_kind r = kind \<and> rs_changes_applied r = length cs - n \<and>
    rs_snapshot_found r = (found \<noteq> None) \<and> rs_changes_cursor r = int (length cs) - 1"
proof -
  have n: "n \<le> 2 ^ 63" using log(2) snap(2) by simp
  obtain s where s: "load_collection_snapshot S get des opts kind = Inr (s, cursor_at n, found \<noteq> None)"
      "(case s of None \<Rightarrow> [] | Some s \<Rightarrow> s) = v"
    using load_snapshot_after [where get = get, OF key snap(1) n] by blast
  let ?es = "map (\<lambda>j. log_entry p (map (frame_of kind enc) cs) (of_nat j)) [n..<length cs]"
  have "lg_read (memory_log p) (persisted p i kind enc cs) \<lparr>lr_after = cursor_at n, lr_limit = None\<rparr> = Inr ?es"
    using mem.read_log [OF persisted_holds [THEN conjunct1] persisted_holds [THEN conjunct2], OF log(2,2),
        of p i kind enc] entries_behind [of "map (frame_of kind enc) cs" n p] log(2) snap(2)
    by (simp add: memory_log_def append_log_storage_def)
  moreover have "fold_entries S kind f v (cursor_at n) (of_nat n) ?es = Inr (v', cursor_at (length cs))"
    by (simp add: fold_entries_frames [OF ok log(2) snap(2)] fold del: map_map)
  ultimately show ?thesis
    using s check log cursor_or_minus_one_at [OF n] cursor_or_minus_one_at [OF log(2)] expected_after [OF n]
    by (simp add: load_collection_state_def fold_collection_changes_def restore_state_def)
qed

lemma fold_frames:
  assumes "\<And>c. c \<in> set cs \<Longrightarrow> de (enc c) = Inr c"
  shows "fold_results (\<lambda>v fr. rbind (de (cf_change fr)) (g v)) v (map (frame_of kind enc) cs) = fold_results g v cs"
  using assms by (induction cs arbitrary: v) (simp_all add: frame_of_def)

text \<open>
  C16. A persisted list is restored exactly. Let a list be created, changed by any operations, and
  a snapshot be stored (or the list have started empty without one); let it be changed further,
  every emitted change being appended to the change log. If the checks of the code accept the
  snapshot frame and the change frames, changes are read back as written, and popped values have
  strict canonical bytes, then \<open>load_reactive_list_state\<close> succeeds and returns the current
  contents, and \<open>restore_reactive_list\<close> with the same capacity rebuilds the list (with a fresh
  version), for every capacity and every mix of appends, insertions, pops, trims and clears (at
  most \<open>2 ^ 63\<close> changes), having applied exactly the changes behind the snapshot.
\<close>

theorem list_restored:
  assumes "resolve_collection_snapshot_key opts = Inr key" "get key = Inr found"
    and "rl_new initial max_size = Some l" "run_ops list_step l ops = Some (l1, cs1)"
    and "run_ops list_step l1 ops' = Some (l2, cs2)" "length (cs1 @ cs2) \<le> 2 ^ 63"
    and "snapshot_after S ReactiveListKind des found (length cs1) (lb_buf (rl_backend l1))"
    and "lo_change_log opts = Some (lg_read (memory_log p) (persisted p i ReactiveListKind enc (cs1 @ cs2)))"
    and "\<And>c. c \<in> set cs2 \<Longrightarrow> loggable S ReactiveListKind enc de c"
    and "\<And>i v. ListPop i v \<in> set cs2 \<Longrightarrow> \<exists>b. strict_json_identity S tv v = Inr b"
  shows "\<exists>r. load_reactive_list_state S get tv des de opts = Inr r \<and>
    rs_state r = lb_buf (rl_backend l2) \<and> rs_changes_applied r = length cs2 \<and>
    restore_reactive_list r max_size =
      Inr (Some (l2\<lparr>rl_backend := \<lparr>lb_buf = lb_buf (rl_backend l2), lb_version = 0\<rparr>\<rparr>)) \<and>
    rs_snapshot_found r = (found \<noteq> None) \<and> rs_changes_cursor r = int (length (cs1 @ cs2)) - 1"
proof -
  have "list_ok l"
    using assms(3) by (auto simp: rl_new_def lb_new_def bind_eq_Some_conv list_ok_def list_of_def
        split: if_splits dest: within_trim)
  then have "list_ok l1" using rlist.replay_run [OF _ refl assms(4)] by blast
  then have l2: "list_ok l2" "fold_results (apply_list_change same_value) (list_of l1) cs2 = Inr (list_of l2)"
    using rlist.replay_run [OF _ refl assms(5)] by simp_all
  have "rl_max_size l2 = max_size"
    using run_list_max_size [OF assms(4)] run_list_max_size [OF assms(5)] assms(3)
    by (auto simp: rl_new_def bind_eq_Some_conv split: if_splits)
  then have new: "rl_new (lb_buf (rl_backend l2)) max_size =
      Some (l2\<lparr>rl_backend := \<lparr>lb_buf = lb_buf (rl_backend l2), lb_version = 0\<rparr>\<rparr>)"
    using l2(1) within_no_trim [of max_size "lb_buf (rl_backend l2)"]
    by (simp add: rl_new_def lb_new_def list_ok_def list_of_def)
  have log: "de (enc c) = Inr c" "assert_change_frame S (frame_of ReactiveListKind enc c) = Inr ()" if "c \<in> set cs2" for c
    using assms(9) [OF that] by (simp_all add: loggable_accepted) (simp add: loggable_def)
  have fold: "fold_results (fold_list_change S tv de) (lb_buf (rl_backend l1))
      (map (frame_of ReactiveListKind enc) (drop (length cs1) (cs1 @ cs2))) = Inr (lb_buf (rl_backend l2))"
    using fold_frames [of cs2 de enc "apply_list_change (strict_json_equal S tv)" "list_of l1" ReactiveListKind]
      log(1) replay_bytes [OF l2(2) assms(10)]
    by (simp add: list_of_def fold_list_change_def [abs_def])
  have ok: "assert_change_frame S (frame_of ReactiveListKind enc c) = Inr ()" if "c \<in> set (drop (length cs1) (cs1 @ cs2))" for c
    using that log(2) by simp
  from load_replays [where get = get and check = no_check and name = "''reactiveList''", OF ok assms(1,2,8,6,7) _ fold]
  show ?thesis by (auto simp: load_reactive_list_state_def no_check_def restore_reactive_list_def new)
qed

text \<open>Concrete frames: what the strict check asks for is the range of their numbers.\<close>

lemma validate_shapes:
  assumes "d \<le> 128"
  shows "validate_value S (JObject m) path d = validate_members S m path d"
    "validate_value S (JArray vs) path d = validate_items S vs path 0 d"
    "validate_value S (JString s) path d = Inr ()" "validate_value S JNull path d = Inr ()"
  using assms by simp_all

lemma validate_int_json: "\<bar>z\<bar> \<le> JS_MAX_SAFE_INTEGER \<Longrightarrow> d \<le> 128 \<Longrightarrow> validate_value S (int_json z) path d = Inr ()"
  using safe_integer [of z S path] by (auto simp: int_json_def not_less)

lemma demo_text: "\<exists>t. canonical_json_string (demo_serde p) v = Inr t"
proof (induction "demo_serde p" v rule: canonical_json_string.induct)
  case (6 vs)
  then have "\<exists>ts. collect_results (canonical_json_string (demo_serde p)) vs = Inr ts \<and> list_all2 (\<lambda>_ _. True) vs ts"
    by (intro collect_results_all2) simp
  then show ?case by auto
next
  case (7 m)
  let ?f = "\<lambda>kv. rbind (string_json (demo_serde p) (fst kv))
      (\<lambda>k. rbind (canonical_json_string (demo_serde p) (snd kv)) (\<lambda>v. Inr (k @ '':'' @ v)))"
  have "\<exists>t. ?f kv = Inr t" if "kv \<in> set (sort_members m)" for kv
    using 7 that by (fastforce simp: string_json_def demo_serde_def)
  then have "\<exists>ts. collect_results ?f (sort_members m) = Inr ts \<and> list_all2 (\<lambda>_ _. True) (sort_members m) ts"
    by (intro collect_results_all2) simp
  then show ?case by auto
qed (simp_all add: string_json_def demo_serde_def)

lemma demo_bytes:
  "validate_value (demo_serde p) v ''$'' 0 = Inr () \<Longrightarrow> \<exists>b. strict_bytes (demo_serde p) v = Inr b"
  using demo_text [of p v]
  by (auto simp: strict_bytes_def strict_canonical_json_bytes_def stable_json_string_def validate_strict_json_value_def)

lemma demo_change_frame:
  assumes "validate_value (demo_serde p) (enc c) ''$.change'' 1 = Inr ()"
  shows "collection_change_frame (demo_serde p) kind (enc c) = Inr (frame_of kind enc c)"
proof -
  have "validate_value (demo_serde p) (change_frame_json (frame_of kind enc c)) ''$'' 0 = Inr ()"
    using assms by (simp add: change_frame_json_def frame_of_def FRAME_VERSION_def member_path_def
        validate_int_json validate_shapes JS_MAX_SAFE_INTEGER_def
        del: validate_value.simps)
  from demo_bytes [OF this] show ?thesis
    by (auto simp: collection_change_frame_def assert_change_frame_def frame_of_def Let_def)
qed

definition demo_snapshot :: "collection_kind \<Rightarrow> snapshot_frame" where
  "demo_snapshot kind = \<lparr>sf_format = SNAPSHOT_FORMAT, sf_version = FRAME_VERSION, sf_kind = kind,
     sf_change_cursor = 0, sf_snapshot = JArray [JString ''a'']\<rparr>"

lemma demo_snapshot_frame: "assert_snapshot_frame (demo_serde p) (demo_snapshot kind) = Inr ()"
proof -
  have "validate_value (demo_serde p) (snapshot_frame_json (demo_snapshot kind)) ''$'' 0 = Inr ()"
    by (simp add: snapshot_frame_json_def demo_snapshot_def FRAME_VERSION_def member_path_def
        validate_int_json validate_shapes JS_MAX_SAFE_INTEGER_def
        del: validate_value.simps)
  from demo_bytes [OF this] show ?thesis
    by (auto simp: assert_snapshot_frame_def demo_snapshot_def)
qed

fun demo_items :: "json \<Rightarrow> string list storage_result" where
  "demo_items (JArray [JString v]) = Inr [v]"
| "demo_items _ = Inl (Backend ''unexpected snapshot'')"

fun demo_change :: "string list_change \<Rightarrow> json" where
  "demo_change (ListAppend v) = JArray [JNull, JString v]"
| "demo_change (ListTrimHead n) = JArray [int_json (int n)]"
| "demo_change (ListPop i v) = JArray [int_json (int i), JString v]"
| "demo_change _ = JNull"

fun demo_read :: "json \<Rightarrow> string list_change storage_result" where
  "demo_read (JArray [JNull, JString v]) = Inr (ListAppend v)"
| "demo_read (JArray [JNumber (PosInt n)]) = Inr (ListTrimHead (unat n))"
| "demo_read (JArray [JNumber (PosInt i), JString v]) = Inr (ListPop (unat i) v)"
| "demo_read _ = Inl (Backend ''unexpected change'')"

definition demo_changes :: "string list_change list" where
  "demo_changes = [ListAppend ''b'', ListAppend ''c'', ListTrimHead 1, ListPop 1 ''c'']"

lemma demo_loggable:
  assumes "c \<in> set demo_changes"
  shows "loggable (demo_serde p) ReactiveListKind demo_change demo_read c"
proof -
  note shapes = validate_int_json validate_shapes JS_MAX_SAFE_INTEGER_def
  have "validate_value (demo_serde p) (demo_change c) ''$.change'' 1 = Inr ()"
    using assms by (auto simp: demo_changes_def shapes simp del: validate_value.simps)
  moreover have "demo_read (demo_change c) = Inr c"
    using assms by (auto simp: demo_changes_def int_json_def)
  ultimately show ?thesis by (simp add: loggable_def demo_change_frame del: validate_value.simps)
qed

theorem list_restored_witness:
  "\<exists>r. load_reactive_list_state (demo_serde demo_reader) (\<lambda>_. Inr (Some (demo_snapshot ReactiveListKind)))
      (Inr \<circ> JString) demo_items demo_read
      \<lparr>lo_storage_prefix = Some ''items'', lo_snapshot_key = None,
        lo_change_log = Some (lg_read (memory_log ''items/changes'')
          (persisted ''items/changes'' 0 ReactiveListKind demo_change (ListAppend ''a'' # demo_changes)))\<rparr> = Inr r \<and>
    rs_state r = [''b''] \<and> rs_changes_applied r = 4"
proof -
  let ?l = "\<lambda>buf v. \<lparr>rl_backend = \<lparr>lb_buf = buf, lb_version = v\<rparr>, rl_max_size = Some 2\<rparr>"
  let ?S = "demo_serde demo_reader"
  let ?opts = "\<lparr>lo_storage_prefix = Some ''items'', lo_snapshot_key = None,
        lo_change_log = Some (lg_read (memory_log ''items/changes'')
          (persisted ''items/changes'' 0 ReactiveListKind demo_change ([ListAppend ''a''] @ demo_changes)))\<rparr>"
  note list_simps = rl_append_def rl_enforce_capacity_def lb_append_def lb_enforce_max_size_def lb_put_def
    trim_head_overflow_def rl_pop_def lb_pop_def normalize_read_index_def remove_at_def
  have key: "resolve_collection_snapshot_key ?opts = Inr ''items/snapshot''"
    by (simp add: resolve_collection_snapshot_key_def collection_snapshot_key_def)
  have new: "rl_new [] (Some 2) = Some (?l [] 0)"
    by (simp add: rl_new_def lb_new_def trim_head_overflow_def)
  have ops1: "run_ops list_step (?l [] 0) [LAppend ''a''] = Some (?l [''a''] 1, [ListAppend ''a''])"
    by (simp add: list_simps)
  have ops2: "run_ops list_step (?l [''a''] 1) [LAppend ''b'', LAppend ''c'', LPop None] =
      Some (?l [''b''] 5, demo_changes)"
    by (simp add: list_simps demo_changes_def)
  have snap: "snapshot_after ?S ReactiveListKind demo_items (Some (demo_snapshot ReactiveListKind))
      (length [ListAppend ''a'']) (lb_buf (rl_backend (?l [''a''] 1)))"
    using demo_snapshot_frame by (simp add: snapshot_after_def) (simp add: demo_snapshot_def)
  have pops: "\<exists>b. strict_json_identity ?S (Inr \<circ> JString) v = Inr b" for v
    using demo_bytes by (simp add: strict_json_identity_def)
  note restored = list_restored [where get = "\<lambda>_. Inr (Some (demo_snapshot ReactiveListKind))" and S = ?S
      and enc = demo_change and de = demo_read, OF key refl new ops1 ops2 _ snap _ demo_loggable pops]
  have "\<exists>r. load_reactive_list_state ?S (\<lambda>_. Inr (Some (demo_snapshot ReactiveListKind))) (Inr \<circ> JString) demo_items
      demo_read ?opts = Inr r \<and> rs_state r = lb_buf (rl_backend (?l [''b''] 5)) \<and> rs_changes_applied r = length demo_changes"
    using restored [of "''items/changes''" 0] by (auto simp: demo_changes_def)
  then show ?thesis by (simp add: demo_changes_def numeral_eq_Suc)
qed

text \<open>
  A persisted log is restored exactly, in the same sense: snapshot plus the later changes give
  the current contents of the log, head trims and capacity included.
\<close>

theorem log_restored:
  assumes "resolve_collection_snapshot_key opts = Inr key" "get key = Inr found"
    and "rg_new initial max_size = Some b" "run_ops rlog_step b ops = Some (b1, cs1)"
    and "run_ops rlog_step b1 ops' = Some (b2, cs2)" "length (cs1 @ cs2) \<le> 2 ^ 63"
    and "snapshot_after S ReactiveLogKind des found (length cs1) (gb_buf b1)"
    and "lo_change_log opts = Some (lg_read (memory_log p) (persisted p i ReactiveLogKind enc (cs1 @ cs2)))"
    and "\<And>c. c \<in> set cs2 \<Longrightarrow> loggable S ReactiveLogKind enc de c"
  shows "\<exists>r. load_reactive_log_state S get des de opts = Inr r \<and>
    rs_state r = gb_buf b2 \<and> rs_changes_applied r = length cs2 \<and>
    restore_reactive_log r max_size = Inr (Some (b2\<lparr>gb_version := 0\<rparr>)) \<and>
    rs_snapshot_found r = (found \<noteq> None) \<and> rs_changes_cursor r = int (length (cs1 @ cs2)) - 1"
proof -
  have "log_ok b"
    using assms(3) by (auto simp: rg_new_def gb_new_def bind_eq_Some_conv log_ok_def
        split: if_splits dest: within_trim)
  then have "log_ok b1" using rlog.replay_run [OF _ refl assms(4)] by blast
  then have b2: "log_ok b2" "fold_results apply_log_change (gb_buf b1) cs2 = Inr (gb_buf b2)"
    using rlog.replay_run [OF _ refl assms(5)] by simp_all
  have "gb_max_size b2 = max_size"
    using run_rlog_max_size [OF assms(4)] run_rlog_max_size [OF assms(5)] assms(3)
    by (auto simp: rg_new_def gb_new_def bind_eq_Some_conv split: if_splits)
  then have new: "rg_new (gb_buf b2) max_size = Some (b2\<lparr>gb_version := 0\<rparr>)"
    using b2(1) within_no_trim [of max_size "gb_buf b2"]
    by (simp add: rg_new_def gb_new_def log_ok_def)
  have log: "de (enc c) = Inr c" "assert_change_frame S (frame_of ReactiveLogKind enc c) = Inr ()" if "c \<in> set cs2" for c
    using assms(9) [OF that] by (simp_all add: loggable_accepted) (simp add: loggable_def)
  have fold: "fold_results (fold_log_change de) (gb_buf b1)
      (map (frame_of ReactiveLogKind enc) (drop (length cs1) (cs1 @ cs2))) = Inr (gb_buf b2)"
    using fold_frames [of cs2 de enc apply_log_change "gb_buf b1" ReactiveLogKind] log(1) b2(2)
    by (simp add: fold_log_change_def [abs_def])
  have ok: "assert_change_frame S (frame_of ReactiveLogKind enc c) = Inr ()" if "c \<in> set (drop (length cs1) (cs1 @ cs2))" for c
    using that log(2) by simp
  from load_replays [where get = get and check = no_check and name = "''reactiveLog''", OF ok assms(1,2,8,6,7) _ fold]
  show ?thesis by (auto simp: load_reactive_log_state_def no_check_def restore_reactive_log_def new)
qed

fun demo_log_change :: "string log_change \<Rightarrow> json" where
  "demo_log_change (LogAppended v) = JString v"
| "demo_log_change (LogTrimHead n) = int_json (int n)"
| "demo_log_change _ = JNull"

fun demo_log_read :: "json \<Rightarrow> string log_change storage_result" where
  "demo_log_read (JString v) = Inr (LogAppended v)"
| "demo_log_read (JNumber (PosInt n)) = Inr (LogTrimHead (unat n))"
| "demo_log_read _ = Inl (Backend ''unexpected change'')"

definition demo_log_changes :: "string log_change list" where
  "demo_log_changes = [LogAppended ''b'', LogTrimHead 1]"

lemma demo_log_loggable:
  assumes "c \<in> set demo_log_changes"
  shows "loggable (demo_serde p) ReactiveLogKind demo_log_change demo_log_read c"
proof -
  note shapes = validate_int_json validate_shapes JS_MAX_SAFE_INTEGER_def
  have "validate_value (demo_serde p) (demo_log_change c) ''$.change'' 1 = Inr ()"
    using assms by (auto simp: demo_log_changes_def shapes simp del: validate_value.simps)
  moreover have "demo_log_read (demo_log_change c) = Inr c"
    using assms by (auto simp: demo_log_changes_def int_json_def)
  ultimately show ?thesis by (simp add: loggable_def demo_change_frame del: validate_value.simps)
qed

theorem log_restored_witness:
  "\<exists>r. load_reactive_log_state (demo_serde demo_reader) (\<lambda>_. Inr (Some (demo_snapshot ReactiveLogKind)))
      demo_items demo_log_read
      \<lparr>lo_storage_prefix = Some ''events'', lo_snapshot_key = None,
        lo_change_log = Some (lg_read (memory_log ''l'')
          (persisted ''l'' 0 ReactiveLogKind demo_log_change (LogAppended ''a'' # demo_log_changes)))\<rparr> = Inr r \<and>
    rs_state r = [''b''] \<and> rs_snapshot_found r"
proof -
  let ?b = "\<lambda>buf v. \<lparr>gb_buf = buf, gb_version = v, gb_max_size = None\<rparr>"
  let ?S = "demo_serde demo_reader"
  let ?opts = "\<lparr>lo_storage_prefix = Some ''events'', lo_snapshot_key = None,
        lo_change_log = Some (lg_read (memory_log ''l'')
          (persisted ''l'' 0 ReactiveLogKind demo_log_change ([LogAppended ''a''] @ demo_log_changes)))\<rparr>"
  note log_simps = rg_append_def gb_append_def gb_enforce_max_size_def trim_head_overflow_def gb_put_def
    rg_trim_head_def gb_trim_head_def log_trimmed_def
  have key: "resolve_collection_snapshot_key ?opts = Inr ''events/snapshot''"
    by (simp add: resolve_collection_snapshot_key_def collection_snapshot_key_def)
  have new: "rg_new [] None = Some (?b [] 0)"
    by (simp add: rg_new_def gb_new_def trim_head_overflow_def)
  have ops1: "run_ops rlog_step (?b [] 0) [GAppend ''a''] = Some (?b [''a''] 1, [LogAppended ''a''])"
    by (simp add: log_simps)
  have ops2: "run_ops rlog_step (?b [''a''] 1) [GAppend ''b'', GTrimHead 1] = Some (?b [''b''] 3, demo_log_changes)"
    by (simp add: log_simps demo_log_changes_def)
  have snap: "snapshot_after ?S ReactiveLogKind demo_items (Some (demo_snapshot ReactiveLogKind))
      (length [LogAppended ''a'']) (gb_buf (?b [''a''] 1))"
    using demo_snapshot_frame by (simp add: snapshot_after_def) (simp add: demo_snapshot_def)
  note restored = log_restored [where get = "\<lambda>_. Inr (Some (demo_snapshot ReactiveLogKind))" and S = ?S
      and enc = demo_log_change and de = demo_log_read, OF key refl new ops1 ops2 _ snap _ demo_log_loggable]
  have "\<exists>r. load_reactive_log_state ?S (\<lambda>_. Inr (Some (demo_snapshot ReactiveLogKind))) demo_items
      demo_log_read ?opts = Inr r \<and> rs_state r = gb_buf (?b [''b''] 3) \<and> rs_snapshot_found r"
    using restored [of "''l''" 0] by (auto simp: demo_log_changes_def)
  then show ?thesis by simp
qed

end
