(* ===== verification/Batch.thy ===== *)
theory Batch
  imports Prelude
begin

text \<open>
  Batches (\<open>batch.rs\<close>): the thread-local frame that holds back the settle slices of the nodes
  driven in a batch, the commit loop, rollback, and the draining of the boundary tasks of the
  graphs involved. What the frame needs of nodes and graphs is the record \<open>batch_host\<close>:
  pinning a target, committing a wave to it, balancing it on rollback, the root of its graph, and
  draining or clearing the boundary tasks of a root. A panic is \<open>Inl\<close> with its payload. The
  commit token of a frame is a shared cell: cells are numbered and live in \<open>bw_tokens\<close>.
  Dropping the pins of the targets belongs to the node arena.
\<close>

record ('n, 'w, 'r) active_batch =
  ab_targets :: "'n list"
  ab_order :: "nat list"
  ab_deferred :: "'w option list"
  ab_boundary_roots :: "'r list"
  ab_committed :: nat
  ab_rolled_back :: bool
  ab_collecting :: bool

definition active_batch_new :: "nat \<Rightarrow> ('n, 'w, 'r) active_batch" where
  "active_batch_new committed =
     \<lparr>ab_targets = [], ab_order = [], ab_deferred = [], ab_boundary_roots = [],
      ab_committed = committed, ab_rolled_back = False, ab_collecting = True\<rparr>"

record ('s, 'n, 'w, 'r) batch_world =
  bw_graph :: 's
  bw_active :: "('n, 'w, 'r) active_batch option"
  bw_tokens :: "bool list"

type_synonym ('s, 'n, 'w, 'r, 'p, 'a) batch_run =
  "('s, 'n, 'w, 'r) batch_world \<Rightarrow> ('s, 'n, 'w, 'r) batch_world \<times> ('p + 'a)"

record ('s, 'n, 'w, 'r, 'p) batch_host =
  bh_pin :: "'n \<Rightarrow> 's \<Rightarrow> 's option"
  bh_commit :: "'n \<Rightarrow> 'w \<Rightarrow> ('s, 'n, 'w, 'r, 'p, unit) batch_run"
  bh_rollback :: "'n \<Rightarrow> ('s, 'n, 'w, 'r, 'p, unit) batch_run"
  bh_root :: "'n \<Rightarrow> 'r"
  bh_drain :: "'r \<Rightarrow> ('s, 'n, 'w, 'r, 'p, unit) batch_run"
  bh_clear_uncommitted :: "'r \<Rightarrow> bool list \<Rightarrow> 's \<Rightarrow> 's"
  bh_clear_all :: "'r \<Rightarrow> 's \<Rightarrow> 's"
  bh_is_abort :: "'p \<Rightarrow> bool"
  bh_panic :: "string \<Rightarrow> 'p"

section \<open>Collecting\<close>

definition boundary_drains_blocked :: "('s, 'n, 'w, 'r) batch_world \<Rightarrow> bool" where
  "boundary_drains_blocked w \<longleftrightarrow> bw_active w \<noteq> None"

definition collecting_batch :: "('s, 'n, 'w, 'r) batch_world \<Rightarrow> bool" where
  "collecting_batch w \<longleftrightarrow> (case bw_active w of None \<Rightarrow> False | Some b \<Rightarrow> ab_collecting b)"

definition active_batch_committed_token :: "('s, 'n, 'w, 'r) batch_world \<Rightarrow> nat option" where
  "active_batch_committed_token w = map_option ab_committed (bw_active w)"

definition register_boundary_root ::
  "('s, 'n, 'w, 'r, 'p) batch_host \<Rightarrow> 'n \<Rightarrow> ('s, 'n, 'w, 'r) batch_world \<Rightarrow> ('s, 'n, 'w, 'r) batch_world" where
  "register_boundary_root host target w =
     (case bw_active w of
        None \<Rightarrow> w
      | Some b \<Rightarrow>
          if bh_root host target \<in> set (ab_boundary_roots b) then w
          else w\<lparr>bw_active := Some (b\<lparr>ab_boundary_roots := ab_boundary_roots b @ [bh_root host target]\<rparr>)\<rparr>)"

fun index_of :: "'a \<Rightarrow> 'a list \<Rightarrow> nat option" where
  "index_of x [] = None"
| "index_of x (y # ys) = (if y = x then Some 0 else map_option Suc (index_of x ys))"

definition defer_to_batch ::
  "('s, 'n, 'w, 'r, 'p) batch_host \<Rightarrow> 'n \<Rightarrow> 'w \<Rightarrow> ('s, 'n, 'w, 'r) batch_world
    \<Rightarrow> ('s, 'n, 'w, 'r) batch_world \<times> bool" where
  "defer_to_batch host target wave w =
     (case bw_active w of
        None \<Rightarrow> (w, False)
      | Some b \<Rightarrow>
          if \<not> ab_collecting b then (w, False)
          else (case index_of target (ab_targets b) of
              Some i \<Rightarrow> (w\<lparr>bw_active := Some (b\<lparr>ab_deferred := (ab_deferred b)[i := Some wave]\<rparr>)\<rparr>, True)
            | None \<Rightarrow>
                (case bh_pin host target (bw_graph w) of
                   None \<Rightarrow> (w, False)
                 | Some g \<Rightarrow>
                     (w\<lparr>bw_graph := g,
                        bw_active := Some (b\<lparr>ab_targets := ab_targets b @ [target],
                          ab_deferred := ab_deferred b @ [Some wave],
                          ab_order := ab_order b @ [length (ab_targets b)]\<rparr>)\<rparr>, True))))"

definition committed_after_batch_for_target ::
  "'n \<Rightarrow> ('s, 'n, 'w, 'r) batch_world \<Rightarrow> nat option" where
  "committed_after_batch_for_target target w =
     (case bw_active w of
        None \<Rightarrow> None
      | Some b \<Rightarrow>
          if \<not> ab_collecting b \<or>
             \<not> list_ex (\<lambda>(i, n). n = target \<and> (case vec_get (ab_deferred b) i of Some (Some _) \<Rightarrow> True | _ \<Rightarrow> False))
                 (enumerate 0 (ab_targets b))
          then None else Some (ab_committed b))"

text \<open>\<open>BatchCtx::rollback\<close>.\<close>

definition batch_rollback :: "('s, 'n, 'w, 'r) batch_world \<Rightarrow> ('s, 'n, 'w, 'r) batch_world" where
  "batch_rollback w = w\<lparr>bw_active := map_option (\<lambda>b. b\<lparr>ab_rolled_back := True\<rparr>) (bw_active w)\<rparr>"

section \<open>Finishing\<close>

record ('n, 'w, 'r) batch_finish =
  fi_targets :: "'n list"
  fi_order :: "nat list"
  fi_deferred :: "'w option list"
  fi_boundary_roots :: "'r list"
  fi_committed :: nat
  fi_explicit_rollback :: bool

definition take_for_finish ::
  "('s, 'n, 'w, 'r) batch_world \<Rightarrow> (('s, 'n, 'w, 'r) batch_world \<times> ('n, 'w, 'r) batch_finish) option" where
  "take_for_finish w =
     map_option (\<lambda>b.
       (w\<lparr>bw_active := Some (b\<lparr>ab_collecting := False, ab_targets := [], ab_order := [],
            ab_deferred := [], ab_boundary_roots := []\<rparr>)\<rparr>,
        \<lparr>fi_targets = ab_targets b, fi_order = ab_order b, fi_deferred = ab_deferred b,
         fi_boundary_roots = ab_boundary_roots b, fi_committed = ab_committed b,
         fi_explicit_rollback = ab_rolled_back b\<rparr>)) (bw_active w)"

definition clear_active :: "('s, 'n, 'w, 'r) batch_world \<Rightarrow> ('s, 'n, 'w, 'r) batch_world" where
  "clear_active w = w\<lparr>bw_active := None\<rparr>"

text \<open>A loop whose body may panic: the first panic ends it.\<close>

fun run_all :: "('x \<Rightarrow> 'w \<Rightarrow> 'w \<times> ('p + unit)) \<Rightarrow> 'x list \<Rightarrow> 'w \<Rightarrow> 'w \<times> ('p + unit)" where
  "run_all f [] w = (w, Inr ())"
| "run_all f (x # xs) w =
     (case f x w of
        (w, Inl p) \<Rightarrow> (w, Inl p)
      | (w, Inr _) \<Rightarrow> run_all f xs w)"

definition commit ::
  "('s, 'n, 'w, 'r, 'p) batch_host \<Rightarrow> 'n list \<Rightarrow> 'w option list \<Rightarrow> ('s, 'n, 'w, 'r, 'p, unit) batch_run" where
  "commit host targets deferred =
     run_all (\<lambda>(i, wave). case wave of
         None \<Rightarrow> (\<lambda>w. (w, Inr ()))
       | Some wave \<Rightarrow> bh_commit host (targets ! i) wave) (enumerate 0 deferred)"

definition rollback ::
  "('s, 'n, 'w, 'r, 'p) batch_host \<Rightarrow> 'n list \<Rightarrow> nat list \<Rightarrow> ('s, 'n, 'w, 'r, 'p, unit) batch_run" where
  "rollback host targets order = run_all (\<lambda>i. bh_rollback host (targets ! i)) order"

definition push_unique :: "'r \<Rightarrow> 'r list \<Rightarrow> 'r list" where
  "push_unique r roots = (if r \<in> set roots then roots else roots @ [r])"

definition boundary_graph_roots ::
  "('s, 'n, 'w, 'r, 'p) batch_host \<Rightarrow> 'n list \<Rightarrow> nat list \<Rightarrow> 'w option list \<Rightarrow> 'r list" where
  "boundary_graph_roots host targets order deferred =
     (let push = (\<lambda>i roots. case vec_get targets i of
                    None \<Rightarrow> roots | Some n \<Rightarrow> push_unique (bh_root host n) roots);
          roots = fold push order []
      in fold (\<lambda>(i, wave). if wave \<noteq> None then push i else (\<lambda>roots. roots)) (enumerate 0 deferred) roots)"

definition take_late_boundary_roots ::
  "('s, 'n, 'w, 'r) batch_world \<Rightarrow> ('s, 'n, 'w, 'r) batch_world \<times> 'r list" where
  "take_late_boundary_roots w =
     (case bw_active w of
        None \<Rightarrow> (w, [])
      | Some b \<Rightarrow> (w\<lparr>bw_active := Some (b\<lparr>ab_boundary_roots := []\<rparr>)\<rparr>, ab_boundary_roots b))"

definition append_boundary_roots :: "'r list \<Rightarrow> 'r list \<Rightarrow> 'r list \<Rightarrow> 'r list" where
  "append_boundary_roots task_roots core_roots boundary_roots =
     fold (\<lambda>r task_roots. if r \<in> set core_roots \<or> r \<in> set task_roots then task_roots else task_roots @ [r])
       boundary_roots task_roots"

definition clear_boundary_for_roots ::
  "('s, 'n, 'w, 'r, 'p) batch_host \<Rightarrow> 'r list \<Rightarrow> 'r list \<Rightarrow> ('s, 'n, 'w, 'r) batch_world \<Rightarrow> ('s, 'n, 'w, 'r) batch_world" where
  "clear_boundary_for_roots host core_roots task_roots w =
     w\<lparr>bw_graph := fold (\<lambda>r. bh_clear_uncommitted host r (bw_tokens w)) (core_roots @ task_roots) (bw_graph w)\<rparr>"

definition clear_all_boundary_for_roots ::
  "('s, 'n, 'w, 'r, 'p) batch_host \<Rightarrow> 'r list \<Rightarrow> 'r list \<Rightarrow> ('s, 'n, 'w, 'r) batch_world \<Rightarrow> ('s, 'n, 'w, 'r) batch_world" where
  "clear_all_boundary_for_roots host core_roots task_roots w =
     w\<lparr>bw_graph := fold (bh_clear_all host) (core_roots @ task_roots) (bw_graph w)\<rparr>"

text \<open>
  \<open>drain_boundary_for_roots\<close>: a host abort clears everything and unwinds at once; of the
  other panics the first is remembered and re-raised after all roots are drained.
\<close>

fun drain_roots ::
  "('s, 'n, 'w, 'r, 'p) batch_host \<Rightarrow> 'r list \<Rightarrow> 'r list \<Rightarrow> 'p option \<Rightarrow> 'r list
    \<Rightarrow> ('s, 'n, 'w, 'r, 'p, unit) batch_run" where
  "drain_roots host core_roots task_roots escaped [] w =
     (w, case escaped of None \<Rightarrow> Inr () | Some p \<Rightarrow> Inl p)"
| "drain_roots host core_roots task_roots escaped (r # rs) w =
     (case bh_drain host r w of
        (w, Inr _) \<Rightarrow> drain_roots host core_roots task_roots escaped rs w
      | (w, Inl p) \<Rightarrow>
          if bh_is_abort host p then (clear_all_boundary_for_roots host core_roots task_roots w, Inl p)
          else drain_roots host core_roots task_roots (case escaped of None \<Rightarrow> Some p | Some q \<Rightarrow> Some q) rs w)"

definition drain_boundary_for_roots ::
  "('s, 'n, 'w, 'r, 'p) batch_host \<Rightarrow> 'r list \<Rightarrow> 'r list \<Rightarrow> ('s, 'n, 'w, 'r, 'p, unit) batch_run" where
  "drain_boundary_for_roots host core_roots task_roots =
     drain_roots host core_roots task_roots None (core_roots @ task_roots)"

definition rollback_and_cleanup ::
  "('s, 'n, 'w, 'r, 'p) batch_host \<Rightarrow> 'n list \<Rightarrow> nat list \<Rightarrow> 'r list \<Rightarrow> ('s, 'n, 'w, 'r, 'p, unit) batch_run" where
  "rollback_and_cleanup host targets order task_roots w =
     (let core_roots = boundary_graph_roots host targets order [];
          (w, result) = rollback host targets order w;
          (w, late_roots) = take_late_boundary_roots w;
          task_roots = append_boundary_roots task_roots core_roots late_roots;
          w = clear_active w;
          w = clear_boundary_for_roots host core_roots task_roots w
      in (w, result))"

text \<open>The successful branch of \<open>batch\<close>: commit, then drain.\<close>

definition commit_and_drain ::
  "('s, 'n, 'w, 'r, 'p) batch_host \<Rightarrow> ('n, 'w, 'r) batch_finish \<Rightarrow> 'r list \<Rightarrow> 'r list
    \<Rightarrow> ('s, 'n, 'w, 'r, 'p, unit) batch_run" where
  "commit_and_drain host finish core_roots task_roots w =
     (let (w, result) = commit host (fi_targets finish) (fi_deferred finish) w;
          (w, late_roots) = take_late_boundary_roots w;
          task_roots = append_boundary_roots task_roots core_roots late_roots
      in case result of
           Inl p \<Rightarrow> (clear_boundary_for_roots host core_roots task_roots (clear_active w), Inl p)
         | Inr _ \<Rightarrow>
             drain_boundary_for_roots host core_roots task_roots
               (clear_active (w\<lparr>bw_tokens := (bw_tokens w)[fi_committed finish := True]\<rparr>)))"

definition batch ::
  "('s, 'n, 'w, 'r, 'p) batch_host \<Rightarrow> ('s, 'n, 'w, 'r, 'p, 'a) batch_run \<Rightarrow> ('s, 'n, 'w, 'r, 'p, 'a) batch_run" where
  "batch host body w =
     (if bw_active w \<noteq> None then body w
      else let
        token = length (bw_tokens w);
        (w, result) = body (w\<lparr>bw_tokens := bw_tokens w @ [False], bw_active := Some (active_batch_new token)\<rparr>)
      in case take_for_finish w of
           None \<Rightarrow> (w, Inl (bh_panic host ''batch frame installed''))
         | Some (w, finish) \<Rightarrow>
             let core_roots = boundary_graph_roots host (fi_targets finish) (fi_order finish) (fi_deferred finish);
                 task_roots = append_boundary_roots [] core_roots (fi_boundary_roots finish)
             in (case result of
                   Inr value \<Rightarrow>
                     (case (if fi_explicit_rollback finish
                            then rollback_and_cleanup host (fi_targets finish) (fi_order finish) task_roots w
                            else commit_and_drain host finish core_roots task_roots w) of
                        (w, Inl p) \<Rightarrow> (w, Inl p)
                      | (w, Inr _) \<Rightarrow> (w, Inr value))
                 | Inl p \<Rightarrow>
                     (case rollback_and_cleanup host (fi_targets finish) (fi_order finish) task_roots w of
                        (w, Inl p') \<Rightarrow> (w, Inl p')
                      | (w, Inr _) \<Rightarrow> (w, Inl p))))"

section \<open>Correctness\<close>

text \<open>The frame a batch opens.\<close>

definition open_frame :: "('s, 'n, 'w, 'r) batch_world \<Rightarrow> ('s, 'n, 'w, 'r) batch_world" where
  "open_frame w = w\<lparr>bw_tokens := bw_tokens w @ [False],
     bw_active := Some (active_batch_new (length (bw_tokens w)))\<rparr>"

definition defer_all ::
  "('s, 'n, 'w, 'r, 'p) batch_host \<Rightarrow> ('n \<times> 'w) list \<Rightarrow> ('s, 'n, 'w, 'r) batch_world \<Rightarrow> ('s, 'n, 'w, 'r) batch_world" where
  "defer_all host ws w = foldl (\<lambda>w (n, x). fst (defer_to_batch host n x w)) w ws"

text \<open>Each target once, in the order of its first wave, with its last wave.\<close>

definition firsts :: "'n list \<Rightarrow> 'n list" where
  "firsts ns = rev (remdups (rev ns))"

definition last_waves :: "('n \<times> 'w) list \<Rightarrow> ('n \<times> 'w) list" where
  "last_waves ws = map (\<lambda>n. (n, the (map_of (rev ws) n))) (firsts (map fst ws))"

lemma firsts_snoc: "firsts (ns @ [n]) = (if n \<in> set ns then firsts ns else firsts ns @ [n])"
  by (simp add: firsts_def)

lemma set_firsts [simp]: "set (firsts ns) = set ns"
  by (simp add: firsts_def)

lemma distinct_firsts [simp]: "distinct (firsts ns)"
  by (simp add: firsts_def)

lemma index_of_None [simp]: "index_of x ys = None \<longleftrightarrow> x \<notin> set ys"
  by (induction ys) auto

lemma index_of_Some: "index_of x ys = Some i \<Longrightarrow> i < length ys \<and> ys ! i = x"
  by (induction ys arbitrary: i) (auto split: if_splits)

lemma deferred_state:
  assumes "\<And>n g. bh_pin host n g \<noteq> None"
  shows "\<exists>b. bw_active (defer_all host ws (open_frame w)) = Some b \<and> ab_collecting b \<and>
    ab_targets b = firsts (map fst ws) \<and> ab_deferred b = map (map_of (rev ws)) (firsts (map fst ws)) \<and>
    ab_order b = [0..<length (firsts (map fst ws))]"
proof (induction ws rule: rev_induct)
  case Nil
  show ?case by (simp add: defer_all_def open_frame_def active_batch_new_def firsts_def)
next
  case (snoc x ws)
  obtain n v where x: "x = (n, v)" by force
  obtain b where b: "bw_active (defer_all host ws (open_frame w)) = Some b" "ab_collecting b"
      "ab_targets b = firsts (map fst ws)" "ab_deferred b = map (map_of (rev ws)) (firsts (map fst ws))"
      "ab_order b = [0..<length (firsts (map fst ws))]"
    using snoc by blast
  have step: "defer_all host (ws @ [x]) (open_frame w) = fst (defer_to_batch host n v (defer_all host ws (open_frame w)))"
    by (simp add: defer_all_def x)
  show ?case
  proof (cases "index_of n (ab_targets b)")
    case None
    then have "n \<notin> fst ` set ws" by (simp add: b(3))
    moreover from this have "map (map_of (rev (ws @ [x]))) (firsts (map fst ws)) = map (map_of (rev ws)) (firsts (map fst ws))"
      by (intro map_cong refl) (auto simp: x)
    moreover obtain g where "bh_pin host n (bw_graph (defer_all host ws (open_frame w))) = Some g"
      using assms by (metis option.exhaust)
    ultimately show ?thesis using b None unfolding step defer_to_batch_def
      by (auto simp add: firsts_snoc x simp del: index_of_None)
  next
    case (Some i)
    then have i: "i < length (firsts (map fst ws))" "firsts (map fst ws) ! i = n"
      using index_of_Some [OF Some] by (simp_all add: b(3))
    then have "n \<in> fst ` set ws" using nth_mem [OF i(1)] by simp
    moreover have "(map (map_of (rev ws)) (firsts (map fst ws)))[i := Some v] =
        map (map_of (rev (ws @ [x]))) (firsts (map fst ws))"
      using i distinct_firsts [of "map fst ws"]
      by (intro nth_equalityI) (auto simp: x nth_list_update nth_eq_iff_index_eq)
    ultimately show ?thesis using b Some unfolding step defer_to_batch_def
      by (simp add: firsts_snoc x)
  qed
qed

lemma run_all_map: "run_all f (map g xs) = run_all (\<lambda>x. f (g x)) xs"
  by (induction xs) (auto simp: fun_eq_iff split: prod.splits sum.splits)

lemma run_all_cong: "(\<And>x. x \<in> set xs \<Longrightarrow> f x = g x) \<Longrightarrow> run_all f xs = run_all g xs"
  by (induction xs) (auto simp: fun_eq_iff split: prod.splits sum.splits)

lemma map_of_rev_fst: "n \<in> fst ` set ws \<Longrightarrow> map_of (rev ws) n = Some (the (map_of (rev ws) n))"
  by (metis list.set_map map_of_eq_None_iff option.collapse rev_map set_rev)

text \<open>A host whose graph is the list of waves committed so far, for the examples below.\<close>

definition recording_host :: "((nat \<times> string) list, nat, string, unit, string) batch_host" where
  "recording_host = \<lparr>bh_pin = \<lambda>_ g. Some g, bh_commit = \<lambda>n x w. (w\<lparr>bw_graph := bw_graph w @ [(n, x)]\<rparr>, Inr ()),
     bh_rollback = \<lambda>_ w. (w, Inr ()), bh_root = \<lambda>_. (), bh_drain = \<lambda>_ w. (w, Inr ()),
     bh_clear_uncommitted = \<lambda>_ _ g. g, bh_clear_all = \<lambda>_ g. g, bh_is_abort = \<lambda>_. False, bh_panic = \<lambda>s. s\<rparr>"

text \<open>
  C15. In a batch the last wave of a node wins. Whatever waves are deferred during a batch, in any
  interleaving over any nodes, committing it delivers to each node involved exactly one wave, the
  last one deferred for it, in the order in which the nodes were first driven.
\<close>

theorem batch_commits_last_waves:
  assumes "\<And>n g. bh_pin host n g \<noteq> None"
  shows "\<exists>b. bw_active (defer_all host ws (open_frame w)) = Some b \<and>
    commit host (ab_targets b) (ab_deferred b) = run_all (\<lambda>(n, wave). bh_commit host n wave) (last_waves ws)"
proof -
  obtain b where b: "bw_active (defer_all host ws (open_frame w)) = Some b"
      "ab_targets b = firsts (map fst ws)" "ab_deferred b = map (map_of (rev ws)) (firsts (map fst ws))"
    using deferred_state [OF assms] by blast
  let ?ns = "firsts (map fst ws)"
  have "enumerate 0 (ab_deferred b) = map (\<lambda>i. (i, map_of (rev ws) (?ns ! i))) [0..<length ?ns]"
    by (rule nth_equalityI) (simp_all add: b(3) nth_enumerate_eq)
  moreover have "last_waves ws = map (\<lambda>i. (?ns ! i, the (map_of (rev ws) (?ns ! i)))) [0..<length ?ns]"
    unfolding last_waves_def by (rule nth_equalityI) simp_all
  ultimately have "commit host (ab_targets b) (ab_deferred b) =
      run_all (\<lambda>(n, wave). bh_commit host n wave) (last_waves ws)"
    unfolding commit_def b(2) using map_of_rev_fst [of _ ws] nth_mem [of _ ?ns]
    by (simp only: run_all_map, intro run_all_cong) (force split: option.split)
  then show ?thesis using b(1) by blast
qed

theorem batch_commits_last_waves_witness:
  "\<exists>b. bw_active (defer_all recording_host [(1, ''a''), (2, ''b''), (1, ''c'')]
      (open_frame \<lparr>bw_graph = [], bw_active = None, bw_tokens = []\<rparr>)) = Some b \<and>
    commit recording_host (ab_targets b) (ab_deferred b) =
      run_all (\<lambda>(n, wave). bh_commit recording_host n wave) [(1, ''c''), (2, ''b'')]"
  using batch_commits_last_waves [of recording_host "[(1, ''a''), (2, ''b''), (1, ''c'')]"
      "\<lparr>bw_graph = [], bw_active = None, bw_tokens = []\<rparr>"]
  by (simp add: recording_host_def last_waves_def firsts_def)

lemma drain_roots_closed:
  assumes "\<And>r w. bw_active w = None \<Longrightarrow> bw_active (fst (bh_drain host r w)) = None"
  shows "bw_active w = None \<Longrightarrow> bw_active (fst (drain_roots host cs ts e rs w)) = None"
proof (induction rs arbitrary: e w)
  case (Cons r rs)
  obtain w1 x where d: "bh_drain host r w = (w1, x)" by force
  have "bw_active w1 = None" using assms [OF Cons.prems, of r] d by simp
  then show ?case
    using Cons.IH d by (cases x) (simp_all add: clear_all_boundary_for_roots_def)
qed simp

lemma rollback_and_cleanup_closed: "bw_active (fst (rollback_and_cleanup host ns is ts w)) = None"
  by (simp add: rollback_and_cleanup_def Let_def case_prod_beta' clear_boundary_for_roots_def clear_active_def)

lemma commit_and_drain_closed:
  assumes "\<And>r w. bw_active w = None \<Longrightarrow> bw_active (fst (bh_drain host r w)) = None"
  shows "bw_active (fst (commit_and_drain host fi cs ts w)) = None"
  using drain_roots_closed [OF assms]
  by (simp add: commit_and_drain_def Let_def case_prod_beta' clear_boundary_for_roots_def clear_active_def
      drain_boundary_for_roots_def split: sum.split)

text \<open>
  A batch never leaves its frame behind. Whatever its body does, whether it returns, rolls
  back or panics, and whatever the commits and rollbacks do (they may panic too), no batch is active
  after the outermost batch if no drain of a root leaves one active (the drains are part of the
  host interface), so boundary drains are not blocked for ever.
\<close>

theorem batch_closes_frame:
  assumes "bw_active w = None"
    and "\<And>r w. bw_active w = None \<Longrightarrow> bw_active (fst (bh_drain host r w)) = None"
  shows "\<not> boundary_drains_blocked (fst (batch host body w))"
proof -
  obtain w1 res where body: "body (open_frame w) = (w1, res)" by force
  note closed = rollback_and_cleanup_closed commit_and_drain_closed [OF assms(2)]
  show ?thesis
  proof (cases "take_for_finish w1")
    case None
    then show ?thesis
      using assms(1) body
      by (simp add: batch_def boundary_drains_blocked_def take_for_finish_def Let_def flip: open_frame_def)
  next
    case (Some a)
    then show ?thesis
      using assms(1) body closed
      by (cases a; cases res)
        (auto simp: batch_def boundary_drains_blocked_def Let_def case_prod_beta' simp flip: open_frame_def
          split: sum.split)
  qed
qed

theorem batch_closes_frame_witness:
  "\<not> boundary_drains_blocked (fst (batch recording_host (\<lambda>w. (fst (defer_to_batch recording_host 1 ''a'' w), Inl ''boom'' :: string + nat))
     \<lparr>bw_graph = [], bw_active = None, bw_tokens = []\<rparr>))"
  by (rule batch_closes_frame) (simp_all add: recording_host_def)

lemma roots_commit_irrelevant [simp]:
  "boundary_graph_roots (host\<lparr>bh_commit := c\<rparr>) = boundary_graph_roots host"
  by (intro ext) (simp add: boundary_graph_roots_def cong: option.case_cong)

lemma rollback_commit_irrelevant:
  "rollback_and_cleanup (host\<lparr>bh_commit := c\<rparr>) = rollback_and_cleanup host"
  by (intro ext) (simp add: rollback_and_cleanup_def rollback_def clear_boundary_for_roots_def)

text \<open>
  C32. A batch that is rolled back commits nothing. If the body panics or calls \<open>rollback\<close>,
  the whole batch behaves the same whatever committing a wave would do: no wave is committed to
  any node.
\<close>

theorem batch_rollback_commits_nothing:
  assumes "bw_active w = None" "body (open_frame w) = (w1, res)" "bw_active w1 = Some b"
    and "(\<exists>p. res = Inl p) \<or> ab_rolled_back b"
  shows "batch (host\<lparr>bh_commit := c\<rparr>) body w = batch host body w"
  using assms
  by (cases res)
    (auto simp: batch_def take_for_finish_def Let_def rollback_commit_irrelevant
      simp flip: open_frame_def)

theorem batch_rollback_commits_nothing_witness:
  "batch (recording_host\<lparr>bh_commit := \<lambda>_ _ w. (w, Inl ''committed'')\<rparr>)
     (\<lambda>w. (batch_rollback (fst (defer_to_batch recording_host 1 ''a'' w)), Inr (7::nat)))
     \<lparr>bw_graph = [], bw_active = None, bw_tokens = []\<rparr> =
   batch recording_host
     (\<lambda>w. (batch_rollback (fst (defer_to_batch recording_host 1 ''a'' w)), Inr (7::nat)))
     \<lparr>bw_graph = [], bw_active = None, bw_tokens = []\<rparr>"
  by (rule batch_rollback_commits_nothing [OF _ refl])
    (simp add: recording_host_def open_frame_def active_batch_new_def defer_to_batch_def batch_rollback_def)+

end
