(* ===== verification/CollectionViews.thy ===== *)
theory CollectionViews
  imports CollectionReplay Batch
begin

text \<open>
  The incremental scan over a log (\<open>ReactiveLog::scan\<close>), the read views and the capacity
  of the collections. Outside a batch every change of an operation reaches the scan as a wave of
  its own, after the operation has updated the log.
\<close>

fun scan_deliver ::
  "'a \<Rightarrow> ('a \<Rightarrow> 't \<Rightarrow> 'a) \<Rightarrow> 't list \<Rightarrow> 't log_change list \<Rightarrow> 'a log_scan_state option
    \<Rightarrow> 'a log_scan_state option \<times> 'a list" where
  "scan_deliver initial step all [] st = (st, [])"
| "scan_deliver initial step all (c # cs) st =
     (let (st', out) = log_scan_body initial step all [c] st;
          (st'', outs) = scan_deliver initial step all cs (Some st')
      in (st'', (case out of None \<Rightarrow> [] | Some a \<Rightarrow> [a]) @ outs))"

text \<open>The state of a scan that has seen the whole log.\<close>

definition scan_state :: "'a \<Rightarrow> ('a \<Rightarrow> 't \<Rightarrow> 'a) \<Rightarrow> 't list \<Rightarrow> 'a log_scan_state" where
  "scan_state initial step buf = \<lparr>ls_acc = foldl step initial buf, ls_processed = length buf\<rparr>"

definition scan_sync :: "'a \<Rightarrow> ('a \<Rightarrow> 't \<Rightarrow> 'a) \<Rightarrow> 't list \<Rightarrow> 'a log_scan_state option \<Rightarrow> bool" where
  "scan_sync initial step buf st \<longleftrightarrow> st = None \<or> st = Some (scan_state initial step buf)"

lemma scan_reset:
  "scan_deliver initial step all [LogTrimHead n] st = (Some (scan_state initial step all), [foldl step initial all])"
  "scan_deliver initial step all [LogClear n] st = (Some (scan_state initial step all), [foldl step initial all])"
  by (simp_all add: log_scan_body_def scan_state_def Let_def)

text \<open>An append the log kept in full: the scan folds the new values only.\<close>

lemma scan_appended:
  assumes "scan_sync initial step buf st" "c = LogAppended v \<and> vs = [v] \<or> c = LogAppendMany vs"
    and "length (buf @ vs) < 2 ^ 64 - 1" "vs \<noteq> []"
  shows "log_scan_body initial step (buf @ vs) [c] st =
    (scan_state initial step (buf @ vs), Some (foldl step initial (buf @ vs)))"
  using assms by (auto simp: scan_sync_def log_scan_body_def scan_state_def Let_def min_def)

lemma scan_trimmed:
  "scan_deliver initial step all [c, LogTrimHead n] st =
     (Some (scan_state initial step all),
      (case snd (log_scan_body initial step all [c] st) of None \<Rightarrow> [] | Some a \<Rightarrow> [a]) @ [foldl step initial all])"
  using scan_reset(1) [of initial step all n] by (simp add: case_prod_beta' Let_def)

text \<open>
  C37. The incremental scan is a full fold. If the scan is fresh or in step with the log, then after
  any operation that changes the log (an append that overflows the capacity included) it is in step
  with the new contents, it has emitted, and its last emission is the fold of the step function over
  the whole log, although an ordinary append only folds the new values.
\<close>

theorem log_scan_incremental:
  assumes "log_ok b" "scan_sync initial step (gb_buf b) st"
    and "rlog_step b op = Some (b', cs)" "cs \<noteq> []" "length (gb_buf b') < 2 ^ 64 - 1"
  shows "\<exists>outs. scan_deliver initial step (gb_buf b') cs st = (Some (scan_state initial step (gb_buf b')), outs) \<and>
    outs \<noteq> [] \<and> last outs = foldl step initial (gb_buf b')"
proof -
  have appends: ?thesis
    if "gb_enforce_max_size (gb_put (gb_buf b @ vs) b) = Some (b', n)" "cs = c # log_trimmed n"
      "c = LogAppended v \<and> vs = [v] \<or> c = LogAppendMany vs" "vs \<noteq> []" for vs n c v
  proof (cases "n = 0")
    case True
    then have "gb_buf b' = gb_buf b @ vs" using gb_enforce_Some [OF that(1)] by simp
    then show ?thesis
      using scan_appended [OF assms(2) that(3)] that(2,4) assms(5) True by (simp add: log_trimmed_def)
  next
    case False
    then show ?thesis using that(2) by (simp add: log_trimmed_def scan_trimmed del: scan_deliver.simps)
  qed
  show ?thesis
  proof (cases op)
    case (GAppend v)
    then show ?thesis using assms(3) appends [of "[v]"]
      by (auto simp: rg_append_def gb_append_def bind_eq_Some_conv)
  next
    case (GAppendMany vs)
    then show ?thesis using assms(3,4) appends [of vs]
      by (auto simp: rg_append_many_def gb_append_many_def bind_eq_Some_conv split: if_splits)
  next
    case GClear
    then show ?thesis using assms(3,4)
      by (auto simp: rg_clear_def Let_def case_prod_beta' scan_reset simp del: scan_deliver.simps split: if_splits)
  next
    case (GTrimHead n)
    then show ?thesis using assms(3,4)
      by (auto simp: rg_trim_head_def log_trimmed_def Let_def case_prod_beta' scan_reset simp del: scan_deliver.simps split: if_splits)
  qed
qed

theorem log_scan_incremental_witness:
  "\<exists>outs. scan_deliver 0 (+) [2, 3::nat] [LogAppended 3, LogTrimHead 1] (Some (scan_state 0 (+) [1, 2])) =
      (Some (scan_state 0 (+) [2, 3]), outs) \<and> outs \<noteq> [] \<and> last outs = 5"
  using log_scan_incremental [where b = "\<lparr>gb_buf = [1, 2::nat], gb_version = 0, gb_max_size = Some 2\<rparr>"
      and initial = 0 and step = "(+)" and st = "Some (scan_state 0 (+) [1, 2])" and op = "GAppend 3"
      and b' = "\<lparr>gb_buf = [2, 3], gb_version = 2, gb_max_size = Some 2\<rparr>" and cs = "[LogAppended 3, LogTrimHead 1]"]
  by (simp add: log_ok_def in_capacity_def scan_sync_def rg_append_def gb_append_def gb_enforce_max_size_def
      trim_head_overflow_def gb_put_def log_trimmed_def)

text \<open>
  In a batch the scan goes wrong. A batch delivers only the last change of the log's delta node,
  so clearing a one-element log and appending in one batch shows the scan the append only. The scan
  takes the new element for the old one: it emits nothing, keeps the old accumulator, and the next
  append is folded onto it (1 + 3 where the log holds 2 and 3). With two appends after the clear it
  emits a wrong value at once.
\<close>

theorem log_scan_batch_stale:
  "let b = \<lparr>gb_buf = [1::nat], gb_version = 0, gb_max_size = None\<rparr>;
       st = Some (scan_state 0 (+) [1::nat])
   in map_option (\<lambda>(b, cs). (gb_buf b, last cs)) (run_ops rlog_step b [GClear, GAppend 2]) = Some ([2], LogAppended 2) \<and>
      log_scan_body 0 (+) [2] [LogAppended 2] st = (scan_state 0 (+) [1], None) \<and>
      snd (log_scan_body 0 (+) [2, 3] [LogAppended 3] st) = Some 4 \<and>
      map_option (\<lambda>(b, cs). (gb_buf b, last cs)) (run_ops rlog_step b [GClear, GAppend 2, GAppend 3]) = Some ([2, 3], LogAppended 3)"
  by (simp add: rg_clear_def gb_clear_def rg_append_def gb_append_def gb_enforce_max_size_def trim_head_overflow_def
      gb_put_def log_trimmed_def log_scan_body_def scan_state_def Let_def)

section \<open>Capacity\<close>

lemma rl_append_total:
  "rl_max_size l \<noteq> Some 0 \<Longrightarrow> \<exists>l' cs. rl_append v l = Some (l', cs) \<and> lb_buf (rl_backend l') \<noteq> [] \<and>
     last (lb_buf (rl_backend l')) = v"
  by (cases "rl_max_size l") (auto simp: rl_append_def rl_enforce_capacity_def lb_enforce_max_size_def lb_append_def
      trim_head_overflow_def Let_def)

text \<open>
  A bounded list stays within its capacity: after creation and any operations it holds at most
  \<open>max_size\<close> elements, and appending still succeeds, keeps the bound, and leaves the appended
  value last.
\<close>

theorem list_capacity:
  assumes "rl_new initial (Some m) = Some l" "run_ops list_step l ops = Some (l', cs)"
  shows "length (lb_buf (rl_backend l')) \<le> m \<and>
    (\<exists>l'' cs'. rl_append v l' = Some (l'', cs') \<and> length (lb_buf (rl_backend l'')) \<le> m \<and>
       lb_buf (rl_backend l'') \<noteq> [] \<and> last (lb_buf (rl_backend l'')) = v)"
proof -
  have l: "list_ok l" "rl_max_size l = Some m" "m \<noteq> 0"
    using assms(1) by (auto simp: rl_new_def lb_new_def bind_eq_Some_conv list_ok_def list_of_def
        split: if_splits dest: within_trim)
  have l': "list_ok l'" "rl_max_size l' = Some m"
    using rlist.replay_run [OF l(1) refl assms(2)] run_list_max_size [OF assms(2)] l(2) by auto
  obtain l'' cs' where app: "rl_append v l' = Some (l'', cs')" "lb_buf (rl_backend l'') \<noteq> []"
      "last (lb_buf (rl_backend l'')) = v"
    using rl_append_total [of l' v] l'(2) l(3) by auto
  then have "list_step l' (LAppend v) = Some (l'', cs')" by simp
  then have "list_ok l''" "rl_max_size l'' = Some m"
    using list_step_replay [OF l'(1)] list_step_max_size l'(2) by (blast, metis)
  with l' app show ?thesis by (auto simp: list_ok_def list_of_def in_capacity_def)
qed

theorem list_capacity_witness:
  "length [2, 3 :: nat] \<le> 2 \<and>
    (\<exists>l'' cs'. rl_append 4 \<lparr>rl_backend = \<lparr>lb_buf = [2, 3 :: nat], lb_version = 2\<rparr>, rl_max_size = Some 2\<rparr> = Some (l'', cs') \<and>
       length (lb_buf (rl_backend l'')) \<le> 2 \<and> last (lb_buf (rl_backend l'')) = 4)"
  using list_capacity [where initial = "[1, 2 :: nat]" and m = 2 and ops = "[LAppend 3]" and v = 4
      and l = "\<lparr>rl_backend = \<lparr>lb_buf = [1, 2], lb_version = 0\<rparr>, rl_max_size = Some 2\<rparr>"
      and l' = "\<lparr>rl_backend = \<lparr>lb_buf = [2, 3], lb_version = 2\<rparr>, rl_max_size = Some 2\<rparr>"
      and cs = "[ListAppend 3, ListTrimHead 1]"]
  by (auto simp: rl_new_def lb_new_def trim_head_overflow_def rl_append_def rl_enforce_capacity_def lb_append_def
      lb_enforce_max_size_def lb_put_def)

end
