(* ===== verification/Node.thy ===== *)
theory Node
  imports Protocol
begin

text \<open>
  The state of one node of the graph engine and the transitions that touch it alone
  (\<open>node.rs\<close>): the bookkeeping of its dependencies, its cached value, its wave flags, pause
  locks and pull demands, its reaction to a message of a dependency, and what it does to emit one
  message. Values are the type \<open>'v\<close>; a function is known to the node only by the fact that it has
  one and whether its pool is asynchronous; hooks and sinks of user code are numbers. Runtime
  versions of nodes and the reference counts of the arena are not part of this state. Vectors
  indexed by dependency are lists; that the indexes are in range is an invariant of the engine.
\<close>

section \<open>State\<close>

datatype status = Sentinel | Pending | StatusDirty | Settled | StatusResolved | Completed | Errored

definition is_fresh :: "status \<Rightarrow> bool" where
  "is_fresh s \<longleftrightarrow> s \<in> {Settled, StatusResolved}"

definition is_terminal_status :: "status \<Rightarrow> bool" where
  "is_terminal_status s \<longleftrightarrow> s \<in> {Completed, Errored}"

datatype pausable = PausableTrue | ResumeAll | PausableFalse

datatype dep_terminal = DepComplete | DepError string

datatype 'v wave_data = WaveValue 'v | WaveSentinel

record 'v dep_state =
  ds_batch :: "'v list option list"
  ds_batch_waves :: "'v wave_data list list list"
  ds_batch_wave_id :: "u64 option list"
  ds_prev :: "'v option list"
  ds_has_data :: "bool list"
  ds_dirty :: "bool list"
  ds_tier :: "u8 list"
  ds_pending :: int
  ds_terminal :: "dep_terminal option list"
  ds_terminal_wave :: "dep_terminal option list"

definition dep_state_new :: "nat \<Rightarrow> 'v dep_state" where
  "dep_state_new n =
     \<lparr>ds_batch = replicate n None, ds_batch_waves = replicate n [], ds_batch_wave_id = replicate n None,
      ds_prev = replicate n None, ds_has_data = replicate n False, ds_dirty = replicate n False,
      ds_tier = replicate n 0, ds_pending = 0, ds_terminal = replicate n None,
      ds_terminal_wave = replicate n None\<rparr>"

record wave_state =
  ws_emitted_dirty :: bool
  ws_emitted_tier3 :: bool
  ws_inside_run :: bool
  ws_in_dep_mutation :: bool
  ws_rewire_run_pending :: bool
  ws_batch_dirty_owed :: bool

definition wave_state_new :: wave_state where
  "wave_state_new =
     \<lparr>ws_emitted_dirty = False, ws_emitted_tier3 = False, ws_inside_run = False,
      ws_in_dep_mutation = False, ws_rewire_run_pending = False, ws_batch_dirty_owed = False\<rparr>"

record 'v value_state =
  vs_cache :: "'v option"
  vs_has_data :: bool
  vs_status :: status
  vs_terminal :: bool

definition value_state_new :: "'v value_state" where
  "value_state_new = \<lparr>vs_cache = None, vs_has_data = False, vs_status = Sentinel, vs_terminal = False\<rparr>"

record node_config =
  cfg_partial :: bool
  cfg_pausable :: pausable
  cfg_pull_id :: "lock_id option"
  cfg_complete_when_deps_complete :: bool
  cfg_error_when_deps_error :: bool
  cfg_terminal_as_real_input :: bool

text \<open>A subscriber is user code, or the callback of a dependent: the node and the index of the edge.\<close>

datatype sink = UserSink nat | DepSink nat nat

record 'v node_aux =
  ax_subscribers :: "(u64 \<times> sink) list"
  ax_next_sub_id :: u64
  ax_activated :: bool
  ax_state :: "'v option"
  ax_state_persist :: bool
  ax_on_deactivation :: "nat list"
  ax_on_invalidate :: "nat list"
  ax_pull_demand_owed :: "'v pull_demand option"
  ax_active_pull :: "'v pull_demand option"
  ax_in_deliver_demand :: bool
  ax_pull_dirty_owed :: bool
  ax_pause_lockset :: "lock_id list"
  ax_paused_dep_wave_occurred :: bool
  ax_pause_buffer :: "'v wave list"

definition node_aux_new :: "'v node_aux" where
  "node_aux_new =
     \<lparr>ax_subscribers = [], ax_next_sub_id = 0, ax_activated = False, ax_state = None, ax_state_persist = False,
      ax_on_deactivation = [], ax_on_invalidate = [], ax_pull_demand_owed = None, ax_active_pull = None,
      ax_in_deliver_demand = False, ax_pull_dirty_owed = False, ax_pause_lockset = [],
      ax_paused_dep_wave_occurred = False, ax_pause_buffer = []\<rparr>"

record 'v node =
  n_deps :: "nat list"
  n_has_fn :: bool
  n_async :: bool
  n_config :: node_config
  n_has_called_fn_once :: bool
  n_value :: "'v value_state"
  n_wave :: wave_state
  n_dep :: "'v dep_state"
  n_unsubs :: "(nat \<times> u64) option list"
  n_restored_handshake :: "bool list"
  n_aux :: "'v node_aux"

abbreviation upd_value :: "('v value_state \<Rightarrow> 'v value_state) \<Rightarrow> 'v node \<Rightarrow> 'v node" where
  "upd_value f n \<equiv> n\<lparr>n_value := f (n_value n)\<rparr>"

abbreviation upd_wave :: "(wave_state \<Rightarrow> wave_state) \<Rightarrow> 'v node \<Rightarrow> 'v node" where
  "upd_wave f n \<equiv> n\<lparr>n_wave := f (n_wave n)\<rparr>"

abbreviation upd_dep :: "('v dep_state \<Rightarrow> 'v dep_state) \<Rightarrow> 'v node \<Rightarrow> 'v node" where
  "upd_dep f n \<equiv> n\<lparr>n_dep := f (n_dep n)\<rparr>"

abbreviation upd_aux :: "('v node_aux \<Rightarrow> 'v node_aux) \<Rightarrow> 'v node \<Rightarrow> 'v node" where
  "upd_aux f n \<equiv> n\<lparr>n_aux := f (n_aux n)\<rparr>"

section \<open>Dependencies\<close>

definition all_settled :: "bool \<Rightarrow> 'v dep_state \<Rightarrow> bool" where
  "all_settled terminal_as_real_input d \<longleftrightarrow>
     list_all (\<lambda>i. ds_has_data d ! i \<or> terminal_as_real_input \<and> ds_terminal d ! i \<noteq> None)
       [0..<length (ds_has_data d)]"

definition push_last :: "'a \<Rightarrow> 'a list list \<Rightarrow> 'a list list" where
  "push_last x xss = xss[length xss - 1 := last xss @ [x]]"

definition current_wave_mut :: "u64 \<Rightarrow> nat \<Rightarrow> 'v dep_state \<Rightarrow> 'v dep_state" where
  "current_wave_mut delivery_id i d =
     (if ds_batch_wave_id d ! i \<noteq> Some delivery_id
      then d\<lparr>ds_batch_waves := (ds_batch_waves d)[i := ds_batch_waves d ! i @ [[]]],
             ds_batch_wave_id := (ds_batch_wave_id d)[i := Some delivery_id]\<rparr>
      else d)"

definition record_wave_item :: "u64 \<Rightarrow> nat \<Rightarrow> 'v wave_data \<Rightarrow> 'v dep_state \<Rightarrow> 'v dep_state" where
  "record_wave_item delivery_id i item d =
     (let d = current_wave_mut delivery_id i d
      in d\<lparr>ds_batch_waves := (ds_batch_waves d)[i := push_last item (ds_batch_waves d ! i)]\<rparr>)"

definition record_wave_data :: "u64 \<Rightarrow> nat \<Rightarrow> 'v \<Rightarrow> 'v dep_state \<Rightarrow> 'v dep_state" where
  "record_wave_data delivery_id i v = record_wave_item delivery_id i (WaveValue v)"

definition record_wave_sentinel :: "u64 \<Rightarrow> nat \<Rightarrow> 'v dep_state \<Rightarrow> 'v dep_state \<times> bool" where
  "record_wave_sentinel delivery_id i d =
     (record_wave_item delivery_id i WaveSentinel d, ds_batch_wave_id d ! i = Some delivery_id)"

definition has_run_triggering_projection :: "'v dep_state \<Rightarrow> bool" where
  "has_run_triggering_projection d \<longleftrightarrow>
     list_ex (list_ex (\<lambda>wave. wave = [] \<or> list_ex (\<lambda>item. item \<noteq> WaveSentinel) wave)) (ds_batch_waves d)"

definition clear_wave_projection :: "nat \<Rightarrow> 'v dep_state \<Rightarrow> 'v dep_state" where
  "clear_wave_projection i d =
     d\<lparr>ds_batch_waves := (ds_batch_waves d)[i := []], ds_batch_wave_id := (ds_batch_wave_id d)[i := None]\<rparr>"

definition record_resolved_wave :: "u64 \<Rightarrow> nat \<Rightarrow> 'v dep_state \<Rightarrow> 'v dep_state" where
  "record_resolved_wave = current_wave_mut"

text \<open>A dependency that was dirty has settled.\<close>

definition clear_dirty :: "nat \<Rightarrow> 'v dep_state \<Rightarrow> 'v dep_state" where
  "clear_dirty i d =
     (if ds_dirty d ! i then d\<lparr>ds_dirty := (ds_dirty d)[i := False], ds_pending := ds_pending d - 1\<rparr> else d)"

definition mark_dep_dirty :: "nat \<Rightarrow> 'v dep_state \<Rightarrow> 'v dep_state" where
  "mark_dep_dirty i d =
     d\<lparr>ds_dirty := (ds_dirty d)[i := True], ds_pending := ds_pending d + 1, ds_tier := (ds_tier d)[i := 2]\<rparr>"

definition push_batch :: "nat \<Rightarrow> 'v \<Rightarrow> 'v dep_state \<Rightarrow> 'v dep_state" where
  "push_batch i v d =
     d\<lparr>ds_batch := (ds_batch d)[i := Some (case ds_batch d ! i of Some b \<Rightarrow> b @ [v] | None \<Rightarrow> [v])]\<rparr>"

section \<open>Deciding to run\<close>

datatype maybe_run_decision = RunSkip | RunPassthrough | RunRun

definition pull_quiet :: "'v node \<Rightarrow> bool" where
  "pull_quiet n \<longleftrightarrow> cfg_pull_id (n_config n) \<noteq> None \<and> ax_active_pull (n_aux n) = None"

definition is_paused :: "'v node \<Rightarrow> bool" where
  "is_paused n \<longleftrightarrow> ax_pause_lockset (n_aux n) \<noteq> []"

definition all_deps_settled :: "'v node \<Rightarrow> bool" where
  "all_deps_settled n = all_settled (cfg_terminal_as_real_input (n_config n)) (n_dep n)"

definition decide_maybe_run :: "'v node \<Rightarrow> 'v node \<times> maybe_run_decision" where
  "decide_maybe_run n =
     (if ws_in_dep_mutation (n_wave n)
      then (upd_wave (\<lambda>w. w\<lparr>ws_rewire_run_pending := True\<rparr>) n, RunSkip)
      else if cfg_pausable (n_config n) = PausableTrue \<and> (is_paused n \<or> pull_quiet n)
      then (upd_aux (\<lambda>a. a\<lparr>ax_paused_dep_wave_occurred := True\<rparr>) n, RunSkip)
      else if ds_pending (n_dep n) > 0 then (n, RunSkip)
      else if \<not> n_has_fn n then (n, RunPassthrough)
      else if \<not> (n_has_called_fn_once n \<or> cfg_partial (n_config n) \<or> all_deps_settled n) then (n, RunSkip)
      else (n, RunRun))"

section \<open>Receiving from a dependency\<close>

record 'v receive_action =
  ra_emit_teardown :: bool
  ra_emit_dirty :: bool
  ra_do_invalidate :: bool
  ra_invalidate_as_msg :: bool
  ra_had_data :: bool
  ra_clear_undirty :: bool
  ra_defer_maybe_run :: bool
  ra_decision :: maybe_run_decision
  ra_down_msgs :: "'v wave option"
  ra_settle_absorbed :: bool
  ra_fire_demand :: bool

definition no_action :: "'v receive_action" where
  "no_action =
     \<lparr>ra_emit_teardown = False, ra_emit_dirty = False, ra_do_invalidate = False, ra_invalidate_as_msg = False,
      ra_had_data = False, ra_clear_undirty = False, ra_defer_maybe_run = False, ra_decision = RunSkip,
      ra_down_msgs = None, ra_settle_absorbed = False, ra_fire_demand = False\<rparr>"

definition has_work :: "'v receive_action \<Rightarrow> bool" where
  "has_work a \<longleftrightarrow> ra_emit_teardown a \<or> ra_emit_dirty a \<or> ra_do_invalidate a \<or> ra_defer_maybe_run a \<or>
     ra_decision a \<noteq> RunSkip \<or> ra_settle_absorbed a \<or> ra_fire_demand a \<or>
     (case ra_down_msgs a of None \<Rightarrow> False | Some msgs \<Rightarrow> msgs \<noteq> [])"

definition set_maybe_run :: "bool \<Rightarrow> 'v node \<times> 'v receive_action \<Rightarrow> 'v node \<times> 'v receive_action" where
  "set_maybe_run in_flight r =
     (case r of (n, a) \<Rightarrow>
        if in_flight then (n, a\<lparr>ra_defer_maybe_run := True\<rparr>)
        else (let (n, d) = decide_maybe_run n in (n, a\<lparr>ra_decision := d\<rparr>)))"

definition receive_invalidate :: "u64 \<Rightarrow> nat \<Rightarrow> 'v node \<Rightarrow> 'v node \<times> 'v receive_action" where
  "receive_invalidate delivery_id i n =
     (let quiet = pull_quiet n;
          d = n_dep n;
          d = d\<lparr>ds_prev := (ds_prev d)[i := None], ds_has_data := (ds_has_data d)[i := False],
                ds_batch := (ds_batch d)[i := None]\<rparr>;
          (d, had_current_projection) = record_wave_sentinel delivery_id i d;
          d = (if \<not> had_current_projection \<and> \<not> has_run_triggering_projection d
               then clear_wave_projection i d else d);
          d = clear_dirty i d;
          n = n\<lparr>n_dep := d\<rparr>;
          n = (if ax_paused_dep_wave_occurred (n_aux n) \<and> list_all (\<lambda>b. b = None) (ds_batch d)
               then upd_aux (\<lambda>a. a\<lparr>ax_paused_dep_wave_occurred := False\<rparr>) n else n);
          had_data = vs_has_data (n_value n);
          undirty_no_settle = (ds_pending d = 0 \<and> ws_emitted_dirty (n_wave n));
          paused = (is_paused n \<or> quiet);
          buffer_own_invalidate = (paused \<and> cfg_pausable (n_config n) = ResumeAll);
          a = no_action\<lparr>ra_had_data := had_data, ra_do_invalidate := True,
                        ra_invalidate_as_msg := buffer_own_invalidate \<and> had_data, ra_fire_demand := True\<rparr>
      in (n, if undirty_no_settle
             then (if \<not> had_data then a\<lparr>ra_down_msgs := Some [Resolved]\<rparr> else a\<lparr>ra_clear_undirty := True\<rparr>)
             else a))"

definition receive_dirty :: "nat \<Rightarrow> 'v node \<Rightarrow> 'v node \<times> 'v receive_action" where
  "receive_dirty i n =
     (if ds_dirty (n_dep n) ! i then (n, no_action)
      else let n = upd_dep (mark_dep_dirty i) n
           in if pull_quiet n \<or> ws_emitted_dirty (n_wave n) then (n, no_action)
              else (upd_value (\<lambda>v. v\<lparr>vs_status := StatusDirty\<rparr>)
                      (upd_wave (\<lambda>w. w\<lparr>ws_emitted_dirty := True\<rparr>) n),
                    no_action\<lparr>ra_emit_dirty := True\<rparr>))"

text \<open>The common part of \<open>DATA\<close> and \<open>RESOLVED\<close>: the dependency has settled.\<close>

definition receive_settled :: "bool \<Rightarrow> nat \<Rightarrow> 'v node \<Rightarrow> 'v node \<times> 'v receive_action" where
  "receive_settled in_flight i n =
     (let n = upd_dep (\<lambda>d. clear_dirty i (d\<lparr>ds_tier := (ds_tier d)[i := 3]\<rparr>)) n;
          pending_drained = (ds_pending (n_dep n) = 0);
          n = (if \<not> pending_drained \<and> cfg_pausable (n_config n) = PausableTrue \<and>
                  \<not> ws_in_dep_mutation (n_wave n) \<and> (is_paused n \<or> pull_quiet n)
               then upd_aux (\<lambda>a. a\<lparr>ax_paused_dep_wave_occurred := True\<rparr>) n else n)
      in if pending_drained
         then (let (n, a) = set_maybe_run in_flight (n, no_action) in (n, a\<lparr>ra_fire_demand := True\<rparr>))
         else (n, no_action))"

definition receive_data :: "bool \<Rightarrow> u64 \<Rightarrow> nat \<Rightarrow> 'v \<Rightarrow> 'v node \<Rightarrow> 'v node \<times> 'v receive_action" where
  "receive_data in_flight delivery_id i v n =
     (if n_restored_handshake n ! i
      then (upd_dep (\<lambda>d. d\<lparr>ds_prev := (ds_prev d)[i := Some v], ds_has_data := (ds_has_data d)[i := True],
              ds_tier := (ds_tier d)[i := 3], ds_batch := (ds_batch d)[i := None]\<rparr>) n, no_action)
      else receive_settled in_flight i
             (upd_dep (\<lambda>d. let d = record_wave_data delivery_id i v (push_batch i v d)
                           in d\<lparr>ds_has_data := (ds_has_data d)[i := True]\<rparr>) n))"

definition receive_terminal :: "bool \<Rightarrow> nat \<Rightarrow> dep_terminal \<Rightarrow> 'v node \<Rightarrow> 'v node \<times> 'v receive_action" where
  "receive_terminal in_flight i t n =
     (let n = upd_dep (\<lambda>d. clear_dirty i (d\<lparr>ds_terminal := (ds_terminal d)[i := Some t],
                             ds_terminal_wave := (ds_terminal_wave d)[i := Some t]\<rparr>)) n;
          all_deps_terminal = (n_deps n \<noteq> [] \<and> list_all (\<lambda>t. t \<noteq> None) (ds_terminal (n_dep n)));
          (n, a) =
            (case t of
               DepError s \<Rightarrow>
                 if cfg_error_when_deps_error (n_config n)
                 then (n, no_action\<lparr>ra_down_msgs := Some [Error s]\<rparr>)
                 else if cfg_terminal_as_real_input (n_config n) then set_maybe_run in_flight (n, no_action)
                 else if cfg_complete_when_deps_complete (n_config n) \<and> all_deps_terminal
                 then (n, no_action\<lparr>ra_down_msgs := Some [Complete]\<rparr>)
                 else (n, no_action\<lparr>ra_settle_absorbed := True\<rparr>)
             | DepComplete \<Rightarrow>
                 if cfg_terminal_as_real_input (n_config n) then set_maybe_run in_flight (n, no_action)
                 else if cfg_complete_when_deps_complete (n_config n) \<and> all_deps_terminal
                 then (n, no_action\<lparr>ra_down_msgs := Some [Complete]\<rparr>)
                 else (n, no_action\<lparr>ra_settle_absorbed := True\<rparr>))
      in (n, a\<lparr>ra_fire_demand := True\<rparr>))"

definition receive_message ::
  "bool \<Rightarrow> u64 \<Rightarrow> nat \<Rightarrow> 'v message \<Rightarrow> 'v node \<Rightarrow> 'v node \<times> 'v receive_action" where
  "receive_message in_flight delivery_id i msg n =
     (case msg of
        Invalidate \<Rightarrow> receive_invalidate delivery_id i n
      | Dirty \<Rightarrow> receive_dirty i n
      | Data v \<Rightarrow> receive_data in_flight delivery_id i v n
      | Resolved \<Rightarrow> receive_settled in_flight i (upd_dep (record_resolved_wave delivery_id i) n)
      | Complete \<Rightarrow> receive_terminal in_flight i DepComplete n
      | Error s \<Rightarrow> receive_terminal in_flight i (DepError s) n
      | Teardown \<Rightarrow> (n, no_action\<lparr>ra_down_msgs := Some [Complete, Teardown]\<rparr>)
      | _ \<Rightarrow> (n, no_action))"

text \<open>\<open>collect_receive_from_dep_action_from_graph\<close>.\<close>

definition collect_receive ::
  "bool \<Rightarrow> u64 \<Rightarrow> nat \<Rightarrow> 'v message \<Rightarrow> 'v node \<Rightarrow> 'v node \<times> 'v receive_action option" where
  "collect_receive in_flight delivery_id i msg n =
     (if vs_terminal (n_value n)
      then (n, if msg = Teardown then Some (no_action\<lparr>ra_emit_teardown := True\<rparr>) else None)
      else let (n, a) = receive_message in_flight delivery_id i msg n
           in (n, if has_work a then Some a else None))"

section \<open>Emitting\<close>

text \<open>
  What emitting one message does to the node: nothing, a broadcast to the subscribers, or an
  invalidation (the hooks run before the broadcast).
\<close>

datatype 'v down_action = DownNothing | DownEmit "'v message" | DownInvalidate "nat list"

text \<open>The reset of the pull and pause state when a node ends.\<close>

definition clear_on_terminal :: "'v node_aux \<Rightarrow> 'v node_aux" where
  "clear_on_terminal a =
     a\<lparr>ax_pull_demand_owed := None, ax_active_pull := None, ax_in_deliver_demand := False,
       ax_pull_dirty_owed := False, ax_paused_dep_wave_occurred := False, ax_pause_buffer := []\<rparr>"

definition clear_cache :: "'v value_state \<Rightarrow> 'v value_state" where
  "clear_cache v = v\<lparr>vs_cache := None, vs_has_data := False, vs_status := Sentinel\<rparr>"

definition enter_terminal :: "status \<Rightarrow> 'v node \<Rightarrow> 'v node" where
  "enter_terminal s n =
     upd_aux clear_on_terminal (upd_value (\<lambda>v. v\<lparr>vs_terminal := True, vs_status := s\<rparr>) n)"

definition collect_down :: "'v message \<Rightarrow> 'v node \<Rightarrow> 'v node \<times> 'v down_action" where
  "collect_down msg n =
     (case msg of
        Dirty \<Rightarrow>
          if ws_emitted_dirty (n_wave n) then (n, DownNothing)
          else (upd_value (\<lambda>v. v\<lparr>vs_status := StatusDirty\<rparr>) (upd_wave (\<lambda>w. w\<lparr>ws_emitted_dirty := True\<rparr>) n),
                DownEmit Dirty)
      | Data v \<Rightarrow>
          (upd_wave (\<lambda>w. w\<lparr>ws_emitted_tier3 := True\<rparr>)
             (upd_value (\<lambda>s. s\<lparr>vs_cache := Some v, vs_has_data := True, vs_status := Settled\<rparr>) n),
           DownEmit (Data v))
      | Resolved \<Rightarrow>
          (upd_wave (\<lambda>w. w\<lparr>ws_emitted_tier3 := True\<rparr>)
             (upd_value (\<lambda>s. s\<lparr>vs_status := (if vs_has_data s then StatusResolved else Sentinel)\<rparr>) n),
           DownEmit Resolved)
      | Invalidate \<Rightarrow>
          if \<not> vs_has_data (n_value n) then (n, DownNothing)
          else (upd_value clear_cache n, DownInvalidate (ax_on_invalidate (n_aux n)))
      | Complete \<Rightarrow>
          if vs_terminal (n_value n) then (n, DownNothing)
          else (enter_terminal Completed n, DownEmit Complete)
      | Error e \<Rightarrow>
          if vs_terminal (n_value n) then (n, DownNothing)
          else (enter_terminal Errored n, DownEmit (Error e))
      | Teardown \<Rightarrow> (n, DownEmit Teardown)
      | _ \<Rightarrow> (n, DownNothing))"

text \<open>\<open>emit_dirty_once\<close>: whether the \<open>DIRTY\<close> is to be broadcast.\<close>

definition dirty_once :: "'v node \<Rightarrow> 'v node \<times> bool" where
  "dirty_once n =
     (if ws_emitted_dirty (n_wave n) then (n, False)
      else (upd_value (\<lambda>v. v\<lparr>vs_status := StatusDirty\<rparr>) (upd_wave (\<lambda>w. w\<lparr>ws_emitted_dirty := True\<rparr>) n), True))"

text \<open>\<open>invalidate\<close>: the hooks to run, unless nothing is cached.\<close>

definition invalidate_node :: "'v node \<Rightarrow> ('v node \<times> nat list) option" where
  "invalidate_node n =
     (if vs_has_data (n_value n) then Some (upd_value clear_cache n, ax_on_invalidate (n_aux n)) else None)"

text \<open>The head of \<open>down\<close>: a stable sort by tier, and repeated invalidations collapse.\<close>

fun keep_first_invalidate :: "bool \<Rightarrow> 'v wave \<Rightarrow> 'v wave" where
  "keep_first_invalidate seen [] = []"
| "keep_first_invalidate seen (m # ms) =
     (if m = Invalidate
      then (if seen then keep_first_invalidate True ms else m # keep_first_invalidate True ms)
      else m # keep_first_invalidate seen ms)"

definition down_order :: "'v wave \<Rightarrow> 'v wave" where
  "down_order msgs =
     (let sorted = sort_key (\<lambda>m. as_u8 (msg_tier m)) msgs
      in if length (filter (\<lambda>m. m = Invalidate) sorted) > 1 then keep_first_invalidate False sorted
         else sorted)"

fun is_data :: "'v message \<Rightarrow> bool" where
  "is_data (Data _) = True"
| "is_data _ = False"

definition has_tier3 :: "'v wave \<Rightarrow> bool" where
  "has_tier3 ms \<longleftrightarrow> list_ex (\<lambda>m. is_data m \<or> m = Resolved) ms"

definition mixes_tier3 :: "'v wave \<Rightarrow> bool" where
  "mixes_tier3 ms \<longleftrightarrow> list_ex is_data ms \<and> list_ex (\<lambda>m. m = Resolved) ms"

definition should_buffer_on_pause :: "'v node \<Rightarrow> bool" where
  "should_buffer_on_pause n =
     (case cfg_pausable (n_config n) of
        PausableFalse \<Rightarrow> False
      | ResumeAll \<Rightarrow> is_paused n \<or> pull_quiet n
      | PausableTrue \<Rightarrow> (is_paused n \<or> pull_quiet n) \<and>
          (pull_quiet n \<and> \<not> ws_inside_run (n_wave n) \<and> n_deps n = [] \<or>
           \<not> ws_inside_run (n_wave n) \<and> n_has_fn n \<and> n_async n \<and> n_deps n \<noteq> []))"

definition buffer_wave :: "'v wave \<Rightarrow> 'v node \<Rightarrow> 'v node" where
  "buffer_wave buffered n =
     upd_aux (\<lambda>a. a\<lparr>ax_pause_buffer := ax_pause_buffer a @ [buffered]\<rparr>)
       (upd_wave (\<lambda>w. w\<lparr>ws_emitted_tier3 := True\<rparr>) n)"

definition end_down :: "'v node \<Rightarrow> 'v node" where
  "end_down n = upd_wave (\<lambda>w. w\<lparr>ws_emitted_dirty := False, ws_emitted_tier3 := False\<rparr>) n"

section \<open>Running the function\<close>

record 'v dep_record =
  dr_wave_data :: "'v wave_data list list"
  dr_prev_data :: "'v option"
  dr_latest :: "'v option"
  dr_terminal :: "dep_terminal option"

definition batch_last :: "'v list option \<Rightarrow> 'v option" where
  "batch_last b = (case b of None \<Rightarrow> None | Some vs \<Rightarrow> if vs = [] then None else Some (last vs))"

definition dep_records :: "'v node \<Rightarrow> 'v dep_record list" where
  "dep_records n =
     map (\<lambda>i. \<lparr>dr_wave_data = ds_batch_waves (n_dep n) ! i, dr_prev_data = ds_prev (n_dep n) ! i,
               dr_latest = (case batch_last (ds_batch (n_dep n) ! i) of
                              Some v \<Rightarrow> Some v | None \<Rightarrow> ds_prev (n_dep n) ! i),
               dr_terminal = ds_terminal_wave (n_dep n) ! i\<rparr>) [0..<length (n_deps n)]"

definition begin_run :: "'v node \<Rightarrow> 'v node" where
  "begin_run n =
     (let k = length (n_deps n) in
      upd_aux (\<lambda>a. a\<lparr>ax_on_invalidate := [], ax_on_deactivation := []\<rparr>)
        (upd_wave (\<lambda>w. w\<lparr>ws_inside_run := True, ws_emitted_tier3 := False\<rparr>)
          (upd_dep (\<lambda>d. d\<lparr>ds_batch_waves := replicate k [], ds_batch_wave_id := replicate k None,
                          ds_terminal_wave := replicate k None\<rparr>) n))\<lparr>n_has_called_fn_once := True\<rparr>)"

definition owes_undirty :: "bool \<Rightarrow> 'v node \<Rightarrow> bool" where
  "owes_undirty is_async n \<longleftrightarrow> ws_emitted_dirty (n_wave n) \<and> \<not> ws_emitted_tier3 (n_wave n) \<and>
     \<not> vs_terminal (n_value n) \<and> \<not> is_async"

definition roll_forward :: "'v dep_state \<Rightarrow> 'v dep_state" where
  "roll_forward d =
     d\<lparr>ds_prev := map (\<lambda>(b, p). case batch_last b of Some v \<Rightarrow> Some v | None \<Rightarrow> p)
         (zip (ds_batch d) (ds_prev d)),
       ds_batch := replicate (length (ds_batch d)) None\<rparr>"

definition end_run :: "bool \<Rightarrow> 'v node \<Rightarrow> 'v node" where
  "end_run undirty n =
     (let keep = (undirty \<and> (ws_batch_dirty_owed (n_wave n) \<or> ws_emitted_tier3 (n_wave n)));
          n = upd_dep roll_forward n
      in if keep then n else end_down n)"

text \<open>\<open>passthrough_emit\<close>: the value a node without a function relays.\<close>

definition passthrough :: "'v node \<Rightarrow> 'v node \<times> 'v option" where
  "passthrough n =
     (let v = batch_last (ds_batch (n_dep n) ! 0)
      in (upd_dep (\<lambda>d. d\<lparr>ds_prev := (case v of None \<Rightarrow> ds_prev d | Some x \<Rightarrow> (ds_prev d)[0 := Some x]),
                        ds_batch := (ds_batch d)[0 := None], ds_batch_waves := (ds_batch_waves d)[0 := []],
                        ds_batch_wave_id := (ds_batch_wave_id d)[0 := None]\<rparr>) n, v))"

definition try_run_decision :: "'v node \<Rightarrow> maybe_run_decision" where
  "try_run_decision n =
     (if ds_pending (n_dep n) > 0 then RunSkip
      else if \<not> n_has_fn n then RunPassthrough
      else if \<not> n_has_called_fn_once n
      then (if cfg_partial (n_config n) \<or> all_deps_settled n then RunRun else RunSkip)
      else RunRun)"

section \<open>Lifecycle, pause and pull\<close>

definition add_subscriber :: "sink \<Rightarrow> 'v node \<Rightarrow> 'v node \<times> u64 \<times> 'v message option" where
  "add_subscriber s n =
     (let i = ax_next_sub_id (n_aux n);
          n = upd_aux (\<lambda>a. a\<lparr>ax_next_sub_id := i + 1, ax_subscribers := ax_subscribers a @ [(i, s)]\<rparr>) n
      in (n, i,
          if cfg_pull_id (n_config n) \<noteq> None then None
          else if vs_has_data (n_value n) then map_option Data (vs_cache (n_value n))
          else if vs_status (n_value n) = StatusDirty then Some Dirty else None))"

definition remove_subscriber :: "u64 \<Rightarrow> 'v node \<Rightarrow> 'v node \<times> bool" where
  "remove_subscriber i n =
     (let old = ax_subscribers (n_aux n);
          kept = filter (\<lambda>e. fst e \<noteq> i) old
      in (upd_aux (\<lambda>a. a\<lparr>ax_subscribers := kept\<rparr>) n, length kept < length old \<and> kept = []))"

definition begin_activate :: "'v node \<Rightarrow> 'v node" where
  "begin_activate n =
     upd_aux (\<lambda>a. a\<lparr>ax_activated := True\<rparr>) (n\<lparr>n_unsubs := replicate (length (n_deps n)) None\<rparr>)"

definition runs_on_activation :: "'v node \<Rightarrow> bool" where
  "runs_on_activation n \<longleftrightarrow> n_deps n = [] \<and> n_has_fn n \<and> \<not> n_has_called_fn_once n"

definition dep_subscribed :: "nat \<Rightarrow> nat \<Rightarrow> u64 \<Rightarrow> 'v node \<Rightarrow> 'v node" where
  "dep_subscribed i dep sub_id n =
     n\<lparr>n_unsubs := (n_unsubs n)[i := Some (dep, sub_id)],
       n_restored_handshake := (n_restored_handshake n)[i := False]\<rparr>"

definition deactivate_node :: "'v node \<Rightarrow> 'v node" where
  "deactivate_node n =
     (let k = length (n_deps n);
          n = (if n_has_fn n \<or> n_deps n \<noteq> [] then upd_value clear_cache n else n);
          n = upd_dep (\<lambda>d. d\<lparr>ds_batch := replicate k None, ds_batch_waves := replicate k [],
                ds_batch_wave_id := replicate k None, ds_prev := replicate k None,
                ds_has_data := replicate k False, ds_dirty := replicate k False, ds_tier := replicate k 0,
                ds_terminal := replicate k None, ds_terminal_wave := replicate k None, ds_pending := 0\<rparr>) n;
          n = upd_wave (\<lambda>w. w\<lparr>ws_emitted_dirty := False\<rparr>) n;
          n = upd_aux (\<lambda>a. clear_on_terminal (a\<lparr>ax_activated := False, ax_on_deactivation := [],
                ax_on_invalidate := [], ax_pause_lockset := [],
                ax_state := (if ax_state_persist a then ax_state a else None)\<rparr>)) n
      in n\<lparr>n_unsubs := [], n_restored_handshake := map (\<lambda>_. False) (n_restored_handshake n),
           n_has_called_fn_once := False\<rparr>)"

definition can_fire_demand :: "'v node \<Rightarrow> bool" where
  "can_fire_demand n \<longleftrightarrow>
     \<not> (cfg_pull_id (n_config n) = None \<or> vs_terminal (n_value n) \<or> ds_pending (n_dep n) \<noteq> 0 \<or> is_paused n) \<and>
     \<not> (n_has_fn n \<and> \<not> n_has_called_fn_once n \<and> \<not> cfg_partial (n_config n) \<and> \<not> all_deps_settled n)"

definition pull_run_gated :: "'v node \<Rightarrow> bool" where
  "pull_run_gated n \<longleftrightarrow> ds_pending (n_dep n) \<noteq> 0 \<or>
     n_has_fn n \<and> \<not> n_has_called_fn_once n \<and> \<not> cfg_partial (n_config n) \<and> \<not> all_deps_settled n"

definition pause_acquire :: "lock_id \<Rightarrow> 'v node \<Rightarrow> 'v node" where
  "pause_acquire lock n = upd_aux (\<lambda>a. a\<lparr>ax_pause_lockset := List.insert lock (ax_pause_lockset a)\<rparr>) n"

text \<open>\<open>Some True\<close>: the last lock was released.\<close>

definition pause_release :: "lock_id \<Rightarrow> 'v node \<Rightarrow> 'v node \<times> bool option" where
  "pause_release lock n =
     (if lock \<notin> set (ax_pause_lockset (n_aux n)) then (n, None)
      else let n = upd_aux (\<lambda>a. a\<lparr>ax_pause_lockset := removeAll lock (ax_pause_lockset a)\<rparr>) n
           in (n, Some (\<not> is_paused n)))"

text \<open>\<open>reset_wave_flags_inner\<close>: recovery of a node that took part in an aborted wave.\<close>

definition reset_wave_flags :: "'v node \<Rightarrow> 'v node" where
  "reset_wave_flags n =
     (let k = length (n_deps n) in
      upd_dep (\<lambda>d. d\<lparr>ds_pending := 0, ds_batch := replicate k None, ds_batch_waves := replicate k [],
          ds_batch_wave_id := replicate k None, ds_terminal_wave := replicate k None,
          ds_dirty := replicate k False\<rparr>)
        (upd_wave (\<lambda>w. w\<lparr>ws_inside_run := False, ws_emitted_dirty := False, ws_emitted_tier3 := False\<rparr>) n))"

text \<open>\<open>new_in_arena\<close> and \<open>configure_pull\<close>: a node before anything has happened.\<close>

definition node_new :: "nat list \<Rightarrow> bool \<Rightarrow> bool \<Rightarrow> node_config \<Rightarrow> 'v option \<Rightarrow> 'v node" where
  "node_new deps has_fn async cfg initial =
     \<lparr>n_deps = deps, n_has_fn = has_fn, n_async = async, n_config = cfg, n_has_called_fn_once = False,
      n_value = (case initial of
                   None \<Rightarrow> value_state_new
                 | Some v \<Rightarrow> value_state_new\<lparr>vs_cache := Some v, vs_has_data := True, vs_status := Settled\<rparr>),
      n_wave = wave_state_new, n_dep = dep_state_new (length deps),
      n_unsubs = replicate (length deps) None, n_restored_handshake = replicate (length deps) False,
      n_aux = node_aux_new\<rparr>"

end
