(* ===== verification/Engine.thy ===== *)
theory Engine
  imports Node Batch
begin

text \<open>
  The graph engine as a machine (\<open>node.rs\<close>). The calls of the engine nest arbitrarily: a node
  broadcasts to its subscribers, a subscriber that is another node runs its function, the function
  emits, and user code may call back into the engine at any point. The machine makes the call stack
  explicit: a \<open>task\<close> is a call, or what is left of one after a call it made; executing a task
  changes the state and pushes the calls it makes. A panic pops tasks; the guards of the source (their
  \<open>Drop\<close> implementations and \<open>catch_unwind\<close>) are the tasks that act on being popped.

  User code (node functions, sinks, hooks, batch bodies) is arbitrary: an oracle is asked for its
  next action, given the whole state of the engine, until it has none. Nodes are never freed here,
  so pins and reference counts do not appear; rewiring and the tasks queued for the wave boundary
  are not modelled.
\<close>

section \<open>State\<close>

datatype payload = PanicText string | HostAbort

datatype deferred_kind = DeferRun | DeferAbsorbedSettle

record wave_scope =
  sc_touched :: "nat list"
  sc_blamed :: "nat option"

record 'v world =
  w_node :: "nat \<Rightarrow> 'v node"
  w_depth :: nat
  w_next_delivery :: u64
  w_delivery :: u64
  w_deferred :: "(deferred_kind \<times> nat) list"
  w_scope :: "wave_scope option"
  w_active :: "(nat, 'v wave, unit) active_batch option"
  w_route :: "(lock_id \<times> nat) list"
  w_trace :: "(nat \<times> 'v message) list"

record 'v ctx =
  cx_deps :: "'v dep_record list"
  cx_pull :: "'v pull_demand option"

text \<open>What user code may do next: calls of the public interface, and for a function its context.\<close>

datatype 'v api =
  ApiDown nat "'v wave"
| ApiUp nat "'v wave" "nat option"
| ApiSubscribe nat nat
| ApiUnsubscribe nat u64
| ApiBatch nat
| ApiRollback
| ApiPanic payload

datatype 'v fn_act =
  FnDown "'v wave"
| FnUp "'v wave" "nat option"
| FnStateSet 'v
| FnStatePersist bool
| FnOnDeactivation nat
| FnOnInvalidate nat
| FnApi "'v api"

record 'v user =
  us_fn :: "'v world \<Rightarrow> nat \<Rightarrow> 'v ctx \<Rightarrow> nat \<Rightarrow> 'v fn_act option"
  us_sink :: "'v world \<Rightarrow> nat \<Rightarrow> 'v message \<Rightarrow> nat \<Rightarrow> 'v api option"
  us_hook :: "'v world \<Rightarrow> nat \<Rightarrow> nat \<Rightarrow> 'v api option"
  us_batch :: "'v world \<Rightarrow> nat \<Rightarrow> nat \<Rightarrow> 'v api option"

section \<open>Tasks\<close>

datatype (plugins only: code size) 'v task =
  TSinks "sink list" "'v message"
| TSink sink "'v message"
| TUserSink nat "'v message" nat
| THook nat nat
| TEmit nat "'v message"
| TReceive nat nat "'v message"
| TClearUndirty nat
| TDeferRun nat
| TDown nat "'v wave"
| TDirtyOnce nat
| TBatchOwed nat
| TDeliveryBegin nat "'v wave"
| TDownMsg nat "'v message"
| TDeliveryEnd u64
| TDownEnd nat
| TDrain
| TDrainAct deferred_kind nat
| TMaybeRun nat
| TTryRun nat
| TPassthrough nat
| TRunWave nat
| TFn nat "'v ctx" nat
| TRunGuard nat
| TRunSettle nat bool
| TRunRoll nat bool
| TSettleAbsorbed nat
| TSettleRest nat
| TInvalidate nat
| TUp nat "'v wave" "nat option"
| TUpMsg nat "'v message" "nat option"
| TRouteEnd "(lock_id \<times> nat) list"
| TPauseRelease nat lock_id
| TOnResume nat
| TResumeRun nat
| TOnDemand nat "'v pull_demand"
| TFireDemand nat
| TDeliverDemand nat "'v pull_demand"
| TFirePull nat
| TPullEnd nat
| TSubscribe nat sink "(nat \<times> nat) option"
| TActivateCheck nat
| TSubscribeDep nat nat nat
| TDepSubscribed nat nat nat u64
| TActivateRun nat
| TUnsubscribe nat u64
| TDeactivate nat
| TOwned nat "'v task list"
| TWaveEnd nat
| TRecoverEnd
| TSubscribeAbort nat u64
| TBatch nat
| TBatchBody nat nat
| TBatchEnd
| TCommit nat "'v wave"
| TRollback nat
| TBatchClose
| TRethrow payload

abbreviation node_of :: "'v world \<Rightarrow> nat \<Rightarrow> 'v node" where
  "node_of w n \<equiv> w_node w n"

definition upd_node :: "nat \<Rightarrow> ('v node \<Rightarrow> 'v node) \<Rightarrow> 'v world \<Rightarrow> 'v world" where
  "upd_node n f w = w\<lparr>w_node := (w_node w)(n := f (w_node w n))\<rparr>"

definition sinks_of :: "'v node \<Rightarrow> sink list" where
  "sinks_of n = map snd (ax_subscribers (n_aux n))"

text \<open>\<open>wave_register\<close>: the node takes part in the current wave.\<close>

definition wave_register :: "nat \<Rightarrow> 'v world \<Rightarrow> 'v world" where
  "wave_register n w =
     w\<lparr>w_scope := map_option (\<lambda>s. s\<lparr>sc_touched := List.insert n (sc_touched s)\<rparr>) (w_scope w)\<rparr>"

definition defer_action :: "deferred_kind \<Rightarrow> nat \<Rightarrow> 'v world \<Rightarrow> 'v world" where
  "defer_action k n w =
     (if (k, n) \<in> set (w_deferred w) then w else w\<lparr>w_deferred := w_deferred w @ [(k, n)]\<rparr>)"

text \<open>The calls an action makes, in order (\<open>InWaveDepReceiveAction::apply\<close>).\<close>

definition apply_tasks :: "nat \<Rightarrow> 'v receive_action \<Rightarrow> 'v task list" where
  "apply_tasks n a =
     (if ra_emit_teardown a then [TEmit n Teardown] else []) @
     (if ra_emit_dirty a then [TEmit n Dirty] else []) @
     (if ra_do_invalidate a
      then (if ra_invalidate_as_msg a \<and> ra_had_data a then [TDown n [Invalidate]] else [TInvalidate n]) else []) @
     (if ra_clear_undirty a then (if ra_had_data a then [TClearUndirty n] else [TDown n [Resolved]]) else []) @
     (if ra_defer_maybe_run a then [TDeferRun n] else []) @
     (case ra_decision a of RunSkip \<Rightarrow> [] | RunPassthrough \<Rightarrow> [TPassthrough n] | RunRun \<Rightarrow> [TRunWave n]) @
     (case ra_down_msgs a of None \<Rightarrow> [] | Some msgs \<Rightarrow> [TDown n msgs]) @
     (if ra_settle_absorbed a then [TSettleAbsorbed n] else []) @
     (if ra_fire_demand a then [TFireDemand n] else [])"

definition decision_tasks :: "nat \<Rightarrow> maybe_run_decision \<Rightarrow> 'v task list" where
  "decision_tasks n d = (case d of RunSkip \<Rightarrow> [] | RunPassthrough \<Rightarrow> [TPassthrough n] | RunRun \<Rightarrow> [TRunWave n])"

text \<open>The batch frame of a world, as the batch theory has it; every node can be pinned.\<close>

definition pinning_host :: "(unit, nat, 'v wave, unit, payload) batch_host" where
  "pinning_host =
     \<lparr>bh_pin = \<lambda>_ g. Some g, bh_commit = \<lambda>_ _ w. (w, Inr ()), bh_rollback = \<lambda>_ w. (w, Inr ()), bh_root = \<lambda>_. (),
      bh_drain = \<lambda>_ w. (w, Inr ()), bh_clear_uncommitted = \<lambda>_ _ g. g, bh_clear_all = \<lambda>_ g. g,
      bh_is_abort = \<lambda>p. p = HostAbort, bh_panic = PanicText\<rparr>"

definition batch_frame :: "'v world \<Rightarrow> (unit, nat, 'v wave, unit) batch_world" where
  "batch_frame w = \<lparr>bw_graph = (), bw_active = w_active w, bw_tokens = []\<rparr>"

definition defer_wave :: "nat \<Rightarrow> 'v wave \<Rightarrow> 'v world \<Rightarrow> 'v world" where
  "defer_wave n wave w = w\<lparr>w_active := bw_active (fst (defer_to_batch pinning_host n wave (batch_frame w)))\<rparr>"

section \<open>Executing a task\<close>

type_synonym 'v outcome = "'v world \<times> 'v task list \<times> payload option"

abbreviation push :: "'v world \<Rightarrow> 'v task list \<Rightarrow> 'v outcome" where
  "push w ts \<equiv> (w, ts, None)"

definition api_tasks :: "'v api \<Rightarrow> 'v world \<Rightarrow> 'v outcome" where
  "api_tasks a w =
     (case a of
        ApiDown n msgs \<Rightarrow> push w [TOwned n [TDown n msgs]]
      | ApiUp n msgs toward \<Rightarrow> push w [TOwned n [TUp n msgs toward]]
      | ApiSubscribe n k \<Rightarrow>
          if vs_terminal (n_value (node_of w n))
          then (w, [], Some (PanicText ''subscribe: node is terminal and non-resubscribable''))
          else push w [TOwned n [TSubscribe n (UserSink k) None],
                       TSubscribeAbort n (ax_next_sub_id (n_aux (node_of w n)))]
      | ApiUnsubscribe n i \<Rightarrow> push w [TUnsubscribe n i]
      | ApiBatch b \<Rightarrow> push w [TBatch b]
      | ApiRollback \<Rightarrow> push (w\<lparr>w_active := map_option (\<lambda>b. b\<lparr>ab_rolled_back := True\<rparr>) (w_active w)\<rparr>) []
      | ApiPanic p \<Rightarrow> (w, [], Some p))"

text \<open>User code: its next action, then the rest of it.\<close>

definition user_step :: "'v api option \<Rightarrow> 'v task \<Rightarrow> 'v world \<Rightarrow> 'v outcome" where
  "user_step next rest w =
     (case next of
        None \<Rightarrow> push w []
      | Some a \<Rightarrow> (case api_tasks a w of (w, ts, p) \<Rightarrow> (w, if p = None then ts @ [rest] else [], p)))"

definition fn_step :: "nat \<Rightarrow> 'v fn_act option \<Rightarrow> 'v task \<Rightarrow> 'v world \<Rightarrow> 'v outcome" where
  "fn_step n next rest w =
     (case next of
        None \<Rightarrow> push w []
      | Some (FnDown msgs) \<Rightarrow> push w [TDown n msgs, rest]
      | Some (FnUp msgs toward) \<Rightarrow> push w [TUp n msgs toward, rest]
      | Some (FnStateSet v) \<Rightarrow> push (upd_node n (upd_aux (\<lambda>a. a\<lparr>ax_state := Some v\<rparr>)) w) [rest]
      | Some (FnStatePersist b) \<Rightarrow> push (upd_node n (upd_aux (\<lambda>a. a\<lparr>ax_state_persist := b\<rparr>)) w) [rest]
      | Some (FnOnDeactivation h) \<Rightarrow>
          push (upd_node n (upd_aux (\<lambda>a. a\<lparr>ax_on_deactivation := ax_on_deactivation a @ [h]\<rparr>)) w) [rest]
      | Some (FnOnInvalidate h) \<Rightarrow>
          push (upd_node n (upd_aux (\<lambda>a. a\<lparr>ax_on_invalidate := ax_on_invalidate a @ [h]\<rparr>)) w) [rest]
      | Some (FnApi a) \<Rightarrow> user_step (Some a) rest w)"

text \<open>\<open>down\<close>: batch deferral, pause buffering, the synthesised \<open>DIRTY\<close>, then the delivery.\<close>

definition down_deliver :: "nat \<Rightarrow> bool \<Rightarrow> 'v wave \<Rightarrow> 'v world \<Rightarrow> 'v outcome" where
  "down_deliver n inside ms w =
     (if mixes_tier3 ms
      then (w, [], Some (PanicText ''down: a wave cannot mix DATA and RESOLVED''))
      else push w
        ((if has_tier3 ms \<and> (\<not> inside \<or> ax_pull_dirty_owed (n_aux (node_of w n))) then [TDirtyOnce n] else []) @
         [TDeliveryBegin n ms] @ (if inside then [] else [TDownEnd n])))"

definition down_buffer :: "nat \<Rightarrow> bool \<Rightarrow> 'v wave \<Rightarrow> 'v world \<Rightarrow> 'v outcome" where
  "down_buffer n inside ms w =
     (if should_buffer_on_pause (node_of w n)
      then (let buffered = filter (\<lambda>m. is_pause_buffered (msg_tier m)) ms;
                rest = filter (\<lambda>m. \<not> is_pause_buffered (msg_tier m)) ms;
                w = (if buffered = [] then w else upd_node n (buffer_wave buffered) w)
            in if rest = [] then push w [] else down_deliver n inside rest w)
      else down_deliver n inside ms w)"

definition down :: "nat \<Rightarrow> 'v wave \<Rightarrow> 'v world \<Rightarrow> 'v outcome" where
  "down n msgs w =
     (if vs_terminal (n_value (node_of w n)) then push w []
      else let inside = ws_inside_run (n_wave (node_of w n));
               w = wave_register n w;
               ms = down_order msgs
           in if \<not> inside \<and> collecting_batch (batch_frame w)
              then (let deferred = filter (\<lambda>m. is_batch_deferred (msg_tier m)) ms;
                        rest = filter (\<lambda>m. \<not> is_batch_deferred (msg_tier m)) ms
                    in if deferred \<noteq> [] then push (defer_wave n deferred w) [TDirtyOnce n, TBatchOwed n]
                       else if rest = [] then push w [] else down_buffer n inside rest w)
              else down_buffer n inside ms w)"

definition run_wave :: "nat \<Rightarrow> 'v world \<Rightarrow> 'v outcome" where
  "run_wave n w =
     (let w = wave_register n w;
          nd = node_of w n
      in if ws_inside_run (n_wave nd)
         then (w, [], Some (PanicText ''synchronous feedback cycle: node fn re-entered its own wave''))
         else if \<not> n_has_fn nd then (w, [], Some (PanicText ''run_wave without handle''))
         else let c = \<lparr>cx_deps = dep_records nd, cx_pull = ax_active_pull (n_aux nd)\<rparr>;
                  w = upd_node n begin_run w;
                  w = w\<lparr>w_scope := map_option (\<lambda>s. s\<lparr>sc_blamed := Some n\<rparr>) (w_scope w)\<rparr>
              in push w [TFn n c 0, TRunGuard n, TRunSettle n (n_async nd)])"

definition forward_up :: "nat \<Rightarrow> 'v message \<Rightarrow> nat option \<Rightarrow> 'v world \<Rightarrow> 'v task list" where
  "forward_up n m toward w =
     (let deps = n_deps (node_of w n) in
      case toward of
        Some i \<Rightarrow> if i < length deps then [TUpMsg (deps ! i) m None] else []
      | None \<Rightarrow> map (\<lambda>d. TUpMsg d m None) deps)"

definition up_msg :: "nat \<Rightarrow> 'v message \<Rightarrow> nat option \<Rightarrow> 'v world \<Rightarrow> 'v outcome" where
  "up_msg n m toward w =
     (case m of
        Pause lock \<Rightarrow> push (upd_node n (pause_acquire lock) w) []
      | Resume lock \<Rightarrow>
          if lock \<in> set (ax_pause_lockset (n_aux (node_of w n))) then push w [TPauseRelease n lock]
          else push w (forward_up n m toward w)
      | Pull demand \<Rightarrow>
          if cfg_pull_id (n_config (node_of w n)) = Some (pull_id demand)
          then (if (pull_id demand, n) \<in> set (w_route w) then push w []
                else push (w\<lparr>w_route := w_route w @ [(pull_id demand, n)]\<rparr>) [TOnDemand n demand])
          else push w (forward_up n m toward w)
      | _ \<Rightarrow>
          if n_deps (node_of w n) = [] then push w (if m = Invalidate then [TDown n [Invalidate]] else [])
          else push w (forward_up n m toward w))"

definition fire_pull :: "nat \<Rightarrow> 'v world \<Rightarrow> 'v outcome" where
  "fire_pull n w =
     (let nd = node_of w n;
          buf = ax_pause_buffer (n_aux nd);
          w = upd_node n (upd_aux (\<lambda>a. a\<lparr>ax_pause_buffer := []\<rparr>)) w
      in if buf \<noteq> []
         then push w (if cfg_pausable (n_config nd) = PausableTrue then [TDown n (last buf)] else map (TDown n) buf)
         else if ax_paused_dep_wave_occurred (n_aux nd)
         then (if pull_run_gated nd then push w []
               else push (upd_node n (\<lambda>nd. upd_wave (\<lambda>s. s\<lparr>ws_emitted_dirty := False\<rparr>)
                      (upd_aux (\<lambda>a. a\<lparr>ax_paused_dep_wave_occurred := False, ax_pull_dirty_owed := True\<rparr>) nd)) w)
                      [TTryRun n])
         else if n_has_fn nd
         then push (upd_node n (\<lambda>nd. upd_wave (\<lambda>s. s\<lparr>ws_emitted_dirty := False\<rparr>)
                     (upd_aux (\<lambda>a. a\<lparr>ax_pull_dirty_owed := True\<rparr>) nd)) w) [TTryRun n]
         else push w [])"

definition end_pull :: "'v node \<Rightarrow> 'v node" where
  "end_pull n = upd_aux (\<lambda>a. a\<lparr>ax_active_pull := None, ax_in_deliver_demand := False, ax_pull_dirty_owed := False\<rparr>) n"

definition end_inside :: "'v node \<Rightarrow> 'v node" where
  "end_inside n = upd_wave (\<lambda>s. s\<lparr>ws_inside_run := False\<rparr>) n"

definition leave_delivery :: "u64 \<Rightarrow> 'v world \<Rightarrow> 'v world" where
  "leave_delivery prev w = w\<lparr>w_delivery := prev, w_depth := w_depth w - 1\<rparr>"

definition subscribe :: "nat \<Rightarrow> sink \<Rightarrow> (nat \<times> nat) option \<Rightarrow> 'v world \<Rightarrow> 'v outcome" where
  "subscribe n s edge w =
     (let (nd, i, m) = add_subscriber s (node_of w n)
      in push (w\<lparr>w_node := (w_node w)(n := nd)\<rparr>)
           ([TSink s Start] @ (case m of None \<Rightarrow> [] | Some m \<Rightarrow> [TSink s m]) @ [TActivateCheck n] @
            (case edge of None \<Rightarrow> [] | Some (d, e) \<Rightarrow> [TDepSubscribed d e n i])))"

text \<open>The end of a batch: what is committed or rolled back, with the frame no longer collecting.\<close>

definition finish_batch :: "bool \<Rightarrow> 'v world \<Rightarrow> 'v world \<times> 'v task list" where
  "finish_batch committing w =
     (case take_for_finish (batch_frame w) of
        None \<Rightarrow> (w, [])
      | Some (f, fi) \<Rightarrow>
          (w\<lparr>w_active := bw_active f\<rparr>,
           (if committing \<and> \<not> fi_explicit_rollback fi
            then concat (map (\<lambda>(n, wave). case wave of None \<Rightarrow> [] | Some ms \<Rightarrow> [TCommit n ms])
                   (zip (fi_targets fi) (fi_deferred fi)))
            else map (\<lambda>i. TRollback (fi_targets fi ! i)) (fi_order fi)) @ [TBatchClose]))"

definition receive_from_dep :: "nat \<Rightarrow> nat \<Rightarrow> 'v message \<Rightarrow> 'v world \<Rightarrow> 'v outcome" where
  "receive_from_dep n i m w =
     (let w = wave_register n w;
          (nd, a) = collect_receive (w_depth w > 0) (w_delivery w) i m (node_of w n)
      in push (w\<lparr>w_node := (w_node w)(n := nd)\<rparr>) (case a of None \<Rightarrow> [] | Some a \<Rightarrow> apply_tasks n a))"

definition emit_dirty_once :: "nat \<Rightarrow> 'v world \<Rightarrow> 'v outcome" where
  "emit_dirty_once n w =
     (let (nd, emit) = dirty_once (node_of w n)
      in push (w\<lparr>w_node := (w_node w)(n := nd)\<rparr>) (if emit then [TSinks (sinks_of nd) Dirty] else []))"

definition enter_delivery :: "nat \<Rightarrow> 'v wave \<Rightarrow> 'v world \<Rightarrow> 'v outcome" where
  "enter_delivery n ms w =
     push (w\<lparr>w_delivery := w_next_delivery w, w_next_delivery := max (w_next_delivery w + 1) 1,
             w_depth := w_depth w + 1\<rparr>)
       (map (TDownMsg n) ms @ [TDeliveryEnd (w_delivery w)])"

definition deliver_down_msg :: "nat \<Rightarrow> 'v message \<Rightarrow> 'v world \<Rightarrow> 'v outcome" where
  "deliver_down_msg n m w =
     (let (nd, a) = collect_down m (node_of w n)
      in push (w\<lparr>w_node := (w_node w)(n := nd)\<rparr>)
           (case a of
              DownNothing \<Rightarrow> []
            | DownEmit m \<Rightarrow> [TSinks (sinks_of nd) m]
            | DownInvalidate hooks \<Rightarrow> map (\<lambda>h. THook h 0) hooks @ [TEmit n Invalidate]))"

definition finish_delivery :: "u64 \<Rightarrow> 'v world \<Rightarrow> 'v outcome" where
  "finish_delivery prev w =
     push (leave_delivery prev w) (if w_depth w = 1 then [TDrain] else [])"

definition drain_deferred_runs :: "'v world \<Rightarrow> 'v outcome" where
  "drain_deferred_runs w =
     (if w_deferred w = [] then push w []
      else push (w\<lparr>w_deferred := []\<rparr>)
        (map (\<lambda>(k, n). TDrainAct k n) (filter (\<lambda>a. fst a = DeferRun) (w_deferred w)) @
         map (\<lambda>(k, n). TDrainAct k n) (filter (\<lambda>a. fst a = DeferAbsorbedSettle) (w_deferred w)) @ [TDrain]))"

definition apply_deferred :: "deferred_kind \<Rightarrow> nat \<Rightarrow> 'v world \<Rightarrow> 'v outcome" where
  "apply_deferred k n w =
     (if vs_terminal (n_value (node_of w n)) then push w []
      else push w (case k of DeferRun \<Rightarrow> [TMaybeRun n] | DeferAbsorbedSettle \<Rightarrow> [TSettleAbsorbed n]))"

definition maybe_run :: "nat \<Rightarrow> 'v world \<Rightarrow> 'v outcome" where
  "maybe_run n w =
     (if w_depth w > 0 then push (defer_action DeferRun n w) []
      else let (nd, d) = decide_maybe_run (node_of w n)
           in push (w\<lparr>w_node := (w_node w)(n := nd)\<rparr>) (decision_tasks n d))"

definition try_run :: "nat \<Rightarrow> 'v world \<Rightarrow> 'v outcome" where
  "try_run n w =
     push w (decision_tasks n (try_run_decision (node_of w n)))"

definition passthrough_emit :: "nat \<Rightarrow> 'v world \<Rightarrow> 'v outcome" where
  "passthrough_emit n w =
     (let (nd, v) = passthrough (node_of w n)
      in push (w\<lparr>w_node := (w_node w)(n := nd)\<rparr>) (case v of None \<Rightarrow> [] | Some v \<Rightarrow> [TDown n [Data v]]))"

definition settle_run :: "nat \<Rightarrow> bool \<Rightarrow> 'v world \<Rightarrow> 'v outcome" where
  "settle_run n async w =
     (if owes_undirty async (node_of w n) then push w [TDown n [Resolved], TRunRoll n True]
      else push w [TRunRoll n False])"

definition settle_after_absorbed_terminal :: "nat \<Rightarrow> 'v world \<Rightarrow> 'v outcome" where
  "settle_after_absorbed_terminal n w =
     (if w_depth w > 0 then push (defer_action DeferAbsorbedSettle n w) []
      else if \<not> (ds_pending (n_dep (node_of w n)) = 0 \<and> ws_emitted_dirty (n_wave (node_of w n))) then push w []
      else push w ((if list_ex (\<lambda>b. b \<noteq> None \<and> b \<noteq> Some []) (ds_batch (n_dep (node_of w n)))
                    then [TMaybeRun n] else []) @ [TSettleRest n]))"

definition settle_rest :: "nat \<Rightarrow> 'v world \<Rightarrow> 'v outcome" where
  "settle_rest n w =
     push w (if ws_emitted_dirty (n_wave (node_of w n)) then [TDown n [Resolved]] else [])"

definition invalidate :: "nat \<Rightarrow> 'v world \<Rightarrow> 'v outcome" where
  "invalidate n w =
     (case invalidate_node (node_of w n) of
        None \<Rightarrow> push w []
      | Some (nd, hooks) \<Rightarrow>
          push (w\<lparr>w_node := (w_node w)(n := nd)\<rparr>) (map (\<lambda>h. THook h 0) hooks @ [TEmit n Invalidate]))"

definition up_route :: "nat \<Rightarrow> 'v wave \<Rightarrow> nat option \<Rightarrow> 'v world \<Rightarrow> 'v outcome" where
  "up_route n msgs toward w =
     (if list_ex (\<lambda>m. \<not> is_up_allowed m) msgs
      then (w, [], Some (PanicText ''ctx.up: message is down-only; up carries control tiers only''))
      else push (w\<lparr>w_route := []\<rparr>) (map (\<lambda>m. TUpMsg n m toward) msgs @ [TRouteEnd (w_route w)]))"

definition release_pause :: "nat \<Rightarrow> lock_id \<Rightarrow> 'v world \<Rightarrow> 'v outcome" where
  "release_pause n lock w =
     (let (nd, r) = pause_release lock (node_of w n)
      in push (w\<lparr>w_node := (w_node w)(n := nd)\<rparr>)
           (case r of
              None \<Rightarrow> []
            | Some resumed \<Rightarrow>
                (if resumed \<and> cfg_pull_id (n_config nd) = None then [TOnResume n] else []) @ [TFireDemand n]))"

definition on_resume :: "nat \<Rightarrow> 'v world \<Rightarrow> 'v outcome" where
  "on_resume n w =
     (if vs_terminal (n_value (node_of w n)) then push (upd_node n (upd_aux clear_on_terminal) w) []
      else push (upd_node n (upd_aux (\<lambda>a. a\<lparr>ax_pause_buffer := []\<rparr>)) w)
             (map (TDown n) (ax_pause_buffer (n_aux (node_of w n))) @ [TResumeRun n]))"

definition resume_run :: "nat \<Rightarrow> 'v world \<Rightarrow> 'v outcome" where
  "resume_run n w =
     push (upd_node n (upd_aux (\<lambda>a. a\<lparr>ax_paused_dep_wave_occurred := False\<rparr>)) w)
       (if ax_paused_dep_wave_occurred (n_aux (node_of w n)) then [TTryRun n] else [])"

definition on_demand :: "nat \<Rightarrow> 'v pull_demand \<Rightarrow> 'v world \<Rightarrow> 'v outcome" where
  "on_demand n demand w =
     (if cfg_pull_id (n_config (node_of w n)) = None \<or> ax_in_deliver_demand (n_aux (node_of w n)) then push w []
      else push (upd_node n (upd_aux (\<lambda>a. a\<lparr>ax_pull_demand_owed := Some demand\<rparr>)) w) [TFireDemand n])"

definition fire_owed_demand_if_ready :: "nat \<Rightarrow> 'v world \<Rightarrow> 'v outcome" where
  "fire_owed_demand_if_ready n w =
     (if ax_in_deliver_demand (n_aux (node_of w n)) \<or> \<not> can_fire_demand (node_of w n) then push w []
      else case ax_pull_demand_owed (n_aux (node_of w n)) of
             None \<Rightarrow> push w []
           | Some demand \<Rightarrow>
               push (upd_node n (upd_aux (\<lambda>a. a\<lparr>ax_pull_demand_owed := None\<rparr>)) w) [TDeliverDemand n demand])"

definition deliver_pull_demand :: "nat \<Rightarrow> 'v pull_demand \<Rightarrow> 'v world \<Rightarrow> 'v outcome" where
  "deliver_pull_demand n demand w =
     push (upd_node n (upd_aux (\<lambda>a. a\<lparr>ax_active_pull := Some demand, ax_in_deliver_demand := True\<rparr>)) w)
       [TFirePull n, TPullEnd n]"

definition activate_check :: "nat \<Rightarrow> 'v world \<Rightarrow> 'v outcome" where
  "activate_check n w =
     (if ax_activated (n_aux (node_of w n)) then push w []
      else push (upd_node n begin_activate w)
             (map (\<lambda>(i, d). TSubscribeDep n i d) (enumerate 0 (n_deps (node_of w n))) @ [TActivateRun n]))"

definition record_dep_subscription :: "nat \<Rightarrow> nat \<Rightarrow> nat \<Rightarrow> u64 \<Rightarrow> 'v world \<Rightarrow> 'v outcome" where
  "record_dep_subscription n i d sub w =
     (if i < length (n_unsubs (node_of w n)) then push (upd_node n (dep_subscribed i d sub) w) []
      else (w, [], Some (PanicText ''index out of bounds'')))"

definition unsubscribe :: "nat \<Rightarrow> u64 \<Rightarrow> 'v world \<Rightarrow> 'v outcome" where
  "unsubscribe n i w =
     (let (nd, became_empty) = remove_subscriber i (node_of w n)
      in push (w\<lparr>w_node := (w_node w)(n := nd)\<rparr>) (if became_empty then [TDeactivate n] else []))"

definition deactivate :: "nat \<Rightarrow> 'v world \<Rightarrow> 'v outcome" where
  "deactivate n w =
     push (upd_node n deactivate_node w)
       (concat (map (\<lambda>e. case e of None \<Rightarrow> [] | Some (d, i) \<Rightarrow> [TUnsubscribe d i]) (n_unsubs (node_of w n))) @
        map (\<lambda>h. THook h 0) (ax_on_deactivation (n_aux (node_of w n))))"

definition with_wave_owner :: "nat \<Rightarrow> 'v task list \<Rightarrow> 'v world \<Rightarrow> 'v outcome" where
  "with_wave_owner n body w =
     (if w_scope w \<noteq> None then push w body
      else push (w\<lparr>w_scope := Some \<lparr>sc_touched = [], sc_blamed = None\<rparr>\<rparr>) (body @ [TWaveEnd n]))"

definition begin_batch :: "nat \<Rightarrow> 'v world \<Rightarrow> 'v outcome" where
  "begin_batch b w =
     (if w_active w \<noteq> None then push w [TBatchBody b 0]
      else push (w\<lparr>w_active := Some (active_batch_new 0)\<rparr>) [TBatchBody b 0, TBatchEnd])"

definition commit_batched_wave :: "nat \<Rightarrow> 'v wave \<Rightarrow> 'v world \<Rightarrow> 'v outcome" where
  "commit_batched_wave n ms w =
     push (upd_node n (upd_wave (\<lambda>s. s\<lparr>ws_batch_dirty_owed := False\<rparr>)) w) [TOwned n [TDown n ms]]"

definition rollback_batched :: "nat \<Rightarrow> 'v world \<Rightarrow> 'v outcome" where
  "rollback_batched n w =
     (if ws_batch_dirty_owed (n_wave (node_of w n))
      then push (upd_node n (upd_wave (\<lambda>s. s\<lparr>ws_batch_dirty_owed := False\<rparr>)) w) [TOwned n [TDown n [Resolved]]]
      else push w [])"

fun exec :: "'v user \<Rightarrow> 'v task \<Rightarrow> 'v world \<Rightarrow> 'v outcome" where
  "exec u (TSinks ss m) w =
     (case ss of [] \<Rightarrow> push w [] | s # ss \<Rightarrow> push w [TSink s m, TSinks ss m])"
| "exec u (TSink s m) w =
     (case s of
        UserSink k \<Rightarrow> push (w\<lparr>w_trace := w_trace w @ [(k, m)]\<rparr>) [TUserSink k m 0]
      | DepSink n i \<Rightarrow> push w [TReceive n i m])"
| "exec u (TUserSink k m j) w = user_step (us_sink u w k m j) (TUserSink k m (Suc j)) w"
| "exec u (THook h j) w = user_step (us_hook u w h j) (THook h (Suc j)) w"
| "exec u (TEmit n m) w = push w [TSinks (sinks_of (node_of w n)) m]"
| "exec u (TReceive n i m) w = receive_from_dep n i m w"
| "exec u (TClearUndirty n) w = push (upd_node n (upd_wave (\<lambda>s. s\<lparr>ws_emitted_dirty := False\<rparr>)) w) []"
| "exec u (TDeferRun n) w = push (defer_action DeferRun n w) []"
| "exec u (TDown n msgs) w = down n msgs w"
| "exec u (TDirtyOnce n) w = emit_dirty_once n w"
| "exec u (TBatchOwed n) w = push (upd_node n (upd_wave (\<lambda>s. s\<lparr>ws_batch_dirty_owed := True\<rparr>)) w) []"
| "exec u (TDeliveryBegin n ms) w = enter_delivery n ms w"
| "exec u (TDownMsg n m) w = deliver_down_msg n m w"
| "exec u (TDeliveryEnd prev) w = finish_delivery prev w"
| "exec u (TDownEnd n) w = push (upd_node n end_down w) []"
| "exec u TDrain w = drain_deferred_runs w"
| "exec u (TDrainAct k n) w = apply_deferred k n w"
| "exec u (TMaybeRun n) w = maybe_run n w"
| "exec u (TTryRun n) w = try_run n w"
| "exec u (TPassthrough n) w = passthrough_emit n w"
| "exec u (TRunWave n) w = run_wave n w"
| "exec u (TFn n c j) w = fn_step n (us_fn u w n c j) (TFn n c (Suc j)) w"
| "exec u (TRunGuard n) w = push (upd_node n end_inside w) []"
| "exec u (TRunSettle n async) w = settle_run n async w"
| "exec u (TRunRoll n undirty) w = push (upd_node n (end_run undirty) w) []"
| "exec u (TSettleAbsorbed n) w = settle_after_absorbed_terminal n w"
| "exec u (TSettleRest n) w = settle_rest n w"
| "exec u (TInvalidate n) w = invalidate n w"
| "exec u (TUp n msgs toward) w = up_route n msgs toward w"
| "exec u (TUpMsg n m toward) w = up_msg n m toward w"
| "exec u (TRouteEnd saved) w = push (w\<lparr>w_route := saved\<rparr>) []"
| "exec u (TPauseRelease n lock) w = release_pause n lock w"
| "exec u (TOnResume n) w = on_resume n w"
| "exec u (TResumeRun n) w = resume_run n w"
| "exec u (TOnDemand n demand) w = on_demand n demand w"
| "exec u (TFireDemand n) w = fire_owed_demand_if_ready n w"
| "exec u (TDeliverDemand n demand) w = deliver_pull_demand n demand w"
| "exec u (TFirePull n) w = fire_pull n w"
| "exec u (TPullEnd n) w = push (upd_node n end_pull w) []"
| "exec u (TSubscribe n s edge) w = subscribe n s edge w"
| "exec u (TActivateCheck n) w = activate_check n w"
| "exec u (TSubscribeDep n i d) w = push w [TSubscribe d (DepSink n i) (Some (n, i))]"
| "exec u (TDepSubscribed n i d sub) w = record_dep_subscription n i d sub w"
| "exec u (TActivateRun n) w = push w (if runs_on_activation (node_of w n) then [TRunWave n] else [])"
| "exec u (TUnsubscribe n i) w = unsubscribe n i w"
| "exec u (TDeactivate n) w = deactivate n w"
| "exec u (TOwned n body) w = with_wave_owner n body w"
| "exec u (TWaveEnd n) w = push (w\<lparr>w_scope := None\<rparr>) []"
| "exec u TRecoverEnd w = push (w\<lparr>w_deferred := []\<rparr>) []"
| "exec u (TSubscribeAbort n i) w = push w []"
| "exec u (TBatch b) w = begin_batch b w"
| "exec u (TBatchBody b j) w = user_step (us_batch u w b j) (TBatchBody b (Suc j)) w"
| "exec u TBatchEnd w = (let (w, ts) = finish_batch True w in push w ts)"
| "exec u (TCommit n ms) w = commit_batched_wave n ms w"
| "exec u (TRollback n) w = rollback_batched n w"
| "exec u TBatchClose w = push (w\<lparr>w_active := None\<rparr>) []"
| "exec u (TRethrow p) w = (w, [], Some p)"

lemmas step_defs =
  receive_from_dep_def emit_dirty_once_def enter_delivery_def deliver_down_msg_def finish_delivery_def
  drain_deferred_runs_def apply_deferred_def maybe_run_def try_run_def passthrough_emit_def
  settle_run_def settle_after_absorbed_terminal_def settle_rest_def invalidate_def up_route_def
  release_pause_def on_resume_def resume_run_def on_demand_def fire_owed_demand_if_ready_def
  deliver_pull_demand_def activate_check_def record_dep_subscription_def unsubscribe_def deactivate_def
  with_wave_owner_def begin_batch_def commit_batched_wave_def rollback_batched_def

text \<open>Popping a task while a panic unwinds the stack.\<close>

definition panic_text :: "payload \<Rightarrow> string" where
  "panic_text p = (case p of PanicText s \<Rightarrow> s | HostAbort \<Rightarrow> ''node fn panicked'')"

definition reset_touched :: "nat list \<Rightarrow> 'v world \<Rightarrow> 'v world" where
  "reset_touched ns w = w\<lparr>w_node := (\<lambda>n. if n \<in> set ns then reset_wave_flags (w_node w n) else w_node w n)\<rparr>"

definition recover_wave :: "nat \<Rightarrow> payload \<Rightarrow> 'v world \<Rightarrow> 'v outcome" where
  "recover_wave owner p w =
     (let touched = (case w_scope w of None \<Rightarrow> [] | Some s \<Rightarrow> sc_touched s);
          blamed = (case w_scope w of
                      None \<Rightarrow> owner
                    | Some s \<Rightarrow> (case sc_blamed s of
                                  None \<Rightarrow> owner
                                | Some b \<Rightarrow> if b \<in> set (sc_touched s) then b else owner));
          w = (reset_touched touched w)\<lparr>w_scope := None, w_deferred := []\<rparr>
      in if p = HostAbort then (w, [], Some p)
         else push w [TDown blamed [Error (panic_text p)], TRecoverEnd])"

fun unwind :: "payload \<Rightarrow> 'v task \<Rightarrow> 'v world \<Rightarrow> 'v outcome" where
  "unwind p (TDeliveryEnd prev) w = (leave_delivery prev w, [], Some p)"
| "unwind p (TRunGuard n) w = (upd_node n end_inside w, [], Some p)"
| "unwind p (TPullEnd n) w = (upd_node n end_pull w, [], Some p)"
| "unwind p (TRouteEnd saved) w = (w\<lparr>w_route := saved\<rparr>, [], Some p)"
| "unwind p (TWaveEnd n) w = recover_wave n p w"
| "unwind p TRecoverEnd w = push (w\<lparr>w_deferred := []\<rparr>) []"
| "unwind p (TSubscribeAbort n i) w = (if p = HostAbort then push w [TUnsubscribe n i, TRethrow p] else (w, [], Some p))"
| "unwind p TBatchEnd w = (let (w, ts) = finish_batch False w in push w (ts @ [TRethrow p]))"
| "unwind p TBatchClose w = (w\<lparr>w_active := None\<rparr>, [], Some p)"
| "unwind p t w = (w, [], Some p)"

section \<open>The machine\<close>

record 'v machine =
  m_stack :: "'v task list"
  m_panic :: "payload option"
  m_world :: "'v world"

definition machine_step :: "'v user \<Rightarrow> 'v machine \<Rightarrow> 'v machine option" where
  "machine_step u m =
     (case m_stack m of
        [] \<Rightarrow> None
      | t # ts \<Rightarrow>
          (case (case m_panic m of None \<Rightarrow> exec u t (m_world m) | Some p \<Rightarrow> unwind p t (m_world m)) of
             (w, new, p) \<Rightarrow> Some \<lparr>m_stack = new @ ts, m_panic = p, m_world = w\<rparr>))"

inductive steps :: "'v user \<Rightarrow> 'v machine \<Rightarrow> 'v machine \<Rightarrow> bool" for u where
  steps_refl: "steps u m m"
| steps_step: "steps u m m' \<Longrightarrow> machine_step u m' = Some m'' \<Longrightarrow> steps u m m''"

text \<open>Executing up to a number of steps, for concrete runs.\<close>

fun run_machine :: "nat \<Rightarrow> 'v user \<Rightarrow> 'v machine \<Rightarrow> 'v machine" where
  "run_machine 0 u m = m"
| "run_machine (Suc k) u m = (case machine_step u m of None \<Rightarrow> m | Some m' \<Rightarrow> run_machine k u m')"

text \<open>A call of the public interface from outside.\<close>

definition call_api :: "'v api \<Rightarrow> 'v world \<Rightarrow> 'v machine" where
  "call_api a w = (case api_tasks a w of (w, ts, p) \<Rightarrow> \<lparr>m_stack = ts, m_panic = p, m_world = w\<rparr>)"

definition world_new :: "(nat \<Rightarrow> 'v node) \<Rightarrow> 'v world" where
  "world_new nodes =
     \<lparr>w_node = nodes, w_depth = 0, w_next_delivery = 1, w_delivery = 0, w_deferred = [], w_scope = None,
      w_active = None, w_route = [], w_trace = []\<rparr>"

end
