(* ===== verification/NodeInvariant.thy ===== *)
theory NodeInvariant
  imports Node
begin

text \<open>
  The invariant of one node's state, and that every local transition keeps it: the vectors indexed
  by dependency have one entry per dependency, the count of pending dependencies is the number of
  dirty flags, a wave id is recorded only where a wave is open, a value is cached exactly when the
  node says it has data, and a fresh status means there is a value. What a node is made of (its
  dependencies, function and configuration) never changes here.
\<close>

section \<open>The invariant\<close>

definition dirty_count :: "'v dep_state \<Rightarrow> nat" where
  "dirty_count d = length (filter (\<lambda>b. b) (ds_dirty d))"

definition dep_lengths :: "nat \<Rightarrow> 'v dep_state \<Rightarrow> bool" where
  "dep_lengths k d \<longleftrightarrow>
     length (ds_batch d) = k \<and> length (ds_batch_waves d) = k \<and> length (ds_batch_wave_id d) = k \<and>
     length (ds_prev d) = k \<and> length (ds_has_data d) = k \<and> length (ds_dirty d) = k \<and>
     length (ds_tier d) = k \<and> length (ds_terminal d) = k \<and> length (ds_terminal_wave d) = k"

definition waves_open :: "'v dep_state \<Rightarrow> bool" where
  "waves_open d \<longleftrightarrow> list_all2 (\<lambda>i ws. i \<noteq> None \<longrightarrow> ws \<noteq> []) (ds_batch_wave_id d) (ds_batch_waves d)"

definition dep_wf :: "nat \<Rightarrow> 'v dep_state \<Rightarrow> bool" where
  "dep_wf k d \<longleftrightarrow> dep_lengths k d \<and> ds_pending d = int (dirty_count d) \<and> waves_open d"

definition value_wf :: "'v value_state \<Rightarrow> bool" where
  "value_wf v \<longleftrightarrow> (vs_has_data v \<longleftrightarrow> vs_cache v \<noteq> None) \<and> (is_fresh (vs_status v) \<longrightarrow> vs_has_data v)"

definition node_wf :: "'v node \<Rightarrow> bool" where
  "node_wf n \<longleftrightarrow> dep_wf (length (n_deps n)) (n_dep n) \<and> value_wf (n_value n) \<and>
     length (n_restored_handshake n) = length (n_deps n) \<and>
     (n_unsubs n = [] \<or> length (n_unsubs n) = length (n_deps n)) \<and>
     (ax_paused_dep_wave_occurred (n_aux n) \<longrightarrow> n_deps n \<noteq> [])"

text \<open>What a node is made of, and whether it runs or has ended.\<close>

definition node_shape :: "'v node \<Rightarrow> nat list \<times> bool \<times> bool \<times> node_config" where
  "node_shape n = (n_deps n, n_has_fn n, n_async n, n_config n)"

abbreviation inside_run :: "'v node \<Rightarrow> bool" where
  "inside_run n \<equiv> ws_inside_run (n_wave n)"

abbreviation ended :: "'v node \<Rightarrow> bool" where
  "ended n \<equiv> vs_terminal (n_value n)"

section \<open>Dependencies\<close>

lemma dirty_count_clear:
  "i < length xs \<Longrightarrow> xs ! i \<Longrightarrow>
    Suc (length (filter (\<lambda>b. b) (xs[i := False]))) = length (filter (\<lambda>b. b) xs)"
proof (induction xs arbitrary: i)
  case (Cons x xs)
  then show ?case by (cases i) auto
qed simp

lemma dirty_count_set:
  "i < length xs \<Longrightarrow> \<not> xs ! i \<Longrightarrow>
    length (filter (\<lambda>b. b) (xs[i := True])) = Suc (length (filter (\<lambda>b. b) xs))"
proof (induction xs arbitrary: i)
  case (Cons x xs)
  then show ?case by (cases i) auto
qed simp

lemmas dep_wf_defs = dep_wf_def dep_lengths_def dirty_count_def waves_open_def

lemma dep_wf_new: "dep_wf k (dep_state_new k)"
  by (simp add: dep_wf_defs dep_state_new_def list_all2_conv_all_nth filter_replicate)

lemma dep_wf_clear_dirty [simp]: "dep_wf k d \<Longrightarrow> i < k \<Longrightarrow> dep_wf k (clear_dirty i d)"
  using dirty_count_clear [of i "ds_dirty d"] by (auto simp: clear_dirty_def dep_wf_defs)

lemma dep_wf_mark_dirty [simp]:
  "dep_wf k d \<Longrightarrow> i < k \<Longrightarrow> \<not> ds_dirty d ! i \<Longrightarrow> dep_wf k (mark_dep_dirty i d)"
  by (auto simp: mark_dep_dirty_def dep_wf_defs dirty_count_set)

lemma dep_wf_push_batch [simp]: "dep_wf k d \<Longrightarrow> dep_wf k (push_batch i v d)"
  by (simp add: push_batch_def dep_wf_defs)

lemma waves_open_nth:
  "waves_open d \<longleftrightarrow> length (ds_batch_wave_id d) = length (ds_batch_waves d) \<and>
     (\<forall>j < length (ds_batch_waves d). ds_batch_wave_id d ! j \<noteq> None \<longrightarrow> ds_batch_waves d ! j \<noteq> [])"
  by (auto simp: waves_open_def list_all2_conv_all_nth)

lemma dep_wf_current_wave [simp]: "dep_wf k d \<Longrightarrow> dep_wf k (current_wave_mut delivery i d)"
  by (auto simp: current_wave_mut_def dep_wf_defs intro!: list_all2_update_cong)

lemma current_wave_nonempty:
  "dep_wf k d \<Longrightarrow> i < k \<Longrightarrow> ds_batch_waves (current_wave_mut delivery i d) ! i \<noteq> []"
  by (auto simp: current_wave_mut_def dep_wf_def dep_lengths_def waves_open_nth)

lemma dep_wf_replace_waves:
  "dep_wf k d \<Longrightarrow> ws \<noteq> [] \<Longrightarrow> dep_wf k (d\<lparr>ds_batch_waves := (ds_batch_waves d)[i := ws]\<rparr>)"
  by (auto simp: dep_wf_def dep_lengths_def dirty_count_def waves_open_nth)
    (metis length_list_update list_update_beyond nth_list_update not_le)

lemma dep_wf_record_wave_item [simp]:
  assumes "dep_wf k d" "i < k"
  shows "dep_wf k (record_wave_item delivery i item d)"
proof -
  have "push_last item (ds_batch_waves (current_wave_mut delivery i d) ! i) \<noteq> []"
    using current_wave_nonempty [OF assms] by (simp add: push_last_def)
  then show ?thesis
    using assms by (simp add: record_wave_item_def Let_def dep_wf_replace_waves)
qed

lemma dep_wf_clear_projection [simp]: "dep_wf k d \<Longrightarrow> dep_wf k (clear_wave_projection i d)"
  by (auto simp: clear_wave_projection_def dep_wf_defs intro!: list_all2_update_cong)

lemma dep_wf_record_waves [simp]:
  "dep_wf k d \<Longrightarrow> i < k \<Longrightarrow> dep_wf k (record_wave_data delivery i v d)"
  "dep_wf k d \<Longrightarrow> dep_wf k (record_resolved_wave delivery i d)"
  by (simp_all add: record_wave_data_def record_resolved_wave_def)

text \<open>The vectors the count and the waves do not depend on can be replaced.\<close>

lemma dep_wf_vectors [simp]:
  "dep_wf k d \<Longrightarrow> length xs = k \<Longrightarrow> dep_wf k (d\<lparr>ds_batch := xs\<rparr>)"
  "dep_wf k d \<Longrightarrow> length ys = k \<Longrightarrow> dep_wf k (d\<lparr>ds_prev := ys\<rparr>)"
  "dep_wf k d \<Longrightarrow> length bs = k \<Longrightarrow> dep_wf k (d\<lparr>ds_has_data := bs\<rparr>)"
  "dep_wf k d \<Longrightarrow> length is = k \<Longrightarrow> dep_wf k (d\<lparr>ds_tier := is\<rparr>)"
  "dep_wf k d \<Longrightarrow> length ts = k \<Longrightarrow> dep_wf k (d\<lparr>ds_terminal := ts\<rparr>)"
  "dep_wf k d \<Longrightarrow> length us = k \<Longrightarrow> dep_wf k (d\<lparr>ds_terminal_wave := us\<rparr>)"
  by (simp_all add: dep_wf_defs)

lemma dep_wf_cleared [simp]:
  "dep_wf k d \<Longrightarrow> dep_wf k (d\<lparr>ds_batch_waves := replicate k [], ds_batch_wave_id := replicate k None\<rparr>)"
  "dep_wf k d \<Longrightarrow> dep_wf k (d\<lparr>ds_dirty := replicate k False, ds_pending := 0\<rparr>)"
  by (simp_all add: dep_wf_defs list_all2_conv_all_nth filter_replicate)

section \<open>Nodes\<close>

lemma value_wf_dirty [simp]: "value_wf v \<Longrightarrow> value_wf (v\<lparr>vs_status := StatusDirty\<rparr>)"
  by (simp add: value_wf_def is_fresh_def)

lemma value_wf_status [simp]:
  "value_wf v \<Longrightarrow> \<not> is_fresh s \<Longrightarrow> value_wf (v\<lparr>vs_status := s\<rparr>)"
  "value_wf v \<Longrightarrow> vs_has_data v \<Longrightarrow> value_wf (v\<lparr>vs_status := s\<rparr>)"
  by (simp_all add: value_wf_def)

lemma value_wf_terminal [simp]: "value_wf (v\<lparr>vs_terminal := b\<rparr>) = value_wf v"
  by (simp add: value_wf_def)

lemma value_wf_data [simp]: "value_wf (v\<lparr>vs_cache := Some x, vs_has_data := True, vs_status := s\<rparr>)"
  by (simp add: value_wf_def)

lemma value_wf_clear_cache [simp]: "value_wf (clear_cache v)"
  by (simp add: value_wf_def clear_cache_def is_fresh_def)

lemma node_wf_lengths:
  assumes "node_wf n"
  shows "length (ds_batch (n_dep n)) = length (n_deps n)" "length (ds_prev (n_dep n)) = length (n_deps n)"
    "length (ds_has_data (n_dep n)) = length (n_deps n)" "length (ds_tier (n_dep n)) = length (n_deps n)"
    "length (ds_terminal (n_dep n)) = length (n_deps n)"
    "length (ds_terminal_wave (n_dep n)) = length (n_deps n)"
    "length (ds_dirty (n_dep n)) = length (n_deps n)" "length (n_restored_handshake n) = length (n_deps n)"
  using assms by (simp_all add: node_wf_def dep_wf_defs)

lemma node_wf_dep: "node_wf n \<Longrightarrow> dep_wf (length (n_deps n)) (n_dep n)"
  by (simp add: node_wf_def)

lemma node_wf_upd_dep [simp]:
  "node_wf n \<Longrightarrow> dep_wf (length (n_deps n)) d \<Longrightarrow> node_wf (n\<lparr>n_dep := d\<rparr>)"
  by (simp add: node_wf_def)

lemma node_wf_upd_wave [simp]: "node_wf (n\<lparr>n_wave := w\<rparr>) = node_wf n"
  by (simp add: node_wf_def)

lemma node_wf_upd_value [simp]: "node_wf n \<Longrightarrow> value_wf v \<Longrightarrow> node_wf (n\<lparr>n_value := v\<rparr>)"
  by (simp add: node_wf_def)

lemma node_wf_upd_aux [simp]:
  "node_wf n \<Longrightarrow> ax_paused_dep_wave_occurred a \<longrightarrow> n_deps n \<noteq> [] \<Longrightarrow> node_wf (n\<lparr>n_aux := a\<rparr>)"
  by (simp add: node_wf_def)

lemma node_wf_upd_aux_same [simp]:
  "node_wf n \<Longrightarrow> ax_paused_dep_wave_occurred a = ax_paused_dep_wave_occurred (n_aux n) \<Longrightarrow>
    node_wf (n\<lparr>n_aux := a\<rparr>)"
  by (simp add: node_wf_def)

lemma node_wf_paused: "node_wf n \<Longrightarrow> ax_paused_dep_wave_occurred (n_aux n) \<Longrightarrow> n_deps n \<noteq> []"
  by (simp add: node_wf_def)

lemma node_wf_value: "node_wf n \<Longrightarrow> value_wf (n_value n)"
  by (simp add: node_wf_def)

lemma node_wf_called [simp]: "node_wf (n\<lparr>n_has_called_fn_once := b\<rparr>) = node_wf n"
  by (simp add: node_wf_def)

lemma node_wf_begin_activate [simp]: "node_wf n \<Longrightarrow> node_wf (begin_activate n)"
  by (simp add: begin_activate_def node_wf_def)

lemma node_wf_dep_subscribed [simp]: "node_wf n \<Longrightarrow> node_wf (dep_subscribed i dep sub n)"
  by (auto simp: dep_subscribed_def node_wf_def)

lemma node_wf_deactivate [simp]: "node_wf n \<Longrightarrow> node_wf (deactivate_node n)"
  by (simp add: deactivate_node_def node_wf_def Let_def clear_on_terminal_def dep_wf_defs list_all2_conv_all_nth
      filter_replicate)

lemma node_wf_reset [simp]: "node_wf n \<Longrightarrow> node_wf (reset_wave_flags n)"
  by (simp add: reset_wave_flags_def node_wf_def Let_def dep_wf_defs list_all2_conv_all_nth filter_replicate)

lemma node_wf_new: "node_wf (node_new deps has_fn async cfg initial)"
  by (cases initial)
    (simp_all add: node_new_def node_wf_def dep_wf_new value_wf_def value_state_new_def is_fresh_def node_aux_new_def)

declare node_wf_lengths [simp] node_wf_dep [simp] node_wf_value [simp]

lemma node_wf_decide: "node_wf n \<Longrightarrow> n_deps n \<noteq> [] \<Longrightarrow> node_wf (fst (decide_maybe_run n))"
  by (simp add: decide_maybe_run_def)

lemma node_wf_set_maybe_run [simp]:
  "node_wf n \<Longrightarrow> n_deps n \<noteq> [] \<Longrightarrow> node_wf (fst (set_maybe_run in_flight (n, a)))"
  using node_wf_decide [of n] by (simp add: set_maybe_run_def split_beta)

lemma node_wf_receive_invalidate: "node_wf n \<Longrightarrow> i < length (n_deps n) \<Longrightarrow> node_wf (fst (receive_invalidate delivery i n))"
  by (auto simp: receive_invalidate_def record_wave_sentinel_def Let_def dest: node_wf_paused)

lemma node_wf_receive_dirty: "node_wf n \<Longrightarrow> i < length (n_deps n) \<Longrightarrow> node_wf (fst (receive_dirty i n))"
  by (auto simp: receive_dirty_def Let_def)

lemma node_wf_receive_settled: "node_wf n \<Longrightarrow> i < length (n_deps n) \<Longrightarrow> node_wf (fst (receive_settled in_flight i n))"
  by (cases "n_deps n = []") (auto simp: receive_settled_def Let_def split_beta)

lemma has_data_frame [simp]:
  "ds_has_data (push_batch i v d) = ds_has_data d"
  "ds_has_data (record_wave_item delivery i item d) = ds_has_data d"
  by (simp_all add: push_batch_def record_wave_item_def current_wave_mut_def Let_def)

lemma node_wf_receive_data: "node_wf n \<Longrightarrow> i < length (n_deps n) \<Longrightarrow> node_wf (fst (receive_data in_flight delivery i v n))"
  by (auto simp: receive_data_def Let_def record_wave_data_def intro!: node_wf_receive_settled)

lemma node_wf_receive_terminal:
  "node_wf n \<Longrightarrow> i < length (n_deps n) \<Longrightarrow> node_wf (fst (receive_terminal in_flight i t n))"
  by (cases "n_deps n = []"; cases t) (auto simp: receive_terminal_def Let_def split_beta)

theorem node_wf_collect_receive:
  "node_wf n \<Longrightarrow> i < length (n_deps n) \<Longrightarrow> node_wf (fst (collect_receive in_flight delivery i msg n))"
  by (cases msg)
    (auto simp: collect_receive_def receive_message_def split_beta node_wf_receive_invalidate node_wf_receive_dirty
      node_wf_receive_settled node_wf_receive_data node_wf_receive_terminal)

lemma node_wf_collect_down [simp]: "node_wf n \<Longrightarrow> node_wf (fst (collect_down msg n))"
  by (cases msg) (simp_all add: collect_down_def enter_terminal_def clear_on_terminal_def is_fresh_def)

lemma node_wf_dirty_once [simp]: "node_wf n \<Longrightarrow> node_wf (fst (dirty_once n))"
  by (simp add: dirty_once_def)

lemma node_wf_invalidate: "node_wf n \<Longrightarrow> invalidate_node n = Some (n', hooks) \<Longrightarrow> node_wf n'"
  by (auto simp: invalidate_node_def split: if_splits)

lemma node_wf_buffer_wave [simp]: "node_wf n \<Longrightarrow> node_wf (buffer_wave ms n)"
  by (simp add: buffer_wave_def)

lemma node_wf_end_down [simp]: "node_wf (end_down n) = node_wf n"
  by (simp add: end_down_def)

lemma node_wf_begin_run [simp]: "node_wf n \<Longrightarrow> node_wf (begin_run n)"
  by (simp add: begin_run_def Let_def)

lemma node_wf_end_run [simp]: "node_wf n \<Longrightarrow> node_wf (end_run undirty n)"
  by (simp add: end_run_def roll_forward_def Let_def)

lemma node_wf_passthrough [simp]: "node_wf n \<Longrightarrow> node_wf (fst (passthrough n))"
proof -
  assume wf: "node_wf n"
  let ?prev = "case batch_last (ds_batch (n_dep n) ! 0) of None \<Rightarrow> ds_prev (n_dep n)
                | Some x \<Rightarrow> (ds_prev (n_dep n))[0 := Some x]"
  have "fst (passthrough n) =
      n\<lparr>n_dep := clear_wave_projection 0 (n_dep n\<lparr>ds_prev := ?prev, ds_batch := (ds_batch (n_dep n))[0 := None]\<rparr>)\<rparr>"
    by (simp add: passthrough_def Let_def clear_wave_projection_def)
  then show ?thesis
    using wf by (simp split: option.split)
qed

lemma node_wf_subscribers [simp]:
  "node_wf n \<Longrightarrow> node_wf (fst (add_subscriber s n))"
  "node_wf n \<Longrightarrow> node_wf (fst (remove_subscriber i n))"
  by (simp_all add: add_subscriber_def remove_subscriber_def Let_def)

lemma node_wf_pause [simp]:
  "node_wf n \<Longrightarrow> node_wf (pause_acquire lock n)"
  "node_wf n \<Longrightarrow> node_wf (fst (pause_release lock n))"
  by (simp_all add: pause_acquire_def pause_release_def Let_def)

lemma node_wf_clear_on_terminal [simp]: "node_wf n \<Longrightarrow> node_wf (upd_aux clear_on_terminal n)"
  by (simp add: clear_on_terminal_def)

section \<open>What the transitions leave alone\<close>

text \<open>
  What a node is made of, its subscribers and whether its function runs: the transitions below keep
  all three, except those that say otherwise.
\<close>

definition node_frame :: "'v node \<Rightarrow> (nat list \<times> bool \<times> bool \<times> node_config) \<times> (u64 \<times> sink) list \<times> bool" where
  "node_frame n = (node_shape n, ax_subscribers (n_aux n), inside_run n)"

lemma frame_updates [simp]:
  "node_frame (n\<lparr>n_dep := d\<rparr>) = node_frame n"
  "node_frame (n\<lparr>n_value := v\<rparr>) = node_frame n"
  "node_frame (n\<lparr>n_has_called_fn_once := b\<rparr>) = node_frame n"
  "node_frame (n\<lparr>n_unsubs := us\<rparr>) = node_frame n"
  "node_frame (n\<lparr>n_restored_handshake := hs\<rparr>) = node_frame n"
  "ax_subscribers a = ax_subscribers (n_aux n) \<Longrightarrow> node_frame (n\<lparr>n_aux := a\<rparr>) = node_frame n"
  "ws_inside_run w = ws_inside_run (n_wave n) \<Longrightarrow> node_frame (n\<lparr>n_wave := w\<rparr>) = node_frame n"
  by (simp_all add: node_frame_def node_shape_def)

lemma frame_decide [simp]: "node_frame (fst (decide_maybe_run n)) = node_frame n"
  by (simp add: decide_maybe_run_def)

lemma frame_set_maybe_run [simp]: "node_frame (fst (set_maybe_run in_flight (n, a))) = node_frame n"
  by (simp add: set_maybe_run_def split_beta)

lemma frame_receive_settled [simp]: "node_frame (fst (receive_settled in_flight i n)) = node_frame n"
  by (simp add: receive_settled_def Let_def split_beta)

lemma frame_receive_message: "node_frame (fst (receive_message in_flight delivery i msg n)) = node_frame n"
  by (cases msg)
    (simp_all add: receive_message_def receive_invalidate_def receive_dirty_def receive_data_def
      receive_terminal_def Let_def split_beta split: dep_terminal.split)

lemma frame_collect_receive [simp]: "node_frame (fst (collect_receive in_flight delivery i msg n)) = node_frame n"
  by (simp add: collect_receive_def split_beta frame_receive_message)

lemma frame_clear_on_terminal [simp]: "ax_subscribers (clear_on_terminal a) = ax_subscribers a"
  by (simp add: clear_on_terminal_def)

lemma frame_collect_down [simp]: "node_frame (fst (collect_down msg n)) = node_frame n"
  by (cases msg) (simp_all add: collect_down_def enter_terminal_def)

lemma frame_dirty_once [simp]: "node_frame (fst (dirty_once n)) = node_frame n"
  by (simp add: dirty_once_def)

lemma frame_invalidate: "invalidate_node n = Some (n', hooks) \<Longrightarrow> node_frame n' = node_frame n"
  by (auto simp: invalidate_node_def split: if_splits)

lemma frame_emission [simp]:
  "node_frame (buffer_wave ms n) = node_frame n"
  "node_frame (end_down n) = node_frame n"
  "node_frame (end_run undirty n) = node_frame n"
  "node_frame (fst (passthrough n)) = node_frame n"
  by (simp_all add: buffer_wave_def end_down_def end_run_def passthrough_def Let_def)

lemma frame_lifecycle [simp]:
  "node_frame (begin_activate n) = node_frame n"
  "node_frame (dep_subscribed i dep sub n) = node_frame n"
  "node_frame (deactivate_node n) = node_frame n"
  "node_frame (pause_acquire lock n) = node_frame n"
  "node_frame (fst (pause_release lock n)) = node_frame n"
  by (simp_all add: begin_activate_def dep_subscribed_def deactivate_node_def pause_acquire_def pause_release_def Let_def)

lemma frame_runs:
  "node_shape (begin_run n) = node_shape n"
  "ax_subscribers (n_aux (begin_run n)) = ax_subscribers (n_aux n)"
  "inside_run (begin_run n)"
  "node_shape (reset_wave_flags n) = node_shape n"
  "ax_subscribers (n_aux (reset_wave_flags n)) = ax_subscribers (n_aux n)"
  "\<not> inside_run (reset_wave_flags n)"
  by (simp_all add: begin_run_def reset_wave_flags_def node_shape_def Let_def)

lemma frame_subscribers:
  "node_shape (fst (add_subscriber s n)) = node_shape n"
  "inside_run (fst (add_subscriber s n)) = inside_run n"
  "ax_subscribers (n_aux (fst (add_subscriber s n))) = ax_subscribers (n_aux n) @ [(ax_next_sub_id (n_aux n), s)]"
  "node_shape (fst (remove_subscriber i n)) = node_shape n"
  "inside_run (fst (remove_subscriber i n)) = inside_run n"
  "set (ax_subscribers (n_aux (fst (remove_subscriber i n)))) \<subseteq> set (ax_subscribers (n_aux n))"
  by (auto simp: add_subscriber_def remove_subscriber_def node_shape_def Let_def)

text \<open>A node that has ended stays so, and ends again in no transition.\<close>

lemma ended_receive [simp]: "ended n \<Longrightarrow> fst (collect_receive in_flight delivery i msg n) = n"
  by (simp add: collect_receive_def)

lemma ended_decide [simp]: "ended (fst (decide_maybe_run n)) = ended n"
  by (simp add: decide_maybe_run_def)

lemma ended_collect_down: "ended n \<Longrightarrow> ended (fst (collect_down msg n))"
  by (cases msg) (simp_all add: collect_down_def enter_terminal_def clear_cache_def)

end
