(* ===== verification/EngineInvariant.thy ===== *)
theory EngineInvariant
  imports Engine NodeInvariant
begin

text \<open>
  Invariants of the engine that hold for every user code. \<open>stack_invariant\<close> is the interface: a
  predicate on the stack, the panic and the world that executing a task and unwinding one keep; its
  consequence for whole runs and whole sessions of calls is proved once.
\<close>

section \<open>Runs and sessions\<close>

locale stack_invariant =
  fixes I :: "'v task list \<Rightarrow> payload option \<Rightarrow> 'v world \<Rightarrow> bool"
  assumes exec: "I (t # ts) None w \<Longrightarrow> exec u t w = (w', new, p) \<Longrightarrow> I (new @ ts) p w'"
    and unwind: "I (t # ts) (Some q) w \<Longrightarrow> unwind q t w = (w', new, p) \<Longrightarrow> I (new @ ts) p w'"
begin

abbreviation holds :: "'v machine \<Rightarrow> bool" where
  "holds m \<equiv> I (m_stack m) (m_panic m) (m_world m)"

lemma machine_step_keeps: "holds m \<Longrightarrow> machine_step u m = Some m' \<Longrightarrow> holds m'"
  by (auto simp: machine_step_def split: list.splits option.splits prod.splits dest: exec unwind)

lemma steps_keep: "steps u m m' \<Longrightarrow> holds m \<Longrightarrow> holds m'"
  by (induction rule: steps.induct) (auto intro: machine_step_keeps)

end

text \<open>A graph before anything has happened, and the worlds between the calls of a session.\<close>

definition fresh_graph :: "(nat \<Rightarrow> 'v node) \<Rightarrow> bool" where
  "fresh_graph nodes \<longleftrightarrow>
     (\<forall>n. nodes n = node_new (n_deps (nodes n)) (n_has_fn (nodes n)) (n_async (nodes n)) (n_config (nodes n))
                     (vs_cache (n_value (nodes n))))"

inductive session :: "'v user \<Rightarrow> (nat \<Rightarrow> 'v node) \<Rightarrow> 'v world \<Rightarrow> bool" for u nodes where
  session_new: "session u nodes (world_new nodes)"
| session_call: "session u nodes w \<Longrightarrow> steps u (call_api a w) m \<Longrightarrow> m_stack m = [] \<Longrightarrow> session u nodes (m_world m)"

inductive reachable :: "'v user \<Rightarrow> (nat \<Rightarrow> 'v node) \<Rightarrow> 'v machine \<Rightarrow> bool" for u nodes where
  reachable_call: "session u nodes w \<Longrightarrow> steps u (call_api a w) m \<Longrightarrow> reachable u nodes m"

text \<open>An invariant that a call made at rest starts with again.\<close>

locale session_invariant = stack_invariant I for I :: "'v task list \<Rightarrow> payload option \<Rightarrow> 'v world \<Rightarrow> bool" +
  assumes call: "I [] p w \<Longrightarrow> api_tasks a w = (w', ts, q) \<Longrightarrow> I ts q w'"
begin

lemma call_keeps: "I [] p w \<Longrightarrow> holds (call_api a w)"
  by (auto simp: call_api_def dest: call split: prod.split)

lemma session_keeps:
  assumes "I [] None (world_new nodes)" "session u nodes w"
  shows "\<exists>p. I [] p w"
  using assms(2)
proof (induction rule: session.induct)
  case (session_call w a m)
  then have "holds m" by (blast intro: steps_keep call_keeps)
  with session_call show ?case by auto
qed (use assms(1) in blast)

lemma reachable_keeps:
  assumes "I [] None (world_new nodes)" "reachable u nodes m"
  shows "holds m"
  using assms(2)
  by (cases rule: reachable.cases) (blast intro: steps_keep call_keeps dest: session_keeps [OF assms(1)])

end

section \<open>Well-formed nodes and indexes in range\<close>

type_synonym shapes = "nat \<Rightarrow> nat list \<times> bool \<times> bool \<times> node_config"

fun sink_ok :: "shapes \<Rightarrow> sink \<Rightarrow> bool" where
  "sink_ok sh (UserSink k) = True"
| "sink_ok sh (DepSink n i) = (i < length (fst (sh n)))"

text \<open>
  What a task relies on: edges exist, and a node that may relay a value without a function has a
  dependency to relay it from.
\<close>

fun task_ok :: "shapes \<Rightarrow> 'v task \<Rightarrow> bool" where
  "task_ok sh (TSinks ss m) = list_all (sink_ok sh) ss"
| "task_ok sh (TSink s m) = sink_ok sh s"
| "task_ok sh (TReceive n i m) = (i < length (fst (sh n)))"
| "task_ok sh (TSubscribe n s edge) =
     (sink_ok sh s \<and> (case edge of None \<Rightarrow> True | Some (d, e) \<Rightarrow> e < length (fst (sh d))))"
| "task_ok sh (TSubscribeDep n i d) = (i < length (fst (sh n)))"
| "task_ok sh (TDepSubscribed n i d s) = (i < length (fst (sh n)))"
| "task_ok sh (TDeferRun n) = (fst (sh n) \<noteq> [])"
| "task_ok sh (TDrainAct k n) = (fst (sh n) \<noteq> [])"
| "task_ok sh (TMaybeRun n) = (fst (sh n) \<noteq> [])"
| "task_ok sh (TSettleAbsorbed n) = (fst (sh n) \<noteq> [])"
| "task_ok sh (TPassthrough n) = (fst (sh n) \<noteq> [])"
| "task_ok sh (TTryRun n) = (fst (snd (sh n)) \<or> fst (sh n) \<noteq> [])"
| "task_ok sh (TOwned n body) = list_all (task_ok sh) body"
| "task_ok sh t = True"

definition node_ok :: "shapes \<Rightarrow> nat \<Rightarrow> 'v node \<Rightarrow> bool" where
  "node_ok sh n nd \<longleftrightarrow> node_wf nd \<and> node_shape nd = sh n \<and> list_all (sink_ok sh) (sinks_of nd)"

definition world_ok :: "shapes \<Rightarrow> 'v world \<Rightarrow> bool" where
  "world_ok sh w \<longleftrightarrow> (\<forall>n. node_ok sh n (node_of w n)) \<and> list_all (\<lambda>(k, n). fst (sh n) \<noteq> []) (w_deferred w)"

definition outcome_ok :: "shapes \<Rightarrow> 'v outcome \<Rightarrow> bool" where
  "outcome_ok sh r \<longleftrightarrow> (case r of (w, ts, p) \<Rightarrow> world_ok sh w \<and> list_all (task_ok sh) ts)"

lemma outcome_ok_simp [simp]: "outcome_ok sh (w, ts, p) \<longleftrightarrow> world_ok sh w \<and> list_all (task_ok sh) ts"
  by (simp add: outcome_ok_def)

lemma world_okD:
  assumes "world_ok sh w"
  shows "node_wf (node_of w n)" "node_shape (node_of w n) = sh n" "list_all (sink_ok sh) (sinks_of (node_of w n))"
  using assms by (simp_all add: world_ok_def node_ok_def)

lemma world_ok_deps: "world_ok sh w \<Longrightarrow> n_deps (node_of w n) = fst (sh n)"
  and world_ok_has_fn: "world_ok sh w \<Longrightarrow> n_has_fn (node_of w n) = fst (snd (sh n))"
  using world_okD(2) [of sh w n, symmetric] by (simp_all add: node_shape_def)

lemma world_ok_set_node:
  "world_ok sh w \<Longrightarrow> node_ok sh n nd \<Longrightarrow> world_ok sh (w\<lparr>w_node := (w_node w)(n := nd)\<rparr>)"
  by (simp add: world_ok_def)

text \<open>A transition that keeps the invariant and the frame of a node keeps the world.\<close>

lemma node_ok_frame:
  "world_ok sh w \<Longrightarrow> node_wf nd \<Longrightarrow> node_frame nd = node_frame (node_of w n) \<Longrightarrow> node_ok sh n nd"
  using world_okD [of sh w n] by (simp add: node_ok_def node_frame_def sinks_of_def)

lemma world_ok_frame:
  "world_ok sh w \<Longrightarrow> node_wf nd \<Longrightarrow> node_frame nd = node_frame (node_of w n) \<Longrightarrow>
    world_ok sh (w\<lparr>w_node := (w_node w)(n := nd)\<rparr>)"
  by (simp add: world_ok_set_node node_ok_frame)

lemma world_ok_upd:
  "world_ok sh w \<Longrightarrow> node_wf (f (node_of w n)) \<Longrightarrow> node_frame (f (node_of w n)) = node_frame (node_of w n) \<Longrightarrow>
    world_ok sh (upd_node n f w)"
  by (simp add: upd_node_def world_ok_frame)

lemma world_ok_other [simp]:
  "world_ok sh (w\<lparr>w_depth := d\<rparr>) = world_ok sh w"
  "world_ok sh (w\<lparr>w_next_delivery := i\<rparr>) = world_ok sh w"
  "world_ok sh (w\<lparr>w_delivery := i\<rparr>) = world_ok sh w"
  "world_ok sh (w\<lparr>w_scope := sc\<rparr>) = world_ok sh w"
  "world_ok sh (w\<lparr>w_active := b\<rparr>) = world_ok sh w"
  "world_ok sh (w\<lparr>w_route := r\<rparr>) = world_ok sh w"
  "world_ok sh (w\<lparr>w_trace := tr\<rparr>) = world_ok sh w"
  "world_ok sh w \<Longrightarrow> world_ok sh (w\<lparr>w_deferred := []\<rparr>)"
  "world_ok sh (wave_register n w) = world_ok sh w"
  by (simp_all add: world_ok_def wave_register_def)

lemma world_ok_defer: "world_ok sh w \<Longrightarrow> fst (sh n) \<noteq> [] \<Longrightarrow> world_ok sh (defer_action k n w)"
  by (simp add: defer_action_def world_ok_def)

text \<open>The tasks an operation pushes.\<close>

lemma sinks_ok [simp]: "world_ok sh w \<Longrightarrow> list_all (sink_ok sh) (sinks_of (node_of w n))"
  by (rule world_okD)

lemma decision_tasks_ok: "fst (sh n) \<noteq> [] \<or> d \<noteq> RunPassthrough \<Longrightarrow> list_all (task_ok sh) (decision_tasks n d)"
  by (cases d) (auto simp: decision_tasks_def)

lemma apply_tasks_ok: "fst (sh n) \<noteq> [] \<Longrightarrow> list_all (task_ok sh) (apply_tasks n a)"
  by (auto simp: apply_tasks_def split: option.split maybe_run_decision.split)

lemma hooks_ok [simp]: "list_all (task_ok sh) (map (\<lambda>h. THook h j) hooks)"
  by (induction hooks) simp_all

lemma map_tasks_ok:
  "(\<And>x. x \<in> set xs \<Longrightarrow> task_ok sh (f x)) \<Longrightarrow> list_all (task_ok sh) (map f xs)"
  by (simp add: list.pred_map list_all_iff)

lemma forward_up_ok [simp]: "list_all (task_ok sh) (forward_up n m toward w)"
  by (auto simp: forward_up_def Let_def list_all_iff split: option.split)

lemma api_ok: "world_ok sh w \<Longrightarrow> outcome_ok sh (api_tasks a w)"
  by (cases a) (simp_all add: api_tasks_def)

lemma user_step_ok: "world_ok sh w \<Longrightarrow> task_ok sh rest \<Longrightarrow> outcome_ok sh (user_step x rest w)"
  using api_ok [of sh w "the x"]
  by (cases x; cases "api_tasks (the x) w") (auto simp: user_step_def)

lemma fn_step_ok: "world_ok sh w \<Longrightarrow> task_ok sh rest \<Longrightarrow> outcome_ok sh (fn_step n x rest w)"
  by (cases x; cases "the x")
    (auto simp: fn_step_def world_okD intro!: world_ok_upd user_step_ok)

lemma receive_ok: "world_ok sh w \<Longrightarrow> i < length (fst (sh n)) \<Longrightarrow> outcome_ok sh (receive_from_dep n i m w)"
  by (cases "fst (sh n) = []")
    (auto simp: receive_from_dep_def Let_def split_beta world_okD world_ok_deps apply_tasks_ok
      intro!: world_ok_frame node_wf_collect_receive split: option.split)

lemma sinks_of_frame: "node_frame nd = node_frame nd' \<Longrightarrow> sinks_of nd = sinks_of nd'"
  by (simp add: node_frame_def sinks_of_def)

lemmas sinks_of_frames [simp] =
  sinks_of_frame [OF frame_collect_down] sinks_of_frame [OF frame_dirty_once]

lemma deliver_down_msg_ok: "world_ok sh w \<Longrightarrow> outcome_ok sh (deliver_down_msg n m w)"
  using world_ok_frame [of sh w "fst (collect_down m (node_of w n))" n]
  by (auto simp: deliver_down_msg_def split_beta world_okD split: down_action.split)

lemma maybe_run_ok: "world_ok sh w \<Longrightarrow> fst (sh n) \<noteq> [] \<Longrightarrow> outcome_ok sh (maybe_run n w)"
  by (auto simp: maybe_run_def Let_def split_beta world_ok_defer world_okD world_ok_deps decision_tasks_ok
      intro!: world_ok_frame node_wf_decide)

lemma try_run_ok: "world_ok sh w \<Longrightarrow> fst (snd (sh n)) \<or> fst (sh n) \<noteq> [] \<Longrightarrow> outcome_ok sh (try_run n w)"
  by (auto simp: try_run_def try_run_decision_def world_ok_has_fn intro!: decision_tasks_ok)

lemma down_deliver_ok: "world_ok sh w \<Longrightarrow> outcome_ok sh (down_deliver n inside ms w)"
  by (simp add: down_deliver_def)

lemma down_buffer_ok: "world_ok sh w \<Longrightarrow> outcome_ok sh (down_buffer n inside ms w)"
  using world_ok_upd [of sh w "buffer_wave (filter (\<lambda>m. is_pause_buffered (msg_tier m)) ms)" n]
  by (simp add: down_buffer_def Let_def down_deliver_ok world_okD)

lemma down_ok: "world_ok sh w \<Longrightarrow> outcome_ok sh (down n msgs w)"
  by (simp add: down_def Let_def defer_wave_def down_buffer_ok)

lemma world_ok_node_fun:
  "world_ok sh w \<Longrightarrow> (\<And>n. node_ok sh n (f n)) \<Longrightarrow> world_ok sh (w\<lparr>w_node := f\<rparr>)"
  by (simp add: world_ok_def)

lemma node_ok_begin_run: "world_ok sh w \<Longrightarrow> node_ok sh n (begin_run (node_of w n))"
  using world_okD [of sh w n] by (simp add: node_ok_def frame_runs sinks_of_def)

lemma node_ok_reset: "world_ok sh w \<Longrightarrow> node_ok sh n (reset_wave_flags (node_of w n))"
  using world_okD [of sh w n] by (simp add: node_ok_def frame_runs sinks_of_def)

lemma node_ok_end_inside: "world_ok sh w \<Longrightarrow> node_ok sh n (end_inside (node_of w n))"
  using world_okD [of sh w n] by (simp add: node_ok_def end_inside_def node_shape_def sinks_of_def)

lemma world_ok_reset: "world_ok sh w \<Longrightarrow> world_ok sh (reset_touched ns w)"
  using node_ok_reset [of sh w] by (auto simp: reset_touched_def world_ok_def)

lemma run_wave_ok: "world_ok sh w \<Longrightarrow> outcome_ok sh (run_wave n w)"
  using node_ok_begin_run [of sh "wave_register n w" n]
  by (auto simp: run_wave_def Let_def upd_node_def intro!: world_ok_set_node)

lemma up_msg_ok: "world_ok sh w \<Longrightarrow> outcome_ok sh (up_msg n m toward w)"
  by (cases m) (auto simp: up_msg_def world_okD intro!: world_ok_upd)

lemma fire_pull_ok: "world_ok sh w \<Longrightarrow> outcome_ok sh (fire_pull n w)"
  using world_okD(1) [of sh w n, THEN node_wf_paused]
  by (auto simp: fire_pull_def Let_def upd_node_def world_okD world_ok_has_fn world_ok_deps list_all_iff
      intro!: world_ok_set_node node_ok_frame)

lemma subscribe_ok:
  assumes "world_ok sh w" "task_ok sh (TSubscribe n s edge)"
  shows "outcome_ok sh (subscribe n s edge w)"
proof -
  have "node_ok sh n (fst (add_subscriber s (node_of w n)))"
    using assms world_okD [of sh w n] by (simp add: node_ok_def frame_subscribers sinks_of_def)
  with assms show ?thesis
    by (auto simp: subscribe_def split_beta intro!: world_ok_set_node split: option.split)
qed

lemma node_ok_remove: "world_ok sh w \<Longrightarrow> node_ok sh n (fst (remove_subscriber i (node_of w n)))"
  using world_okD [of sh w n] frame_subscribers(6) [of i "node_of w n"]
  by (auto simp: node_ok_def frame_subscribers(4) sinks_of_def list_all_iff)

lemma drain_ok: "world_ok sh w \<Longrightarrow> outcome_ok sh (drain_deferred_runs w)"
  by (auto simp: drain_deferred_runs_def list_all_iff world_ok_def)

lemma finish_batch_ok:
  "world_ok sh w \<Longrightarrow> finish_batch c w = (w', ts) \<Longrightarrow> world_ok sh w' \<and> list_all (task_ok sh) ts"
  by (auto simp: finish_batch_def list_all_iff split: option.splits if_splits)

lemma small_steps_ok:
  assumes w: "world_ok sh w"
  shows "outcome_ok sh (emit_dirty_once n w)" "outcome_ok sh (enter_delivery n ms w)"
    "outcome_ok sh (finish_delivery prev w)" "outcome_ok sh (settle_run n async w)"
    "outcome_ok sh (settle_rest n w)" "outcome_ok sh (up_route n msgs toward w)"
    "outcome_ok sh (begin_batch b w)" "list_all (task_ok sh) body \<Longrightarrow> outcome_ok sh (with_wave_owner n body w)"
  using w world_ok_frame [OF w, of "fst (dirty_once (node_of w n))" n] sinks_ok [OF w, of n]
  by (auto simp: emit_dirty_once_def enter_delivery_def finish_delivery_def leave_delivery_def settle_run_def
      settle_rest_def up_route_def begin_batch_def with_wave_owner_def split_beta world_okD list_all_iff)

lemma passthrough_emit_ok: "world_ok sh w \<Longrightarrow> outcome_ok sh (passthrough_emit n w)"
  by (auto simp: passthrough_emit_def split_beta world_okD intro!: world_ok_frame split: option.split)

lemma settle_absorbed_ok: "world_ok sh w \<Longrightarrow> fst (sh n) \<noteq> [] \<Longrightarrow> outcome_ok sh (settle_after_absorbed_terminal n w)"
  by (auto simp: settle_after_absorbed_terminal_def world_ok_defer)

lemma apply_deferred_ok: "world_ok sh w \<Longrightarrow> fst (sh n) \<noteq> [] \<Longrightarrow> outcome_ok sh (apply_deferred k n w)"
  by (cases k) (auto simp: apply_deferred_def)

lemma invalidate_ok: "world_ok sh w \<Longrightarrow> outcome_ok sh (invalidate n w)"
  using node_wf_invalidate [of "node_of w n"] frame_invalidate [of "node_of w n"]
  by (auto simp: invalidate_def world_okD intro!: world_ok_frame split: option.split)

lemma control_ok:
  assumes w: "world_ok sh w"
  shows "outcome_ok sh (release_pause n lock w)" "outcome_ok sh (on_resume n w)" "outcome_ok sh (resume_run n w)"
    "outcome_ok sh (on_demand n demand w)" "outcome_ok sh (fire_owed_demand_if_ready n w)"
    "outcome_ok sh (deliver_pull_demand n demand w)"
proof -
  have paused: "ax_paused_dep_wave_occurred (n_aux (node_of w n)) \<Longrightarrow> fst (sh n) \<noteq> []"
    using node_wf_paused [OF world_okD(1) [OF w, of n]] world_ok_deps [OF w] by simp
  show "outcome_ok sh (release_pause n lock w)"
    using w by (auto simp: release_pause_def split_beta world_okD intro!: world_ok_frame split: option.split)
  show "outcome_ok sh (on_resume n w)"
    using w by (auto simp: on_resume_def world_okD list_all_iff intro!: world_ok_upd)
  show "outcome_ok sh (resume_run n w)"
    using w paused by (auto simp: resume_run_def world_okD intro!: world_ok_upd)
  show "outcome_ok sh (on_demand n demand w)"
    using w by (auto simp: on_demand_def world_okD intro!: world_ok_upd)
  show "outcome_ok sh (fire_owed_demand_if_ready n w)"
    using w by (auto simp: fire_owed_demand_if_ready_def world_okD intro!: world_ok_upd split: option.split)
  show "outcome_ok sh (deliver_pull_demand n demand w)"
    using w by (auto simp: deliver_pull_demand_def world_okD intro!: world_ok_upd)
qed

lemma lifecycle_ok:
  assumes w: "world_ok sh w"
  shows "outcome_ok sh (activate_check n w)" "outcome_ok sh (record_dep_subscription n i d sub w)"
    "outcome_ok sh (unsubscribe n sub w)" "outcome_ok sh (deactivate n w)"
    "outcome_ok sh (commit_batched_wave n ms w)" "outcome_ok sh (rollback_batched n w)"
proof -
  show "outcome_ok sh (activate_check n w)"
    using w by (auto simp: activate_check_def world_okD world_ok_deps list_all_iff in_set_enumerate_eq intro!: world_ok_upd)
  show "outcome_ok sh (record_dep_subscription n i d sub w)"
    using w by (auto simp: record_dep_subscription_def world_okD intro!: world_ok_upd)
  show "outcome_ok sh (unsubscribe n sub w)"
    using w node_ok_remove [OF w] by (auto simp: unsubscribe_def split_beta intro!: world_ok_set_node)
  show "outcome_ok sh (deactivate n w)"
    using w by (auto simp: deactivate_def world_okD list_all_iff intro!: world_ok_upd split: option.splits)
  show "outcome_ok sh (commit_batched_wave n ms w)" "outcome_ok sh (rollback_batched n w)"
    using w by (auto simp: commit_batched_wave_def rollback_batched_def world_okD intro!: world_ok_upd)
qed

lemmas steps_ok = user_step_ok fn_step_ok receive_ok deliver_down_msg_ok maybe_run_ok try_run_ok down_ok run_wave_ok
  up_msg_ok fire_pull_ok subscribe_ok drain_ok small_steps_ok passthrough_emit_ok settle_absorbed_ok
  apply_deferred_ok invalidate_ok control_ok lifecycle_ok

lemma node_updates_ok:
  assumes w: "world_ok sh w"
  shows "world_ok sh (upd_node n (upd_wave (\<lambda>s. s\<lparr>ws_emitted_dirty := b\<rparr>)) w)"
    "world_ok sh (upd_node n (upd_wave (\<lambda>s. s\<lparr>ws_batch_dirty_owed := b\<rparr>)) w)"
    "world_ok sh (upd_node n end_down w)" "world_ok sh (upd_node n end_inside w)"
    "world_ok sh (upd_node n (end_run undirty) w)" "world_ok sh (upd_node n end_pull w)"
proof -
  show "world_ok sh (upd_node n end_inside w)"
    using w node_ok_end_inside [OF w, of n] by (simp add: upd_node_def world_ok_set_node)
qed (use w in \<open>auto simp: world_okD end_pull_def intro!: world_ok_upd\<close>)

lemma exec_sinks_ok:
  "world_ok sh w \<Longrightarrow> task_ok sh (TSinks ss m) \<Longrightarrow> outcome_ok sh (exec u (TSinks ss m) w)"
  "world_ok sh w \<Longrightarrow> task_ok sh (TSink s m) \<Longrightarrow> outcome_ok sh (exec u (TSink s m) w)"
  by (auto split: list.split sink.split)

lemma exec_ok: "world_ok sh w \<Longrightarrow> task_ok sh t \<Longrightarrow> outcome_ok sh (exec u t w)"
  using exec_sinks_ok [of sh w] finish_batch_ok [of sh w True]
  by (cases t) (auto simp: steps_ok node_updates_ok world_ok_defer split: prod.splits)

lemma recover_ok: "world_ok sh w \<Longrightarrow> outcome_ok sh (recover_wave n p w)"
  by (simp add: recover_wave_def Let_def world_ok_reset)

lemma unwind_ok: "world_ok sh w \<Longrightarrow> outcome_ok sh (unwind p t w)"
  using finish_batch_ok [of sh w False]
  by (cases t) (auto simp: node_updates_ok recover_ok leave_delivery_def split: prod.splits)

definition wf_inv :: "shapes \<Rightarrow> 'v task list \<Rightarrow> payload option \<Rightarrow> 'v world \<Rightarrow> bool" where
  "wf_inv sh ts p w \<longleftrightarrow> world_ok sh w \<and> list_all (task_ok sh) ts"

interpretation wf: session_invariant "wf_inv sh" for sh
proof
  show "wf_inv sh (new @ ts) p w'" if "wf_inv sh (t # ts) None w" "exec u t w = (w', new, p)" for t ts w u w' new p
    using that exec_ok [of sh w t u] by (simp add: wf_inv_def)
  show "wf_inv sh (new @ ts) p w'" if "wf_inv sh (t # ts) (Some q) w" "unwind q t w = (w', new, p)" for t ts w q w' new p
    using that unwind_ok [of sh w q t] by (simp add: wf_inv_def)
  show "wf_inv sh ts q w'" if "wf_inv sh [] p w" "api_tasks a w = (w', ts, q)" for p w a w' ts q
    using that api_ok [of sh w a] by (simp add: wf_inv_def)
qed

lemma world_ok_fresh: "fresh_graph nodes \<Longrightarrow> world_ok (\<lambda>n. node_shape (nodes n)) (world_new nodes)"
proof -
  assume fresh: "fresh_graph nodes"
  have "node_ok (\<lambda>n. node_shape (nodes n)) n (nodes n)" for n
  proof -
    obtain deps has_fn async cfg v where n: "nodes n = node_new deps has_fn async cfg v"
      using fresh unfolding fresh_graph_def by blast
    have "node_wf (nodes n)" unfolding n by (rule node_wf_new)
    moreover have "sinks_of (nodes n) = []" unfolding n by (simp add: sinks_of_def node_new_def node_aux_new_def)
    ultimately show ?thesis by (simp add: node_ok_def)
  qed
  then show ?thesis by (simp add: world_ok_def world_new_def)
qed

end
