(* ===== verification/EngineControl.thy ===== *)
theory EngineControl
  imports EngineInvariant
begin

text \<open>
  The call discipline of the engine. Every task has a role: an ordinary call, a call that may be made
  outside a wave, or a frame that pops something (a delivery, the run of a function, a wave, a
  recovery, an upstream route, a batch). The counters and flags of the world are determined by the
  frames on the stack, for every user code, panics included; when the stack is empty, nothing of a
  wave is left behind.
\<close>

section \<open>Roles\<close>

datatype (plugins only: code size) role =
  Call | Outside | RunCall | DeferCall | RouteCall | DeliveryFrame | DrainFrame | RunFrame nat | WaveFrame | RecoverFrame
| RouteFrame bool | BatchFrame | Rethrow | Misplaced

fun is_owned_call :: "'v task \<Rightarrow> bool" where
  "is_owned_call (TDown _ _) = True"
| "is_owned_call (TUp _ _ _) = True"
| "is_owned_call (TSubscribe _ _ _) = True"
| "is_owned_call _ = False"

fun role_of :: "'v task \<Rightarrow> role" where
  "role_of (TDeferRun _) = DeferCall"
| "role_of (TRunWave _) = RunCall"
| "role_of (TUpMsg _ _ _) = RouteCall"
| "role_of (TDeliveryEnd _) = DeliveryFrame"
| "role_of TDrain = DrainFrame"
| "role_of (TRunGuard n) = RunFrame n"
| "role_of (TWaveEnd _) = WaveFrame"
| "role_of TRecoverEnd = RecoverFrame"
| "role_of (TRouteEnd saved) = RouteFrame (saved \<noteq> [])"
| "role_of TBatchEnd = BatchFrame"
| "role_of TBatchClose = BatchFrame"
| "role_of (TRethrow _) = Rethrow"
| "role_of (TOwned _ body) = (if list_all is_owned_call body then Outside else Misplaced)"
| "role_of (THook _ _) = Outside"
| "role_of (TUnsubscribe _ _) = Outside"
| "role_of (TDeactivate _) = Outside"
| "role_of (TSubscribeAbort _ _) = Outside"
| "role_of (TBatch _) = Outside"
| "role_of (TBatchBody _ _) = Outside"
| "role_of (TCommit _ _) = Outside"
| "role_of (TRollback _) = Outside"
| "role_of _ = Call"

abbreviation framed :: "role list \<Rightarrow> bool" where
  "framed rs \<equiv> WaveFrame \<in> set rs \<or> RecoverFrame \<in> set rs"

abbreviation routed :: "role list \<Rightarrow> bool" where
  "routed rs \<equiv> \<exists>b. RouteFrame b \<in> set rs"

abbreviation runs_below :: "role list \<Rightarrow> bool" where
  "runs_below rs \<equiv> \<exists>n. RunFrame n \<in> set rs"

text \<open>
  What a task needs below it: engine calls run inside a wave or the recovery of one; a run is
  deferred only during a delivery; a wave is opened below a running function only in a recovery.
\<close>

fun role_ok :: "role list \<Rightarrow> role \<Rightarrow> bool" where
  "role_ok rs Outside = True"
| "role_ok rs DeferCall = (framed rs \<and> DeliveryFrame \<in> set rs)"
| "role_ok rs RouteCall = (framed rs \<and> routed rs)"
| "role_ok rs (RouteFrame b) = (framed rs \<and> (b \<longrightarrow> routed rs))"
| "role_ok rs WaveFrame = (runs_below rs \<longrightarrow> RecoverFrame \<in> set rs)"
| "role_ok rs RecoverFrame = (runs_below rs \<longrightarrow> RecoverFrame \<in> set rs)"
| "role_ok rs BatchFrame = True"
| "role_ok rs Rethrow = True"
| "role_ok rs Misplaced = False"
| "role_ok rs _ = framed rs"

fun roles_ok :: "role list \<Rightarrow> bool" where
  "roles_ok [] = True"
| "roles_ok (r # rs) = (role_ok rs r \<and> roles_ok rs)"

text \<open>What will take care of deferred runs: a delivery, a drain, a recovery, or a panic in a wave.\<close>

fun deferral_kept :: "role list \<Rightarrow> bool" where
  "deferral_kept [] = False"
| "deferral_kept (r # rs) =
     (r \<in> {DeliveryFrame, DrainFrame, RecoverFrame} \<or> r = Rethrow \<and> framed rs \<or> deferral_kept rs)"

definition roles :: "'v task list \<Rightarrow> role list" where
  "roles ts = map role_of ts"

definition control_ok :: "role list \<Rightarrow> bool \<Rightarrow> 'v world \<Rightarrow> bool" where
  "control_ok rs panicking w \<longleftrightarrow>
     w_depth w = count_list rs DeliveryFrame \<and>
     count_list rs WaveFrame = (if w_scope w = None then 0 else 1) \<and>
     (w_active w \<noteq> None \<longrightarrow> BatchFrame \<in> set rs) \<and>
     (w_route w \<noteq> [] \<longrightarrow> routed rs) \<and>
     (w_deferred w \<noteq> [] \<longrightarrow> (if panicking then framed rs else deferral_kept rs))"

definition runs_ok :: "role list \<Rightarrow> 'v world \<Rightarrow> bool" where
  "runs_ok rs w \<longleftrightarrow>
     (\<forall>n. inside_run (node_of w n) \<longrightarrow> RunFrame n \<in> set rs) \<and>
     (RecoverFrame \<notin> set rs \<longrightarrow>
       (\<forall>n. count_list rs (RunFrame n) = (if inside_run (node_of w n) then 1 else 0)))"

definition control_inv :: "'v task list \<Rightarrow> payload option \<Rightarrow> 'v world \<Rightarrow> bool" where
  "control_inv ts p w \<longleftrightarrow> roles_ok (roles ts) \<and> control_ok (roles ts) (p \<noteq> None) w \<and> runs_ok (roles ts) w"

section \<open>Calls that only make calls\<close>

text \<open>The roles a quiet call may push, and the parts of the world it keeps.\<close>

definition quiet_roles :: "role list \<Rightarrow> bool" where
  "quiet_roles rs \<longleftrightarrow> set rs \<subseteq> {Call, Outside}"

definition calm_roles :: "role list \<Rightarrow> bool" where
  "calm_roles rs \<longleftrightarrow> set rs \<subseteq> {Call, Outside, RunCall, DeferCall, RouteCall}"

definition same_control :: "'v world \<Rightarrow> 'v world \<Rightarrow> bool" where
  "same_control w w' \<longleftrightarrow>
     w_depth w' = w_depth w \<and> w_deferred w' = w_deferred w \<and> (w_scope w' = None \<longleftrightarrow> w_scope w = None) \<and>
     (w_active w' = None \<longleftrightarrow> w_active w = None) \<and> w_route w' = w_route w \<and>
     (\<forall>n. inside_run (node_of w' n) = inside_run (node_of w n))"

definition quiet :: "'v world \<Rightarrow> 'v outcome \<Rightarrow> bool" where
  "quiet w r \<longleftrightarrow> (case r of (w', new, p) \<Rightarrow> same_control w w' \<and> quiet_roles (roles new))"

lemma roles_simps [simp]:
  "roles [] = []" "roles (t # ts) = role_of t # roles ts" "roles (ts @ ts') = roles ts @ roles ts'"
  by (simp_all add: roles_def)

lemma quiet_roles_simps [simp]:
  "quiet_roles []" "quiet_roles (r # rs) \<longleftrightarrow> r \<in> {Call, Outside} \<and> quiet_roles rs"
  "quiet_roles (rs @ rs') \<longleftrightarrow> quiet_roles rs \<and> quiet_roles rs'"
  by (auto simp: quiet_roles_def)

lemma quiet_simp [simp]: "quiet w (w', new, p) \<longleftrightarrow> same_control w w' \<and> quiet_roles (roles new)"
  by (simp add: quiet_def)

lemma same_control_refl [simp]: "same_control w w"
  by (simp add: same_control_def)

text \<open>Below such a call nothing changes.\<close>

lemma calm_roles_simps [simp]:
  "calm_roles []" "calm_roles (r # rs) \<longleftrightarrow> r \<in> {Call, Outside, RunCall, DeferCall, RouteCall} \<and> calm_roles rs"
  by (auto simp: calm_roles_def)

lemma quiet_calm: "quiet_roles rs \<Longrightarrow> calm_roles rs"
  by (auto simp: calm_roles_def quiet_roles_def)

lemma calm_roles_ok:
  assumes "calm_roles new" "roles_ok rs" "\<forall>r \<in> set new. role_ok rs r"
  shows "roles_ok (new @ rs)"
  using assms by (induction new) auto

lemma deferral_kept_append: "deferral_kept rs \<Longrightarrow> deferral_kept (new @ rs)"
  by (induction new) auto

lemma calm_deferral: "calm_roles new \<Longrightarrow> deferral_kept (new @ rs) = deferral_kept rs"
  by (induction new) auto

lemma deferral_framed: "roles_ok rs \<Longrightarrow> deferral_kept rs \<Longrightarrow> framed rs"
  by (induction rs) auto

lemma run_framed: "roles_ok rs \<Longrightarrow> runs_below rs \<Longrightarrow> framed rs"
  by (induction rs) auto

lemma calm_counts:
  assumes "calm_roles new"
  shows "count_list (new @ rs) DeliveryFrame = count_list rs DeliveryFrame"
    "count_list (new @ rs) WaveFrame = count_list rs WaveFrame"
    "count_list (new @ rs) (RunFrame n) = count_list rs (RunFrame n)"
    "RunFrame n \<in> set (new @ rs) \<longleftrightarrow> RunFrame n \<in> set rs"
    "RecoverFrame \<in> set (new @ rs) \<longleftrightarrow> RecoverFrame \<in> set rs"
  using assms by (induction new) auto

lemma control_pop:
  assumes "control_ok (r # rs) panicking w" "r \<in> {Call, Outside, RunCall, DeferCall, RouteCall}"
  shows "control_ok rs panicking w"
  using assms by (cases panicking; elim insertE emptyE) (simp_all add: control_ok_def)

lemma runs_pop:
  assumes "runs_ok (r # rs) w" "r \<in> {Call, Outside, RunCall, DeferCall, RouteCall}"
  shows "runs_ok rs w"
  using assms by (elim insertE emptyE) (simp_all add: runs_ok_def)

lemma control_push:
  assumes "control_ok rs False w" "roles_ok rs" "calm_roles new" "same_control w w'"
  shows "control_ok (new @ rs) panicking w'"
  using assms(1,4) calm_counts(1,2) [OF assms(3), where rs = rs] calm_deferral [OF assms(3), where rs = rs]
    deferral_framed [OF assms(2)]
  unfolding control_ok_def same_control_def by (auto split: if_splits)

lemma runs_push:
  assumes "runs_ok rs w" "calm_roles new" "same_control w w'"
  shows "runs_ok (new @ rs) w'"
  using assms(1,3) calm_counts(3-5) [OF assms(2), where rs = rs]
  unfolding runs_ok_def same_control_def by simp

lemma calm_keeps:
  assumes inv: "control_inv (t # ts) None w" and t: "role_of t \<in> {Call, Outside, RunCall, DeferCall, RouteCall}"
    and same: "same_control w w'" and new: "calm_roles (roles new)"
    and below: "\<forall>r \<in> set (roles new). role_ok (roles ts) r"
  shows "control_inv (new @ ts) p w'"
proof -
  let ?rs = "roles ts" and ?new = "roles new"
  have rs: "roles_ok ?rs" and ok: "control_ok ?rs False w" "runs_ok ?rs w"
    using inv t control_pop [of "role_of t" ?rs False w] runs_pop [of "role_of t" ?rs w]
    by (simp_all add: control_inv_def)
  from control_push [OF ok(1) rs new same] runs_push [OF ok(2) new same] calm_roles_ok [OF new rs below]
  show ?thesis by (simp add: control_inv_def)
qed

lemma quiet_keeps:
  assumes inv: "control_inv (t # ts) None w"
    and t: "role_of t = Outside \<and> set (roles new) \<subseteq> {Outside} \<or> role_of t \<in> {Call, RunCall, DeferCall, RouteCall}"
    and q: "quiet w (w', new, p)"
  shows "control_inv (new @ ts) p w'"
proof (rule calm_keeps [OF inv])
  have "role_ok (roles ts) (role_of t)" using inv by (simp add: control_inv_def)
  with t q show "\<forall>r \<in> set (roles new). role_ok (roles ts) r"
    by (auto simp: quiet_roles_def)
qed (use t q in \<open>auto simp: quiet_calm\<close>)

lemma frame_inside: "node_frame a = node_frame b \<Longrightarrow> inside_run a = inside_run b"
  by (simp add: node_frame_def)

lemma same_control_set:
  "inside_run nd = inside_run (node_of w n) \<Longrightarrow> same_control w (w\<lparr>w_node := (w_node w)(n := nd)\<rparr>)"
  by (simp add: same_control_def)

lemma same_control_upd:
  "inside_run (f (node_of w n)) = inside_run (node_of w n) \<Longrightarrow> same_control w (upd_node n f w)"
  by (simp add: same_control_def upd_node_def)

lemma same_control_register [simp]:
  "same_control (wave_register n w) w' = same_control w w'" "same_control w (wave_register n w') = same_control w w'"
  by (simp_all add: same_control_def wave_register_def)

lemma same_control_trace [simp]: "same_control w (w\<lparr>w_trace := tr\<rparr>)"
  by (simp add: same_control_def)

lemma register_simps [simp]:
  "w_node (wave_register n w) = w_node w" "w_depth (wave_register n w) = w_depth w"
  "w_delivery (wave_register n w) = w_delivery w" "w_deferred (wave_register n w) = w_deferred w"
  "w_active (wave_register n w) = w_active w" "w_route (wave_register n w) = w_route w"
  "w_scope (wave_register n w) = None \<longleftrightarrow> w_scope w = None"
  by (simp_all add: wave_register_def)

lemma quiet_map [simp]:
  "quiet_roles (roles (map f xs)) \<longleftrightarrow> (\<forall>x \<in> set xs. role_of (f x) \<in> {Call, Outside})"
  by (auto simp: quiet_roles_def roles_def)

lemma outside_map [simp]:
  "set (roles (map f xs)) \<subseteq> {Outside} \<longleftrightarrow> (\<forall>x \<in> set xs. role_of (f x) = Outside)"
  by (auto simp: roles_def)

lemma api_quiet: "quiet w (api_tasks a w)" "set (roles (fst (snd (api_tasks a w)))) \<subseteq> {Outside}"
  by (cases a; simp add: api_tasks_def same_control_def)+

lemma user_step_quiet:
  assumes "role_of rest \<in> {Call, Outside}"
  shows "quiet w (user_step x rest w)" "set (roles (fst (snd (user_step x rest w)))) \<subseteq> {Outside, role_of rest}"
  using assms api_quiet [where w = w and a = "the x"] by (cases x; cases "api_tasks (the x) w"; auto simp: user_step_def)+

lemma fn_step_quiet: "role_of rest = Call \<Longrightarrow> quiet w (fn_step n x rest w)"
  using user_step_quiet(1) [of rest w]
  by (cases x; cases "the x") (auto simp: fn_step_def intro!: same_control_upd)

lemma defer_wave_same: "same_control w (defer_wave n ms w)"
  by (auto simp: defer_wave_def defer_to_batch_def batch_frame_def pinning_host_def same_control_def split: option.splits)

lemma down_deliver_quiet: "quiet w (down_deliver n inside ms w)"
  by (simp add: down_deliver_def)

lemma down_buffer_quiet: "quiet w (down_buffer n inside ms w)"
proof -
  have "same_control w (upd_node n (buffer_wave b) w)" for b
    by (rule same_control_upd) (rule frame_inside, simp)
  then have "quiet w (down_deliver n inside ms' (upd_node n (buffer_wave b) w))" for b ms'
    by (simp add: down_deliver_def)
  with \<open>\<And>b. same_control w (upd_node n (buffer_wave b) w)\<close> down_deliver_quiet [of w] show ?thesis
    by (simp add: down_buffer_def Let_def)
qed

lemma quiet_register [simp]: "quiet (wave_register n w) r = quiet w r"
  by (simp add: quiet_def)

lemma down_quiet: "quiet w (down n msgs w)"
proof -
  let ?w = "wave_register n w"
  have "quiet w (down_buffer n inside ms ?w)" for inside ms
    using down_buffer_quiet [of ?w] by simp
  moreover have "same_control w (defer_wave n ms ?w)" for ms
    using defer_wave_same [of ?w n ms] by simp
  ultimately show ?thesis
    by (simp add: down_def Let_def)
qed

lemma receive_action_roles:
  assumes "collect_receive in_flight delivery i m nd = (nd', Some a)"
  shows "set (roles (apply_tasks n a)) \<subseteq> {Call, RunCall} \<union> (if in_flight then {DeferCall} else {})"
proof -
  have "ra_defer_maybe_run a \<longrightarrow> in_flight"
    using assms
    by (cases m)
      (auto simp: collect_receive_def receive_message_def receive_invalidate_def receive_dirty_def receive_data_def
        receive_settled_def receive_terminal_def set_maybe_run_def no_action_def Let_def split_beta
        split: if_splits dep_terminal.splits)
  then show ?thesis
    unfolding apply_tasks_def by (cases "ra_decision a"; cases "ra_down_msgs a") simp_all
qed

text \<open>The calls of the engine that are quiet.\<close>

lemmas inside_frames [simp] =
  frame_inside [OF frame_decide] frame_inside [OF frame_collect_receive] frame_inside [OF frame_collect_down]
  frame_inside [OF frame_dirty_once] frame_emission [THEN frame_inside] frame_lifecycle [THEN frame_inside]

lemma quiet_emission:
  "quiet w (emit_dirty_once n w)" "quiet w (deliver_down_msg n m w)" "quiet w (passthrough_emit n w)"
  "quiet w (settle_run n async w)" "quiet w (settle_rest n w)" "quiet w (invalidate n w)"
proof -
  show "quiet w (emit_dirty_once n w)"
    by (simp add: emit_dirty_once_def split_beta same_control_set)
  show "quiet w (deliver_down_msg n m w)"
    by (auto simp: deliver_down_msg_def split_beta same_control_set split: down_action.split)
  show "quiet w (passthrough_emit n w)"
    by (auto simp: passthrough_emit_def split_beta same_control_set split: option.split)
  show "quiet w (settle_run n async w)" "quiet w (settle_rest n w)"
    by (simp_all add: settle_run_def settle_rest_def)
  show "quiet w (invalidate n w)"
    using frame_invalidate [of "node_of w n", THEN frame_inside]
    by (auto simp: invalidate_def same_control_set split: option.split)
qed

lemma quiet_control:
  "quiet w (apply_deferred k n w)" "quiet w (release_pause n lock w)" "quiet w (on_resume n w)"
  "quiet w (resume_run n w)" "quiet w (on_demand n demand w)" "quiet w (fire_owed_demand_if_ready n w)"
  "quiet w (deliver_pull_demand n demand w)" "quiet w (fire_pull n w)"
proof -
  show "quiet w (apply_deferred k n w)" by (cases k) (simp_all add: apply_deferred_def)
  show "quiet w (release_pause n lock w)"
    by (auto simp: release_pause_def split_beta same_control_set split: option.split)
  show "quiet w (on_resume n w)" by (simp add: on_resume_def same_control_upd)
  show "quiet w (resume_run n w)" by (simp add: resume_run_def same_control_upd)
  show "quiet w (on_demand n demand w)" by (simp add: on_demand_def same_control_upd)
  show "quiet w (fire_owed_demand_if_ready n w)"
    by (simp add: fire_owed_demand_if_ready_def same_control_upd split: option.split)
  show "quiet w (deliver_pull_demand n demand w)" by (simp add: deliver_pull_demand_def same_control_upd)
  show "quiet w (fire_pull n w)" by (simp add: fire_pull_def Let_def same_control_def upd_node_def)
qed

lemma quiet_lifecycle:
  "quiet w (subscribe n s edge w)" "quiet w (activate_check n w)" "quiet w (record_dep_subscription n i d sub w)"
proof -
  show "quiet w (subscribe n s edge w)"
    by (auto simp: subscribe_def split_beta same_control_set frame_subscribers split: option.split)
  show "quiet w (activate_check n w)"
    by (auto simp: activate_check_def same_control_upd)
  show "quiet w (record_dep_subscription n i d sub w)"
    by (simp add: record_dep_subscription_def same_control_upd)
qed

lemma unsub_roles:
  "set (roles (concat (map (case_option [] (\<lambda>(d, i). [TUnsubscribe d i])) us))) \<subseteq> {Outside}"
  "quiet_roles (roles (concat (map (case_option [] (\<lambda>(d, i). [TUnsubscribe d i])) us)))"
  by (induction us) (auto split: option.split)

lemma quiet_outside:
  "quiet w (unsubscribe n sub w)" "set (roles (fst (snd (unsubscribe n sub w)))) \<subseteq> {Outside}"
  "quiet w (deactivate n w)" "set (roles (fst (snd (deactivate n w)))) \<subseteq> {Outside}"
  "quiet w (commit_batched_wave n ms w)" "set (roles (fst (snd (commit_batched_wave n ms w)))) \<subseteq> {Outside}"
  "quiet w (rollback_batched n w)" "set (roles (fst (snd (rollback_batched n w)))) \<subseteq> {Outside}"
proof -
  show "quiet w (unsubscribe n sub w)" "set (roles (fst (snd (unsubscribe n sub w)))) \<subseteq> {Outside}"
    by (simp_all add: unsubscribe_def split_beta same_control_set frame_subscribers)
  show "quiet w (deactivate n w)" "set (roles (fst (snd (deactivate n w)))) \<subseteq> {Outside}"
    by (simp_all add: deactivate_def same_control_upd unsub_roles)
  show "quiet w (commit_batched_wave n ms w)" "set (roles (fst (snd (commit_batched_wave n ms w)))) \<subseteq> {Outside}"
    "quiet w (rollback_batched n w)" "set (roles (fst (snd (rollback_batched n w)))) \<subseteq> {Outside}"
    by (simp_all add: commit_batched_wave_def rollback_batched_def same_control_upd)
qed

section \<open>Deliveries and deferred runs\<close>

lemma control_popD:
  assumes "control_inv (t # ts) None w" "role_of t \<in> {Call, Outside, RunCall, DeferCall, RouteCall}"
  shows "roles_ok (roles ts)" "control_ok (roles ts) False w" "runs_ok (roles ts) w" "role_ok (roles ts) (role_of t)"
  using assms control_pop [of "role_of t" "roles ts" False w] runs_pop [of "role_of t" "roles ts" w]
  by (simp_all add: control_inv_def)

lemma depth_in_delivery: "control_ok rs panicking w \<Longrightarrow> 0 < w_depth w \<longleftrightarrow> DeliveryFrame \<in> set rs"
  using count_list_0_iff [of rs DeliveryFrame] by (auto simp: control_ok_def)

lemma delivery_keeps_deferral: "DeliveryFrame \<in> set rs \<Longrightarrow> deferral_kept rs"
  by (induction rs) auto

lemma control_defer:
  "control_ok rs False w \<Longrightarrow> DeliveryFrame \<in> set rs \<Longrightarrow> control_ok rs False (defer_action k n w)"
  by (simp add: control_ok_def defer_action_def delivery_keeps_deferral)

lemma runs_defer [simp]: "runs_ok rs (defer_action k n w) = runs_ok rs w"
  by (simp add: runs_ok_def defer_action_def)

lemma defer_keeps:
  assumes "control_inv (t # ts) None w" "role_of t \<in> {Call, Outside, RunCall, DeferCall, RouteCall}" "0 < w_depth w"
  shows "control_inv ts None (defer_action k n w)"
  using control_popD [OF assms(1,2)] assms(3) depth_in_delivery [of "roles ts" False w] control_defer [of "roles ts" w]
  by (simp add: control_inv_def)

lemma receive_keeps:
  assumes inv: "control_inv (TReceive n i m # ts) None w" and ex: "receive_from_dep n i m w = (w', new, p)"
  shows "control_inv (new @ ts) p w'"
proof -
  note popped = control_popD [OF inv]
  let ?r = "collect_receive (w_depth w > 0) (w_delivery w) i m (node_of w n)"
  have w': "w' = (wave_register n w)\<lparr>w_node := (w_node w)(n := fst ?r)\<rparr>"
    and new: "new = (case snd ?r of None \<Rightarrow> [] | Some a \<Rightarrow> apply_tasks n a)"
    using ex by (simp_all add: receive_from_dep_def Let_def split_beta)
  have "set (roles new) \<subseteq> {Call, RunCall} \<union> (if w_depth w > 0 then {DeferCall} else {})"
    using receive_action_roles [of "w_depth w > 0" "w_delivery w" i m "node_of w n" "fst ?r" _ n]
    unfolding new by (cases "snd ?r") (auto simp: prod_eq_iff)
  moreover have "0 < w_depth w \<longrightarrow> DeliveryFrame \<in> set (roles ts)"
    using popped(2) depth_in_delivery [of "roles ts" False w] by simp
  ultimately show ?thesis
    using popped(4) same_control_set [of "fst ?r" "wave_register n w" n]
    by (intro calm_keeps [OF inv]) (auto simp: w' calm_roles_def split: if_splits)
qed

lemma decision_roles: "set (roles (decision_tasks n d)) \<subseteq> {Call, RunCall}"
  by (cases d) (simp_all add: decision_tasks_def)

lemma decision_keeps:
  assumes inv: "control_inv (t # ts) None w" and t: "role_of t = Call" and same: "same_control w w'"
    and new: "set (roles new) \<subseteq> {Call, RunCall}"
  shows "control_inv (new @ ts) None w'"
proof (rule calm_keeps [OF inv _ same])
  show "\<forall>r \<in> set (roles new). role_ok (roles ts) r"
    using control_popD(4) [OF inv] t subsetD [OF new] by fastforce
qed (use t new in \<open>auto simp: calm_roles_def\<close>)

lemma maybe_run_keeps:
  assumes inv: "control_inv (TMaybeRun n # ts) None w" and ex: "maybe_run n w = (w', new, p)"
  shows "control_inv (new @ ts) p w'"
proof (cases "w_depth w > 0")
  case True
  with ex defer_keeps [OF inv] show ?thesis by (auto simp: maybe_run_def)
next
  case False
  with ex decision_keeps [OF inv, of w' new] show ?thesis
    by (auto simp: maybe_run_def split_beta same_control_set decision_roles)
qed

lemma try_run_keeps:
  assumes inv: "control_inv (TTryRun n # ts) None w" and ex: "try_run n w = (w', new, p)"
  shows "control_inv (new @ ts) p w'"
  using ex decision_keeps [OF inv, of w new] by (auto simp: try_run_def decision_roles)

lemma activate_run_keeps:
  assumes inv: "control_inv (TActivateRun n # ts) None w"
  shows "control_inv ((if b then [TRunWave n] else []) @ ts) None w"
  using decision_keeps [OF inv _ same_control_refl, of "if b then [TRunWave n] else []"] by simp

lemma settle_absorbed_keeps:
  assumes inv: "control_inv (TSettleAbsorbed n # ts) None w" and ex: "settle_after_absorbed_terminal n w = (w', new, p)"
  shows "control_inv (new @ ts) p w'"
proof (cases "w_depth w > 0")
  case True
  with ex defer_keeps [OF inv] show ?thesis by (auto simp: settle_after_absorbed_terminal_def)
next
  case False
  with ex quiet_keeps [OF inv, of new w' p] show ?thesis
    by (auto simp: settle_after_absorbed_terminal_def split: if_splits)
qed

lemma enter_delivery_keeps:
  assumes inv: "control_inv (TDeliveryBegin n ms # ts) None w" and ex: "enter_delivery n ms w = (w', new, p)"
  shows "control_inv (new @ ts) p w'"
proof -
  note popped = control_popD [OF inv]
  let ?rs = "DeliveryFrame # roles ts"
  have rs: "roles_ok ?rs" using popped by simp
  have w': "w' = w\<lparr>w_delivery := w_next_delivery w, w_next_delivery := max (w_next_delivery w + 1) 1, w_depth := w_depth w + 1\<rparr>"
    and new: "roles new = map (\<lambda>m. Call) ms @ [DeliveryFrame]" and p: "p = None"
    using ex by (auto simp: enter_delivery_def roles_def)
  have "control_ok ?rs False w'"
    using popped(2) by (simp add: control_ok_def w')
  moreover have "runs_ok ?rs w'"
    using popped(3) by (simp add: runs_ok_def w')
  moreover have "calm_roles (map (\<lambda>m. Call) ms)" by (auto simp: calm_roles_def)
  moreover have "\<forall>r \<in> set (map (\<lambda>m. Call) ms). role_ok ?rs r"
    using popped(4) by auto
  ultimately show ?thesis
    using control_push [of ?rs w' _ w'] runs_push [of ?rs w' _ w'] calm_roles_ok rs
    by (simp add: control_inv_def new p)
qed

lemma finish_delivery_keeps:
  assumes inv: "control_inv (TDeliveryEnd prev # ts) None w" and ex: "finish_delivery prev w = (w', new, p)"
  shows "control_inv (new @ ts) p w'"
proof -
  have depth: "w_depth w = Suc (count_list (roles ts) DeliveryFrame)" and framed: "framed (roles ts)"
    using inv by (simp_all add: control_inv_def control_ok_def)
  have "DeliveryFrame \<in> set (roles ts)" if "w_depth w \<noteq> 1"
    using that depth count_list_0_iff [of "roles ts" DeliveryFrame] by auto
  then have kept: "w_depth w = 1 \<or> deferral_kept (roles ts)"
    using delivery_keeps_deferral by blast
  have rs: "roles_ok (roles ts)" and runs: "runs_ok (roles ts) w"
    using inv by (simp_all add: control_inv_def runs_ok_def)
  have w': "w' = leave_delivery prev w" and new: "new = (if w_depth w = 1 then [TDrain] else [])" and p: "p = None"
    using ex by (simp_all add: finish_delivery_def)
  have "control_ok (roles (new @ ts)) False w'"
    using inv kept depth by (auto simp: w' new leave_delivery_def control_inv_def control_ok_def)
  moreover have "runs_ok (roles (new @ ts)) w'"
    using runs by (simp add: w' new leave_delivery_def runs_ok_def)
  ultimately show ?thesis
    using rs framed by (simp add: control_inv_def p new)
qed

lemma drain_keeps:
  assumes inv: "control_inv (TDrain # ts) None w" and ex: "drain_deferred_runs w = (w', new, p)"
  shows "control_inv (new @ ts) p w'"
proof (cases "w_deferred w = []")
  case True
  with inv ex show ?thesis
    by (auto simp: drain_deferred_runs_def control_inv_def control_ok_def runs_ok_def)
next
  case False
  let ?rs = "DrainFrame # roles ts"
  obtain acts where w': "w' = w\<lparr>w_deferred := []\<rparr>" and new: "new = acts @ [TDrain]" and p: "p = None"
    and acts: "set (roles acts) \<subseteq> {Call}"
  proof
    show "new = (map (\<lambda>(k, n). TDrainAct k n) (filter (\<lambda>a. fst a = DeferRun) (w_deferred w)) @
      map (\<lambda>(k, n). TDrainAct k n) (filter (\<lambda>a. fst a = DeferAbsorbedSettle) (w_deferred w))) @ [TDrain]"
      using False ex by (simp add: drain_deferred_runs_def)
  qed (use False ex in \<open>auto simp: drain_deferred_runs_def roles_def\<close>)
  have rs: "roles_ok ?rs" "control_ok ?rs False w'" "runs_ok ?rs w'" "framed (roles ts)"
    using inv by (simp_all add: control_inv_def control_ok_def runs_ok_def w')
  have calm: "calm_roles (roles acts)" and below: "\<forall>r \<in> set (roles acts). role_ok ?rs r"
    using acts rs(4) by (auto simp: calm_roles_def)
  have "roles (new @ ts) = roles acts @ ?rs" by (simp add: new)
  then show ?thesis
    using control_push [OF rs(2,1) calm same_control_refl, of False] runs_push [OF rs(3) calm same_control_refl]
      calm_roles_ok [OF calm rs(1) below]
    by (simp only: control_inv_def p) simp
qed

section \<open>Runs, waves and recovery\<close>

lemma run_wave_keeps:
  assumes inv: "control_inv (TRunWave n # ts) None w" and ex: "run_wave n w = (w', new, p)"
  shows "control_inv (new @ ts) p w'"
proof (cases "inside_run (node_of w n) \<or> \<not> n_has_fn (node_of w n)")
  case True
  then have "quiet w (w', new, p)"
    using ex by (auto simp: run_wave_def Let_def split: if_splits)
  then show ?thesis by (rule quiet_keeps [OF inv, rotated]) simp
next
  case False
  note popped = control_popD [OF inv]
  let ?rs = "roles ts"
  obtain c async sc where
    w': "w' = (wave_register n w)\<lparr>w_node := (w_node w)(n := begin_run (node_of w n)), w_scope := sc\<rparr>"
      "sc = None \<longleftrightarrow> w_scope w = None"
    and new: "new = [TFn n c 0, TRunGuard n, TRunSettle n async]" and p: "p = None"
    using ex False by (auto simp: run_wave_def Let_def upd_node_def)
  have count: "RecoverFrame \<notin> set ?rs \<Longrightarrow> count_list ?rs (RunFrame n) = 0"
    using popped(3) False by (simp add: runs_ok_def)
  have "control_ok (roles (new @ ts)) False w'"
    using popped(2) by (simp add: new control_ok_def w')
  moreover have "runs_ok (roles (new @ ts)) w'"
    using popped(3) count by (auto simp: new w'(1) runs_ok_def frame_runs)
  ultimately show ?thesis
    using popped(1,4) by (simp add: control_inv_def new p)
qed

lemma run_guard_keeps:
  assumes "control_inv (TRunGuard n # ts) q w"
  shows "control_inv ts q (upd_node n end_inside w)"
  using assms
  by (auto simp: control_inv_def control_ok_def runs_ok_def upd_node_def end_inside_def split: if_splits)

lemma with_wave_owner_keeps:
  assumes inv: "control_inv (TOwned n body # ts) None w" and ex: "with_wave_owner n body w = (w', new, p)"
  shows "control_inv (new @ ts) p w'"
proof -
  note popped = control_popD [OF inv]
  have body: "set (roles body) \<subseteq> {Call}"
  proof -
    have "list_all is_owned_call body"
      using inv by (simp add: control_inv_def split: if_splits)
    moreover have "is_owned_call t \<Longrightarrow> role_of t = Call" for t :: "'a task" by (cases t) simp_all
    ultimately show ?thesis by (auto simp: roles_def list_all_iff)
  qed
  have calm: "calm_roles (roles body)" using body by (auto simp: calm_roles_def)
  have scope: "count_list (roles ts) WaveFrame = (if w_scope w = None then 0 else 1)"
    using inv by (simp add: control_inv_def control_ok_def split: if_splits)
  show ?thesis
  proof (cases "w_scope w = None")
    case True
    let ?rs = "WaveFrame # roles ts"
    have w': "w' = w\<lparr>w_scope := Some \<lparr>sc_touched = [], sc_blamed = None\<rparr>\<rparr>" and new: "new = body @ [TWaveEnd n]"
      and p: "p = None"
      using ex True by (simp_all add: with_wave_owner_def)
    have rok: "roles_ok (roles ts)" using inv by (simp add: control_inv_def)
    have "WaveFrame \<notin> set (roles ts)" using scope True count_list_0_iff [of "roles ts" WaveFrame] by simp
    have "runs_below (roles ts) \<Longrightarrow> framed (roles ts)"
      using rok by (rule run_framed)
    then have rs: "roles_ok ?rs"
      using rok \<open>WaveFrame \<notin> set (roles ts)\<close> by auto
    have ok: "control_ok ?rs False w'" "runs_ok ?rs w'"
      using inv True by (auto simp: control_inv_def control_ok_def runs_ok_def w' split: if_splits)
    have below: "\<forall>r \<in> set (roles body). role_ok ?rs r" using body by auto
    have "roles (new @ ts) = roles body @ ?rs" by (simp add: new)
    then show ?thesis
      using control_push [OF ok(1) rs calm same_control_refl, of False] runs_push [OF ok(2) calm same_control_refl]
        calm_roles_ok [OF calm rs below]
      by (simp only: control_inv_def p) simp
  next
    case False
    then have "WaveFrame \<in> set (roles ts)" using scope count_list_0_iff [of "roles ts" WaveFrame] by auto
    then have below: "\<forall>r \<in> set (roles body). role_ok (roles ts) r" using body by auto
    from False ex have w': "w' = w" and new: "new = body" by (auto simp: with_wave_owner_def)
    have "role_of (TOwned n body) = Outside"
      using inv by (simp add: control_inv_def split: if_splits)
    then show ?thesis
      unfolding w' new by (intro calm_keeps [OF inv _ same_control_refl calm below]) simp
  qed
qed

lemma wave_end_keeps:
  assumes "control_inv (TWaveEnd n # ts) None w"
  shows "control_inv ts None (w\<lparr>w_scope := None\<rparr>)"
  using assms by (auto simp: control_inv_def control_ok_def runs_ok_def split: if_splits)

lemma recover_end_keeps:
  assumes "control_inv (TRecoverEnd # ts) q w"
  shows "control_inv ts None (w\<lparr>w_deferred := []\<rparr>)"
proof -
  have "runs_ok (roles ts) w"
    using assms count_list_0_iff [of "roles ts"] by (auto simp: control_inv_def runs_ok_def)
  then show ?thesis
    using assms by (auto simp: control_inv_def control_ok_def runs_ok_def)
qed

section \<open>Upstream routes and batches\<close>

lemma up_route_keeps:
  assumes inv: "control_inv (TUp n msgs toward # ts) None w" and ex: "up_route n msgs toward w = (w', new, p)"
  shows "control_inv (new @ ts) p w'"
proof (cases "list_ex (\<lambda>m. \<not> is_up_allowed m) msgs")
  case True
  with ex have "quiet w (w', new, p)" by (auto simp: up_route_def)
  then show ?thesis by (rule quiet_keeps [OF inv, rotated]) simp
next
  case False
  note popped = control_popD [OF inv]
  let ?b = "w_route w \<noteq> []"
  let ?rs = "RouteFrame ?b # roles ts"
  have w': "w' = w\<lparr>w_route := []\<rparr>" and p: "p = None"
    and new: "roles new = map (\<lambda>m. RouteCall) msgs @ [RouteFrame ?b]"
    using ex False by (auto simp: up_route_def roles_def)
  have rs: "roles_ok ?rs"
    using popped by (auto simp: control_ok_def)
  have ok: "control_ok ?rs False w'" "runs_ok ?rs w'"
    using popped(2,3) by (auto simp: control_ok_def runs_ok_def w')
  have calm: "calm_roles (map (\<lambda>m. RouteCall) msgs)" and below: "\<forall>r \<in> set (map (\<lambda>m. RouteCall) msgs). role_ok ?rs r"
    using popped(4) by (auto simp: calm_roles_def)
  show ?thesis
    using control_push [OF ok(1) rs calm same_control_refl, of False] runs_push [OF ok(2) calm same_control_refl]
      calm_roles_ok [OF calm rs below] by (simp add: control_inv_def new p)
qed

lemma route_end_keeps:
  assumes "control_inv (TRouteEnd saved # ts) q w"
  shows "control_inv ts q (w\<lparr>w_route := saved\<rparr>)"
  using assms by (cases q) (auto simp: control_inv_def control_ok_def runs_ok_def)

lemma forward_up_roles: "set (roles (forward_up n m toward w)) \<subseteq> {RouteCall}"
  by (auto simp: forward_up_def Let_def roles_def split: option.splits)

lemma up_msg_keeps:
  assumes inv: "control_inv (TUpMsg n m toward # ts) None w" and ex: "up_msg n m toward w = (w', new, p)"
  shows "control_inv (new @ ts) p w'"
proof -
  note popped = control_popD [OF inv]
  have below: "framed (roles ts)" "routed (roles ts)" using popped(4) by simp_all
  have "p = None" and calm: "set (roles new) \<subseteq> {Call, RouteCall}"
    using ex forward_up_roles [of n m toward w]
    by (cases m; auto simp: up_msg_def split: if_splits)+
  define r where "r = w_route w'"
  have same: "same_control w (w'\<lparr>w_route := w_route w\<rparr>)"
    using ex by (cases m) (auto simp: up_msg_def same_control_def upd_node_def split: if_splits)
  have "control_inv (new @ ts) None (w'\<lparr>w_route := w_route w\<rparr>)"
  proof (rule calm_keeps [OF inv _ same])
    show "\<forall>r \<in> set (roles new). role_ok (roles ts) r"
      using below subsetD [OF calm] by fastforce
  qed (use calm in \<open>auto simp: calm_roles_def\<close>)
  then have "control_inv (new @ ts) None (w'\<lparr>w_route := w_route w\<rparr>\<lparr>w_route := r\<rparr>)"
    using below by (auto simp: control_inv_def control_ok_def runs_ok_def)
  then show ?thesis using \<open>p = None\<close> by (simp add: r_def)
qed

lemma begin_batch_keeps:
  assumes inv: "control_inv (TBatch b # ts) None w" and ex: "begin_batch b w = (w', new, p)"
  shows "control_inv (new @ ts) p w'"
  using inv ex by (auto simp: begin_batch_def control_inv_def control_ok_def runs_ok_def split: if_splits)

lemma batch_close_keeps:
  assumes "control_inv (TBatchClose # ts) q w"
  shows "control_inv ts q (w\<lparr>w_active := None\<rparr>)"
  using assms by (cases q) (auto simp: control_inv_def control_ok_def runs_ok_def)

lemma finish_batch_roles:
  assumes "finish_batch c w = (w', new)"
  shows "set (roles new) \<subseteq> {Outside, BatchFrame}" "w_active w' \<noteq> None \<longrightarrow> BatchFrame \<in> set (roles new)"
    "same_control (w'\<lparr>w_active := None\<rparr>) (w\<lparr>w_active := None\<rparr>)"
  using assms
  by (auto simp: finish_batch_def batch_frame_def take_for_finish_def roles_def same_control_def
      split: option.splits if_splits)

text \<open>Tasks that may stand anywhere: calls from outside, the frame of a batch and a panic to go on.\<close>

lemma free_roles_ok:
  assumes "set new \<subseteq> {Outside, BatchFrame, Rethrow}" "roles_ok rs"
  shows "roles_ok (new @ rs)"
  using assms by (induction new) auto

lemma free_counts:
  assumes "set new \<subseteq> {Outside, BatchFrame, Rethrow}"
  shows "count_list (new @ rs) DeliveryFrame = count_list rs DeliveryFrame"
    "count_list (new @ rs) WaveFrame = count_list rs WaveFrame"
    "count_list (new @ rs) (RunFrame n) = count_list rs (RunFrame n)"
    "RunFrame n \<in> set (new @ rs) \<longleftrightarrow> RunFrame n \<in> set rs"
    "RecoverFrame \<in> set (new @ rs) \<longleftrightarrow> RecoverFrame \<in> set rs"
  using assms by (induction new) auto

lemma rethrow_deferral: "Rethrow \<in> set new \<Longrightarrow> framed rs \<Longrightarrow> deferral_kept (new @ rs)"
  by (induction new) auto

lemma free_keeps:
  assumes inv: "control_inv (t # ts) q w" and t: "role_of t \<in> {Outside, BatchFrame, Rethrow}"
    and new: "set (roles new) \<subseteq> {Outside, BatchFrame, Rethrow}"
    and same: "same_control (w'\<lparr>w_active := None\<rparr>) (w\<lparr>w_active := None\<rparr>)"
    and active: "w_active w' \<noteq> None \<longrightarrow> BatchFrame \<in> set (roles (new @ ts))"
    and panic: "q \<noteq> None \<or> role_of t = Rethrow \<Longrightarrow> Rethrow \<in> set (roles new) \<or> p \<noteq> None"
  shows "control_inv (new @ ts) p w'"
proof -
  let ?rs = "roles ts" and ?new = "roles new"
  have rs: "roles_ok ?rs" using inv by (simp add: control_inv_def)
  have fr: "w_deferred w \<noteq> [] \<Longrightarrow> q \<noteq> None \<Longrightarrow> framed ?rs"
    using inv t by (auto simp: control_inv_def control_ok_def)
  have dk: "w_deferred w \<noteq> [] \<Longrightarrow> q = None \<Longrightarrow> framed ?rs \<and> (deferral_kept ?rs \<or> role_of t = Rethrow)"
    using inv t deferral_framed [OF rs] by (auto simp: control_inv_def control_ok_def)
  have kept: "w_deferred w \<noteq> [] \<Longrightarrow> (if p \<noteq> None then framed (?new @ ?rs) else deferral_kept (?new @ ?rs))"
    using fr dk panic rethrow_deferral [of ?new ?rs] deferral_kept_append [of ?rs ?new] by (cases q) auto
  have old: "w_depth w = count_list ?rs DeliveryFrame" "count_list ?rs WaveFrame = (if w_scope w = None then 0 else 1)"
    "w_route w \<noteq> [] \<longrightarrow> routed ?rs"
    using inv t by (auto simp: control_inv_def control_ok_def)
  have runs: "runs_ok ?rs w"
    using inv t by (elim insertE emptyE) (simp_all add: control_inv_def runs_ok_def)
  have "control_ok (?new @ ?rs) (p \<noteq> None) w'"
    using kept old active same free_counts(1,2) [OF new, where rs = ?rs]
    by (auto simp: control_ok_def same_control_def)
  moreover have "runs_ok (?new @ ?rs) w'"
    using runs same free_counts(3-5) [OF new, where rs = ?rs] by (simp add: runs_ok_def same_control_def)
  ultimately show ?thesis
    using free_roles_ok [OF new rs] by (simp add: control_inv_def)
qed

lemma batch_end_keeps:
  assumes inv: "control_inv (TBatchEnd # ts) q w" and fin: "finish_batch c w = (w', new)"
  shows "control_inv (new @ (case q of None \<Rightarrow> [] | Some x \<Rightarrow> [TRethrow x]) @ ts) None w'"
  using free_keeps [OF inv, of "new @ (case q of None \<Rightarrow> [] | Some x \<Rightarrow> [TRethrow x])" w' None] finish_batch_roles [OF fin]
  by (cases q) auto

section \<open>Every step\<close>

lemma sinks_quiet:
  "quiet w (exec u (TSinks ss m) w)" "quiet w (exec u (TSink sk m) w)"
  by (auto split: list.split sink.split)

lemma node_quiet:
  "same_control w (upd_node n (upd_wave (\<lambda>s. s\<lparr>ws_emitted_dirty := b\<rparr>)) w)"
  "same_control w (upd_node n (upd_wave (\<lambda>s. s\<lparr>ws_batch_dirty_owed := b\<rparr>)) w)"
  "same_control w (upd_node n end_down w)" "same_control w (upd_node n (end_run undirty) w)"
  "same_control w (upd_node n end_pull w)"
  by (simp_all add: same_control_upd end_pull_def)

lemma user_tasks_quiet:
  "quiet w (exec u (TUserSink k m j) w)" "quiet w (exec u (THook h j) w)" "quiet w (exec u (TBatchBody b j) w)"
  "set (roles (fst (snd (exec u (THook h j) w)))) \<subseteq> {Outside}"
  "set (roles (fst (snd (exec u (TBatchBody b j) w)))) \<subseteq> {Outside}"
  using user_step_quiet [where w = w and rest = "TUserSink k m (Suc j)" and x = "us_sink u w k m j"]
    user_step_quiet [where w = w and rest = "THook h (Suc j)" and x = "us_hook u w h j"]
    user_step_quiet [where w = w and rest = "TBatchBody b (Suc j)" and x = "us_batch u w b j"]
  by simp_all

lemmas quiet_tasks = sinks_quiet [simplified] user_tasks_quiet [simplified] quiet_emission quiet_control quiet_lifecycle quiet_outside node_quiet
  down_quiet fn_step_quiet

definition quiet_task :: "'v user \<Rightarrow> 'v task \<Rightarrow> 'v world \<Rightarrow> bool" where
  "quiet_task u t w \<longleftrightarrow> quiet w (exec u t w) \<and>
     (role_of t = Outside \<and> set (roles (fst (snd (exec u t w)))) \<subseteq> {Outside} \<or> role_of t = Call)"

lemma quiet_task_keeps:
  "control_inv (t # ts) None w \<Longrightarrow> quiet_task u t w \<Longrightarrow> exec u t w = (w', new, p) \<Longrightarrow> control_inv (new @ ts) p w'"
  using quiet_keeps [of t ts w new w' p] by (auto simp: quiet_task_def)

lemma task_cases:
  obtains (quiet) "quiet_task u t w"
  | (receive) n i m where "t = TReceive n i m" | (deferred) n where "t = TDeferRun n"
  | (maybe) n where "t = TMaybeRun n" | (tried) n where "t = TTryRun n" | (activate) n where "t = TActivateRun n"
  | (absorbed) n where "t = TSettleAbsorbed n"
  | (enter) n ms where "t = TDeliveryBegin n ms" | (leave) prev where "t = TDeliveryEnd prev" | (drain) "t = TDrain"
  | (run) n where "t = TRunWave n" | (guard) n where "t = TRunGuard n"
  | (owned) n body where "t = TOwned n body" | (wave_end) n where "t = TWaveEnd n" | (recover_end) "t = TRecoverEnd"
  | (up) n msgs toward where "t = TUp n msgs toward" | (up_msg) n m toward where "t = TUpMsg n m toward"
  | (route_end) saved where "t = TRouteEnd saved" | (batch) b where "t = TBatch b" | (batch_end) "t = TBatchEnd"
  | (batch_close) "t = TBatchClose" | (rethrow) q where "t = TRethrow q"
  by (cases t) (simp_all add: quiet_task_def quiet_tasks)

lemma exec_control:
  assumes inv: "control_inv (t # ts) None w" and ex: "exec u t w = (w', new, p)"
  shows "control_inv (new @ ts) p w'"
proof (cases rule: task_cases [of u t w])
  case quiet
  with inv ex show ?thesis by (blast intro: quiet_task_keeps)
next
  case (deferred n)
  then have "0 < w_depth w"
    using control_popD(2,4) [OF inv] depth_in_delivery [of "roles ts" False w] by simp
  with defer_keeps [OF inv] deferred ex show ?thesis by auto
next
  case batch_end
  with inv ex batch_end_keeps [of ts None w] show ?thesis by (auto split: prod.splits)
next
  case (rethrow q)
  have "w_active w \<noteq> None \<longrightarrow> BatchFrame \<in> set (roles ts)"
    using inv rethrow by (auto simp: control_inv_def control_ok_def)
  with rethrow ex free_keeps [OF inv, of "[]" w p] show ?thesis by (auto simp: same_control_def)
next
  case (activate n)
  with inv ex activate_run_keeps [of n ts w] show ?thesis by auto
qed (use inv ex in \<open>auto dest: receive_keeps maybe_run_keeps try_run_keeps settle_absorbed_keeps enter_delivery_keeps
    finish_delivery_keeps drain_keeps run_wave_keeps with_wave_owner_keeps up_route_keeps up_msg_keeps begin_batch_keeps
    run_guard_keeps route_end_keeps wave_end_keeps recover_end_keeps batch_close_keeps\<close>)

lemma unwind_pop:
  assumes inv: "control_inv (t # ts) (Some q) w"
    and t: "role_of t \<in> {Call, Outside, RunCall, DeferCall, RouteCall, DrainFrame, Rethrow}" and same: "same_control w w'"
  shows "control_inv ts (Some q) w'"
proof -
  have "roles_ok (roles ts)" using inv by (simp add: control_inv_def)
  moreover have "control_ok (roles ts) True w'"
    using inv t same by (elim insertE emptyE) (simp_all add: control_inv_def control_ok_def same_control_def)
  moreover have "runs_ok (roles ts) w'"
    using inv t same by (elim insertE emptyE) (simp_all add: control_inv_def runs_ok_def same_control_def)
  ultimately show ?thesis by (simp add: control_inv_def)
qed

lemma unwind_delivery:
  assumes "control_inv (TDeliveryEnd prev # ts) (Some q) w"
  shows "control_inv ts (Some q) (leave_delivery prev w)"
  using assms by (auto simp: control_inv_def control_ok_def runs_ok_def leave_delivery_def)

lemma recover_keeps:
  assumes inv: "control_inv (TWaveEnd n # ts) (Some q) w" and ex: "recover_wave n q w = (w', new, p)"
  shows "control_inv (new @ ts) p w'"
proof -
  let ?rs = "roles ts"
  have rs: "roles_ok ?rs" "runs_below ?rs \<longrightarrow> RecoverFrame \<in> set ?rs"
    and runs: "\<And>k. inside_run (node_of w k) \<Longrightarrow> RunFrame k \<in> set ?rs"
    and world: "w_depth w = count_list ?rs DeliveryFrame" "count_list ?rs WaveFrame = 0"
      "w_active w \<noteq> None \<longrightarrow> BatchFrame \<in> set ?rs" "w_route w \<noteq> [] \<longrightarrow> routed ?rs"
    using inv by (auto simp: control_inv_def control_ok_def runs_ok_def split: if_splits)
  define touched where "touched = (case w_scope w of None \<Rightarrow> [] | Some s \<Rightarrow> sc_touched s)"
  have w': "w' = (reset_touched touched w)\<lparr>w_scope := None, w_deferred := []\<rparr>"
    and new: "new = [] \<or> p = None \<and> (\<exists>b ms. new = [TDown b ms, TRecoverEnd])"
    using ex by (auto simp: recover_wave_def Let_def touched_def split: if_splits)
  have inside: "inside_run (node_of w' k) \<Longrightarrow> RunFrame k \<in> set ?rs" for k
    using runs [of k] by (auto simp: w' reset_touched_def frame_runs split: if_splits)
  have "control_ok (roles (new @ ts)) b w'" for b
    using new world by (auto simp: control_ok_def w' reset_touched_def)
  moreover have "runs_ok (roles (new @ ts)) w'"
    using new rs inside count_list_0_iff [of ?rs] by (auto simp: runs_ok_def)
  moreover have "roles_ok (roles (new @ ts))"
    using new rs by auto
  ultimately show ?thesis by (simp add: control_inv_def)
qed

lemma unwind_control:
  assumes inv: "control_inv (t # ts) (Some q) w" and ex: "unwind q t w = (w', new, p)"
  shows "control_inv (new @ ts) p w'"
proof (cases t)
  case (TSubscribeAbort n i)
  have "w_active w \<noteq> None \<longrightarrow> BatchFrame \<in> set (roles ts)"
    using inv TSubscribeAbort by (simp add: control_inv_def control_ok_def)
  then have "control_inv ([TUnsubscribe n i, TRethrow q] @ ts) None w"
    using free_keeps [OF inv, of "[TUnsubscribe n i, TRethrow q]" w None] TSubscribeAbort by (simp add: same_control_def)
  moreover have "control_inv ts (Some q) w"
    using unwind_pop [OF inv] TSubscribeAbort by simp
  ultimately show ?thesis using ex TSubscribeAbort by (auto split: if_splits)
next
  case TBatchEnd
  with inv ex batch_end_keeps [of ts "Some q" w False] show ?thesis by (auto split: prod.splits)
next
  case (TOwned n body)
  have "role_of t = Outside" using inv TOwned by (simp add: control_inv_def split: if_splits)
  with unwind_pop [OF inv] ex TOwned show ?thesis by auto
qed (use inv ex unwind_pop [OF inv] node_quiet(5) in \<open>auto dest: unwind_delivery run_guard_keeps route_end_keeps
      recover_keeps recover_end_keeps batch_close_keeps\<close>)

lemma call_control:
  assumes inv: "control_inv [] p w" and ex: "api_tasks a w = (w', ts, q)"
  shows "control_inv ts q w'"
proof -
  have "control_inv [THook 0 0] None w"
    using inv by (cases p) (auto simp: control_inv_def control_ok_def runs_ok_def)
  from quiet_keeps [OF this, of ts w' q] api_quiet [where w = w and a = a] ex show ?thesis by simp
qed

interpretation control: session_invariant control_inv
  by unfold_locales (fact exec_control unwind_control call_control)+

lemma control_inv_rest: "control_inv [] p w \<longleftrightarrow> w_depth w = 0 \<and> w_scope w = None \<and> w_active w = None \<and>
    w_route w = [] \<and> w_deferred w = [] \<and> (\<forall>n. \<not> inside_run (node_of w n))"
  by (auto simp: control_inv_def control_ok_def runs_ok_def split: if_splits)

lemma fresh_control: "fresh_graph nodes \<Longrightarrow> control_inv [] None (world_new nodes)"
proof -
  assume fresh: "fresh_graph nodes"
  have "\<not> inside_run (nodes n)" for n
  proof -
    obtain deps has_fn async cfg v where n: "nodes n = node_new deps has_fn async cfg v"
      using fresh unfolding fresh_graph_def by blast
    show ?thesis unfolding n by (simp add: node_new_def wave_state_new_def)
  qed
  then show ?thesis by (simp add: control_inv_rest world_new_def)
qed

end
