(* ===== verification/EngineRuns.thy ===== *)
theory EngineRuns
  imports EngineControl
begin

text \<open>
  When the function of a node runs: never while a dependency is dirty, first when every dependency
  has delivered a value (unless the node accepts partial input), and never inside its own run. Then
  the theorems about whole sessions of calls, for every user code.
\<close>

section \<open>Ready to run\<close>

definition run_ready :: "'v node \<Rightarrow> bool" where
  "run_ready n \<longleftrightarrow> n_has_fn n \<and> ds_pending (n_dep n) = 0 \<and>
     (n_has_called_fn_once n \<or> cfg_partial (n_config n) \<or> all_deps_settled n)"

lemma pending_nonneg: "node_wf n \<Longrightarrow> 0 \<le> ds_pending (n_dep n)"
  by (drule node_wf_dep) (simp add: dep_wf_def)

lemma pending_zero: "node_wf n \<Longrightarrow> ds_pending (n_dep n) = 0 \<longleftrightarrow> True \<notin> set (ds_dirty (n_dep n))"
  by (drule node_wf_dep) (auto simp: dep_wf_def dirty_count_def filter_empty_conv)

lemma decide_ready:
  assumes "node_wf n" "decide_maybe_run n = (n', RunRun)"
  shows "run_ready n'"
  using assms(2) pending_nonneg [OF assms(1)]
  by (auto simp: decide_maybe_run_def run_ready_def split: if_splits)

lemma try_ready: "node_wf n \<Longrightarrow> try_run_decision n = RunRun \<Longrightarrow> run_ready n"
  using pending_nonneg [of n] by (auto simp: try_run_decision_def run_ready_def split: if_splits)

lemma activation_ready:
  assumes wf: "node_wf n" and "runs_on_activation n"
  shows "run_ready n"
proof -
  have "n_deps n = []" "n_has_fn n" using assms by (simp_all add: runs_on_activation_def)
  then have "ds_dirty (n_dep n) = []" "ds_has_data (n_dep n) = []"
    using node_wf_lengths [OF wf] by simp_all
  then show ?thesis
    using \<open>n_has_fn n\<close> pending_zero [OF wf] by (simp add: run_ready_def all_deps_settled_def all_settled_def)
qed

text \<open>The reception of a message decides on a run only together with the demand that may follow.\<close>

lemma settled_decision:
  assumes wf: "node_wf n" "i < length (n_deps n)" and r: "receive_settled in_flight i n = (n', a)" and d: "ra_decision a \<noteq> RunSkip"
  shows "a = no_action\<lparr>ra_decision := ra_decision a, ra_fire_demand := True\<rparr> \<and> (ra_decision a = RunRun \<longrightarrow> run_ready n')"
proof -
  let ?n = "upd_dep (\<lambda>d. clear_dirty i (d\<lparr>ds_tier := (ds_tier d)[i := 3]\<rparr>)) n"
  have wf': "node_wf ?n" using wf by simp
  have drained: "ds_pending (n_dep ?n) = 0" and nf: "\<not> in_flight" and dec: "decide_maybe_run ?n = (n', ra_decision a)"
    and a: "a = no_action\<lparr>ra_decision := ra_decision a, ra_fire_demand := True\<rparr>"
    using r d by (auto simp: receive_settled_def set_maybe_run_def no_action_def Let_def split_beta split: if_splits)
  with decide_ready [OF wf'] show ?thesis by metis
qed

lemma terminal_decision:
  assumes wf: "node_wf n" "i < length (n_deps n)" and r: "receive_terminal in_flight i t n = (n', a)" and d: "ra_decision a \<noteq> RunSkip"
  shows "a = no_action\<lparr>ra_decision := ra_decision a, ra_fire_demand := True\<rparr> \<and> (ra_decision a = RunRun \<longrightarrow> run_ready n')"
proof -
  let ?n = "upd_dep (\<lambda>d. clear_dirty i (d\<lparr>ds_terminal := (ds_terminal d)[i := Some t],
                             ds_terminal_wave := (ds_terminal_wave d)[i := Some t]\<rparr>)) n"
  have wf': "node_wf ?n" using wf by simp
  have "decide_maybe_run ?n = (n', ra_decision a)"
    and a: "a = no_action\<lparr>ra_decision := ra_decision a, ra_fire_demand := True\<rparr>"
    using r d by (auto simp: receive_terminal_def set_maybe_run_def no_action_def Let_def split_beta
        split: if_splits dep_terminal.splits)
  with decide_ready [OF wf'] show ?thesis by metis
qed

lemma receive_decision:
  assumes wf: "node_wf n" "i < length (n_deps n)" and r: "collect_receive in_flight delivery i m n = (n', Some a)"
    and d: "ra_decision a \<noteq> RunSkip"
  shows "a = no_action\<lparr>ra_decision := ra_decision a, ra_fire_demand := True\<rparr> \<and> (ra_decision a = RunRun \<longrightarrow> run_ready n')"
proof -
  have rm: "receive_message in_flight delivery i m n = (n', a)"
    using r d by (auto simp: collect_receive_def no_action_def split: if_splits prod.splits)
  have skip: "ra_decision no_action = RunSkip" by (simp add: no_action_def)
  show ?thesis
  proof (cases m)
    case (Data v)
    let ?n = "upd_dep (\<lambda>d. let d = record_wave_data delivery i v (push_batch i v d)
                           in d\<lparr>ds_has_data := (ds_has_data d)[i := True]\<rparr>) n"
    have "receive_settled in_flight i ?n = (n', a)"
      using rm d Data by (auto simp: receive_message_def receive_data_def skip split: if_splits)
    moreover have "node_wf ?n" using wf by (simp add: Let_def record_wave_data_def)
    ultimately show ?thesis using settled_decision [of ?n i in_flight n' a] wf d by simp
  next
    case Resolved
    then show ?thesis
      using settled_decision [of "upd_dep (record_resolved_wave delivery i) n" i in_flight n' a] rm wf d
      by (simp add: receive_message_def)
  next
    case Complete
    with rm terminal_decision [OF wf _ d] show ?thesis by (simp add: receive_message_def)
  next
    case (Error e)
    with rm terminal_decision [OF wf _ d] show ?thesis by (simp add: receive_message_def)
  qed (use rm d in \<open>auto simp: receive_message_def receive_invalidate_def receive_dirty_def no_action_def Let_def split_beta
      split: if_splits\<close>)
qed

section \<open>The invariant\<close>

definition runs_inv :: "shapes \<Rightarrow> 'v task list \<Rightarrow> payload option \<Rightarrow> 'v world \<Rightarrow> bool" where
  "runs_inv sh ts p w \<longleftrightarrow> wf_inv sh ts p w \<and> control_inv ts p w \<and> RunCall \<notin> set (tl (roles ts)) \<and>
     (\<forall>n. p = None \<longrightarrow> ts \<noteq> [] \<longrightarrow> hd ts = TRunWave n \<longrightarrow> run_ready (node_of w n))"

text \<open>No run is pushed, or exactly one, on top and ready.\<close>

definition runs_pushed :: "'v world \<Rightarrow> 'v task list \<Rightarrow> bool" where
  "runs_pushed w new \<longleftrightarrow> RunCall \<notin> set (roles new) \<or>
     (\<exists>n rest. new = TRunWave n # rest \<and> RunCall \<notin> set (roles rest) \<and> run_ready (node_of w n))"

lemma runs_pushed_keeps:
  assumes "RunCall \<notin> set (roles ts)" "runs_pushed w new"
  shows "RunCall \<notin> set (tl (roles (new @ ts)))"
    "new @ ts \<noteq> [] \<Longrightarrow> hd (new @ ts) = TRunWave n \<Longrightarrow> run_ready (node_of w n)"
  using assms by (cases new; cases ts; auto simp: runs_pushed_def)+

lemma decision_pushed: "(d = RunRun \<Longrightarrow> run_ready (node_of w n)) \<Longrightarrow> runs_pushed w (decision_tasks n d)"
  by (cases d) (auto simp: runs_pushed_def decision_tasks_def)

lemma receive_pushed:
  assumes inv: "world_ok sh w" "i < length (fst (sh n))" and ex: "receive_from_dep n i m w = (w', new, p)"
  shows "runs_pushed w' new"
proof -
  let ?r = "collect_receive (w_depth w > 0) (w_delivery w) i m (node_of w n)"
  have w': "node_of w' n = fst ?r"
    and new: "new = (case snd ?r of None \<Rightarrow> [] | Some a \<Rightarrow> apply_tasks n a)"
    using ex by (auto simp: receive_from_dep_def Let_def split_beta)
  show ?thesis
  proof (cases "snd ?r")
    case (Some a)
    then have r: "?r = (fst ?r, Some a)" by (simp add: prod_eq_iff)
    show ?thesis
    proof (cases "ra_decision a = RunSkip")
      case True
      then have "RunCall \<notin> set (roles (apply_tasks n a))"
        unfolding apply_tasks_def by (cases "ra_down_msgs a") simp_all
      then show ?thesis by (simp add: new Some runs_pushed_def)
    next
      case False
      from receive_decision [OF world_okD(1) [OF inv(1)] _ r False] inv
      have a: "a = no_action\<lparr>ra_decision := ra_decision a, ra_fire_demand := True\<rparr>"
        and ready: "ra_decision a = RunRun \<longrightarrow> run_ready (fst ?r)"
        by (simp_all add: world_ok_deps)
      have "apply_tasks n a = decision_tasks n (ra_decision a) @ [TFireDemand n]"
        by (subst a) (simp add: apply_tasks_def no_action_def decision_tasks_def)
      then show ?thesis
        using ready by (cases "ra_decision a") (auto simp: new Some runs_pushed_def decision_tasks_def w')
    qed
  qed (simp add: new runs_pushed_def)
qed

lemma owned_roles: "role_of (TOwned n body) = Outside \<Longrightarrow> set (roles body) \<subseteq> {Call}"
proof -
  assume "role_of (TOwned n body) = Outside"
  then have "list_all is_owned_call body" by (simp split: if_splits)
  moreover have "is_owned_call t \<Longrightarrow> role_of t = Call" for t :: "'a task" by (cases t) simp_all
  ultimately show ?thesis by (auto simp: roles_def list_all_iff)
qed

lemma exec_pushed:
  assumes wf: "world_ok sh w" "task_ok sh t" and owned: "role_of t \<noteq> Misplaced" and ex: "exec u t w = (w', new, p)"
  shows "runs_pushed w' new"
proof (cases rule: task_cases [of u t w])
  case quiet
  then show ?thesis using ex by (auto simp: quiet_task_def quiet_roles_def runs_pushed_def)
next
  case (receive n i m)
  with receive_pushed [OF wf(1)] wf(2) ex show ?thesis by auto
next
  case (maybe n)
  then show ?thesis
    using ex decide_ready [OF world_okD(1) [OF wf(1)]]
    by (auto simp: maybe_run_def split_beta runs_pushed_def [of _ "[]"] prod_eq_iff intro!: decision_pushed split: if_splits)
next
  case (tried n)
  then show ?thesis
    using ex try_ready [OF world_okD(1) [OF wf(1)]] by (auto simp: try_run_def intro!: decision_pushed)
next
  case (activate n)
  then show ?thesis
    using ex activation_ready [OF world_okD(1) [OF wf(1)], of n] by (auto simp: runs_pushed_def split: if_splits)
next
  case (owned n body)
  then have "set (roles body) \<subseteq> {Call}" using assms(3) by (intro owned_roles) (simp split: if_splits)
  then show ?thesis using ex owned by (auto simp: with_wave_owner_def runs_pushed_def split: if_splits)
next
  case (up_msg n m toward)
  have "set (roles (forward_up n m toward w)) \<subseteq> {RouteCall}" by (rule forward_up_roles)
  then show ?thesis
    using ex up_msg by (cases m) (auto simp: up_msg_def runs_pushed_def split: if_splits)
next
  case batch_end
  then show ?thesis
    using ex finish_batch_roles(1) [of True w] by (auto simp: runs_pushed_def split: prod.splits)
qed (use ex in \<open>auto simp: runs_pushed_def settle_after_absorbed_terminal_def enter_delivery_def finish_delivery_def
    drain_deferred_runs_def run_wave_def up_route_def begin_batch_def Let_def roles_def split: if_splits\<close>)

lemma unwind_pushed:
  assumes "unwind q t w = (w', new, p)"
  shows "RunCall \<notin> set (roles new)"
  using assms finish_batch_roles(1) [of False w]
  by (cases t) (auto simp: recover_wave_def Let_def split: if_splits prod.splits)

interpretation runs: session_invariant "runs_inv sh" for sh
proof
  fix t ts and w w' :: "'v world" and u new p
  assume inv: "runs_inv sh (t # ts) None w" and ex: "exec u t w = (w', new, p)"
  then have "wf_inv sh (new @ ts) p w'" "control_inv (new @ ts) p w'"
    by (auto simp: runs_inv_def intro: wf.exec exec_control)
  moreover have "RunCall \<notin> set (roles ts)" using inv by (simp add: runs_inv_def)
  moreover have "role_of t \<noteq> Misplaced" using inv by (auto simp: runs_inv_def control_inv_def)
  then have "runs_pushed w' new"
    using exec_pushed [OF _ _ _ ex] inv by (auto simp: runs_inv_def wf_inv_def)
  ultimately show "runs_inv sh (new @ ts) p w'"
    using runs_pushed_keeps [of ts w' new] by (simp add: runs_inv_def)
next
  fix t ts q and w w' :: "'v world" and new p
  assume inv: "runs_inv sh (t # ts) (Some q) w" and ex: "unwind q t w = (w', new, p)"
  then have "wf_inv sh (new @ ts) p w'" "control_inv (new @ ts) p w'"
    by (auto simp: runs_inv_def intro: wf.unwind unwind_control)
  moreover have "RunCall \<notin> set (roles ts)" using inv by (simp add: runs_inv_def)
  moreover have "runs_pushed w' new" using unwind_pushed [OF ex] by (simp add: runs_pushed_def)
  ultimately show "runs_inv sh (new @ ts) p w'"
    using runs_pushed_keeps [of ts w' new] by (simp add: runs_inv_def)
next
  fix p q a ts and w w' :: "'v world"
  assume inv: "runs_inv sh [] p w" and ex: "api_tasks a w = (w', ts, q)"
  then have "wf_inv sh ts q w'" "control_inv ts q w'"
    by (auto simp: runs_inv_def intro: wf.call call_control)
  moreover have "runs_pushed w' ts"
    using api_quiet(2) [where w = w and a = a] ex by (auto simp: runs_pushed_def)
  ultimately show "runs_inv sh ts q w'"
    using runs_pushed_keeps [of "[]" w' ts] by (simp add: runs_inv_def)
qed

lemma fresh_runs: "fresh_graph nodes \<Longrightarrow> runs_inv (\<lambda>n. node_shape (nodes n)) [] None (world_new nodes)"
  by (simp add: runs_inv_def wf_inv_def world_ok_fresh fresh_control)

lemmas reachable_runs = runs.reachable_keeps [OF fresh_runs]

section \<open>Whole sessions\<close>

lemma run_frames_count: "count_list (roles ts) (RunFrame n) = count_list ts (TRunGuard n)"
proof -
  have "role_of t = RunFrame n \<longleftrightarrow> t = TRunGuard n" for t :: "'a task" by (cases t) auto
  then show ?thesis by (induction ts) auto
qed

lemma recover_frames: "RecoverFrame \<in> set (roles ts) \<longleftrightarrow> TRecoverEnd \<in> set ts"
proof -
  have "RecoverFrame = role_of t \<longleftrightarrow> TRecoverEnd = t" for t :: "'a task" by (cases t) auto
  then show ?thesis by (simp add: roles_def image_iff)
qed

lemma steps_run_machine: "steps u m (run_machine k u m)"
proof -
  have "steps u m m' \<Longrightarrow> steps u m (run_machine k u m')" for m'
    by (induction k arbitrary: m') (auto split: option.split intro: steps_step)
  then show ?thesis using steps_refl by blast
qed

text \<open>A graph with one source and a node derived from it, for the witnesses.\<close>

definition demo_config :: node_config where
  "demo_config = \<lparr>cfg_partial = False, cfg_pausable = PausableTrue, cfg_pull_id = None,
     cfg_complete_when_deps_complete = True, cfg_error_when_deps_error = True, cfg_terminal_as_real_input = False\<rparr>"

definition demo_graph :: "nat \<Rightarrow> nat node" where
  "demo_graph n = (if n = 1 then node_new [0] True False demo_config None else node_new [] False False demo_config (Some 3))"

definition demo_user :: "nat user" where
  "demo_user =
     \<lparr>us_fn = \<lambda>w n c j. if j = 0 then Some (FnDown [Data (sum_list (List.map_filter dr_latest (cx_deps c)) + 1)]) else None,
      us_sink = \<lambda>w k m j. None, us_hook = \<lambda>w h j. None, us_batch = \<lambda>w b j. None\<rparr>"

lemma demo_fresh: "fresh_graph demo_graph"
  by (simp add: fresh_graph_def demo_graph_def node_new_def value_state_new_def)

definition demo_run :: "nat \<Rightarrow> nat machine" where
  "demo_run k = run_machine k demo_user (call_api (ApiSubscribe 1 7) (world_new demo_graph))"

lemma demo_reachable: "reachable demo_user demo_graph (demo_run k)"
  unfolding demo_run_def by (rule reachable_call [OF session_new steps_run_machine])

lemma demo_run_ends: "m_stack (demo_run 33) = []"
  by code_simp

lemma demo_session: "session demo_user demo_graph (m_world (demo_run 33))"
  using session_call [OF session_new] demo_run_ends steps_run_machine
  unfolding demo_run_def by blast

text \<open>
  C2. Whatever the node functions, sinks, hooks and batch bodies do, and whether they panic or not:
  when a call of the public interface has returned, nothing of its waves is left behind. No
  delivery is open, no run is deferred, no wave or batch is active, no upstream route is recorded
  and no node believes that its function is running.
\<close>

theorem engine_returns_to_rest:
  assumes "fresh_graph nodes" "session u nodes w"
  shows "w_depth w = 0 \<and> w_deferred w = [] \<and> w_scope w = None \<and> w_active w = None \<and> w_route w = [] \<and>
    (\<forall>n. \<not> ws_inside_run (n_wave (w_node w n)))"
  using control.session_keeps [OF fresh_control [OF assms(1)] assms(2)] by (auto simp: control_inv_rest)

theorem engine_returns_to_rest_witness:
  "w_deferred (m_world (demo_run 33)) = [] \<and> w_trace (m_world (demo_run 33)) = [(7, Start), (7, Data 4)]"
proof
  show "w_deferred (m_world (demo_run 33)) = []"
    using engine_returns_to_rest [OF demo_fresh demo_session] by simp
  show "w_trace (m_world (demo_run 33)) = [(7, Start), (7, Data 4)]"
    by code_simp
qed

text \<open>
  C1. Glitch freedom at every run: when the engine starts the function of a node, none of its
  dependencies is dirty, the node has a function, and either the function has run before, or the node
  accepts partial input, or every dependency has settled. This holds at every point of every session,
  with re-entrant user code.
\<close>

theorem run_sees_settled_dependencies:
  assumes "fresh_graph nodes" "reachable u nodes m" "m_panic m = None" "m_stack m = TRunWave n # ts"
  shows "True \<notin> set (ds_dirty (n_dep (w_node (m_world m) n))) \<and> n_has_fn (w_node (m_world m) n) \<and>
    (n_has_called_fn_once (w_node (m_world m) n) \<or> cfg_partial (n_config (w_node (m_world m) n)) \<or>
      all_deps_settled (w_node (m_world m) n))"
proof -
  have inv: "runs_inv (\<lambda>n. node_shape (nodes n)) (m_stack m) (m_panic m) (m_world m)"
    by (rule reachable_runs [OF assms(1,2)])
  then have "run_ready (w_node (m_world m) n)" "node_wf (w_node (m_world m) n)"
    using assms(3,4) by (auto simp: runs_inv_def wf_inv_def world_okD)
  then show ?thesis by (simp add: run_ready_def pending_zero)
qed

lemma demo_run_top: "m_panic (demo_run 11) = None" "m_stack (demo_run 11) = TRunWave 1 # tl (m_stack (demo_run 11))"
  by code_simp+

theorem run_sees_settled_dependencies_witness:
  "ds_dirty (n_dep (w_node (m_world (demo_run 11)) 1)) = [False] \<and>
   all_deps_settled (w_node (m_world (demo_run 11)) 1)"
proof
  note run = run_sees_settled_dependencies [OF demo_fresh demo_reachable demo_run_top]
  have "length (ds_dirty (n_dep (w_node (m_world (demo_run 11)) 1))) = 1" by code_simp
  then show "ds_dirty (n_dep (w_node (m_world (demo_run 11)) 1)) = [False]"
    using run by (auto simp: length_Suc_conv)
  have "\<not> n_has_called_fn_once (w_node (m_world (demo_run 11)) 1)"
    "\<not> cfg_partial (n_config (w_node (m_world (demo_run 11)) 1))" by code_simp+
  then show "all_deps_settled (w_node (m_world (demo_run 11)) 1)" using run by simp
qed

text \<open>
  C3. A function is never entered again while it runs: outside the recovery of an aborted wave, the
  stack holds the run of a node at most once, and exactly when the flag of the node says so.
\<close>

theorem function_never_reentered:
  assumes "fresh_graph nodes" "reachable u nodes m" "TRecoverEnd \<notin> set (m_stack m)"
  shows "count_list (m_stack m) (TRunGuard n) = (if ws_inside_run (n_wave (w_node (m_world m) n)) then 1 else 0)"
proof -
  have "control_inv (m_stack m) (m_panic m) (m_world m)"
    by (rule control.reachable_keeps [OF fresh_control [OF assms(1)] assms(2)])
  then show ?thesis
    using assms(3) by (simp add: control_inv_def runs_ok_def recover_frames run_frames_count)
qed

theorem function_never_reentered_witness:
  "count_list (m_stack (demo_run 16)) (TRunGuard 1) = 1 \<and> ws_inside_run (n_wave (w_node (m_world (demo_run 16)) 1))"
proof
  show inside: "ws_inside_run (n_wave (w_node (m_world (demo_run 16)) 1))" by code_simp
  have "TRecoverEnd \<notin> set (m_stack (demo_run 16))" by code_simp
  from function_never_reentered [OF demo_fresh demo_reachable this, of 1] inside
  show "count_list (m_stack (demo_run 16)) (TRunGuard 1) = 1" by simp
qed

text \<open>
  C4. The state of every node stays well formed: at every point of every session its vectors have one
  entry per dependency, its pending count is the number of dirty dependencies, it caches a value
  exactly when it says it has one, a fresh status implies a value, and its dependencies, function and
  configuration are those it was created with.
\<close>

theorem node_state_wf:
  assumes "fresh_graph nodes" "reachable u nodes m"
  shows "node_wf (w_node (m_world m) n) \<and> node_shape (w_node (m_world m) n) = node_shape (nodes n)"
proof -
  have "wf_inv (\<lambda>n. node_shape (nodes n)) (m_stack m) (m_panic m) (m_world m)"
    using reachable_runs [OF assms] by (simp add: runs_inv_def)
  then have ok: "world_ok (\<lambda>n. node_shape (nodes n)) (m_world m)" by (simp add: wf_inv_def)
  show ?thesis using world_okD(1,2) [OF ok, of n] by simp
qed

theorem node_state_wf_witness:
  "node_wf (w_node (m_world (demo_run 16)) 1) \<and> node_shape (w_node (m_world (demo_run 16)) 1) = ([0], True, False, demo_config)"
  using node_state_wf [OF demo_fresh demo_reachable, of 16 1]
  by (simp add: demo_graph_def node_new_def node_shape_def)

end
