(* ===== verification/EngineTerminal.thy ===== *)
theory EngineTerminal
  imports EngineRuns
begin

text \<open>
  The end of a node: a node that has completed or failed stays ended for every user code and emits
  no wave of its own any more. The one exception is a wave that is already being delivered when the
  node ends.
\<close>

section \<open>Ended nodes stay ended\<close>

definition keeps_ended :: "'v world \<Rightarrow> 'v world \<Rightarrow> bool" where
  "keeps_ended w w' \<longleftrightarrow> (\<forall>n. ended (node_of w n) \<longrightarrow> ended (node_of w' n))"

lemma keeps_ended_refl [simp]: "keeps_ended w w"
  by (simp add: keeps_ended_def)

lemma keeps_ended_trans: "keeps_ended w w' \<Longrightarrow> keeps_ended w' w'' \<Longrightarrow> keeps_ended w w''"
  by (simp add: keeps_ended_def)

lemma keeps_ended_other [simp]:
  "keeps_ended w (w'\<lparr>w_depth := d\<rparr>) = keeps_ended w w'" "keeps_ended w (w'\<lparr>w_next_delivery := i\<rparr>) = keeps_ended w w'"
  "keeps_ended w (w'\<lparr>w_delivery := i\<rparr>) = keeps_ended w w'" "keeps_ended w (w'\<lparr>w_scope := sc\<rparr>) = keeps_ended w w'"
  "keeps_ended w (w'\<lparr>w_active := b\<rparr>) = keeps_ended w w'" "keeps_ended w (w'\<lparr>w_route := r\<rparr>) = keeps_ended w w'"
  "keeps_ended w (w'\<lparr>w_trace := tr\<rparr>) = keeps_ended w w'" "keeps_ended w (w'\<lparr>w_deferred := ds\<rparr>) = keeps_ended w w'"
  "keeps_ended w (wave_register n w') = keeps_ended w w'" "keeps_ended (wave_register n w) w' = keeps_ended w w'"
  "keeps_ended w (defer_action k n w') = keeps_ended w w'" "keeps_ended w (leave_delivery i w') = keeps_ended w w'"
  "keeps_ended w (defer_wave n ms w') = keeps_ended w w'"
  by (simp_all add: keeps_ended_def wave_register_def defer_action_def leave_delivery_def defer_wave_def)

lemma keeps_ended_set:
  "(ended (node_of w n) \<Longrightarrow> ended nd) \<Longrightarrow> keeps_ended w (w\<lparr>w_node := (w_node w)(n := nd)\<rparr>)"
  by (simp add: keeps_ended_def)

lemma keeps_ended_upd:
  "(ended (node_of w n) \<Longrightarrow> ended (f (node_of w n))) \<Longrightarrow> keeps_ended w (upd_node n f w)"
  by (simp add: keeps_ended_def upd_node_def)

lemma ended_transitions [simp]:
  "ended (fst (dirty_once nd)) = ended nd" "ended (buffer_wave ms nd) = ended nd" "ended (end_down nd) = ended nd"
  "ended (end_run b nd) = ended nd" "ended (fst (passthrough nd)) = ended nd" "ended (begin_activate nd) = ended nd"
  "ended (dep_subscribed i dep sub nd) = ended nd" "ended (deactivate_node nd) = ended nd"
  "ended (pause_acquire lock nd) = ended nd" "ended (fst (pause_release lock nd)) = ended nd"
  "ended (begin_run nd) = ended nd" "ended (reset_wave_flags nd) = ended nd" "ended (end_inside nd) = ended nd"
  "ended (end_pull nd) = ended nd" "ended (fst (add_subscriber s nd)) = ended nd"
  "ended (fst (remove_subscriber sub nd)) = ended nd"
  by (simp_all add: dirty_once_def buffer_wave_def end_down_def end_run_def passthrough_def begin_activate_def
      dep_subscribed_def deactivate_node_def clear_cache_def pause_acquire_def pause_release_def begin_run_def
      reset_wave_flags_def end_inside_def end_pull_def add_subscriber_def remove_subscriber_def Let_def)

lemma ended_invalidate: "invalidate_node nd = Some (nd', hooks) \<Longrightarrow> ended nd' = ended nd"
  by (auto simp: invalidate_node_def clear_cache_def split: if_splits)

lemma api_keeps_ended: "keeps_ended w (fst (api_tasks a w))"
  by (cases a) (simp_all add: api_tasks_def)

lemma user_step_keeps_ended: "keeps_ended w (fst (user_step x rest w))"
  using api_keeps_ended [of w "the x"] by (cases x) (simp_all add: user_step_def split_beta)

lemma fn_step_keeps_ended: "keeps_ended w (fst (fn_step n x rest w))"
  by (cases x; cases "the x") (auto simp: fn_step_def user_step_keeps_ended intro!: keeps_ended_upd)

lemma down_keeps_ended: "keeps_ended w (fst (down n msgs w))"
proof -
  have "keeps_ended w' (fst (down_deliver n b ms w'))" for w' :: "'a world" and b ms
    by (simp add: down_deliver_def)
  then have "keeps_ended w' (fst (down_buffer n b ms w'))" for w' :: "'a world" and b ms
    using keeps_ended_upd [of w' n "buffer_wave (filter (\<lambda>m. is_pause_buffered (msg_tier m)) ms)"]
    by (auto simp: down_buffer_def Let_def intro: keeps_ended_trans)
  from this [of "wave_register n w"] show ?thesis by (simp add: down_def Let_def)
qed

lemma exec_keeps_ended: "keeps_ended w (fst (exec u t w))"
proof (cases t)
  case (TInvalidate n)
  then show ?thesis
    using ended_invalidate [of "node_of w n"]
    by (auto simp: invalidate_def intro!: keeps_ended_set split: option.split)
next
  case (TFirePull n)
  then show ?thesis by (simp add: fire_pull_def Let_def keeps_ended_def upd_node_def)
next
  case (TOnResume n)
  then show ?thesis by (simp add: on_resume_def keeps_ended_def upd_node_def)
next
  case (TRunWave n)
  then show ?thesis by (simp add: run_wave_def Let_def keeps_ended_def upd_node_def)
next
  case (TReceive n i m)
  then show ?thesis by (simp add: receive_from_dep_def Let_def keeps_ended_def split_beta)
next
  case TBatchEnd
  then show ?thesis by (simp add: finish_batch_def split_beta split: option.split)
qed (auto simp: step_defs user_step_keeps_ended fn_step_keeps_ended down_keeps_ended up_msg_def
    subscribe_def ended_collect_down keeps_ended_upd Let_def split_beta
    intro!: keeps_ended_set split: list.split sink.split option.split message.split)

lemma unwind_keeps_ended: "keeps_ended w (fst (unwind p t w))"
proof (cases t)
  case (TWaveEnd n)
  then show ?thesis
    by (auto simp: recover_wave_def Let_def keeps_ended_def reset_touched_def)
next
  case TBatchEnd
  then show ?thesis by (simp add: finish_batch_def split_beta split: option.split)
qed (simp_all add: keeps_ended_upd)

definition ended_inv :: "nat \<Rightarrow> 'v task list \<Rightarrow> payload option \<Rightarrow> 'v world \<Rightarrow> bool" where
  "ended_inv n ts p w \<longleftrightarrow> ended (node_of w n)"

interpretation ended: session_invariant "ended_inv n" for n
proof
  show "ended_inv n (new @ ts) p w'" if "ended_inv n (t # ts) None w" "exec u t w = (w', new, p)" for t ts w u w' new p
    using that exec_keeps_ended [of w u t] by (simp add: ended_inv_def keeps_ended_def)
  show "ended_inv n (new @ ts) p w'" if "ended_inv n (t # ts) (Some q) w" "unwind q t w = (w', new, p)" for t ts q w w' new p
    using that unwind_keeps_ended [of w q t] by (simp add: ended_inv_def keeps_ended_def)
  show "ended_inv n ts q w'" if "ended_inv n [] p w" "api_tasks a w = (w', ts, q)" for p w a w' ts q
    using that api_keeps_ended [of w a] by (simp add: ended_inv_def keeps_ended_def)
qed

text \<open>
  C11. The end of a node is for ever: once a node has completed or failed, it stays so through every
  further step of the engine, and asking it to emit a wave then does nothing at all.
\<close>

theorem terminal_is_forever:
  assumes "steps u m m'" "vs_terminal (n_value (w_node (m_world m) n))"
  shows "vs_terminal (n_value (w_node (m_world m') n)) \<and> down n msgs (m_world m') = (m_world m', [], None)"
proof -
  have "ended (w_node (m_world m') n)"
    using ended.steps_keep [of u m m' n] assms by (simp add: ended_inv_def)
  then show ?thesis by (simp add: down_def)
qed

text \<open>A source that completes, then is asked for a value.\<close>

definition ending_run :: "nat \<Rightarrow> nat machine" where
  "ending_run k = run_machine k demo_user (call_api (ApiDown 0 [Complete]) (world_new demo_graph))"

lemma ending_run_steps: "steps demo_user (ending_run 5) (run_machine k demo_user (ending_run 5))"
  by (rule steps_run_machine)

theorem terminal_is_forever_witness:
  "down 0 [Data 9] (m_world (run_machine 20 demo_user (ending_run 5))) =
     (m_world (run_machine 20 demo_user (ending_run 5)), [], None)"
proof -
  have "vs_terminal (n_value (w_node (m_world (ending_run 5)) 0))" by code_simp
  from terminal_is_forever [OF ending_run_steps this] show ?thesis by blast
qed

section \<open>A wave that is being delivered when its node ends\<close>

text \<open>
  The guard for ended nodes stands at the head of \<open>down\<close>, not in the loop over the messages of a wave.
  A sink that completes the node on the first value of a wave still sees the second.
\<close>

definition completing_user :: "nat user" where
  "completing_user = demo_user\<lparr>us_sink := \<lambda>w k m j. if m = Data 1 \<and> j = 0 then Some (ApiDown 0 [Complete]) else None\<rparr>"

definition completing_run :: "nat machine" where
  "completing_run =
     run_machine 100 completing_user (call_api (ApiDown 0 [Data 1, Data 2])
       (m_world (run_machine 100 completing_user (call_api (ApiSubscribe 0 7) (world_new demo_graph)))))"

text \<open>
  A sink that completes a node while the node delivers a wave of two values gets the second value
  after \<open>COMPLETE\<close>, and the ended node is left with a settled status.
\<close>

theorem data_after_complete:
  "m_stack completing_run = [] \<and>
   w_trace (m_world completing_run) =
     [(7, Start), (7, Data 3), (7, Dirty), (7, Data 1), (7, Complete), (7, Data 2)] \<and>
   vs_terminal (n_value (w_node (m_world completing_run) 0)) \<and>
   vs_status (n_value (w_node (m_world completing_run) 0)) = Settled"
  by code_simp

section \<open>A diamond\<close>

text \<open>Node functions that compute one value from the latest values of their dependencies.\<close>

definition pure_user :: "(nat \<Rightarrow> 'v option list \<Rightarrow> 'v) \<Rightarrow> 'v user" where
  "pure_user F =
     \<lparr>us_fn = \<lambda>w n c j. if j = 0 then Some (FnDown [Data (F n (map dr_latest (cx_deps c)))]) else None,
      us_sink = \<lambda>w k m j. None, us_hook = \<lambda>w h j. None, us_batch = \<lambda>w b j. None\<rparr>"

definition diamond :: "'v \<Rightarrow> nat \<Rightarrow> 'v node" where
  "diamond a n =
     (if n = 1 \<or> n = 2 then node_new [0] True False demo_config None
      else if n = 3 then node_new [1, 2] True False demo_config None
      else node_new [] False False demo_config (Some a))"

definition diamond_run :: "(nat \<Rightarrow> 'v option list \<Rightarrow> 'v) \<Rightarrow> 'v \<Rightarrow> 'v \<Rightarrow> 'v machine" where
  "diamond_run F a v =
     run_machine 200 (pure_user F) (call_api (ApiDown 0 [Data v])
       (m_world (run_machine 200 (pure_user F) (call_api (ApiSubscribe 3 7) (world_new (diamond a))))))"

text \<open>
  C10. In a diamond, for all functions and values: a subscriber of the join sees one value when it
  subscribes, computed from both sides, and for one change of the source exactly one \<open>DIRTY\<close> and one
  value, computed from the new values of both sides. No mixture of old and new is ever seen, and the
  engine comes to rest.
\<close>

theorem diamond_glitch_free:
  fixes a v :: "'v::equal"
  shows "m_stack (diamond_run F a v) = [] \<and>
    w_trace (m_world (diamond_run F a v)) =
      [(7, Start), (7, Data (F 3 [Some (F 1 [Some a]), Some (F 2 [Some a])])),
       (7, Dirty), (7, Data (F 3 [Some (F 1 [Some v]), Some (F 2 [Some v])]))]"
  by code_simp

end
