(* ===== verification/UserCode.thy ===== *)
theory UserCode
  imports Json
begin

text \<open>
  What the runtime nodes of the bundles (\<open>cqrs.rs\<close>, \<open>process.rs\<close>) share: calls of the user's
  functions, which may panic and change the world they run in, the panics of the graph runtime
  that no bundle swallows, reading a persisted JSON state, and facts on counters and folds.
\<close>

subsection \<open>Panics\<close>

text \<open>A panic carries a string slice, an owned string, or something else.\<close>

datatype panic_payload = PanicStr string | PanicString string | PanicOther

fun panic_message :: "panic_payload \<Rightarrow> string" where
  "panic_message (PanicStr m) = m"
| "panic_message (PanicString m) = m"
| "panic_message PanicOther = ''panic''"

fun str_contains :: "string \<Rightarrow> string \<Rightarrow> bool" where
  "str_contains [] p \<longleftrightarrow> p = []"
| "str_contains (c # s) p \<longleftrightarrow> take (length p) (c # s) = p \<or> str_contains s p"

definition is_graph_runtime_panic :: "panic_payload \<Rightarrow> bool" where
  "is_graph_runtime_panic panic =
     (let message = panic_message panic in
      str_contains message ''R-reentrancy'' \<or> str_contains message ''R-rewire'' \<or>
      str_contains message ''R-graph-domain'' \<or> str_contains message ''D22'' \<or>
      str_contains message ''D37'' \<or> str_contains message ''feedback cycle'' \<or>
      str_contains message ''different graph'' \<or> str_contains message ''cross-graph'' \<or>
      str_contains message ''wire bridge'' \<or> str_contains message ''mid-fn topology mutation'' \<or>
      str_contains message ''reentrant dep mutation'')"

type_synonym ('w, 'a) user_call = "'w \<Rightarrow> (panic_payload + 'a) \<times> 'w"

subsection \<open>Reading a persisted state\<close>

fun json_get :: "json \<Rightarrow> string \<Rightarrow> json option" where
  "json_get (JObject m) key = map_of m key"
| "json_get _ key = None"

fun as_str :: "json \<Rightarrow> string option" where
  "as_str (JString s) = Some s"
| "as_str _ = None"

subsection \<open>Counters and folds\<close>

lemma upto_shift:
  "map (of_nat :: nat \<Rightarrow> u64) [1..<Suc (m + n)] =
     map of_nat [1..<Suc m] @ map (\<lambda>i. of_nat m + of_nat i) [1..<Suc n]"
proof -
  have "[1..<Suc (m + n)] = [1..<Suc m] @ map (\<lambda>i. m + i) [1..<Suc n]"
    by (rule nth_equalityI) (auto simp: nth_append simp del: upt_Suc)
  then show ?thesis by (simp del: upt_Suc)
qed

lemma upto_step:
  "map (\<lambda>i. a + of_nat i) [1..<Suc (Suc n)] = (a + 1 :: u64) # map (\<lambda>i. a + 1 + of_nat i) [1..<Suc n]"
proof -
  have up: "[1..<Suc (Suc n)] = 1 # map Suc [1..<Suc n]"
    by (simp add: map_Suc_upt upt_conv_Cons del: upt_Suc)
  show ?thesis unfolding up by (simp add: algebra_simps del: upt_Suc)
qed

lemma upto_words:
  "map of_nat [Suc 0..<5] = ([1, 2, 3, 4] :: u64 list)" "map of_nat [Suc 0..<Suc (Suc (Suc (Suc 0)))] = ([1, 2, 3] :: u64 list)"
  by code_simp+

fun running :: "('s \<Rightarrow> 'e \<Rightarrow> 's) \<Rightarrow> 's \<Rightarrow> 'e list \<Rightarrow> 's list" where
  "running f s [] = []"
| "running f s (e # es) = f s e # running f (f s e) es"

lemma running_append: "running f s (a @ b) = running f s a @ running f (foldl f s a) b"
  by (induction a arbitrary: s) simp_all

end
