(* ===== verification/Cqrs.thy ===== *)
theory Cqrs
  imports Messaging UserCode
begin

text \<open>
  Commands, events and projections of \<open>cqrs.rs\<close>: the runtime node that turns each command
  into facts, its duplicate windows, its persisted state, the nodes that read the facts, and the
  projections that fold the events. The handlers, the clock and the reducer are given by the user
  of the bundle: they are functions of a world \<open>'w\<close> that they may change, and a call returns a
  value or panics. The counters are 64-bit words that wrap around.
\<close>

subsection \<open>Data\<close>

record 'c cqrs_command =
  cc_id :: string
  cc_command_type :: string
  cc_payload :: 'c
  cc_aggregate_id :: "string option"
  cc_correlation_id :: "string option"
  cc_causation_id :: "string option"

definition cqrs_command_new :: "string \<Rightarrow> string \<Rightarrow> 'c \<Rightarrow> 'c cqrs_command" where
  "cqrs_command_new i t p = \<lparr>cc_id = i, cc_command_type = t, cc_payload = p,
     cc_aggregate_id = None, cc_correlation_id = None, cc_causation_id = None\<rparr>"

record 'e cqrs_event_draft =
  ed_id :: "string option"
  ed_event_type :: string
  ed_payload :: 'e
  ed_aggregate_id :: "string option"
  ed_correlation_id :: "string option"
  ed_causation_id :: "string option"

definition cqrs_event_draft_new :: "string \<Rightarrow> 'e \<Rightarrow> 'e cqrs_event_draft" where
  "cqrs_event_draft_new t p = \<lparr>ed_id = None, ed_event_type = t, ed_payload = p,
     ed_aggregate_id = None, ed_correlation_id = None, ed_causation_id = None\<rparr>"

record cqrs_dedupe_snapshot =
  ds_command_ids_retained :: nat
  ds_event_ids_retained :: nat
  ds_command_ids_evicted :: u64
  ds_event_ids_evicted :: u64

record cqrs_cursor =
  cu_event_seq :: u64
  cu_command_count :: u64
  cu_error_count :: u64
  cu_audit_seq :: u64
  cu_dedupe :: "cqrs_dedupe_snapshot option"

record 'e cqrs_event =
  ev_id :: string
  ev_event_type :: string
  ev_seq :: u64
  ev_cursor :: u64
  ev_runtime_cursor :: cqrs_cursor
  ev_command_id :: string
  ev_command_type :: string
  ev_payload :: 'e
  ev_timestamp_ms :: u64
  ev_aggregate_id :: "string option"
  ev_correlation_id :: "string option"
  ev_causation_id :: "string option"

datatype (plugins only: code size) cqrs_error_code =
    MalformedCommand | CqrsDuplicateCommand | UnknownCommand | HandlerThrew | ClockThrew
  | MalformedEvent | UnknownEvent | DuplicateEvent

record 'c cqrs_error =
  er_code :: cqrs_error_code
  er_message :: string
  er_command :: "'c cqrs_command option"
  er_cursor :: cqrs_cursor

datatype cqrs_status_state = Accepted | Rejected

record cqrs_status =
  cs_state :: cqrs_status_state
  cs_command_id :: "string option"
  cs_command_type :: "string option"
  cs_event_count :: nat
  cs_error_code :: "cqrs_error_code option"
  cs_cursor :: cqrs_cursor

datatype cqrs_audit_outcome = AuditSuccess | AuditFailure

record cqrs_audit_record =
  au_seq :: u64
  au_command_id :: "string option"
  au_command_type :: "string option"
  au_outcome :: cqrs_audit_outcome
  au_event_ids :: "string list"
  au_event_types :: "string list"
  au_error_code :: "cqrs_error_code option"
  au_error_message :: "string option"
  au_cursor :: cqrs_cursor

datatype ('c, 'e) cqrs_runtime_fact =
    FactEvent "'e cqrs_event"
  | FactStatus cqrs_status
  | FactError "'c cqrs_error"
  | FactAudit cqrs_audit_record
  | FactCursor cqrs_cursor

datatype cqrs_dedupe_window = Unbounded | Bounded nat

record cqrs_dedupe_policy =
  dp_commands :: cqrs_dedupe_window
  dp_events :: cqrs_dedupe_window

definition cqrs_dedupe_policy_default :: cqrs_dedupe_policy where
  "cqrs_dedupe_policy_default = \<lparr>dp_commands = Unbounded, dp_events = Unbounded\<rparr>"

definition cqrs_dedupe_policy_bounded :: "nat \<Rightarrow> nat \<Rightarrow> cqrs_dedupe_policy" where
  "cqrs_dedupe_policy_bounded c e = \<lparr>dp_commands = Bounded c, dp_events = Bounded e\<rparr>"

fun is_bounded :: "cqrs_dedupe_window \<Rightarrow> bool" where
  "is_bounded (Bounded _) = True"
| "is_bounded Unbounded = False"

definition bounded_any :: "cqrs_dedupe_policy \<Rightarrow> bool" where
  "bounded_any p \<longleftrightarrow> is_bounded (dp_commands p) \<or> is_bounded (dp_events p)"

definition cqrs_timestamp :: "('w, u64) user_call \<Rightarrow> 'w \<Rightarrow> (string + u64) \<times> 'w" where
  "cqrs_timestamp now w =
     (case now w of
        (Inr t, w) \<Rightarrow> (Inr t, w)
      | (Inl panic, w) \<Rightarrow> (Inl (''cqrs: now() threw: '' @ panic_message panic), w))"

subsection \<open>Configuration\<close>

type_synonym ('w, 'c, 'e) handler = "'c cqrs_command \<Rightarrow> ('w, 'e cqrs_event_draft list) user_call"

record ('w, 'c, 'e) cqrs_command_handler_definition =
  hd_command_type :: string
  hd_handle :: "('w, 'c, 'e) handler"

definition cqrs_command_handler ::
  "string \<Rightarrow> ('w, 'c, 'e) handler \<Rightarrow> string + ('w, 'c, 'e) cqrs_command_handler_definition" where
  "cqrs_command_handler command_type handle =
     (if command_type = [] then Inl ''cqrs_command_handler: command type must be non-empty''
      else Inr \<lparr>hd_command_type = command_type, hd_handle = handle\<rparr>)"

record ('w, 'c, 'e) cqrs_options =
  co_name :: string
  co_handlers :: "('w, 'c, 'e) cqrs_command_handler_definition list"
  co_events :: "string list option"
  co_now :: "('w, u64) user_call"
  co_dedupe :: cqrs_dedupe_policy

definition cqrs_options_default :: "('w, 'c, 'e) cqrs_options" where
  "cqrs_options_default = \<lparr>co_name = ''cqrs'', co_handlers = [], co_events = None,
     co_now = \<lambda>w. (Inr 0, w), co_dedupe = cqrs_dedupe_policy_default\<rparr>"

definition cqrs_options_named :: "string \<Rightarrow> ('w, 'c, 'e) cqrs_options" where
  "cqrs_options_named name = cqrs_options_default\<lparr>co_name := name\<rparr>"

definition normalize_handlers ::
  "('w, 'c, 'e) cqrs_command_handler_definition list \<Rightarrow> string + (string \<rightharpoonup> ('w, 'c, 'e) handler)" where
  "normalize_handlers = fold_results (\<lambda>handlers d.
     if hd_command_type d = [] then Inl ''cqrs: handler type must be non-empty''
     else if handlers (hd_command_type d) \<noteq> None
     then Inl (''cqrs: duplicate handler '' @ quoted (hd_command_type d))
     else Inr (handlers(hd_command_type d \<mapsto> hd_handle d))) (\<lambda>_. None)"

definition normalize_events :: "string list option \<Rightarrow> string + string set option" where
  "normalize_events events =
     (case events of
        None \<Rightarrow> Inr None
      | Some events \<Rightarrow>
          rbind (fold_results (\<lambda>known event.
            if event = [] then Inl ''cqrs.events: values must be non-empty''
            else if event \<in> known then Inl ''cqrs.events: duplicate value''
            else Inr (insert event known)) {} events) (\<lambda>known. Inr (Some known)))"

fun dedupe_max_entries :: "cqrs_dedupe_window \<Rightarrow> nat option" where
  "dedupe_max_entries Unbounded = None"
| "dedupe_max_entries (Bounded max_entries) = Some max_entries"

fun show_dedupe_window :: "cqrs_dedupe_window \<Rightarrow> string" where
  "show_dedupe_window Unbounded = ''Unbounded''"
| "show_dedupe_window (Bounded n) = ''Bounded { max_entries: '' @ dec_nat n @ '' }''"

definition dedupe_meta :: "cqrs_dedupe_policy \<Rightarrow> string" where
  "dedupe_meta dedupe =
     (if dp_commands dedupe = Unbounded \<and> dp_events dedupe = Unbounded then ''unbounded''
      else ''commands='' @ show_dedupe_window (dp_commands dedupe) @ '';events='' @
        show_dedupe_window (dp_events dedupe))"

subsection \<open>Runtime state\<close>

record cqrs_runtime_state =
  rs_event_seq :: u64
  rs_command_count :: u64
  rs_error_count :: u64
  rs_audit_seq :: u64
  rs_seen_command_ids :: "string list"
  rs_seen_event_ids :: "string list"
  rs_command_dedupe_evicted :: u64
  rs_event_dedupe_evicted :: u64

definition cqrs_runtime_state_default :: cqrs_runtime_state where
  "cqrs_runtime_state_default = \<lparr>rs_event_seq = 0, rs_command_count = 0, rs_error_count = 0,
     rs_audit_seq = 0, rs_seen_command_ids = [], rs_seen_event_ids = [],
     rs_command_dedupe_evicted = 0, rs_event_dedupe_evicted = 0\<rparr>"

definition json_u64 :: "json \<Rightarrow> string \<Rightarrow> u64" where
  "json_u64 value key =
     (case json_get value key of Some (JNumber n) \<Rightarrow> (case as_u64 n of Some u \<Rightarrow> u | None \<Rightarrow> 0) | _ \<Rightarrow> 0)"

definition json_string_array :: "json \<Rightarrow> string \<Rightarrow> string list" where
  "json_string_array value key =
     (case json_get value key of Some (JArray items) \<Rightarrow> List.map_filter as_str items | _ \<Rightarrow> [])"

definition runtime_state_from_json :: "json \<Rightarrow> cqrs_runtime_state" where
  "runtime_state_from_json value = \<lparr>
     rs_event_seq = json_u64 value ''eventSeq'',
     rs_command_count = json_u64 value ''commandCount'',
     rs_error_count = json_u64 value ''errorCount'',
     rs_audit_seq = json_u64 value ''auditSeq'',
     rs_seen_command_ids = json_string_array value ''seenCommandIds'',
     rs_seen_event_ids = json_string_array value ''seenEventIds'',
     rs_command_dedupe_evicted = json_u64 value ''commandDedupeEvicted'',
     rs_event_dedupe_evicted = json_u64 value ''eventDedupeEvicted''\<rparr>"

text \<open>The entries are in the order of the keys, as a map keeps them.\<close>

definition runtime_state_to_json :: "cqrs_runtime_state \<Rightarrow> json" where
  "runtime_state_to_json st = JObject [
     (''auditSeq'', JNumber (PosInt (rs_audit_seq st))),
     (''commandCount'', JNumber (PosInt (rs_command_count st))),
     (''commandDedupeEvicted'', JNumber (PosInt (rs_command_dedupe_evicted st))),
     (''errorCount'', JNumber (PosInt (rs_error_count st))),
     (''eventDedupeEvicted'', JNumber (PosInt (rs_event_dedupe_evicted st))),
     (''eventSeq'', JNumber (PosInt (rs_event_seq st))),
     (''seenCommandIds'', JArray (map JString (rs_seen_command_ids st))),
     (''seenEventIds'', JArray (map JString (rs_seen_event_ids st)))]"

definition cursor_of :: "cqrs_runtime_state \<Rightarrow> cqrs_dedupe_policy \<Rightarrow> cqrs_cursor" where
  "cursor_of st dedupe = \<lparr>cu_event_seq = rs_event_seq st, cu_command_count = rs_command_count st,
     cu_error_count = rs_error_count st, cu_audit_seq = rs_audit_seq st,
     cu_dedupe = (if bounded_any dedupe then Some \<lparr>
         ds_command_ids_retained = length (rs_seen_command_ids st),
         ds_event_ids_retained = length (rs_seen_event_ids st),
         ds_command_ids_evicted = rs_command_dedupe_evicted st,
         ds_event_ids_evicted = rs_event_dedupe_evicted st\<rparr>
       else None)\<rparr>"

definition trim_dedupe_window :: "string list \<Rightarrow> nat option \<Rightarrow> u64 \<Rightarrow> string list \<times> u64" where
  "trim_dedupe_window ids max_entries evicted_total =
     (case max_entries of
        None \<Rightarrow> (ids, evicted_total)
      | Some max_entries \<Rightarrow>
          if length ids \<le> max_entries then (ids, evicted_total)
          else (drop (length ids - max_entries) ids,
                evicted_total + of_nat (length ids - max_entries)))"

subsection \<open>Commands to facts\<close>

definition audit_record ::
  "cqrs_runtime_state \<Rightarrow> 'c cqrs_command option \<Rightarrow> cqrs_audit_outcome \<Rightarrow> 'e cqrs_event list \<Rightarrow>
   cqrs_error_code option \<Rightarrow> string option \<Rightarrow> cqrs_dedupe_policy \<Rightarrow>
   cqrs_runtime_state \<times> cqrs_audit_record" where
  "audit_record st command outcome events error_code error_message dedupe =
     (let st = st\<lparr>rs_audit_seq := rs_audit_seq st + 1\<rparr> in
      (st, \<lparr>au_seq = rs_audit_seq st, au_command_id = map_option cc_id command,
        au_command_type = map_option cc_command_type command, au_outcome = outcome,
        au_event_ids = map ev_id events, au_event_types = map ev_event_type events,
        au_error_code = error_code, au_error_message = error_message,
        au_cursor = cursor_of st dedupe\<rparr>))"

definition failure ::
  "cqrs_runtime_state \<Rightarrow> 'c cqrs_command option \<Rightarrow> cqrs_error_code \<Rightarrow> string \<Rightarrow> cqrs_dedupe_policy \<Rightarrow>
   cqrs_runtime_state \<times> ('c, 'e) cqrs_runtime_fact list" where
  "failure st command code message dedupe =
     (let st = st\<lparr>rs_error_count := rs_error_count st + 1\<rparr>;
          cursor = cursor_of st dedupe;
          (st', audit) = audit_record st command AuditFailure ([] :: 'e cqrs_event list) (Some code)
            (Some message) dedupe in
      (st',
       [FactError \<lparr>er_code = code, er_message = message, er_command = command, er_cursor = cursor\<rparr>,
        FactStatus \<lparr>cs_state = Rejected, cs_command_id = map_option cc_id command,
          cs_command_type = map_option cc_command_type command, cs_event_count = 0,
          cs_error_code = Some code, cs_cursor = cursor\<rparr>,
        FactAudit audit,
        FactCursor (cursor_of st' dedupe)]))"

record 'e prepared_event =
  pe_id :: string
  pe_event_type :: string
  pe_payload :: 'e
  pe_aggregate_id :: "string option"
  pe_correlation_id :: "string option"
  pe_causation_id :: "string option"

definition draft_id :: "tuple_key \<Rightarrow> 'c cqrs_command \<Rightarrow> nat \<Rightarrow> 'e cqrs_event_draft \<Rightarrow> string" where
  "draft_id tk command index draft =
     (case ed_id draft of
        Some i \<Rightarrow> if i \<noteq> [] then i
          else compound_tuple_key tk ''cqrs-event'' [cc_id command, dec_nat (index + 1)]
      | None \<Rightarrow> compound_tuple_key tk ''cqrs-event'' [cc_id command, dec_nat (index + 1)])"

fun prepare_loop ::
  "tuple_key \<Rightarrow> 'c cqrs_command \<Rightarrow> nat \<Rightarrow> 'e cqrs_event_draft list \<Rightarrow> string list \<Rightarrow> string set option \<Rightarrow>
   string set \<Rightarrow> (cqrs_error_code \<times> string) + 'e prepared_event list" where
  "prepare_loop tk command index [] seen known seen_in_command = Inr []"
| "prepare_loop tk command index (draft # drafts) seen known seen_in_command =
     (if ed_event_type draft = []
      then Inl (MalformedEvent, ''cqrs: event draft must have a non-empty type'')
      else if (case known of Some k \<Rightarrow> ed_event_type draft \<notin> k | None \<Rightarrow> False)
      then Inl (UnknownEvent, ''cqrs: unknown event '' @ quoted (ed_event_type draft))
      else
        (let i = draft_id tk command index draft in
         if i \<in> set seen \<or> i \<in> seen_in_command
         then Inl (DuplicateEvent, ''cqrs: duplicate event '' @ quoted i)
         else
           rbind (prepare_loop tk command (Suc index) drafts seen known (insert i seen_in_command))
             (\<lambda>rest. Inr (\<lparr>pe_id = i, pe_event_type = ed_event_type draft, pe_payload = ed_payload draft,
                pe_aggregate_id = ed_aggregate_id draft, pe_correlation_id = ed_correlation_id draft,
                pe_causation_id = ed_causation_id draft\<rparr> # rest))))"

definition prepare_events ::
  "tuple_key \<Rightarrow> 'c cqrs_command \<Rightarrow> 'e cqrs_event_draft list \<Rightarrow> cqrs_runtime_state \<Rightarrow> string set option \<Rightarrow>
   (cqrs_error_code \<times> string) + 'e prepared_event list" where
  "prepare_events tk command drafts st known =
     prepare_loop tk command 0 drafts (rs_seen_event_ids st) known {}"

text \<open>What a runtime node is configured with.\<close>

record ('w, 'c, 'e) cqrs_config =
  cf_tuple_key :: tuple_key
  cf_handlers :: "string \<rightharpoonup> ('w, 'c, 'e) handler"
  cf_known_events :: "string set option"
  cf_now :: "('w, u64) user_call"
  cf_dedupe :: cqrs_dedupe_policy

definition cqrs_configure ::
  "tuple_key \<Rightarrow> ('w, 'c, 'e) cqrs_options \<Rightarrow> string + ('w, 'c, 'e) cqrs_config" where
  "cqrs_configure tk opts =
     rbind (normalize_handlers (co_handlers opts)) (\<lambda>handlers.
       rbind (normalize_events (co_events opts)) (\<lambda>known.
         Inr \<lparr>cf_tuple_key = tk, cf_handlers = handlers, cf_known_events = known,
           cf_now = co_now opts, cf_dedupe = co_dedupe opts\<rparr>))"

definition push_command_id :: "cqrs_dedupe_policy \<Rightarrow> string \<Rightarrow> cqrs_runtime_state \<Rightarrow> cqrs_runtime_state" where
  "push_command_id dedupe i st =
     (let (ids, evicted) = trim_dedupe_window (rs_seen_command_ids st @ [i])
        (dedupe_max_entries (dp_commands dedupe)) (rs_command_dedupe_evicted st) in
      st\<lparr>rs_seen_command_ids := ids, rs_command_dedupe_evicted := evicted\<rparr>)"

definition push_event_id :: "cqrs_dedupe_policy \<Rightarrow> string \<Rightarrow> cqrs_runtime_state \<Rightarrow> cqrs_runtime_state" where
  "push_event_id dedupe i st =
     (let (ids, evicted) = trim_dedupe_window (rs_seen_event_ids st @ [i])
        (dedupe_max_entries (dp_events dedupe)) (rs_event_dedupe_evicted st) in
      st\<lparr>rs_seen_event_ids := ids, rs_event_dedupe_evicted := evicted\<rparr>)"

definition make_event ::
  "'c cqrs_command \<Rightarrow> u64 \<Rightarrow> cqrs_dedupe_policy \<Rightarrow> 'e prepared_event \<Rightarrow> cqrs_runtime_state \<Rightarrow> 'e cqrs_event" where
  "make_event command timestamp_ms dedupe draft st = \<lparr>ev_id = pe_id draft,
     ev_event_type = pe_event_type draft, ev_seq = rs_event_seq st, ev_cursor = rs_event_seq st,
     ev_runtime_cursor = cursor_of st dedupe, ev_command_id = cc_id command,
     ev_command_type = cc_command_type command, ev_payload = pe_payload draft,
     ev_timestamp_ms = timestamp_ms, ev_aggregate_id = pe_aggregate_id draft,
     ev_correlation_id = pe_correlation_id draft, ev_causation_id = pe_causation_id draft\<rparr>"

fun append_events ::
  "'c cqrs_command \<Rightarrow> u64 \<Rightarrow> cqrs_dedupe_policy \<Rightarrow> 'e prepared_event list \<Rightarrow> cqrs_runtime_state \<Rightarrow>
   cqrs_runtime_state \<times> 'e cqrs_event list" where
  "append_events command timestamp_ms dedupe [] st = (st, [])"
| "append_events command timestamp_ms dedupe (draft # drafts) st =
     (let st = push_event_id dedupe (pe_id draft) (st\<lparr>rs_event_seq := rs_event_seq st + 1\<rparr>);
          event = make_event command timestamp_ms dedupe draft st;
          (st, events) = append_events command timestamp_ms dedupe drafts st in
      (st, event # events))"

definition accept ::
  "cqrs_runtime_state \<Rightarrow> 'c cqrs_command \<Rightarrow> u64 \<Rightarrow> cqrs_dedupe_policy \<Rightarrow> 'e prepared_event list \<Rightarrow>
   cqrs_runtime_state \<times> ('c, 'e) cqrs_runtime_fact list" where
  "accept st command timestamp_ms dedupe prepared =
     (let (st, events) = append_events command timestamp_ms dedupe prepared st;
          status = \<lparr>cs_state = Accepted, cs_command_id = Some (cc_id command),
            cs_command_type = Some (cc_command_type command), cs_event_count = length events,
            cs_error_code = None, cs_cursor = cursor_of st dedupe\<rparr>;
          (st, audit) = audit_record st (Some command) AuditSuccess events None None dedupe in
      (st, map FactEvent events @ [FactStatus status, FactAudit audit, FactCursor (cursor_of st dedupe)]))"

text \<open>
  \<open>Inl\<close> is a panic of the graph runtime in a handler, which is not caught: the call unwinds.
\<close>

definition reduce_command_fact ::
  "('w, 'c, 'e) cqrs_config \<Rightarrow> cqrs_runtime_state \<Rightarrow> 'c cqrs_command \<Rightarrow> 'w \<Rightarrow>
   (panic_payload + cqrs_runtime_state \<times> ('c, 'e) cqrs_runtime_fact list) \<times> 'w" where
  "reduce_command_fact cf st0 command w =
     (let dedupe = cf_dedupe cf;
          st = st0\<lparr>rs_command_count := rs_command_count st0 + 1\<rparr> in
      if cc_id command = []
      then (Inr (failure st (Some command) MalformedCommand ''cqrs: command id must be non-empty'' dedupe), w)
      else if cc_command_type command = []
      then (Inr (failure st (Some command) MalformedCommand ''cqrs: command type must be non-empty'' dedupe), w)
      else if cc_id command \<in> set (rs_seen_command_ids st)
      then (Inr (failure st (Some command) CqrsDuplicateCommand
              (''cqrs: duplicate command '' @ quoted (cc_id command)) dedupe), w)
      else
        (let st = push_command_id dedupe (cc_id command) st in
         case cf_handlers cf (cc_command_type command) of
           None \<Rightarrow> (Inr (failure st (Some command) UnknownCommand
              (''cqrs: unknown command '' @ quoted (cc_command_type command)) dedupe), w)
         | Some handler \<Rightarrow>
             (case handler command w of
                (Inl panic, w) \<Rightarrow>
                  if is_graph_runtime_panic panic then (Inl panic, w)
                  else (Inr (failure st (Some command) HandlerThrew (panic_message panic) dedupe), w)
              | (Inr drafts, w) \<Rightarrow>
                  (case prepare_events (cf_tuple_key cf) command drafts st (cf_known_events cf) of
                     Inl (code, message) \<Rightarrow> (Inr (failure st (Some command) code message dedupe), w)
                   | Inr prepared \<Rightarrow>
                       (case cqrs_timestamp (cf_now cf) w of
                          (Inl message, w) \<Rightarrow>
                            (Inr (failure st (Some command) ClockThrew message dedupe), w)
                        | (Inr timestamp_ms, w) \<Rightarrow>
                            (Inr (accept st command timestamp_ms dedupe prepared), w))))))"

text \<open>
  The function of the runtime node: the facts it emits, and the state it stores or the panic that
  unwinds through it; then the stored state stays as it was, whatever has been emitted.
\<close>

fun runtime_loop ::
  "('w, 'c, 'e) cqrs_config \<Rightarrow> cqrs_runtime_state \<Rightarrow> 'c cqrs_command list \<Rightarrow> 'w \<Rightarrow>
   ('c, 'e) cqrs_runtime_fact list \<times> (panic_payload + cqrs_runtime_state) \<times> 'w" where
  "runtime_loop cf st [] w = ([], Inr st, w)"
| "runtime_loop cf st (command # commands) w =
     (case reduce_command_fact cf st command w of
        (Inl panic, w) \<Rightarrow> ([], Inl panic, w)
      | (Inr (st, facts), w) \<Rightarrow>
          (let (rest, r, w) = runtime_loop cf st commands w in (facts @ rest, r, w)))"

definition cqrs_runtime_body ::
  "('w, 'c, 'e) cqrs_config \<Rightarrow> json option \<Rightarrow> 'c cqrs_command list \<Rightarrow> 'w \<Rightarrow>
   ('c, 'e) cqrs_runtime_fact list \<times> (panic_payload + json) \<times> 'w" where
  "cqrs_runtime_body cf stored commands w =
     (let st = runtime_state_from_json
        (case stored of Some value \<Rightarrow> value | None \<Rightarrow> runtime_state_to_json cqrs_runtime_state_default);
          (facts, r, w) = runtime_loop cf st commands w in
      (facts, (case r of Inl panic \<Rightarrow> Inl panic | Inr st \<Rightarrow> Inr (runtime_state_to_json st)), w))"

subsection \<open>Readers of the facts\<close>

definition runtime_projection ::
  "(('c, 'e) cqrs_runtime_fact \<Rightarrow> 'o option) \<Rightarrow> ('c, 'e) cqrs_runtime_fact list \<Rightarrow> 'o list" where
  "runtime_projection select facts = List.map_filter select facts"

fun select_event :: "('c, 'e) cqrs_runtime_fact \<Rightarrow> 'e cqrs_event option" where
  "select_event (FactEvent e) = Some e"
| "select_event _ = None"

fun select_status :: "('c, 'e) cqrs_runtime_fact \<Rightarrow> cqrs_status option" where
  "select_status (FactStatus s) = Some s"
| "select_status _ = None"

fun select_error :: "('c, 'e) cqrs_runtime_fact \<Rightarrow> 'c cqrs_error option" where
  "select_error (FactError e) = Some e"
| "select_error _ = None"

fun select_audit :: "('c, 'e) cqrs_runtime_fact \<Rightarrow> cqrs_audit_record option" where
  "select_audit (FactAudit a) = Some a"
| "select_audit _ = None"

fun select_cursor :: "('c, 'e) cqrs_runtime_fact \<Rightarrow> cqrs_cursor option" where
  "select_cursor (FactCursor c) = Some c"
| "select_cursor _ = None"

definition events_of :: "('c, 'e) cqrs_runtime_fact list \<Rightarrow> 'e cqrs_event list" where
  "events_of = runtime_projection select_event"

definition statuses_of :: "('c, 'e) cqrs_runtime_fact list \<Rightarrow> cqrs_status list" where
  "statuses_of = runtime_projection select_status"

definition errors_of :: "('c, 'e) cqrs_runtime_fact list \<Rightarrow> 'c cqrs_error list" where
  "errors_of = runtime_projection select_error"

definition audits_of :: "('c, 'e) cqrs_runtime_fact list \<Rightarrow> cqrs_audit_record list" where
  "audits_of = runtime_projection select_audit"

definition cursors_of :: "('c, 'e) cqrs_runtime_fact list \<Rightarrow> cqrs_cursor list" where
  "cursors_of = runtime_projection select_cursor"

subsection \<open>Projections\<close>

datatype cqrs_projection_error_code = ProjectionThrew

record cqrs_projection_error =
  pr_code :: cqrs_projection_error_code
  pr_message :: string
  pr_event_id :: string
  pr_event_type :: string
  pr_cursor :: cqrs_cursor

datatype 's cqrs_projection_frame =
    FrameValue 's string cqrs_cursor
  | FrameError cqrs_projection_error

datatype cqrs_projection_status_state = Updated | Errored

record cqrs_projection_status =
  ps_state :: cqrs_projection_status_state
  ps_event_id :: string
  ps_event_type :: "string option"
  ps_cursor :: cqrs_cursor

type_synonym ('w, 's, 'e) projection_reducer = "'s \<Rightarrow> 'e cqrs_event \<Rightarrow> ('w, 's) user_call"

text \<open>
  The frames node: the frames it emits, the state it stores (every successful event stores it),
  and the panic that unwinds, if any.
\<close>

fun projection_loop ::
  "string set option \<Rightarrow> ('w, 's, 'e) projection_reducer \<Rightarrow> 's \<Rightarrow> 's option \<Rightarrow> 'e cqrs_event list \<Rightarrow> 'w \<Rightarrow>
   's cqrs_projection_frame list \<times> 's option \<times> panic_payload option \<times> 'w" where
  "projection_loop flt reducer value stored [] w = ([], stored, None, w)"
| "projection_loop flt reducer value stored (event # events) w =
     (if (case flt of Some f \<Rightarrow> ev_event_type event \<notin> f | None \<Rightarrow> False)
      then projection_loop flt reducer value stored events w
      else
        (case reducer value event w of
           (Inr v, w) \<Rightarrow>
             (let (frames, s, p, w) = projection_loop flt reducer v (Some v) events w in
              (FrameValue v (ev_id event) (ev_runtime_cursor event) # frames, s, p, w))
         | (Inl panic, w) \<Rightarrow>
             if is_graph_runtime_panic panic then ([], stored, Some panic, w)
             else ([FrameError \<lparr>pr_code = ProjectionThrew, pr_message = panic_message panic, pr_event_id = ev_id event,
                 pr_event_type = ev_event_type event, pr_cursor = ev_runtime_cursor event\<rparr>],
               stored, None, w)))"

definition cqrs_projection_body ::
  "string set option \<Rightarrow> ('w, 's, 'e) projection_reducer \<Rightarrow> 's \<Rightarrow> 's option \<Rightarrow> 'e cqrs_event list \<Rightarrow> 'w \<Rightarrow>
   's cqrs_projection_frame list \<times> 's option \<times> panic_payload option \<times> 'w" where
  "cqrs_projection_body flt reducer initial stored events w =
     projection_loop flt reducer (case stored of Some v \<Rightarrow> v | None \<Rightarrow> initial) stored events w"

definition projection_values :: "'s cqrs_projection_frame list \<Rightarrow> 's list" where
  "projection_values = List.map_filter (\<lambda>f. case f of FrameValue s _ _ \<Rightarrow> Some s | FrameError _ \<Rightarrow> None)"

definition projection_statuses :: "'s cqrs_projection_frame list \<Rightarrow> cqrs_projection_status list" where
  "projection_statuses = map (\<lambda>f. case f of
     FrameValue _ event_id cursor \<Rightarrow> \<lparr>ps_state = Updated, ps_event_id = event_id,
       ps_event_type = None, ps_cursor = cursor\<rparr>
   | FrameError e \<Rightarrow> \<lparr>ps_state = Errored, ps_event_id = pr_event_id e,
       ps_event_type = Some (pr_event_type e), ps_cursor = pr_cursor e\<rparr>)"

definition projection_errors :: "'s cqrs_projection_frame list \<Rightarrow> cqrs_projection_error list" where
  "projection_errors = List.map_filter (\<lambda>f. case f of FrameValue _ _ _ \<Rightarrow> None | FrameError e \<Rightarrow> Some e)"

end
