(* ===== verification/CqrsHistory.thy ===== *)
theory CqrsHistory
  imports Cqrs
begin

text \<open>
  What the facts of a CQRS runtime add up to over all its runs: the duplicate windows and their
  contract, what one command does, the dense event log, one verdict per command, commands handled
  at most once, and projections as folds.
\<close>

subsection \<open>Duplicate windows\<close>

text \<open>
  A window over a history of ids: its end, of at most the configured length, with the number of
  ids that have left it.
\<close>

definition window_of :: "nat option \<Rightarrow> string list \<Rightarrow> string list \<Rightarrow> u64 \<Rightarrow> bool" where
  "window_of cap history ids evicted \<longleftrightarrow>
     (\<exists>k \<le> length history. ids = drop k history \<and> evicted = of_nat k \<and>
        (case cap of None \<Rightarrow> k = 0 | Some n \<Rightarrow> length ids \<le> n \<and> (k = 0 \<or> length ids = n)))"

lemma window_of_Nil [simp]: "window_of cap [] [] 0"
  by (simp add: window_of_def split: option.splits)

lemma window_of_trim:
  assumes "window_of cap history ids evicted"
  shows "window_of cap (history @ [i]) (fst (trim_dedupe_window (ids @ [i]) cap evicted))
    (snd (trim_dedupe_window (ids @ [i]) cap evicted))"
proof -
  from assms obtain k where k: "k \<le> length history" "ids = drop k history" "evicted = of_nat k"
      "case cap of None \<Rightarrow> k = 0 | Some n \<Rightarrow> length ids \<le> n \<and> (k = 0 \<or> length ids = n)"
    by (auto simp: window_of_def)
  show ?thesis
  proof (cases "\<exists>n. cap = Some n \<and> n < length (ids @ [i])")
    case False
    with k show ?thesis
      unfolding window_of_def
      by (intro exI [of _ k]) (auto simp: trim_dedupe_window_def split: option.splits)
  next
    case True
    then obtain n where n: "cap = Some n" "n < length (ids @ [i])" by blast
    with k have len: "length ids = n" by simp
    have trim: "trim_dedupe_window (ids @ [i]) cap evicted = (drop (Suc 0) (ids @ [i]), evicted + 1)"
      using n(1) len by (simp add: trim_dedupe_window_def)
    have lenh: "length history = n + k" using len k(1,2) by simp
    have "drop (Suc 0) (ids @ [i]) = drop (Suc k) (history @ [i])"
      using k(1,2) by simp
    moreover have "evicted + 1 = of_nat (Suc k)" using k(3) by simp
    ultimately show ?thesis
      unfolding window_of_def trim fst_conv snd_conv
      using n(1) len lenh by (intro exI [of _ "Suc k"] conjI) auto
  qed
qed

lemma window_unbounded: "window_of None history ids evicted \<longleftrightarrow> ids = history \<and> evicted = 0"
  by (auto simp: window_of_def)

text \<open>
  A component of a state that remembers ids through the window: pushing an id records it.
\<close>

locale id_window =
  fixes ids :: "'s \<Rightarrow> string list"
    and evicted :: "'s \<Rightarrow> u64"
    and push :: "string \<Rightarrow> 's \<Rightarrow> 's"
    and cap :: "nat option"
  assumes push_trims: "(ids (push i s), evicted (push i s)) = trim_dedupe_window (ids s @ [i]) cap (evicted s)"
begin

lemma push_window:
  assumes "window_of cap history (ids s) (evicted s)"
  shows "window_of cap (history @ [i]) (ids (push i s)) (evicted (push i s))"
  using window_of_trim [OF assms, of i] push_trims [of i s] by (metis fst_conv snd_conv)

lemma push_unbounded: "cap = None \<Longrightarrow> ids (push i s) = ids s @ [i]"
  using push_trims [of i s] by (simp add: trim_dedupe_window_def)

lemma push_retains: "cap = Some n \<Longrightarrow> length (ids (push i s)) \<le> n"
  using push_trims [of i s] by (auto simp: trim_dedupe_window_def split: if_splits)

end

lemma push_command_id_window:
  "(rs_seen_command_ids (push_command_id d i st), rs_command_dedupe_evicted (push_command_id d i st)) =
     trim_dedupe_window (rs_seen_command_ids st @ [i]) (dedupe_max_entries (dp_commands d))
       (rs_command_dedupe_evicted st)"
  by (simp add: push_command_id_def Let_def split: prod.splits)

lemma push_event_id_window:
  "(rs_seen_event_ids (push_event_id d i st), rs_event_dedupe_evicted (push_event_id d i st)) =
     trim_dedupe_window (rs_seen_event_ids st @ [i]) (dedupe_max_entries (dp_events d))
       (rs_event_dedupe_evicted st)"
  by (simp add: push_event_id_def Let_def split: prod.splits)

interpretation cmd: id_window rs_seen_command_ids rs_command_dedupe_evicted "push_command_id d"
    "dedupe_max_entries (dp_commands d)" for d
  by unfold_locales (rule push_command_id_window)

interpretation evt: id_window rs_seen_event_ids rs_event_dedupe_evicted "push_event_id d"
    "dedupe_max_entries (dp_events d)" for d
  by unfold_locales (rule push_event_id_window)

named_theorems cqrs_frame \<open>the fields of the runtime state an operation leaves as they are\<close>

lemma push_command_frame [cqrs_frame]:
  "rs_event_seq (push_command_id d i st) = rs_event_seq st"
  "rs_command_count (push_command_id d i st) = rs_command_count st"
  "rs_error_count (push_command_id d i st) = rs_error_count st"
  "rs_audit_seq (push_command_id d i st) = rs_audit_seq st"
  "rs_seen_event_ids (push_command_id d i st) = rs_seen_event_ids st"
  "rs_event_dedupe_evicted (push_command_id d i st) = rs_event_dedupe_evicted st"
  by (simp_all add: push_command_id_def Let_def split: prod.splits)

lemma push_event_frame [cqrs_frame]:
  "rs_event_seq (push_event_id d i st) = rs_event_seq st"
  "rs_command_count (push_event_id d i st) = rs_command_count st"
  "rs_error_count (push_event_id d i st) = rs_error_count st"
  "rs_audit_seq (push_event_id d i st) = rs_audit_seq st"
  "rs_seen_command_ids (push_event_id d i st) = rs_seen_command_ids st"
  "rs_command_dedupe_evicted (push_event_id d i st) = rs_command_dedupe_evicted st"
  by (simp_all add: push_event_id_def Let_def split: prod.splits)

lemma append_events_frame [cqrs_frame]:
  "rs_command_count (fst (append_events c t d ps st)) = rs_command_count st"
  "rs_error_count (fst (append_events c t d ps st)) = rs_error_count st"
  "rs_audit_seq (fst (append_events c t d ps st)) = rs_audit_seq st"
  "rs_seen_command_ids (fst (append_events c t d ps st)) = rs_seen_command_ids st"
  "rs_command_dedupe_evicted (fst (append_events c t d ps st)) = rs_command_dedupe_evicted st"
  by (induction ps arbitrary: st) (simp_all add: Let_def cqrs_frame case_prod_unfold)

lemma runtime_state_roundtrip: "runtime_state_from_json (runtime_state_to_json st) = st"
proof -
  have "List.map_filter as_str (map JString ids) = ids" for ids
    by (induction ids) (simp_all add: List.map_filter_simps)
  then show ?thesis
    by (simp add: runtime_state_from_json_def runtime_state_to_json_def json_u64_def
        json_string_array_def)
qed

subsection \<open>What one command does\<close>

lemmas readers_defs = events_of_def statuses_of_def errors_of_def audits_of_def cursors_of_def
  runtime_projection_def

lemma readers_append [simp]:
  "events_of (a @ b) = events_of a @ events_of b"
  "statuses_of (a @ b) = statuses_of a @ statuses_of b"
  "errors_of (a @ b) = errors_of a @ errors_of b"
  "audits_of (a @ b) = audits_of a @ audits_of b"
  by (simp_all add: readers_defs List.map_filter_def)

lemma readers_Nil [simp]:
  "events_of [] = []" "statuses_of [] = []" "errors_of [] = []" "audits_of [] = []"
  by (simp_all add: readers_defs List.map_filter_simps)

lemma readers_events [simp]:
  "events_of (map FactEvent es) = es" "statuses_of (map FactEvent es) = []"
  "errors_of (map FactEvent es) = []" "audits_of (map FactEvent es) = []"
  by (induction es) (simp_all add: readers_defs List.map_filter_simps)

definition rejected_status :: "'c cqrs_command \<Rightarrow> cqrs_error_code \<Rightarrow> cqrs_cursor \<Rightarrow> cqrs_status" where
  "rejected_status c code cursor = \<lparr>cs_state = Rejected, cs_command_id = Some (cc_id c),
     cs_command_type = Some (cc_command_type c), cs_event_count = 0, cs_error_code = Some code,
     cs_cursor = cursor\<rparr>"

lemma failure_effect:
  fixes facts :: "('c, 'e) cqrs_runtime_fact list"
  assumes "failure st (Some c) code msg d = (st', facts)"
  shows "st' = st\<lparr>rs_error_count := rs_error_count st + 1, rs_audit_seq := rs_audit_seq st + 1\<rparr>"
    and "events_of facts = []"
    and "\<exists>cursor. statuses_of facts = [rejected_status c code cursor]"
    and "\<exists>a. audits_of facts = [a] \<and> au_seq a = rs_audit_seq st + 1 \<and> au_command_id a = Some (cc_id c) \<and>
      au_outcome a = AuditFailure \<and> au_event_ids a = [] \<and> au_error_code a = Some code"
    and "\<exists>e. errors_of facts = [e] \<and> er_code e = code \<and> er_command e = Some c"
  using assms
  by (auto simp: failure_def audit_record_def Let_def readers_defs List.map_filter_simps rejected_status_def)

lemma append_events_effect:
  assumes "append_events c t d ps st = (st', es)"
  shows "rs_event_seq st' = rs_event_seq st + of_nat (length ps)"
    and "map ev_id es = map pe_id ps" and "map ev_payload es = map pe_payload ps"
    and "length es = length ps"
    and "map ev_seq es = map (\<lambda>i. rs_event_seq st + of_nat i) [1..<Suc (length ps)]"
    and "\<forall>e \<in> set es. ev_cursor e = ev_seq e \<and> ev_command_id e = cc_id c \<and> ev_timestamp_ms e = t"
    and "window_of (dedupe_max_entries (dp_events d)) h (rs_seen_event_ids st) (rs_event_dedupe_evicted st) \<Longrightarrow>
      window_of (dedupe_max_entries (dp_events d)) (h @ map pe_id ps) (rs_seen_event_ids st')
        (rs_event_dedupe_evicted st')"
proof -
  have "rs_event_seq st' = rs_event_seq st + of_nat (length ps) \<and> map ev_id es = map pe_id ps \<and>
      map ev_payload es = map pe_payload ps \<and> length es = length ps \<and>
      map ev_seq es = map (\<lambda>i. rs_event_seq st + of_nat i) [1..<Suc (length ps)] \<and>
      (\<forall>e \<in> set es. ev_cursor e = ev_seq e \<and> ev_command_id e = cc_id c \<and> ev_timestamp_ms e = t) \<and>
      (\<forall>h. window_of (dedupe_max_entries (dp_events d)) h (rs_seen_event_ids st) (rs_event_dedupe_evicted st) \<longrightarrow>
        window_of (dedupe_max_entries (dp_events d)) (h @ map pe_id ps) (rs_seen_event_ids st')
          (rs_event_dedupe_evicted st'))"
    using assms
  proof (induction ps arbitrary: st es)
    case (Cons p ps)
    define st1 where "st1 = push_event_id d (pe_id p) (st\<lparr>rs_event_seq := rs_event_seq st + 1\<rparr>)"
    obtain es' where es': "append_events c t d ps st1 = (st', es')" "es = make_event c t d p st1 # es'"
      using Cons.prems by (auto simp: st1_def Let_def split: prod.splits)
    note ih = Cons.IH [OF es'(1)]
    have seq: "rs_event_seq st1 = rs_event_seq st + 1" by (simp add: st1_def cqrs_frame)
    have win: "window_of (dedupe_max_entries (dp_events d)) (h @ [pe_id p]) (rs_seen_event_ids st1)
        (rs_event_dedupe_evicted st1)"
      if "window_of (dedupe_max_entries (dp_events d)) h (rs_seen_event_ids st) (rs_event_dedupe_evicted st)" for h
      using evt.push_window [of d h "st\<lparr>rs_event_seq := rs_event_seq st + 1\<rparr>"] that by (simp add: st1_def)
    have win': "window_of (dedupe_max_entries (dp_events d)) (h @ map pe_id (p # ps)) (rs_seen_event_ids st')
        (rs_event_dedupe_evicted st')"
      if "window_of (dedupe_max_entries (dp_events d)) h (rs_seen_event_ids st) (rs_event_dedupe_evicted st)" for h
      using ih win [OF that] by fastforce
    have up: "[1..<Suc (length (p # ps))] = 1 # map Suc [1..<Suc (length ps)]"
      by (simp add: map_Suc_upt upt_conv_Cons del: upt_Suc)
    have "map (\<lambda>i. rs_event_seq st + of_nat i) [1..<Suc (length (p # ps))] =
        rs_event_seq st1 # map (\<lambda>i. rs_event_seq st1 + of_nat i) [1..<Suc (length ps)]"
      by (simp only: up seq) (simp add: algebra_simps del: upt_Suc)
    then show ?case
      using ih seq win' es'(2) by (auto simp: make_event_def simp del: upt_Suc)
  qed simp
  then show "rs_event_seq st' = rs_event_seq st + of_nat (length ps)"
    "map ev_id es = map pe_id ps" "map ev_payload es = map pe_payload ps" "length es = length ps"
    "map ev_seq es = map (\<lambda>i. rs_event_seq st + of_nat i) [1..<Suc (length ps)]"
    "\<forall>e \<in> set es. ev_cursor e = ev_seq e \<and> ev_command_id e = cc_id c \<and> ev_timestamp_ms e = t"
    "window_of (dedupe_max_entries (dp_events d)) h (rs_seen_event_ids st) (rs_event_dedupe_evicted st) \<Longrightarrow>
      window_of (dedupe_max_entries (dp_events d)) (h @ map pe_id ps) (rs_seen_event_ids st')
        (rs_event_dedupe_evicted st')"
    by blast+
qed

lemma prepare_loop_ids:
  "prepare_loop tk c n ds seen known used = Inr ps \<Longrightarrow>
     distinct (map pe_id ps) \<and> set (map pe_id ps) \<inter> (set seen \<union> used) = {} \<and> length ps = length ds \<and>
     map pe_payload ps = map ed_payload ds"
proof (induction tk c n ds seen known used arbitrary: ps rule: prepare_loop.induct)
  case (2 tk c n d ds seen known used)
  then show ?case
    by (fastforce simp: Let_def rbind_eq_Inr split: if_splits)
qed simp

text \<open>Every command gets one of three answers.\<close>

lemma reduce_cases [consumes 1, case_names refused failed accepted]:
  assumes "reduce_command_fact cf st c w = (Inr (st', facts), w')"
  obtains (refused) code msg where
      "failure (st\<lparr>rs_command_count := rs_command_count st + 1\<rparr>) (Some c) code msg (cf_dedupe cf) = (st', facts)"
      "code = MalformedCommand \<and> (cc_id c = [] \<or> cc_command_type c = []) \<or>
       code = CqrsDuplicateCommand \<and> cc_id c \<in> set (rs_seen_command_ids st)"
    | (failed) code msg where
      "failure (push_command_id (cf_dedupe cf) (cc_id c) (st\<lparr>rs_command_count := rs_command_count st + 1\<rparr>))
         (Some c) code msg (cf_dedupe cf) = (st', facts)"
      "cc_id c \<noteq> []" "cc_id c \<notin> set (rs_seen_command_ids st)"
      "code = UnknownCommand \<or> code = HandlerThrew \<or> code = ClockThrew \<or> code = MalformedEvent \<or>
       code = UnknownEvent \<or> code = DuplicateEvent"
    | (accepted) t prepared drafts where
      "accept (push_command_id (cf_dedupe cf) (cc_id c) (st\<lparr>rs_command_count := rs_command_count st + 1\<rparr>))
         c t (cf_dedupe cf) prepared = (st', facts)"
      "cc_id c \<noteq> []" "cc_id c \<notin> set (rs_seen_command_ids st)"
      "prepare_loop (cf_tuple_key cf) c 0 drafts (rs_seen_event_ids st) (cf_known_events cf) {} = Inr prepared"
proof -
  have code: "fst e \<in> {MalformedEvent, UnknownEvent, DuplicateEvent}"
    if "prepare_loop tk c n ds seen known used = Inl e" for tk n ds seen known used e
    using that
  proof (induction tk c n ds seen known used rule: prepare_loop.induct)
    case (2 tk c n d ds seen known used)
    then show ?case by (auto simp: Let_def rbind_def split: if_splits sum.splits)
  qed simp
  show thesis
    using assms refused failed accepted code
    unfolding reduce_command_fact_def prepare_events_def
    by (fastforce simp: Let_def cqrs_frame split: if_splits option.splits prod.splits sum.splits)
qed

text \<open>
  A status and an audit record tell of the same command. A command is \<open>handled\<close> when it was
  neither malformed nor a duplicate: its id has been recorded, whatever became of it.
\<close>

definition status_audit :: "cqrs_status \<Rightarrow> cqrs_audit_record \<Rightarrow> bool" where
  "status_audit s a \<longleftrightarrow> cs_command_id s = au_command_id a \<and> cs_error_code s = au_error_code a \<and>
     cs_event_count s = length (au_event_ids a) \<and>
     (if cs_state s = Accepted then au_outcome a = AuditSuccess \<and> cs_error_code s = None
      else au_outcome a = AuditFailure \<and> cs_error_code s \<noteq> None \<and> au_event_ids a = [])"

definition handled :: "cqrs_status \<Rightarrow> bool" where
  "handled s \<longleftrightarrow> cs_error_code s \<noteq> Some MalformedCommand \<and> cs_error_code s \<noteq> Some CqrsDuplicateCommand"

definition handled_ids :: "('c, 'e) cqrs_runtime_fact list \<Rightarrow> string list" where
  "handled_ids facts = map (the \<circ> cs_command_id) (filter handled (statuses_of facts))"

abbreviation (input) commands_cap :: "('w, 'c, 'e) cqrs_config \<Rightarrow> nat option" where
  "commands_cap cf \<equiv> dedupe_max_entries (dp_commands (cf_dedupe cf))"

abbreviation (input) events_cap :: "('w, 'c, 'e) cqrs_config \<Rightarrow> nat option" where
  "events_cap cf \<equiv> dedupe_max_entries (dp_events (cf_dedupe cf))"

text \<open>What one command adds to the verdicts, to the recorded ids and to the event log.\<close>

definition verdict_step ::
  "cqrs_runtime_state \<Rightarrow> 'c cqrs_command \<Rightarrow> cqrs_runtime_state \<Rightarrow> ('c, 'e) cqrs_runtime_fact list \<Rightarrow> bool" where
  "verdict_step st c st' facts \<longleftrightarrow>
     (\<exists>s a. statuses_of facts = [s] \<and> audits_of facts = [a] \<and> status_audit s a \<and>
        cs_command_id s = Some (cc_id c) \<and> au_seq a = rs_audit_seq st + 1 \<and>
        au_event_ids a = map ev_id (events_of facts) \<and>
        length (errors_of facts) = (if cs_state s = Accepted then 0 else 1)) \<and>
     rs_audit_seq st' = rs_audit_seq st + 1 \<and> rs_command_count st' = rs_command_count st + 1 \<and>
     rs_error_count st' = rs_error_count st + of_nat (length (errors_of facts))"

definition command_step ::
  "('w, 'c, 'e) cqrs_config \<Rightarrow> cqrs_runtime_state \<Rightarrow> cqrs_runtime_state \<Rightarrow> ('c, 'e) cqrs_runtime_fact list \<Rightarrow> bool" where
  "command_step cf st st' facts \<longleftrightarrow>
     set (handled_ids facts) \<inter> set (rs_seen_command_ids st) = {} \<and> distinct (handled_ids facts) \<and>
     (\<forall>h. window_of (commands_cap cf) h (rs_seen_command_ids st) (rs_command_dedupe_evicted st) \<longrightarrow>
        window_of (commands_cap cf) (h @ handled_ids facts) (rs_seen_command_ids st')
          (rs_command_dedupe_evicted st'))"

definition log_step ::
  "('w, 'c, 'e) cqrs_config \<Rightarrow> cqrs_runtime_state \<Rightarrow> cqrs_runtime_state \<Rightarrow> ('c, 'e) cqrs_runtime_fact list \<Rightarrow> bool" where
  "log_step cf st st' facts \<longleftrightarrow>
     (let es = events_of facts in
      rs_event_seq st' = rs_event_seq st + of_nat (length es) \<and>
      map ev_seq es = map (\<lambda>i. rs_event_seq st + of_nat i) [1..<Suc (length es)] \<and>
      (\<forall>e \<in> set es. ev_cursor e = ev_seq e) \<and>
      distinct (map ev_id es) \<and> set (map ev_id es) \<inter> set (rs_seen_event_ids st) = {} \<and>
      (\<forall>h. window_of (events_cap cf) h (rs_seen_event_ids st) (rs_event_dedupe_evicted st) \<longrightarrow>
         window_of (events_cap cf) (h @ map ev_id es) (rs_seen_event_ids st') (rs_event_dedupe_evicted st')))"

lemma accept_effect:
  fixes facts :: "('c, 'e) cqrs_runtime_fact list"
  assumes "accept st c t d ps = (st', facts)"
  obtains st1 es where "append_events c t d ps st = (st1, es)" "events_of facts = es"
    "st' = st1\<lparr>rs_audit_seq := rs_audit_seq st1 + 1\<rparr>" "errors_of facts = []"
    "\<exists>s. statuses_of facts = [s] \<and> cs_state s = Accepted \<and> cs_command_id s = Some (cc_id c) \<and>
       cs_event_count s = length es \<and> cs_error_code s = None"
    "\<exists>a. audits_of facts = [a] \<and> au_seq a = rs_audit_seq st1 + 1 \<and> au_command_id a = Some (cc_id c) \<and>
       au_outcome a = AuditSuccess \<and> au_event_ids a = map ev_id es \<and> au_error_code a = None"
proof -
  obtain st1 es where e: "append_events c t d ps st = (st1, es)" by fastforce
  define rest where "rest = drop (length es) facts"
  have "facts = map FactEvent es @ rest \<and> (\<exists>s a cu. rest = [FactStatus s, FactAudit a, FactCursor cu] \<and>
      cs_state s = Accepted \<and> cs_command_id s = Some (cc_id c) \<and> cs_event_count s = length es \<and>
      cs_error_code s = None \<and> au_seq a = rs_audit_seq st1 + 1 \<and> au_command_id a = Some (cc_id c) \<and>
      au_outcome a = AuditSuccess \<and> au_event_ids a = map ev_id es \<and> au_error_code a = None)"
    using assms e by (auto simp: accept_def audit_record_def rest_def Let_def)
  then obtain s a cu where f: "facts = map FactEvent es @ [FactStatus s, FactAudit a, FactCursor cu]"
      "cs_state s = Accepted" "cs_command_id s = Some (cc_id c)" "cs_event_count s = length es"
      "cs_error_code s = None" "au_seq a = rs_audit_seq st1 + 1" "au_command_id a = Some (cc_id c)"
      "au_outcome a = AuditSuccess" "au_event_ids a = map ev_id es" "au_error_code a = None"
    by blast
  have r: "events_of [FactStatus s, FactAudit a, FactCursor cu :: ('c, 'e) cqrs_runtime_fact] = []"
    "statuses_of [FactStatus s, FactAudit a, FactCursor cu :: ('c, 'e) cqrs_runtime_fact] = [s]"
    "audits_of [FactStatus s, FactAudit a, FactCursor cu :: ('c, 'e) cqrs_runtime_fact] = [a]"
    "errors_of [FactStatus s, FactAudit a, FactCursor cu :: ('c, 'e) cqrs_runtime_fact] = []"
    by (simp_all add: readers_defs List.map_filter_simps)
  have st: "st' = st1\<lparr>rs_audit_seq := rs_audit_seq st1 + 1\<rparr>"
    using assms e by (auto simp: accept_def audit_record_def Let_def)
  show thesis
  proof (rule that [OF e])
    show "events_of facts = es" "errors_of facts = []" using f(1) r by (simp_all only: readers_append readers_events append_Nil2)
    show "st' = st1\<lparr>rs_audit_seq := rs_audit_seq st1 + 1\<rparr>" by (rule st)
    show "\<exists>s. statuses_of facts = [s] \<and> cs_state s = Accepted \<and> cs_command_id s = Some (cc_id c) \<and>
       cs_event_count s = length es \<and> cs_error_code s = None"
      using f(2-5) by (simp only: f(1) readers_append readers_events r append_Nil) blast
    show "\<exists>a. audits_of facts = [a] \<and> au_seq a = rs_audit_seq st1 + 1 \<and> au_command_id a = Some (cc_id c) \<and>
       au_outcome a = AuditSuccess \<and> au_event_ids a = map ev_id es \<and> au_error_code a = None"
      using f(6-10) by (simp only: f(1) readers_append readers_events r append_Nil) blast
  qed
qed

lemma failure_steps:
  fixes facts :: "('c, 'e) cqrs_runtime_fact list"
  assumes "failure st (Some c) code msg (cf_dedupe cf) = (st', facts)"
  shows "verdict_step (st\<lparr>rs_command_count := rs_command_count st - 1\<rparr>) c st' facts"
    and "log_step cf st st' facts"
    and "handled_ids facts = (if code = MalformedCommand \<or> code = CqrsDuplicateCommand then [] else [cc_id c])"
proof -
  note f = failure_effect [OF assms]
  obtain cursor where s: "statuses_of facts = [rejected_status c code cursor]" using f(3) by blast
  obtain a where a: "audits_of facts = [a]" "au_seq a = rs_audit_seq st + 1" "au_command_id a = Some (cc_id c)"
    "au_outcome a = AuditFailure" "au_event_ids a = []" "au_error_code a = Some code" using f(4) by blast
  obtain e where e: "errors_of facts = [e]" using f(5) by blast
  show "verdict_step (st\<lparr>rs_command_count := rs_command_count st - 1\<rparr>) c st' facts"
    unfolding verdict_step_def
    using s a e f(1,2) by (simp add: status_audit_def rejected_status_def)
  show "log_step cf st st' facts"
    using f(1,2) by (simp add: log_step_def Let_def)
  show "handled_ids facts = (if code = MalformedCommand \<or> code = CqrsDuplicateCommand then [] else [cc_id c])"
    using s by (simp add: handled_ids_def handled_def rejected_status_def)
qed

lemma reduce_steps:
  assumes "reduce_command_fact cf st c w = (Inr (st', facts), w')"
  shows "verdict_step st c st' facts" "command_step cf st st' facts" "log_step cf st st' facts"
proof -
  let ?st = "st\<lparr>rs_command_count := rs_command_count st + 1\<rparr>"
  let ?st1 = "push_command_id (cf_dedupe cf) (cc_id c) ?st"
  have push: "window_of (commands_cap cf) (h @ [cc_id c]) (rs_seen_command_ids ?st1) (rs_command_dedupe_evicted ?st1)"
    if "window_of (commands_cap cf) h (rs_seen_command_ids st) (rs_command_dedupe_evicted st)" for h
    using cmd.push_window [of "cf_dedupe cf" h ?st "cc_id c"] that by simp
  from assms have "verdict_step st c st' facts \<and> command_step cf st st' facts \<and> log_step cf st st' facts"
  proof (cases rule: reduce_cases)
    case (refused code msg)
    note f = failure_steps [OF refused(1)]
    show ?thesis
      using f refused failure_effect(1) [OF refused(1)]
      by (auto simp: command_step_def verdict_step_def log_step_def Let_def)
  next
    case (failed code msg)
    note f = failure_steps [OF failed(1)]
    have st': "rs_seen_command_ids st' = rs_seen_command_ids ?st1"
      "rs_command_dedupe_evicted st' = rs_command_dedupe_evicted ?st1"
      using failure_effect(1) [OF failed(1)] by simp_all
    have ids: "handled_ids facts = [cc_id c]" using f(3) failed(4) by auto
    show ?thesis
      using f(1,2) failed(3) push
      by (auto simp: command_step_def verdict_step_def log_step_def Let_def cqrs_frame ids st')
  next
    case (accepted t prepared drafts)
    from accepted(1) show ?thesis
    proof (rule accept_effect)
      fix st1 es
      assume e: "append_events c t (cf_dedupe cf) prepared ?st1 = (st1, es)"
        and f: "events_of facts = es" "st' = st1\<lparr>rs_audit_seq := rs_audit_seq st1 + 1\<rparr>"
          "errors_of facts = []"
        and "\<exists>s. statuses_of facts = [s] \<and> cs_state s = Accepted \<and> cs_command_id s = Some (cc_id c) \<and>
           cs_event_count s = length es \<and> cs_error_code s = None"
        and "\<exists>a. audits_of facts = [a] \<and> au_seq a = rs_audit_seq st1 + 1 \<and> au_command_id a = Some (cc_id c) \<and>
           au_outcome a = AuditSuccess \<and> au_event_ids a = map ev_id es \<and> au_error_code a = None"
      then obtain s a where s: "statuses_of facts = [s]" "cs_state s = Accepted"
          "cs_command_id s = Some (cc_id c)" "cs_event_count s = length es" "cs_error_code s = None"
        and a: "audits_of facts = [a]" "au_seq a = rs_audit_seq st1 + 1" "au_command_id a = Some (cc_id c)"
          "au_outcome a = AuditSuccess" "au_event_ids a = map ev_id es" "au_error_code a = None"
        by blast
      have fr: "rs_audit_seq st1 = rs_audit_seq st" "rs_command_count st1 = rs_command_count st + 1"
          "rs_error_count st1 = rs_error_count st" "rs_seen_command_ids st1 = rs_seen_command_ids ?st1"
          "rs_command_dedupe_evicted st1 = rs_command_dedupe_evicted ?st1"
        using append_events_frame [of c t "cf_dedupe cf" prepared ?st1] e by (simp_all add: cqrs_frame)
      note ae = append_events_effect [OF e]
      have "verdict_step st c st' facts"
        unfolding verdict_step_def using s a f fr by (simp add: status_audit_def)
      moreover have "command_step cf st st' facts"
        using s f fr accepted(3) push
        by (simp add: command_step_def handled_ids_def handled_def)
      moreover have "distinct (map ev_id es) \<and> set (map ev_id es) \<inter> set (rs_seen_event_ids st) = {}"
        using prepare_loop_ids [OF accepted(4)] unfolding ae(2) by blast
      then have "log_step cf st st' facts"
        unfolding log_step_def Let_def f(1)
        using ae(1,4-7) by (auto simp: f(2) ae(2) cqrs_frame)
      ultimately show ?thesis by blast
    qed
  qed
  then show "verdict_step st c st' facts" "command_step cf st st' facts" "log_step cf st st' facts"
    by blast+
qed

subsection \<open>Histories\<close>

text \<open>
  The completed runs of the runtime node: the stored state, the commands received and the facts
  emitted so far. The host may change the world between two runs.
\<close>

inductive cqrs_history ::
  "('w, 'c, 'e) cqrs_config \<Rightarrow> json option \<Rightarrow> 'c cqrs_command list \<Rightarrow> ('c, 'e) cqrs_runtime_fact list \<Rightarrow> bool"
  for cf where
  history_start: "cqrs_history cf None [] []"
| history_run: "cqrs_history cf stored cs fs \<Longrightarrow>
     cqrs_runtime_body cf stored batch w = (fs', Inr stored', w') \<Longrightarrow>
     cqrs_history cf (Some stored') (cs @ batch) (fs @ fs')"

definition decoded :: "json option \<Rightarrow> cqrs_runtime_state" where
  "decoded stored = runtime_state_from_json
     (case stored of Some value \<Rightarrow> value | None \<Rightarrow> runtime_state_to_json cqrs_runtime_state_default)"

lemma runtime_loop_Cons:
  "runtime_loop cf st (c # cs) w = (fs, Inr st', w') \<longleftrightarrow>
     (\<exists>st1 f1 w1 f2. reduce_command_fact cf st c w = (Inr (st1, f1), w1) \<and>
        runtime_loop cf st1 cs w1 = (f2, Inr st', w') \<and> fs = f1 @ f2)"
  by (auto simp: Let_def split: prod.splits sum.splits)

text \<open>A property of the state, the commands and the facts that every command preserves.\<close>

lemma history_induct [consumes 1, case_names start command]:
  assumes "cqrs_history cf stored cs fs"
    and start: "P cqrs_runtime_state_default [] []"
    and command: "\<And>st cs fs c w st' facts w'. P st cs fs \<Longrightarrow>
      reduce_command_fact cf st c w = (Inr (st', facts), w') \<Longrightarrow> P st' (cs @ [c]) (fs @ facts)"
  shows "P (decoded stored) cs fs"
proof -
  have loop: "P st' (cs @ batch) (fs @ fs')"
    if "P st cs fs" "runtime_loop cf st batch w = (fs', Inr st', w')" for st st' cs batch fs fs' w w'
    using that
  proof (induction batch arbitrary: st cs fs fs' w)
    case (Cons c batch)
    then obtain st1 f1 w1 f2 where r: "reduce_command_fact cf st c w = (Inr (st1, f1), w1)"
        "runtime_loop cf st1 batch w1 = (f2, Inr st', w')" "fs' = f1 @ f2"
      unfolding runtime_loop_Cons by blast
    have "P st' ((cs @ [c]) @ batch) ((fs @ f1) @ f2)"
      using Cons.IH [OF command [OF Cons.prems(1) r(1)] r(2)] .
    then show ?case using r(3) by simp
  qed simp
  from assms(1) show ?thesis
  proof (induction rule: cqrs_history.induct)
    case history_start
    then show ?case using start by (simp add: decoded_def runtime_state_roundtrip)
  next
    case (history_run stored cs fs batch w fs' stored' w')
    then obtain st' where "runtime_loop cf (decoded stored) batch w = (fs', Inr st', w')"
        "stored' = runtime_state_to_json st'"
      by (auto simp: cqrs_runtime_body_def decoded_def Let_def split: prod.splits sum.splits)
    with loop [OF history_run.IH] show ?case by (simp add: decoded_def runtime_state_roundtrip)
  qed
qed

definition log_ok :: "('w, 'c, 'e) cqrs_config \<Rightarrow> cqrs_runtime_state \<Rightarrow> ('c, 'e) cqrs_runtime_fact list \<Rightarrow> bool" where
  "log_ok cf st fs \<longleftrightarrow>
     (let es = events_of fs in
      rs_event_seq st = of_nat (length es) \<and> map ev_seq es = map of_nat [1..<Suc (length es)] \<and>
      (\<forall>e \<in> set es. ev_cursor e = ev_seq e) \<and>
      window_of (events_cap cf) (map ev_id es) (rs_seen_event_ids st) (rs_event_dedupe_evicted st) \<and>
      (events_cap cf = None \<longrightarrow> distinct (map ev_id es)))"

lemma log_ok_step:
  assumes "log_ok cf st fs" "log_step cf st st' facts"
  shows "log_ok cf st' (fs @ facts)"
proof -
  define a where "a = events_of fs"
  define b where "b = events_of facts"
  have old: "rs_event_seq st = of_nat (length a)" "map ev_seq a = map of_nat [1..<Suc (length a)]"
    "\<forall>e \<in> set a. ev_cursor e = ev_seq e"
    "window_of (events_cap cf) (map ev_id a) (rs_seen_event_ids st) (rs_event_dedupe_evicted st)"
    "events_cap cf = None \<longrightarrow> distinct (map ev_id a)"
    using assms(1) by (simp_all add: log_ok_def Let_def a_def)
  have new: "rs_event_seq st' = rs_event_seq st + of_nat (length b)"
    "map ev_seq b = map (\<lambda>i. rs_event_seq st + of_nat i) [1..<Suc (length b)]"
    "\<forall>e \<in> set b. ev_cursor e = ev_seq e" "distinct (map ev_id b)"
    "set (map ev_id b) \<inter> set (rs_seen_event_ids st) = {}"
    "window_of (events_cap cf) (map ev_id a @ map ev_id b) (rs_seen_event_ids st') (rs_event_dedupe_evicted st')"
    using assms(2) old(4) unfolding log_step_def Let_def b_def by blast+
  have "map ev_seq (a @ b) = map of_nat [1..<Suc (length (a @ b))]"
    using old(1,2) new(2) by (simp only: map_append length_append upto_shift)
  moreover have "distinct (map ev_id (a @ b))" if "events_cap cf = None"
    using that old(4,5) new(4,5) by (auto simp: window_unbounded)
  ultimately show ?thesis
    using old new by (simp add: log_ok_def Let_def a_def [symmetric] b_def [symmetric] ball_Un del: upt_Suc)
qed

definition commands_ok :: "('w, 'c, 'e) cqrs_config \<Rightarrow> cqrs_runtime_state \<Rightarrow> ('c, 'e) cqrs_runtime_fact list \<Rightarrow> bool" where
  "commands_ok cf st fs \<longleftrightarrow>
     window_of (commands_cap cf) (handled_ids fs) (rs_seen_command_ids st) (rs_command_dedupe_evicted st) \<and>
     (commands_cap cf = None \<longrightarrow> distinct (handled_ids fs))"

lemma handled_ids_append [simp]: "handled_ids (a @ b) = handled_ids a @ handled_ids b"
  by (simp add: handled_ids_def)

lemma commands_ok_step:
  assumes "commands_ok cf st fs" "command_step cf st st' facts"
  shows "commands_ok cf st' (fs @ facts)"
  using assms by (auto simp: commands_ok_def command_step_def window_unbounded)

definition verdicts_ok ::
  "cqrs_runtime_state \<Rightarrow> 'c cqrs_command list \<Rightarrow> ('c, 'e) cqrs_runtime_fact list \<Rightarrow> bool" where
  "verdicts_ok st cs fs \<longleftrightarrow>
     rs_audit_seq st = of_nat (length cs) \<and> rs_command_count st = of_nat (length cs) \<and>
     rs_error_count st = of_nat (length (errors_of fs)) \<and>
     map cs_command_id (statuses_of fs) = map (Some \<circ> cc_id) cs \<and>
     map au_seq (audits_of fs) = map of_nat [1..<Suc (length cs)] \<and>
     list_all2 status_audit (statuses_of fs) (audits_of fs) \<and>
     concat (map au_event_ids (audits_of fs)) = map ev_id (events_of fs)"

lemma verdicts_ok_step:
  assumes "verdicts_ok st cs fs" "verdict_step st c st' facts"
  shows "verdicts_ok st' (cs @ [c]) (fs @ facts)"
proof -
  obtain s a where "statuses_of facts = [s]" "audits_of facts = [a]" "status_audit s a"
      "cs_command_id s = Some (cc_id c)" "au_seq a = rs_audit_seq st + 1"
      "au_event_ids a = map ev_id (events_of facts)"
    using assms(2) by (auto simp: verdict_step_def)
  with assms show ?thesis
    by (auto simp: verdicts_ok_def verdict_step_def list_all2_appendI algebra_simps)
qed

lemma history_ok:
  assumes "cqrs_history cf stored cs fs"
  shows "log_ok cf (decoded stored) fs \<and> commands_ok cf (decoded stored) fs \<and>
    verdicts_ok (decoded stored) cs fs"
  using assms
proof (induction rule: history_induct)
  case start
  show ?case
    by (simp add: log_ok_def commands_ok_def verdicts_ok_def cqrs_runtime_state_default_def handled_ids_def)
next
  case (command st cs fs c w st' facts w')
  then show ?case
    using log_ok_step commands_ok_step verdicts_ok_step reduce_steps [OF command(2)] by blast
qed


text \<open>
  Every command gets exactly one verdict: the statuses are those of the commands, in order;
  the audit records are numbered like them and agree with them; a rejected command has no events
  and an error code; and the events of the log are exactly those the audit trail lists.
\<close>

theorem cqrs_one_verdict_per_command:
  assumes "cqrs_history cf stored cs fs"
  shows "map cs_command_id (statuses_of fs) = map (Some \<circ> cc_id) cs \<and>
    map au_seq (audits_of fs) = map of_nat [1..<Suc (length cs)] \<and>
    list_all2 status_audit (statuses_of fs) (audits_of fs) \<and>
    map ev_id (events_of fs) = concat (map au_event_ids (audits_of fs))"
  using history_ok [OF assms] by (simp add: verdicts_ok_def)


subsection \<open>A concrete run\<close>

definition demo_place :: "string \<Rightarrow> nat cqrs_command" where
  "demo_place i = cqrs_command_new i ''Place'' 5"

definition demo_config :: "cqrs_dedupe_policy \<Rightarrow> (unit, nat, nat) cqrs_config" where
  "demo_config d = \<lparr>cf_tuple_key = esc_tuple,
     cf_handlers = [''Place'' \<mapsto> (\<lambda>c w. (Inr [cqrs_event_draft_new ''Placed'' (cc_payload c),
       cqrs_event_draft_new ''Paid'' 1], w))],
     cf_known_events = None, cf_now = (\<lambda>w. (Inr 7, w)), cf_dedupe = d\<rparr>"

definition demo_commands :: "nat cqrs_command list" where
  "demo_commands = [demo_place ''a'', demo_place ''a'', demo_place ''b'']"

definition demo_result :: "cqrs_dedupe_policy \<Rightarrow>
    (nat, nat) cqrs_runtime_fact list \<times> (panic_payload + json) \<times> unit" where
  "demo_result d = cqrs_runtime_body (demo_config d) None demo_commands ()"

definition demo_stored :: "cqrs_dedupe_policy \<Rightarrow> json" where
  "demo_stored d = (case fst (snd (demo_result d)) of Inr v \<Rightarrow> v | Inl _ \<Rightarrow> JNull)"

definition demo_facts :: "cqrs_dedupe_policy \<Rightarrow> (nat, nat) cqrs_runtime_fact list" where
  "demo_facts d = fst (demo_result d)"

lemma demo_history_of:
  assumes "isl (fst (snd (demo_result d))) = False"
  shows "cqrs_history (demo_config d) (Some (demo_stored d)) demo_commands (demo_facts d)"
proof -
  have "cqrs_runtime_body (demo_config d) None demo_commands () = (demo_facts d, Inr (demo_stored d), ())"
    using assms unfolding demo_result_def [symmetric] demo_facts_def demo_stored_def
    by (cases "demo_result d") (auto split: sum.splits simp: isl_def)
  from history_run [OF history_start this] show ?thesis by simp
qed

abbreviation (input) demo_unbounded :: cqrs_dedupe_policy where
  "demo_unbounded \<equiv> cqrs_dedupe_policy_default"

abbreviation (input) demo_bounded :: cqrs_dedupe_policy where
  "demo_bounded \<equiv> cqrs_dedupe_policy_bounded 1 3"

lemma demo_history:
  "cqrs_history (demo_config demo_unbounded) (Some (demo_stored demo_unbounded)) demo_commands (demo_facts demo_unbounded)"
  "cqrs_history (demo_config demo_bounded) (Some (demo_stored demo_bounded)) demo_commands (demo_facts demo_bounded)"
  by (rule demo_history_of, code_simp)+




theorem cqrs_one_verdict_per_command_witness:
  "map cs_command_id (statuses_of (demo_facts demo_unbounded)) = [Some ''a'', Some ''a'', Some ''b''] \<and>
   map au_seq (audits_of (demo_facts demo_unbounded)) = [1, 2, 3]"
  using cqrs_one_verdict_per_command [OF demo_history(1)]
  by (simp add: demo_commands_def demo_place_def cqrs_command_new_def upto_words
      del: upt_Suc)


subsection \<open>What a projection computes\<close>

text \<open>The completed runs of the frames node that no reducer panic has interrupted.\<close>

inductive projection_history ::
  "string set option \<Rightarrow> ('w, 's, 'e) projection_reducer \<Rightarrow> 's \<Rightarrow> 's option \<Rightarrow> 'e cqrs_event list \<Rightarrow>
   's cqrs_projection_frame list \<Rightarrow> bool"
  for flt reducer initial where
  projection_start: "projection_history flt reducer initial None [] []"
| projection_run: "projection_history flt reducer initial stored es frs \<Longrightarrow>
     cqrs_projection_body flt reducer initial stored batch w = (frs', stored', None, w') \<Longrightarrow>
     projection_history flt reducer initial stored' (es @ batch) (frs @ frs')"

definition selected :: "string set option \<Rightarrow> 'e cqrs_event \<Rightarrow> bool" where
  "selected flt e \<longleftrightarrow> (case flt of Some f \<Rightarrow> ev_event_type e \<in> f | None \<Rightarrow> True)"

lemma projection_loop_pure:
  assumes "\<And>v e w. fst (reducer v e w) = Inr (r v e)"
    and "projection_loop flt reducer v stored es w = (frs, stored', p, w')"
  shows "p = None \<and> projection_values frs = running r v (filter (selected flt) es) \<and>
    projection_errors frs = [] \<and>
    stored' = (if filter (selected flt) es = [] then stored else Some (foldl r v (filter (selected flt) es)))"
  using assms(2)
proof (induction es arbitrary: v stored w frs)
  case Nil
  then show ?case by (simp add: projection_values_def projection_errors_def List.map_filter_simps)
next
  case (Cons e es)
  show ?case
  proof (cases "selected flt e")
    case False
    then have "projection_loop flt reducer v stored (e # es) w = projection_loop flt reducer v stored es w"
      by (simp add: selected_def split: option.splits)
    with Cons.prems have "projection_loop flt reducer v stored es w = (frs, stored', p, w')"
      by (simp only:)
    from Cons.IH [OF this] False show ?thesis by simp
  next
    case True
    obtain w1 where r: "reducer v e w = (Inr (r v e), w1)"
      using assms(1) [of v e w] by (metis fst_conv surj_pair)
    have "projection_loop flt reducer v stored (e # es) w =
        (let (frames, s, p, w) = projection_loop flt reducer (r v e) (Some (r v e)) es w1 in
         (FrameValue (r v e) (ev_id e) (ev_runtime_cursor e) # frames, s, p, w))"
      using True r by (simp add: selected_def split: option.splits)
    with Cons.prems obtain frs' where
        rest: "projection_loop flt reducer (r v e) (Some (r v e)) es w1 = (frs', stored', p, w')"
        and "frs = FrameValue (r v e) (ev_id e) (ev_runtime_cursor e) # frs'"
      by (auto simp: Let_def simp del: projection_loop.simps split: prod.splits)
    with Cons.IH [OF rest] True show ?thesis
      by (auto simp: projection_values_def projection_errors_def List.map_filter_simps)
  qed
qed

text \<open>
  A projection is the fold of its reducer over the selected events, however the waves cut the
  log: its stored state is the fold, and its value node emits every intermediate state in order.
\<close>

theorem cqrs_projection_is_fold:
  assumes "projection_history flt reducer initial stored es frs"
    and "\<And>v e w. fst (reducer v e w) = Inr (r v e)"
  shows "(case stored of Some v \<Rightarrow> v | None \<Rightarrow> initial) = foldl r initial (filter (selected flt) es) \<and>
    projection_values frs = running r initial (filter (selected flt) es) \<and> projection_errors frs = []"
  using assms(1)
proof (induction rule: projection_history.induct)
  case projection_start
  then show ?case by (simp add: projection_values_def projection_errors_def List.map_filter_simps)
next
  case (projection_run stored es frs batch w frs' stored' w')
  from projection_loop_pure [OF assms(2) projection_run.hyps(2) [unfolded cqrs_projection_body_def]] projection_run.IH
  show ?case
    by (simp add: projection_values_def projection_errors_def List.map_filter_def running_append
        split: if_splits)
qed

definition demo_event :: "string \<Rightarrow> nat \<Rightarrow> nat cqrs_event" where
  "demo_event i n = make_event (demo_place i) 7 cqrs_dedupe_policy_default
     \<lparr>pe_id = i, pe_event_type = ''Placed'', pe_payload = n, pe_aggregate_id = None,
      pe_correlation_id = None, pe_causation_id = None\<rparr> cqrs_runtime_state_default"

definition sum_reducer :: "(unit, nat, nat) projection_reducer" where
  "sum_reducer v e w = (Inr (v + ev_payload e), w)"

theorem cqrs_projection_is_fold_witness:
  "\<exists>frs. projection_history None sum_reducer 0 (Some 12) [demo_event ''a'' 5, demo_event ''b'' 7] frs \<and>
     projection_values frs = [5, 12]"
proof -
  let ?b1 = "cqrs_projection_body None sum_reducer 0 None [demo_event ''a'' 5] ()"
  let ?b2 = "cqrs_projection_body None sum_reducer 0 (Some 5) [demo_event ''b'' 7] ()"
  have b1: "?b1 = (fst ?b1, Some 5, None, ())" and b2: "?b2 = (fst ?b2, Some 12, None, ())"
    by (simp_all add: cqrs_projection_body_def sum_reducer_def demo_event_def make_event_def)
  have h: "projection_history None sum_reducer 0 (Some 12) [demo_event ''a'' 5, demo_event ''b'' 7] (fst ?b1 @ fst ?b2)"
    using projection_run [OF projection_run [OF projection_start b1] b2] by simp
  from cqrs_projection_is_fold [OF h, of "\<lambda>v e. v + ev_payload e"]
  have "projection_values (fst ?b1 @ fst ?b2) = [5, 12]"
    by (simp add: sum_reducer_def demo_event_def make_event_def selected_def)
  with h show ?thesis by blast
qed

text \<open>
  A reducer that panics on one event ends the run: the rest of the wave is lost for the
  projection, while the events of the next wave are folded again.
\<close>

definition picky_reducer :: "(unit, nat, nat) projection_reducer" where
  "picky_reducer v e w = (if ev_payload e = 0 then Inl (PanicStr ''zero'') else Inr (v + ev_payload e), w)"

definition picky_state :: "nat option \<Rightarrow> nat list \<Rightarrow> nat option" where
  "picky_state stored ns = (case cqrs_projection_body None picky_reducer 0 stored
     (map (demo_event ''x'') ns) () of (_, s, _, _) \<Rightarrow> s)"

text \<open>
  When a reducer panics, the state of the projection depends on how the waves cut the same
  event log: the events after the failing one are skipped if they share its wave, and folded if
  they come in the next one.
\<close>

theorem projection_skips_rest_of_wave:
  "picky_state None [1, 0, 2] = Some 1 \<and> picky_state (picky_state None [1, 0]) [2] = Some 3"
  by code_simp

end
