(* ===== verification/ScheduledReadiness.thy ===== *)
theory ScheduledReadiness
  imports Messaging Json
begin

text \<open>
  The readiness projector of \<open>scheduled_readiness.rs\<close>: schedule facts and clock facts in,
  pending, ready, overdue, status, issue, audit and view facts out. Its environment \<open>E\<close> holds
  what is not in the sources: \<open>serde_json\<close> behind the canonical JSON, the tuple encoding, and
  the derived \<open>Debug\<close> forms that serve as identities when a value has no canonical JSON.
\<close>

subsection \<open>Data\<close>

type_synonym metadata = "(string, json) btree option"

record source_ref =
  sr_kind :: string
  sr_id :: string
  sr_metadata :: metadata

definition source_ref_new :: "string \<Rightarrow> string \<Rightarrow> source_ref" where
  "source_ref_new kind i = \<lparr>sr_kind = kind, sr_id = i, sr_metadata = None\<rparr>"

record readiness_requested =
  rq_schedule_id :: string
  rq_subject_refs :: "source_ref list"
  rq_ready_at_ms :: u64
  rq_deadline_ms :: "u64 option"
  rq_reason :: "string option"
  rq_policy_refs :: "source_ref list"
  rq_source_refs :: "source_ref list"
  rq_metadata :: metadata

record readiness_clock =
  ck_clock_id :: string
  ck_now_ms :: u64
  ck_source_refs :: "source_ref list"
  ck_metadata :: metadata

record readiness_pending =
  pn_schedule_id :: string
  pn_subject_refs :: "source_ref list"
  pn_ready_at_ms :: u64
  pn_deadline_ms :: "u64 option"
  pn_now_ms :: "u64 option"
  pn_source_refs :: "source_ref list"
  pn_metadata :: metadata

record readiness_ready =
  rd_schedule_id :: string
  rd_subject_refs :: "source_ref list"
  rd_ready_at_ms :: u64
  rd_deadline_ms :: "u64 option"
  rd_now_ms :: u64
  rd_source_refs :: "source_ref list"
  rd_metadata :: metadata

record readiness_overdue =
  ov_schedule_id :: string
  ov_subject_refs :: "source_ref list"
  ov_ready_at_ms :: u64
  ov_deadline_ms :: u64
  ov_now_ms :: u64
  ov_source_refs :: "source_ref list"
  ov_metadata :: metadata

datatype readiness_status_state = StPending | StReady | StOverdue | StIssue

fun status_name :: "readiness_status_state \<Rightarrow> string" where
  "status_name StPending = ''pending''"
| "status_name StReady = ''ready''"
| "status_name StOverdue = ''overdue''"
| "status_name StIssue = ''issue''"

fun status_debug :: "readiness_status_state \<Rightarrow> string" where
  "status_debug StPending = ''Pending''"
| "status_debug StReady = ''Ready''"
| "status_debug StOverdue = ''Overdue''"
| "status_debug StIssue = ''Issue''"

record readiness_status =
  st_status_id :: string
  st_schedule_id :: string
  st_state :: readiness_status_state
  st_subject_refs :: "source_ref list"
  st_ready_at_ms :: "u64 option"
  st_deadline_ms :: "u64 option"
  st_now_ms :: "u64 option"
  st_source_refs :: "source_ref list"
  st_issue_codes :: "string list"
  st_metadata :: metadata

record readiness_audit_record =
  ra_id :: string
  ra_kind :: string
  ra_subject_id :: "string option"
  ra_source_refs :: "source_ref list"
  ra_metadata :: metadata

record readiness_views =
  vw_schedules_by_id :: "(string, readiness_requested) btree"
  vw_pending_by_id :: "(string, readiness_pending) btree"
  vw_ready_by_id :: "(string, readiness_ready) btree"
  vw_overdue_by_id :: "(string, readiness_overdue) btree"
  vw_status_by_id :: "(string, readiness_status) btree"
  vw_now_ms :: "u64 option"

datatype readiness_fact =
    RPending readiness_pending
  | RReady readiness_ready
  | ROverdue readiness_overdue
  | RStatus readiness_status
  | RIssue data_issue
  | RAudit readiness_audit_record
  | RViews readiness_views

record readiness_state =
  rs_schedules :: "(string, readiness_requested) btree"
  rs_pending_by_id :: "(string, readiness_pending) btree"
  rs_ready_by_id :: "(string, readiness_ready) btree"
  rs_overdue_by_id :: "(string, readiness_overdue) btree"
  rs_status_by_id :: "(string, readiness_status) btree"
  rs_emitted_keys :: "string set"
  rs_issue_keys :: "string set"
  rs_audit_seq :: u64
  rs_now_ms :: "u64 option"
  rs_clock_source_refs :: "source_ref list"

definition readiness_state_default :: readiness_state where
  "readiness_state_default = \<lparr>rs_schedules = [], rs_pending_by_id = [], rs_ready_by_id = [],
     rs_overdue_by_id = [], rs_status_by_id = [], rs_emitted_keys = {}, rs_issue_keys = {},
     rs_audit_seq = 0, rs_now_ms = None, rs_clock_source_refs = []\<rparr>"

record readiness_env =
  re_serde :: serde
  re_tuple_key :: tuple_key
  re_schedule_debug :: "readiness_requested \<Rightarrow> string"
  re_status_debug :: "readiness_status \<Rightarrow> string"

subsection \<open>References and metadata\<close>

definition ascii_lower :: "char \<Rightarrow> char" where
  "ascii_lower c =
     (if 65 \<le> (of_char c :: nat) \<and> (of_char c :: nat) \<le> 90 then char_of ((of_char c :: nat) + 32) else c)"

definition runtime_metadata_keys :: "string list" where
  "runtime_metadata_keys = [''apikey'', ''api_key'', ''secret'', ''client'', ''transport'',
     ''subprocess'', ''sdk'', ''oauth'', ''credential'', ''credentials'', ''accesstoken'',
     ''access_token'', ''refreshtoken'', ''refresh_token'', ''token'', ''password'',
     ''authorization'', ''cookie'', ''stdout'', ''stderr'', ''stack'', ''stacktrace'',
     ''providerraw'', ''provider_raw'', ''rawresponse'', ''raw_response'', ''diff'', ''patch'',
     ''filecontents'', ''file_contents'', ''binary'', ''media'']"

definition is_runtime_metadata_key :: "string \<Rightarrow> bool" where
  "is_runtime_metadata_key key \<longleftrightarrow> map ascii_lower key \<in> set runtime_metadata_keys"

definition sanitize_metadata :: "metadata \<Rightarrow> metadata" where
  "sanitize_metadata metadata =
     (let out = filter (\<lambda>(key, value). \<not> is_runtime_metadata_key key)
        (case metadata of Some m \<Rightarrow> m | None \<Rightarrow> []) in
      if out = [] then None else Some out)"

definition metadata_key :: "readiness_env \<Rightarrow> metadata \<Rightarrow> string" where
  "metadata_key E metadata =
     (case metadata of
        None \<Rightarrow> []
      | Some m \<Rightarrow> (case stable_json_string (re_serde E) (JObject m) of Inr s \<Rightarrow> s | Inl _ \<Rightarrow> []))"

definition source_ref_sort_key :: "readiness_env \<Rightarrow> source_ref \<Rightarrow> string \<times> string \<times> string" where
  "source_ref_sort_key E r = (sr_kind r, sr_id r, metadata_key E (sr_metadata r))"

fun dedupe_refs :: "readiness_env \<Rightarrow> string set \<Rightarrow> source_ref list \<Rightarrow> source_ref list" where
  "dedupe_refs E seen [] = []"
| "dedupe_refs E seen (r # refs) =
     (let key = re_tuple_key E [sr_kind r, sr_id r] in
      if key \<in> seen then dedupe_refs E seen refs else r # dedupe_refs E (insert key seen) refs)"

definition canonical_source_refs :: "readiness_env \<Rightarrow> source_ref list \<Rightarrow> source_ref list" where
  "canonical_source_refs E refs =
     dedupe_refs E {} (sort_key (source_ref_sort_key E)
       (map (\<lambda>r. r\<lparr>sr_metadata := sanitize_metadata (sr_metadata r)\<rparr>)
         (filter (\<lambda>r. sr_kind r \<noteq> [] \<and> sr_id r \<noteq> []) refs)))"

definition metadata_json :: "metadata \<Rightarrow> json" where
  "metadata_json m = (case m of None \<Rightarrow> JNull | Some m \<Rightarrow> JObject m)"

definition source_refs_json :: "source_ref list \<Rightarrow> json" where
  "source_refs_json refs = JArray (map (\<lambda>r. JObject (
     [(''id'', JString (sr_id r)), (''kind'', JString (sr_kind r))] @
     (case sr_metadata r of None \<Rightarrow> [] | Some m \<Rightarrow> [(''metadata'', JObject m)]))) refs)"

definition json_of_u64 :: "u64 \<Rightarrow> json" where
  "json_of_u64 n = JNumber (PosInt n)"

definition json_of_option :: "('a \<Rightarrow> json) \<Rightarrow> 'a option \<Rightarrow> json" where
  "json_of_option f v = (case v of None \<Rightarrow> JNull | Some x \<Rightarrow> f x)"

definition schedule_identity :: "readiness_env \<Rightarrow> readiness_requested \<Rightarrow> string" where
  "schedule_identity E s =
     (case stable_json_string (re_serde E) (JObject [
        (''deadlineMs'', json_of_option json_of_u64 (rq_deadline_ms s)),
        (''metadata'', metadata_json (rq_metadata s)),
        (''policyRefs'', source_refs_json (rq_policy_refs s)),
        (''readyAtMs'', json_of_u64 (rq_ready_at_ms s)),
        (''reason'', json_of_option JString (rq_reason s)),
        (''scheduleId'', JString (rq_schedule_id s)),
        (''sourceRefs'', source_refs_json (rq_source_refs s)),
        (''subjectRefs'', source_refs_json (rq_subject_refs s))]) of
        Inr t \<Rightarrow> t
      | Inl _ \<Rightarrow> re_schedule_debug E s)"

definition status_identity :: "readiness_env \<Rightarrow> readiness_status \<Rightarrow> string" where
  "status_identity E s =
     (case stable_json_string (re_serde E) (JObject [
        (''deadlineMs'', json_of_option json_of_u64 (st_deadline_ms s)),
        (''issueCodes'', JArray (map JString (st_issue_codes s))),
        (''nowMs'', json_of_option json_of_u64 (st_now_ms s)),
        (''readyAtMs'', json_of_option json_of_u64 (st_ready_at_ms s)),
        (''scheduleId'', JString (st_schedule_id s)),
        (''state'', JString (status_debug (st_state s))),
        (''statusId'', JString (st_status_id s))]) of
        Inr t \<Rightarrow> t
      | Inl _ \<Rightarrow> re_status_debug E s)"

definition readiness_issue :: "string \<Rightarrow> string \<Rightarrow> string \<Rightarrow> string option \<Rightarrow> string \<Rightarrow> data_issue" where
  "readiness_issue code message subject_id details severity = \<lparr>di_kind = ''data-issue'',
     di_code = code, di_message = message, di_severity = severity,
     di_source = ''scheduled-readiness:'' @ subject_id, di_topic = None, di_details = details\<rparr>"

subsection \<open>Reading a schedule from JSON\<close>

type_synonym json_object = "(string \<times> json) list"

definition string_field :: "json_object \<Rightarrow> string \<Rightarrow> string option" where
  "string_field obj key = (case map_of obj key of Some (JString s) \<Rightarrow> Some s | _ \<Rightarrow> None)"

fun json_as_u64 :: "json \<Rightarrow> u64 option" where
  "json_as_u64 (JNumber n) = as_u64 n"
| "json_as_u64 _ = None"

definition u64_field :: "json_object \<Rightarrow> string \<Rightarrow> u64 option" where
  "u64_field obj key = Option.bind (map_of obj key) json_as_u64"

definition optional_u64_field :: "json_object \<Rightarrow> string \<Rightarrow> unit + u64 option" where
  "optional_u64_field obj key =
     (case map_of obj key of
        None \<Rightarrow> Inr None
      | Some value \<Rightarrow> (case json_as_u64 value of Some n \<Rightarrow> Inr (Some n) | None \<Rightarrow> Inl ()))"

definition object_metadata :: "json option \<Rightarrow> metadata" where
  "object_metadata value = (case value of Some (JObject m) \<Rightarrow> sanitize_metadata (Some m) | _ \<Rightarrow> None)"

fun source_ref_of_json :: "json \<Rightarrow> source_ref option" where
  "source_ref_of_json (JObject obj) =
     (case string_field obj ''kind'' of
        None \<Rightarrow> None
      | Some kind \<Rightarrow>
          (case string_field obj ''id'' of
             None \<Rightarrow> None
           | Some i \<Rightarrow> Some \<lparr>sr_kind = kind, sr_id = i, sr_metadata = object_metadata (map_of obj ''metadata'')\<rparr>))"
| "source_ref_of_json _ = None"

definition source_refs_field :: "readiness_env \<Rightarrow> json_object \<Rightarrow> string \<Rightarrow> source_ref list" where
  "source_refs_field E obj key =
     (case map_of obj key of
        Some (JArray values) \<Rightarrow> canonical_source_refs E (List.map_filter source_ref_of_json values)
      | _ \<Rightarrow> [])"

definition malformed_schedule :: "string \<Rightarrow> string \<Rightarrow> data_issue" where
  "malformed_schedule message schedule_id =
     readiness_issue ''scheduled-readiness-malformed-schedule'' message schedule_id None ''error''"

fun parse_scheduled_readiness_requested ::
  "readiness_env \<Rightarrow> json \<Rightarrow> data_issue + readiness_requested" where
  "parse_scheduled_readiness_requested E (JObject obj) =
     (let schedule_id = (case string_field obj ''scheduleId'' of
            Some s \<Rightarrow> if s \<noteq> [] then s else ''unknown-scheduled-readiness''
          | None \<Rightarrow> ''unknown-scheduled-readiness'') in
      if map_of obj ''subjectRef'' \<noteq> None \<or> map_of obj ''notBeforeMs'' \<noteq> None
      then Inl (malformed_schedule
        ''Scheduled readiness v1 rejects stale subjectRef/notBeforeMs aliases.'' schedule_id)
      else
        (case (u64_field obj ''readyAtMs'', optional_u64_field obj ''deadlineMs'') of
           (Some ready_at_ms, Inr deadline_ms) \<Rightarrow>
             if string_field obj ''kind'' \<noteq> Some ''scheduled-readiness-requested''
               \<or> string_field obj ''scheduleId'' = None \<or> string_field obj ''scheduleId'' = Some []
               \<or> (case map_of obj ''subjectRefs'' of Some (JArray _) \<Rightarrow> False | _ \<Rightarrow> True)
             then Inl (malformed_schedule
               ''Scheduled readiness requires scheduleId, subjectRefs, and finite readyAtMs.'' schedule_id)
             else Inr \<lparr>rq_schedule_id = schedule_id,
               rq_subject_refs = source_refs_field E obj ''subjectRefs'',
               rq_ready_at_ms = ready_at_ms, rq_deadline_ms = deadline_ms,
               rq_reason = string_field obj ''reason'',
               rq_policy_refs = source_refs_field E obj ''policyRefs'',
               rq_source_refs = source_refs_field E obj ''sourceRefs'',
               rq_metadata = object_metadata (map_of obj ''metadata'')\<rparr>
         | _ \<Rightarrow> Inl (malformed_schedule
               ''Scheduled readiness requires scheduleId, subjectRefs, and finite readyAtMs.'' schedule_id)))"
| "parse_scheduled_readiness_requested E _ =
     Inl (malformed_schedule ''Scheduled readiness requires scheduleId, subjectRefs, and readyAtMs.''
       ''unknown-scheduled-readiness'')"

subsection \<open>Emission\<close>

text \<open>Every helper returns the new state and the facts it emits, in order.\<close>

type_synonym emission = "readiness_state \<times> readiness_fact list"

definition then_emit :: "emission \<Rightarrow> (readiness_state \<Rightarrow> emission) \<Rightarrow> emission" where
  "then_emit e f = (let (st, fs) = e; (st', gs) = f st in (st', fs @ gs))"

definition emit_audit ::
  "readiness_env \<Rightarrow> string \<Rightarrow> string option \<Rightarrow> source_ref list \<Rightarrow> metadata \<Rightarrow> readiness_state \<Rightarrow> emission" where
  "emit_audit E kind subject_id source_refs metadata st =
     (let st = st\<lparr>rs_audit_seq := rs_audit_seq st + 1\<rparr> in
      (st, [RAudit \<lparr>ra_id = compound_tuple_key (re_tuple_key E) ''scheduled-readiness-audit''
              [to_string (rs_audit_seq st)],
            ra_kind = kind, ra_subject_id = subject_id,
            ra_source_refs = canonical_source_refs E source_refs,
            ra_metadata = sanitize_metadata metadata\<rparr>]))"

definition emit_pending :: "readiness_pending \<Rightarrow> readiness_state \<Rightarrow> emission" where
  "emit_pending p st =
     (let st = st\<lparr>rs_pending_by_id := bt_insert (pn_schedule_id p) p (rs_pending_by_id st)\<rparr>;
          key = ''pending:'' @ pn_schedule_id p in
      if key \<in> rs_emitted_keys st then (st, [])
      else (st\<lparr>rs_emitted_keys := insert key (rs_emitted_keys st)\<rparr>, [RPending p]))"

definition emit_ready :: "readiness_env \<Rightarrow> readiness_ready \<Rightarrow> readiness_state \<Rightarrow> emission" where
  "emit_ready E r st =
     (let key = ''ready:'' @ rd_schedule_id r;
          st = st\<lparr>rs_ready_by_id := bt_insert (rd_schedule_id r) r (rs_ready_by_id st),
            rs_pending_by_id := bt_remove (rd_schedule_id r) (rs_pending_by_id st)\<rparr> in
      if key \<in> rs_emitted_keys st then (st, [])
      else then_emit
        (emit_audit E ''scheduled-readiness-ready'' (Some (rd_schedule_id r)) (rd_source_refs r)
          (Some [(''nowMs'', json_of_u64 (rd_now_ms r)), (''readyAtMs'', json_of_u64 (rd_ready_at_ms r))])
          (st\<lparr>rs_emitted_keys := insert key (rs_emitted_keys st)\<rparr>))
        (\<lambda>st. (st, [RReady r])))"

definition emit_overdue :: "readiness_env \<Rightarrow> readiness_overdue \<Rightarrow> readiness_state \<Rightarrow> emission" where
  "emit_overdue E v st =
     (let key = ''overdue:'' @ ov_schedule_id v;
          st = st\<lparr>rs_overdue_by_id := bt_insert (ov_schedule_id v) v (rs_overdue_by_id st)\<rparr> in
      if key \<in> rs_emitted_keys st then (st, [])
      else then_emit
        (emit_audit E ''scheduled-readiness-overdue'' (Some (ov_schedule_id v)) (ov_source_refs v)
          (Some [(''deadlineMs'', json_of_u64 (ov_deadline_ms v)), (''nowMs'', json_of_u64 (ov_now_ms v)),
            (''readyAtMs'', json_of_u64 (ov_ready_at_ms v))])
          (st\<lparr>rs_emitted_keys := insert key (rs_emitted_keys st)\<rparr>))
        (\<lambda>st. (st, [ROverdue v])))"

definition emit_status :: "readiness_env \<Rightarrow> readiness_status \<Rightarrow> readiness_state \<Rightarrow> emission" where
  "emit_status E s st =
     (let st = st\<lparr>rs_status_by_id := bt_insert (st_schedule_id s) s (rs_status_by_id st)\<rparr>;
          key = compound_tuple_key (re_tuple_key E) ''status'' [status_identity E s] in
      if key \<in> rs_emitted_keys st then (st, [])
      else (st\<lparr>rs_emitted_keys := insert key (rs_emitted_keys st)\<rparr>, [RStatus s]))"

definition emit_issue :: "readiness_env \<Rightarrow> data_issue \<Rightarrow> readiness_state \<Rightarrow> emission" where
  "emit_issue E issue st =
     (let key = re_tuple_key E [di_source issue, di_code issue,
        (case di_details issue of Some d \<Rightarrow> d | None \<Rightarrow> [])] in
      if key \<in> rs_issue_keys st then (st, [])
      else (st\<lparr>rs_issue_keys := insert key (rs_issue_keys st)\<rparr>, [RIssue issue]))"

subsection \<open>Schedules and clocks\<close>

definition sanitize_schedule :: "readiness_env \<Rightarrow> readiness_requested \<Rightarrow> readiness_requested" where
  "sanitize_schedule E s = s\<lparr>rq_subject_refs := canonical_source_refs E (rq_subject_refs s),
     rq_policy_refs := canonical_source_refs E (rq_policy_refs s),
     rq_source_refs := canonical_source_refs E (rq_source_refs s),
     rq_metadata := sanitize_metadata (rq_metadata s)\<rparr>"

definition readiness_metadata :: "readiness_requested \<Rightarrow> metadata" where
  "readiness_metadata s =
     (let m = (case rq_metadata s of Some m \<Rightarrow> m | None \<Rightarrow> []);
          m = (case rq_reason s of Some reason \<Rightarrow> bt_insert ''reason'' (JString reason) m | None \<Rightarrow> m) in
      sanitize_metadata (if m = [] then None else Some m))"

definition schedule_source_refs ::
  "readiness_env \<Rightarrow> readiness_requested \<Rightarrow> source_ref list \<Rightarrow> source_ref list" where
  "schedule_source_refs E s clock_refs = canonical_source_refs E
     ([source_ref_new ''scheduled-readiness'' (rq_schedule_id s)] @ rq_source_refs s @ rq_policy_refs s @ clock_refs)"

definition status_for ::
  "readiness_env \<Rightarrow> readiness_requested \<Rightarrow> readiness_status_state \<Rightarrow> source_ref list \<Rightarrow> u64 option \<Rightarrow>
   readiness_status" where
  "status_for E s state source_refs now_ms = \<lparr>
     st_status_id = compound_tuple_key (re_tuple_key E) ''scheduled-readiness-status''
       [rq_schedule_id s, status_name state],
     st_schedule_id = rq_schedule_id s, st_state = state,
     st_subject_refs = canonical_source_refs E (rq_subject_refs s),
     st_ready_at_ms = Some (rq_ready_at_ms s), st_deadline_ms = rq_deadline_ms s,
     st_now_ms = now_ms, st_source_refs = source_refs, st_issue_codes = [],
     st_metadata = map_option (\<lambda>reason. [(''reason'', JString reason)]) (rq_reason s)\<rparr>"

definition conflict_issue :: "readiness_requested \<Rightarrow> readiness_requested \<Rightarrow> data_issue" where
  "conflict_issue old s =
     readiness_issue ''scheduled-readiness-schedule-conflict''
       ''Scheduled readiness scheduleId was replayed with conflicting material; first valid schedule retained.''
       (rq_schedule_id s)
       (Some (''existingReadyAtMs='' @ to_string (rq_ready_at_ms old) @ ''; incomingReadyAtMs='' @
          to_string (rq_ready_at_ms s))) ''error''"

definition retain_schedule :: "readiness_env \<Rightarrow> readiness_requested \<Rightarrow> readiness_state \<Rightarrow> emission" where
  "retain_schedule E schedule st =
     (let s = sanitize_schedule E schedule; i = rq_schedule_id s in
      case bt_get (rs_schedules st) i of
        None \<Rightarrow> (st\<lparr>rs_schedules := bt_insert i s (rs_schedules st)\<rparr>, [])
      | Some old \<Rightarrow>
          if schedule_identity E old = schedule_identity E s then (st, [])
          else then_emit (emit_issue E (conflict_issue old s) st) (\<lambda>st. emit_status E \<lparr>
              st_status_id = i @ '':scheduled-readiness-status:issue'', st_schedule_id = i,
              st_state = StIssue, st_subject_refs = rq_subject_refs old,
              st_ready_at_ms = Some (rq_ready_at_ms old), st_deadline_ms = rq_deadline_ms old,
              st_now_ms = rs_now_ms st,
              st_source_refs = schedule_source_refs E old (rs_clock_source_refs st),
              st_issue_codes = [di_code (conflict_issue old s)], st_metadata = None\<rparr> st))"

definition rollback_issue :: "readiness_clock \<Rightarrow> u64 \<Rightarrow> data_issue" where
  "rollback_issue c previous =
     readiness_issue ''scheduled-readiness-clock-rollback''
       ''Scheduled readiness clock facts must be monotonic; rollback was ignored.'' (ck_clock_id c)
       (Some (''nowMs='' @ to_string (ck_now_ms c) @ ''; previousNowMs='' @ to_string previous)) ''warning''"

definition retain_clock :: "readiness_env \<Rightarrow> readiness_clock \<Rightarrow> readiness_state \<Rightarrow> emission" where
  "retain_clock E c st =
     (case rs_now_ms st of
        Some previous \<Rightarrow>
          if ck_now_ms c < previous then emit_issue E (rollback_issue c previous) st
          else (st\<lparr>rs_now_ms := Some (ck_now_ms c),
                   rs_clock_source_refs := canonical_source_refs E (ck_source_refs c)\<rparr>, [])
      | None \<Rightarrow> (st\<lparr>rs_now_ms := Some (ck_now_ms c),
                   rs_clock_source_refs := canonical_source_refs E (ck_source_refs c)\<rparr>, []))"

definition evaluate_pending :: "readiness_env \<Rightarrow> readiness_requested \<Rightarrow> readiness_state \<Rightarrow> emission" where
  "evaluate_pending E s st =
     (let refs = schedule_source_refs E s (rs_clock_source_refs st) in
      then_emit (emit_pending \<lparr>pn_schedule_id = rq_schedule_id s,
          pn_subject_refs = canonical_source_refs E (rq_subject_refs s),
          pn_ready_at_ms = rq_ready_at_ms s, pn_deadline_ms = rq_deadline_ms s,
          pn_now_ms = rs_now_ms st, pn_source_refs = refs, pn_metadata = readiness_metadata s\<rparr> st)
        (\<lambda>st. emit_status E (status_for E s StPending refs (rs_now_ms st)) st))"

definition evaluate_ready :: "readiness_env \<Rightarrow> readiness_requested \<Rightarrow> u64 \<Rightarrow> readiness_state \<Rightarrow> emission" where
  "evaluate_ready E s now st =
     (let refs = schedule_source_refs E s (rs_clock_source_refs st) in
      then_emit (emit_ready E \<lparr>rd_schedule_id = rq_schedule_id s,
          rd_subject_refs = canonical_source_refs E (rq_subject_refs s),
          rd_ready_at_ms = rq_ready_at_ms s, rd_deadline_ms = rq_deadline_ms s,
          rd_now_ms = now, rd_source_refs = refs, rd_metadata = readiness_metadata s\<rparr> st)
        (\<lambda>st. emit_status E (status_for E s StReady refs (Some now)) st))"

definition evaluate_overdue ::
  "readiness_env \<Rightarrow> readiness_requested \<Rightarrow> u64 \<Rightarrow> u64 \<Rightarrow> readiness_state \<Rightarrow> emission" where
  "evaluate_overdue E s now deadline st =
     (let refs = schedule_source_refs E s (rs_clock_source_refs st) in
      then_emit (emit_overdue E \<lparr>ov_schedule_id = rq_schedule_id s,
          ov_subject_refs = canonical_source_refs E (rq_subject_refs s),
          ov_ready_at_ms = rq_ready_at_ms s, ov_deadline_ms = deadline,
          ov_now_ms = now, ov_source_refs = refs, ov_metadata = readiness_metadata s\<rparr> st)
        (\<lambda>st. emit_status E (status_for E s StOverdue refs (Some now)) st))"

definition evaluate_schedule :: "readiness_env \<Rightarrow> readiness_requested \<Rightarrow> readiness_state \<Rightarrow> emission" where
  "evaluate_schedule E s st =
     (case rs_now_ms st of
        None \<Rightarrow> evaluate_pending E s st
      | Some now \<Rightarrow>
          if now < rq_ready_at_ms s then evaluate_pending E s st
          else then_emit (evaluate_ready E s now st) (\<lambda>st.
            case rq_deadline_ms s of
              Some deadline \<Rightarrow> if deadline < now then evaluate_overdue E s now deadline st else (st, [])
            | None \<Rightarrow> (st, [])))"

fun for_each :: "('a \<Rightarrow> readiness_state \<Rightarrow> emission) \<Rightarrow> 'a list \<Rightarrow> readiness_state \<Rightarrow> emission" where
  "for_each f [] st = (st, [])"
| "for_each f (x # xs) st = then_emit (f x st) (for_each f xs)"

definition evaluate_schedules :: "readiness_env \<Rightarrow> readiness_state \<Rightarrow> emission" where
  "evaluate_schedules E st = for_each (evaluate_schedule E) (bt_values (rs_schedules st)) st"

definition views_of :: "readiness_state \<Rightarrow> readiness_views" where
  "views_of st = \<lparr>vw_schedules_by_id = rs_schedules st, vw_pending_by_id = rs_pending_by_id st,
     vw_ready_by_id = rs_ready_by_id st, vw_overdue_by_id = rs_overdue_by_id st,
     vw_status_by_id = rs_status_by_id st, vw_now_ms = rs_now_ms st\<rparr>"

text \<open>
  One run of the projector, on the batches of its schedule and clock dependencies, in dependency
  order.
\<close>

definition readiness_run ::
  "readiness_env \<Rightarrow> readiness_requested list list \<Rightarrow> readiness_clock list list \<Rightarrow> readiness_state \<Rightarrow> emission" where
  "readiness_run E schedules clocks st =
     then_emit (for_each (retain_schedule E) (concat schedules) st)
       (\<lambda>st. then_emit (for_each (retain_clock E) (concat clocks) st)
         (\<lambda>st. then_emit (evaluate_schedules E st) (\<lambda>st. (st, [RViews (views_of st)]))))"

definition project_fact :: "(readiness_fact \<Rightarrow> 'o option) \<Rightarrow> readiness_fact list \<Rightarrow> 'o list" where
  "project_fact select facts = List.map_filter select facts"

definition pending_node :: "readiness_fact list \<Rightarrow> readiness_pending list" where
  "pending_node = project_fact (\<lambda>f. case f of RPending v \<Rightarrow> Some v | _ \<Rightarrow> None)"

definition ready_node :: "readiness_fact list \<Rightarrow> readiness_ready list" where
  "ready_node = project_fact (\<lambda>f. case f of RReady v \<Rightarrow> Some v | _ \<Rightarrow> None)"

definition overdue_node :: "readiness_fact list \<Rightarrow> readiness_overdue list" where
  "overdue_node = project_fact (\<lambda>f. case f of ROverdue v \<Rightarrow> Some v | _ \<Rightarrow> None)"

definition readiness_status_node :: "readiness_fact list \<Rightarrow> readiness_status list" where
  "readiness_status_node = project_fact (\<lambda>f. case f of RStatus v \<Rightarrow> Some v | _ \<Rightarrow> None)"

definition readiness_issues_node :: "readiness_fact list \<Rightarrow> data_issue list" where
  "readiness_issues_node = project_fact (\<lambda>f. case f of RIssue v \<Rightarrow> Some v | _ \<Rightarrow> None)"

definition readiness_audit_node :: "readiness_fact list \<Rightarrow> readiness_audit_record list" where
  "readiness_audit_node = project_fact (\<lambda>f. case f of RAudit v \<Rightarrow> Some v | _ \<Rightarrow> None)"

definition readiness_views_node :: "readiness_fact list \<Rightarrow> readiness_views list" where
  "readiness_views_node = project_fact (\<lambda>f. case f of RViews v \<Rightarrow> Some v | _ \<Rightarrow> None)"

end
