(* ===== verification/ReadinessViews.thy ===== *)
theory ReadinessViews
  imports ScheduledReadiness
begin

text \<open>
  What the readiness projector shows and emits: its clock is the latest reading, the first
  schedule of an id is kept, its views are a function of both, and each schedule becomes ready
  and overdue at most once, never before its time.
\<close>

subsection \<open>Effects of the helpers\<close>

named_theorems readiness_frame \<open>the state after an emission, field by field\<close>

lemma then_emit_simps [simp]:
  "fst (then_emit e f) = fst (f (fst e))" "snd (then_emit e f) = snd e @ snd (f (fst e))"
  by (simp_all add: then_emit_def case_prod_unfold Let_def)

lemma emit_pending_state [readiness_frame]:
  "fst (emit_pending p st) = st\<lparr>rs_pending_by_id := bt_insert (pn_schedule_id p) p (rs_pending_by_id st),
     rs_emitted_keys := insert (''pending:'' @ pn_schedule_id p) (rs_emitted_keys st)\<rparr>"
  by (auto simp: emit_pending_def Let_def insert_absorb)

lemma emit_status_state [readiness_frame]:
  "fst (emit_status E s st) = st\<lparr>rs_status_by_id := bt_insert (st_schedule_id s) s (rs_status_by_id st),
     rs_emitted_keys := insert (compound_tuple_key (re_tuple_key E) ''status'' [status_identity E s])
       (rs_emitted_keys st)\<rparr>"
  by (auto simp: emit_status_def Let_def insert_absorb)

lemma emit_issue_state [readiness_frame]:
  "\<exists>keys. fst (emit_issue E i st) = st\<lparr>rs_issue_keys := keys\<rparr>"
  by (auto simp: emit_issue_def Let_def intro: exI [of _ "rs_issue_keys st"])

lemma emit_ready_state [readiness_frame]:
  "\<exists>n. fst (emit_ready E r st) = st\<lparr>rs_ready_by_id := bt_insert (rd_schedule_id r) r (rs_ready_by_id st),
     rs_pending_by_id := bt_remove (rd_schedule_id r) (rs_pending_by_id st),
     rs_emitted_keys := insert (''ready:'' @ rd_schedule_id r) (rs_emitted_keys st), rs_audit_seq := n\<rparr>"
  by (auto simp: emit_ready_def emit_audit_def Let_def insert_absorb intro: exI [of _ "rs_audit_seq st"])

lemma emit_overdue_state [readiness_frame]:
  "\<exists>n. fst (emit_overdue E v st) = st\<lparr>rs_overdue_by_id := bt_insert (ov_schedule_id v) v (rs_overdue_by_id st),
     rs_emitted_keys := insert (''overdue:'' @ ov_schedule_id v) (rs_emitted_keys st), rs_audit_seq := n\<rparr>"
  by (auto simp: emit_overdue_def emit_audit_def Let_def insert_absorb intro: exI [of _ "rs_audit_seq st"])

lemmas readiness_nodes = ready_node_def overdue_node_def project_fact_def

lemma nodes_append [simp]:
  "ready_node (a @ b) = ready_node a @ ready_node b"
  "overdue_node (a @ b) = overdue_node a @ overdue_node b"
  by (simp_all add: readiness_nodes List.map_filter_def)

lemma nodes_Nil [simp]: "ready_node [] = []" "overdue_node [] = []"
  by (simp_all add: readiness_nodes List.map_filter_simps)

lemma ready_emissions [simp]:
  "ready_node (snd (emit_pending p st)) = []" "ready_node (snd (emit_status E s st)) = []"
  "ready_node (snd (emit_issue E i st)) = []" "ready_node (snd (emit_overdue E v st)) = []"
  "ready_node (snd (emit_ready E r st)) =
     (if ''ready:'' @ rd_schedule_id r \<in> rs_emitted_keys st then [] else [r])"
  "ready_node [RViews vw] = []"
  by (simp_all add: emit_pending_def emit_status_def emit_issue_def emit_overdue_def emit_ready_def
      emit_audit_def Let_def readiness_nodes List.map_filter_simps)

lemma overdue_emissions [simp]:
  "overdue_node (snd (emit_pending p st)) = []" "overdue_node (snd (emit_status E s st)) = []"
  "overdue_node (snd (emit_issue E i st)) = []" "overdue_node (snd (emit_ready E r st)) = []"
  "overdue_node (snd (emit_overdue E v st)) =
     (if ''overdue:'' @ ov_schedule_id v \<in> rs_emitted_keys st then [] else [v])"
  "overdue_node [RViews vw] = []"
  by (simp_all add: emit_pending_def emit_status_def emit_issue_def emit_overdue_def emit_ready_def
      emit_audit_def Let_def readiness_nodes List.map_filter_simps)

subsection \<open>One schedule\<close>

definition due :: "u64 option \<Rightarrow> readiness_requested \<Rightarrow> bool" where
  "due now s \<longleftrightarrow> (\<exists>t. now = Some t \<and> rq_ready_at_ms s \<le> t)"

definition late :: "u64 option \<Rightarrow> readiness_requested \<Rightarrow> bool" where
  "late now s \<longleftrightarrow> due now s \<and> (\<exists>t d. now = Some t \<and> rq_deadline_ms s = Some d \<and> d < t)"

text \<open>What the state shows of one id: the three views, the status, and what was emitted.\<close>

record cell =
  c_pending :: bool
  c_ready :: bool
  c_overdue :: bool
  c_status :: "readiness_status_state option"
  c_ready_sent :: bool
  c_overdue_sent :: bool

definition cell_of :: "readiness_state \<Rightarrow> string \<Rightarrow> cell" where
  "cell_of st i = \<lparr>c_pending = (bt_get (rs_pending_by_id st) i \<noteq> None),
     c_ready = (bt_get (rs_ready_by_id st) i \<noteq> None),
     c_overdue = (bt_get (rs_overdue_by_id st) i \<noteq> None),
     c_status = map_option st_state (bt_get (rs_status_by_id st) i),
     c_ready_sent = (''ready:'' @ i \<in> rs_emitted_keys st),
     c_overdue_sent = (''overdue:'' @ i \<in> rs_emitted_keys st)\<rparr>"

definition shown :: "u64 option \<Rightarrow> readiness_requested \<Rightarrow> cell \<Rightarrow> cell" where
  "shown now s c =
     (if late now s then c\<lparr>c_pending := False, c_ready := True, c_overdue := True,
        c_status := Some StOverdue, c_ready_sent := True, c_overdue_sent := True\<rparr>
      else if due now s then c\<lparr>c_pending := False, c_ready := True, c_status := Some StReady,
        c_ready_sent := True\<rparr>
      else c\<lparr>c_pending := True, c_status := Some StPending\<rparr>)"

text \<open>The fields that an evaluation leaves alone.\<close>

definition same_inputs :: "readiness_state \<Rightarrow> readiness_state \<Rightarrow> bool" where
  "same_inputs st st' \<longleftrightarrow> rs_schedules st' = rs_schedules st \<and> rs_now_ms st' = rs_now_ms st \<and>
     rs_clock_source_refs st' = rs_clock_source_refs st"

lemma evaluate_pending_cells:
  assumes "bt_ok (rs_pending_by_id st)"
  shows "cell_of (fst (evaluate_pending E s st)) i =
      (if i = rq_schedule_id s then (cell_of st i)\<lparr>c_pending := True, c_status := Some StPending\<rparr> else cell_of st i)"
    and "bt_ok (rs_pending_by_id (fst (evaluate_pending E s st)))"
    and "same_inputs st (fst (evaluate_pending E s st))"
    and "ready_node (snd (evaluate_pending E s st)) = []" "overdue_node (snd (evaluate_pending E s st)) = []"
  using assms
  by (simp_all add: evaluate_pending_def Let_def readiness_frame cell_of_def same_inputs_def btree
      status_for_def compound_tuple_key_def)

lemma evaluate_ready_cells:
  fixes s :: readiness_requested and E :: readiness_env and now :: u64
  assumes "bt_ok (rs_pending_by_id st)"
  defines "r \<equiv> \<lparr>rd_schedule_id = rq_schedule_id s,
          rd_subject_refs = canonical_source_refs E (rq_subject_refs s),
          rd_ready_at_ms = rq_ready_at_ms s, rd_deadline_ms = rq_deadline_ms s,
          rd_now_ms = now, rd_source_refs = schedule_source_refs E s (rs_clock_source_refs st),
          rd_metadata = readiness_metadata s\<rparr>"
  shows "cell_of (fst (evaluate_ready E s now st)) i =
      (if i = rq_schedule_id s then (cell_of st i)\<lparr>c_pending := False, c_ready := True,
         c_status := Some StReady, c_ready_sent := True\<rparr> else cell_of st i)"
    and "bt_ok (rs_pending_by_id (fst (evaluate_ready E s now st)))"
    and "same_inputs st (fst (evaluate_ready E s now st))"
    and "ready_node (snd (evaluate_ready E s now st)) =
      (if c_ready_sent (cell_of st (rq_schedule_id s)) then [] else [r])"
    and "overdue_node (snd (evaluate_ready E s now st)) = []"
proof -
  obtain n where n: "fst (emit_ready E r st) = st\<lparr>rs_ready_by_id := bt_insert (rd_schedule_id r) r (rs_ready_by_id st),
     rs_pending_by_id := bt_remove (rd_schedule_id r) (rs_pending_by_id st),
     rs_emitted_keys := insert (''ready:'' @ rd_schedule_id r) (rs_emitted_keys st), rs_audit_seq := n\<rparr>"
    using emit_ready_state by blast
  show "cell_of (fst (evaluate_ready E s now st)) i =
      (if i = rq_schedule_id s then (cell_of st i)\<lparr>c_pending := False, c_ready := True,
         c_status := Some StReady, c_ready_sent := True\<rparr> else cell_of st i)"
    "bt_ok (rs_pending_by_id (fst (evaluate_ready E s now st)))"
    "same_inputs st (fst (evaluate_ready E s now st))"
    "ready_node (snd (evaluate_ready E s now st)) =
      (if c_ready_sent (cell_of st (rq_schedule_id s)) then [] else [r])"
    "overdue_node (snd (evaluate_ready E s now st)) = []"
    using assms(1)
    by (simp_all add: evaluate_ready_def Let_def r_def [symmetric] n emit_status_state cell_of_def
        same_inputs_def btree status_for_def compound_tuple_key_def) (simp_all add: r_def)
qed

lemma evaluate_overdue_cells:
  fixes s :: readiness_requested and E :: readiness_env and now deadline :: u64 and st :: readiness_state
  defines "v \<equiv> \<lparr>ov_schedule_id = rq_schedule_id s,
          ov_subject_refs = canonical_source_refs E (rq_subject_refs s),
          ov_ready_at_ms = rq_ready_at_ms s, ov_deadline_ms = deadline,
          ov_now_ms = now, ov_source_refs = schedule_source_refs E s (rs_clock_source_refs st),
          ov_metadata = readiness_metadata s\<rparr>"
  shows "cell_of (fst (evaluate_overdue E s now deadline st)) i =
      (if i = rq_schedule_id s then (cell_of st i)\<lparr>c_overdue := True,
         c_status := Some StOverdue, c_overdue_sent := True\<rparr> else cell_of st i)"
    and "rs_pending_by_id (fst (evaluate_overdue E s now deadline st)) = rs_pending_by_id st"
    and "same_inputs st (fst (evaluate_overdue E s now deadline st))"
    and "overdue_node (snd (evaluate_overdue E s now deadline st)) =
      (if c_overdue_sent (cell_of st (rq_schedule_id s)) then [] else [v])"
    and "ready_node (snd (evaluate_overdue E s now deadline st)) = []"
proof -
  obtain n where n: "fst (emit_overdue E v st) = st\<lparr>rs_overdue_by_id := bt_insert (ov_schedule_id v) v (rs_overdue_by_id st),
     rs_emitted_keys := insert (''overdue:'' @ ov_schedule_id v) (rs_emitted_keys st), rs_audit_seq := n\<rparr>"
    using emit_overdue_state by blast
  show "cell_of (fst (evaluate_overdue E s now deadline st)) i =
      (if i = rq_schedule_id s then (cell_of st i)\<lparr>c_overdue := True,
         c_status := Some StOverdue, c_overdue_sent := True\<rparr> else cell_of st i)"
    "rs_pending_by_id (fst (evaluate_overdue E s now deadline st)) = rs_pending_by_id st"
    "same_inputs st (fst (evaluate_overdue E s now deadline st))"
    "overdue_node (snd (evaluate_overdue E s now deadline st)) =
      (if c_overdue_sent (cell_of st (rq_schedule_id s)) then [] else [v])"
    "ready_node (snd (evaluate_overdue E s now deadline st)) = []"
    by (simp_all add: evaluate_overdue_def Let_def v_def [symmetric] n emit_status_state cell_of_def
        same_inputs_def btree status_for_def compound_tuple_key_def) (simp_all add: v_def)
qed

lemma evaluate_schedule_cells:
  assumes "bt_ok (rs_pending_by_id st)"
  shows "cell_of (fst (evaluate_schedule E s st)) i =
      (if i = rq_schedule_id s then shown (rs_now_ms st) s (cell_of st i) else cell_of st i)"
    and "bt_ok (rs_pending_by_id (fst (evaluate_schedule E s st)))"
    and "same_inputs st (fst (evaluate_schedule E s st))"
    and "length (ready_node (snd (evaluate_schedule E s st))) =
      (if due (rs_now_ms st) s \<and> \<not> c_ready_sent (cell_of st (rq_schedule_id s)) then 1 else 0)"
    and "r \<in> set (ready_node (snd (evaluate_schedule E s st))) \<Longrightarrow> rd_schedule_id r = rq_schedule_id s \<and>
      rd_ready_at_ms r = rq_ready_at_ms s \<and> rs_now_ms st = Some (rd_now_ms r) \<and> rd_ready_at_ms r \<le> rd_now_ms r"
    and "length (overdue_node (snd (evaluate_schedule E s st))) =
      (if late (rs_now_ms st) s \<and> \<not> c_overdue_sent (cell_of st (rq_schedule_id s)) then 1 else 0)"
    and "v \<in> set (overdue_node (snd (evaluate_schedule E s st))) \<Longrightarrow> ov_schedule_id v = rq_schedule_id s \<and>
      rq_deadline_ms s = Some (ov_deadline_ms v) \<and> rs_now_ms st = Some (ov_now_ms v) \<and>
      ov_deadline_ms v < ov_now_ms v \<and> rq_ready_at_ms s \<le> ov_now_ms v"
proof -
  note c = evaluate_pending_cells [OF assms] evaluate_ready_cells [OF assms] evaluate_overdue_cells
  have si: "rs_clock_source_refs (fst (evaluate_ready E s now st)) = rs_clock_source_refs st" for now
    using evaluate_ready_cells(3) [OF assms] by (simp add: same_inputs_def)
  show "cell_of (fst (evaluate_schedule E s st)) i =
      (if i = rq_schedule_id s then shown (rs_now_ms st) s (cell_of st i) else cell_of st i)"
    "bt_ok (rs_pending_by_id (fst (evaluate_schedule E s st)))"
    "length (ready_node (snd (evaluate_schedule E s st))) =
      (if due (rs_now_ms st) s \<and> \<not> c_ready_sent (cell_of st (rq_schedule_id s)) then 1 else 0)"
    "length (overdue_node (snd (evaluate_schedule E s st))) =
      (if late (rs_now_ms st) s \<and> \<not> c_overdue_sent (cell_of st (rq_schedule_id s)) then 1 else 0)"
    by (auto simp: evaluate_schedule_def shown_def due_def late_def c not_less split: option.splits)
  show "same_inputs st (fst (evaluate_schedule E s st))"
    using evaluate_pending_cells(3) [OF assms] evaluate_ready_cells(3) [OF assms] evaluate_overdue_cells(3)
    by (auto simp: evaluate_schedule_def same_inputs_def split: option.splits)
  show "rd_schedule_id r = rq_schedule_id s \<and> rd_ready_at_ms r = rq_ready_at_ms s \<and>
      rs_now_ms st = Some (rd_now_ms r) \<and> rd_ready_at_ms r \<le> rd_now_ms r"
    if "r \<in> set (ready_node (snd (evaluate_schedule E s st)))"
    using that by (auto simp: evaluate_schedule_def c not_less split: option.splits if_splits)
  show "ov_schedule_id v = rq_schedule_id s \<and>
      rq_deadline_ms s = Some (ov_deadline_ms v) \<and> rs_now_ms st = Some (ov_now_ms v) \<and>
      ov_deadline_ms v < ov_now_ms v \<and> rq_ready_at_ms s \<le> ov_now_ms v"
    if "v \<in> set (overdue_node (snd (evaluate_schedule E s st)))"
    using that by (auto simp: evaluate_schedule_def c not_less split: option.splits if_splits)
qed

subsection \<open>All schedules\<close>

abbreviation (input) named :: "string \<Rightarrow> readiness_requested list \<Rightarrow> readiness_requested option" where
  "named i ss \<equiv> find (\<lambda>s. rq_schedule_id s = i) ss"

definition ready_count :: "string \<Rightarrow> readiness_fact list \<Rightarrow> nat" where
  "ready_count i fs = length (filter (\<lambda>r. rd_schedule_id r = i) (ready_node fs))"

definition overdue_count :: "string \<Rightarrow> readiness_fact list \<Rightarrow> nat" where
  "overdue_count i fs = length (filter (\<lambda>v. ov_schedule_id v = i) (overdue_node fs))"

lemma count_append [simp]:
  "ready_count i (a @ b) = ready_count i a + ready_count i b"
  "overdue_count i (a @ b) = overdue_count i a + overdue_count i b"
  by (simp_all add: ready_count_def overdue_count_def)

lemma evaluate_schedule_counts:
  assumes "bt_ok (rs_pending_by_id st)"
  shows "ready_count i (snd (evaluate_schedule E s st)) =
      of_bool (i = rq_schedule_id s \<and> due (rs_now_ms st) s \<and> \<not> c_ready_sent (cell_of st i))"
    and "overdue_count i (snd (evaluate_schedule E s st)) =
      of_bool (i = rq_schedule_id s \<and> late (rs_now_ms st) s \<and> \<not> c_overdue_sent (cell_of st i))"
proof -
  note e = evaluate_schedule_cells [OF assms, where E = E and s = s]
  have "\<forall>r \<in> set (ready_node (snd (evaluate_schedule E s st))). rd_schedule_id r = rq_schedule_id s"
    using e(5) by blast
  then have "filter (\<lambda>r. rd_schedule_id r = i) (ready_node (snd (evaluate_schedule E s st))) =
      (if i = rq_schedule_id s then ready_node (snd (evaluate_schedule E s st)) else [])"
    by (auto simp: filter_empty_conv filter_id_conv)
  then show "ready_count i (snd (evaluate_schedule E s st)) =
      of_bool (i = rq_schedule_id s \<and> due (rs_now_ms st) s \<and> \<not> c_ready_sent (cell_of st i))"
    using e(4) by (simp add: ready_count_def)
  have "\<forall>v \<in> set (overdue_node (snd (evaluate_schedule E s st))). ov_schedule_id v = rq_schedule_id s"
    using e(7) by blast
  then have "filter (\<lambda>v. ov_schedule_id v = i) (overdue_node (snd (evaluate_schedule E s st))) =
      (if i = rq_schedule_id s then overdue_node (snd (evaluate_schedule E s st)) else [])"
    by (auto simp: filter_empty_conv filter_id_conv)
  then show "overdue_count i (snd (evaluate_schedule E s st)) =
      of_bool (i = rq_schedule_id s \<and> late (rs_now_ms st) s \<and> \<not> c_overdue_sent (cell_of st i))"
    using e(6) by (simp add: overdue_count_def)
qed

text \<open>Facts whose time has come.\<close>

definition timely :: "readiness_fact list \<Rightarrow> bool" where
  "timely fs \<longleftrightarrow> (\<forall>r \<in> set (ready_node fs). rd_ready_at_ms r \<le> rd_now_ms r) \<and>
     (\<forall>v \<in> set (overdue_node fs). ov_deadline_ms v < ov_now_ms v \<and> ov_ready_at_ms v \<le> ov_now_ms v)"

lemma timely_append [simp]: "timely (a @ b) \<longleftrightarrow> timely a \<and> timely b"
  by (auto simp: timely_def)

lemma evaluate_schedule_timely: "timely (snd (evaluate_schedule E s st))"
  by (auto simp: timely_def evaluate_schedule_def evaluate_pending_def evaluate_ready_def
      evaluate_overdue_def Let_def not_less split: option.splits if_splits)

lemma for_each_cells:
  assumes "bt_ok (rs_pending_by_id st)" "distinct (map rq_schedule_id ss)"
  shows "(\<forall>i. cell_of (fst (for_each (evaluate_schedule E) ss st)) i =
      (case named i ss of Some s \<Rightarrow> shown (rs_now_ms st) s (cell_of st i) | None \<Rightarrow> cell_of st i)) \<and>
    bt_ok (rs_pending_by_id (fst (for_each (evaluate_schedule E) ss st))) \<and>
    same_inputs st (fst (for_each (evaluate_schedule E) ss st)) \<and>
    (\<forall>i. ready_count i (snd (for_each (evaluate_schedule E) ss st)) =
      (case named i ss of Some s \<Rightarrow> of_bool (due (rs_now_ms st) s \<and> \<not> c_ready_sent (cell_of st i)) | None \<Rightarrow> 0)) \<and>
    (\<forall>i. overdue_count i (snd (for_each (evaluate_schedule E) ss st)) =
      (case named i ss of Some s \<Rightarrow> of_bool (late (rs_now_ms st) s \<and> \<not> c_overdue_sent (cell_of st i)) | None \<Rightarrow> 0)) \<and>
    timely (snd (for_each (evaluate_schedule E) ss st))"
  using assms
proof (induction ss arbitrary: st)
  case Nil
  then show ?case by (simp add: same_inputs_def ready_count_def overdue_count_def timely_def)
next
  case (Cons s ss)
  define st1 where "st1 = fst (evaluate_schedule E s st)"
  note e = evaluate_schedule_cells [OF Cons.prems(1), where E = E and s = s]
  note n = evaluate_schedule_counts [OF Cons.prems(1), where E = E and s = s]
  have si: "rs_now_ms st1 = rs_now_ms st" using e(3) by (simp add: st1_def same_inputs_def)
  have none: "named (rq_schedule_id s) ss = None"
    using Cons.prems(2) by (simp add: find_None_iff) (metis imageI)
  have ih: "bt_ok (rs_pending_by_id st1)" "distinct (map rq_schedule_id ss)"
    using e(2) Cons.prems(2) by (simp_all add: st1_def)
  have c: "cell_of st1 i = (if i = rq_schedule_id s then shown (rs_now_ms st) s (cell_of st i) else cell_of st i)" for i
    using e(1) by (simp add: st1_def)
  have same: "same_inputs st st1" using e(3) by (simp add: st1_def)
  note ih = Cons.IH [OF ih, unfolded si c]
  show ?case
    using ih same n none
    by (auto simp: st1_def [symmetric] evaluate_schedule_timely same_inputs_def split: option.splits)
qed

lemma named_values:
  assumes "\<forall>(k, s) \<in> set m. rq_schedule_id s = k"
  shows "named i (bt_values m) = bt_get m i"
  using assms by (induction m) auto

subsection \<open>What comes before the evaluation\<close>

definition keyed :: "readiness_state \<Rightarrow> bool" where
  "keyed st \<longleftrightarrow> bt_ok (rs_schedules st) \<and> (\<forall>(k, s) \<in> set (rs_schedules st). rq_schedule_id s = k) \<and>
     bt_ok (rs_pending_by_id st)"

text \<open>Up to the status of scheduled ids, nothing is shown or sent.\<close>

definition unshown :: "readiness_state \<Rightarrow> readiness_state \<Rightarrow> bool" where
  "unshown st st' \<longleftrightarrow> (\<forall>i. \<exists>x. cell_of st' i = (cell_of st i)\<lparr>c_status := x\<rparr> \<and>
     (bt_get (rs_schedules st') i = None \<longrightarrow> x = c_status (cell_of st i)))"

lemma unshown_same: "(\<And>i. cell_of st' i = cell_of st i) \<Longrightarrow> unshown st st'"
  unfolding unshown_def by (intro allI, rule_tac x = "c_status (cell_of st i)" in exI) simp

definition silent :: "readiness_fact list \<Rightarrow> bool" where
  "silent fs \<longleftrightarrow> ready_node fs = [] \<and> overdue_node fs = []"

lemma sanitize_schedule_id [simp]: "rq_schedule_id (sanitize_schedule E s) = rq_schedule_id s"
  by (simp add: sanitize_schedule_def)

lemma cell_of_status:
  "cell_of (st\<lparr>rs_status_by_id := m, rs_emitted_keys := insert (compound_tuple_key tk ''status'' ps) (rs_emitted_keys st)\<rparr>) i =
     (cell_of st i)\<lparr>c_status := map_option st_state (bt_get m i)\<rparr>"
  by (simp add: cell_of_def compound_tuple_key_def)

lemma cell_of_other [simp]:
  "cell_of (st\<lparr>rs_issue_keys := ks\<rparr>) i = cell_of st i"
  "cell_of (st\<lparr>rs_schedules := m\<rparr>) i = cell_of st i"
  "cell_of (st\<lparr>rs_now_ms := n\<rparr>) i = cell_of st i"
  "cell_of (st\<lparr>rs_clock_source_refs := rs\<rparr>) i = cell_of st i"
  by (simp_all add: cell_of_def)

lemma retain_schedule_effect:
  fixes E :: readiness_env and s :: readiness_requested and st :: readiness_state
  assumes "keyed st"
  defines "st' \<equiv> fst (retain_schedule E s st)"
  shows "keyed st'" "rs_now_ms st' = rs_now_ms st" "unshown st st'" "silent (snd (retain_schedule E s st))"
    and "bt_get (rs_schedules st') i =
      (case bt_get (rs_schedules st) i of Some old \<Rightarrow> Some old
       | None \<Rightarrow> if i = rq_schedule_id s then Some (sanitize_schedule E s) else None)"
proof -
  have "keyed st' \<and> rs_now_ms st' = rs_now_ms st \<and> unshown st st' \<and> silent (snd (retain_schedule E s st)) \<and>
    (\<forall>i. bt_get (rs_schedules st') i =
      (case bt_get (rs_schedules st) i of Some old \<Rightarrow> Some old
       | None \<Rightarrow> if i = rq_schedule_id s then Some (sanitize_schedule E s) else None))"
  proof (cases "bt_get (rs_schedules st) (rq_schedule_id s)")
    case None
    then have st': "st' = st\<lparr>rs_schedules := bt_insert (rq_schedule_id s) (sanitize_schedule E s) (rs_schedules st)\<rparr>"
      by (simp add: st'_def retain_schedule_def Let_def)
    have "unshown st st'" by (rule unshown_same) (simp add: st')
    then show ?thesis
      using assms(1) None set_bt_insert [of "rq_schedule_id s" "sanitize_schedule E s" "rs_schedules st"]
      by (auto simp: st' keyed_def btree silent_def retain_schedule_def Let_def
          split: option.splits)
  next
    case (Some old)
    show ?thesis
    proof (cases "schedule_identity E old = schedule_identity E (sanitize_schedule E s)")
      case True
      then have st': "st' = st" using Some by (simp add: st'_def retain_schedule_def Let_def)
      have "unshown st st'" by (rule unshown_same) (simp add: st')
      with True Some assms(1) st' show ?thesis
        by (auto simp: silent_def retain_schedule_def Let_def split: option.splits)
    next
      case False
      obtain keys where k: "fst (emit_issue E (conflict_issue old (sanitize_schedule E s)) st) = st\<lparr>rs_issue_keys := keys\<rparr>"
        using emit_issue_state by blast
      obtain x tk ps where st': "st' = st\<lparr>rs_issue_keys := keys,
          rs_status_by_id := bt_insert (rq_schedule_id s) x (rs_status_by_id st),
          rs_emitted_keys := insert (compound_tuple_key tk ''status'' ps) (rs_emitted_keys st)\<rparr>"
        using False Some k
        by (simp add: st'_def retain_schedule_def Let_def emit_status_state)
      have c: "cell_of st' i = (cell_of st i)\<lparr>c_status := map_option st_state (bt_get (rs_status_by_id st') i)\<rparr>" for i
        by (simp add: st' cell_of_def compound_tuple_key_def)
      have "unshown st st'"
        unfolding unshown_def
      proof
        fix i
        have "map_option st_state (bt_get (rs_status_by_id st') i) = c_status (cell_of st i)"
          if "bt_get (rs_schedules st') i = None"
          using that Some by (auto simp: st' btree cell_of_def)
        then show "\<exists>x. cell_of st' i = (cell_of st i)\<lparr>c_status := x\<rparr> \<and>
            (bt_get (rs_schedules st') i = None \<longrightarrow> x = c_status (cell_of st i))"
          by (intro exI [of _ "map_option st_state (bt_get (rs_status_by_id st') i)"]) (simp add: c [of i])
      qed
      moreover have "silent (snd (retain_schedule E s st))"
        using False Some by (simp add: silent_def retain_schedule_def Let_def)
      ultimately show ?thesis
        using assms(1) Some by (auto simp: st' keyed_def split: option.splits)
    qed
  qed
  then show "keyed st'" "rs_now_ms st' = rs_now_ms st" "unshown st st'" "silent (snd (retain_schedule E s st))"
    "bt_get (rs_schedules st') i =
      (case bt_get (rs_schedules st) i of Some old \<Rightarrow> Some old
       | None \<Rightarrow> if i = rq_schedule_id s then Some (sanitize_schedule E s) else None)"
    by blast+
qed

definition later :: "u64 option \<Rightarrow> readiness_clock \<Rightarrow> u64 option" where
  "later now c = (case now of None \<Rightarrow> Some (ck_now_ms c) | Some t \<Rightarrow> Some (max t (ck_now_ms c)))"

lemma retain_clock_effect:
  fixes E :: readiness_env and c :: readiness_clock and st :: readiness_state
  assumes "keyed st"
  defines "st' \<equiv> fst (retain_clock E c st)"
  shows "keyed st'" "rs_now_ms st' = later (rs_now_ms st) c" "cell_of st' i = cell_of st i"
    "silent (snd (retain_clock E c st))" "rs_schedules st' = rs_schedules st"
proof -
  obtain keys where "rs_now_ms st = Some t \<Longrightarrow> fst (emit_issue E (rollback_issue c t) st) = st\<lparr>rs_issue_keys := keys t\<rparr>" for t
    using emit_issue_state [of E "rollback_issue c _" st] by metis
  then show "keyed st'" "rs_now_ms st' = later (rs_now_ms st) c" "cell_of st' i = cell_of st i"
    "silent (snd (retain_clock E c st))" "rs_schedules st' = rs_schedules st"
    using assms(1)
    by (auto simp: st'_def retain_clock_def keyed_def later_def silent_def max_def split: option.splits)
qed

subsection \<open>Histories\<close>

text \<open>The runs of the projector, with the schedule and clock facts they received.\<close>

inductive readiness_history ::
  "readiness_env \<Rightarrow> readiness_state \<Rightarrow> readiness_requested list \<Rightarrow> readiness_clock list \<Rightarrow> readiness_fact list \<Rightarrow> bool"
  for E where
  readiness_start: "readiness_history E readiness_state_default [] [] []"
| readiness_step: "readiness_history E st ss cs fs \<Longrightarrow> readiness_run E sb cb st = (st', fs') \<Longrightarrow>
     readiness_history E st' (ss @ concat sb) (cs @ concat cb) (fs @ fs')"

definition first_schedule :: "readiness_env \<Rightarrow> readiness_requested list \<Rightarrow> string \<Rightarrow> readiness_requested option" where
  "first_schedule E ss i = map_option (sanitize_schedule E) (named i ss)"

definition latest_clock :: "readiness_clock list \<Rightarrow> u64 option" where
  "latest_clock cs = foldl later None cs"

lemma find_append: "find P (xs @ ys) = (case find P xs of Some x \<Rightarrow> Some x | None \<Rightarrow> find P ys)"
  by (induction xs) simp_all

text \<open>The cell of an id whose schedule, if any, has been shown at a time.\<close>

definition exact :: "u64 option \<Rightarrow> readiness_requested option \<Rightarrow> cell" where
  "exact now schedule =
     (case schedule of
        None \<Rightarrow> \<lparr>c_pending = False, c_ready = False, c_overdue = False, c_status = None,
          c_ready_sent = False, c_overdue_sent = False\<rparr>
      | Some s \<Rightarrow> \<lparr>c_pending = (\<not> due now s), c_ready = due now s, c_overdue = late now s,
          c_status = Some (if late now s then StOverdue else if due now s then StReady else StPending),
          c_ready_sent = due now s, c_overdue_sent = late now s\<rparr>)"

definition at_rest ::
  "readiness_env \<Rightarrow> readiness_requested list \<Rightarrow> readiness_clock list \<Rightarrow> readiness_fact list \<Rightarrow> readiness_state \<Rightarrow> bool" where
  "at_rest E ss cs fs st \<longleftrightarrow> keyed st \<and> rs_now_ms st = latest_clock cs \<and>
     bt_get (rs_schedules st) = first_schedule E ss \<and>
     (\<forall>i. cell_of st i = exact (rs_now_ms st) (bt_get (rs_schedules st) i)) \<and>
     (\<forall>i. ready_count i fs = of_bool (c_ready_sent (cell_of st i)) \<and>
        overdue_count i fs = of_bool (c_overdue_sent (cell_of st i))) \<and> timely fs"

definition no_earlier :: "u64 option \<Rightarrow> u64 option \<Rightarrow> bool" where
  "no_earlier now now' \<longleftrightarrow> (\<forall>t. now = Some t \<longrightarrow> (\<exists>t'. now' = Some t' \<and> t \<le> t'))"

lemma no_earlier_refl [simp]: "no_earlier now now"
  by (simp add: no_earlier_def)

lemma later_no_earlier: "no_earlier now now' \<Longrightarrow> no_earlier now (later now' c)"
  by (fastforce simp: no_earlier_def later_def max_def split: option.splits)

lemma due_mono: "no_earlier now now' \<Longrightarrow> due now s \<Longrightarrow> due now' s"
  by (fastforce simp: no_earlier_def due_def)

lemma late_mono: "no_earlier now now' \<Longrightarrow> late now s \<Longrightarrow> late now' s"
  using due_mono [of now now' s] by (force simp: no_earlier_def late_def)

lemma shown_exact:
  assumes "no_earlier now now'" "c = (exact now (Some s))\<lparr>c_status := x\<rparr> \<or> c = (exact now None)\<lparr>c_status := x\<rparr>"
  shows "shown now' s c = exact now' (Some s)"
  using assms due_mono [of now now' s] late_mono [of now now' s]
  by (auto simp: shown_def exact_def late_def)

text \<open>The retained schedules extend the old ones; the other cells wait.\<close>

definition awaits :: "readiness_state \<Rightarrow> readiness_state \<Rightarrow> bool" where
  "awaits st st' \<longleftrightarrow> keyed st' \<and> unshown st st' \<and> no_earlier (rs_now_ms st) (rs_now_ms st') \<and>
     (\<forall>i s. bt_get (rs_schedules st) i = Some s \<longrightarrow> bt_get (rs_schedules st') i = Some s)"

lemma unshown_trans:
  assumes "unshown a b" "unshown b c" "\<And>i s. bt_get (rs_schedules b) i = Some s \<Longrightarrow> bt_get (rs_schedules c) i = Some s"
  shows "unshown a c"
  unfolding unshown_def
proof
  fix i
  obtain x where x: "cell_of b i = (cell_of a i)\<lparr>c_status := x\<rparr>"
      "bt_get (rs_schedules b) i = None \<longrightarrow> x = c_status (cell_of a i)"
    using assms(1) by (auto simp: unshown_def)
  obtain y where y: "cell_of c i = (cell_of b i)\<lparr>c_status := y\<rparr>"
      "bt_get (rs_schedules c) i = None \<longrightarrow> y = c_status (cell_of b i)"
    using assms(2) by (auto simp: unshown_def)
  have "bt_get (rs_schedules c) i = None \<Longrightarrow> bt_get (rs_schedules b) i = None"
    using assms(3) [of i] by (cases "bt_get (rs_schedules b) i") auto
  with x y show "\<exists>x. cell_of c i = (cell_of a i)\<lparr>c_status := x\<rparr> \<and>
      (bt_get (rs_schedules c) i = None \<longrightarrow> x = c_status (cell_of a i))"
    by (intro exI [of _ y]) auto
qed

lemma retain_schedules_effect:
  assumes "awaits st0 st" "bt_get (rs_schedules st) = first_schedule E ss"
  shows "awaits st0 (fst (for_each (retain_schedule E) sb st)) \<and>
    rs_now_ms (fst (for_each (retain_schedule E) sb st)) = rs_now_ms st \<and>
    bt_get (rs_schedules (fst (for_each (retain_schedule E) sb st))) = first_schedule E (ss @ sb) \<and>
    silent (snd (for_each (retain_schedule E) sb st))"
  using assms
proof (induction sb arbitrary: st ss)
  case Nil
  then show ?case by (simp add: silent_def)
next
  case (Cons s sb)
  define st1 where "st1 = fst (retain_schedule E s st)"
  have "keyed st" using Cons.prems(1) by (simp add: awaits_def)
  note e = retain_schedule_effect [OF this, where E = E and s = s, folded st1_def]
  have keep: "bt_get (rs_schedules st1) i = Some x" if "bt_get (rs_schedules st) i = Some x" for i x
    using that by (simp add: e(5))
  have "awaits st0 st1"
    using Cons.prems(1) e(1-3) keep unshown_trans [of st0 st st1] by (auto simp: awaits_def)
  moreover have "bt_get (rs_schedules st1) = first_schedule E (ss @ [s])"
    using Cons.prems(2) e(5) by (auto simp: fun_eq_iff first_schedule_def find_append split: option.splits)
  ultimately have "awaits st0 (fst (for_each (retain_schedule E) sb st1)) \<and>
    rs_now_ms (fst (for_each (retain_schedule E) sb st1)) = rs_now_ms st1 \<and>
    bt_get (rs_schedules (fst (for_each (retain_schedule E) sb st1))) = first_schedule E ((ss @ [s]) @ sb) \<and>
    silent (snd (for_each (retain_schedule E) sb st1))"
    by (rule Cons.IH)
  then show ?case using e(2,4) by (simp add: st1_def silent_def)
qed

lemma retain_clocks_effect:
  assumes "awaits st0 st"
  shows "awaits st0 (fst (for_each (retain_clock E) cb st)) \<and>
    rs_now_ms (fst (for_each (retain_clock E) cb st)) = foldl later (rs_now_ms st) cb \<and>
    rs_schedules (fst (for_each (retain_clock E) cb st)) = rs_schedules st \<and>
    silent (snd (for_each (retain_clock E) cb st))"
  using assms
proof (induction cb arbitrary: st)
  case Nil
  then show ?case by (simp add: silent_def)
next
  case (Cons c cb)
  define st1 where "st1 = fst (retain_clock E c st)"
  have "keyed st" using Cons.prems(1) by (simp add: awaits_def)
  note e = retain_clock_effect [OF this, where E = E and c = c, folded st1_def]
  have "unshown st st1" by (rule unshown_same) (rule e(3))
  then have "awaits st0 st1"
    using Cons.prems(1) e(1,2,5) unshown_trans [of st0 st st1] by (auto simp: awaits_def later_no_earlier)
  from Cons.IH [OF this] show ?case using e(2,4,5) by (simp add: st1_def silent_def)
qed

lemma readiness_run_at_rest:
  assumes "at_rest E ss cs fs st" "readiness_run E sb cb st = (st', fs')"
  shows "at_rest E (ss @ concat sb) (cs @ concat cb) (fs @ fs') st'"
proof -
  define st1 where "st1 = fst (for_each (retain_schedule E) (concat sb) st)"
  define st2 where "st2 = fst (for_each (retain_clock E) (concat cb) st1)"
  define ev where "ev = for_each (evaluate_schedule E) (bt_values (rs_schedules st2)) st2"
  have rest: "keyed st" "rs_now_ms st = latest_clock cs" "bt_get (rs_schedules st) = first_schedule E ss"
    "\<And>i. cell_of st i = exact (rs_now_ms st) (bt_get (rs_schedules st) i)"
    "\<And>i. ready_count i fs = of_bool (c_ready_sent (cell_of st i))"
    "\<And>i. overdue_count i fs = of_bool (c_overdue_sent (cell_of st i))" "timely fs"
    using assms(1) by (simp_all add: at_rest_def)
  have "awaits st st" using rest(1) unshown_same [of st st] by (simp add: awaits_def)
  from retain_schedules_effect [OF this rest(3), of "concat sb", folded st1_def]
  have r1: "awaits st st1" "rs_now_ms st1 = rs_now_ms st"
    "bt_get (rs_schedules st1) = first_schedule E (ss @ concat sb)"
    "silent (snd (for_each (retain_schedule E) (concat sb) st))" by blast+
  from retain_clocks_effect [OF r1(1), of E "concat cb", folded st2_def]
  have r2: "awaits st st2" "rs_now_ms st2 = foldl later (rs_now_ms st1) (concat cb)"
    "rs_schedules st2 = rs_schedules st1" "silent (snd (for_each (retain_clock E) (concat cb) st1))" by blast+
  have keyed: "keyed st2" using r2(1) by (simp add: awaits_def)
  then have ids: "bt_ok (rs_pending_by_id st2)" "\<forall>(k, s) \<in> set (rs_schedules st2). rq_schedule_id s = k"
    by (simp_all add: keyed_def)
  have "map rq_schedule_id (bt_values (rs_schedules st2)) = bt_keys (rs_schedules st2)"
    using ids(2) by auto
  then have "distinct (map rq_schedule_id (bt_values (rs_schedules st2)))"
    using keyed by (simp only: keyed_def bt_ok_distinct)
  note f = for_each_cells [OF ids(1) this, of E, folded ev_def]
  have nv: "named i (bt_values (rs_schedules st2)) = bt_get (rs_schedules st2) i" for i
    using named_values [OF ids(2)] .
  have out: "st' = fst ev" "ready_node fs' = ready_node (snd ev)" "overdue_node fs' = overdue_node (snd ev)"
    using assms(2) r1(4) r2(4)
    by (auto simp: readiness_run_def then_emit_def case_prod_unfold Let_def st1_def st2_def ev_def
        evaluate_schedules_def silent_def)
  have now: "rs_now_ms st' = rs_now_ms st2" "rs_schedules st' = rs_schedules st2"
    using f out(1) by (auto simp: same_inputs_def)
  have ne: "no_earlier (rs_now_ms st) (rs_now_ms st2)" using r2(1) by (simp add: awaits_def)
  have keep: "bt_get (rs_schedules st2) i = Some s" if "bt_get (rs_schedules st) i = Some s" for i s
    using r2(1) that by (simp add: awaits_def)
  have step: "cell_of st' i = exact (rs_now_ms st') (bt_get (rs_schedules st') i) \<and>
      ready_count i (fs @ fs') = of_bool (c_ready_sent (cell_of st' i)) \<and>
      overdue_count i (fs @ fs') = of_bool (c_overdue_sent (cell_of st' i))" for i
  proof -
    obtain x where x: "cell_of st2 i = (cell_of st i)\<lparr>c_status := x\<rparr>"
        "bt_get (rs_schedules st2) i = None \<longrightarrow> x = c_status (cell_of st i)"
      using r2(1) unfolding awaits_def unshown_def by blast
    have cell: "cell_of st' i = (case bt_get (rs_schedules st2) i of
        Some s \<Rightarrow> shown (rs_now_ms st2) s (cell_of st2 i) | None \<Rightarrow> cell_of st2 i)"
      using f by (simp add: out(1) nv)
    have cnt: "ready_count i fs' = (case bt_get (rs_schedules st2) i of
        Some s \<Rightarrow> of_bool (due (rs_now_ms st2) s \<and> \<not> c_ready_sent (cell_of st2 i)) | None \<Rightarrow> 0)"
      "overdue_count i fs' = (case bt_get (rs_schedules st2) i of
        Some s \<Rightarrow> of_bool (late (rs_now_ms st2) s \<and> \<not> c_overdue_sent (cell_of st2 i)) | None \<Rightarrow> 0)"
      using f by (simp_all add: ready_count_def overdue_count_def out(2,3) nv)
    show ?thesis
    proof (cases "bt_get (rs_schedules st2) i")
      case None
      then have "bt_get (rs_schedules st) i = None" using keep by (cases "bt_get (rs_schedules st) i") auto
      with None x cell cnt rest(4-6) now show ?thesis by (simp add: exact_def)
    next
      case (Some s)
      then have old: "bt_get (rs_schedules st) i = Some s \<or> bt_get (rs_schedules st) i = None"
        using keep by (cases "bt_get (rs_schedules st) i") auto
      then have ex: "shown (rs_now_ms st2) s (cell_of st2 i) = exact (rs_now_ms st2) (Some s)"
        using x(1) rest(4) [of i] by (intro shown_exact [OF ne]) auto
      have cell': "cell_of st' i = exact (rs_now_ms st2) (Some s)" using cell Some ex by simp
      have sent: "c_ready_sent (cell_of st2 i) \<longrightarrow> due (rs_now_ms st2) s"
        "c_overdue_sent (cell_of st2 i) \<longrightarrow> late (rs_now_ms st2) s"
        using x(1) rest(4) [of i] old due_mono [OF ne] late_mono [OF ne] by (auto simp: exact_def)
      have same: "c_ready_sent (cell_of st2 i) = c_ready_sent (cell_of st i)"
        "c_overdue_sent (cell_of st2 i) = c_overdue_sent (cell_of st i)"
        using x(1) by simp_all
      show ?thesis
        using cell' Some now cnt rest(5,6) [of i] sent same by (auto simp: exact_def)
    qed
  qed
  have "timely (snd ev)" using f by blast
  then have "timely fs'" by (simp add: timely_def out)
  then have "timely (fs @ fs')" using rest(7) by simp
  moreover have "keyed st'"
    using keyed f by (simp add: keyed_def now out(1) [symmetric])
  moreover have "rs_now_ms st' = latest_clock (cs @ concat cb)"
    using now r2(2) r1(2) rest(2) by (simp add: latest_clock_def)
  ultimately show ?thesis
    using step now r2(3) r1(3) by (simp add: at_rest_def)
qed

lemma readiness_history_at_rest: "readiness_history E st ss cs fs \<Longrightarrow> at_rest E ss cs fs st"
proof (induction rule: readiness_history.induct)
  case readiness_start
  show ?case
    by (simp add: at_rest_def readiness_state_default_def keyed_def latest_clock_def first_schedule_def
        fun_eq_iff cell_of_def exact_def ready_count_def overdue_count_def timely_def)
next
  case (readiness_step st ss cs fs sb cb st' fs')
  then show ?case by (intro readiness_run_at_rest)
qed

lemma latest_clock_max: "latest_clock cs = (if cs = [] then None else Some (Max (ck_now_ms ` set cs)))"
proof (induction cs rule: rev_induct)
  case (snoc c cs)
  then show ?case
    by (cases "cs = []") (auto simp: latest_clock_def later_def max.commute)
qed (simp add: latest_clock_def)

lemma cell_fields:
  assumes "cell_of st i = c"
  shows "bt_get (rs_pending_by_id st) i \<noteq> None \<longleftrightarrow> c_pending c"
    "bt_get (rs_ready_by_id st) i \<noteq> None \<longleftrightarrow> c_ready c"
    "bt_get (rs_overdue_by_id st) i \<noteq> None \<longleftrightarrow> c_overdue c"
    "map_option st_state (bt_get (rs_status_by_id st) i) = c_status c"
  by (simp_all flip: assms add: cell_of_def)

text \<open>
  C25. The views of the projector are a function of its inputs. Its clock is the latest reading
  received, in whatever order they came; of the schedules with one id the first is kept; and an id
  is pending before its time, ready from its time on, overdue after its deadline, with the status
  to match.
\<close>

theorem readiness_views_exact:
  assumes "readiness_history E st ss cs fs"
  defines "now \<equiv> if cs = [] then None else Some (Max (ck_now_ms ` set cs))"
  shows "rs_now_ms st = now \<and> bt_get (rs_schedules st) = first_schedule E ss \<and>
    (\<forall>i. (bt_get (rs_pending_by_id st) i \<noteq> None \<longleftrightarrow> (\<exists>s. first_schedule E ss i = Some s \<and> \<not> due now s)) \<and>
      (bt_get (rs_ready_by_id st) i \<noteq> None \<longleftrightarrow> (\<exists>s. first_schedule E ss i = Some s \<and> due now s)) \<and>
      (bt_get (rs_overdue_by_id st) i \<noteq> None \<longleftrightarrow> (\<exists>s. first_schedule E ss i = Some s \<and> late now s)) \<and>
      map_option st_state (bt_get (rs_status_by_id st) i) = map_option (\<lambda>s.
        if late now s then StOverdue else if due now s then StReady else StPending) (first_schedule E ss i))"
proof -
  have r: "rs_now_ms st = now" "bt_get (rs_schedules st) = first_schedule E ss"
    "\<And>i. cell_of st i = exact now (first_schedule E ss i)"
    using readiness_history_at_rest [OF assms(1)] by (simp_all add: at_rest_def latest_clock_max now_def)
  show ?thesis
    unfolding cell_fields [OF r(3)] using r(1,2) by (simp add: exact_def split: option.split)
qed

text \<open>
  Each schedule is announced ready at most once, and at the latest in the run in which the
  clock reaches its time; likewise overdue; and never early: every ready fact carries a time at or
  after the ready time, every overdue fact one after the deadline.
\<close>

theorem readiness_announced_once_in_time:
  assumes "readiness_history E st ss cs fs"
  defines "now \<equiv> if cs = [] then None else Some (Max (ck_now_ms ` set cs))"
  shows "length (filter (\<lambda>r. rd_schedule_id r = i) (ready_node fs)) =
      of_bool (\<exists>s. first_schedule E ss i = Some s \<and> due now s) \<and>
    length (filter (\<lambda>v. ov_schedule_id v = i) (overdue_node fs)) =
      of_bool (\<exists>s. first_schedule E ss i = Some s \<and> late now s) \<and>
    (\<forall>r \<in> set (ready_node fs). rd_ready_at_ms r \<le> rd_now_ms r) \<and>
    (\<forall>v \<in> set (overdue_node fs). ov_deadline_ms v < ov_now_ms v)"
proof -
  have "cell_of st i = exact now (first_schedule E ss i)" "timely fs"
    "ready_count i fs = of_bool (c_ready_sent (cell_of st i))"
    "overdue_count i fs = of_bool (c_overdue_sent (cell_of st i))"
    using readiness_history_at_rest [OF assms(1)] by (simp_all add: at_rest_def latest_clock_max now_def)
  then show ?thesis
    by (auto simp: exact_def timely_def ready_count_def overdue_count_def split: option.splits)
qed

text \<open>
  The conflict status that a replayed schedule with other material raises is emitted, but no
  view ever shows it: the evaluation in the same run overwrites it.
\<close>

theorem conflict_status_never_viewed:
  assumes "readiness_history E st ss cs fs"
  shows "bt_get (rs_status_by_id st) i = Some x \<Longrightarrow> st_state x \<noteq> StIssue"
proof -
  assume x: "bt_get (rs_status_by_id st) i = Some x"
  have "cell_of st i = exact (rs_now_ms st) (bt_get (rs_schedules st) i)"
    using readiness_history_at_rest [OF assms] by (simp add: at_rest_def)
  from cell_fields(4) [OF this] x show "st_state x \<noteq> StIssue"
    by (auto simp: exact_def split: option.splits if_splits)
qed

subsection \<open>Concrete runs\<close>

definition demo_schedule :: "u64 \<Rightarrow> readiness_requested" where
  "demo_schedule t = \<lparr>rq_schedule_id = ''a'', rq_subject_refs = [], rq_ready_at_ms = t,
     rq_deadline_ms = Some (t + 5), rq_reason = None, rq_policy_refs = [], rq_source_refs = [],
     rq_metadata = None\<rparr>"

definition demo_tick :: "u64 \<Rightarrow> readiness_clock" where
  "demo_tick t = \<lparr>ck_clock_id = ''wall'', ck_now_ms = t, ck_source_refs = [], ck_metadata = None\<rparr>"

definition demo_env :: readiness_env where
  "demo_env = \<lparr>re_serde = \<lparr>str_to_json = \<lambda>s. Inr (CHR 0x22 # s @ [CHR 0x22]),
       str_from_json = \<lambda>t. Inr (butlast (tl t)), value_from_json = \<lambda>t. Inl [], float_text = \<lambda>f. ''0.5'',
       str_debug = \<lambda>s. s\<rparr>,
     re_tuple_key = esc_tuple, re_schedule_debug = \<lambda>s. to_string (rq_ready_at_ms s),
     re_status_debug = \<lambda>s. st_status_id s\<rparr>"

definition demo_readiness :: "readiness_requested list \<Rightarrow> readiness_clock list \<Rightarrow> emission" where
  "demo_readiness ss cs = readiness_run demo_env [ss] [cs] readiness_state_default"

lemma demo_readiness_history:
  "readiness_history demo_env (fst (demo_readiness ss cs)) ss cs (snd (demo_readiness ss cs))"
  using readiness_step [OF readiness_start, of demo_env "[ss]" "[cs]"]
  by (simp add: demo_readiness_def)

theorem readiness_views_exact_witness:
  "rs_now_ms (fst (demo_readiness [demo_schedule 10, demo_schedule 20] [demo_tick 17, demo_tick 12])) = Some 17 \<and>
   bt_get (rs_overdue_by_id (fst (demo_readiness [demo_schedule 10, demo_schedule 20] [demo_tick 17, demo_tick 12]))) ''a'' \<noteq> None"
  using readiness_views_exact [OF demo_readiness_history, of "[demo_schedule 10, demo_schedule 20]" "[demo_tick 17, demo_tick 12]"]
  by (simp add: first_schedule_def demo_schedule_def demo_tick_def late_def due_def sanitize_schedule_def)

theorem readiness_announced_once_in_time_witness:
  "length (filter (\<lambda>r. rd_schedule_id r = ''a'') (ready_node (snd (demo_readiness [demo_schedule 10] [demo_tick 12])))) = 1 \<and>
   filter (\<lambda>v. ov_schedule_id v = ''a'') (overdue_node (snd (demo_readiness [demo_schedule 10] [demo_tick 12]))) = []"
  using readiness_announced_once_in_time [OF demo_readiness_history, of "''a''" "[demo_schedule 10]" "[demo_tick 12]"]
  by (simp add: first_schedule_def demo_schedule_def demo_tick_def late_def due_def sanitize_schedule_def)

lemma demo_identity:
  assumes "2 ^ 53 \<le> unat t"
  shows "schedule_identity demo_env (sanitize_schedule demo_env (demo_schedule t)) = to_string t"
proof -
  have "int (2 ^ 53) \<le> int (unat t)" using assms by (simp only: of_nat_le_iff)
  then have t: "\<not> int (unat t) \<le> JS_MAX_SAFE_INTEGER" by (simp add: JS_MAX_SAFE_INTEGER_def)
  then have n: "\<exists>e. validate_number S (PosInt t) path = Inl e" for S path
    by (auto simp: validate_number_def int_range_check_def split: option.splits)
  then obtain e where "validate_number (re_serde demo_env) (PosInt t) ''$.readyAtMs'' = Inl e" by blast
  moreover obtain d where "validate_number (re_serde demo_env) (PosInt (t + 5)) ''$.deadlineMs'' = d" by blast
  ultimately have "\<exists>e. stable_json_string (re_serde demo_env) (JObject [
        (''deadlineMs'', json_of_u64 (t + 5)), (''metadata'', JNull), (''policyRefs'', JArray []),
        (''readyAtMs'', json_of_u64 t), (''reason'', JNull), (''scheduleId'', JString ''a''),
        (''sourceRefs'', JArray []), (''subjectRefs'', JArray [])]) = Inl e"
    by (cases d) (auto simp: stable_json_string_def validate_strict_json_value_def json_of_u64_def
        member_path_def)
  then show ?thesis
    by (auto simp: schedule_identity_def demo_schedule_def sanitize_schedule_def
        canonical_source_refs_def source_refs_json_def json_of_option_def metadata_json_def
        sanitize_metadata_def demo_env_def)
qed

theorem conflict_status_never_viewed_witness:
  "(let ss = [demo_schedule (2 ^ 60), demo_schedule (2 ^ 61)] in
     (\<exists>s \<in> set (readiness_status_node (snd (for_each (retain_schedule demo_env) ss readiness_state_default))).
        st_state s = StIssue) \<and>
     (\<exists>x. bt_get (rs_status_by_id (fst (demo_readiness ss []))) ''a'' = Some x \<and> st_state x \<noteq> StIssue))"
proof -
  let ?ss = "[demo_schedule (2 ^ 60), demo_schedule (2 ^ 61)]"
  have i: "schedule_identity demo_env (sanitize_schedule demo_env (demo_schedule (2 ^ 60))) \<noteq>
      schedule_identity demo_env (sanitize_schedule demo_env (demo_schedule (2 ^ 61)))"
    by (simp add: demo_identity)
  have "\<exists>s \<in> set (readiness_status_node (snd (for_each (retain_schedule demo_env) ?ss readiness_state_default))).
        st_state s = StIssue"
    using i
    by (simp add: retain_schedule_def Let_def readiness_state_default_def demo_schedule_def
        emit_issue_def emit_status_def readiness_status_node_def project_fact_def
        List.map_filter_simps sanitize_schedule_def)
  moreover have "\<exists>x. bt_get (rs_status_by_id (fst (demo_readiness ?ss []))) ''a'' = Some x"
  proof -
    have rest: "at_rest demo_env ?ss [] (snd (demo_readiness ?ss [])) (fst (demo_readiness ?ss []))"
      by (rule readiness_history_at_rest [OF demo_readiness_history])
    then have "cell_of (fst (demo_readiness ?ss [])) ''a'' =
        exact None (Some (sanitize_schedule demo_env (demo_schedule (2 ^ 60))))"
      by (simp add: at_rest_def latest_clock_def first_schedule_def demo_schedule_def)
    from cell_fields(4) [OF this] show ?thesis by (auto simp: exact_def)
  qed
  ultimately show ?thesis
    using conflict_status_never_viewed [OF demo_readiness_history, of ?ss "[]" "''a''"]
    by (auto simp: Let_def)
qed

end
