(* ===== verification/Process.thy ===== *)
theory Process
  imports Messaging UserCode
begin

text \<open>
  The process bundle of \<open>process.rs\<close>: the runtime node that reduces commands to states, events
  and effect requests, with its persisted state; the nodes that read its facts; the effect runner
  that turns the outcomes of effects back into commands; and the list of command sources. The
  reducer, the clock and the payload mapping are user code over a world \<open>'w\<close>; the serialisation
  of the user's state is a parameter.
\<close>

subsection \<open>Commands, events and effect requests\<close>

record 'c process_command =
  pc_id :: string
  pc_command_type :: string
  pc_payload :: 'c
  pc_process_id :: "string option"
  pc_correlation_id :: "string option"
  pc_causation_id :: "string option"

definition process_command_new :: "string \<Rightarrow> string \<Rightarrow> 'c \<Rightarrow> 'c process_command" where
  "process_command_new i t p = \<lparr>pc_id = i, pc_command_type = t, pc_payload = p,
     pc_process_id = None, pc_correlation_id = None, pc_causation_id = None\<rparr>"

record 'e process_event_draft =
  vd_id :: "string option"
  vd_event_type :: string
  vd_payload :: 'e
  vd_process_id :: "string option"
  vd_correlation_id :: "string option"
  vd_causation_id :: "string option"

definition process_event_draft_new :: "string \<Rightarrow> 'e \<Rightarrow> 'e process_event_draft" where
  "process_event_draft_new t p = \<lparr>vd_id = None, vd_event_type = t, vd_payload = p,
     vd_process_id = None, vd_correlation_id = None, vd_causation_id = None\<rparr>"

record 'e process_event =
  pv_id :: string
  pv_event_type :: string
  pv_seq :: u64
  pv_cursor :: u64
  pv_command_id :: string
  pv_command_type :: string
  pv_payload :: 'e
  pv_timestamp_ms :: u64
  pv_process_id :: "string option"
  pv_correlation_id :: "string option"
  pv_causation_id :: "string option"

record 'f process_effect_request_draft =
  fd_id :: "string option"
  fd_effect_type :: string
  fd_payload :: 'f
  fd_process_id :: "string option"
  fd_correlation_id :: "string option"
  fd_causation_id :: "string option"

definition process_effect_request_draft_new :: "string \<Rightarrow> 'f \<Rightarrow> 'f process_effect_request_draft" where
  "process_effect_request_draft_new t p = \<lparr>fd_id = None, fd_effect_type = t, fd_payload = p,
     fd_process_id = None, fd_correlation_id = None, fd_causation_id = None\<rparr>"

record 'f process_effect_request =
  fx_id :: string
  fx_effect_type :: string
  fx_seq :: u64
  fx_cursor :: u64
  fx_command_id :: string
  fx_command_type :: string
  fx_payload :: 'f
  fx_timestamp_ms :: u64
  fx_process_id :: "string option"
  fx_correlation_id :: "string option"
  fx_causation_id :: "string option"

subsection \<open>Errors, statuses and facts\<close>

datatype process_error_code =
    MalformedCommand | ReducerThrew | ClockThrew | MalformedState | MalformedEvent | MalformedEffect

record process_cursor =
  px_event_seq :: u64
  px_effect_seq :: u64
  px_command_count :: u64
  px_error_count :: u64
  px_audit_seq :: u64

record 'c process_error =
  pe_code :: process_error_code
  pe_message :: string
  pe_command :: "'c process_command option"
  pe_cursor :: process_cursor

datatype process_status_state = Accepted | Rejected

record process_status =
  ps_state :: process_status_state
  ps_command_id :: "string option"
  ps_command_type :: "string option"
  ps_event_count :: nat
  ps_effect_count :: nat
  ps_error_code :: "process_error_code option"
  ps_cursor :: process_cursor

datatype process_audit_outcome = AuditSuccess | AuditFailure

record process_audit_record =
  pa_seq :: u64
  pa_command_id :: "string option"
  pa_command_type :: "string option"
  pa_outcome :: process_audit_outcome
  pa_event_ids :: "string list"
  pa_event_types :: "string list"
  pa_effect_ids :: "string list"
  pa_effect_types :: "string list"
  pa_error_code :: "process_error_code option"
  pa_error_message :: "string option"
  pa_cursor :: process_cursor

datatype ('s, 'e, 'f, 'c) process_runtime_fact =
    FactState 's process_cursor
  | FactEvent "'e process_event"
  | FactEffectRequest "'f process_effect_request"
  | FactStatus process_status
  | FactError "'c process_error"
  | FactAudit process_audit_record
  | FactCursor process_cursor

record ('s, 'e, 'f) process_reduction =
  re_state :: 's
  re_events :: "'e process_event_draft list"
  re_effects :: "'f process_effect_request_draft list"

definition process_reduction_new :: "'s \<Rightarrow> ('s, 'e, 'f) process_reduction" where
  "process_reduction_new st = \<lparr>re_state = st, re_events = [], re_effects = []\<rparr>"

definition with_events ::
  "'e process_event_draft list \<Rightarrow> ('s, 'e, 'f) process_reduction \<Rightarrow> ('s, 'e, 'f) process_reduction" where
  "with_events events r = r\<lparr>re_events := events\<rparr>"

definition with_effects ::
  "'f process_effect_request_draft list \<Rightarrow> ('s, 'e, 'f) process_reduction \<Rightarrow> ('s, 'e, 'f) process_reduction" where
  "with_effects effects r = r\<lparr>re_effects := effects\<rparr>"

subsection \<open>Runtime state\<close>

record process_runtime_state =
  pr_event_seq :: u64
  pr_effect_seq :: u64
  pr_command_count :: u64
  pr_error_count :: u64
  pr_audit_seq :: u64
  pr_seen_event_ids :: "string list"
  pr_seen_effect_ids :: "string list"
  pr_state :: json

definition runtime_state_new :: "json \<Rightarrow> process_runtime_state" where
  "runtime_state_new st = \<lparr>pr_event_seq = 0, pr_effect_seq = 0, pr_command_count = 0,
     pr_error_count = 0, pr_audit_seq = 0, pr_seen_event_ids = [], pr_seen_effect_ids = [],
     pr_state = st\<rparr>"

definition cursor_recovery :: "json \<Rightarrow> process_runtime_state" where
  "cursor_recovery st = runtime_state_new st"

fun json_as_u64 :: "json \<Rightarrow> u64 option" where
  "json_as_u64 (JNumber n) = as_u64 n"
| "json_as_u64 _ = None"

definition json_required_u64 :: "json \<Rightarrow> string \<Rightarrow> string + u64" where
  "json_required_u64 value key =
     (case Option.bind (json_get value key) json_as_u64 of
        Some n \<Rightarrow> Inr n
      | None \<Rightarrow> Inl (''process_bundle: runtime state field '' @ quoted key @ '' must be an unsigned integer''))"

definition not_string_array :: "string \<Rightarrow> string" where
  "not_string_array key =
     ''process_bundle: runtime state field '' @ quoted key @ '' must be an array of strings''"

definition json_required_string_array :: "json \<Rightarrow> string \<Rightarrow> string + string list" where
  "json_required_string_array value key =
     (case json_get value key of
        Some (JArray items) \<Rightarrow>
          collect_results (\<lambda>item. case as_str item of
            Some s \<Rightarrow> Inr s | None \<Rightarrow> Inl (not_string_array key)) items
      | _ \<Rightarrow> Inl (not_string_array key))"

definition runtime_state_from_json :: "json \<Rightarrow> string + process_runtime_state" where
  "runtime_state_from_json value =
     rbind (json_required_u64 value ''eventSeq'') (\<lambda>event_seq.
     rbind (json_required_u64 value ''effectSeq'') (\<lambda>effect_seq.
     rbind (json_required_u64 value ''commandCount'') (\<lambda>command_count.
     rbind (json_required_u64 value ''errorCount'') (\<lambda>error_count.
     rbind (json_required_u64 value ''auditSeq'') (\<lambda>audit_seq.
     rbind (json_required_string_array value ''seenEventIds'') (\<lambda>seen_event_ids.
     rbind (json_required_string_array value ''seenEffectIds'') (\<lambda>seen_effect_ids.
     rbind (case json_get value ''state'' of Some st \<Rightarrow> Inr st
            | None \<Rightarrow> Inl (''process_bundle: runtime state missing '' @ quoted ''state'')) (\<lambda>st.
       Inr \<lparr>pr_event_seq = event_seq, pr_effect_seq = effect_seq, pr_command_count = command_count,
         pr_error_count = error_count, pr_audit_seq = audit_seq, pr_seen_event_ids = seen_event_ids,
         pr_seen_effect_ids = seen_effect_ids, pr_state = st\<rparr>))))))))"

text \<open>The entries are in the order of the keys, as a map keeps them.\<close>

definition runtime_state_to_json :: "process_runtime_state \<Rightarrow> json" where
  "runtime_state_to_json st = JObject [
     (''auditSeq'', JNumber (PosInt (pr_audit_seq st))),
     (''commandCount'', JNumber (PosInt (pr_command_count st))),
     (''effectSeq'', JNumber (PosInt (pr_effect_seq st))),
     (''errorCount'', JNumber (PosInt (pr_error_count st))),
     (''eventSeq'', JNumber (PosInt (pr_event_seq st))),
     (''seenEffectIds'', JArray (map JString (pr_seen_effect_ids st))),
     (''seenEventIds'', JArray (map JString (pr_seen_event_ids st))),
     (''state'', pr_state st)]"

definition cursor_of :: "process_runtime_state \<Rightarrow> process_cursor" where
  "cursor_of st = \<lparr>px_event_seq = pr_event_seq st, px_effect_seq = pr_effect_seq st,
     px_command_count = pr_command_count st, px_error_count = pr_error_count st,
     px_audit_seq = pr_audit_seq st\<rparr>"

subsection \<open>Configuration\<close>

type_synonym ('w, 'c, 's, 'e, 'f) process_reducer =
  "'c process_command \<Rightarrow> 's \<Rightarrow> ('w, ('s, 'e, 'f) process_reduction) user_call"

record ('w, 'c, 's, 'e, 'f) process_bundle_options =
  po_name :: string
  po_initial_state :: 's
  po_reduce :: "('w, 'c, 's, 'e, 'f) process_reducer"
  po_now :: "('w, u64) user_call"

definition process_bundle_options_new ::
  "'s \<Rightarrow> ('w, 'c, 's, 'e, 'f) process_reducer \<Rightarrow> ('w, 'c, 's, 'e, 'f) process_bundle_options" where
  "process_bundle_options_new initial_state reduce = \<lparr>po_name = ''process'',
     po_initial_state = initial_state, po_reduce = reduce, po_now = \<lambda>w. (Inr 0, w)\<rparr>"

text \<open>
  \<open>to_value\<close> and \<open>from_value\<close> of \<open>serde_json\<close> at the type of the user's state, and the tuple
  keys. \<open>pf_initial\<close> is the serialised initial state.
\<close>

record ('w, 'c, 's, 'e, 'f) process_config =
  pf_tuple_key :: tuple_key
  pf_to_value :: "'s \<Rightarrow> string + json"
  pf_from_value :: "json \<Rightarrow> string + 's"
  pf_initial :: json
  pf_reduce :: "('w, 'c, 's, 'e, 'f) process_reducer"
  pf_now :: "('w, u64) user_call"

definition state_to_json :: "('s \<Rightarrow> string + json) \<Rightarrow> 's \<Rightarrow> string + json" where
  "state_to_json to_value st =
     (case to_value st of Inr j \<Rightarrow> Inr j | Inl e \<Rightarrow> Inl (''state must serialize to JSON ('' @ e @ '')''))"

definition state_from_json :: "(json \<Rightarrow> string + 's) \<Rightarrow> json \<Rightarrow> string + 's" where
  "state_from_json from_value j =
     (case from_value j of Inr st \<Rightarrow> Inr st | Inl e \<Rightarrow> Inl (''state must deserialize from JSON ('' @ e @ '')''))"

text \<open>Building a bundle panics with \<open>Inl\<close> on an empty name or a state that does not serialise.\<close>

definition process_configure ::
  "tuple_key \<Rightarrow> ('s \<Rightarrow> string + json) \<Rightarrow> (json \<Rightarrow> string + 's) \<Rightarrow>
   ('w, 'c, 's, 'e, 'f) process_bundle_options \<Rightarrow> string + ('w, 'c, 's, 'e, 'f) process_config" where
  "process_configure tk to_value from_value opts =
     (if po_name opts = [] then Inl ''process_bundle: name must be non-empty''
      else case state_to_json to_value (po_initial_state opts) of
        Inl message \<Rightarrow> Inl (''process_bundle: '' @ message)
      | Inr initial \<Rightarrow> Inr \<lparr>pf_tuple_key = tk, pf_to_value = to_value, pf_from_value = from_value,
          pf_initial = initial, pf_reduce = po_reduce opts, pf_now = po_now opts\<rparr>)"

definition process_timestamp :: "('w, u64) user_call \<Rightarrow> 'w \<Rightarrow> (string + u64) \<times> 'w" where
  "process_timestamp now w =
     (case now w of
        (Inr t, w) \<Rightarrow> (Inr t, w)
      | (Inl panic, w) \<Rightarrow> (Inl (''process_bundle: now() threw: '' @ panic_message panic), w))"

subsection \<open>Commands to facts\<close>

definition audit_record ::
  "process_runtime_state \<Rightarrow> 'c process_command option \<Rightarrow> process_audit_outcome \<Rightarrow> 'e process_event list \<Rightarrow>
   'f process_effect_request list \<Rightarrow> process_error_code option \<Rightarrow> string option \<Rightarrow>
   process_runtime_state \<times> process_audit_record" where
  "audit_record st command outcome events effects error_code error_message =
     (let st = st\<lparr>pr_audit_seq := pr_audit_seq st + 1\<rparr> in
      (st, \<lparr>pa_seq = pr_audit_seq st, pa_command_id = map_option pc_id command,
        pa_command_type = map_option pc_command_type command, pa_outcome = outcome,
        pa_event_ids = map pv_id events, pa_event_types = map pv_event_type events,
        pa_effect_ids = map fx_id effects, pa_effect_types = map fx_effect_type effects,
        pa_error_code = error_code, pa_error_message = error_message, pa_cursor = cursor_of st\<rparr>))"

definition failure ::
  "process_runtime_state \<Rightarrow> 'c process_command option \<Rightarrow> process_error_code \<Rightarrow> string \<Rightarrow>
   process_runtime_state \<times> ('s, 'e, 'f, 'c) process_runtime_fact list" where
  "failure st command code message =
     (let st = st\<lparr>pr_error_count := pr_error_count st + 1\<rparr>;
          cursor = cursor_of st;
          (st', audit) = audit_record st command AuditFailure ([] :: 'e process_event list)
            ([] :: 'f process_effect_request list) (Some code) (Some message) in
      (st',
       [FactError \<lparr>pe_code = code, pe_message = message, pe_command = command, pe_cursor = cursor\<rparr>,
        FactStatus \<lparr>ps_state = Rejected, ps_command_id = map_option pc_id command,
          ps_command_type = map_option pc_command_type command, ps_event_count = 0,
          ps_effect_count = 0, ps_error_code = Some code, ps_cursor = cursor\<rparr>,
        FactAudit audit,
        FactCursor (cursor_of st')]))"

record 'e prepared_event =
  ve_id :: string
  ve_event_type :: string
  ve_payload :: 'e
  ve_process_id :: "string option"
  ve_correlation_id :: "string option"
  ve_causation_id :: "string option"

record 'f prepared_effect =
  fe_id :: string
  fe_effect_type :: string
  fe_payload :: 'f
  fe_process_id :: "string option"
  fe_correlation_id :: "string option"
  fe_causation_id :: "string option"

text \<open>
  A draft without an id, or with an empty one, is named by the command and the number the record
  will get; \<open>seq\<close> is the counter and \<open>index\<close> the position of the draft.
\<close>

definition draft_id :: "tuple_key \<Rightarrow> string \<Rightarrow> 'c process_command \<Rightarrow> u64 \<Rightarrow> nat \<Rightarrow> string option \<Rightarrow> string" where
  "draft_id tk prefix command seq index given =
     (let made = compound_tuple_key tk prefix [pc_id command, to_string (seq + of_nat index + 1)] in
      case given of Some i \<Rightarrow> if i \<noteq> [] then i else made | None \<Rightarrow> made)"

fun prepare_events_loop ::
  "tuple_key \<Rightarrow> 'c process_command \<Rightarrow> process_runtime_state \<Rightarrow> nat \<Rightarrow> 'e process_event_draft list \<Rightarrow>
   string list \<Rightarrow> string + 'e prepared_event list" where
  "prepare_events_loop tk command st index [] seen = Inr []"
| "prepare_events_loop tk command st index (draft # drafts) seen =
     (if vd_event_type draft = [] then Inl ''process_bundle: event draft must have a non-empty type''
      else
        (let i = draft_id tk ''process-event'' command (pr_event_seq st) index (vd_id draft) in
         if i \<in> set seen \<or> i \<in> set (pr_seen_event_ids st)
         then Inl (''process_bundle: duplicate event '' @ quoted i)
         else
           rbind (prepare_events_loop tk command st (Suc index) drafts (seen @ [i]))
             (\<lambda>rest. Inr (\<lparr>ve_id = i, ve_event_type = vd_event_type draft, ve_payload = vd_payload draft,
                ve_process_id = vd_process_id draft, ve_correlation_id = vd_correlation_id draft,
                ve_causation_id = vd_causation_id draft\<rparr> # rest))))"

definition prepare_events ::
  "tuple_key \<Rightarrow> 'c process_command \<Rightarrow> 'e process_event_draft list \<Rightarrow> process_runtime_state \<Rightarrow>
   string + 'e prepared_event list" where
  "prepare_events tk command drafts st = prepare_events_loop tk command st 0 drafts []"

fun prepare_effects_loop ::
  "tuple_key \<Rightarrow> 'c process_command \<Rightarrow> process_runtime_state \<Rightarrow> nat \<Rightarrow> 'f process_effect_request_draft list \<Rightarrow>
   string list \<Rightarrow> string + 'f prepared_effect list" where
  "prepare_effects_loop tk command st index [] seen = Inr []"
| "prepare_effects_loop tk command st index (draft # drafts) seen =
     (if fd_effect_type draft = [] then Inl ''process_bundle: effect draft must have a non-empty type''
      else
        (let i = draft_id tk ''process-effect'' command (pr_effect_seq st) index (fd_id draft) in
         if i \<in> set seen \<or> i \<in> set (pr_seen_effect_ids st)
         then Inl (''process_bundle: duplicate effect '' @ quoted i)
         else
           rbind (prepare_effects_loop tk command st (Suc index) drafts (seen @ [i]))
             (\<lambda>rest. Inr (\<lparr>fe_id = i, fe_effect_type = fd_effect_type draft, fe_payload = fd_payload draft,
                fe_process_id = fd_process_id draft, fe_correlation_id = fd_correlation_id draft,
                fe_causation_id = fd_causation_id draft\<rparr> # rest))))"

definition prepare_effects ::
  "tuple_key \<Rightarrow> 'c process_command \<Rightarrow> 'f process_effect_request_draft list \<Rightarrow> process_runtime_state \<Rightarrow>
   string + 'f prepared_effect list" where
  "prepare_effects tk command drafts st = prepare_effects_loop tk command st 0 drafts []"

fun append_events ::
  "'c process_command \<Rightarrow> u64 \<Rightarrow> 'e prepared_event list \<Rightarrow> process_runtime_state \<Rightarrow>
   process_runtime_state \<times> 'e process_event list" where
  "append_events command timestamp_ms [] st = (st, [])"
| "append_events command timestamp_ms (draft # drafts) st =
     (let st = st\<lparr>pr_event_seq := pr_event_seq st + 1,
            pr_seen_event_ids := pr_seen_event_ids st @ [ve_id draft]\<rparr>;
          event = \<lparr>pv_id = ve_id draft, pv_event_type = ve_event_type draft,
            pv_seq = pr_event_seq st, pv_cursor = pr_event_seq st, pv_command_id = pc_id command,
            pv_command_type = pc_command_type command, pv_payload = ve_payload draft,
            pv_timestamp_ms = timestamp_ms, pv_process_id = ve_process_id draft,
            pv_correlation_id = ve_correlation_id draft, pv_causation_id = ve_causation_id draft\<rparr>;
          (st, events) = append_events command timestamp_ms drafts st in
      (st, event # events))"

fun append_effects ::
  "'c process_command \<Rightarrow> u64 \<Rightarrow> 'f prepared_effect list \<Rightarrow> process_runtime_state \<Rightarrow>
   process_runtime_state \<times> 'f process_effect_request list" where
  "append_effects command timestamp_ms [] st = (st, [])"
| "append_effects command timestamp_ms (draft # drafts) st =
     (let st = st\<lparr>pr_effect_seq := pr_effect_seq st + 1,
            pr_seen_effect_ids := pr_seen_effect_ids st @ [fe_id draft]\<rparr>;
          effect = \<lparr>fx_id = fe_id draft, fx_effect_type = fe_effect_type draft,
            fx_seq = pr_effect_seq st, fx_cursor = pr_effect_seq st, fx_command_id = pc_id command,
            fx_command_type = pc_command_type command, fx_payload = fe_payload draft,
            fx_timestamp_ms = timestamp_ms, fx_process_id = fe_process_id draft,
            fx_correlation_id = fe_correlation_id draft, fx_causation_id = fe_causation_id draft\<rparr>;
          (st, effects) = append_effects command timestamp_ms drafts st in
      (st, effect # effects))"

definition accept ::
  "process_runtime_state \<Rightarrow> 'c process_command \<Rightarrow> json \<Rightarrow> 's \<Rightarrow> u64 \<Rightarrow> 'e prepared_event list \<Rightarrow>
   'f prepared_effect list \<Rightarrow> process_runtime_state \<times> ('s, 'e, 'f, 'c) process_runtime_fact list" where
  "accept st command next_state_json visible_state timestamp_ms prepared_events prepared_effects =
     (let st = st\<lparr>pr_state := next_state_json\<rparr>;
          state_fact = FactState visible_state (cursor_of st);
          (st, events) = append_events command timestamp_ms prepared_events st;
          (st, effects) = append_effects command timestamp_ms prepared_effects st;
          status = \<lparr>ps_state = Accepted, ps_command_id = Some (pc_id command),
            ps_command_type = Some (pc_command_type command), ps_event_count = length events,
            ps_effect_count = length effects, ps_error_code = None, ps_cursor = cursor_of st\<rparr>;
          (st, audit) = audit_record st (Some command) AuditSuccess events effects None None in
      (st, [state_fact] @ map FactEvent events @ map FactEffectRequest effects @
        [FactStatus status, FactAudit audit, FactCursor (cursor_of st)]))"

text \<open>
  \<open>Inl\<close> is a panic of the graph runtime in the reducer, which is not caught: the call unwinds.
\<close>

definition reduce_process_command_fact ::
  "('w, 'c, 's, 'e, 'f) process_config \<Rightarrow> process_runtime_state \<Rightarrow> 'c process_command \<Rightarrow> 'w \<Rightarrow>
   (panic_payload + process_runtime_state \<times> ('s, 'e, 'f, 'c) process_runtime_fact list) \<times> 'w" where
  "reduce_process_command_fact cf st0 command w =
     (let st = st0\<lparr>pr_command_count := pr_command_count st0 + 1\<rparr> in
      if pc_id command = []
      then (Inr (failure st (Some command) MalformedCommand ''process_bundle: command id must be non-empty''), w)
      else if pc_command_type command = []
      then (Inr (failure st (Some command) MalformedCommand ''process_bundle: command type must be non-empty''), w)
      else
        (case state_from_json (pf_from_value cf) (pr_state st) of
           Inl message \<Rightarrow> (Inr (failure st (Some command) MalformedState message), w)
         | Inr reducer_state \<Rightarrow>
             (case pf_reduce cf command reducer_state w of
                (Inl panic, w) \<Rightarrow>
                  if is_graph_runtime_panic panic then (Inl panic, w)
                  else (Inr (failure st (Some command) ReducerThrew (panic_message panic)), w)
              | (Inr reduction, w) \<Rightarrow>
                  (case state_to_json (pf_to_value cf) (re_state reduction) of
                     Inl message \<Rightarrow> (Inr (failure st (Some command) MalformedState message), w)
                   | Inr next_state_json \<Rightarrow>
                       (case state_from_json (pf_from_value cf) next_state_json of
                          Inl message \<Rightarrow> (Inr (failure st (Some command) MalformedState message), w)
                        | Inr visible_state \<Rightarrow>
                            (case prepare_events (pf_tuple_key cf) command (re_events reduction) st of
                               Inl message \<Rightarrow> (Inr (failure st (Some command) MalformedEvent message), w)
                             | Inr prepared_events \<Rightarrow>
                                 (case prepare_effects (pf_tuple_key cf) command (re_effects reduction) st of
                                    Inl message \<Rightarrow> (Inr (failure st (Some command) MalformedEffect message), w)
                                  | Inr prepared_effects \<Rightarrow>
                                      (case process_timestamp (pf_now cf) w of
                                         (Inl message, w) \<Rightarrow>
                                           (Inr (failure st (Some command) ClockThrew message), w)
                                       | (Inr timestamp_ms, w) \<Rightarrow>
                                           (Inr (accept st command next_state_json visible_state
                                             timestamp_ms prepared_events prepared_effects), w)))))))))"

text \<open>
  The function of the runtime node: the facts it emits, the state it has stored, and the panic that
  unwinds through it, if any. The state is stored after every command. When the stored state does
  not decode, every command is refused with a recovery state that is never stored.
\<close>

fun process_runtime_loop ::
  "('w, 'c, 's, 'e, 'f) process_config \<Rightarrow> process_runtime_state \<Rightarrow> json option \<Rightarrow> 'c process_command list \<Rightarrow> 'w \<Rightarrow>
   ('s, 'e, 'f, 'c) process_runtime_fact list \<times> json option \<times> panic_payload option \<times> 'w" where
  "process_runtime_loop cf st stored [] w = ([], stored, None, w)"
| "process_runtime_loop cf st stored (command # commands) w =
     (case reduce_process_command_fact cf st command w of
        (Inl panic, w) \<Rightarrow> ([], stored, Some panic, w)
      | (Inr (st, facts), w) \<Rightarrow>
          (let (rest, s, p, w) = process_runtime_loop cf st (Some (runtime_state_to_json st)) commands w in
           (facts @ rest, s, p, w)))"

fun refuse_all ::
  "process_runtime_state \<Rightarrow> string \<Rightarrow> 'c process_command list \<Rightarrow> ('s, 'e, 'f, 'c) process_runtime_fact list" where
  "refuse_all recovery message [] = []"
| "refuse_all recovery message (command # commands) =
     (let (recovery, facts) = failure recovery (Some command) MalformedState message in
      facts @ refuse_all recovery message commands)"

definition process_runtime_body ::
  "('w, 'c, 's, 'e, 'f) process_config \<Rightarrow> json option \<Rightarrow> 'c process_command list \<Rightarrow> 'w \<Rightarrow>
   ('s, 'e, 'f, 'c) process_runtime_fact list \<times> json option \<times> panic_payload option \<times> 'w" where
  "process_runtime_body cf stored commands w =
     (case stored of
        None \<Rightarrow> process_runtime_loop cf (runtime_state_new (pf_initial cf)) stored commands w
      | Some value \<Rightarrow>
          (case runtime_state_from_json value of
             Inr st \<Rightarrow> process_runtime_loop cf st stored commands w
           | Inl message \<Rightarrow>
               (refuse_all (cursor_recovery (pf_initial cf)) message commands, stored, None, w)))"

subsection \<open>Readers of the facts\<close>

definition runtime_projection ::
  "(('s, 'e, 'f, 'c) process_runtime_fact \<Rightarrow> 'o option) \<Rightarrow> ('s, 'e, 'f, 'c) process_runtime_fact list \<Rightarrow> 'o list" where
  "runtime_projection select facts = List.map_filter select facts"

definition states_of :: "('s, 'e, 'f, 'c) process_runtime_fact list \<Rightarrow> 's list" where
  "states_of = runtime_projection (\<lambda>f. case f of FactState s _ \<Rightarrow> Some s | _ \<Rightarrow> None)"

definition events_of :: "('s, 'e, 'f, 'c) process_runtime_fact list \<Rightarrow> 'e process_event list" where
  "events_of = runtime_projection (\<lambda>f. case f of FactEvent e \<Rightarrow> Some e | _ \<Rightarrow> None)"

definition audits_of :: "('s, 'e, 'f, 'c) process_runtime_fact list \<Rightarrow> process_audit_record list" where
  "audits_of = runtime_projection (\<lambda>f. case f of FactAudit a \<Rightarrow> Some a | _ \<Rightarrow> None)"

definition effect_requests_of :: "('s, 'e, 'f, 'c) process_runtime_fact list \<Rightarrow> 'f process_effect_request list" where
  "effect_requests_of = runtime_projection (\<lambda>f. case f of FactEffectRequest x \<Rightarrow> Some x | _ \<Rightarrow> None)"

definition statuses_of :: "('s, 'e, 'f, 'c) process_runtime_fact list \<Rightarrow> process_status list" where
  "statuses_of = runtime_projection (\<lambda>f. case f of FactStatus s \<Rightarrow> Some s | _ \<Rightarrow> None)"

definition errors_of :: "('s, 'e, 'f, 'c) process_runtime_fact list \<Rightarrow> 'c process_error list" where
  "errors_of = runtime_projection (\<lambda>f. case f of FactError e \<Rightarrow> Some e | _ \<Rightarrow> None)"

definition cursors_of :: "('s, 'e, 'f, 'c) process_runtime_fact list \<Rightarrow> process_cursor list" where
  "cursors_of = runtime_projection (\<lambda>f. case f of FactCursor c \<Rightarrow> Some c | _ \<Rightarrow> None)"

end
