(* ===== verification/ProcessRunner.thy ===== *)
theory ProcessRunner
  imports Process
begin

text \<open>
  The effect runner of \<open>process.rs\<close>: outcomes of effects are checked and turned into commands
  for the process, with a status per request and outcome; and the command node of a process, whose
  sources runners attach and detach.
\<close>

subsection \<open>Outcomes and commands\<close>

datatype process_effect_outcome_kind = OutcomeResult | OutcomeFailure | OutcomeCancel | OutcomeTimeout

datatype process_effect_command_type = CommandResult | CommandFailure | CommandCancel | CommandTimeout

fun command_type_as_str :: "process_effect_command_type \<Rightarrow> string" where
  "command_type_as_str CommandResult = ''effect.result''"
| "command_type_as_str CommandFailure = ''effect.failure''"
| "command_type_as_str CommandCancel = ''effect.cancel''"
| "command_type_as_str CommandTimeout = ''effect.timeout''"

record 'r process_effect_outcome =
  oc_kind :: process_effect_outcome_kind
  oc_effect_id :: string
  oc_effect_type :: string
  oc_value :: "'r option"
  oc_error :: "string option"
  oc_reason :: "string option"
  oc_command_id :: "string option"
  oc_process_id :: "string option"
  oc_correlation_id :: "string option"
  oc_causation_id :: "string option"

definition outcome_result :: "string \<Rightarrow> string \<Rightarrow> 'r \<Rightarrow> 'r process_effect_outcome" where
  "outcome_result i t v = \<lparr>oc_kind = OutcomeResult, oc_effect_id = i, oc_effect_type = t,
     oc_value = Some v, oc_error = None, oc_reason = None, oc_command_id = None,
     oc_process_id = None, oc_correlation_id = None, oc_causation_id = None\<rparr>"

definition outcome_failure :: "string \<Rightarrow> string \<Rightarrow> string \<Rightarrow> 'r process_effect_outcome" where
  "outcome_failure i t e = \<lparr>oc_kind = OutcomeFailure, oc_effect_id = i, oc_effect_type = t,
     oc_value = None, oc_error = Some e, oc_reason = None, oc_command_id = None,
     oc_process_id = None, oc_correlation_id = None, oc_causation_id = None\<rparr>"

definition outcome_cancel :: "string \<Rightarrow> string \<Rightarrow> 'r process_effect_outcome" where
  "outcome_cancel i t = \<lparr>oc_kind = OutcomeCancel, oc_effect_id = i, oc_effect_type = t,
     oc_value = None, oc_error = None, oc_reason = None, oc_command_id = None,
     oc_process_id = None, oc_correlation_id = None, oc_causation_id = None\<rparr>"

definition outcome_timeout :: "string \<Rightarrow> string \<Rightarrow> string \<Rightarrow> 'r process_effect_outcome" where
  "outcome_timeout i t e = \<lparr>oc_kind = OutcomeTimeout, oc_effect_id = i, oc_effect_type = t,
     oc_value = None, oc_error = Some e, oc_reason = None, oc_command_id = None,
     oc_process_id = None, oc_correlation_id = None, oc_causation_id = None\<rparr>"

definition with_command_id :: "string \<Rightarrow> 'r process_effect_outcome \<Rightarrow> 'r process_effect_outcome" where
  "with_command_id i oc = oc\<lparr>oc_command_id := Some i\<rparr>"

definition with_process_id :: "string \<Rightarrow> 'r process_effect_outcome \<Rightarrow> 'r process_effect_outcome" where
  "with_process_id i oc = oc\<lparr>oc_process_id := Some i\<rparr>"

definition with_correlation_id :: "string \<Rightarrow> 'r process_effect_outcome \<Rightarrow> 'r process_effect_outcome" where
  "with_correlation_id i oc = oc\<lparr>oc_correlation_id := Some i\<rparr>"

definition with_causation_id :: "string \<Rightarrow> 'r process_effect_outcome \<Rightarrow> 'r process_effect_outcome" where
  "with_causation_id i oc = oc\<lparr>oc_causation_id := Some i\<rparr>"

definition with_reason :: "string \<Rightarrow> 'r process_effect_outcome \<Rightarrow> 'r process_effect_outcome" where
  "with_reason r oc = oc\<lparr>oc_reason := Some r\<rparr>"

record 'r process_effect_command_payload =
  cp_kind :: process_effect_outcome_kind
  cp_effect_id :: string
  cp_effect_type :: string
  cp_value :: "'r option"
  cp_error :: "string option"
  cp_reason :: "string option"
  cp_process_id :: "string option"
  cp_correlation_id :: "string option"
  cp_causation_id :: "string option"

datatype process_effect_runner_error_code = MalformedOutcome

record 'r process_effect_runner_error =
  rr_code :: process_effect_runner_error_code
  rr_message :: string
  rr_outcome :: "'r process_effect_outcome option"
  rr_effect_id :: "string option"
  rr_effect_type :: "string option"

datatype ('c, 'r) process_effect_runner_fact =
    RunnerOutcome "'r process_effect_outcome"
  | RunnerCommand "'c process_command" "'r process_effect_command_payload"
  | RunnerError "'r process_effect_runner_error"

datatype process_effect_runner_status_state = Requested | Commanded | RunnerRejected

record process_effect_runner_status =
  rt_state :: process_effect_runner_status_state
  rt_effect_id :: "string option"
  rt_effect_type :: "string option"
  rt_command_id :: "string option"
  rt_command_type :: "process_effect_command_type option"
  rt_requested :: u64
  rt_commanded :: u64
  rt_rejected :: u64

fun command_type_for_outcome :: "process_effect_outcome_kind \<Rightarrow> process_effect_command_type" where
  "command_type_for_outcome OutcomeResult = CommandResult"
| "command_type_for_outcome OutcomeFailure = CommandFailure"
| "command_type_for_outcome OutcomeCancel = CommandCancel"
| "command_type_for_outcome OutcomeTimeout = CommandTimeout"

definition reject_outcome :: "'r process_effect_outcome \<Rightarrow> string \<Rightarrow> 'r process_effect_runner_error + unit" where
  "reject_outcome oc message = Inl \<lparr>rr_code = MalformedOutcome,
     rr_message = ''process_effect_runner: '' @ message, rr_outcome = Some oc,
     rr_effect_id = (if oc_effect_id oc = [] then None else Some (oc_effect_id oc)),
     rr_effect_type = (if oc_effect_type oc = [] then None else Some (oc_effect_type oc))\<rparr>"

text \<open>The arms of the match in the order of the source.\<close>

definition validate_process_effect_outcome ::
  "'r process_effect_outcome \<Rightarrow> 'r process_effect_runner_error + unit" where
  "validate_process_effect_outcome oc =
     (if oc_effect_id oc = [] then reject_outcome oc ''outcome effect_id must be a non-empty string''
      else if oc_effect_type oc = [] then reject_outcome oc ''outcome effect_type must be a non-empty string''
      else if oc_command_id oc = Some [] then reject_outcome oc ''outcome command_id must be a non-empty string''
      else if oc_kind oc = OutcomeResult \<and> oc_value oc = None
      then reject_outcome oc ''result outcome must carry value''
      else if oc_kind oc = OutcomeFailure \<and> oc_error oc = None
      then reject_outcome oc ''failure outcome must carry error''
      else if oc_kind oc = OutcomeTimeout \<and> oc_error oc = None
      then reject_outcome oc ''timeout outcome must carry error''
      else if oc_kind oc = OutcomeResult \<and> (oc_error oc \<noteq> None \<or> oc_reason oc \<noteq> None)
      then reject_outcome oc ''result outcome must not carry error or reason''
      else if oc_kind oc = OutcomeFailure \<and> (oc_value oc \<noteq> None \<or> oc_reason oc \<noteq> None)
      then reject_outcome oc ''failure outcome must not carry value or reason''
      else if oc_kind oc = OutcomeCancel \<and> (oc_value oc \<noteq> None \<or> oc_error oc \<noteq> None)
      then reject_outcome oc ''cancel outcome must not carry value or error''
      else if oc_kind oc = OutcomeTimeout \<and> (oc_value oc \<noteq> None \<or> oc_reason oc \<noteq> None)
      then reject_outcome oc ''timeout outcome must not carry value or reason''
      else Inr ())"

definition outcome_payload :: "'r process_effect_outcome \<Rightarrow> 'r process_effect_command_payload" where
  "outcome_payload oc = \<lparr>cp_kind = oc_kind oc, cp_effect_id = oc_effect_id oc,
     cp_effect_type = oc_effect_type oc, cp_value = oc_value oc, cp_error = oc_error oc,
     cp_reason = oc_reason oc, cp_process_id = oc_process_id oc,
     cp_correlation_id = oc_correlation_id oc, cp_causation_id = oc_causation_id oc\<rparr>"

definition outcome_command_id :: "tuple_key \<Rightarrow> 'r process_effect_outcome \<Rightarrow> string" where
  "outcome_command_id tk oc =
     (case oc_command_id oc of
        Some i \<Rightarrow> i
      | None \<Rightarrow> compound_tuple_key tk ''process-effect-command''
          [oc_effect_id oc, command_type_as_str (command_type_for_outcome (oc_kind oc))])"

text \<open>The payload mapping is user code; when it panics the call unwinds (\<open>Inl\<close>).\<close>

type_synonym ('w, 'c, 'r) payload_mapping = "'r process_effect_command_payload \<Rightarrow> ('w, 'c) user_call"

definition process_effect_outcome_command ::
  "tuple_key \<Rightarrow> 'r process_effect_outcome \<Rightarrow> ('w, 'c, 'r) payload_mapping \<Rightarrow> 'w \<Rightarrow>
   (panic_payload + ('r process_effect_runner_error +
     'c process_command \<times> 'r process_effect_command_payload)) \<times> 'w" where
  "process_effect_outcome_command tk oc map_payload w =
     (case validate_process_effect_outcome oc of
        Inl e \<Rightarrow> (Inr (Inl e), w)
      | Inr _ \<Rightarrow>
          (let payload = outcome_payload oc in
           case map_payload payload w of
             (Inl panic, w) \<Rightarrow> (Inl panic, w)
           | (Inr mapped, w) \<Rightarrow>
               (Inr (Inr (\<lparr>pc_id = outcome_command_id tk oc,
                  pc_command_type = command_type_as_str (command_type_for_outcome (oc_kind oc)),
                  pc_payload = mapped, pc_process_id = oc_process_id oc,
                  pc_correlation_id = oc_correlation_id oc, pc_causation_id = oc_causation_id oc\<rparr>,
                payload)), w)))"

subsection \<open>The nodes of a runner\<close>

definition runner_requests :: "'f process_effect_request list \<Rightarrow> 'f process_effect_request list" where
  "runner_requests batch = batch"

text \<open>
  The function of the runtime node: the outcomes of every source in turn, each to its outcome and
  command, or to an error. A panic of the mapping ends the run.
\<close>

fun runner_loop ::
  "tuple_key \<Rightarrow> ('w, 'c, 'r) payload_mapping \<Rightarrow> 'r process_effect_outcome list \<Rightarrow> 'w \<Rightarrow>
   ('c, 'r) process_effect_runner_fact list \<times> panic_payload option \<times> 'w" where
  "runner_loop tk map_payload [] w = ([], None, w)"
| "runner_loop tk map_payload (oc # ocs) w =
     (case process_effect_outcome_command tk oc map_payload w of
        (Inl panic, w) \<Rightarrow> ([], Some panic, w)
      | (Inr r, w) \<Rightarrow>
          (let facts = (case r of
                 Inr (command, payload) \<Rightarrow> [RunnerOutcome oc, RunnerCommand command payload]
               | Inl e \<Rightarrow> [RunnerError e]);
               (rest, p, w) = runner_loop tk map_payload ocs w in
           (facts @ rest, p, w)))"

definition runner_runtime_body ::
  "tuple_key \<Rightarrow> ('w, 'c, 'r) payload_mapping \<Rightarrow> 'r process_effect_outcome list list \<Rightarrow> 'w \<Rightarrow>
   ('c, 'r) process_effect_runner_fact list \<times> panic_payload option \<times> 'w" where
  "runner_runtime_body tk map_payload batches w = runner_loop tk map_payload (concat batches) w"

definition effect_runner_projection ::
  "(('c, 'r) process_effect_runner_fact \<Rightarrow> 'o option) \<Rightarrow> ('c, 'r) process_effect_runner_fact list \<Rightarrow> 'o list" where
  "effect_runner_projection select facts = List.map_filter select facts"

definition runner_outcomes :: "('c, 'r) process_effect_runner_fact list \<Rightarrow> 'r process_effect_outcome list" where
  "runner_outcomes = effect_runner_projection (\<lambda>f. case f of RunnerOutcome oc \<Rightarrow> Some oc | _ \<Rightarrow> None)"

definition runner_commands :: "('c, 'r) process_effect_runner_fact list \<Rightarrow> 'c process_command list" where
  "runner_commands = effect_runner_projection (\<lambda>f. case f of RunnerCommand c _ \<Rightarrow> Some c | _ \<Rightarrow> None)"

definition runner_errors :: "('c, 'r) process_effect_runner_fact list \<Rightarrow> 'r process_effect_runner_error list" where
  "runner_errors = effect_runner_projection (\<lambda>f. case f of RunnerError e \<Rightarrow> Some e | _ \<Rightarrow> None)"

record runner_counters =
  rc_requested :: u64
  rc_commanded :: u64
  rc_rejected :: u64

definition runner_counters_default :: runner_counters where
  "runner_counters_default = \<lparr>rc_requested = 0, rc_commanded = 0, rc_rejected = 0\<rparr>"

definition status_of_request :: "'f process_effect_request \<Rightarrow> runner_counters \<Rightarrow> process_effect_runner_status" where
  "status_of_request request c = \<lparr>rt_state = Requested, rt_effect_id = Some (fx_id request),
     rt_effect_type = Some (fx_effect_type request), rt_command_id = None, rt_command_type = None,
     rt_requested = rc_requested c, rt_commanded = rc_commanded c, rt_rejected = rc_rejected c\<rparr>"

fun count_request ::
  "'f process_effect_request list \<Rightarrow> runner_counters \<Rightarrow> runner_counters \<times> process_effect_runner_status list" where
  "count_request [] c = (c, [])"
| "count_request (request # requests) c =
     (let c = c\<lparr>rc_requested := rc_requested c + 1\<rparr>;
          (c', rest) = count_request requests c in
      (c', status_of_request request c # rest))"

fun count_fact ::
  "('c, 'r) process_effect_runner_fact list \<Rightarrow> runner_counters \<Rightarrow> runner_counters \<times> process_effect_runner_status list" where
  "count_fact [] c = (c, [])"
| "count_fact (RunnerOutcome oc # facts) c = count_fact facts c"
| "count_fact (RunnerCommand command payload # facts) c =
     (let c = c\<lparr>rc_commanded := rc_commanded c + 1\<rparr>;
          (c', rest) = count_fact facts c in
      (c', \<lparr>rt_state = Commanded, rt_effect_id = Some (cp_effect_id payload),
         rt_effect_type = Some (cp_effect_type payload), rt_command_id = Some (pc_id command),
         rt_command_type = Some (command_type_for_outcome (cp_kind payload)),
         rt_requested = rc_requested c, rt_commanded = rc_commanded c, rt_rejected = rc_rejected c\<rparr> # rest))"
| "count_fact (RunnerError e # facts) c =
     (let c = c\<lparr>rc_rejected := rc_rejected c + 1\<rparr>;
          (c', rest) = count_fact facts c in
      (c', \<lparr>rt_state = RunnerRejected, rt_effect_id = rr_effect_id e, rt_effect_type = rr_effect_type e,
         rt_command_id = None, rt_command_type = None, rt_requested = rc_requested c,
         rt_commanded = rc_commanded c, rt_rejected = rc_rejected c\<rparr> # rest))"

definition runner_status_body ::
  "runner_counters option \<Rightarrow> 'f process_effect_request list \<Rightarrow> ('c, 'r) process_effect_runner_fact list \<Rightarrow>
   runner_counters \<times> process_effect_runner_status list" where
  "runner_status_body stored requests facts =
     (let c = (case stored of Some c \<Rightarrow> c | None \<Rightarrow> runner_counters_default);
          (c, a) = count_request requests c;
          (c, b) = count_fact facts c in
      (c, a @ b))"

subsection \<open>The sources of the command node\<close>

text \<open>
  The command node forwards the commands of its sources. Attaching and detaching rewires it; the
  rewiring (\<open>replace\<close>) may panic, then the old sources are put back and the panic goes on. A second
  panic while they are put back replaces the first.
\<close>

definition process_command_source_body :: "nat \<Rightarrow> 'c process_command list list \<Rightarrow> 'c process_command list" where
  "process_command_source_body source_count batches = concat (take source_count batches)"

definition rewire_sources ::
  "('n list \<Rightarrow> ('w, unit) user_call) \<Rightarrow> 'n list \<Rightarrow> 'n list \<Rightarrow> 'w \<Rightarrow> 'n list \<times> panic_payload option \<times> 'w" where
  "rewire_sources replace previous new_sources w =
     (case replace new_sources w of
        (Inr _, w) \<Rightarrow> (new_sources, None, w)
      | (Inl panic, w) \<Rightarrow>
          (case replace previous w of
             (Inr _, w) \<Rightarrow> (previous, Some panic, w)
           | (Inl panic', w) \<Rightarrow> (previous, Some panic', w)))"

definition attach_process_command_source_parts ::
  "('n list \<Rightarrow> ('w, unit) user_call) \<Rightarrow> 'n list \<Rightarrow> 'n \<Rightarrow> 'w \<Rightarrow> 'n list \<times> panic_payload option \<times> 'w" where
  "attach_process_command_source_parts replace sources source w =
     rewire_sources replace sources (if source \<in> set sources then sources else sources @ [source]) w"

definition detach_process_command_source ::
  "('n list \<Rightarrow> ('w, unit) user_call) \<Rightarrow> 'n list \<Rightarrow> 'n \<Rightarrow> 'w \<Rightarrow> 'n list \<times> panic_payload option \<times> 'w" where
  "detach_process_command_source replace sources source w =
     (if source \<notin> set sources then (sources, None, w)
      else rewire_sources replace sources (filter (\<lambda>candidate. candidate \<noteq> source) sources) w)"

end
