(* ===== verification/ProcessHistory.thy ===== *)
theory ProcessHistory
  imports ProcessRunner
begin

text \<open>
  What the facts of a process add up to over all its runs: dense logs of events and effect
  requests, one verdict per command, the state as the fold of the accepted commands, what happens
  when the stored state is corrupt; and what an effect runner does with outcomes.
\<close>

subsection \<open>The persisted state\<close>

lemma process_runtime_state_roundtrip: "runtime_state_from_json (runtime_state_to_json st) = Inr st"
proof -
  have "collect_results (\<lambda>item. case as_str item of None \<Rightarrow> Inl m | Some s \<Rightarrow> Inr s) (map JString ids) = Inr ids"
    for ids :: "string list" and m :: string
    by (induction ids) (simp_all add: rbind_def)
  then show ?thesis
    by (simp add: runtime_state_from_json_def runtime_state_to_json_def json_required_u64_def
        json_required_string_array_def)
qed

subsection \<open>What one command does\<close>

lemmas readers_defs = states_of_def events_of_def effect_requests_of_def statuses_of_def errors_of_def
  audits_of_def cursors_of_def runtime_projection_def

lemma process_readers_append [simp]:
  "states_of (a @ b) = states_of a @ states_of b"
  "events_of (a @ b) = events_of a @ events_of b"
  "effect_requests_of (a @ b) = effect_requests_of a @ effect_requests_of b"
  "statuses_of (a @ b) = statuses_of a @ statuses_of b"
  "errors_of (a @ b) = errors_of a @ errors_of b"
  "audits_of (a @ b) = audits_of a @ audits_of b"
  by (simp_all add: readers_defs List.map_filter_def)

lemma process_readers_Nil [simp]:
  "states_of [] = []" "events_of [] = []" "effect_requests_of [] = []" "statuses_of [] = []"
  "errors_of [] = []" "audits_of [] = []"
  by (simp_all add: readers_defs List.map_filter_simps)

lemma process_readers_map [simp]:
  "states_of (map FactEvent es) = []" "events_of (map FactEvent es) = es"
  "effect_requests_of (map FactEvent es) = []" "statuses_of (map FactEvent es) = []"
  "errors_of (map FactEvent es) = []" "audits_of (map FactEvent es) = []"
  "states_of (map FactEffectRequest xs) = []" "events_of (map FactEffectRequest xs) = []"
  "effect_requests_of (map FactEffectRequest xs) = xs" "statuses_of (map FactEffectRequest xs) = []"
  "errors_of (map FactEffectRequest xs) = []" "audits_of (map FactEffectRequest xs) = []"
  by (induction es; induction xs; simp add: readers_defs List.map_filter_simps)+

lemma process_readers_Cons [simp]:
  "states_of (FactState s u # fs) = s # states_of fs" "events_of (FactState s u # fs) = events_of fs"
  "effect_requests_of (FactState s u # fs) = effect_requests_of fs"
  "statuses_of (FactState s u # fs) = statuses_of fs" "errors_of (FactState s u # fs) = errors_of fs"
  "audits_of (FactState s u # fs) = audits_of fs"
  "states_of (FactStatus t # fs) = states_of fs" "events_of (FactStatus t # fs) = events_of fs"
  "effect_requests_of (FactStatus t # fs) = effect_requests_of fs"
  "statuses_of (FactStatus t # fs) = t # statuses_of fs" "errors_of (FactStatus t # fs) = errors_of fs"
  "audits_of (FactStatus t # fs) = audits_of fs"
  "states_of (FactAudit a # fs) = states_of fs" "events_of (FactAudit a # fs) = events_of fs"
  "effect_requests_of (FactAudit a # fs) = effect_requests_of fs"
  "statuses_of (FactAudit a # fs) = statuses_of fs" "errors_of (FactAudit a # fs) = errors_of fs"
  "audits_of (FactAudit a # fs) = a # audits_of fs"
  "states_of (FactError e # fs) = states_of fs" "events_of (FactError e # fs) = events_of fs"
  "effect_requests_of (FactError e # fs) = effect_requests_of fs"
  "statuses_of (FactError e # fs) = statuses_of fs" "errors_of (FactError e # fs) = e # errors_of fs"
  "audits_of (FactError e # fs) = audits_of fs"
  "states_of (FactCursor u # fs) = states_of fs" "events_of (FactCursor u # fs) = events_of fs"
  "effect_requests_of (FactCursor u # fs) = effect_requests_of fs"
  "statuses_of (FactCursor u # fs) = statuses_of fs" "errors_of (FactCursor u # fs) = errors_of fs"
  "audits_of (FactCursor u # fs) = audits_of fs"
  by (simp_all add: readers_defs List.map_filter_simps)

lemma process_append_events_effect:
  assumes "append_events c t ps st = (st', es)"
  shows "st' = st\<lparr>pr_event_seq := pr_event_seq st + of_nat (length ps),
      pr_seen_event_ids := pr_seen_event_ids st @ map ve_id ps\<rparr>"
    and "map pv_id es = map ve_id ps" and "map pv_payload es = map ve_payload ps" and "length es = length ps"
    and "map pv_seq es = map (\<lambda>i. pr_event_seq st + of_nat i) [1..<Suc (length ps)]"
    and "\<forall>e \<in> set es. pv_cursor e = pv_seq e \<and> pv_command_id e = pc_id c"
proof -
  have "st' = st\<lparr>pr_event_seq := pr_event_seq st + of_nat (length ps),
        pr_seen_event_ids := pr_seen_event_ids st @ map ve_id ps\<rparr> \<and>
      map pv_id es = map ve_id ps \<and> map pv_payload es = map ve_payload ps \<and> length es = length ps \<and>
      map pv_seq es = map (\<lambda>i. pr_event_seq st + of_nat i) [1..<Suc (length ps)] \<and>
      (\<forall>e \<in> set es. pv_cursor e = pv_seq e \<and> pv_command_id e = pc_id c)"
    using assms
  proof (induction ps arbitrary: st es)
    case (Cons p ps)
    from Cons.prems obtain es' where es':
      "append_events c t ps (st\<lparr>pr_event_seq := pr_event_seq st + 1,
         pr_seen_event_ids := pr_seen_event_ids st @ [ve_id p]\<rparr>) = (st', es')"
      and "tl es = es'" "es \<noteq> []" "pv_id (hd es) = ve_id p" "pv_payload (hd es) = ve_payload p"
        "pv_seq (hd es) = pr_event_seq st + 1" "pv_cursor (hd es) = pr_event_seq st + 1" "pv_command_id (hd es) = pc_id c"
      by (auto simp: Let_def split: prod.splits)
    then show ?case
      using Cons.IH [OF es'] upto_step [of "pr_event_seq st" "length ps"]
      by (cases es) (auto simp: add.assoc simp del: upt_Suc)
  qed simp
  then show "st' = st\<lparr>pr_event_seq := pr_event_seq st + of_nat (length ps),
      pr_seen_event_ids := pr_seen_event_ids st @ map ve_id ps\<rparr>"
    "map pv_id es = map ve_id ps" "map pv_payload es = map ve_payload ps" "length es = length ps"
    "map pv_seq es = map (\<lambda>i. pr_event_seq st + of_nat i) [1..<Suc (length ps)]"
    "\<forall>e \<in> set es. pv_cursor e = pv_seq e \<and> pv_command_id e = pc_id c"
    by blast+
qed

lemma append_effects_effect:
  assumes "append_effects c t ps st = (st', xs)"
  shows "st' = st\<lparr>pr_effect_seq := pr_effect_seq st + of_nat (length ps),
      pr_seen_effect_ids := pr_seen_effect_ids st @ map fe_id ps\<rparr>"
    and "map fx_id xs = map fe_id ps" and "map fx_payload xs = map fe_payload ps" and "length xs = length ps"
    and "map fx_seq xs = map (\<lambda>i. pr_effect_seq st + of_nat i) [1..<Suc (length ps)]"
    and "\<forall>x \<in> set xs. fx_cursor x = fx_seq x \<and> fx_command_id x = pc_id c"
proof -
  have "st' = st\<lparr>pr_effect_seq := pr_effect_seq st + of_nat (length ps),
        pr_seen_effect_ids := pr_seen_effect_ids st @ map fe_id ps\<rparr> \<and>
      map fx_id xs = map fe_id ps \<and> map fx_payload xs = map fe_payload ps \<and> length xs = length ps \<and>
      map fx_seq xs = map (\<lambda>i. pr_effect_seq st + of_nat i) [1..<Suc (length ps)] \<and>
      (\<forall>x \<in> set xs. fx_cursor x = fx_seq x \<and> fx_command_id x = pc_id c)"
    using assms
  proof (induction ps arbitrary: st xs)
    case (Cons p ps)
    from Cons.prems obtain xs' where xs':
      "append_effects c t ps (st\<lparr>pr_effect_seq := pr_effect_seq st + 1,
         pr_seen_effect_ids := pr_seen_effect_ids st @ [fe_id p]\<rparr>) = (st', xs')"
      and "tl xs = xs'" "xs \<noteq> []" "fx_id (hd xs) = fe_id p" "fx_payload (hd xs) = fe_payload p"
        "fx_seq (hd xs) = pr_effect_seq st + 1" "fx_cursor (hd xs) = pr_effect_seq st + 1" "fx_command_id (hd xs) = pc_id c"
      by (auto simp: Let_def split: prod.splits)
    then show ?case
      using Cons.IH [OF xs'] upto_step [of "pr_effect_seq st" "length ps"]
      by (cases xs) (auto simp: add.assoc simp del: upt_Suc)
  qed simp
  then show "st' = st\<lparr>pr_effect_seq := pr_effect_seq st + of_nat (length ps),
      pr_seen_effect_ids := pr_seen_effect_ids st @ map fe_id ps\<rparr>"
    "map fx_id xs = map fe_id ps" "map fx_payload xs = map fe_payload ps" "length xs = length ps"
    "map fx_seq xs = map (\<lambda>i. pr_effect_seq st + of_nat i) [1..<Suc (length ps)]"
    "\<forall>x \<in> set xs. fx_cursor x = fx_seq x \<and> fx_command_id x = pc_id c"
    by blast+
qed

lemma prepare_events_ids:
  "prepare_events_loop tk c st n ds used = Inr ps \<Longrightarrow>
     distinct (map ve_id ps) \<and> set (map ve_id ps) \<inter> (set (pr_seen_event_ids st) \<union> set used) = {} \<and>
     map ve_payload ps = map vd_payload ds"
proof (induction tk c st n ds used arbitrary: ps rule: prepare_events_loop.induct)
  case (2 tk c st n d ds used)
  then show ?case by (fastforce simp: Let_def rbind_eq_Inr split: if_splits)
qed simp

lemma prepare_effects_ids:
  "prepare_effects_loop tk c st n ds used = Inr ps \<Longrightarrow>
     distinct (map fe_id ps) \<and> set (map fe_id ps) \<inter> (set (pr_seen_effect_ids st) \<union> set used) = {} \<and>
     map fe_payload ps = map fd_payload ds"
proof (induction tk c st n ds used arbitrary: ps rule: prepare_effects_loop.induct)
  case (2 tk c st n d ds used)
  then show ?case by (fastforce simp: Let_def rbind_eq_Inr split: if_splits)
qed simp

text \<open>Every command is refused, with the state but its counters kept, or accepted.\<close>

lemma process_reduce_cases [consumes 1, case_names refused accepted]:
  assumes "reduce_process_command_fact cf st c w = (Inr (st', facts), w')"
  obtains (refused) code msg where
      "failure (st\<lparr>pr_command_count := pr_command_count st + 1\<rparr>) (Some c) code msg = (st', facts)"
    | (accepted) s red w1 j v es xs t where
      "state_from_json (pf_from_value cf) (pr_state st) = Inr s"
      "pf_reduce cf c s w = (Inr red, w1)"
      "state_to_json (pf_to_value cf) (re_state red) = Inr j"
      "state_from_json (pf_from_value cf) j = Inr v"
      "prepare_events_loop (pf_tuple_key cf) c (st\<lparr>pr_command_count := pr_command_count st + 1\<rparr>) 0 (re_events red) [] = Inr es"
      "prepare_effects_loop (pf_tuple_key cf) c (st\<lparr>pr_command_count := pr_command_count st + 1\<rparr>) 0 (re_effects red) [] = Inr xs"
      "accept (st\<lparr>pr_command_count := pr_command_count st + 1\<rparr>) c j v t es xs = (st', facts)"
  using assms refused accepted
  unfolding reduce_process_command_fact_def prepare_events_def prepare_effects_def
  by (auto simp: Let_def split: if_splits prod.splits sum.splits)

definition same_verdict :: "process_status \<Rightarrow> process_audit_record \<Rightarrow> bool" where
  "same_verdict s a \<longleftrightarrow>
     pa_command_id a = ps_command_id s \<and> pa_error_code a = ps_error_code s \<and>
     (pa_outcome a = AuditSuccess \<longleftrightarrow> ps_state s = Accepted) \<and>
     (ps_state s = Accepted \<longleftrightarrow> ps_error_code s = None) \<and>
     ps_event_count s = length (pa_event_ids a) \<and> ps_effect_count s = length (pa_effect_ids a) \<and>
     (ps_state s = Rejected \<longrightarrow> pa_event_ids a = [] \<and> pa_effect_ids a = [])"

lemma failure_facts:
  assumes "failure st (Some c) code msg = (st', facts)"
  obtains s a where
    "st' = st\<lparr>pr_error_count := pr_error_count st + 1, pr_audit_seq := pr_audit_seq st + 1\<rparr>"
    "states_of facts = []" "events_of facts = []" "effect_requests_of facts = []"
    "statuses_of facts = [s]" "audits_of facts = [a]" "same_verdict s a" "ps_state s = Rejected"
    "ps_command_id s = Some (pc_id c)" "pa_seq a = pr_audit_seq st + 1" "pa_event_ids a = []"
    "pa_effect_ids a = []" "ps_error_code s = Some code"
  using assms by (auto simp: failure_def audit_record_def Let_def same_verdict_def)

lemma accept_facts:
  assumes "accept st c j v t ps qs = (st', facts)"
  obtains s a es xs where
    "st' = st\<lparr>pr_state := j, pr_event_seq := pr_event_seq st + of_nat (length ps),
       pr_seen_event_ids := pr_seen_event_ids st @ map ve_id ps,
       pr_effect_seq := pr_effect_seq st + of_nat (length qs),
       pr_seen_effect_ids := pr_seen_effect_ids st @ map fe_id qs, pr_audit_seq := pr_audit_seq st + 1\<rparr>"
    "states_of facts = [v]" "events_of facts = es" "effect_requests_of facts = xs"
    "statuses_of facts = [s]" "audits_of facts = [a]" "same_verdict s a" "ps_state s = Accepted"
    "ps_command_id s = Some (pc_id c)" "pa_seq a = pr_audit_seq st + 1" "pa_event_ids a = map pv_id es"
    "pa_effect_ids a = map fx_id xs"
    "map pv_id es = map ve_id ps" "map pv_payload es = map ve_payload ps"
    "map pv_seq es = map (\<lambda>i. pr_event_seq st + of_nat i) [1..<Suc (length es)]"
    "\<forall>e \<in> set es. pv_cursor e = pv_seq e" "length es = length ps"
    "map fx_id xs = map fe_id qs" "map fx_payload xs = map fe_payload qs"
    "map fx_seq xs = map (\<lambda>i. pr_effect_seq st + of_nat i) [1..<Suc (length xs)]"
    "\<forall>x \<in> set xs. fx_cursor x = fx_seq x" "length xs = length qs"
proof -
  obtain st1 es where e: "append_events c t ps (st\<lparr>pr_state := j\<rparr>) = (st1, es)" by fastforce
  obtain st2 xs where x: "append_effects c t qs st1 = (st2, xs)" by fastforce
  note ev = process_append_events_effect [OF e]
  note ef = append_effects_effect [OF x]
  from assms e x have st': "st' = st2\<lparr>pr_audit_seq := pr_audit_seq st2 + 1\<rparr>"
    by (auto simp: accept_def audit_record_def Let_def)
  show thesis
  proof (rule that)
    show "states_of facts = [v]" "events_of facts = es" "effect_requests_of facts = xs"
      using assms e x by (auto simp: accept_def audit_record_def Let_def)
    show "st' = st\<lparr>pr_state := j, pr_event_seq := pr_event_seq st + of_nat (length ps),
       pr_seen_event_ids := pr_seen_event_ids st @ map ve_id ps,
       pr_effect_seq := pr_effect_seq st + of_nat (length qs),
       pr_seen_effect_ids := pr_seen_effect_ids st @ map fe_id qs, pr_audit_seq := pr_audit_seq st + 1\<rparr>"
      unfolding st' ef(1) ev(1) by simp
    let ?s = "\<lparr>ps_state = Accepted, ps_command_id = Some (pc_id c),
            ps_command_type = Some (pc_command_type c), ps_event_count = length es,
            ps_effect_count = length xs, ps_error_code = None, ps_cursor = cursor_of st2\<rparr>"
    let ?a = "snd (audit_record st2 (Some c) AuditSuccess es xs None None)"
    show "statuses_of facts = [?s]" "audits_of facts = [?a]"
      using assms e x by (auto simp: accept_def audit_record_def Let_def)
    show "same_verdict ?s ?a" "ps_state ?s = Accepted" "ps_command_id ?s = Some (pc_id c)"
      "pa_seq ?a = pr_audit_seq st + 1" "pa_event_ids ?a = map pv_id es" "pa_effect_ids ?a = map fx_id xs"
      by (simp_all add: audit_record_def Let_def same_verdict_def ef(1) ev(1))
    show "map pv_seq es = map (\<lambda>i. pr_event_seq st + of_nat i) [1..<Suc (length es)]"
      "map fx_seq xs = map (\<lambda>i. pr_effect_seq st + of_nat i) [1..<Suc (length xs)]"
      using ev(4,5) ef(4,5) by (simp_all add: ev(1) del: upt_Suc)
    show "map pv_id es = map ve_id ps" "map pv_payload es = map ve_payload ps" "length es = length ps"
      "map fx_id xs = map fe_id qs" "map fx_payload xs = map fe_payload qs" "length xs = length qs"
      "\<forall>e \<in> set es. pv_cursor e = pv_seq e" "\<forall>x \<in> set xs. fx_cursor x = fx_seq x"
      using ev ef by auto
  qed
qed

subsection \<open>Histories\<close>

text \<open>
  The completed runs of the runtime node: the stored state, the commands received and the facts
  emitted so far. The host may change the world between two runs.
\<close>

inductive process_history ::
  "('w, 'c, 's, 'e, 'f) process_config \<Rightarrow> json option \<Rightarrow> 'c process_command list \<Rightarrow>
   ('s, 'e, 'f, 'c) process_runtime_fact list \<Rightarrow> bool"
  for cf where
  process_start: "process_history cf None [] []"
| process_run: "process_history cf stored cs fs \<Longrightarrow>
     process_runtime_body cf stored batch w = (fs', stored', None, w') \<Longrightarrow>
     process_history cf stored' (cs @ batch) (fs @ fs')"

definition decoded :: "('w, 'c, 's, 'e, 'f) process_config \<Rightarrow> json option \<Rightarrow> process_runtime_state" where
  "decoded cf stored =
     (case stored of
        None \<Rightarrow> runtime_state_new (pf_initial cf)
      | Some value \<Rightarrow>
          (case runtime_state_from_json value of Inr st \<Rightarrow> st | Inl _ \<Rightarrow> cursor_recovery (pf_initial cf)))"

lemma process_loop_ConsE:
  assumes "process_runtime_loop cf st stored (c # cs) w = (fs, stored', None, w')"
  obtains st1 f1 w1 f2 where "reduce_process_command_fact cf st c w = (Inr (st1, f1), w1)"
    "process_runtime_loop cf st1 (Some (runtime_state_to_json st1)) cs w1 = (f2, stored', None, w')"
    "fs = f1 @ f2"
proof -
  obtain r w1 where r: "reduce_process_command_fact cf st c w = (r, w1)" by fastforce
  show thesis
  proof (cases r)
    case (Inl p)
    with assms r show ?thesis by simp
  next
    case (Inr q)
    obtain st1 f1 where q: "q = (st1, f1)" by fastforce
    obtain f2 s p w2 where l: "process_runtime_loop cf st1 (Some (runtime_state_to_json st1)) cs w1 = (f2, s, p, w2)"
      by (metis surj_pair)
    show ?thesis using assms that [of st1 f1 w1 f2] r l by (simp add: Inr q)
  qed
qed

text \<open>A property of the state, the commands and the facts that every command preserves.\<close>

lemma process_history_induct [consumes 1, case_names start command]:
  assumes "process_history cf stored cs fs"
    and start: "P (runtime_state_new (pf_initial cf)) [] []"
    and command: "\<And>st cs fs c w st' facts w'. P st cs fs \<Longrightarrow>
      reduce_process_command_fact cf st c w = (Inr (st', facts), w') \<Longrightarrow> P st' (cs @ [c]) (fs @ facts)"
  shows "P (decoded cf stored) cs fs"
proof -
  let ?enc = "\<lambda>stored st. stored = None \<and> st = runtime_state_new (pf_initial cf) \<or> stored = Some (runtime_state_to_json st)"
  have dec: "?enc stored st \<Longrightarrow> decoded cf stored = st" for stored st
    by (auto simp: decoded_def process_runtime_state_roundtrip)
  have loop: "\<exists>st'. P st' (cs @ batch) (fs @ fs') \<and> ?enc stored' st'"
    if "P st cs fs" "?enc stored st" "process_runtime_loop cf st stored batch w = (fs', stored', None, w')"
    for st stored stored' cs batch fs fs' w w'
    using that
  proof (induction batch arbitrary: st stored cs fs fs' w)
    case (Cons c batch)
    obtain st1 f1 w1 f2 where r: "reduce_process_command_fact cf st c w = (Inr (st1, f1), w1)"
        "process_runtime_loop cf st1 (Some (runtime_state_to_json st1)) batch w1 = (f2, stored', None, w')"
        "fs' = f1 @ f2"
      by (rule process_loop_ConsE [OF Cons.prems(3)])
    have "\<exists>st'. P st' ((cs @ [c]) @ batch) ((fs @ f1) @ f2) \<and> ?enc stored' st'"
      using Cons.IH [OF command [OF Cons.prems(1) r(1)] _ r(2)] by blast
    then show ?case using r(3) by simp
  qed auto
  have "\<exists>st. P st cs fs \<and> ?enc stored st"
    using assms(1)
  proof (induction rule: process_history.induct)
    case process_start
    then show ?case using start by blast
  next
    case (process_run stored cs fs batch w fs' stored' w')
    then obtain st where st: "P st cs fs" "?enc stored st" by blast
    then have "process_runtime_loop cf st stored batch w = (fs', stored', None, w')"
      using process_run.hyps(2) by (auto simp: process_runtime_body_def process_runtime_state_roundtrip)
    with loop [OF st] show ?case by blast
  qed
  then obtain st where st: "P st cs fs" and enc: "?enc stored st" by blast
  show ?thesis unfolding dec [OF enc] by (rule st)
qed

definition log_ok :: "process_runtime_state \<Rightarrow> ('s, 'e, 'f, 'c) process_runtime_fact list \<Rightarrow> bool" where
  "log_ok st fs \<longleftrightarrow>
     (let es = events_of fs; xs = effect_requests_of fs in
      pr_event_seq st = of_nat (length es) \<and> map pv_seq es = map of_nat [1..<Suc (length es)] \<and>
      (\<forall>e \<in> set es. pv_cursor e = pv_seq e) \<and> pr_seen_event_ids st = map pv_id es \<and> distinct (map pv_id es) \<and>
      pr_effect_seq st = of_nat (length xs) \<and> map fx_seq xs = map of_nat [1..<Suc (length xs)] \<and>
      (\<forall>x \<in> set xs. fx_cursor x = fx_seq x) \<and> pr_seen_effect_ids st = map fx_id xs \<and> distinct (map fx_id xs))"

definition verdicts_ok ::
  "process_runtime_state \<Rightarrow> 'c process_command list \<Rightarrow> ('s, 'e, 'f, 'c) process_runtime_fact list \<Rightarrow> bool" where
  "verdicts_ok st cs fs \<longleftrightarrow>
     pr_audit_seq st = of_nat (length cs) \<and>
     map ps_command_id (statuses_of fs) = map (Some \<circ> pc_id) cs \<and>
     map pa_seq (audits_of fs) = map of_nat [1..<Suc (length cs)] \<and>
     list_all2 same_verdict (statuses_of fs) (audits_of fs) \<and>
     concat (map pa_event_ids (audits_of fs)) = map pv_id (events_of fs) \<and>
     concat (map pa_effect_ids (audits_of fs)) = map fx_id (effect_requests_of fs)"

lemma verdict_of_command:
  assumes "reduce_process_command_fact cf st c w = (Inr (st', facts), w')"
  obtains s a where "statuses_of facts = [s]" "audits_of facts = [a]" "same_verdict s a"
    "ps_command_id s = Some (pc_id c)" "pa_seq a = pr_audit_seq st + 1"
    "pr_audit_seq st' = pr_audit_seq st + 1" "pa_event_ids a = map pv_id (events_of facts)"
    "pa_effect_ids a = map fx_id (effect_requests_of facts)"
  using assms
proof (cases rule: process_reduce_cases)
  case (refused code msg)
  then show ?thesis
  proof (rule failure_facts)
    fix s a
    assume "statuses_of facts = [s]" "audits_of facts = [a]" "same_verdict s a"
      "ps_command_id s = Some (pc_id c)" "pa_event_ids a = []" "pa_effect_ids a = []"
      "events_of facts = []" "effect_requests_of facts = []"
      "pa_seq a = pr_audit_seq (st\<lparr>pr_command_count := pr_command_count st + 1\<rparr>) + 1"
      "st' = st\<lparr>pr_command_count := pr_command_count st + 1\<rparr>
        \<lparr>pr_error_count := pr_error_count (st\<lparr>pr_command_count := pr_command_count st + 1\<rparr>) + 1,
         pr_audit_seq := pr_audit_seq (st\<lparr>pr_command_count := pr_command_count st + 1\<rparr>) + 1\<rparr>"
    then show ?thesis by (intro that [of s a]) simp_all
  qed
next
  case (accepted s red w1 j v ps qs t)
  from accepted(7) show ?thesis
  proof (rule accept_facts)
    fix s a es xs
    assume "statuses_of facts = [s]" "audits_of facts = [a]" "same_verdict s a"
      "ps_command_id s = Some (pc_id c)" "pa_event_ids a = map pv_id es" "pa_effect_ids a = map fx_id xs"
      "events_of facts = es" "effect_requests_of facts = xs"
      "pa_seq a = pr_audit_seq (st\<lparr>pr_command_count := pr_command_count st + 1\<rparr>) + 1"
      "st' = st\<lparr>pr_command_count := pr_command_count st + 1\<rparr>
        \<lparr>pr_state := j, pr_event_seq := pr_event_seq (st\<lparr>pr_command_count := pr_command_count st + 1\<rparr>) + of_nat (length ps),
         pr_seen_event_ids := pr_seen_event_ids (st\<lparr>pr_command_count := pr_command_count st + 1\<rparr>) @ map ve_id ps,
         pr_effect_seq := pr_effect_seq (st\<lparr>pr_command_count := pr_command_count st + 1\<rparr>) + of_nat (length qs),
         pr_seen_effect_ids := pr_seen_effect_ids (st\<lparr>pr_command_count := pr_command_count st + 1\<rparr>) @ map fe_id qs,
         pr_audit_seq := pr_audit_seq (st\<lparr>pr_command_count := pr_command_count st + 1\<rparr>) + 1\<rparr>"
    then show ?thesis by (intro that [of s a]) simp_all
  qed
qed

lemma process_verdicts_step:
  assumes "verdicts_ok st cs fs" "reduce_process_command_fact cf st c w = (Inr (st', facts), w')"
  shows "verdicts_ok st' (cs @ [c]) (fs @ facts)"
proof -
  obtain s a where "statuses_of facts = [s]" "audits_of facts = [a]" "same_verdict s a"
    "ps_command_id s = Some (pc_id c)" "pa_seq a = pr_audit_seq st + 1"
    "pr_audit_seq st' = pr_audit_seq st + 1" "pa_event_ids a = map pv_id (events_of facts)"
    "pa_effect_ids a = map fx_id (effect_requests_of facts)"
    using assms(2) by (rule verdict_of_command)
  with assms(1) show ?thesis
    by (auto simp: verdicts_ok_def list_all2_appendI add.commute)
qed

lemma process_log_step:
  assumes "log_ok st fs" "reduce_process_command_fact cf st c w = (Inr (st', facts), w')"
  shows "log_ok st' (fs @ facts)"
  using assms(2)
proof (cases rule: process_reduce_cases)
  case (refused code msg)
  then show ?thesis
    by (rule failure_facts) (use assms(1) in \<open>simp add: log_ok_def\<close>)
next
  case (accepted s red w1 j v ps qs t)
  note ids = prepare_events_ids [OF accepted(5)] prepare_effects_ids [OF accepted(6)]
  from accepted(7) show ?thesis
  proof (rule accept_facts)
    fix es xs
    assume f: "events_of facts = es" "effect_requests_of facts = xs"
      and st': "st' = st\<lparr>pr_command_count := pr_command_count st + 1\<rparr>
        \<lparr>pr_state := j, pr_event_seq := pr_event_seq (st\<lparr>pr_command_count := pr_command_count st + 1\<rparr>) + of_nat (length ps),
         pr_seen_event_ids := pr_seen_event_ids (st\<lparr>pr_command_count := pr_command_count st + 1\<rparr>) @ map ve_id ps,
         pr_effect_seq := pr_effect_seq (st\<lparr>pr_command_count := pr_command_count st + 1\<rparr>) + of_nat (length qs),
         pr_seen_effect_ids := pr_seen_effect_ids (st\<lparr>pr_command_count := pr_command_count st + 1\<rparr>) @ map fe_id qs,
         pr_audit_seq := pr_audit_seq (st\<lparr>pr_command_count := pr_command_count st + 1\<rparr>) + 1\<rparr>"
      and e: "map pv_id es = map ve_id ps" "length es = length ps" "\<forall>e \<in> set es. pv_cursor e = pv_seq e"
        "map pv_seq es = map (\<lambda>i. pr_event_seq (st\<lparr>pr_command_count := pr_command_count st + 1\<rparr>) + of_nat i) [1..<Suc (length es)]"
      and x: "map fx_id xs = map fe_id qs" "length xs = length qs" "\<forall>x \<in> set xs. fx_cursor x = fx_seq x"
        "map fx_seq xs = map (\<lambda>i. pr_effect_seq (st\<lparr>pr_command_count := pr_command_count st + 1\<rparr>) + of_nat i) [1..<Suc (length xs)]"
    show ?thesis
      using assms(1) ids e x unfolding log_ok_def Let_def process_readers_append f st'
      by (auto simp: upto_shift [unfolded One_nat_def] simp del: upt_Suc)
  qed
qed

lemma process_history_ok:
  assumes "process_history cf stored cs fs"
  shows "log_ok (decoded cf stored) fs \<and> verdicts_ok (decoded cf stored) cs fs"
  using assms
proof (induction rule: process_history_induct)
  case start
  show ?case by (simp add: log_ok_def verdicts_ok_def runtime_state_new_def)
next
  case (command st cs fs c w st' facts w')
  then show ?case using process_log_step [OF _ command(2)] process_verdicts_step [OF _ command(2)] by blast
qed

text \<open>
  The logs of a process are dense and free of duplicates: across all runs, whatever reducer and
  clock do, events and effect requests are each numbered 1, 2, 3 and so on without a gap, the cursor
  of each is its number, and no id occurs twice in either log.
\<close>

theorem process_logs_dense:
  assumes "process_history cf stored cs fs"
  shows "map pv_seq (events_of fs) = map of_nat [1..<Suc (length (events_of fs))] \<and>
    map fx_seq (effect_requests_of fs) = map of_nat [1..<Suc (length (effect_requests_of fs))] \<and>
    (\<forall>e \<in> set (events_of fs). pv_cursor e = pv_seq e) \<and>
    (\<forall>x \<in> set (effect_requests_of fs). fx_cursor x = fx_seq x) \<and>
    distinct (map pv_id (events_of fs)) \<and> distinct (map fx_id (effect_requests_of fs))"
  using process_history_ok [OF assms] by (simp add: log_ok_def Let_def)

text \<open>
  Every command gets exactly one verdict: the statuses are those of the commands, in order; the
  audit records are numbered like them and agree with them; a refused command has an error code and
  neither events nor effects; and the logs are exactly what the audit trail lists.
\<close>

theorem process_one_verdict_per_command:
  assumes "process_history cf stored cs fs"
  shows "map ps_command_id (statuses_of fs) = map (Some \<circ> pc_id) cs \<and>
    map pa_seq (audits_of fs) = map of_nat [1..<Suc (length cs)] \<and>
    list_all2 same_verdict (statuses_of fs) (audits_of fs) \<and>
    map pv_id (events_of fs) = concat (map pa_event_ids (audits_of fs)) \<and>
    map fx_id (effect_requests_of fs) = concat (map pa_effect_ids (audits_of fs))"
  using process_history_ok [OF assms] by (simp add: verdicts_ok_def)

subsection \<open>The state as a fold\<close>

definition accepted_commands ::
  "'c process_command list \<Rightarrow> ('s, 'e, 'f, 'c) process_runtime_fact list \<Rightarrow> 'c process_command list" where
  "accepted_commands cs fs = map fst (filter (\<lambda>(c, s). ps_state s = Accepted) (zip cs (statuses_of fs)))"





subsection \<open>A corrupt stored state\<close>

lemma refuse_all_facts:
  fixes facts :: "('s, 'e, 'f, 'c) process_runtime_fact list"
  assumes "facts = refuse_all st m cs"
  shows "map ps_command_id (statuses_of facts) = map (Some \<circ> pc_id) cs \<and>
    (\<forall>s \<in> set (statuses_of facts). ps_error_code s = Some MalformedState) \<and>
    map pa_seq (audits_of facts) = map (\<lambda>i. pr_audit_seq st + of_nat i) [1..<Suc (length cs)] \<and>
    states_of facts = [] \<and> events_of facts = [] \<and> effect_requests_of facts = []"
  using assms
proof (induction cs arbitrary: st facts)
  case (Cons c cs)
  obtain st1 and f :: "('s, 'e, 'f, 'c) process_runtime_fact list"
    where f: "failure st (Some c) MalformedState m = (st1, f)" by fastforce
  have eq: "facts = f @ refuse_all st1 m cs" using f Cons.prems by simp
  from f show ?case
  proof (rule failure_facts)
    fix s a
    assume "statuses_of f = [s]" "audits_of f = [a]" "ps_command_id s = Some (pc_id c)"
      "ps_error_code s = Some MalformedState" "pa_seq a = pr_audit_seq st + 1"
      "states_of f = []" "events_of f = []" "effect_requests_of f = []"
      and "st1 = st\<lparr>pr_error_count := pr_error_count st + 1, pr_audit_seq := pr_audit_seq st + 1\<rparr>"
    then show ?thesis
      unfolding eq using Cons.IH [OF refl, of st1] upto_step [of "pr_audit_seq st" "length cs"]
      by (auto simp del: upt_Suc refuse_all.simps)
  qed
qed simp

text \<open>
  A process whose stored state does not decode refuses every command and keeps what is stored:
  each command is rejected as malformed state, no state, event or effect is emitted, and the stored
  value stays as it is. The audit numbers start from 1 in every such run, so they repeat.
\<close>

theorem process_corrupt_state_refuses:
  assumes "runtime_state_from_json value = Inl message"
    and "process_runtime_body cf (Some value) cs w = (fs, stored', p, w')"
  shows "stored' = Some value \<and> p = None \<and> w' = w \<and>
    map ps_command_id (statuses_of fs) = map (Some \<circ> pc_id) cs \<and>
    (\<forall>s \<in> set (statuses_of fs). ps_error_code s = Some MalformedState) \<and>
    states_of fs = [] \<and> events_of fs = [] \<and> effect_requests_of fs = [] \<and>
    map pa_seq (audits_of fs) = map of_nat [1..<Suc (length cs)]"
  using assms refuse_all_facts [of fs "cursor_recovery (pf_initial cf)" message cs]
  by (auto simp: process_runtime_body_def cursor_recovery_def runtime_state_new_def simp del: upt_Suc)

subsection \<open>Concrete runs\<close>

text \<open>A counter process: an add command adds its payload and asks for an effect.\<close>

definition demo_reduction :: "nat process_command \<Rightarrow> nat \<Rightarrow> (nat, nat, nat) process_reduction" where
  "demo_reduction c s = with_effects [process_effect_request_draft_new ''Notify'' (s + pc_payload c)]
     (with_events [process_event_draft_new ''Added'' (pc_payload c)]
       (process_reduction_new (s + pc_payload c)))"

definition demo_from_value :: "json \<Rightarrow> string + nat" where
  "demo_from_value j = (case j of JArray items \<Rightarrow> Inr (length items) | _ \<Rightarrow> Inl ''not a count'')"

definition demo_config :: "(unit, nat, nat, nat, nat) process_config" where
  "demo_config = \<lparr>pf_tuple_key = esc_tuple, pf_to_value = (\<lambda>n. Inr (JArray (replicate n JNull))),
     pf_from_value = demo_from_value, pf_initial = JArray [],
     pf_reduce = (\<lambda>c s w. (Inr (demo_reduction c s), w)), pf_now = (\<lambda>w. (Inr 7, w))\<rparr>"

definition demo_commands :: "nat process_command list" where
  "demo_commands = [process_command_new ''a'' ''Add'' 1, process_command_new [] ''Add'' 1,
     process_command_new ''b'' ''Add'' 2]"

definition demo_result ::
  "(nat, nat, nat, nat) process_runtime_fact list \<times> json option \<times> panic_payload option \<times> unit" where
  "demo_result = process_runtime_body demo_config None demo_commands ()"

definition demo_facts :: "(nat, nat, nat, nat) process_runtime_fact list" where
  "demo_facts = fst demo_result"

definition demo_stored :: "json option" where
  "demo_stored = fst (snd demo_result)"

lemma demo_completes: "fst (snd (snd demo_result)) = None"
  by code_simp

lemma demo_process_history: "process_history demo_config demo_stored demo_commands demo_facts"
proof -
  have "process_runtime_body demo_config None demo_commands () = (demo_facts, demo_stored, None, ())"
    using demo_completes unfolding demo_result_def [symmetric] demo_facts_def demo_stored_def
    by (simp add: prod_eq_iff)
  from process_run [OF process_start this] show ?thesis by simp
qed

lemma demo_accepted:
  "accepted_commands demo_commands demo_facts = [process_command_new ''a'' ''Add'' 1, process_command_new ''b'' ''Add'' 2]"
  "length (events_of demo_facts) = 2" "length (effect_requests_of demo_facts) = 2"
  by code_simp+

theorem process_logs_dense_witness:
  "map pv_seq (events_of demo_facts) = [1, 2] \<and> distinct (map fx_id (effect_requests_of demo_facts))"
proof -
  have "map of_nat [1..<Suc 2] = ([1, 2] :: u64 list)" by code_simp
  with process_logs_dense [OF demo_process_history] show ?thesis
    unfolding demo_accepted by (simp del: upt_Suc)
qed

theorem process_one_verdict_per_command_witness:
  "map ps_command_id (statuses_of demo_facts) = [Some ''a'', Some [], Some ''b''] \<and>
   map pa_seq (audits_of demo_facts) = [1, 2, 3]"
  using process_one_verdict_per_command [OF demo_process_history]
  by (simp add: demo_commands_def process_command_new_def upto_words del: upt_Suc)


theorem process_corrupt_state_refuses_witness:
  "statuses_of (fst (process_runtime_body demo_config (Some JNull) demo_commands ())) \<noteq> [] \<and>
   states_of (fst (process_runtime_body demo_config (Some JNull) demo_commands ())) = []"
proof -
  let ?b = "process_runtime_body demo_config (Some JNull) demo_commands ()"
  obtain m where m: "runtime_state_from_json JNull = Inl m"
    by (simp add: runtime_state_from_json_def json_required_u64_def rbind_def)
  have b: "?b = (fst ?b, fst (snd ?b), fst (snd (snd ?b)), snd (snd (snd ?b)))"
    by (simp add: prod_eq_iff)
  from process_corrupt_state_refuses [OF m b]
  have "map ps_command_id (statuses_of (fst ?b)) = map (Some \<circ> pc_id) demo_commands" "states_of (fst ?b) = []"
    by blast+
  then show ?thesis by (auto simp: demo_commands_def)
qed

subsection \<open>Effect runners\<close>

definition valid_outcome :: "'r process_effect_outcome \<Rightarrow> bool" where
  "valid_outcome oc \<longleftrightarrow> oc_effect_id oc \<noteq> [] \<and> oc_effect_type oc \<noteq> [] \<and> oc_command_id oc \<noteq> Some [] \<and>
     (case oc_kind oc of
        OutcomeResult \<Rightarrow> oc_value oc \<noteq> None \<and> oc_error oc = None \<and> oc_reason oc = None
      | OutcomeFailure \<Rightarrow> oc_error oc \<noteq> None \<and> oc_value oc = None \<and> oc_reason oc = None
      | OutcomeCancel \<Rightarrow> oc_value oc = None \<and> oc_error oc = None
      | OutcomeTimeout \<Rightarrow> oc_error oc \<noteq> None \<and> oc_value oc = None \<and> oc_reason oc = None)"

lemma validate_iff: "validate_process_effect_outcome oc = Inr () \<longleftrightarrow> valid_outcome oc"
  by (cases "oc_kind oc") (simp_all add: validate_process_effect_outcome_def valid_outcome_def reject_outcome_def)

lemma validate_error:
  "validate_process_effect_outcome oc = Inl e \<Longrightarrow> \<not> valid_outcome oc \<and> rr_outcome e = Some oc"
  using validate_iff [of oc]
  by (auto simp: validate_process_effect_outcome_def reject_outcome_def split: if_splits)

lemmas runner_readers_defs = runner_outcomes_def runner_commands_def runner_errors_def effect_runner_projection_def

lemma runner_readers_simps [simp]:
  "runner_outcomes [] = []" "runner_commands [] = []" "runner_errors [] = []"
  "runner_outcomes (RunnerOutcome oc # fs) = oc # runner_outcomes fs"
  "runner_commands (RunnerOutcome oc # fs) = runner_commands fs"
  "runner_errors (RunnerOutcome oc # fs) = runner_errors fs"
  "runner_outcomes (RunnerCommand c p # fs) = runner_outcomes fs"
  "runner_commands (RunnerCommand c p # fs) = c # runner_commands fs"
  "runner_errors (RunnerCommand c p # fs) = runner_errors fs"
  "runner_outcomes (RunnerError e # fs) = runner_outcomes fs"
  "runner_commands (RunnerError e # fs) = runner_commands fs"
  "runner_errors (RunnerError e # fs) = e # runner_errors fs"
  by (simp_all add: runner_readers_defs List.map_filter_simps)

definition command_for :: "tuple_key \<Rightarrow> 'r process_effect_outcome \<Rightarrow> 'c process_command \<Rightarrow> bool" where
  "command_for tk oc c \<longleftrightarrow> pc_id c = outcome_command_id tk oc \<and>
     pc_command_type c = command_type_as_str (command_type_for_outcome (oc_kind oc)) \<and>
     pc_process_id c = oc_process_id oc \<and> pc_correlation_id c = oc_correlation_id oc \<and>
     pc_causation_id c = oc_causation_id oc"

lemma runner_loop_facts:
  "runner_loop tk f ocs w = (facts, None, w') \<Longrightarrow>
     runner_outcomes facts = filter valid_outcome ocs \<and>
     list_all2 (command_for tk) (filter valid_outcome ocs) (runner_commands facts) \<and>
     map rr_outcome (runner_errors facts) = map Some (filter (\<lambda>oc. \<not> valid_outcome oc) ocs)"
proof (induction ocs arbitrary: w facts)
  case (Cons oc ocs)
  obtain r w1 where r: "process_effect_outcome_command tk oc f w = (r, w1)" by fastforce
  obtain fs p w2 where l: "runner_loop tk f ocs w1 = (fs, p, w2)" by (metis surj_pair)
  show ?case
  proof (cases "validate_process_effect_outcome oc")
    case (Inl e)
    with Cons.prems r l Cons.IH [of w1 fs] validate_error [OF Inl] show ?thesis
      by (auto simp: process_effect_outcome_command_def)
  next
    case (Inr u)
    then have v: "valid_outcome oc" using validate_iff [of oc] by simp
    with Inr Cons.prems r l Cons.IH [of w1 fs] show ?thesis
      by (auto simp: process_effect_outcome_command_def Let_def command_for_def split: prod.splits sum.splits)
  qed
qed simp

lemma count_requests:
  "fst (count_request requests c) = c\<lparr>rc_requested := rc_requested c + of_nat (length requests)\<rparr> \<and>
   map rt_effect_id (snd (count_request requests c)) = map (Some \<circ> fx_id) requests"
  by (induction requests arbitrary: c) (simp_all add: Let_def case_prod_unfold status_of_request_def algebra_simps)

lemma count_facts:
  "fst (count_fact facts c) = c\<lparr>rc_commanded := rc_commanded c + of_nat (length (runner_commands facts)),
     rc_rejected := rc_rejected c + of_nat (length (runner_errors facts))\<rparr> \<and>
   length (snd (count_fact facts c)) = length (runner_commands facts) + length (runner_errors facts)"
  by (induction facts c rule: count_fact.induct) (simp_all add: Let_def case_prod_unfold algebra_simps)

text \<open>
  An effect runner loses no outcome and invents none: the well-formed outcomes of a wave are
  emitted in order and each becomes one command that carries its kind, ids and correlation, every
  other outcome becomes one error that carries it, and the counters of the status node grow by the
  numbers of requests, commands and errors.
\<close>

theorem effect_runner_accounts:
  assumes "runner_runtime_body tk f batches w = (facts, None, w')"
    and "runner_status_body stored requests facts = (c, statuses)"
  defines "c0 \<equiv> case stored of Some c \<Rightarrow> c | None \<Rightarrow> runner_counters_default"
  shows "runner_outcomes facts = filter valid_outcome (concat batches) \<and>
    list_all2 (command_for tk) (filter valid_outcome (concat batches)) (runner_commands facts) \<and>
    map rr_outcome (runner_errors facts) = map Some (filter (\<lambda>oc. \<not> valid_outcome oc) (concat batches)) \<and>
    c = \<lparr>rc_requested = rc_requested c0 + of_nat (length requests),
      rc_commanded = rc_commanded c0 + of_nat (length (runner_commands facts)),
      rc_rejected = rc_rejected c0 + of_nat (length (runner_errors facts))\<rparr>"
  using runner_loop_facts [of tk f "concat batches" w facts w'] assms(1,2)
    count_requests [of requests c0] count_facts [of facts "fst (count_request requests c0)"]
  by (auto simp: runner_runtime_body_def runner_status_body_def c0_def Let_def case_prod_unfold)

text \<open>
  The id of the command made from an outcome that names none identifies the effect and the kind
  of outcome: two such outcomes get the same command id exactly if both agree.
\<close>

theorem outcome_command_ids_identify:
  assumes "inj tk" "oc_command_id a = None" "oc_command_id b = None"
  shows "outcome_command_id tk a = outcome_command_id tk b \<longleftrightarrow>
    oc_effect_id a = oc_effect_id b \<and> oc_kind a = oc_kind b"
  using assms
  by (cases "oc_kind a"; cases "oc_kind b")
    (auto simp: outcome_command_id_def compound_tuple_key_def inj_def)

definition demo_outcomes :: "nat process_effect_outcome list list" where
  "demo_outcomes = [[outcome_result ''e'' ''Notify'' 1, outcome_result [] ''Notify'' 2], [outcome_cancel ''g'' ''Notify'']]"

definition demo_runner :: "(nat option, nat) process_effect_runner_fact list \<times> panic_payload option \<times> unit" where
  "demo_runner = runner_runtime_body esc_tuple (\<lambda>p w. (Inr (cp_value p), w)) demo_outcomes ()"

lemma demo_runner_ends: "fst (snd demo_runner) = None" "length (runner_commands (fst demo_runner)) = 2"
  by code_simp+

theorem effect_runner_accounts_witness:
  "map oc_effect_id (runner_outcomes (fst demo_runner)) = [''e'', ''g''] \<and>
   length (runner_errors (fst demo_runner)) = 1"
proof -
  have b: "runner_runtime_body esc_tuple (\<lambda>p w. (Inr (cp_value p), w)) demo_outcomes () = (fst demo_runner, None, ())"
    unfolding demo_runner_def [symmetric] using demo_runner_ends(1) by (simp add: prod_eq_iff)
  let ?s = "runner_status_body None ([] :: nat process_effect_request list) (fst demo_runner)"
  have s: "?s = (fst ?s, snd ?s)" by simp
  have o: "runner_outcomes (fst demo_runner) = filter valid_outcome (concat demo_outcomes)"
    and e: "map rr_outcome (runner_errors (fst demo_runner)) = map Some (filter (\<lambda>oc. \<not> valid_outcome oc) (concat demo_outcomes))"
    using effect_runner_accounts [OF b s] by blast+
  have "length (map rr_outcome (runner_errors (fst demo_runner))) = 1"
    unfolding e by (simp add: demo_outcomes_def valid_outcome_def outcome_result_def outcome_cancel_def)
  with o show ?thesis
    by (simp add: demo_outcomes_def valid_outcome_def outcome_result_def outcome_cancel_def)
qed

theorem outcome_command_ids_identify_witness:
  "outcome_command_id esc_tuple (outcome_cancel ''g'' ''Notify'') \<noteq>
   outcome_command_id esc_tuple (outcome_cancel ''h'' ''Notify'')"
  using outcome_command_ids_identify [of esc_tuple "outcome_cancel ''g'' ''Notify''" "outcome_cancel ''h'' ''Notify''"]
    esc_tuple_inj by (simp add: inj_def outcome_cancel_def)

end
