(* ===== verification/Delivery.thy ===== *)
theory Delivery
  imports Messaging
begin

text \<open>
  What the recipes over the message bus share (\<open>cqrs/messaging.rs\<close> and \<open>process/messaging.rs\<close>,
  whose text is the same up to names): the delivery a message of a page stands for, the queue of
  deliveries that wait for a status, the acknowledgements, and the text form of a delivery in the
  details of an issue.
\<close>

subsection \<open>Deliveries\<close>

record message_bus_delivery =
  dv_topic :: string
  dv_seq :: u64
  dv_subscription_id :: string
  dv_command_id :: string

definition message_delivery ::
  "tuple_key \<Rightarrow> 't message_bus_available_page \<Rightarrow> 't message_envelope \<Rightarrow> message_bus_delivery" where
  "message_delivery tk page message = \<lparr>dv_topic = ap_topic page, dv_seq = me_seq message,
     dv_subscription_id = ap_subscription_id page,
     dv_command_id = (case me_command_id message of
        Some c \<Rightarrow> c | None \<Rightarrow> tk [ap_topic page, to_string (me_seq message)])\<rparr>"

definition ack_command :: "message_bus_delivery \<Rightarrow> string \<Rightarrow> 'c message_bus_command" where
  "ack_command delivery command_id =
     Ack (dv_topic delivery) (dv_subscription_id delivery) (dv_seq delivery) (Some command_id)"

text \<open>The first entry of the queue of a key; an empty queue is removed from the map.\<close>

definition shift_queue :: "(string, 'd list) btree \<Rightarrow> string \<Rightarrow> ('d \<times> (string, 'd list) btree) option" where
  "shift_queue queues key =
     (case bt_get queues key of
        None \<Rightarrow> None
      | Some [] \<Rightarrow> None
      | Some (first # rest) \<Rightarrow>
          Some (first, if rest = [] then bt_remove key queues else bt_insert key rest queues))"

definition push_queue :: "string \<Rightarrow> 'd \<Rightarrow> (string, 'd list) btree \<Rightarrow> (string, 'd list) btree" where
  "push_queue key d queues =
     bt_insert key ((case bt_get queues key of Some q \<Rightarrow> q | None \<Rightarrow> []) @ [d]) queues"

subsection \<open>The details of an issue\<close>

definition delivery_details :: "message_bus_delivery \<Rightarrow> string" where
  "delivery_details delivery =
     ''messageBus:topic='' @ dv_topic delivery @ '';subscription_id='' @ dv_subscription_id delivery @
     '';seq='' @ to_string (dv_seq delivery) @ '';command_id='' @ dv_command_id delivery"

text \<open>\<open>split\<close>, \<open>split_once\<close> and \<open>strip_prefix\<close> of strings, and \<open>parse\<close> of a \<open>u64\<close>.\<close>

fun split_at_char :: "char \<Rightarrow> string \<Rightarrow> string list" where
  "split_at_char sep [] = [[]]"
| "split_at_char sep (c # s) =
     (if c = sep then [] # split_at_char sep s
      else case split_at_char sep s of [] \<Rightarrow> [[c]] | p # ps \<Rightarrow> (c # p) # ps)"

fun split_once :: "char \<Rightarrow> string \<Rightarrow> (string \<times> string) option" where
  "split_once sep [] = None"
| "split_once sep (c # s) =
     (if c = sep then Some ([], s) else map_option (\<lambda>(a, b). (c # a, b)) (split_once sep s))"

definition without_prefix :: "string \<Rightarrow> string \<Rightarrow> string option" where
  "without_prefix p s = (if take (length p) s = p then Some (drop (length p) s) else None)"

definition parse_u64 :: "string \<Rightarrow> u64 option" where
  "parse_u64 s =
     (let digits = (case s of CHR ''+'' # r \<Rightarrow> r | _ \<Rightarrow> s) in
      if digits \<noteq> [] \<and> (\<forall>c \<in> set digits. of_char c \<in> {48..57 :: nat}) \<and> dec_val digits < 2 ^ 64
      then Some (of_nat (dec_val digits)) else None)"

record parsed_details =
  pd_topic :: "string option"
  pd_subscription_id :: "string option"
  pd_seq :: "u64 option"
  pd_command_id :: "string option"

fun parse_detail_parts :: "string list \<Rightarrow> parsed_details \<Rightarrow> parsed_details option" where
  "parse_detail_parts [] acc = Some acc"
| "parse_detail_parts (part # parts) acc =
     (case split_once (CHR ''='') part of
        None \<Rightarrow> None
      | Some (key, value) \<Rightarrow> parse_detail_parts parts
          (if key = ''topic'' then acc\<lparr>pd_topic := Some value\<rparr>
           else if key = ''subscription_id'' then acc\<lparr>pd_subscription_id := Some value\<rparr>
           else if key = ''seq'' then acc\<lparr>pd_seq := parse_u64 value\<rparr>
           else if key = ''command_id'' then acc\<lparr>pd_command_id := Some value\<rparr>
           else acc))"

definition parse_delivery_details :: "string \<Rightarrow> message_bus_delivery option" where
  "parse_delivery_details details =
     (case without_prefix ''messageBus:'' details of
        None \<Rightarrow> None
      | Some rest \<Rightarrow>
          (case parse_detail_parts (split_at_char (CHR '';'') rest)
             \<lparr>pd_topic = None, pd_subscription_id = None, pd_seq = None, pd_command_id = None\<rparr> of
             None \<Rightarrow> None
           | Some acc \<Rightarrow>
               (case (pd_topic acc, pd_subscription_id acc, pd_seq acc, pd_command_id acc) of
                  (Some topic, Some subscription_id, Some seq, Some command_id) \<Rightarrow>
                    Some \<lparr>dv_topic = topic, dv_seq = seq, dv_subscription_id = subscription_id,
                      dv_command_id = command_id\<rparr>
                | _ \<Rightarrow> None)))"

definition issue_delivery :: "data_issue \<Rightarrow> message_bus_delivery option" where
  "issue_delivery issue = Option.bind (di_details issue) parse_delivery_details"

subsection \<open>The acknowledging node\<close>

text \<open>
  The function of the acknowledging node, over the parts of a status that it reads: whether it
  rejects, and the command id. \<open>ack_id\<close> names the acknowledgements. \<open>issues\<close> is \<open>None\<close>
  when the node has no issue dependency.
\<close>

type_synonym ack_state = "(string, message_bus_delivery list) btree"

definition ack_deliveries :: "(string \<times> message_bus_delivery) list \<Rightarrow> ack_state \<Rightarrow> ack_state" where
  "ack_deliveries delivered st = foldl (\<lambda>st (command_id, delivery). push_queue command_id delivery st) st delivered"

fun ack_statuses ::
  "(message_bus_delivery \<Rightarrow> string \<Rightarrow> string) \<Rightarrow> bool \<Rightarrow> (bool \<times> string option) list \<Rightarrow> ack_state \<Rightarrow>
   ack_state \<times> 'c message_bus_command list" where
  "ack_statuses ack_id ack_rejected [] st = (st, [])"
| "ack_statuses ack_id ack_rejected ((rejected, command_id) # statuses) st =
     (if rejected \<and> \<not> ack_rejected then ack_statuses ack_id ack_rejected statuses st
      else
        (case command_id of
           None \<Rightarrow> ack_statuses ack_id ack_rejected statuses st
         | Some command_id \<Rightarrow>
             (case shift_queue st command_id of
                None \<Rightarrow> ack_statuses ack_id ack_rejected statuses st
              | Some (delivery, st) \<Rightarrow>
                  (let (st, acks) = ack_statuses ack_id ack_rejected statuses st in
                   (st, ack_command delivery (ack_id delivery ''status-ack'') # acks)))))"

fun ack_issues ::
  "(message_bus_delivery \<Rightarrow> string \<Rightarrow> string) \<Rightarrow> data_issue list \<Rightarrow> 'c message_bus_command list" where
  "ack_issues ack_id [] = []"
| "ack_issues ack_id (issue # issues) =
     (case issue_delivery issue of
        None \<Rightarrow> ack_issues ack_id issues
      | Some delivery \<Rightarrow> ack_command delivery (ack_id delivery ''issue-ack'') # ack_issues ack_id issues)"

definition ack_run ::
  "(message_bus_delivery \<Rightarrow> string \<Rightarrow> string) \<Rightarrow> bool \<Rightarrow> ack_state option \<Rightarrow>
   (string \<times> message_bus_delivery) list \<Rightarrow> (bool \<times> string option) list \<Rightarrow> data_issue list option \<Rightarrow>
   ack_state \<times> 'c message_bus_command list" where
  "ack_run ack_id ack_rejected stored delivered statuses issues =
     (let st = ack_deliveries delivered (case stored of Some st \<Rightarrow> st | None \<Rightarrow> []);
          (st, acks) = ack_statuses ack_id ack_rejected statuses st in
      (st, acks @ (case issues of None \<Rightarrow> [] | Some issues \<Rightarrow> ack_issues ack_id issues)))"

end
