(* ===== verification/DeliveryAcks.thy ===== *)
theory DeliveryAcks
  imports Delivery "HOL-Library.Multiset"
begin

text \<open>
  What the acknowledging node of a messaging recipe does over all its runs, and when the text form
  of a delivery can be read back.
\<close>

subsection \<open>The details of an issue\<close>

lemma split_without: "sep \<notin> set s \<Longrightarrow> split_at_char sep s = [s]"
  by (induction s) auto

lemma split_after: "sep \<notin> set a \<Longrightarrow> split_at_char sep (a @ sep # b) = a # split_at_char sep b"
  by (induction a) auto

lemma split_five:
  "sep \<notin> set a \<union> set b \<union> set c \<union> set d \<union> set e \<Longrightarrow>
     split_at_char sep (a @ sep # b @ sep # c @ sep # d @ sep # e) = [a, b, c, d, e]"
  by (simp add: split_after split_without)

lemma dec_nat_chars: "set (dec_nat n) \<subseteq> {c. of_char c \<in> {48..57 :: nat}}"
proof (induction n rule: dec_nat.induct)
  case (1 n)
  have "of_char (char_of (48 + n mod 10) :: char) \<in> {48..57 :: nat}" by simp
  then show ?case using 1 by (subst dec_nat.simps) auto
qed

lemma dec_nat_not_empty: "dec_nat n \<noteq> []"
  by (subst dec_nat.simps) simp

lemma dec_nat_no_char: "of_char c \<notin> {48..57 :: nat} \<Longrightarrow> c \<notin> set (dec_nat n)"
  using dec_nat_chars [of n] by auto

lemma parse_to_string [simp]: "parse_u64 (to_string n) = Some n"
proof -
  obtain c r where s: "to_string n = c # r"
    using dec_nat_not_empty [of "unat n"] by (auto simp: to_string_def neq_Nil_conv)
  have "CHR ''+'' \<notin> set (dec_nat (unat n))" by (rule dec_nat_no_char) simp
  then have plus: "(case to_string n of CHR ''+'' # r \<Rightarrow> r | _ \<Rightarrow> to_string n) = to_string n"
    unfolding s using s by (auto simp: to_string_def split: char.splits bool.splits)
  show ?thesis
    unfolding parse_u64_def plus Let_def
    using dec_nat_chars [of "unat n"] dec_nat_not_empty [of "unat n"] unsigned_less [of n, where ?'a = nat]
    by (auto simp: to_string_def dec_val_dec_nat)
qed

text \<open>
  The details of an issue carry its delivery: the text that names a delivery is read back as
  that delivery, if no semicolon occurs in its topic, its subscription or its command id.
\<close>

theorem delivery_details_roundtrip:
  assumes "CHR '';'' \<notin> set (dv_topic d)" "CHR '';'' \<notin> set (dv_subscription_id d)"
    and "CHR '';'' \<notin> set (dv_command_id d)"
  shows "parse_delivery_details (delivery_details d) = Some d"
proof -
  have "CHR '';'' \<notin> set (to_string (dv_seq d))"
    unfolding to_string_def by (rule dec_nat_no_char) simp
  then have "split_at_char (CHR '';'') (''topic='' @ dv_topic d @ '';subscription_id='' @ dv_subscription_id d @
      '';seq='' @ to_string (dv_seq d) @ '';command_id='' @ dv_command_id d) =
    [''topic='' @ dv_topic d, ''subscription_id='' @ dv_subscription_id d, ''seq='' @ to_string (dv_seq d),
     ''command_id='' @ dv_command_id d]"
    using split_after [of "CHR '';''" "''topic='' @ dv_topic d"]
      split_after [of "CHR '';''" "''subscription_id='' @ dv_subscription_id d"]
      split_after [of "CHR '';''" "''seq='' @ to_string (dv_seq d)"]
      split_without [of "CHR '';''" "''command_id='' @ dv_command_id d"] assms
    by simp
  then show ?thesis
    by (simp add: parse_delivery_details_def delivery_details_def without_prefix_def)
qed

theorem delivery_details_roundtrip_witness:
  "parse_delivery_details (delivery_details \<lparr>dv_topic = ''a=b'', dv_seq = 12, dv_subscription_id = ''s'',
     dv_command_id = ''[a,12]''\<rparr>) =
   Some \<lparr>dv_topic = ''a=b'', dv_seq = 12, dv_subscription_id = ''s'', dv_command_id = ''[a,12]''\<rparr>"
  by (rule delivery_details_roundtrip) simp_all

subsection \<open>Tables of queues\<close>

text \<open>
  A table that keeps a queue per key: what is pushed for a key is shifted out for that key, in the
  order in which it was pushed.
\<close>

datatype ('k, 'd) queue_event = Pushed 'k 'd | Shifted 'k

fun table_run ::
  "('k \<Rightarrow> 'd \<Rightarrow> 'm \<Rightarrow> 'm) \<Rightarrow> ('m \<Rightarrow> 'k \<Rightarrow> ('d \<times> 'm) option) \<Rightarrow> ('k, 'd) queue_event list \<Rightarrow> 'm \<Rightarrow>
   'm \<times> ('k \<times> 'd) list" where
  "table_run push shift [] m = (m, [])"
| "table_run push shift (Pushed k d # es) m = table_run push shift es (push k d m)"
| "table_run push shift (Shifted k # es) m =
     (case shift m k of
        None \<Rightarrow> table_run push shift es m
      | Some (d, m) \<Rightarrow> (let (m, taken) = table_run push shift es m in (m, (k, d) # taken)))"

definition pushed_for :: "'k \<Rightarrow> ('k, 'd) queue_event list \<Rightarrow> 'd list" where
  "pushed_for k es = List.map_filter (\<lambda>e. case e of Pushed j d \<Rightarrow> if j = k then Some d else None | Shifted _ \<Rightarrow> None) es"

definition shifts_for :: "'k \<Rightarrow> ('k, 'd) queue_event list \<Rightarrow> nat" where
  "shifts_for k es = length (filter (\<lambda>e. case e of Pushed _ _ \<Rightarrow> False | Shifted j \<Rightarrow> j = k) es)"

definition taken_for :: "'k \<Rightarrow> ('k \<times> 'd) list \<Rightarrow> 'd list" where
  "taken_for k taken = map snd (filter (\<lambda>(j, _). j = k) taken)"

locale queue_table =
  fixes queue :: "'m \<Rightarrow> 'k \<Rightarrow> 'd list"
    and push :: "'k \<Rightarrow> 'd \<Rightarrow> 'm \<Rightarrow> 'm"
    and shift :: "'m \<Rightarrow> 'k \<Rightarrow> ('d \<times> 'm) option"
    and ok :: "'m \<Rightarrow> bool"
  assumes ok_push: "ok m \<Longrightarrow> ok (push k d m)"
    and queue_push: "ok m \<Longrightarrow> queue (push k d m) = (queue m)(k := queue m k @ [d])"
    and shift_None: "ok m \<Longrightarrow> shift m k = None \<longleftrightarrow> queue m k = []"
    and shift_Some: "ok m \<Longrightarrow> shift m k = Some (d, m') \<Longrightarrow> ok m' \<and> queue m = (queue m')(k := d # queue m' k)"
begin

lemma run_fifo:
  "ok m \<Longrightarrow> table_run push shift es m = (m', taken) \<Longrightarrow>
     ok m' \<and> (\<forall>k. queue m k @ pushed_for k es = taken_for k taken @ queue m' k) \<and>
     (\<forall>k. length (taken_for k taken) \<le> shifts_for k es)"
proof (induction es arbitrary: m taken)
  case Nil
  then show ?case by (simp add: pushed_for_def taken_for_def List.map_filter_simps)
next
  case (Cons e es)
  show ?case
  proof (cases e)
    case (Pushed k d)
    have ok: "ok (push k d m)" using Cons.prems(1) by (rule ok_push)
    from Cons.IH [OF ok, of taken] Cons.prems show ?thesis
      by (simp add: Pushed queue_push pushed_for_def shifts_for_def List.map_filter_simps split: if_splits)
        (metis append.assoc append_Cons append_Nil)
  next
    case (Shifted k)
    show ?thesis
    proof (cases "shift m k")
      case None
      then have "table_run push shift es m = (m', taken)" using Cons.prems(2) by (simp add: Shifted)
      from Cons.IH [OF Cons.prems(1) this] show ?thesis
        by (auto simp: Shifted pushed_for_def shifts_for_def List.map_filter_simps intro: le_SucI)
    next
      case (Some p)
      obtain d m1 where p: "p = (d, m1)" by fastforce
      obtain m2 rest where r: "table_run push shift es m1 = (m2, rest)" by fastforce
      have s: "ok m1" "queue m = (queue m1)(k := d # queue m1 k)"
        using shift_Some [OF Cons.prems(1)] Some p by simp_all
      have t: "m2 = m'" "taken = (k, d) # rest" using Cons.prems(2) Some p r by (simp_all add: Shifted)
      from Cons.IH [OF s(1) r [unfolded t(1)]] show ?thesis
        by (auto simp: Shifted t s(2) pushed_for_def shifts_for_def taken_for_def List.map_filter_simps)
    qed
  qed
qed

end

definition queue_of :: "(string, 'd list) btree \<Rightarrow> string \<Rightarrow> 'd list" where
  "queue_of queues k = (case bt_get queues k of Some q \<Rightarrow> q | None \<Rightarrow> [])"

interpretation queues: queue_table queue_of push_queue shift_queue bt_ok
proof
  fix m :: "(string, 'd list) btree" and k :: string and d :: 'd and m'
  assume ok: "bt_ok m"
  then show "bt_ok (push_queue k d m)"
    and "queue_of (push_queue k d m) = (queue_of m)(k := queue_of m k @ [d])"
    by (auto simp: push_queue_def queue_of_def btree fun_eq_iff)
  show "shift_queue m k = None \<longleftrightarrow> queue_of m k = []"
    by (auto simp: shift_queue_def queue_of_def split: option.splits list.splits)
  assume s: "shift_queue m k = Some (d, m')"
  then obtain rest where "bt_get m k = Some (d # rest)"
      "m' = (if rest = [] then bt_remove k m else bt_insert k rest m)"
    by (auto simp: shift_queue_def split: option.splits list.splits if_splits)
  with ok show "bt_ok m' \<and> queue_of m = (queue_of m')(k := d # queue_of m' k)"
    by (auto simp: queue_of_def btree fun_eq_iff)
qed

subsection \<open>Acknowledgements\<close>

text \<open>What a run asks of the table: the deliveries are pushed, and a status that counts shifts.\<close>

definition counts :: "bool \<Rightarrow> bool \<times> string option \<Rightarrow> bool" where
  "counts ack_rejected s \<longleftrightarrow> (fst s \<longrightarrow> ack_rejected)"

definition ack_events ::
  "bool \<Rightarrow> (string \<times> message_bus_delivery) list \<Rightarrow> (bool \<times> string option) list \<Rightarrow>
   (string, message_bus_delivery) queue_event list" where
  "ack_events ack_rejected delivered statuses = map (\<lambda>(k, d). Pushed k d) delivered @
     map Shifted (List.map_filter snd (filter (counts ack_rejected) statuses))"

lemma table_run_append:
  "table_run push shift (a @ b) m =
     (let (m, s) = table_run push shift a m; (m, t) = table_run push shift b m in (m, s @ t))"
  by (induction push shift a m rule: table_run.induct) (auto simp: Let_def split: option.splits prod.splits)

lemma table_run_pushes:
  "table_run push_queue shift_queue (map (\<lambda>(k, d). Pushed k d) delivered) m = (ack_deliveries delivered m, [])"
  by (induction delivered arbitrary: m) (auto simp: ack_deliveries_def)

lemma table_run_shifts:
  "table_run push_queue shift_queue (map Shifted (List.map_filter snd (filter (counts r) statuses))) m = (m', taken) \<Longrightarrow>
     ack_statuses ack_id r statuses m = (m', map (\<lambda>(_, d). ack_command d (ack_id d ''status-ack'')) taken)"
proof (induction statuses arbitrary: m taken)
  case Nil
  then show ?case by (simp add: List.map_filter_simps)
next
  case (Cons s statuses)
  obtain rej cid where s: "s = (rej, cid)" by fastforce
  show ?case
    using Cons.prems Cons.IH
    by (auto simp: s counts_def List.map_filter_simps Let_def split: option.splits prod.splits if_splits)
qed

lemma ack_run_table:
  assumes "ack_run ack_id r stored delivered statuses issues = (st', acks)"
  obtains taken where
    "table_run push_queue shift_queue (ack_events r delivered statuses) (case stored of Some st \<Rightarrow> st | None \<Rightarrow> []) = (st', taken)"
    "acks = map (\<lambda>(_, d). ack_command d (ack_id d ''status-ack'')) taken @
      (case issues of None \<Rightarrow> [] | Some issues \<Rightarrow> ack_issues ack_id issues)"
proof -
  let ?st = "ack_deliveries delivered (case stored of Some st \<Rightarrow> st | None \<Rightarrow> [])"
  obtain m' taken where t: "table_run push_queue shift_queue (map Shifted (List.map_filter snd (filter (counts r) statuses))) ?st = (m', taken)"
    by fastforce
  show thesis
    using that [of taken] assms table_run_shifts [OF t, of ack_id, where ?'a = 'a] t
    by (simp add: ack_events_def table_run_append table_run_pushes ack_run_def Let_def)
qed

text \<open>The runs of an acknowledging node: what it received and the acknowledgements it emitted.\<close>

inductive ack_history ::
  "(message_bus_delivery \<Rightarrow> string \<Rightarrow> string) \<Rightarrow> bool \<Rightarrow> ack_state option \<Rightarrow> (string \<times> message_bus_delivery) list \<Rightarrow>
   (bool \<times> string option) list \<Rightarrow> data_issue list \<Rightarrow> 'c message_bus_command list \<Rightarrow> bool"
  for ack_id r where
  ack_start: "ack_history ack_id r None [] [] [] []"
| ack_step: "ack_history ack_id r stored ds ss iss acks \<Longrightarrow>
     ack_run ack_id r stored delivered statuses issues = (st', acks') \<Longrightarrow>
     ack_history ack_id r (Some st') (ds @ delivered) (ss @ statuses)
       (iss @ (case issues of None \<Rightarrow> [] | Some i \<Rightarrow> i)) (acks @ acks')"

definition waiting :: "ack_state option \<Rightarrow> string \<Rightarrow> message_bus_delivery list" where
  "waiting stored k = queue_of (case stored of Some st \<Rightarrow> st | None \<Rightarrow> []) k"

definition status_count :: "bool \<Rightarrow> string \<Rightarrow> (bool \<times> string option) list \<Rightarrow> nat" where
  "status_count r k ss = length (filter (\<lambda>s. counts r s \<and> snd s = Some k) ss)"

lemma ack_events_for:
  "pushed_for k (ack_events r ds ss) = taken_for k ds"
  "shifts_for k (ack_events r ds ss) = status_count r k ss"
proof -
  show "pushed_for k (ack_events r ds ss) = taken_for k ds"
    by (induction ds)
      (auto simp: ack_events_def pushed_for_def taken_for_def List.map_filter_def comp_def split: if_splits)
  show "shifts_for k (ack_events r ds ss) = status_count r k ss"
    by (induction ss) (auto simp: ack_events_def shifts_for_def status_count_def List.map_filter_def comp_def split_beta)
qed

lemma ack_issues_append: "ack_issues ack_id (a @ b) = ack_issues ack_id a @ ack_issues ack_id b"
  by (induction a) (auto split: option.splits)

text \<open>
  C21. Acknowledging loses and repeats no delivery: every acknowledgement is that of a delivery taken
  from the queue of its command or of a reported issue; the deliveries taken for a command are the
  first ones delivered for it, in order, and the others are still waiting; and no more are taken than
  statuses of that command have come, counting the rejected ones only if the policy says so.
\<close>

theorem acknowledged_in_order:
  assumes "ack_history ack_id r stored ds ss iss acks"
  shows "\<exists>taken. mset acks = mset (map (\<lambda>(_, d). ack_command d (ack_id d ''status-ack'')) taken) + mset (ack_issues ack_id iss) \<and>
    (\<forall>k. taken_for k ds = taken_for k taken @ waiting stored k \<and>
         length (taken_for k taken) \<le> status_count r k ss)"
proof -
  have "bt_ok (case stored of Some st \<Rightarrow> st | None \<Rightarrow> []) \<and>
    (\<exists>taken. mset acks = mset (map (\<lambda>(_, d). ack_command d (ack_id d ''status-ack'')) taken) + mset (ack_issues ack_id iss) \<and>
      (\<forall>k. taken_for k ds = taken_for k taken @ waiting stored k \<and>
           length (taken_for k taken) \<le> status_count r k ss))"
    using assms
  proof (induction rule: ack_history.induct)
    case ack_start
    show ?case
      by (intro conjI exI [of _ "[] :: (string \<times> message_bus_delivery) list"])
        (simp_all add: taken_for_def waiting_def queue_of_def)
  next
    case (ack_step stored ds ss iss acks delivered statuses issues st' acks')
    then obtain taken where old: "bt_ok (case stored of Some st \<Rightarrow> st | None \<Rightarrow> [])"
      "mset acks = mset (map (\<lambda>(_, d). ack_command d (ack_id d ''status-ack'')) taken) + mset (ack_issues ack_id iss)"
      "\<And>k. taken_for k ds = taken_for k taken @ waiting stored k"
      "\<And>k. length (taken_for k taken) \<le> status_count r k ss" by blast
    from ack_run_table [OF ack_step.hyps(2)] obtain new where
      new: "table_run push_queue shift_queue (ack_events r delivered statuses) (case stored of Some st \<Rightarrow> st | None \<Rightarrow> []) = (st', new)"
      and acks': "acks' = map (\<lambda>(_, d). ack_command d (ack_id d ''status-ack'')) new @
        (case issues of None \<Rightarrow> [] | Some issues \<Rightarrow> ack_issues ack_id issues)"
      by blast
    have fifo: "bt_ok st'" "\<And>k. waiting stored k @ taken_for k delivered = taken_for k new @ queue_of st' k"
      "\<And>k. length (taken_for k new) \<le> status_count r k statuses"
      using queues.run_fifo [OF old(1) new] by (auto simp: ack_events_for waiting_def)
    have app: "taken_for k (a @ b) = taken_for k a @ taken_for k b" for k and a b :: "(string \<times> message_bus_delivery) list"
      by (simp add: taken_for_def)
    have "taken_for k (ds @ delivered) = taken_for k (taken @ new) @ waiting (Some st') k" for k
      using fifo(2) [of k] old(3) [of k] by (simp add: app waiting_def)
    moreover have "length (taken_for k (taken @ new)) \<le> status_count r k (ss @ statuses)" for k
      using fifo(3) [of k] old(4) [of k] by (simp add: app status_count_def)
    moreover have "mset (acks @ acks') = mset (map (\<lambda>(_, d). ack_command d (ack_id d ''status-ack'')) (taken @ new)) +
        mset (ack_issues ack_id (iss @ (case issues of None \<Rightarrow> [] | Some i \<Rightarrow> i)))"
      using old(2) by (simp add: acks' ack_issues_append split: option.splits)
    ultimately show ?case using fifo(1) by (intro conjI exI [of _ "taken @ new"]) auto
  qed
  then show ?thesis by blast
qed

definition demo_delivery :: "nat \<Rightarrow> message_bus_delivery" where
  "demo_delivery n = \<lparr>dv_topic = ''t'', dv_seq = of_nat n, dv_subscription_id = ''s'', dv_command_id = ''c''\<rparr>"

lemma demo_acks:
  "ack_history (\<lambda>d reason. reason) False (Some [(''c'', [demo_delivery 3])])
     [(''c'', demo_delivery 1), (''c'', demo_delivery 2), (''c'', demo_delivery 3)]
     [(False, Some ''c''), (True, Some ''c''), (False, Some ''c'')] []
     ([ack_command (demo_delivery 1) ''status-ack'', ack_command (demo_delivery 2) ''status-ack''] :: nat message_bus_command list)"
proof -
  have "ack_run (\<lambda>d reason. reason) False None [(''c'', demo_delivery 1), (''c'', demo_delivery 2)] [(False, Some ''c'')] None =
      ([(''c'', [demo_delivery 2])], [ack_command (demo_delivery 1) ''status-ack'' :: nat message_bus_command])"
    by code_simp
  from ack_step [OF ack_start this] have one: "ack_history (\<lambda>d reason. reason) False (Some [(''c'', [demo_delivery 2])])
     [(''c'', demo_delivery 1), (''c'', demo_delivery 2)] [(False, Some ''c'')] [] [ack_command (demo_delivery 1) ''status-ack'' :: nat message_bus_command]"
    by simp
  have "ack_run (\<lambda>d reason. reason) False (Some [(''c'', [demo_delivery 2])]) [(''c'', demo_delivery 3)]
      [(True, Some ''c''), (False, Some ''c'')] None =
      ([(''c'', [demo_delivery 3])], [ack_command (demo_delivery 2) ''status-ack'' :: nat message_bus_command])"
    by code_simp
  from ack_step [OF one this] show ?thesis by simp
qed

theorem acknowledged_in_order_witness:
  "\<exists>taken. {#ack_command (demo_delivery 1) ''status-ack'', ack_command (demo_delivery 2) ''status-ack'' :: nat message_bus_command#} =
       mset (map (\<lambda>(_, d). ack_command d ''status-ack'') taken) \<and>
     taken_for ''c'' taken @ [demo_delivery 3] = map demo_delivery [1, 2, 3]"
proof -
  from acknowledged_in_order [OF demo_acks] obtain taken where
    t: "mset [ack_command (demo_delivery 1) ''status-ack'' :: nat message_bus_command, ack_command (demo_delivery 2) ''status-ack''] =
      mset (map (\<lambda>(_, d). ack_command d ''status-ack'') taken) + mset (ack_issues (\<lambda>d reason. reason) [])"
      "taken_for ''c'' [(''c'', demo_delivery 1), (''c'', demo_delivery 2), (''c'', demo_delivery 3)] =
        taken_for ''c'' taken @ waiting (Some [(''c'', [demo_delivery 3])]) ''c''"
    by blast
  moreover have "waiting (Some [(''c'', [demo_delivery 3])]) ''c'' = [demo_delivery 3]" by code_simp
  ultimately show ?thesis by (intro exI [of _ taken]) (simp add: taken_for_def)
qed

subsection \<open>A delivery that cannot be read back\<close>

text \<open>
  The details are not escaped: a command id that contains a semicolon and a further \<open>seq\<close>
  field is read back as the delivery of that other message, whatever message carried it, so that
  its acknowledgement moves the cumulative cursor past messages that nobody has handled.
\<close>

theorem crafted_command_id_acks_another:
  assumes "CHR '';'' \<notin> set topic" "CHR '';'' \<notin> set sub" "CHR '';'' \<notin> set c"
    and "di_details issue = Some (delivery_details \<lparr>dv_topic = topic, dv_seq = n, dv_subscription_id = sub,
      dv_command_id = c @ '';seq='' @ to_string other\<rparr>)"
  shows "ack_issues ack_id [issue] =
    [Ack topic sub other (Some (ack_id \<lparr>dv_topic = topic, dv_seq = other, dv_subscription_id = sub, dv_command_id = c\<rparr> ''issue-ack''))]"
proof -
  have nat: "CHR '';'' \<notin> set (to_string k)" for k :: u64
    unfolding to_string_def by (rule dec_nat_no_char) simp
  have "split_at_char (CHR '';'') (''topic='' @ topic @ '';subscription_id='' @ sub @
      '';seq='' @ to_string n @ '';command_id='' @ c @ '';seq='' @ to_string other) =
    [''topic='' @ topic, ''subscription_id='' @ sub, ''seq='' @ to_string n,
     ''command_id='' @ c, ''seq='' @ to_string other]"
    using split_five [of "CHR '';''" "''topic='' @ topic" "''subscription_id='' @ sub" "''seq='' @ to_string n"
        "''command_id='' @ c" "''seq='' @ to_string other"] assms nat
    by simp
  then have "issue_delivery issue = Some \<lparr>dv_topic = topic, dv_seq = other, dv_subscription_id = sub, dv_command_id = c\<rparr>"
    using assms(4)
    by (simp add: issue_delivery_def parse_delivery_details_def delivery_details_def without_prefix_def)
  then show ?thesis by (simp add: ack_command_def)
qed

theorem crafted_command_id_acks_another_witness:
  "ack_issues (\<lambda>d reason. reason) [\<lparr>di_kind = ''issue'', di_code = ''x'', di_message = [], di_severity = ''error'',
     di_source = ''cqrs.messaging'', di_topic = Some ''t'', di_details = Some (delivery_details \<lparr>dv_topic = ''t'', dv_seq = 3,
       dv_subscription_id = ''s'', dv_command_id = ''c'' @ '';seq='' @ to_string (99 :: u64)\<rparr>)\<rparr>] =
   [Ack ''t'' ''s'' 99 (Some ''issue-ack'') :: nat message_bus_command]"
  by (subst crafted_command_id_acks_another [where topic = "''t''" and sub = "''s''" and c = "''c''" and n = 3]) simp_all

end
