(* ===== verification/CqrsRecipes.thy ===== *)
theory CqrsRecipes
  imports Cqrs WorkQueue Delivery
begin

text \<open>
  CQRS over the message bus (\<open>cqrs/messaging.rs\<close>) and over the work queue
  (\<open>cqrs/work_queue.rs\<close>): messages lowered to commands and acknowledged when their command has a
  status, events published to an outbox topic; claims of queued commands dispatched to the CQRS
  runtime and disposed of by the status of the command.
\<close>

subsection \<open>Over the message bus\<close>

record 'c cqrs_delivered_command =
  dc_command :: "'c cqrs_command"
  dc_delivery :: message_bus_delivery

type_synonym ('w, 'p, 'c) cqrs_message_command_fn =
  "'p message_envelope \<Rightarrow> message_bus_delivery \<Rightarrow> ('w, 'c cqrs_command option) user_call"

record ('w, 'p, 'c) cqrs_messaging_policy =
  mp_command :: "('w, 'p, 'c) cqrs_message_command_fn"
  mp_ack_rejected :: bool
  mp_outbox_topic :: "string option"

definition cqrs_messaging_policy_new ::
  "('w, 'p, 'c) cqrs_message_command_fn \<Rightarrow> ('w, 'p, 'c) cqrs_messaging_policy" where
  "cqrs_messaging_policy_new command = \<lparr>mp_command = command, mp_ack_rejected = True, mp_outbox_topic = None\<rparr>"

datatype 'c cqrs_messaging_fact =
    MessagingCommand "'c cqrs_delivered_command"
  | MessagingIssue data_issue

definition cqrs_message_issue :: "message_bus_delivery \<Rightarrow> data_issue" where
  "cqrs_message_issue delivery = \<lparr>di_kind = ''issue'', di_code = ''cqrs-message-lowering-rejected'',
     di_message = ''CQRS messaging recipe could not lower retained message to a command fact'',
     di_severity = ''error'', di_source = ''cqrs.messaging'', di_topic = Some (dv_topic delivery),
     di_details = Some (delivery_details delivery)\<rparr>"

text \<open>
  The function of the runtime node: every message of every page in turn. The lowering is user code;
  its panic ends the run.
\<close>

fun cqrs_lower_messages ::
  "tuple_key \<Rightarrow> ('w, 'p, 'c) cqrs_messaging_policy \<Rightarrow> 'p message_bus_available_page \<Rightarrow> 'p message_envelope list \<Rightarrow>
   'w \<Rightarrow> 'c cqrs_messaging_fact list \<times> panic_payload option \<times> 'w" where
  "cqrs_lower_messages tk policy page [] w = ([], None, w)"
| "cqrs_lower_messages tk policy page (message # messages) w =
     (let delivery = message_delivery tk page message in
      case mp_command policy message delivery w of
        (Inl panic, w) \<Rightarrow> ([], Some panic, w)
      | (Inr lowered, w) \<Rightarrow>
          (let fact = (case lowered of
                 Some command \<Rightarrow> MessagingCommand \<lparr>dc_command = command, dc_delivery = delivery\<rparr>
               | None \<Rightarrow> MessagingIssue (cqrs_message_issue delivery));
               (rest, p, w) = cqrs_lower_messages tk policy page messages w in
           (fact # rest, p, w)))"

fun cqrs_messaging_body ::
  "tuple_key \<Rightarrow> ('w, 'p, 'c) cqrs_messaging_policy \<Rightarrow> 'p message_bus_available_page list \<Rightarrow> 'w \<Rightarrow>
   'c cqrs_messaging_fact list \<times> panic_payload option \<times> 'w" where
  "cqrs_messaging_body tk policy [] w = ([], None, w)"
| "cqrs_messaging_body tk policy (page # pages) w =
     (case cqrs_lower_messages tk policy page (ap_messages page) w of
        (facts, Some panic, w) \<Rightarrow> (facts, Some panic, w)
      | (facts, None, w) \<Rightarrow>
          (let (rest, p, w) = cqrs_messaging_body tk policy pages w in (facts @ rest, p, w)))"

definition messaging_delivered :: "'c cqrs_messaging_fact list \<Rightarrow> 'c cqrs_delivered_command list" where
  "messaging_delivered = List.map_filter (\<lambda>f. case f of MessagingCommand d \<Rightarrow> Some d | MessagingIssue _ \<Rightarrow> None)"

definition messaging_commands :: "'c cqrs_messaging_fact list \<Rightarrow> 'c cqrs_command list" where
  "messaging_commands = List.map_filter (\<lambda>f. case f of MessagingCommand d \<Rightarrow> Some (dc_command d) | MessagingIssue _ \<Rightarrow> None)"

definition messaging_issues :: "'c cqrs_messaging_fact list \<Rightarrow> data_issue list" where
  "messaging_issues = List.map_filter (\<lambda>f. case f of MessagingIssue i \<Rightarrow> Some i | MessagingCommand _ \<Rightarrow> None)"

definition cqrs_ack_id :: "tuple_key \<Rightarrow> message_bus_delivery \<Rightarrow> string \<Rightarrow> string" where
  "cqrs_ack_id tk delivery reason = compound_tuple_key tk ''cqrs-message-ack''
     [dv_topic delivery, dv_subscription_id delivery, to_string (dv_seq delivery), reason]"

definition cqrs_message_ack_body ::
  "tuple_key \<Rightarrow> bool \<Rightarrow> ack_state option \<Rightarrow> 'c cqrs_delivered_command list \<Rightarrow> cqrs_status list \<Rightarrow>
   data_issue list option \<Rightarrow> ack_state \<times> 'c message_bus_command list" where
  "cqrs_message_ack_body tk ack_rejected stored delivered statuses issues =
     ack_run (cqrs_ack_id tk) ack_rejected stored
       (map (\<lambda>d. (cc_id (dc_command d), dc_delivery d)) delivered)
       (map (\<lambda>s. (cs_state s = Rejected, cs_command_id s)) statuses) issues"

definition cqrs_event_outbox_commands ::
  "tuple_key \<Rightarrow> string \<Rightarrow> 'e cqrs_event list \<Rightarrow> 'e cqrs_event message_bus_command list" where
  "cqrs_event_outbox_commands tk topic events = map (\<lambda>event. Publish topic event (ev_aggregate_id event)
     (Some (compound_tuple_key tk ''cqrs-outbox'' [ev_id event])) (Some (ev_id event))) events"

subsection \<open>Over the work queue\<close>

record 'c cqrs_queued_command_payload =
  qp_kind :: string
  qp_command :: "'c cqrs_command"
  qp_idempotency_key :: "string option"
  qp_source_refs :: "string list"
  qp_policy_refs :: "string list"
  qp_actor_refs :: "string list"
  qp_audit_refs :: "string list"
  qp_metadata :: "string option"

definition cqrs_queued_command_payload_new :: "'c cqrs_command \<Rightarrow> 'c cqrs_queued_command_payload" where
  "cqrs_queued_command_payload_new command = \<lparr>qp_kind = ''cqrs-queued-command'', qp_command = command,
     qp_idempotency_key = None, qp_source_refs = [], qp_policy_refs = [], qp_actor_refs = [],
     qp_audit_refs = [], qp_metadata = None\<rparr>"

record 'c cqrs_work_queue_attempt =
  at_kind :: string
  at_work_id :: string
  at_lease_id :: string
  at_queue_attempt :: u32
  at_worker_id :: string
  at_command :: "'c cqrs_command"
  at_payload :: "'c cqrs_queued_command_payload"
  at_source_refs :: "string list"

datatype 'c cqrs_work_queue_outcome =
    OutcomeAccepted cqrs_status
  | OutcomeRejected cqrs_status "'c cqrs_error option"
  | OutcomeRelease "string option"

record cqrs_work_queue_policy =
  wp_deterministic_handler_failures :: "cqrs_error_code list"

definition cqrs_work_queue_policy_default :: cqrs_work_queue_policy where
  "cqrs_work_queue_policy_default = \<lparr>wp_deterministic_handler_failures = []\<rparr>"

definition deterministic_handler_failure :: "cqrs_error_code \<Rightarrow> cqrs_work_queue_policy \<Rightarrow> cqrs_work_queue_policy" where
  "deterministic_handler_failure code policy =
     (if code \<in> set (wp_deterministic_handler_failures policy) then policy
      else policy\<lparr>wp_deterministic_handler_failures := wp_deterministic_handler_failures policy @ [code]\<rparr>)"

fun retryable_failure :: "cqrs_work_queue_policy \<Rightarrow> cqrs_error_code option \<Rightarrow> bool" where
  "retryable_failure policy None = True"
| "retryable_failure policy (Some HandlerThrew) = (HandlerThrew \<notin> set (wp_deterministic_handler_failures policy))"
| "retryable_failure policy (Some ClockThrew) = (ClockThrew \<notin> set (wp_deterministic_handler_failures policy))"
| "retryable_failure policy (Some _) = False"

datatype 'c cqrs_queue_fact =
    QueueAttempt "'c cqrs_work_queue_attempt"
  | QueueDispatch "'c cqrs_command"
  | QueueCommand "'c cqrs_queued_command_payload work_queue_command"
  | QueueIssue data_issue

record 'c cqrs_queue_state =
  qs_payloads :: "(string, 'c cqrs_queued_command_payload) btree"
  qs_active_claims :: "(string, 'c cqrs_work_queue_attempt list) btree"
  qs_errors :: "(string, 'c cqrs_error) btree"
  qs_terminal_claims :: "string set"

definition cqrs_queue_state_default :: "'c cqrs_queue_state" where
  "cqrs_queue_state_default = \<lparr>qs_payloads = [], qs_active_claims = [], qs_errors = [], qs_terminal_claims = {}\<rparr>"

definition cqrs_submit_command :: "'c cqrs_command \<Rightarrow> 'c cqrs_queued_command_payload work_queue_command" where
  "cqrs_submit_command command =
     CmdSubmit ((cqrs_queued_command_payload_new command)\<lparr>qp_idempotency_key := Some (cc_id command)\<rparr>)
       (cc_id command @ '':cqrs-work-queue-submit'') None (Some (cc_id command))"

fun show_cqrs_error_code :: "cqrs_error_code \<Rightarrow> string" where
  "show_cqrs_error_code MalformedCommand = ''MalformedCommand''"
| "show_cqrs_error_code CqrsDuplicateCommand = ''DuplicateCommand''"
| "show_cqrs_error_code UnknownCommand = ''UnknownCommand''"
| "show_cqrs_error_code HandlerThrew = ''HandlerThrew''"
| "show_cqrs_error_code ClockThrew = ''ClockThrew''"
| "show_cqrs_error_code MalformedEvent = ''MalformedEvent''"
| "show_cqrs_error_code UnknownEvent = ''UnknownEvent''"
| "show_cqrs_error_code DuplicateEvent = ''DuplicateEvent''"

definition show_error_option :: "cqrs_error_code option \<Rightarrow> string" where
  "show_error_option code =
     (case code of None \<Rightarrow> ''None'' | Some c \<Rightarrow> ''Some('' @ show_cqrs_error_code c @ '')'')"

definition disposition_command_id :: "'c cqrs_work_queue_attempt \<Rightarrow> string \<Rightarrow> string" where
  "disposition_command_id attempt suffix = ''cqrs:'' @ at_work_id attempt @ '':'' @ at_lease_id attempt @
     '':'' @ to_string (at_queue_attempt attempt) @ '':'' @ suffix"

definition error_message :: "cqrs_error_code option \<Rightarrow> 'c cqrs_error option \<Rightarrow> string" where
  "error_message code e =
     (case e of Some e \<Rightarrow> er_message e | None \<Rightarrow> ''cqrs rejected with '' @ show_error_option code)"

definition option_or_empty :: "string option \<Rightarrow> string" where
  "option_or_empty s = (case s of Some s \<Rightarrow> s | None \<Rightarrow> [])"

fun cqrs_work_queue_disposition_command ::
  "'c cqrs_work_queue_attempt \<Rightarrow> 'c cqrs_work_queue_outcome \<Rightarrow> cqrs_work_queue_policy \<Rightarrow>
   'c cqrs_queued_command_payload work_queue_command" where
  "cqrs_work_queue_disposition_command attempt (OutcomeRelease reason) policy =
     CmdRelease (disposition_command_id attempt ''release'') None None (at_work_id attempt)
       (at_lease_id attempt) (at_queue_attempt attempt) (at_worker_id attempt) reason None"
| "cqrs_work_queue_disposition_command attempt (OutcomeAccepted status) policy =
     CmdComplete (disposition_command_id attempt ''complete'') None None (at_work_id attempt)
       (at_lease_id attempt) (at_queue_attempt attempt) (at_worker_id attempt)
       (Some (''cqrs-accepted:command_id='' @ option_or_empty (cs_command_id status) @
          '';event_count='' @ dec_nat (cs_event_count status))) None"
| "cqrs_work_queue_disposition_command attempt (OutcomeRejected status e) policy =
     (let code = cs_error_code status in
      if code = Some HandlerThrew \<or> code = Some ClockThrew \<or> code = None
      then CmdFail (disposition_command_id attempt ''fail'') None None (at_work_id attempt)
        (at_lease_id attempt) (at_queue_attempt attempt) (at_worker_id attempt)
        (Some (error_message code e)) (Some (retryable_failure policy code)) None
      else CmdComplete (disposition_command_id attempt ''complete'') None None (at_work_id attempt)
        (at_lease_id attempt) (at_queue_attempt attempt) (at_worker_id attempt)
        (Some (''cqrs-rejected:command_id='' @ option_or_empty (cs_command_id status) @
           '';error_code='' @ show_error_option code @ '';event_count='' @ dec_nat (cs_event_count status)))
        None)"

fun record_kind :: "'t work_queue_record \<Rightarrow> string" where
  "record_kind (WorkAdmitted _ _ _ _ _ _ _ _ _ _ _) = ''work-admitted''"
| "record_kind (AdmissionDeduped _ _ _ _ _ _ _) = ''admission-deduped''"
| "record_kind (WorkScheduled _ _ _ _ _ _ _ _ _) = ''work-scheduled''"
| "record_kind (WorkClaimed _ _ _ _ _ _ _ _ _) = ''work-claimed''"
| "record_kind (LeaseRenewed _ _ _ _ _ _ _ _ _ _) = ''lease-renewed''"
| "record_kind (WorkReleased _ _ _ _ _ _ _ _ _) = ''work-released''"
| "record_kind (LeaseExpired _ _ _ _ _ _ _ _ _) = ''lease-expired''"
| "record_kind (AttemptCompleted _ _ _ _ _ _ _ _ _) = ''attempt-completed''"
| "record_kind (WorkCompleted _ _ _ _ _ _ _ _ _) = ''work-completed''"
| "record_kind (AttemptFailed _ _ _ _ _ _ _ _ _ _) = ''attempt-failed''"
| "record_kind (RetryScheduled _ _ _ _ _ _ _ _) = ''retry-scheduled''"
| "record_kind (WorkDeadLettered _ _ _ _ _ _ _) = ''work-dead-lettered''"
| "record_kind (WorkCanceled _ _ _ _ _ _ _ _) = ''work-canceled''"

definition queue_issue :: "'t work_queue_record \<Rightarrow> string \<Rightarrow> data_issue" where
  "queue_issue r code = \<lparr>di_kind = ''issue'', di_code = code,
     di_message = ''CQRS workQueue recipe could not map workQueue record '' @ quoted (record_kind r),
     di_severity = ''error'', di_source = ''cqrs.workQueue'', di_topic = None,
     di_details = Some (''work_id='' @ record_work_id r @ '';record_seq='' @ to_string (record_seq r))\<rparr>"

definition retain_active_claims ::
  "('c cqrs_work_queue_attempt \<Rightarrow> bool) \<Rightarrow> 'c cqrs_queue_state \<Rightarrow> 'c cqrs_queue_state" where
  "retain_active_claims keep st = st\<lparr>qs_active_claims :=
     filter (\<lambda>(_, claims). claims \<noteq> []) (map (\<lambda>(key, claims). (key, filter keep claims)) (qs_active_claims st))\<rparr>"

definition other_claim :: "string \<Rightarrow> string \<Rightarrow> u32 \<Rightarrow> string \<Rightarrow> 'c cqrs_work_queue_attempt \<Rightarrow> bool" where
  "other_claim work_id lease_id attempt worker_id claim \<longleftrightarrow>
     at_work_id claim \<noteq> work_id \<or> at_lease_id claim \<noteq> lease_id \<or>
     at_queue_attempt claim \<noteq> attempt \<or> at_worker_id claim \<noteq> worker_id"

fun invalidate_claims_for_record :: "'t work_queue_record \<Rightarrow> 'c cqrs_queue_state \<Rightarrow> 'c cqrs_queue_state" where
  "invalidate_claims_for_record (WorkReleased _ _ work_id _ lease_id attempt worker_id _ _) st =
     retain_active_claims (other_claim work_id lease_id attempt worker_id) st"
| "invalidate_claims_for_record (LeaseExpired _ _ work_id _ lease_id attempt worker_id _ _) st =
     retain_active_claims (other_claim work_id lease_id attempt worker_id) st"
| "invalidate_claims_for_record (AttemptFailed _ _ work_id _ lease_id attempt worker_id _ _ _) st =
     retain_active_claims (other_claim work_id lease_id attempt worker_id) st"
| "invalidate_claims_for_record (AttemptCompleted _ _ work_id _ lease_id attempt worker_id _ _) st =
     retain_active_claims (other_claim work_id lease_id attempt worker_id) st"
| "invalidate_claims_for_record (WorkCompleted _ _ work_id _ lease_id attempt worker_id _ _) st =
     retain_active_claims (other_claim work_id lease_id attempt worker_id) st"
| "invalidate_claims_for_record (WorkDeadLettered _ _ work_id _ _ _ _) st =
     retain_active_claims (\<lambda>claim. at_work_id claim \<noteq> work_id) st"
| "invalidate_claims_for_record (WorkCanceled _ _ work_id _ _ _ canceled_lease_id attempt) st =
     retain_active_claims (\<lambda>claim.
       if at_work_id claim \<noteq> work_id then True
       else if (case canceled_lease_id of Some l \<Rightarrow> at_lease_id claim \<noteq> l | None \<Rightarrow> False) then True
       else if (case attempt of Some a \<Rightarrow> at_queue_attempt claim \<noteq> a | None \<Rightarrow> False) then True
       else False) st"
| "invalidate_claims_for_record _ st = st"

text \<open>\<open>worker\<close> is the worker the recipe serves, if it serves only one.\<close>

fun reduce_record ::
  "string option \<Rightarrow> 'c cqrs_queued_command_payload work_queue_record \<Rightarrow> 'c cqrs_queue_state \<Rightarrow>
   'c cqrs_queue_state \<times> 'c cqrs_queue_fact list" where
  "reduce_record worker (WorkAdmitted seq q work_id payload mb pr tags reqs nb dl rec_at) st =
     (if qp_kind payload = ''cqrs-queued-command''
      then (st\<lparr>qs_payloads := bt_insert work_id payload (qs_payloads st)\<rparr>, [])
      else (st, [QueueIssue (queue_issue (WorkAdmitted seq q work_id payload mb pr tags reqs nb dl rec_at)
        ''cqrs-queue-malformed-payload'')]))"
| "reduce_record worker (WorkClaimed seq q work_id cmd lease_id attempt worker_id rec_at ex) st =
     (if (case worker of Some expected \<Rightarrow> expected \<noteq> worker_id | None \<Rightarrow> False) then (st, [])
      else
        (case bt_get (qs_payloads st) work_id of
           None \<Rightarrow> (st,
             [QueueIssue (queue_issue (WorkClaimed seq q work_id cmd lease_id attempt worker_id rec_at ex :: 'c cqrs_queued_command_payload work_queue_record)
                ''cqrs-claim-without-payload''),
              QueueCommand (CmdRelease (''cqrs:'' @ work_id @ '':'' @ lease_id @ '':'' @ to_string attempt @
                '':release-no-payload'') None None work_id lease_id attempt worker_id
                (Some ''cqrs-claim-without-payload'') None)])
         | Some payload \<Rightarrow>
             (let fact = \<lparr>at_kind = ''cqrs-work-queue-attempt'', at_work_id = work_id,
                    at_lease_id = lease_id, at_queue_attempt = attempt, at_worker_id = worker_id,
                    at_command = qp_command payload, at_payload = payload,
                    at_source_refs = [''work-queue-record:'' @ to_string seq]\<rparr> in
              (st\<lparr>qs_active_claims := push_queue (cc_id (at_command fact)) fact (qs_active_claims st)\<rparr>,
               [QueueAttempt fact, QueueDispatch (at_command fact)]))))"
| "reduce_record worker r st = (invalidate_claims_for_record r st, [])"

definition shift_active_claim ::
  "(string, 'c cqrs_work_queue_attempt list) btree \<Rightarrow> string \<Rightarrow>
   ('c cqrs_work_queue_attempt \<times> (string, 'c cqrs_work_queue_attempt list) btree) option" where
  "shift_active_claim = shift_queue"

definition claim_key :: "'c cqrs_work_queue_attempt \<Rightarrow> string" where
  "claim_key attempt = at_work_id attempt @ '':'' @ at_lease_id attempt @ '':'' @ to_string (at_queue_attempt attempt)"

definition status_issue :: "string \<Rightarrow> string \<Rightarrow> string \<Rightarrow> data_issue" where
  "status_issue code message cid = \<lparr>di_kind = ''issue'', di_code = code, di_message = message,
     di_severity = ''error'', di_source = ''cqrs.workQueue'', di_topic = None,
     di_details = Some (''cqrs-command:'' @ cid)\<rparr>"

definition reduce_status ::
  "cqrs_work_queue_policy \<Rightarrow> cqrs_status \<Rightarrow> 'c cqrs_queue_state \<Rightarrow> 'c cqrs_queue_state \<times> 'c cqrs_queue_fact list" where
  "reduce_status policy status st =
     (case cs_command_id status of
        None \<Rightarrow> (st, [])
      | Some cid \<Rightarrow>
          (case shift_active_claim (qs_active_claims st) cid of
             None \<Rightarrow> (st, [QueueIssue (status_issue ''cqrs-status-without-active-queue-claim''
               ''CQRS workQueue recipe observed status without an active queue claim'' cid)])
           | Some (attempt, claims) \<Rightarrow>
               (let st = st\<lparr>qs_active_claims := claims\<rparr>; key = claim_key attempt in
                if key \<in> qs_terminal_claims st
                then (st, [QueueIssue (status_issue ''cqrs-duplicate-terminal-outcome-for-queue-claim''
                  (''CQRS queue claim '' @ quoted key @ '' already produced a terminal disposition'') cid)])
                else
                  (let outcome = (if cs_state status = Accepted then OutcomeAccepted status
                         else OutcomeRejected status (bt_get (qs_errors st) cid)) in
                   (st\<lparr>qs_terminal_claims := insert key (qs_terminal_claims st)\<rparr>,
                    [QueueCommand (cqrs_work_queue_disposition_command attempt outcome policy)])))))"

fun for_all :: "('a \<Rightarrow> 's \<Rightarrow> 's \<times> 'f list) \<Rightarrow> 'a list \<Rightarrow> 's \<Rightarrow> 's \<times> 'f list" where
  "for_all step [] st = (st, [])"
| "for_all step (a # as) st =
     (let (st, facts) = step a st; (st, rest) = for_all step as st in (st, facts @ rest))"

definition remember_errors :: "'c cqrs_error list \<Rightarrow> 'c cqrs_queue_state \<Rightarrow> 'c cqrs_queue_state" where
  "remember_errors errors st = foldl (\<lambda>st e. case er_command e of
       Some command \<Rightarrow> st\<lparr>qs_errors := bt_insert (cc_id command) e (qs_errors st)\<rparr>
     | None \<Rightarrow> st) st errors"

text \<open>The function of the runtime node; \<open>errors\<close> is \<open>None\<close> when it has no error dependency.\<close>

definition cqrs_queue_body ::
  "string option \<Rightarrow> cqrs_work_queue_policy \<Rightarrow> 'c cqrs_queue_state option \<Rightarrow>
   'c cqrs_queued_command_payload work_queue_record list \<Rightarrow> cqrs_status list \<Rightarrow> 'c cqrs_error list option \<Rightarrow>
   'c cqrs_queue_state \<times> 'c cqrs_queue_fact list" where
  "cqrs_queue_body worker policy stored records statuses errors =
     (let st = (case stored of Some st \<Rightarrow> st | None \<Rightarrow> cqrs_queue_state_default);
          (st, a) = for_all (reduce_record worker) records st;
          st = (case errors of Some errors \<Rightarrow> remember_errors errors st | None \<Rightarrow> st);
          (st, b) = for_all (reduce_status policy) statuses st in
      (st, a @ b))"

definition queue_attempts :: "'c cqrs_queue_fact list \<Rightarrow> 'c cqrs_work_queue_attempt list" where
  "queue_attempts = List.map_filter (\<lambda>f. case f of QueueAttempt a \<Rightarrow> Some a | _ \<Rightarrow> None)"

definition queue_dispatches :: "'c cqrs_queue_fact list \<Rightarrow> 'c cqrs_command list" where
  "queue_dispatches = List.map_filter (\<lambda>f. case f of QueueDispatch c \<Rightarrow> Some c | _ \<Rightarrow> None)"

definition queue_commands :: "'c cqrs_queue_fact list \<Rightarrow> 'c cqrs_queued_command_payload work_queue_command list" where
  "queue_commands = List.map_filter (\<lambda>f. case f of QueueCommand c \<Rightarrow> Some c | _ \<Rightarrow> None)"

definition queue_issues :: "'c cqrs_queue_fact list \<Rightarrow> data_issue list" where
  "queue_issues = List.map_filter (\<lambda>f. case f of QueueIssue i \<Rightarrow> Some i | _ \<Rightarrow> None)"

end
