(* ===== verification/CqrsFlow.thy ===== *)
theory CqrsFlow
  imports CqrsRecipes CqrsHistory
begin

text \<open>
  The work queue, the recipe and the CQRS runtime together: which claims the recipe settles over all
  its runs, and what a retry of a failed command comes to.
\<close>

subsection \<open>Settlements\<close>

fun settles :: "'t work_queue_command \<Rightarrow> bool" where
  "settles (CmdComplete _ _ _ _ _ _ _ _ _) = True"
| "settles (CmdFail _ _ _ _ _ _ _ _ _ _) = True"
| "settles _ = False"

definition settlement ::
  "cqrs_work_queue_policy \<Rightarrow> 'c cqrs_work_queue_attempt \<times> cqrs_status \<times> 'c cqrs_error option \<Rightarrow>
   'c cqrs_queued_command_payload work_queue_command" where
  "settlement policy = (\<lambda>(a, s, e). cqrs_work_queue_disposition_command a
     (if cs_state s = Accepted then OutcomeAccepted s else OutcomeRejected s e) policy)"

lemma settles_settlement [simp]: "settles (settlement policy x)"
  by (cases x) (simp add: settlement_def Let_def)

lemma queue_readers_append [simp]:
  "queue_attempts (a @ b) = queue_attempts a @ queue_attempts b"
  "queue_commands (a @ b) = queue_commands a @ queue_commands b"
  by (simp_all add: queue_attempts_def queue_commands_def List.map_filter_def)

lemma queue_readers_command [simp]:
  "queue_attempts [QueueCommand c] = []" "queue_commands [QueueCommand c] = [c]"
  by (simp_all add: queue_attempts_def queue_commands_def List.map_filter_simps)

definition settled_ok ::
  "cqrs_work_queue_policy \<Rightarrow> string set \<Rightarrow> cqrs_status list \<Rightarrow> 'c cqrs_queue_fact list \<Rightarrow>
   ('c cqrs_work_queue_attempt \<times> cqrs_status \<times> 'c cqrs_error option) list \<Rightarrow> bool" where
  "settled_ok policy keys ss facts settled \<longleftrightarrow>
     distinct (map (claim_key \<circ> fst) settled) \<and> claim_key ` fst ` set settled = keys \<and>
     (\<forall>(a, s, e) \<in> set settled. a \<in> set (queue_attempts facts) \<and> s \<in> set ss \<and>
        cs_command_id s = Some (cc_id (at_command a))) \<and>
     filter settles (queue_commands facts) = map (settlement policy) settled"

definition claims_ok :: "(string, 'c cqrs_work_queue_attempt list) btree \<Rightarrow> 'c cqrs_queue_fact list \<Rightarrow> bool" where
  "claims_ok claims facts \<longleftrightarrow>
     (\<forall>k q a. (k, q) \<in> set claims \<longrightarrow> a \<in> set q \<longrightarrow>
        a \<in> set (queue_attempts facts) \<and> cc_id (at_command a) = k)"

definition queue_inv ::
  "cqrs_work_queue_policy \<Rightarrow> 'c cqrs_queue_state \<Rightarrow> cqrs_status list \<Rightarrow> 'c cqrs_queue_fact list \<Rightarrow> bool" where
  "queue_inv policy st ss facts \<longleftrightarrow>
     claims_ok (qs_active_claims st) facts \<and> (\<exists>settled. settled_ok policy (qs_terminal_claims st) ss facts settled)"

lemma claims_ok_mono:
  "claims_ok claims facts \<Longrightarrow> set (queue_attempts facts) \<subseteq> set (queue_attempts facts') \<Longrightarrow>
     (\<And>k q a. (k, q) \<in> set claims' \<Longrightarrow> a \<in> set q \<Longrightarrow> \<exists>q'. (k, q') \<in> set claims \<and> a \<in> set q') \<Longrightarrow>
     claims_ok claims' facts'"
proof (unfold claims_ok_def, intro allI impI)
  fix k q a
  assume old: "\<forall>k q a. (k, q) \<in> set claims \<longrightarrow> a \<in> set q \<longrightarrow>
      a \<in> set (queue_attempts facts) \<and> cc_id (at_command a) = k"
    and sub: "set (queue_attempts facts) \<subseteq> set (queue_attempts facts')"
    and from_old: "\<And>k q a. (k, q) \<in> set claims' \<Longrightarrow> a \<in> set q \<Longrightarrow> \<exists>q'. (k, q') \<in> set claims \<and> a \<in> set q'"
    and a: "(k, q) \<in> set claims'" "a \<in> set q"
  from from_old [OF a] obtain q' where "(k, q') \<in> set claims" "a \<in> set q'" by blast
  with old sub show "a \<in> set (queue_attempts facts') \<and> cc_id (at_command a) = k" by blast
qed

lemma settled_ok_mono:
  "settled_ok policy keys ss facts settled \<Longrightarrow> filter settles (queue_commands new) = [] \<Longrightarrow>
     settled_ok policy keys (ss @ ss') (facts @ new) settled"
  unfolding settled_ok_def by (auto simp: split_beta)

lemma retain_inv:
  "queue_inv policy st ss facts \<Longrightarrow> queue_inv policy (retain_active_claims keep st) ss facts"
  unfolding queue_inv_def retain_active_claims_def
  by (fastforce intro!: claims_ok_mono [of "qs_active_claims st" facts facts])

lemma invalidate_inv:
  "queue_inv policy st ss facts \<Longrightarrow> queue_inv policy (invalidate_claims_for_record r st) ss facts"
  by (cases r) (simp_all add: retain_inv)

lemma claims_ok_push:
  assumes "claims_ok claims facts" "a \<in> set (queue_attempts new)" "cc_id (at_command a) = k"
  shows "claims_ok (push_queue k a claims) (facts @ new)"
proof -
  let ?q = "(case bt_get claims k of Some q \<Rightarrow> q | None \<Rightarrow> []) @ [a]"
  have "b \<in> set (queue_attempts (facts @ new)) \<and> cc_id (at_command b) = j"
    if "(j, q) \<in> set (push_queue k a claims)" "b \<in> set q" for j q b
  proof -
    from that(1) have "(j, q) \<in> set claims \<or> j = k \<and> q = ?q"
      using set_bt_insert [of k ?q claims] by (auto simp: push_queue_def)
    then show ?thesis
      using assms that(2) by (fastforce simp: claims_ok_def dest: map_of_SomeD split: option.splits)
  qed
  then show ?thesis unfolding claims_ok_def by blast
qed

lemma queue_record_inv:
  assumes "queue_inv policy st ss facts" "reduce_record worker r st = (st', new)"
  shows "queue_inv policy st' ss (facts @ new)"
proof -
  have quiet: "queue_inv policy st' ss (facts @ new)"
    if "claims_ok (qs_active_claims st') (facts @ new)" "qs_terminal_claims st' = qs_terminal_claims st"
      "filter settles (queue_commands new) = []"
    using assms(1) that settled_ok_mono [of policy _ ss facts _ new "[]"] by (auto simp: queue_inv_def)
  have keep: "claims_ok (qs_active_claims st) (facts @ new)"
    using assms(1) by (auto simp: queue_inv_def intro: claims_ok_mono)
  show ?thesis
  proof (cases r)
    case (WorkAdmitted seq q work_id payload mb pr tags reqs nb dl rec_at)
    with assms(2) keep show ?thesis
      by (intro quiet) (auto simp: queue_commands_def List.map_filter_simps split: if_splits)
  next
    case (WorkClaimed seq q work_id cmd lease_id attempt worker_id rec_at ex)
    have "claims_ok (qs_active_claims st) facts" using assms(1) by (simp add: queue_inv_def)
    with WorkClaimed assms(2) keep show ?thesis
      by (intro quiet)
        (auto simp: queue_commands_def queue_attempts_def List.map_filter_simps Let_def
          intro!: claims_ok_push split: if_splits option.splits)
  qed (use assms invalidate_inv [OF assms(1), of r] in \<open>simp_all\<close>)
qed

lemma shift_claims_ok:
  assumes "claims_ok claims facts" "shift_active_claim claims k = Some (a, claims')"
  shows "a \<in> set (queue_attempts facts) \<and> cc_id (at_command a) = k \<and> claims_ok claims' facts"
proof -
  obtain rest where g: "bt_get claims k = Some (a # rest)"
    and c: "claims' = (if rest = [] then bt_remove k claims else bt_insert k rest claims)"
    using assms(2) by (auto simp: shift_active_claim_def shift_queue_def split: option.splits list.splits)
  have in_claims: "(k, a # rest) \<in> set claims" using g by (rule map_of_SomeD)
  have "claims_ok claims' facts"
  proof (rule claims_ok_mono [OF assms(1) subset_refl])
    fix j q b assume "(j, q) \<in> set claims'" "b \<in> set q"
    then show "\<exists>q'. (j, q') \<in> set claims \<and> b \<in> set q'"
      using in_claims set_bt_remove [of k claims] set_bt_insert [of k rest claims]
      by (fastforce simp: c split: if_splits)
  qed
  then show ?thesis using assms(1) in_claims by (auto simp: claims_ok_def)
qed

lemma status_inv:
  assumes "queue_inv policy st ss facts" "reduce_status policy s st = (st', new)"
  shows "queue_inv policy st' (ss @ [s]) (facts @ new)"
proof -
  obtain settled where claims: "claims_ok (qs_active_claims st) facts"
    and settled: "settled_ok policy (qs_terminal_claims st) ss facts settled"
    using assms(1) by (auto simp: queue_inv_def)
  have quiet: "queue_inv policy st' (ss @ [s]) (facts @ new)"
    if "claims_ok (qs_active_claims st') facts" "qs_terminal_claims st' = qs_terminal_claims st"
      "filter settles (queue_commands new) = []"
    using that settled settled_ok_mono [of policy _ ss facts _ new "[s]"]
    by (auto simp: queue_inv_def intro: claims_ok_mono)
  show ?thesis
  proof (cases "Option.bind (cs_command_id s) (\<lambda>cid. shift_active_claim (qs_active_claims st) cid)")
    case None
    with assms(2) claims show ?thesis
      by (intro quiet)
        (auto simp: reduce_status_def queue_commands_def List.map_filter_simps split: option.splits)
  next
    case (Some p)
    then obtain cid a claims' where cid: "cs_command_id s = Some cid"
      and shift: "shift_active_claim (qs_active_claims st) cid = Some (a, claims')"
      by (cases p) (auto split: bind_splits)
    have a: "a \<in> set (queue_attempts facts)" "cc_id (at_command a) = cid" "claims_ok claims' facts"
      using shift_claims_ok [OF claims shift] by simp_all
    show ?thesis
    proof (cases "claim_key a \<in> qs_terminal_claims st")
      case True
      with assms(2) a show ?thesis
        by (intro quiet) (auto simp: reduce_status_def cid shift Let_def queue_commands_def List.map_filter_simps)
    next
      case False
      let ?x = "(a, s, bt_get (qs_errors st) cid)"
      have st': "qs_active_claims st' = claims'" "qs_terminal_claims st' = insert (claim_key a) (qs_terminal_claims st)"
        and new: "new = [QueueCommand (settlement policy ?x)]"
        using assms(2) False by (auto simp: reduce_status_def cid shift Let_def settlement_def)
      have "settled_ok policy (qs_terminal_claims st') (ss @ [s]) (facts @ new) (settled @ [?x])"
        using settled a False cid
        by (auto simp: settled_ok_def st' new split_beta)
      moreover have "claims_ok claims' (facts @ new)" using a(3) by (rule claims_ok_mono) auto
      ultimately show ?thesis by (auto simp: queue_inv_def st')
    qed
  qed
qed

lemma queue_records_inv:
  "queue_inv policy st ss facts \<Longrightarrow> for_all (reduce_record worker) rs st = (st', new) \<Longrightarrow>
     queue_inv policy st' ss (facts @ new)"
proof (induction rs arbitrary: st facts new)
  case (Cons r rs)
  obtain st1 a where 1: "reduce_record worker r st = (st1, a)" by fastforce
  obtain b where 2: "for_all (reduce_record worker) rs st1 = (st', b)" "new = a @ b"
    using Cons.prems(2) by (auto simp: 1 split: prod.splits)
  show ?case
    using Cons.IH [OF queue_record_inv [OF Cons.prems(1) 1] 2(1)] by (simp add: 2(2))
qed simp

lemma queue_statuses_inv:
  "queue_inv policy st ss facts \<Longrightarrow> for_all (reduce_status policy) statuses st = (st', new) \<Longrightarrow>
     queue_inv policy st' (ss @ statuses) (facts @ new)"
proof (induction statuses arbitrary: st ss facts new)
  case (Cons s statuses)
  obtain st1 a where 1: "reduce_status policy s st = (st1, a)" by fastforce
  obtain b where 2: "for_all (reduce_status policy) statuses st1 = (st', b)" "new = a @ b"
    using Cons.prems(2) by (auto simp: 1 split: prod.splits)
  show ?case
    using Cons.IH [OF status_inv [OF Cons.prems(1) 1] 2(1)] by (simp add: 2(2))
qed simp

lemma remember_errors_frame:
  "qs_active_claims (remember_errors es st) = qs_active_claims st"
  "qs_terminal_claims (remember_errors es st) = qs_terminal_claims st"
  by (induction es arbitrary: st) (auto simp: remember_errors_def split: option.splits)

text \<open>The runs of the recipe: the statuses it received and the facts it emitted.\<close>

inductive queue_history ::
  "string option \<Rightarrow> cqrs_work_queue_policy \<Rightarrow> 'c cqrs_queue_state option \<Rightarrow> cqrs_status list \<Rightarrow>
   'c cqrs_queue_fact list \<Rightarrow> bool"
  for worker policy where
  queue_start: "queue_history worker policy None [] []"
| queue_step: "queue_history worker policy stored ss facts \<Longrightarrow>
     cqrs_queue_body worker policy stored records statuses errors = (st', new) \<Longrightarrow>
     queue_history worker policy (Some st') (ss @ statuses) (facts @ new)"

lemma queue_history_inv:
  "queue_history worker policy stored ss facts \<Longrightarrow>
     queue_inv policy (case stored of Some st \<Rightarrow> st | None \<Rightarrow> cqrs_queue_state_default) ss facts"
proof (induction rule: queue_history.induct)
  case queue_start
  have "settled_ok policy {} [] [] []" by (simp add: settled_ok_def queue_commands_def List.map_filter_simps)
  then show ?case
    by (auto simp: queue_inv_def cqrs_queue_state_default_def claims_ok_def)
next
  case (queue_step stored ss facts records statuses errors st' new)
  obtain st1 a where 1: "for_all (reduce_record worker) records
      (case stored of Some st \<Rightarrow> st | None \<Rightarrow> cqrs_queue_state_default) = (st1, a)" by fastforce
  let ?st2 = "case errors of Some errors \<Rightarrow> remember_errors errors st1 | None \<Rightarrow> st1"
  have 2: "queue_inv policy ?st2 ss (facts @ a)"
    using queue_records_inv [OF queue_step.IH 1] by (auto simp: queue_inv_def remember_errors_frame split: option.splits)
  obtain b where 3: "for_all (reduce_status policy) statuses ?st2 = (st', b)" "new = a @ b"
    using queue_step.hyps(2) by (auto simp: cqrs_queue_body_def 1 Let_def split: prod.splits)
  show ?case using queue_statuses_inv [OF 2 3(1)] by (simp add: 3(2))
qed

text \<open>
  C20. No claim is settled twice: over all its runs, the complete and fail commands that the recipe
  sends to the work queue are the dispositions of attempts that it has emitted, each by a status of
  the command of that attempt, and no two of them are of the same work, lease and attempt.
\<close>

theorem queue_settles_each_claim_once:
  assumes "queue_history worker policy stored ss facts"
  shows "\<exists>settled. filter settles (queue_commands facts) = map (settlement policy) settled \<and>
    distinct (map (claim_key \<circ> fst) settled) \<and>
    (\<forall>(a, s, e) \<in> set settled. a \<in> set (queue_attempts facts) \<and> s \<in> set ss \<and>
       cs_command_id s = Some (cc_id (at_command a)))"
  using queue_history_inv [OF assms] by (auto simp: queue_inv_def settled_ok_def)

definition demo_command :: "nat cqrs_command" where
  "demo_command = cqrs_command_new ''c'' ''open'' 7"

definition demo_attempt :: "nat \<Rightarrow> nat cqrs_work_queue_attempt" where
  "demo_attempt n = \<lparr>at_kind = ''cqrs-work-queue-attempt'', at_work_id = ''w'', at_lease_id = ''l'' @ dec_nat n,
     at_queue_attempt = of_nat n, at_worker_id = ''me'', at_command = demo_command,
     at_payload = cqrs_queued_command_payload_new demo_command, at_source_refs = [''work-queue-record:2'']\<rparr>"

definition demo_status :: cqrs_status where
  "demo_status = \<lparr>cs_state = Accepted, cs_command_id = Some ''c'', cs_command_type = Some ''open'', cs_event_count = 1,
     cs_error_code = None, cs_cursor = cursor_of cqrs_runtime_state_default cqrs_dedupe_policy_default\<rparr>"

definition demo_records :: "nat cqrs_queued_command_payload work_queue_record list" where
  "demo_records = [WorkAdmitted 1 ''q'' ''w'' (cqrs_queued_command_payload_new demo_command)
       \<lparr>mr_topic = ''t'', mr_seq = 1, mr_subscription_id = ''s''\<rparr> None [] [] None None 0,
     WorkClaimed 2 ''q'' ''w'' ''claim'' ''l1'' 1 ''me'' 0 100]"

theorem queue_settles_each_claim_once_witness:
  "\<exists>st facts. cqrs_queue_body None cqrs_work_queue_policy_default None demo_records [demo_status, demo_status] None = (st, facts) \<and>
     length (queue_issues facts) = 1 \<and>
     (\<exists>settled. filter settles (queue_commands facts) = map (settlement cqrs_work_queue_policy_default) settled \<and>
        distinct (map (claim_key \<circ> fst) settled) \<and> length settled = 1)"
proof -
  let ?r = "cqrs_queue_body None cqrs_work_queue_policy_default None demo_records [demo_status, demo_status] None"
  obtain st facts where r: "?r = (st, facts)" by fastforce
  have "queue_history None cqrs_work_queue_policy_default (Some st) ([] @ [demo_status, demo_status]) ([] @ facts)"
    by (rule queue_step [OF queue_start r])
  from queue_settles_each_claim_once [OF this] obtain settled where
    s: "filter settles (queue_commands facts) = map (settlement cqrs_work_queue_policy_default) settled"
      "distinct (map (claim_key \<circ> fst) settled)" by auto
  have "length (filter settles (queue_commands (snd ?r))) = 1" "length (queue_issues (snd ?r)) = 1" by code_simp+
  with s r show ?thesis by auto
qed

subsection \<open>A retry of a failed command\<close>

lemma threw_seen:
  assumes "reduce_command_fact cf st c w = (Inr (st', facts), w')"
    and "statuses_of facts = [s]" "cs_error_code s = Some HandlerThrew" "dp_commands (cf_dedupe cf) = Unbounded"
  shows "cc_id c \<noteq> []" "cc_command_type c \<noteq> []" "cc_id c \<in> set (rs_seen_command_ids st')"
    "cs_state s = Rejected" "cs_command_id s = Some (cc_id c)"
proof -
  have "cc_id c \<noteq> [] \<and> cc_command_type c \<noteq> [] \<and> cc_id c \<in> set (rs_seen_command_ids st') \<and>
      cs_state s = Rejected \<and> cs_command_id s = Some (cc_id c)"
    using assms(1)
  proof (cases rule: reduce_cases)
    case (refused code msg)
    have False using failure_effect(3) [OF refused(1)] refused(2) assms(2,3) by (auto simp: rejected_status_def)
    then show ?thesis ..
  next
    case (failed code msg)
    note e = failure_effect [OF failed(1)]
    have code: "code = HandlerThrew" "cs_state s = Rejected" "cs_command_id s = Some (cc_id c)"
      using e(3) assms(2,3) by (auto simp: rejected_status_def)
    have "cc_command_type c \<noteq> []"
    proof
      assume "cc_command_type c = []"
      with assms(1) failed(2) have "failure (st\<lparr>rs_command_count := rs_command_count st + 1\<rparr>) (Some c) MalformedCommand
          ''cqrs: command type must be non-empty'' (cf_dedupe cf) = (st', facts)"
        by (simp add: reduce_command_fact_def Let_def)
      from failure_effect(3) [OF this] assms(2,3) show False by (auto simp: rejected_status_def)
    qed
    moreover have "cc_id c \<in> set (rs_seen_command_ids st')"
      using e(1) assms(4) by (simp add: push_command_id_def trim_dedupe_window_def)
    ultimately show ?thesis using failed(2) code by simp
  next
    case (accepted t prepared drafts)
    from accepted(1) show ?thesis by (rule accept_effect) (use assms(2,3) in auto)
  qed
  then show "cc_id c \<noteq> []" "cc_command_type c \<noteq> []" "cc_id c \<in> set (rs_seen_command_ids st')"
    "cs_state s = Rejected" "cs_command_id s = Some (cc_id c)" by simp_all
qed

lemma seen_is_duplicate:
  fixes cf :: "('w, 'c, 'e) cqrs_config"
  assumes "cc_id c \<noteq> []" "cc_command_type c \<noteq> []" "cc_id c \<in> set (rs_seen_command_ids st)"
  obtains st' facts s where "reduce_command_fact cf st c w = (Inr (st', facts), w)" "statuses_of facts = [s]"
    "events_of facts = []" "cs_state s = Rejected" "cs_command_id s = Some (cc_id c)"
    "cs_error_code s = Some CqrsDuplicateCommand"
proof -
  obtain st' and facts :: "('c, 'e) cqrs_runtime_fact list" where
    f: "failure (st\<lparr>rs_command_count := rs_command_count st + 1\<rparr>) (Some c) CqrsDuplicateCommand
      (''cqrs: duplicate command '' @ quoted (cc_id c)) (cf_dedupe cf) = (st', facts)"
    by (metis surj_pair)
  then have r: "reduce_command_fact cf st c w = (Inr (st', facts), w)"
    using assms by (simp add: reduce_command_fact_def Let_def)
  note e = failure_effect [OF f]
  show thesis using e(2,3) that [OF r] by (auto simp: rejected_status_def)
qed

lemma active_claim_settled:
  assumes "bt_get (qs_active_claims st) cid = Some [a]" "claim_key a \<notin> qs_terminal_claims st"
    and "cs_command_id s = Some cid" "cs_state s = Rejected"
  shows "queue_commands (snd (reduce_status policy s st)) =
    [cqrs_work_queue_disposition_command a (OutcomeRejected s (bt_get (qs_errors st) cid)) policy]"
  using assms by (simp add: reduce_status_def shift_active_claim_def shift_queue_def Let_def)

text \<open>
  A retry never runs the handler again: when the handler of a queued command panics, the recipe
  fails its attempt as retryable; but the runtime has recorded the id of the command, so that the
  next attempt, whatever the handler would do, is answered as a duplicate without a call and without
  events, and the recipe tells the queue that the work is complete.
\<close>

theorem retry_completes_without_rerun:
  assumes "reduce_command_fact cf st command w = (Inr (st', facts), w')"
    and "statuses_of facts = [s]" "cs_error_code s = Some HandlerThrew"
    and "dp_commands (cf_dedupe cf) = Unbounded"
    and "HandlerThrew \<notin> set (wp_deterministic_handler_failures policy)"
    and "set (rs_seen_command_ids st') \<subseteq> set (rs_seen_command_ids later)"
    and "bt_get (qs_active_claims q1) (cc_id command) = Some [a1]" "claim_key a1 \<notin> qs_terminal_claims q1"
    and "bt_get (qs_active_claims q2) (cc_id command) = Some [a2]" "claim_key a2 \<notin> qs_terminal_claims q2"
  shows "\<exists>later' facts2 s2 id1 reason id2 result.
    queue_commands (snd (reduce_status policy s q1)) =
      [CmdFail id1 None None (at_work_id a1) (at_lease_id a1) (at_queue_attempt a1) (at_worker_id a1) reason (Some True) None] \<and>
    reduce_command_fact cf later command w2 = (Inr (later', facts2), w2) \<and>
    statuses_of facts2 = [s2] \<and> events_of facts2 = [] \<and>
    queue_commands (snd (reduce_status policy s2 q2)) =
      [CmdComplete id2 None None (at_work_id a2) (at_lease_id a2) (at_queue_attempt a2) (at_worker_id a2) result None]"
proof -
  note seen = threw_seen [OF assms(1-4)]
  from seen(3) assms(6) have "cc_id command \<in> set (rs_seen_command_ids later)" by blast
  from seen_is_duplicate [OF seen(1,2) this] obtain later' facts2 s2 where
    dup: "reduce_command_fact cf later command w2 = (Inr (later', facts2), w2)" "statuses_of facts2 = [s2]"
      "events_of facts2 = []" "cs_state s2 = Rejected" "cs_command_id s2 = Some (cc_id command)"
      "cs_error_code s2 = Some CqrsDuplicateCommand" by metis
  show ?thesis
    using dup assms(3,5) active_claim_settled [OF assms(7,8) seen(5,4), of policy]
      active_claim_settled [OF assms(9,10) dup(5,4), of policy]
    by (simp add: Let_def)
qed

definition throwing_config :: "(nat, nat, nat) cqrs_config" where
  "throwing_config = \<lparr>cf_tuple_key = esc_tuple, cf_handlers = [''open'' \<mapsto> \<lambda>c calls. (Inl (PanicStr ''boom''), calls + 1)],
     cf_known_events = None, cf_now = \<lambda>w. (Inr 0, w), cf_dedupe = cqrs_dedupe_policy_default\<rparr>"

definition demo_queue :: "nat \<Rightarrow> nat cqrs_queue_state" where
  "demo_queue n = cqrs_queue_state_default\<lparr>qs_active_claims := [(''c'', [demo_attempt n])]\<rparr>"

theorem retry_completes_without_rerun_witness:
  "\<exists>st facts s st2 facts2 s2 id2 result.
     reduce_command_fact throwing_config cqrs_runtime_state_default demo_command 0 = (Inr (st, facts), 1) \<and>
     reduce_command_fact throwing_config st demo_command 1 = (Inr (st2, facts2), 1) \<and> statuses_of facts2 = [s2] \<and>
     queue_commands (snd (reduce_status cqrs_work_queue_policy_default s2 (demo_queue 2))) =
       [CmdComplete id2 None None ''w'' ''l2'' 2 ''me'' result None]"
proof -
  let ?r = "reduce_command_fact throwing_config cqrs_runtime_state_default demo_command 0"
  have r: "snd ?r = 1 \<and> (case fst ?r of Inl _ \<Rightarrow> False | Inr (st, facts) \<Rightarrow>
      map cs_error_code (statuses_of facts) = [Some HandlerThrew])" by code_simp
  then obtain st facts s where 1: "?r = (Inr (st, facts), 1)" "statuses_of facts = [s]" "cs_error_code s = Some HandlerThrew"
    by (cases ?r) (auto split: sum.splits)
  have q: "bt_get (qs_active_claims (demo_queue n)) (cc_id demo_command) = Some [demo_attempt n]"
    "claim_key (demo_attempt n) \<notin> qs_terminal_claims (demo_queue n)" for n
    by (simp_all add: demo_queue_def cqrs_queue_state_default_def demo_command_def cqrs_command_new_def)
  have p: "dp_commands (cf_dedupe throwing_config) = Unbounded"
    "HandlerThrew \<notin> set (wp_deterministic_handler_failures cqrs_work_queue_policy_default)"
    by (simp_all add: throwing_config_def cqrs_dedupe_policy_default_def cqrs_work_queue_policy_default_def)
  have a: "at_work_id (demo_attempt 2) = ''w''" "at_lease_id (demo_attempt 2) = ''l2''"
    "at_queue_attempt (demo_attempt 2) = 2" "at_worker_id (demo_attempt 2) = ''me''" by code_simp+
  from retry_completes_without_rerun [OF 1 p subset_refl q [of 1] q [of 2], of 1]
  obtain st2 facts2 s2 id2 result where
    "reduce_command_fact throwing_config st demo_command 1 = (Inr (st2, facts2), 1)" "statuses_of facts2 = [s2]"
    "queue_commands (snd (reduce_status cqrs_work_queue_policy_default s2 (demo_queue 2))) =
       [CmdComplete id2 None None ''w'' ''l2'' 2 ''me'' result None]"
    unfolding a by (elim exE conjE) (rule that)
  with 1(1) show ?thesis by blast
qed

end
