(* ===== verification/ProcessRecipes.thy ===== *)
theory ProcessRecipes
  imports Process WorkQueue Delivery
begin

text \<open>
  Processes over the message bus (\<open>process/messaging.rs\<close>) and over the work queue
  (\<open>process/work_queue.rs\<close>): messages lowered to commands and acknowledged when their command has
  a status, events published to an outbox topic; effect requests submitted as works and the records
  that end a work mapped back to evidence.
\<close>

subsection \<open>Over the message bus\<close>

record 'c process_delivered_command =
  dp_command :: "'c process_command"
  dp_delivery :: message_bus_delivery

type_synonym ('w, 'p, 'c) process_message_command_fn =
  "'p message_envelope \<Rightarrow> message_bus_delivery \<Rightarrow> ('w, 'c process_command option) user_call"

record ('w, 'p, 'c) process_messaging_policy =
  pm_command :: "('w, 'p, 'c) process_message_command_fn"
  pm_ack_rejected :: bool
  pm_outbox_topic :: "string option"

definition process_messaging_policy_new ::
  "('w, 'p, 'c) process_message_command_fn \<Rightarrow> ('w, 'p, 'c) process_messaging_policy" where
  "process_messaging_policy_new command = \<lparr>pm_command = command, pm_ack_rejected = True, pm_outbox_topic = None\<rparr>"

datatype 'c process_messaging_fact =
    MessagingCommand "'c process_delivered_command"
  | MessagingIssue data_issue

definition process_message_issue :: "message_bus_delivery \<Rightarrow> data_issue" where
  "process_message_issue delivery = \<lparr>di_kind = ''issue'', di_code = ''process-message-lowering-rejected'',
     di_message = ''Process messaging recipe could not lower retained message to a command fact'',
     di_severity = ''error'', di_source = ''process.messaging'', di_topic = Some (dv_topic delivery),
     di_details = Some (delivery_details delivery)\<rparr>"

text \<open>
  The function of the runtime node: every message of every page in turn. The lowering is user code;
  its panic ends the run.
\<close>

fun process_lower_messages ::
  "tuple_key \<Rightarrow> ('w, 'p, 'c) process_messaging_policy \<Rightarrow> 'p message_bus_available_page \<Rightarrow> 'p message_envelope list \<Rightarrow>
   'w \<Rightarrow> 'c process_messaging_fact list \<times> panic_payload option \<times> 'w" where
  "process_lower_messages tk policy page [] w = ([], None, w)"
| "process_lower_messages tk policy page (message # messages) w =
     (let delivery = message_delivery tk page message in
      case pm_command policy message delivery w of
        (Inl panic, w) \<Rightarrow> ([], Some panic, w)
      | (Inr lowered, w) \<Rightarrow>
          (let fact = (case lowered of
                 Some command \<Rightarrow> MessagingCommand \<lparr>dp_command = command, dp_delivery = delivery\<rparr>
               | None \<Rightarrow> MessagingIssue (process_message_issue delivery));
               (rest, p, w) = process_lower_messages tk policy page messages w in
           (fact # rest, p, w)))"

fun process_messaging_body ::
  "tuple_key \<Rightarrow> ('w, 'p, 'c) process_messaging_policy \<Rightarrow> 'p message_bus_available_page list \<Rightarrow> 'w \<Rightarrow>
   'c process_messaging_fact list \<times> panic_payload option \<times> 'w" where
  "process_messaging_body tk policy [] w = ([], None, w)"
| "process_messaging_body tk policy (page # pages) w =
     (case process_lower_messages tk policy page (ap_messages page) w of
        (facts, Some panic, w) \<Rightarrow> (facts, Some panic, w)
      | (facts, None, w) \<Rightarrow>
          (let (rest, p, w) = process_messaging_body tk policy pages w in (facts @ rest, p, w)))"

definition messaging_delivered :: "'c process_messaging_fact list \<Rightarrow> 'c process_delivered_command list" where
  "messaging_delivered = List.map_filter (\<lambda>f. case f of MessagingCommand d \<Rightarrow> Some d | MessagingIssue _ \<Rightarrow> None)"

definition messaging_commands :: "'c process_messaging_fact list \<Rightarrow> 'c process_command list" where
  "messaging_commands = List.map_filter (\<lambda>f. case f of MessagingCommand d \<Rightarrow> Some (dp_command d) | MessagingIssue _ \<Rightarrow> None)"

definition messaging_issues :: "'c process_messaging_fact list \<Rightarrow> data_issue list" where
  "messaging_issues = List.map_filter (\<lambda>f. case f of MessagingIssue i \<Rightarrow> Some i | MessagingCommand _ \<Rightarrow> None)"

definition process_ack_id :: "tuple_key \<Rightarrow> message_bus_delivery \<Rightarrow> string \<Rightarrow> string" where
  "process_ack_id tk delivery reason = compound_tuple_key tk ''process-message-ack''
     [dv_topic delivery, dv_subscription_id delivery, to_string (dv_seq delivery), reason]"

definition process_message_ack_body ::
  "tuple_key \<Rightarrow> bool \<Rightarrow> ack_state option \<Rightarrow> 'c process_delivered_command list \<Rightarrow> process_status list \<Rightarrow>
   data_issue list option \<Rightarrow> ack_state \<times> 'c message_bus_command list" where
  "process_message_ack_body tk ack_rejected stored delivered statuses issues =
     ack_run (process_ack_id tk) ack_rejected stored
       (map (\<lambda>d. (pc_id (dp_command d), dp_delivery d)) delivered)
       (map (\<lambda>s. (ps_state s = Rejected, ps_command_id s)) statuses) issues"

definition process_event_outbox_commands ::
  "tuple_key \<Rightarrow> string \<Rightarrow> 'e process_event list \<Rightarrow> 'e process_event message_bus_command list" where
  "process_event_outbox_commands tk topic events = map (\<lambda>event. Publish topic event (pv_process_id event)
     (Some (compound_tuple_key tk ''process-outbox'' [pv_id event])) (Some (pv_id event))) events"

subsection \<open>Over the work queue\<close>

record 'f process_queued_effect_payload =
  qe_kind :: string
  qe_effect :: "'f process_effect_request"
  qe_idempotency_key :: "string option"
  qe_source_refs :: "string list"
  qe_policy_refs :: "string list"
  qe_metadata :: "string option"

definition process_queued_effect_payload_new :: "'f process_effect_request \<Rightarrow> 'f process_queued_effect_payload" where
  "process_queued_effect_payload_new effect = \<lparr>qe_kind = ''process-queued-effect'', qe_effect = effect,
     qe_idempotency_key = None, qe_source_refs = [], qe_policy_refs = [], qe_metadata = None\<rparr>"

record process_queue_evidence =
  qv_kind :: string
  qv_evidence_id :: string
  qv_effect_id :: string
  qv_effect_type :: string
  qv_work_id :: string
  qv_queue_record_kind :: string
  qv_result :: "string option"
  qv_error :: "string option"
  qv_recorded_at_ms :: u64

record process_queue_status =
  vs_kind :: string
  vs_state :: string
  vs_effect_id :: "string option"
  vs_effect_type :: "string option"
  vs_work_id :: "string option"
  vs_queue_record_kind :: "string option"
  vs_evidence_id :: "string option"
  vs_issue_codes :: "string list"

record process_queue_audit_record =
  va_kind :: string
  va_seq :: u64
  va_outcome :: string
  va_effect_id :: "string option"
  va_effect_type :: "string option"
  va_work_id :: "string option"
  va_queue_record_kind :: "string option"
  va_evidence_id :: "string option"

datatype process_queue_fact =
    QueueEvidence process_queue_evidence
  | QueueStatus process_queue_status
  | QueueIssue data_issue
  | QueueAudit process_queue_audit_record

record 'f process_queue_state =
  pq_payloads :: "(string, 'f process_queued_effect_payload) btree"
  pq_terminal_records :: "string set"
  pq_audit_seq :: u64

definition process_queue_state_default :: "'f process_queue_state" where
  "process_queue_state_default = \<lparr>pq_payloads = [], pq_terminal_records = {}, pq_audit_seq = 0\<rparr>"

definition process_effect_submit_command ::
  "'f process_effect_request \<Rightarrow> 'f process_queued_effect_payload work_queue_command" where
  "process_effect_submit_command effect =
     CmdSubmit ((process_queued_effect_payload_new effect)\<lparr>qe_idempotency_key := Some (fx_id effect)\<rparr>)
       (fx_id effect @ '':process-work-queue-submit'') None (Some (fx_id effect))"

definition process_effect_submit_commands ::
  "'f process_effect_request list \<Rightarrow> 'f process_queued_effect_payload work_queue_command list" where
  "process_effect_submit_commands effects = map process_effect_submit_command effects"

fun record_kind :: "'t work_queue_record \<Rightarrow> string" where
  "record_kind (WorkAdmitted _ _ _ _ _ _ _ _ _ _ _) = ''work-admitted''"
| "record_kind (AdmissionDeduped _ _ _ _ _ _ _) = ''admission-deduped''"
| "record_kind (WorkScheduled _ _ _ _ _ _ _ _ _) = ''work-scheduled''"
| "record_kind (WorkClaimed _ _ _ _ _ _ _ _ _) = ''work-claimed''"
| "record_kind (LeaseRenewed _ _ _ _ _ _ _ _ _ _) = ''lease-renewed''"
| "record_kind (WorkReleased _ _ _ _ _ _ _ _ _) = ''work-released''"
| "record_kind (LeaseExpired _ _ _ _ _ _ _ _ _) = ''lease-expired''"
| "record_kind (AttemptCompleted _ _ _ _ _ _ _ _ _) = ''attempt-completed''"
| "record_kind (WorkCompleted _ _ _ _ _ _ _ _ _) = ''work-completed''"
| "record_kind (AttemptFailed _ _ _ _ _ _ _ _ _ _) = ''attempt-failed''"
| "record_kind (RetryScheduled _ _ _ _ _ _ _ _) = ''retry-scheduled''"
| "record_kind (WorkDeadLettered _ _ _ _ _ _ _) = ''work-dead-lettered''"
| "record_kind (WorkCanceled _ _ _ _ _ _ _ _) = ''work-canceled''"

fun is_terminal_record :: "'t work_queue_record \<Rightarrow> bool" where
  "is_terminal_record (WorkCompleted _ _ _ _ _ _ _ _ _) = True"
| "is_terminal_record (AttemptCompleted _ _ _ _ _ _ _ _ _) = True"
| "is_terminal_record (AttemptFailed _ _ _ _ _ _ _ _ _ _) = True"
| "is_terminal_record (WorkDeadLettered _ _ _ _ _ _ _) = True"
| "is_terminal_record (WorkCanceled _ _ _ _ _ _ _ _) = True"
| "is_terminal_record _ = False"

fun record_outcome :: "'t work_queue_record \<Rightarrow> string option \<times> string option \<times> u64" where
  "record_outcome (WorkCompleted _ _ _ _ _ _ _ r n) = (r, None, n)"
| "record_outcome (AttemptCompleted _ _ _ _ _ _ _ r n) = (r, None, n)"
| "record_outcome (AttemptFailed _ _ _ _ _ _ _ e _ n) = (None, e, n)"
| "record_outcome (WorkDeadLettered _ _ _ _ _ _ n) = (None, Some ''dead-lettered'', n)"
| "record_outcome (WorkCanceled _ _ _ _ _ n _ _) = (None, Some ''canceled'', n)"
| "record_outcome _ = (None, None, 0)"

definition evidence_from_record ::
  "'f process_queued_effect_payload work_queue_record \<Rightarrow> 'f process_queued_effect_payload \<Rightarrow> process_queue_evidence" where
  "evidence_from_record r payload =
     (let (res, err, recorded_at_ms) = record_outcome r in
      \<lparr>qv_kind = ''process-queue-evidence'', qv_evidence_id = ''work-queue:'' @ to_string (record_seq r),
       qv_effect_id = fx_id (qe_effect payload), qv_effect_type = fx_effect_type (qe_effect payload),
       qv_work_id = record_work_id r, qv_queue_record_kind = record_kind r, qv_result = res,
       qv_error = err, qv_recorded_at_ms = recorded_at_ms\<rparr>)"

definition status_from_evidence ::
  "process_queue_evidence \<Rightarrow> 'f process_queued_effect_payload \<Rightarrow> process_queue_status" where
  "status_from_evidence evidence payload = \<lparr>vs_kind = ''process-queue-status'',
     vs_state = ''evidence-recorded'', vs_effect_id = Some (fx_id (qe_effect payload)),
     vs_effect_type = Some (fx_effect_type (qe_effect payload)), vs_work_id = Some (qv_work_id evidence),
     vs_queue_record_kind = Some (qv_queue_record_kind evidence),
     vs_evidence_id = Some (qv_evidence_id evidence), vs_issue_codes = []\<rparr>"

definition audit_from_evidence ::
  "u64 \<Rightarrow> process_queue_evidence \<Rightarrow> 'f process_queued_effect_payload \<Rightarrow> process_queue_audit_record" where
  "audit_from_evidence seq evidence payload = \<lparr>va_kind = ''process-queue-audit'', va_seq = seq,
     va_outcome = ''mapped'', va_effect_id = Some (fx_id (qe_effect payload)),
     va_effect_type = Some (fx_effect_type (qe_effect payload)), va_work_id = Some (qv_work_id evidence),
     va_queue_record_kind = Some (qv_queue_record_kind evidence),
     va_evidence_id = Some (qv_evidence_id evidence)\<rparr>"

definition emit_issue ::
  "'f process_queued_effect_payload work_queue_record \<Rightarrow> string \<Rightarrow> 'f process_queue_state \<Rightarrow>
   'f process_queue_state \<times> process_queue_fact list" where
  "emit_issue r code st =
     (let issue = \<lparr>di_kind = ''issue'', di_code = code,
            di_message = ''Process workQueue recipe could not map workQueue record '' @ quoted (record_kind r),
            di_severity = ''error'', di_source = ''process.workQueue'', di_topic = None,
            di_details = Some (''work_id='' @ record_work_id r @ '';record_seq='' @ to_string (record_seq r))\<rparr>;
          st' = st\<lparr>pq_audit_seq := pq_audit_seq st + 1\<rparr> in
      (st',
       [QueueIssue issue,
        QueueStatus \<lparr>vs_kind = ''process-queue-status'', vs_state = ''mapping-issue'', vs_effect_id = None,
          vs_effect_type = None, vs_work_id = Some (record_work_id r),
          vs_queue_record_kind = Some (record_kind r), vs_evidence_id = None, vs_issue_codes = [code]\<rparr>,
        QueueAudit \<lparr>va_kind = ''process-queue-audit'', va_seq = pq_audit_seq st', va_outcome = ''issue'',
          va_effect_id = None, va_effect_type = None, va_work_id = Some (record_work_id r),
          va_queue_record_kind = Some (record_kind r), va_evidence_id = None\<rparr>]))"

definition terminal_key :: "tuple_key \<Rightarrow> 't work_queue_record \<Rightarrow> string" where
  "terminal_key tk r = tk [record_kind r, to_string (record_seq r)]"

definition reduce_terminal ::
  "tuple_key \<Rightarrow> 'f process_queued_effect_payload work_queue_record \<Rightarrow> 'f process_queue_state \<Rightarrow>
   'f process_queue_state \<times> process_queue_fact list" where
  "reduce_terminal tk r st =
     (let key = terminal_key tk r in
      if key \<in> pq_terminal_records st then (st, [])
      else
        (let st = st\<lparr>pq_terminal_records := insert key (pq_terminal_records st)\<rparr> in
         case bt_get (pq_payloads st) (record_work_id r) of
           None \<Rightarrow> emit_issue r ''process-queue-record-without-payload'' st
         | Some payload \<Rightarrow>
             (let evidence = evidence_from_record r payload;
                  st = st\<lparr>pq_audit_seq := pq_audit_seq st + 1\<rparr> in
              (st, [QueueEvidence evidence, QueueStatus (status_from_evidence evidence payload),
                QueueAudit (audit_from_evidence (pq_audit_seq st) evidence payload)]))))"

fun reduce_record ::
  "tuple_key \<Rightarrow> 'f process_queued_effect_payload work_queue_record \<Rightarrow> 'f process_queue_state \<Rightarrow>
   'f process_queue_state \<times> process_queue_fact list" where
  "reduce_record tk (WorkAdmitted seq q work_id payload mb pr tags reqs nb dl rec_at) st =
     (if qe_kind payload = ''process-queued-effect''
      then (st\<lparr>pq_payloads := bt_insert work_id payload (pq_payloads st)\<rparr>, [])
      else emit_issue (WorkAdmitted seq q work_id payload mb pr tags reqs nb dl rec_at)
        ''process-queue-malformed-payload'' st)"
| "reduce_record tk r st = (if is_terminal_record r then reduce_terminal tk r st else (st, []))"

fun reduce_records ::
  "tuple_key \<Rightarrow> 'f process_queued_effect_payload work_queue_record list \<Rightarrow> 'f process_queue_state \<Rightarrow>
   'f process_queue_state \<times> process_queue_fact list" where
  "reduce_records tk [] st = (st, [])"
| "reduce_records tk (r # rs) st =
     (let (st, facts) = reduce_record tk r st; (st, rest) = reduce_records tk rs st in (st, facts @ rest))"

definition process_queue_body ::
  "tuple_key \<Rightarrow> 'f process_queue_state option \<Rightarrow> 'f process_queued_effect_payload work_queue_record list \<Rightarrow>
   'f process_queue_state \<times> process_queue_fact list" where
  "process_queue_body tk stored records =
     reduce_records tk records (case stored of Some st \<Rightarrow> st | None \<Rightarrow> process_queue_state_default)"

definition queue_evidence :: "process_queue_fact list \<Rightarrow> process_queue_evidence list" where
  "queue_evidence = List.map_filter (\<lambda>f. case f of QueueEvidence e \<Rightarrow> Some e | _ \<Rightarrow> None)"

definition queue_statuses :: "process_queue_fact list \<Rightarrow> process_queue_status list" where
  "queue_statuses = List.map_filter (\<lambda>f. case f of QueueStatus s \<Rightarrow> Some s | _ \<Rightarrow> None)"

definition queue_issues :: "process_queue_fact list \<Rightarrow> data_issue list" where
  "queue_issues = List.map_filter (\<lambda>f. case f of QueueIssue i \<Rightarrow> Some i | _ \<Rightarrow> None)"

definition queue_audits :: "process_queue_fact list \<Rightarrow> process_queue_audit_record list" where
  "queue_audits = List.map_filter (\<lambda>f. case f of QueueAudit a \<Rightarrow> Some a | _ \<Rightarrow> None)"

end
