(* ===== verification/ProcessFlow.thy ===== *)
theory ProcessFlow
  imports ProcessRecipes
begin

text \<open>
  The evidence that the process recipe keeps of the effects it has queued: over all its runs, and
  whatever records the queue delivers again.
\<close>

lemma queue_readers [simp]:
  "queue_evidence (a @ b) = queue_evidence a @ queue_evidence b"
  "queue_audits (a @ b) = queue_audits a @ queue_audits b"
  "queue_evidence [] = []" "queue_audits [] = []"
  by (simp_all add: queue_evidence_def queue_audits_def List.map_filter_def)

fun admits :: "'f process_queued_effect_payload work_queue_record \<Rightarrow> (string \<times> 'f process_queued_effect_payload) option" where
  "admits (WorkAdmitted _ _ work_id payload _ _ _ _ _ _ _) =
     (if qe_kind payload = ''process-queued-effect'' then Some (work_id, payload) else None)"
| "admits _ = None"

fun malformed :: "'f process_queued_effect_payload work_queue_record \<Rightarrow> bool" where
  "malformed (WorkAdmitted _ _ _ payload _ _ _ _ _ _ _) \<longleftrightarrow> qe_kind payload \<noteq> ''process-queued-effect''"
| "malformed _ \<longleftrightarrow> False"

definition terminals :: "'f process_queued_effect_payload work_queue_record list \<Rightarrow> 'f process_queued_effect_payload work_queue_record list" where
  "terminals records = filter is_terminal_record records"

definition dense_audits :: "process_queue_fact list \<Rightarrow> bool" where
  "dense_audits facts \<longleftrightarrow> map va_seq (queue_audits facts) = map of_nat [1..<Suc (length (queue_audits facts))]"

definition evidence_ok ::
  "tuple_key \<Rightarrow> 'f process_queue_state \<Rightarrow> 'f process_queued_effect_payload work_queue_record list \<Rightarrow>
   process_queue_fact list \<Rightarrow> ('f process_queued_effect_payload work_queue_record \<times> 'f process_queued_effect_payload) list \<Rightarrow> bool" where
  "evidence_ok tk st records facts used \<longleftrightarrow>
     queue_evidence facts = map (\<lambda>(r, p). evidence_from_record r p) used \<and>
     distinct (map (terminal_key tk \<circ> fst) used) \<and>
     (\<forall>(r, p) \<in> set used. r \<in> set (terminals records) \<and> (\<exists>r' \<in> set records. admits r' = Some (record_work_id r, p)))"

definition process_queue_inv ::
  "tuple_key \<Rightarrow> 'f process_queue_state \<Rightarrow> 'f process_queued_effect_payload work_queue_record list \<Rightarrow> process_queue_fact list \<Rightarrow> bool" where
  "process_queue_inv tk st records facts \<longleftrightarrow>
     pq_terminal_records st = terminal_key tk ` set (terminals records) \<and>
     (\<forall>w p. bt_get (pq_payloads st) w = Some p \<longrightarrow> (\<exists>r' \<in> set records. admits r' = Some (w, p))) \<and>
     pq_audit_seq st = of_nat (length (queue_audits facts)) \<and> dense_audits facts \<and>
     (\<exists>used. evidence_ok tk st records facts used)"

lemma dense_audits_snoc:
  "dense_audits facts \<Longrightarrow> queue_audits new = [a] \<Longrightarrow> va_seq a = of_nat (length (queue_audits facts)) + 1 \<Longrightarrow>
     dense_audits (facts @ new)"
  by (simp add: dense_audits_def)

lemma evidence_ok_quiet:
  "evidence_ok tk st records facts used \<Longrightarrow> queue_evidence new = [] \<Longrightarrow> evidence_ok tk st' (records @ rs) (facts @ new) used"
  by (fastforce simp: evidence_ok_def terminals_def)

lemma emit_issue_effect:
  assumes "emit_issue r code st = (st', new)"
  obtains a where "st' = st\<lparr>pq_audit_seq := pq_audit_seq st + 1\<rparr>" "queue_audits new = [a]"
    "va_seq a = pq_audit_seq st + 1" "queue_evidence new = []"
  using assms that by (auto simp: emit_issue_def Let_def queue_audits_def queue_evidence_def List.map_filter_simps)

lemma issue_inv:
  assumes "process_queue_inv tk st records facts" "emit_issue r code (st\<lparr>pq_terminal_records := ks\<rparr>) = (st', new)"
    and "ks = terminal_key tk ` set (terminals (records @ [r]))"
  shows "process_queue_inv tk st' (records @ [r]) (facts @ new)"
proof -
  obtain used where used: "evidence_ok tk st records facts used" using assms(1) by (auto simp: process_queue_inv_def)
  from assms(2) obtain a where st': "st' = st\<lparr>pq_terminal_records := ks, pq_audit_seq := pq_audit_seq st + 1\<rparr>"
    and new: "queue_audits new = [a]" "va_seq a = pq_audit_seq st + 1" "queue_evidence new = []"
    by (rule emit_issue_effect) simp
  have "dense_audits (facts @ new)"
    using assms(1) new by (intro dense_audits_snoc) (auto simp: process_queue_inv_def)
  moreover have "evidence_ok tk st' (records @ [r]) (facts @ new) used"
    by (rule evidence_ok_quiet [OF used new(3)])
  ultimately show ?thesis
    using assms(1,3) new(1) by (fastforce simp: process_queue_inv_def st')
qed

lemma terminal_inv:
  assumes inv: "process_queue_inv tk st records facts" and r: "is_terminal_record r"
    and red: "reduce_terminal tk r st = (st', new)"
  shows "process_queue_inv tk st' (records @ [r]) (facts @ new)"
proof (cases "terminal_key tk r \<in> pq_terminal_records st")
  case True
  then have "st' = st" "new = []" using red by (auto simp: reduce_terminal_def Let_def)
  moreover have "terminal_key tk ` set (terminals (records @ [r])) = pq_terminal_records st"
    using inv True r by (auto simp: process_queue_inv_def terminals_def)
  moreover have "\<exists>used. evidence_ok tk st (records @ [r]) (facts @ []) used"
    using inv evidence_ok_quiet [of tk st records facts _ "[]" st "[r]"] by (fastforce simp: process_queue_inv_def)
  ultimately show ?thesis using inv by (fastforce simp: process_queue_inv_def)
next
  case False
  let ?ks = "insert (terminal_key tk r) (pq_terminal_records st)"
  have ks: "?ks = terminal_key tk ` set (terminals (records @ [r]))"
    using inv r by (simp add: process_queue_inv_def terminals_def)
  show ?thesis
  proof (cases "bt_get (pq_payloads st) (record_work_id r)")
    case None
    with red False have "emit_issue r ''process-queue-record-without-payload'' (st\<lparr>pq_terminal_records := ?ks\<rparr>) = (st', new)"
      by (simp add: reduce_terminal_def Let_def)
    from issue_inv [OF inv this ks] show ?thesis .
  next
    case (Some p)
    let ?e = "evidence_from_record r p"
    obtain used where used: "evidence_ok tk st records facts used" using inv by (auto simp: process_queue_inv_def)
    obtain r' where r': "r' \<in> set records" "admits r' = Some (record_work_id r, p)"
      using inv Some unfolding process_queue_inv_def by blast
    have st': "st' = st\<lparr>pq_terminal_records := ?ks, pq_audit_seq := pq_audit_seq st + 1\<rparr>"
      and new: "queue_evidence new = [?e]" "queue_audits new = [audit_from_evidence (pq_audit_seq st + 1) ?e p]"
      using red False Some
      by (auto simp: reduce_terminal_def Let_def queue_audits_def queue_evidence_def List.map_filter_simps)
    have "dense_audits (facts @ new)"
      using inv new(2) by (intro dense_audits_snoc) (auto simp: process_queue_inv_def audit_from_evidence_def)
    moreover have "evidence_ok tk st' (records @ [r]) (facts @ new) (used @ [(r, p)])"
      using used new(1) r r' False inv
      by (fastforce simp: evidence_ok_def process_queue_inv_def terminals_def)
    ultimately show ?thesis
      using inv ks new(2) by (fastforce simp: process_queue_inv_def st')
  qed
qed

lemma quiet_record_inv:
  assumes "process_queue_inv tk st records facts" "\<not> is_terminal_record r"
  shows "process_queue_inv tk st (records @ [r]) (facts @ [])"
proof -
  have "terminals (records @ [r]) = terminals records" using assms(2) by (simp add: terminals_def)
  moreover have "\<exists>used. evidence_ok tk st (records @ [r]) (facts @ []) used"
    using assms(1) evidence_ok_quiet [of tk st records facts _ "[]" st "[r]"] by (fastforce simp: process_queue_inv_def)
  ultimately show ?thesis using assms(1) by (fastforce simp: process_queue_inv_def)
qed

lemma evidence_record_inv:
  assumes inv: "process_queue_inv tk st records facts" and red: "reduce_record tk r st = (st', new)"
  shows "process_queue_inv tk st' (records @ [r]) (facts @ new)"
proof (cases "is_terminal_record r")
  case True
  with red have "reduce_terminal tk r st = (st', new)" by (cases r) simp_all
  with inv True show ?thesis by (rule terminal_inv)
next
  case False
  note quiet = quiet_record_inv [OF inv False]
  show ?thesis
  proof (cases r)
    case (WorkAdmitted seq q work_id payload mb pr tags reqs nb dl rec_at)
    show ?thesis
    proof (cases "qe_kind payload = ''process-queued-effect''")
      case True
      with red WorkAdmitted have st': "st' = st\<lparr>pq_payloads := bt_insert work_id payload (pq_payloads st)\<rparr>" "new = []"
        by simp_all
      have "admits r = Some (work_id, payload)" using True WorkAdmitted by simp
      with quiet show ?thesis
        by (auto simp: process_queue_inv_def st' btree evidence_ok_def)
    next
      case malformed: False
      have "emit_issue r ''process-queue-malformed-payload'' (st\<lparr>pq_terminal_records := pq_terminal_records st\<rparr>) = (st', new)"
        using red malformed WorkAdmitted by simp
      moreover have "pq_terminal_records st = terminal_key tk ` set (terminals (records @ [r]))"
        using inv False by (simp add: process_queue_inv_def terminals_def)
      ultimately show ?thesis by (rule issue_inv [OF inv])
    qed
  qed (use quiet red False in simp_all)
qed

lemma evidence_records_inv:
  "process_queue_inv tk st records facts \<Longrightarrow> reduce_records tk rs st = (st', new) \<Longrightarrow>
     process_queue_inv tk st' (records @ rs) (facts @ new)"
proof (induction rs arbitrary: st records facts new)
  case (Cons r rs)
  obtain st1 a where 1: "reduce_record tk r st = (st1, a)" by fastforce
  obtain b where 2: "reduce_records tk rs st1 = (st', b)" "new = a @ b"
    using Cons.prems(2) by (auto simp: 1 split: prod.splits)
  show ?case using Cons.IH [OF evidence_record_inv [OF Cons.prems(1) 1] 2(1)] by (simp add: 2(2))
qed simp

text \<open>The runs of the recipe: the records the queue delivered and the facts it emitted.\<close>

inductive evidence_history ::
  "tuple_key \<Rightarrow> 'f process_queue_state option \<Rightarrow> 'f process_queued_effect_payload work_queue_record list \<Rightarrow>
   process_queue_fact list \<Rightarrow> bool"
  for tk where
  evidence_start: "evidence_history tk None [] []"
| evidence_step: "evidence_history tk stored records facts \<Longrightarrow>
     process_queue_body tk stored batch = (st', new) \<Longrightarrow>
     evidence_history tk (Some st') (records @ batch) (facts @ new)"

abbreviation (input) evidence_state :: "'f process_queue_state option \<Rightarrow> 'f process_queue_state" where
  "evidence_state stored \<equiv> (case stored of Some st \<Rightarrow> st | None \<Rightarrow> process_queue_state_default)"

lemma evidence_history_inv:
  "evidence_history tk stored records facts \<Longrightarrow> process_queue_inv tk (evidence_state stored) records facts"
proof (induction rule: evidence_history.induct)
  case evidence_start
  have "evidence_ok tk process_queue_state_default [] [] []" by (simp add: evidence_ok_def)
  then show ?case
    by (auto simp: process_queue_inv_def process_queue_state_default_def dense_audits_def terminals_def)
next
  case (evidence_step stored records facts batch st' new)
  then show ?case using evidence_records_inv by (simp add: process_queue_body_def)
qed

lemma redelivered_quiet:
  assumes "process_queue_inv tk st records facts" "set (terminals rs) \<subseteq> set (terminals records)"
    and "\<forall>r \<in> set rs. \<not> malformed r"
  shows "snd (reduce_records tk rs st) = [] \<and>
    pq_terminal_records (fst (reduce_records tk rs st)) = pq_terminal_records st"
  using assms
proof (induction rs arbitrary: st records)
  case (Cons r rs)
  obtain st1 new where 1: "reduce_record tk r st = (st1, new)" by fastforce
  have new: "new = [] \<and> pq_terminal_records st1 = pq_terminal_records st"
  proof (cases "is_terminal_record r")
    case True
    then have "r \<in> set (terminals records)" using Cons.prems(2) by (simp add: terminals_def)
    then have "terminal_key tk r \<in> pq_terminal_records st" using Cons.prems(1) by (simp add: process_queue_inv_def)
    with True 1 show ?thesis by (cases r) (simp_all add: reduce_terminal_def Let_def)
  next
    case False
    with 1 Cons.prems(3) show ?thesis by (cases r) auto
  qed
  have inv: "process_queue_inv tk st1 (records @ [r]) facts"
    using evidence_record_inv [OF Cons.prems(1) 1] new by simp
  have "snd (reduce_records tk rs st1) = [] \<and>
    pq_terminal_records (fst (reduce_records tk rs st1)) = pq_terminal_records st1"
  proof (rule Cons.IH [OF inv])
    show "set (terminals rs) \<subseteq> set (terminals (records @ [r]))"
      using Cons.prems(2) by (auto simp: terminals_def split: if_splits)
  qed (use Cons.prems(3) in simp)
  with new 1 show ?case by (simp split: prod.splits)
qed simp

text \<open>
  C22. Evidence is recorded once, whatever the queue delivers again: over all the runs, every piece of
  evidence is that of a terminal record and of the payload admitted for its work, no two of them are
  of the same kind and sequence number, and the audit records are numbered from one without a gap;
  and a batch whose terminal records have all been seen and whose admissions are well formed adds no
  fact at all.
\<close>

theorem process_evidence_once:
  assumes "evidence_history tk stored records facts"
  shows "map va_seq (queue_audits facts) = map of_nat [1..<Suc (length (queue_audits facts))] \<and>
    (\<exists>used. queue_evidence facts = map (\<lambda>(r, p). evidence_from_record r p) used \<and>
       distinct (map (terminal_key tk \<circ> fst) used) \<and>
       (\<forall>(r, p) \<in> set used. r \<in> set (terminals records) \<and> (\<exists>r' \<in> set records. admits r' = Some (record_work_id r, p)))) \<and>
    (\<forall>batch. set (terminals batch) \<subseteq> set (terminals records) \<longrightarrow> (\<forall>r \<in> set batch. \<not> malformed r) \<longrightarrow>
       snd (process_queue_body tk stored batch) = [])"
  using evidence_history_inv [OF assms] redelivered_quiet [OF evidence_history_inv [OF assms]]
  by (auto simp: process_queue_inv_def evidence_ok_def dense_audits_def process_queue_body_def)

definition demo_effect :: "nat process_effect_request" where
  "demo_effect = \<lparr>fx_id = ''e'', fx_effect_type = ''mail'', fx_seq = 1, fx_cursor = 1,
     fx_command_id = ''c'',
     fx_command_type = ''open'', fx_payload = 7, fx_timestamp_ms = 0, fx_process_id = Some ''p'', fx_correlation_id = None, fx_causation_id = None\<rparr>"

definition demo_records :: "nat process_queued_effect_payload work_queue_record list" where
  "demo_records = [WorkAdmitted 1 ''q'' ''w'' (process_queued_effect_payload_new demo_effect)
       \<lparr>mr_topic = ''t'', mr_seq = 1, mr_subscription_id = ''s''\<rparr> None [] [] None None 0,
     WorkCompleted 2 ''q'' ''w'' ''done'' ''l'' 1 ''me'' (Some ''ok'') 5]"

theorem process_evidence_once_witness:
  "\<exists>st facts. process_queue_body esc_tuple None demo_records = (st, facts) \<and> length (queue_evidence facts) = 1 \<and>
     map va_seq (queue_audits facts) = [1] \<and> snd (process_queue_body esc_tuple (Some st) demo_records) = []"
proof -
  obtain st facts where r: "process_queue_body esc_tuple None demo_records = (st, facts)" by fastforce
  have "evidence_history esc_tuple (Some st) ([] @ demo_records) ([] @ facts)"
    by (rule evidence_step [OF evidence_start r])
  moreover have "\<forall>r \<in> set demo_records. \<not> malformed r" by code_simp
  ultimately have "snd (process_queue_body esc_tuple (Some st) demo_records) = []"
    using process_evidence_once by (metis append_Nil subset_refl)
  moreover have "length (queue_evidence (snd (process_queue_body esc_tuple None demo_records))) = 1 \<and>
      map va_seq (queue_audits (snd (process_queue_body esc_tuple None demo_records))) = [1]" by code_simp
  ultimately show ?thesis using r by auto
qed

end
