(* ===== verification/Spec2Isabelle.thy ===== *)
theory Spec2Isabelle
  imports Protocol Dispatcher Resilience Messaging WorkQueue ReadThrough CollectionRestore CollectionViews EngineTerminal
    JsonCodec CqrsHistory ReadinessViews ProcessHistory DeliveryAcks CqrsFlow ProcessFlow
begin

text \<open>
  A verification development for \<open>graphrefly-rs\<close>, the crate under
  \<open>src/crates/graphrefly/src\<close>.

  \<^bold>\<open>The program.\<close> A reactive graph engine: nodes exchange waves of messages (\<open>protocol.rs\<close>,
  \<open>node.rs\<close>, \<open>ctx.rs\<close>, \<open>batch.rs\<close>), node functions live in a dispatcher's pools behind
  generational handles (\<open>dispatcher.rs\<close>). On top of it stand stateful building blocks: a
  message bus (\<open>messaging.rs\<close>), a work queue fed by it (\<open>work_queue.rs\<close>), retry, breaker
  and rate-limit policies (\<open>resilience.rs\<close>), reactive collections (\<open>data_structures.rs\<close>) and
  storage tiers with append logs and collection persistence (\<open>storage.rs\<close>). Command
  handling with an event log (\<open>cqrs.rs\<close>), processes with state and effects (\<open>process.rs\<close>) and
  timed readiness (\<open>scheduled_readiness.rs\<close>) are node bodies over these; recipes under
  \<open>cqrs/\<close> and \<open>process/\<close> connect them to the bus and to the queue. The strict JSON codec
  (\<open>json.rs\<close>) is what storage writes.

  \<^bold>\<open>The theories.\<close>
  \<^item> \<open>Prelude\<close>: machine integers (checked, saturating and wrapping operations as in Rust), ordered
    maps as sorted association lists (\<open>BTreeMap\<close>), results as sums, decimal printing, and the
    locales shared by the components: \<open>ordered_map\<close> (lookup, insertion and removal of a map),
    \<open>handle_table\<close>, \<open>paged_view\<close> (a page function that cuts a sorted view, and the theorem
    that following its cursors reads the whole view once and in order), each interpreted on the
    model's own definitions.
  \<^item> \<open>Protocol\<close> (\<open>protocol.rs\<close>): messages, tiers and their predicates.
  \<^item> \<open>Dispatcher\<close> (\<open>dispatcher.rs\<close>): pools, handles, registration, invocation. A freed handle
    stays dead for \<open>2 ^ 32 - 1\<close> further frees of its slot, the width of the generation counter.
  \<^item> \<open>Batch\<close> (\<open>batch.rs\<close>): the frame of a batch, commit, rollback and the boundary drains, over
    an interface to nodes and graphs (\<open>batch_host\<close>). The last wave per node is committed, a
    rolled-back batch commits nothing, and no frame is left open if the drains open none.
  \<^item> \<open>Node\<close>, \<open>NodeInvariant\<close> (\<open>node.rs\<close>, \<open>ctx.rs\<close>): the state of one node and the
    transitions that touch it alone (reception of every message of a dependency, emission, the run of
    its function, activation, pause, pull), and the invariant of that state.
  \<^item> \<open>Engine\<close> (\<open>node.rs\<close>): the whole engine as a machine with an explicit call stack. A task
    is a call or the rest of one; \<open>exec\<close> is the table from tasks to the operations of the source,
    \<open>unwind\<close> what the guards and \<open>catch_unwind\<close> do while a panic passes. User code (functions,
    sinks, hooks, batch bodies) is an arbitrary oracle that may call back at any point.
  \<^item> \<open>EngineInvariant\<close>, \<open>EngineControl\<close>, \<open>EngineRuns\<close>, \<open>EngineTerminal\<close>: what holds of the engine
    for every user code. The locales \<open>stack_invariant\<close> and \<open>session_invariant\<close> carry a predicate
    on stack, panic and world through runs and sessions; their interpretations are the
    well-formedness of the nodes (\<open>wf\<close>), the call discipline (\<open>control\<close>: counters and flags are
    determined by the frames on the stack), the readiness of every run (\<open>runs\<close>) and the finality
    of ended nodes (\<open>ended\<close>). \<open>run_machine\<close> has a step bound only to state concrete runs; the
    theorems are about \<open>steps\<close>, without bound.
  \<^item> \<open>Resilience\<close> (\<open>resilience.rs\<close>): backoff, retry, breaker and rate-limit node bodies.
  \<^item> \<open>Messaging\<close> (\<open>messaging.rs\<close>): topics, subscriptions, retention, idempotency, the reducer of
    all bus commands and its projections. The main theorems are about whole histories of commands:
    no silent loss, publication at most once, cursors move only by acknowledgement or seek.
  \<^item> \<open>WorkQueue\<close> (\<open>work_queue.rs\<close>): admission from bus messages, claims with leases, renewal,
    release, completion, failure with retry, cancellation, dead letters, the runtime node and its
    projections. The record log refines an abstract lifecycle; leases fence; outcomes are final.
  \<^item> \<open>Storage\<close>, \<open>AppendLog\<close>, \<open>ReadThrough\<close> (\<open>storage.rs\<close>): file names of keys, the
    versioned in-memory tier, append logs on a key-value tier (also with concurrent writers,
    modelled as an environment that acts between the calls of the loop), and tiered lookup with
    promotion. \<open>kv_store\<close> is the interface a key-value tier offers to append logs.
  \<^item> \<open>Collections\<close> (\<open>data_structures.rs\<close>): list, log, index and map backends, the operations of
    the reactive wrappers with the changes they emit, the views and the body of the incremental scan.
  \<^item> \<open>CollectionStorage\<close> (\<open>storage.rs\<close>): snapshot and change frames, the folds of the changes,
    the loaders, and rebuilding a collection. \<open>CollectionReplay\<close> has the law that the emitted
    changes replay to the contents (locale \<open>replayable\<close>, interpreted for all four collections);
    \<open>CollectionRestore\<close> composes operations, append log and loader into round trips of lists and
    logs;
    \<open>CollectionViews\<close> has the scan and the capacity of lists.
  \<^item> \<open>Json\<close>, \<open>JsonCodec\<close> (\<open>json.rs\<close>): the validator, the canonical printer, the scanner for
    duplicate keys, the strict codec and decimal integer strings. The scanner is a mutual recursion
    over the text, written with fuel two more than the length of the text; \<open>scanner_always_decides\<close>
    says that this is always enough. It accepts the text of a value exactly if the keys are distinct,
    and the strict codec reads back what it writes.
  \<^item> \<open>Cqrs\<close>, \<open>CqrsHistory\<close> (\<open>cqrs.rs\<close>): commands, handlers, events, dedupe windows, the runtime
    node with its state kept as JSON between runs, and projections. \<open>cqrs_history\<close> is any sequence of
    runs; the locale \<open>id_window\<close> (a bounded memory of ids) is interpreted for commands and events.
  \<^item> \<open>UserCode\<close>: calls of user code that return or panic, the panics of the graph runtime that the
    bundles let through, and running folds, shared by the theories of commands and processes.
  \<^item> \<open>Process\<close>, \<open>ProcessRunner\<close>, \<open>ProcessHistory\<close> (\<open>process.rs\<close>): processes, whose reducer turns
    a command and the state into a next state, events and effect requests; the runner that turns
    outcomes of effects back into commands, its status counters and the rewiring of command sources
    with its rollback. A process is the fold of its reducer over the accepted commands.
  \<^item> \<open>Delivery\<close>, \<open>DeliveryAcks\<close> (\<open>cqrs/messaging.rs\<close>, \<open>process/messaging.rs\<close>): deliveries of bus
    messages, their queues until a status comes, acknowledgements, and the text that carries a
    delivery through an issue, with its parser. The locale \<open>queue_table\<close> (a queue per key) is
    interpreted on the table of the source.
  \<^item> \<open>CqrsRecipes\<close>, \<open>CqrsFlow\<close> (\<open>cqrs/messaging.rs\<close>, \<open>cqrs/work_queue.rs\<close>) and
    \<open>ProcessRecipes\<close>, \<open>ProcessFlow\<close> (\<open>process/messaging.rs\<close>, \<open>process/work_queue.rs\<close>): the
    recipes, and what holds over all their runs: a claim is settled once, evidence is recorded once,
    and a retried command is answered as a duplicate.
  \<^item> \<open>ScheduledReadiness\<close>, \<open>ReadinessViews\<close> (\<open>scheduled_readiness.rs\<close>): schedules, clocks, the
    projector and its views; the state of one schedule is followed as a cell through every operation.

  \<^bold>\<open>Conventions.\<close> State is passed explicitly; a panic is \<open>None\<close> or an \<open>Inl\<close> payload, an
  error value \<open>Inl\<close>. \<open>u64\<close>, \<open>u32\<close> and \<open>u8\<close> are words of that width; overflow without a
  checked operation wraps, as in a release build. \<open>usize\<close> and list lengths are \<open>nat\<close>. Loops are
  total functions with a termination proof; only the JSON scanner uses fuel. Strings are byte strings.

  \<^bold>\<open>Parameters.\<close> What comes from outside the crate is an argument of the definitions:
  \<open>serde_json\<close> (\<open>tk\<close> for tuple keys, \<open>tv\<close> and \<open>de\<close> for values, the record \<open>serde\<close> for
  strings, floats and parsing), clocks, hashes and user functions. Hypotheses on them are named
  predicates (\<open>tuple_key_inj\<close>, \<open>serde_ok\<close>), and each property that uses one has
  a witness. Two functions of the crate are arguments too: a batch takes the drain of a boundary
  root (\<open>bh_drain\<close>), and the rebuilding of maps and indexes takes the conversion of a key to JSON
  by its type (\<open>anyj\<close>, \<open>any_to_checkpoint_json\<close>). The strict check of persisted frames is the
  one of \<open>json.rs\<close>; it can reject a frame, and the round trips of \<open>CollectionRestore\<close> are about
  changes that the writer's constructor of frames accepts (\<open>loggable\<close>).

  \<^bold>\<open>Not modelled.\<close> Rewiring of dependencies, the queue of tasks for the wave boundary, node
  versions and the reference counts of the node arena (\<open>node.rs\<close>): they need the arena with its
  weak references in the state of the engine. The graph layer (\<open>graph.rs\<close>): naming, retaining and
  describing nodes over the engine. Sources, operators, checkpoints and solutions, which are node
  bodies and assemblies over that layer. Content-addressed storage and write-ahead frames. File and
  database I/O, wire adapters, async drivers and the Python bindings: their behaviour is that of
  libraries outside the crate. Callbacks into a tiered lookup (the observers, a tier or loader that
  changes another tier while it is read) are left out. The node bodies that are modelled are functions of the wave they
  receive and of the state the node has stored.
\<close>

end
